(* ===== verification/Prelude.thy ===== *)
theory Prelude
  imports
    Main
    "HOL-Library.Multiset"
    "HOL-Library.Char_ord"
    "HOL-Library.List_Lexorder"
    "HOL-Library.Word"
begin

text \<open>
  The vocabulary shared by every theory of the development: Rust's three-valued comparison
  results and the comparator contract (\<^verbatim>\<open>Ord\<close>), equality as an operation of a type
  (\<^verbatim>\<open>PartialEq\<close>/\<^verbatim>\<open>Eq\<close>) instead of HOL's identity, results, the stable \<^verbatim>\<open>sort_by\<close>, the
  adjacent \<^verbatim>\<open>dedup_by\<close>, hash maps keyed up to an equality operation and ordered maps.

  Equality needs care.  \<^verbatim>\<open>RPackageVersion\<close> implements \<^verbatim>\<open>Eq\<close> by comparing canonical
  numeric components while it keeps its original spelling, so two values that Rust calls
  equal may differ as HOL values.  Every derived \<^verbatim>\<open>PartialEq\<close> above it inherits that.  The
  model therefore writes each such equality as a function, and the locale \<open>rust_eq\<close> states
  what a hash map needs of it.
\<close>

named_theorems res_simps \<open>unfolding rules for results\<close>
named_theorems eq_laws \<open>reflexivity, symmetry and transitivity of the equality operations\<close>

section \<open>Results\<close>

text \<open>\<^verbatim>\<open>Result<T, E>\<close> is \<open>'e + 'a\<close>, with \<open>Inl\<close> for \<^verbatim>\<open>Err\<close>.\<close>

definition bind_res :: "'e + 'a \<Rightarrow> ('a \<Rightarrow> 'e + 'b) \<Rightarrow> 'e + 'b" where
  "bind_res r f = (case r of Inl e \<Rightarrow> Inl e | Inr x \<Rightarrow> f x)"

definition map_err :: "('e \<Rightarrow> 'f) \<Rightarrow> 'e + 'a \<Rightarrow> 'f + 'a" where
  "map_err f r = (case r of Inl e \<Rightarrow> Inl (f e) | Inr x \<Rightarrow> Inr x)"

definition map_res :: "('a \<Rightarrow> 'b) \<Rightarrow> 'e + 'a \<Rightarrow> 'e + 'b" where
  "map_res f r = (case r of Inl e \<Rightarrow> Inl e | Inr x \<Rightarrow> Inr (f x))"

definition is_ok :: "'e + 'a \<Rightarrow> bool" where
  "is_ok r = (case r of Inl _ \<Rightarrow> False | Inr _ \<Rightarrow> True)"

text \<open>Code that can also panic: an error the caller receives, or a panic with its message.\<close>

datatype 'e abort = Raised 'e | Panicked string

definition expect :: "string \<Rightarrow> 'a option \<Rightarrow> 'e abort + 'a" where
  "expect message v = (case v of Some x \<Rightarrow> Inr x | None \<Rightarrow> Inl (Panicked message))"

text \<open>\<^verbatim>\<open>try_fold\<close> and \<^verbatim>\<open>collect::<Result<Vec<_>, _>>\<close>: both stop at the first error.\<close>

fun try_fold :: "('s \<Rightarrow> 'a \<Rightarrow> 'e + 's) \<Rightarrow> 's \<Rightarrow> 'a list \<Rightarrow> 'e + 's" where
  "try_fold f s [] = Inr s"
| "try_fold f s (x # xs) = bind_res (f s x) (\<lambda>s'. try_fold f s' xs)"

fun try_map :: "('a \<Rightarrow> 'e + 'b) \<Rightarrow> 'a list \<Rightarrow> 'e + 'b list" where
  "try_map f [] = Inr []"
| "try_map f (x # xs) = bind_res (f x) (\<lambda>y. map_res (Cons y) (try_map f xs))"

text \<open>A loop that runs a check on every element and stops at the first error.\<close>

definition each :: "('a \<Rightarrow> 'e + unit) \<Rightarrow> 'a list \<Rightarrow> 'e + unit" where
  "each f xs = map_res (\<lambda>_. ()) (try_map f xs)"

definition ok_or :: "'e \<Rightarrow> 'a option \<Rightarrow> 'e + 'a" where
  "ok_or e v = (case v of Some x \<Rightarrow> Inr x | None \<Rightarrow> Inl e)"

text \<open>\<^verbatim>\<open>Option<Result>::transpose\<close>.\<close>

definition transpose :: "('e + 'a) option \<Rightarrow> 'e + 'a option" where
  "transpose v = (case v of None \<Rightarrow> Inr None | Some r \<Rightarrow> map_res Some r)"

text \<open>\<^verbatim>\<open>Iterator::find_map\<close>.\<close>

fun find_map :: "('a \<Rightarrow> 'b option) \<Rightarrow> 'a list \<Rightarrow> 'b option" where
  "find_map f [] = None"
| "find_map f (x # xs) = (case f x of Some y \<Rightarrow> Some y | None \<Rightarrow> find_map f xs)"

section \<open>Comparison results and comparators\<close>

datatype ordering = Less | Equal | Greater

definition reverse_ordering :: "ordering \<Rightarrow> ordering" where
  "reverse_ordering c = (case c of Less \<Rightarrow> Greater | Equal \<Rightarrow> Equal | Greater \<Rightarrow> Less)"

definition then_with :: "ordering \<Rightarrow> ordering \<Rightarrow> ordering" where
  "then_with a b = (case a of Less \<Rightarrow> Less | Equal \<Rightarrow> b | Greater \<Rightarrow> Greater)"

definition cmp_of :: "'a::linorder \<Rightarrow> 'a \<Rightarrow> ordering" where
  "cmp_of x y = (if x < y then Less else if x = y then Equal else Greater)"

text \<open>\<^verbatim>\<open>Iterator::cmp\<close>: lexicographic, a proper prefix is less.\<close>

fun iter_cmp :: "'a::linorder list \<Rightarrow> 'a list \<Rightarrow> ordering" where
  "iter_cmp [] [] = Equal"
| "iter_cmp [] (_ # _) = Less"
| "iter_cmp (_ # _) [] = Greater"
| "iter_cmp (x # xs) (y # ys) = then_with (cmp_of x y) (iter_cmp xs ys)"

text \<open>The derived order on \<^verbatim>\<open>Option\<close>: \<^verbatim>\<open>None\<close> is less than every \<^verbatim>\<open>Some\<close>.\<close>

fun option_cmp :: "'a::linorder option \<Rightarrow> 'a option \<Rightarrow> ordering" where
  "option_cmp None None = Equal"
| "option_cmp None (Some _) = Less"
| "option_cmp (Some _) None = Greater"
| "option_cmp (Some x) (Some y) = cmp_of x y"

section \<open>Sorting and deduplication\<close>

text \<open>
  \<^verbatim>\<open>slice::sort_by\<close> is a stable sort: an element stays before the later elements it compares
  equal to.
\<close>

fun insort_by :: "('a \<Rightarrow> 'a \<Rightarrow> ordering) \<Rightarrow> 'a \<Rightarrow> 'a list \<Rightarrow> 'a list" where
  "insort_by cmp x [] = [x]"
| "insort_by cmp x (y # ys) = (if cmp x y = Greater then y # insort_by cmp x ys else x # y # ys)"

fun sort_by :: "('a \<Rightarrow> 'a \<Rightarrow> ordering) \<Rightarrow> 'a list \<Rightarrow> 'a list" where
  "sort_by cmp [] = []"
| "sort_by cmp (x # xs) = insort_by cmp x (sort_by cmp xs)"

text \<open>\<^verbatim>\<open>Vec::dedup_by\<close>: an element equal to the retained one before it is dropped.\<close>

fun dedup_by :: "('a \<Rightarrow> 'a \<Rightarrow> bool) \<Rightarrow> 'a list \<Rightarrow> 'a list" where
  "dedup_by same [] = []"
| "dedup_by same [x] = [x]"
| "dedup_by same (x # y # xs) =
     (if same y x then dedup_by same (x # xs) else x # dedup_by same (y # xs))"

text \<open>The recurring idiom \<^verbatim>\<open>sort_by(key); dedup_by(key)\<close>.\<close>

definition canonical_by :: "('a \<Rightarrow> 'k::linorder) \<Rightarrow> 'a list \<Rightarrow> 'a list" where
  "canonical_by f xs = dedup_by (\<lambda>l r. f l = f r) (sort_by (\<lambda>l r. cmp_of (f l) (f r)) xs)"

section \<open>Hash maps keyed up to an equality operation, and ordered maps\<close>

text \<open>
  A \<^verbatim>\<open>HashMap<K, V>\<close> as the list of its entries in insertion order.  \<^verbatim>\<open>insert\<close> keeps the stored
  key and replaces its value, as the standard library documents.
\<close>

fun hm_get :: "('k \<Rightarrow> 'k \<Rightarrow> bool) \<Rightarrow> ('k \<times> 'v) list \<Rightarrow> 'k \<Rightarrow> 'v option" where
  "hm_get eq [] k = None"
| "hm_get eq ((k', v) # m) k = (if eq k' k then Some v else hm_get eq m k)"

fun hm_insert :: "('k \<Rightarrow> 'k \<Rightarrow> bool) \<Rightarrow> ('k \<times> 'v) list \<Rightarrow> 'k \<Rightarrow> 'v \<Rightarrow> ('k \<times> 'v) list" where
  "hm_insert eq [] k v = [(k, v)]"
| "hm_insert eq ((k', v') # m) k v = (if eq k' k then (k', v) # m else (k', v') # hm_insert eq m k v)"

text \<open>A \<^verbatim>\<open>BTreeMap<K, V>\<close> as its entries in key order.\<close>

fun bt_insert :: "('k::linorder \<times> 'v) list \<Rightarrow> 'k \<Rightarrow> 'v \<Rightarrow> ('k \<times> 'v) list" where
  "bt_insert [] k v = [(k, v)]"
| "bt_insert ((k', v') # m) k v =
     (if k < k' then (k, v) # (k', v') # m
      else if k = k' then (k', v) # m
      else (k', v') # bt_insert m k v)"

definition bt_remove :: "('k \<times> 'v) list \<Rightarrow> 'k \<Rightarrow> ('k \<times> 'v) list" where
  "bt_remove m k = filter (\<lambda>e. fst e \<noteq> k) m"

text \<open>Collecting entries into a \<^verbatim>\<open>BTreeMap\<close>: the last entry of a key wins.\<close>

definition bt_collect :: "('k::linorder \<times> 'v) list \<Rightarrow> ('k \<times> 'v) list" where
  "bt_collect entries = foldl (\<lambda>m (k, v). bt_insert m k v) [] entries"

text \<open>
  Collecting values into a hash map by a key, merging those with equal keys: the pattern of
  \<^verbatim>\<open>ReleaseAggregation\<close> and \<^verbatim>\<open>PreparedCandidateSet\<close>.
\<close>

definition union_insert ::
  "('k \<Rightarrow> 'k \<Rightarrow> bool) \<Rightarrow> ('v \<Rightarrow> 'k) \<Rightarrow> ('v \<Rightarrow> 'v \<Rightarrow> 'e + 'v) \<Rightarrow> ('k \<times> 'v) list \<Rightarrow> 'v \<Rightarrow> 'e + ('k \<times> 'v) list" where
  "union_insert eq key merge m x =
     (case hm_get eq m (key x) of
        Some e \<Rightarrow> map_res (hm_insert eq m (key x)) (merge e x)
      | None \<Rightarrow> Inr (hm_insert eq m (key x) x))"

section \<open>Stateful code\<close>

text \<open>
  Code that reads and updates a \<^verbatim>\<open>RefCell\<close> and may fail: it returns a result and the new state,
  also when it fails.
\<close>

type_synonym ('s, 'e, 'a) sm = "'s \<Rightarrow> ('e + 'a) \<times> 's"

definition ret_s :: "'a \<Rightarrow> ('s, 'e, 'a) sm" where
  "ret_s x = (\<lambda>s. (Inr x, s))"

definition lift_s :: "'e + 'a \<Rightarrow> ('s, 'e, 'a) sm" where
  "lift_s r = (\<lambda>s. (r, s))"

definition bind_s :: "('s, 'e, 'a) sm \<Rightarrow> ('a \<Rightarrow> ('s, 'e, 'b) sm) \<Rightarrow> ('s, 'e, 'b) sm" where
  "bind_s m f = (\<lambda>s. case m s of (Inl e, s') \<Rightarrow> (Inl e, s') | (Inr x, s') \<Rightarrow> f x s')"

definition map_err_s :: "('e \<Rightarrow> 'f) \<Rightarrow> ('s, 'e, 'a) sm \<Rightarrow> ('s, 'f, 'a) sm" where
  "map_err_s g m = (\<lambda>s. case m s of (r, s') \<Rightarrow> (map_err g r, s'))"

text \<open>A loop that collects the results of its body and stops at the first error.\<close>

fun mapm_s :: "('a \<Rightarrow> ('s, 'e, 'b) sm) \<Rightarrow> 'a list \<Rightarrow> ('s, 'e, 'b list) sm" where
  "mapm_s f [] = ret_s []"
| "mapm_s f (x # xs) = bind_s (f x) (\<lambda>y. bind_s (mapm_s f xs) (\<lambda>ys. ret_s (y # ys)))"

text \<open>A loop that updates an accumulator and stops at the first error.\<close>

fun foldm_s :: "('b \<Rightarrow> 'a \<Rightarrow> ('s, 'e, 'b) sm) \<Rightarrow> 'b \<Rightarrow> 'a list \<Rightarrow> ('s, 'e, 'b) sm" where
  "foldm_s f acc [] = ret_s acc"
| "foldm_s f acc (x # xs) = bind_s (f acc x) (\<lambda>a. foldm_s f a xs)"

text \<open>A computation keeps the invariant and only extends the state.\<close>

definition keeps :: "('s \<Rightarrow> bool) \<Rightarrow> ('s \<Rightarrow> 's \<Rightarrow> bool) \<Rightarrow> ('s, 'e, 'a) sm \<Rightarrow> bool" where
  "keeps good ext m \<longleftrightarrow> (\<forall>s. good s \<longrightarrow> good (snd (m s)) \<and> ext s (snd (m s)))"

section \<open>Lemmas on results\<close>

lemma bind_res_simps [simp, res_simps]:
  "bind_res (Inl e) f = Inl e" "bind_res (Inr x) f = f x"
  by (simp_all add: bind_res_def)

lemma map_err_simps [simp, res_simps]:
  "map_err g (Inl e) = Inl (g e)" "map_err g (Inr x) = Inr x"
  by (simp_all add: map_err_def)

lemma map_res_simps [simp, res_simps]:
  "map_res g (Inl e) = Inl e" "map_res g (Inr x) = Inr (g x)"
  by (simp_all add: map_res_def)

lemma bind_res_Inr_iff: "bind_res r f = Inr y \<longleftrightarrow> (\<exists>x. r = Inr x \<and> f x = Inr y)"
  by (cases r) simp_all

lemma bind_res_Inl_iff:
  "bind_res r f = Inl e \<longleftrightarrow> r = Inl e \<or> (\<exists>x. r = Inr x \<and> f x = Inl e)"
  by (cases r) auto

lemma map_err_Inr_iff [simp]: "map_err g r = Inr y \<longleftrightarrow> r = Inr y"
  by (cases r) simp_all

lemma map_res_Inr_iff: "map_res g r = Inr y \<longleftrightarrow> (\<exists>x. r = Inr x \<and> y = g x)"
  by (cases r) auto

lemma is_ok_iff: "is_ok r \<longleftrightarrow> (\<exists>x. r = Inr x)"
  by (cases r) (simp_all add: is_ok_def)

lemma try_fold_append:
  "try_fold f s (xs @ ys) = bind_res (try_fold f s xs) (\<lambda>s'. try_fold f s' ys)"
proof (induction xs arbitrary: s)
  case (Cons x xs)
  then show ?case by (cases "f s x") simp_all
qed simp

lemma try_fold_enumerate_Inl:
  "try_fold f s (enumerate n xs) = Inl e \<longleftrightarrow>
     (\<exists>pre x post s'. xs = pre @ x # post \<and> try_fold f s (enumerate n pre) = Inr s' \<and> f s' (n + length pre, x) = Inl e)"
proof (induction xs arbitrary: n s)
  case (Cons x xs)
  have split: "(\<exists>pre y post s'. x # xs = pre @ y # post \<and> Q pre y s') \<longleftrightarrow>
      (\<exists>s'. Q [] x s') \<or> (\<exists>pre y post s'. xs = pre @ y # post \<and> Q (x # pre) y s')" (is "?l \<longleftrightarrow> ?r") for Q
  proof
    assume ?l
    then obtain pre y post s' where "x # xs = pre @ y # post" "Q pre y s'" by blast
    then show ?r by (cases pre) auto
  qed (metis append_Cons append_Nil)
  show ?case unfolding split using Cons.IH by (cases "f s (n, x)") simp_all
qed simp

text \<open>The invariant rule for a fold that may fail.\<close>

lemma try_fold_invariant:
  assumes "try_fold f s xs = Inr s'" and "I s"
    and "\<And>s x s'. x \<in> set xs \<Longrightarrow> I s \<Longrightarrow> f s x = Inr s' \<Longrightarrow> I s'"
  shows "I s'"
  using assms
proof (induction xs arbitrary: s)
  case (Cons x xs)
  from Cons.prems(1) obtain t where t: "f s x = Inr t" "try_fold f t xs = Inr s'"
    by (auto simp: bind_res_Inr_iff)
  have "I t" using Cons.prems(3)[OF _ Cons.prems(2) t(1)] by simp
  then show ?case using Cons.IH[OF t(2)] Cons.prems(3) by auto
qed simp

lemma try_map_Inr_iff:
  "try_map f xs = Inr ys \<longleftrightarrow> list_all2 (\<lambda>x y. f x = Inr y) xs ys"
proof (induction xs arbitrary: ys)
  case (Cons x xs)
  then show ?case by (auto simp: bind_res_Inr_iff map_res_Inr_iff list_all2_Cons1)
qed auto

lemma try_map_mem: "try_map f xs = Inr ys \<Longrightarrow> y \<in> set ys \<Longrightarrow> \<exists>x\<in>set xs. f x = Inr y"
  by (induction xs arbitrary: ys) (auto simp: bind_res_Inr_iff map_res_Inr_iff)

lemma each_Inr_iff: "each f xs = Inr u \<longleftrightarrow> (\<forall>x\<in>set xs. f x = Inr ())"
  by (induction xs) (auto simp: each_def bind_res_Inr_iff map_res_Inr_iff)

lemma each_Inl: "each f xs = Inl e \<Longrightarrow> \<exists>x\<in>set xs. f x = Inl e"
proof (induction xs)
  case (Cons x xs)
  then show ?case by (cases "f x"; cases "try_map f xs") (auto simp: each_def)
qed (simp add: each_def)

lemma ok_or_Inr_iff: "ok_or e v = Inr x \<longleftrightarrow> v = Some x"
  by (cases v) (simp_all add: ok_or_def)

lemma transpose_Inr_iff:
  "transpose v = Inr w \<longleftrightarrow> (v = None \<and> w = None \<or> (\<exists>x. v = Some (Inr x) \<and> w = Some x))"
  by (cases v) (auto simp: transpose_def map_res_Inr_iff)

lemma find_map_SomeD: "find_map f xs = Some y \<Longrightarrow> \<exists>x\<in>set xs. f x = Some y"
  by (induction xs) (auto split: option.splits)

lemma find_map_None_iff: "find_map f xs = None \<longleftrightarrow> (\<forall>x\<in>set xs. f x = None)"
  by (induction xs) (auto split: option.splits)

lemma find_map_cong_eq:
  "(\<And>x. x \<in> set xs \<Longrightarrow> f x = g x) \<Longrightarrow> find_map f xs = find_map g xs"
  by (induction xs) (auto split: option.splits)

section \<open>Lemmas on stateful code\<close>

lemma bind_s_Inr_iff:
  "bind_s m f s = (Inr y, t) \<longleftrightarrow> (\<exists>x u. m s = (Inr x, u) \<and> f x u = (Inr y, t))"
  by (auto simp: bind_s_def split: prod.splits sum.splits)

lemma ret_s_iff [simp]: "ret_s x s = (r, t) \<longleftrightarrow> r = Inr x \<and> t = s"
  by (auto simp: ret_s_def)

lemma lift_s_iff [simp]: "lift_s r s = (q, t) \<longleftrightarrow> r = q \<and> t = s"
  by (auto simp: lift_s_def)

lemma map_err_s_Inr_iff [simp]: "map_err_s g m s = (Inr x, t) \<longleftrightarrow> m s = (Inr x, t)"
  by (auto simp: map_err_s_def split: prod.splits)

locale state_protocol =
  fixes good :: "'s \<Rightarrow> bool" and ext :: "'s \<Rightarrow> 's \<Rightarrow> bool"
  assumes ext_refl: "ext s s"
    and ext_trans: "ext s t \<Longrightarrow> ext t u \<Longrightarrow> ext s u"
begin

lemma keepsD: "keeps good ext m \<Longrightarrow> good s \<Longrightarrow> m s = (r, t) \<Longrightarrow> good t \<and> ext s t"
  by (metis keeps_def snd_conv)

lemma keeps_ret: "keeps good ext (ret_s x)"
  by (simp add: keeps_def ret_s_def ext_refl)

lemma keeps_lift: "keeps good ext (lift_s r)"
  by (simp add: keeps_def lift_s_def ext_refl)

lemma keeps_map_err: "keeps good ext m \<Longrightarrow> keeps good ext (map_err_s g m)"
  by (simp add: keeps_def map_err_s_def case_prod_beta)

lemma keeps_bind:
  assumes "keeps good ext m" "\<And>x. keeps good ext (f x)"
  shows "keeps good ext (bind_s m f)"
  unfolding keeps_def
proof (intro allI impI)
  fix s assume "good s"
  obtain r t where mt: "m s = (r, t)" by (cases "m s")
  then have t: "good t" "ext s t" using keepsD[OF assms(1) \<open>good s\<close>] by auto
  show "good (snd (bind_s m f s)) \<and> ext s (snd (bind_s m f s))"
  proof (cases r)
    case (Inl e)
    then show ?thesis using mt t by (simp add: bind_s_def)
  next
    case (Inr x)
    have "good (snd (f x t)) \<and> ext t (snd (f x t))" using assms(2) t(1) by (simp add: keeps_def)
    then show ?thesis using mt t ext_trans[OF t(2)] by (simp add: bind_s_def Inr)
  qed
qed

lemma keeps_mapm: "(\<And>x. x \<in> set xs \<Longrightarrow> keeps good ext (f x)) \<Longrightarrow> keeps good ext (mapm_s f xs)"
  by (induction xs) (auto intro!: keeps_bind keeps_ret)

lemmas keeps_intros = keeps_bind keeps_ret keeps_lift keeps_map_err keeps_mapm

end

section \<open>Equality operations\<close>

text \<open>What \<^verbatim>\<open>Eq\<close> promises, and all a hash map needs.\<close>

locale rust_eq =
  fixes eq :: "'a \<Rightarrow> 'a \<Rightarrow> bool"
  assumes eq_refl: "eq x x"
    and eq_sym: "eq x y \<Longrightarrow> eq y x"
    and eq_trans: "eq x y \<Longrightarrow> eq y z \<Longrightarrow> eq x z"
begin

lemma eq_commute: "eq x y \<longleftrightarrow> eq y x"
  using eq_sym by blast

lemma eq_cong_left: "eq x y \<Longrightarrow> eq x z = eq y z"
  using eq_sym eq_trans by blast

lemma eq_cong_right: "eq x y \<Longrightarrow> eq z x = eq z y"
  using eq_sym eq_trans by blast

lemma hm_get_cong: "eq j k \<Longrightarrow> hm_get eq m j = hm_get eq m k"
proof (induction m)
  case (Cons e m)
  obtain k' v where e: "e = (k', v)" by (cases e)
  have "eq k' j \<longleftrightarrow> eq k' k" by (rule eq_cong_right) (rule Cons.prems)
  then show ?case by (simp only: e hm_get.simps Cons.IH[OF Cons.prems])
qed simp

lemma hm_get_insert: "hm_get eq (hm_insert eq m k v) j = (if eq k j then Some v else hm_get eq m j)"
proof (induction m)
  case (Cons e m)
  obtain k' v' where e: "e = (k', v')" by (cases e)
  show ?case
  proof (cases "eq k' k")
    case True
    then show ?thesis using e eq_cong_left[of k' k j] by simp
  next
    case False
    have "\<not> eq k' j" if "eq k j" using False that eq_sym eq_trans by blast
    then show ?thesis using False Cons.IH by (simp add: e)
  qed
qed simp

lemma hm_get_insert_same: "hm_get eq (hm_insert eq m k v) k = Some v"
  by (simp add: hm_get_insert eq_refl)

lemma hm_get_Some_key: "hm_get eq m k = Some v \<Longrightarrow> \<exists>k'. (k', v) \<in> set m \<and> eq k' k"
proof (induction m)
  case (Cons e m)
  then show ?case by (cases e) (auto split: if_splits)
qed simp

lemma hm_get_None_iff: "hm_get eq m k = None \<longleftrightarrow> (\<forall>e\<in>set m. \<not> eq (fst e) k)"
proof (induction m)
  case (Cons e m)
  then show ?case by (cases e) auto
qed simp

lemma hm_insert_cong: "eq j k \<Longrightarrow> hm_get eq m k \<noteq> None \<Longrightarrow> hm_insert eq m j v = hm_insert eq m k v"
proof (induction m)
  case (Cons e m)
  obtain k' v' where e: "e = (k', v')" by (cases e)
  have "eq k' j \<longleftrightarrow> eq k' k" by (rule eq_cong_right) (rule Cons.prems)
  then show ?case using Cons by (cases "eq k' k") (simp_all add: e)
qed simp

lemma hm_insert_entry:
  "e \<in> set (hm_insert eq m k v) \<Longrightarrow> e \<in> set m \<or> (snd e = v \<and> eq (fst e) k)"
proof (induction m)
  case (Cons d m)
  then show ?case by (cases d) (auto split: if_splits)
qed (simp add: eq_refl)

lemma hm_insert_keys:
  "e \<in> set (hm_insert eq m k v) \<Longrightarrow> (\<exists>d\<in>set m. fst d = fst e) \<or> fst e = k \<and> hm_get eq m k = None"
proof (induction m)
  case (Cons d m)
  then show ?case by (cases d) (auto split: if_splits)
qed simp

lemma hm_distinct_insert:
  "sorted_wrt (\<lambda>a b. \<not> eq (fst a) (fst b)) m \<Longrightarrow>
   sorted_wrt (\<lambda>a b. \<not> eq (fst a) (fst b)) (hm_insert eq m k v)"
proof (induction m)
  case (Cons d m)
  obtain k' v' where d: "d = (k', v')" by (cases d)
  show ?case
  proof (cases "eq k' k")
    case True
    then show ?thesis using Cons.prems by (simp add: d)
  next
    case False
    have "\<not> eq k' (fst e)" if "e \<in> set (hm_insert eq m k v)" for e
      using hm_insert_keys[OF that] Cons.prems False by (auto simp: d)
    then show ?thesis using False Cons by (simp add: d)
  qed
qed simp

lemma hm_get_entry:
  "sorted_wrt (\<lambda>a b. \<not> eq (fst a) (fst b)) m \<Longrightarrow> e \<in> set m \<Longrightarrow> hm_get eq m (fst e) = Some (snd e)"
proof (induction m)
  case (Cons d m)
  then show ?case by (cases d) (auto simp: eq_refl)
qed simp

lemma hm_insert_fresh: "hm_get eq m k = None \<Longrightarrow> hm_insert eq m k v = m @ [(k, v)]"
proof (induction m)
  case (Cons e m)
  then show ?case by (cases e) (auto split: if_splits)
qed simp

end

interpretation hol_eq: rust_eq "(=)"
  by unfold_locales auto

text \<open>
  What a client of such a union supplies: a merge that keeps the key and maintains a summary of
  the values merged so far.  What it gets: every entry summarises exactly the values of its key.
\<close>

locale keyed_union = rust_eq eq for eq :: "'k \<Rightarrow> 'k \<Rightarrow> bool" +
  fixes key :: "'v \<Rightarrow> 'k" and merge :: "'v \<Rightarrow> 'v \<Rightarrow> 'e + 'v" and summary :: "'v list \<Rightarrow> 'v \<Rightarrow> bool"
  assumes summary_first: "summary [x] x"
    and summary_merge: "summary xs a \<Longrightarrow> eq (key a) (key x) \<Longrightarrow> merge a x = Inr m \<Longrightarrow> summary (xs @ [x]) m"
    and merge_key: "merge a x = Inr m \<Longrightarrow> key m = key a"
begin

lemma union_insert_invariant:
  assumes "\<And>i v. hm_get eq m i = Some v \<Longrightarrow> eq (key v) i \<and> summary (filter (\<lambda>x. eq (key x) i) xs) v"
    and "\<And>i. hm_get eq m i = None \<Longrightarrow> filter (\<lambda>x. eq (key x) i) xs = []"
    and step: "union_insert eq key merge m x = Inr m'"
  shows "(hm_get eq m' i = Some v \<longrightarrow> eq (key v) i \<and> summary (filter (\<lambda>x. eq (key x) i) (xs @ [x])) v) \<and>
         (hm_get eq m' i = None \<longrightarrow> filter (\<lambda>x. eq (key x) i) (xs @ [x]) = [])"
proof -
  obtain w where m': "m' = hm_insert eq m (key x) w" and kw: "eq (key w) (key x)"
    and w: "summary (filter (\<lambda>y. eq (key y) (key x)) (xs @ [x])) w"
  proof (cases "hm_get eq m (key x)")
    case None
    then show ?thesis using that[of x] step assms(2)[OF None] summary_first
      by (simp add: union_insert_def eq_refl)
  next
    case (Some e)
    then obtain w where "merge e x = Inr w" "m' = hm_insert eq m (key x) w"
      using step by (auto simp: union_insert_def map_res_Inr_iff)
    moreover have "summary (filter (\<lambda>y. eq (key y) (key x)) xs @ [x]) w"
      using assms(1)[OF Some] summary_merge[OF _ _ calculation(1)] by blast
    ultimately show ?thesis using that[of w] assms(1)[OF Some] merge_key[of e x w]
      by (simp add: eq_refl)
  qed
  have cong: "filter (\<lambda>y. eq (key y) (key x)) ys = filter (\<lambda>y. eq (key y) i) ys" if "eq (key x) i" for ys
    using eq_cong_right[OF that] by simp
  show ?thesis
  proof (cases "eq (key x) i")
    case True
    then show ?thesis using w kw cong[OF True] eq_trans by (auto simp: m' hm_get_insert)
  next
    case False
    then show ?thesis using assms(1,2) by (simp add: m' hm_get_insert)
  qed
qed

lemma union_get:
  assumes "try_fold (union_insert eq key merge) [] xs = Inr m"
  shows "(hm_get eq m i = Some v \<longrightarrow> eq (key v) i \<and> summary (filter (\<lambda>x. eq (key x) i) xs) v) \<and>
         (hm_get eq m i = None \<longrightarrow> filter (\<lambda>x. eq (key x) i) xs = [])"
  using assms
proof (induction xs arbitrary: m i v rule: rev_induct)
  case (snoc x xs)
  obtain n where n: "try_fold (union_insert eq key merge) [] xs = Inr n" "union_insert eq key merge n x = Inr m"
    using snoc.prems by (auto simp: try_fold_append bind_res_Inr_iff)
  show ?case using snoc.IH[OF n(1)] n(2) by (intro union_insert_invariant) blast+
qed simp

lemma union_entries:
  assumes "try_fold (union_insert eq key merge) [] xs = Inr m"
  shows "sorted_wrt (\<lambda>a b. \<not> eq (fst a) (fst b)) m \<and> (\<forall>e\<in>set m. eq (fst e) (key (snd e)))"
  using assms
proof (induction xs arbitrary: m rule: rev_induct)
  case (snoc x xs)
  obtain n where n: "try_fold (union_insert eq key merge) [] xs = Inr n" "union_insert eq key merge n x = Inr m"
    using snoc.prems by (auto simp: try_fold_append bind_res_Inr_iff)
  obtain w where m: "m = hm_insert eq n (key x) w" and kw: "eq (key w) (key x)"
    using n(2) union_get[OF n(1)] merge_key
    by (cases "hm_get eq n (key x)") (auto simp: union_insert_def map_res_Inr_iff eq_refl)
  have "eq (fst e) (key (snd e))" if "e \<in> set m" for e
    using hm_insert_entry[OF that[unfolded m]] snoc.IH[OF n(1)] kw eq_sym eq_trans by blast
  moreover have "sorted_wrt (\<lambda>a b. \<not> eq (fst a) (fst b)) m"
    unfolding m using snoc.IH[OF n(1)] by (intro hm_distinct_insert) blast
  ultimately show ?case by blast
qed simp

lemma union_values:
  assumes "try_fold (union_insert eq key merge) [] xs = Inr m" "v \<in> set (map snd m)"
  shows "summary (filter (\<lambda>x. eq (key x) (key v)) xs) v"
proof -
  obtain e where e: "e \<in> set m" "v = snd e" using assms(2) by auto
  then have get: "hm_get eq m (fst e) = Some v" and "eq (fst e) (key v)"
    using union_entries[OF assms(1)] hm_get_entry[of m e] by blast+
  from hm_get_cong[OF this(2), of m] have "hm_get eq m (key v) = Some v" by (simp only: get)
  then show ?thesis using union_get[OF assms(1)] by blast
qed

lemma union_source:
  assumes "try_fold (union_insert eq key merge) [] xs = Inr m" "v \<in> set (map snd m)"
  shows "\<exists>x\<in>set xs. eq (key x) (key v)"
  using assms
proof (induction xs arbitrary: m v rule: rev_induct)
  case (snoc x xs)
  obtain n where n: "try_fold (union_insert eq key merge) [] xs = Inr n" "union_insert eq key merge n x = Inr m"
    using snoc.prems(1) by (auto simp: try_fold_append bind_res_Inr_iff)
  obtain w where m: "m = hm_insert eq n (key x) w" and kw: "eq (key w) (key x)"
    using n(2) union_get[OF n(1)] merge_key
    by (cases "hm_get eq n (key x)") (auto simp: union_insert_def map_res_Inr_iff eq_refl)
  obtain e where "e \<in> set m" "v = snd e" using snoc.prems(2) by auto
  then have "v \<in> set (map snd n) \<or> v = w" using hm_insert_entry[of e n "key x" w] by (auto simp: m)
  then show ?case using snoc.IH[OF n(1)] kw eq_sym by (auto simp: image_iff)
qed simp

lemma union_value_of:
  assumes "try_fold (union_insert eq key merge) [] xs = Inr m" "x \<in> set xs"
  shows "\<exists>v\<in>set (map snd m). eq (key v) (key x)"
proof (cases "hm_get eq m (key x)")
  case None
  then have "filter (\<lambda>y. eq (key y) (key x)) xs = []" using union_get[OF assms(1)] by blast
  then show ?thesis using assms(2) eq_refl by (auto simp: filter_empty_conv)
next
  case (Some v)
  obtain k where "(k, v) \<in> set m" using hm_get_Some_key[OF Some] by blast
  then have "v \<in> set (map snd m)" by force
  moreover have "eq (key v) (key x)" using union_get[OF assms(1)] Some by blast
  ultimately show ?thesis by blast
qed

lemma union_values_distinct:
  assumes "try_fold (union_insert eq key merge) [] xs = Inr m"
  shows "sorted_wrt (\<lambda>a b. \<not> eq (key a) (key b)) (map snd m)"
proof -
  note U = union_entries[OF assms]
  have "sorted_wrt (\<lambda>a b. \<not> eq (key (snd a)) (key (snd b))) m"
  proof (rule sorted_wrt_mono_rel[of m "\<lambda>a b. \<not> eq (fst a) (fst b)"])
    show "sorted_wrt (\<lambda>a b. \<not> eq (fst a) (fst b)) m" using U by blast
    fix a b assume "a \<in> set m" "b \<in> set m" and ne: "\<not> eq (fst a) (fst b)"
    then have "eq (fst a) (key (snd a))" "eq (fst b) (key (snd b))" using U by blast+
    then show "\<not> eq (key (snd a)) (key (snd b))" using ne eq_sym eq_trans by blast
  qed
  then show ?thesis by (simp add: sorted_wrt_map)
qed

end

section \<open>Comparators\<close>

lemma reverse_ordering_simps [simp]:
  "reverse_ordering Less = Greater" "reverse_ordering Equal = Equal" "reverse_ordering Greater = Less"
  by (simp_all add: reverse_ordering_def)

lemma reverse_ordering_eq_iff [simp]:
  "reverse_ordering c = Less \<longleftrightarrow> c = Greater"
  "reverse_ordering c = Equal \<longleftrightarrow> c = Equal"
  "reverse_ordering c = Greater \<longleftrightarrow> c = Less"
  by (cases c; simp)+

lemma reverse_reverse [simp]: "reverse_ordering (reverse_ordering c) = c"
  by (cases c) simp_all

lemma then_with_simps [simp]:
  "then_with Less b = Less" "then_with Equal b = b" "then_with Greater b = Greater"
  by (simp_all add: then_with_def)

lemma then_with_eq_iff:
  "then_with a b = Less \<longleftrightarrow> a = Less \<or> a = Equal \<and> b = Less"
  "then_with a b = Equal \<longleftrightarrow> a = Equal \<and> b = Equal"
  "then_with a b = Greater \<longleftrightarrow> a = Greater \<or> a = Equal \<and> b = Greater"
  by (cases a; simp)+

lemma reverse_then_with:
  "reverse_ordering (then_with a b) = then_with (reverse_ordering a) (reverse_ordering b)"
  by (cases a) simp_all

text \<open>What \<^verbatim>\<open>Ord\<close> promises: a total preorder read off three-valued comparisons.\<close>

locale total_cmp =
  fixes cmp :: "'a \<Rightarrow> 'a \<Rightarrow> ordering"
  assumes cmp_refl: "cmp x x = Equal"
    and cmp_flip: "cmp y x = reverse_ordering (cmp x y)"
    and cmp_le_trans: "cmp x y \<noteq> Greater \<Longrightarrow> cmp y z \<noteq> Greater \<Longrightarrow> cmp x z \<noteq> Greater"
begin

lemma cmp_equal_sym: "cmp x y = Equal \<Longrightarrow> cmp y x = Equal"
  using cmp_flip[of y x] by simp

lemma cmp_equal_trans:
  assumes "cmp x y = Equal" and "cmp y z = Equal"
  shows "cmp x z = Equal"
proof -
  have "cmp x z \<noteq> Greater" using assms cmp_le_trans[of x y z] by simp
  moreover have "cmp z x \<noteq> Greater"
    using assms[THEN cmp_equal_sym] cmp_le_trans[of z y x] by simp
  ultimately show ?thesis using cmp_flip[of z x] by (cases "cmp x z") auto
qed

lemma cmp_total: "cmp x y \<noteq> Greater \<or> cmp y x \<noteq> Greater"
  using cmp_flip[of y x] by (cases "cmp x y") auto

lemma cmp_greater_le: "cmp x y = Greater \<Longrightarrow> cmp y x \<noteq> Greater"
  using cmp_flip[of y x] by simp

lemma cmp_less_trans:
  assumes "cmp x y = Less" and "cmp y z \<noteq> Greater"
  shows "cmp x z = Less"
proof (rule ccontr)
  assume "cmp x z \<noteq> Less"
  then have "cmp z x \<noteq> Greater" using cmp_flip[of z x] by (cases "cmp x z") auto
  then have "cmp y x \<noteq> Greater" using assms(2) cmp_le_trans by blast
  with assms(1) show False using cmp_flip[of y x] by simp
qed

lemma cmp_cong_left:
  assumes "cmp x y = Equal"
  shows "cmp x z = cmp y z"
proof (cases "cmp y z")
  case Less
  then have "cmp x z \<noteq> Greater" using assms cmp_le_trans[of x y z] by simp
  moreover have "cmp x z \<noteq> Equal"
    using Less assms cmp_equal_trans cmp_equal_sym by (metis ordering.distinct(1))
  ultimately show ?thesis using Less by (cases "cmp x z") auto
next
  case Equal
  then show ?thesis using assms cmp_equal_trans by simp
next
  case Greater
  then have "cmp z y = Less" using cmp_flip[of z y] by simp
  then have "cmp z x = Less" using assms cmp_equal_sym cmp_less_trans[of z y x] by simp
  then show ?thesis using Greater cmp_flip[of x z] by simp
qed

lemma mset_insort_by [simp]: "mset (insort_by cmp x xs) = add_mset x (mset xs)"
  by (induction xs) auto

lemma mset_sort_by [simp]: "mset (sort_by cmp xs) = mset xs"
  by (induction xs) auto

lemma set_sort_by [simp]: "set (sort_by cmp xs) = set xs"
  by (metis mset_sort_by set_mset_mset)

lemma length_sort_by [simp]: "length (sort_by cmp xs) = length xs"
  by (metis mset_sort_by size_mset)

lemma sorted_insort_by:
  "sorted_wrt (\<lambda>a b. cmp a b \<noteq> Greater) xs \<Longrightarrow>
   sorted_wrt (\<lambda>a b. cmp a b \<noteq> Greater) (insort_by cmp x xs)"
proof (induction xs)
  case (Cons y ys)
  have ins: "set (insort_by cmp x ys) = insert x (set ys)"
    by (metis mset_insort_by set_mset_add_mset_insert set_mset_mset)
  show ?case
  proof (cases "cmp x y = Greater")
    case True
    then show ?thesis using Cons ins cmp_greater_le by auto
  next
    case False
    then show ?thesis using Cons.prems cmp_le_trans by auto
  qed
qed simp

lemma sorted_sort_by: "sorted_wrt (\<lambda>a b. cmp a b \<noteq> Greater) (sort_by cmp xs)"
  by (induction xs) (simp_all add: sorted_insort_by)

lemma insort_by_id:
  "(\<forall>y\<in>set ys. cmp x y \<noteq> Greater) \<Longrightarrow> insort_by cmp x ys = x # ys"
  by (cases ys) auto

lemma sort_by_id: "sorted_wrt (\<lambda>a b. cmp a b \<noteq> Greater) xs \<Longrightarrow> sort_by cmp xs = xs"
  by (induction xs) (auto simp: insort_by_id)

lemma sort_by_idem: "sort_by cmp (sort_by cmp xs) = sort_by cmp xs"
  by (rule sort_by_id) (rule sorted_sort_by)

lemma sort_by_last_greatest:
  assumes "xs \<noteq> []" and "x \<in> set xs"
  shows "cmp x (last (sort_by cmp xs)) \<noteq> Greater"
proof -
  let ?ys = "sort_by cmp xs"
  have ne: "?ys \<noteq> []" using assms(1) length_sort_by[of xs] by (metis length_0_conv)
  have eq: "?ys = butlast ?ys @ [last ?ys]" using ne by simp
  have "x \<in> set (butlast ?ys) \<or> x = last ?ys"
    using assms(2) set_sort_by[of xs] eq
    by (metis UnE empty_iff empty_set set_append set_ConsD)
  moreover have "\<forall>y\<in>set (butlast ?ys). cmp y (last ?ys) \<noteq> Greater"
    using sorted_sort_by[of xs] eq sorted_wrt_append[of "\<lambda>a b. cmp a b \<noteq> Greater" "butlast ?ys" "[last ?ys]"]
    by auto
  ultimately show ?thesis using cmp_refl by auto
qed

text \<open>Stability: the elements of one equivalence class keep their order.\<close>

lemma insort_by_filter:
  "sorted_wrt (\<lambda>a b. cmp a b \<noteq> Greater) xs \<Longrightarrow>
   filter (\<lambda>y. cmp k y = Equal) (insort_by cmp x xs) =
     (if cmp k x = Equal then x # filter (\<lambda>y. cmp k y = Equal) xs
      else filter (\<lambda>y. cmp k y = Equal) xs)"
proof (induction xs)
  case (Cons y ys)
  show ?case
  proof (cases "cmp x y = Greater")
    case True
    have "cmp k y \<noteq> Equal" if "cmp k x = Equal"
      using that True cmp_cong_left[of k x y] by simp
    then show ?thesis using True Cons by auto
  next
    case False
    then show ?thesis by simp
  qed
qed simp

lemma sort_by_stable:
  "filter (\<lambda>y. cmp k y = Equal) (sort_by cmp xs) = filter (\<lambda>y. cmp k y = Equal) xs"
  by (induction xs) (simp_all add: insort_by_filter sorted_sort_by)

end

lemma sort_by_Nil_iff [simp]: "sort_by cmp xs = [] \<longleftrightarrow> xs = []"
proof -
  have "insort_by cmp x ys \<noteq> []" for x ys by (cases ys) simp_all
  then show ?thesis by (cases xs) simp_all
qed

sublocale total_cmp \<subseteq> cmp_eq: rust_eq "\<lambda>x y. cmp x y = Equal"
  by unfold_locales (auto intro: cmp_refl cmp_equal_sym cmp_equal_trans)

lemma cmp_of_eq_iff [simp]:
  "cmp_of x y = Less \<longleftrightarrow> x < y" "cmp_of x y = Equal \<longleftrightarrow> x = y" "cmp_of x y = Greater \<longleftrightarrow> y < x"
  by (auto simp: cmp_of_def)

interpretation lin: total_cmp "cmp_of :: 'a::linorder \<Rightarrow> 'a \<Rightarrow> ordering"
proof
  show "cmp_of x x = Equal" for x :: 'a by simp
  show "cmp_of y x = reverse_ordering (cmp_of x y)" for x y :: 'a
    by (cases x y rule: linorder_cases) (auto simp: cmp_of_def)
  show "cmp_of x y \<noteq> Greater \<Longrightarrow> cmp_of y z \<noteq> Greater \<Longrightarrow> cmp_of x z \<noteq> Greater" for x y z :: 'a
    by (simp add: not_less)
qed

text \<open>Comparators are built from others: through a key, reversed, and lexicographically.\<close>

lemma total_cmp_key: "total_cmp cmp \<Longrightarrow> total_cmp (\<lambda>x y. cmp (f x) (f y))"
  unfolding total_cmp_def by blast

lemma total_cmp_reverse: "total_cmp cmp \<Longrightarrow> total_cmp (\<lambda>x y. cmp y x)"
  unfolding total_cmp_def by blast

lemma total_cmp_then:
  assumes "total_cmp c" and "total_cmp d"
  shows "total_cmp (\<lambda>x y. then_with (c x y) (d x y))"
proof
  note c = assms(1) and d = assms(2)
  show "then_with (c x x) (d x x) = Equal" for x
    by (simp add: total_cmp.cmp_refl[OF c] total_cmp.cmp_refl[OF d])
  show "then_with (c y x) (d y x) = reverse_ordering (then_with (c x y) (d x y))" for x y
    by (simp add: total_cmp.cmp_flip[OF c, of y x] total_cmp.cmp_flip[OF d, of y x]
        reverse_then_with)
  show "then_with (c x z) (d x z) \<noteq> Greater"
    if le: "then_with (c x y) (d x y) \<noteq> Greater" "then_with (c y z) (d y z) \<noteq> Greater" for x y z
  proof (cases "c x y = Equal")
    case True
    then have "c x z = c y z" by (rule total_cmp.cmp_cong_left[OF c])
    then show ?thesis
      using le True total_cmp.cmp_le_trans[OF d, of x y z] by (auto simp: then_with_eq_iff)
  next
    case False
    with le(1) have "c x y = Less" by (cases "c x y") auto
    moreover have "c y z \<noteq> Greater" using le(2) by (auto simp: then_with_eq_iff)
    ultimately have "c x z = Less" by (rule total_cmp.cmp_less_trans[OF c])
    then show ?thesis by simp
  qed
qed

lemmas total_cmp_field = total_cmp_key[OF lin.total_cmp_axioms]

lemma iter_cmp_cmp_of: "iter_cmp xs ys = cmp_of xs ys"
proof (induction xs ys rule: iter_cmp.induct)
  case (4 x xs y ys)
  then show ?case by (cases x y rule: linorder_cases) (auto simp: cmp_of_def)
qed (auto simp: cmp_of_def)

interpretation iterc: total_cmp "iter_cmp :: 'a::linorder list \<Rightarrow> 'a list \<Rightarrow> ordering"
  by (simp add: iter_cmp_cmp_of[abs_def] lin.total_cmp_axioms)

interpretation optc: total_cmp "option_cmp :: 'a::linorder option \<Rightarrow> 'a option \<Rightarrow> ordering"
proof
  show "option_cmp x x = Equal" for x :: "'a option" by (cases x) simp_all
  show "option_cmp y x = reverse_ordering (option_cmp x y)" for x y :: "'a option"
    by (cases x; cases y) (auto intro: lin.cmp_flip)
  show "option_cmp x y \<noteq> Greater \<Longrightarrow> option_cmp y z \<noteq> Greater \<Longrightarrow> option_cmp x z \<noteq> Greater"
    for x y z :: "'a option"
    by (cases x; cases y; cases z) simp_all
qed

section \<open>Deduplication and ordered maps\<close>

lemma set_dedup_by_subset: "set (dedup_by same xs) \<subseteq> set xs"
  by (induction same xs rule: dedup_by.induct) auto

lemma dedup_by_Nil_iff [simp]: "dedup_by same xs = [] \<longleftrightarrow> xs = []"
  by (induction same xs rule: dedup_by.induct) auto

lemma hd_dedup_by: "xs \<noteq> [] \<Longrightarrow> hd (dedup_by same xs) = hd xs"
  by (induction same xs rule: dedup_by.induct) auto

text \<open>Every dropped element is represented by a retained one that the relation identifies with it.\<close>

lemma dedup_by_represented:
  assumes "rust_eq same" and "x \<in> set xs"
  shows "\<exists>y\<in>set (dedup_by same xs). same x y"
  using assms
proof (induction same xs arbitrary: x rule: dedup_by.induct)
  case (3 same a b zs)
  note E = "3.prems"(1)
  show ?case
  proof (cases "same b a")
    case True
    have *: "\<exists>y\<in>set (dedup_by same (a # zs)). same w y" if "w \<in> set (a # zs)" for w
      using 3 True that by blast
    show ?thesis
    proof (cases "x = b")
      case True2: True
      obtain y where "y \<in> set (dedup_by same (a # zs))" "same a y" using *[of a] by auto
      then show ?thesis using True True2 rust_eq.eq_trans[OF E, of b a y] by auto
    next
      case False
      then show ?thesis using * 3 True by auto
    qed
  next
    case False
    then show ?thesis using 3 rust_eq.eq_refl[OF E] by auto
  qed
qed (auto simp: rust_eq.eq_refl)

lemma dedup_by_sorted:
  fixes f :: "'a \<Rightarrow> 'k::linorder"
  shows "sorted_wrt (\<lambda>a b. f a \<le> f b) xs \<Longrightarrow>
         sorted_wrt (\<lambda>a b. f a < f b) (dedup_by (\<lambda>l r. f l = f r) xs)"
proof (induction "\<lambda>l r. f l = f r" xs rule: dedup_by.induct)
  case (3 x y zs)
  show ?case
  proof (cases "f y = f x")
    case True
    then show ?thesis using 3 by simp
  next
    case False
    then have "\<forall>z\<in>set (y # zs). f x < f z" using 3 by (auto simp: less_le_trans le_less)
    then show ?thesis using 3 False set_dedup_by_subset[of "\<lambda>l r. f l = f r" "y # zs"] by auto
  qed
qed simp_all

interpretation same_key: rust_eq "\<lambda>l r. f l = f r" for f :: "'a \<Rightarrow> 'k"
  by unfold_locales auto

lemma sort_by_key_sorted:
  "sorted_wrt (\<lambda>a b. f a \<le> f b) (sort_by (\<lambda>l r. cmp_of (f l) (f r)) xs)"
  using total_cmp.sorted_sort_by[OF total_cmp_key[OF lin.total_cmp_axioms], of f xs]
  by (simp add: not_less)

lemma set_sort_by_key [simp]: "set (sort_by (\<lambda>l r. cmp_of (f l) (f r)) xs) = set xs"
  by (rule total_cmp.set_sort_by[OF total_cmp_key[OF lin.total_cmp_axioms]])

lemma canonical_by_sorted: "sorted_wrt (\<lambda>a b. f a < f b) (canonical_by f xs)"
  unfolding canonical_by_def by (rule dedup_by_sorted) (rule sort_by_key_sorted)

lemma set_canonical_by_subset: "set (canonical_by f xs) \<subseteq> set xs"
  unfolding canonical_by_def
  using set_dedup_by_subset[of _ "sort_by (\<lambda>l r. cmp_of (f l) (f r)) xs"] by simp

lemma keys_canonical_by: "f ` set (canonical_by f xs) = f ` set xs"
proof
  show "f ` set (canonical_by f xs) \<subseteq> f ` set xs" using set_canonical_by_subset[of f xs] by auto
  show "f ` set xs \<subseteq> f ` set (canonical_by f xs)"
  proof
    fix k assume "k \<in> f ` set xs"
    then obtain x where x: "x \<in> set xs" "k = f x" by auto
    then obtain y where "y \<in> set (canonical_by f xs)" "f x = f y"
      using dedup_by_represented[OF same_key.rust_eq_axioms, of x "sort_by (\<lambda>l r. cmp_of (f l) (f r)) xs" f]
      by (auto simp: canonical_by_def)
    then show "k \<in> f ` set (canonical_by f xs)" using x by auto
  qed
qed

lemma set_canonical_by: "inj_on f (set xs) \<Longrightarrow> set (canonical_by f xs) = set xs"
  using keys_canonical_by[of f xs] set_canonical_by_subset[of f xs]
  by (metis inj_on_image_eq_iff subset_refl)

lemma sorted_keys_inj:
  fixes f :: "'a \<Rightarrow> 'k::linorder"
  shows "sorted_wrt (\<lambda>a b. f a < f b) xs \<Longrightarrow> inj_on f (set xs)"
proof (induction xs)
  case (Cons x xs)
  have "f x \<notin> f ` set xs"
  proof
    assume "f x \<in> f ` set xs"
    then obtain y where "y \<in> set xs" "f x = f y" by blast
    with Cons.prems show False by auto
  qed
  then show ?case using Cons by auto
qed simp

lemma sorted_keys_unique:
  fixes f :: "'a \<Rightarrow> 'k::linorder"
  assumes "sorted_wrt (\<lambda>a b. f a < f b) xs" and "sorted_wrt (\<lambda>a b. f a < f b) ys"
    and "set xs = set ys"
  shows "xs = ys"
proof -
  have "sorted_wrt (<) (map f xs)" "sorted_wrt (<) (map f ys)"
    using assms(1,2) by (simp_all add: sorted_wrt_map)
  then have "map f xs = map f ys"
    using assms(3) by (metis list.set_map strict_sorted_equal)
  moreover have "inj_on f (set xs \<union> set ys)"
  proof -
    have "inj_on f (set xs)" using assms(1) by (rule sorted_keys_inj)
    then show ?thesis using assms(3) by simp
  qed
  ultimately show ?thesis by (rule map_inj_on)
qed

text \<open>The result is a canonical form: it depends only on which elements occur.\<close>

lemma canonical_by_cong_set:
  assumes "inj_on f (set xs)" and "set xs = set ys"
  shows "canonical_by f xs = canonical_by f ys"
proof (rule sorted_keys_unique[OF canonical_by_sorted canonical_by_sorted])
  have "inj_on f (set ys)" using assms by simp
  then show "set (canonical_by f xs) = set (canonical_by f ys)"
    using assms(2) set_canonical_by[OF assms(1)] set_canonical_by[of f ys] by metis
qed

lemma canonical_by_id: "sorted_wrt (\<lambda>a b. f a < f b) xs \<Longrightarrow> canonical_by f xs = xs"
proof -
  assume sorted: "sorted_wrt (\<lambda>a b. f a < f b) xs"
  then have "inj_on f (set xs)" by (rule sorted_keys_inj)
  then have "set (canonical_by f xs) = set xs" by (rule set_canonical_by)
  then show ?thesis using sorted by (intro sorted_keys_unique[OF canonical_by_sorted])
qed

lemma canonical_by_idem: "canonical_by f (canonical_by f xs) = canonical_by f xs"
  by (rule canonical_by_id) (rule canonical_by_sorted)

lemma set_bt_insert: "set (map fst (bt_insert m k v)) = insert k (set (map fst m))"
  by (induction m k v rule: bt_insert.induct) auto

lemma sorted_bt_insert:
  "sorted_wrt (<) (map fst m) \<Longrightarrow> sorted_wrt (<) (map fst (bt_insert m k v))"
proof (induction m k v rule: bt_insert.induct)
  case (2 k' v' m k v)
  show ?case
  proof (cases "k < k'")
    case True
    then show ?thesis using 2 by auto
  next
    case False
    then show ?thesis using 2 set_bt_insert[of m k v] by (auto dest: not_less_iff_gr_or_eq[THEN iffD1])
  qed
qed simp

lemma map_of_bt_insert:
  "sorted_wrt (<) (map fst m) \<Longrightarrow> map_of (bt_insert m k v) = (map_of m)(k \<mapsto> v)"
proof (induction m k v rule: bt_insert.induct)
  case (2 k' v' m k v)
  then show ?case by (auto simp: fun_eq_iff)
qed auto

lemma sorted_bt_remove:
  "sorted_wrt (<) (map fst m) \<Longrightarrow> sorted_wrt (<) (map fst (bt_remove m k))"
  by (induction m) (auto simp: bt_remove_def)

lemma map_of_bt_remove: "map_of (bt_remove m k) = (map_of m)(k := None)"
  by (induction m) (auto simp: bt_remove_def fun_eq_iff)

lemma bt_collect_snoc: "bt_collect (es @ [(k, v)]) = bt_insert (bt_collect es) k v"
  by (simp add: bt_collect_def)

lemma sorted_bt_collect: "sorted_wrt (<) (map fst (bt_collect es))"
  by (induction es rule: rev_induct) (auto simp: bt_collect_snoc sorted_bt_insert bt_collect_def[of "[]"])

lemma map_of_bt_collect: "map_of (bt_collect es) = map_of (rev es)"
proof (induction es rule: rev_induct)
  case (snoc e es)
  obtain k v where "e = (k, v)" by (cases e)
  then show ?case using snoc by (simp add: bt_collect_snoc map_of_bt_insert[OF sorted_bt_collect])
qed (simp add: bt_collect_def)

lemma set_bt_collect_fst: "fst ` set (bt_collect es) = fst ` set es"
  by (simp flip: dom_map_of_conv_image_fst add: map_of_bt_collect) (simp add: dom_map_of_conv_image_fst)

end
