(* ===== verification/Rust_Str.thy ===== *)
theory Rust_Str
  imports Prelude
begin

text \<open>
  What the crates use of Rust's \<^verbatim>\<open>str\<close>, byte and integer formatting library.  A \<^verbatim>\<open>&str\<close> or a
  \<^verbatim>\<open>Vec<u8>\<close> is the \<^typ>\<open>string\<close> of its bytes, so \<^verbatim>\<open>len\<close> is \<^const>\<open>length\<close> and \<^verbatim>\<open>Ord for str\<close> is the
  lexicographic order of the bytes; the Unicode scalar values that \<^verbatim>\<open>chars\<close> and
  \<^verbatim>\<open>char_indices\<close> yield are decoded from UTF-8.  \<^verbatim>\<open>Debug for str\<close> escapes the ASCII range exactly
  and prints every other scalar value as it is: the standard library also escapes
  the scalar values its Unicode tables call unprintable, which no property here depends on.
\<close>

type_synonym bytes = string
type_synonym u64 = "64 word"
type_synonym u32 = "32 word"

section \<open>Bytes\<close>

definition byte_val :: "char \<Rightarrow> nat" where
  "byte_val c = of_char c"

definition is_ascii_digit :: "char \<Rightarrow> bool" where
  "is_ascii_digit c = (48 \<le> byte_val c \<and> byte_val c \<le> 57)"

definition is_ascii_lowercase :: "char \<Rightarrow> bool" where
  "is_ascii_lowercase c = (97 \<le> byte_val c \<and> byte_val c \<le> 122)"

definition is_ascii_uppercase :: "char \<Rightarrow> bool" where
  "is_ascii_uppercase c = (65 \<le> byte_val c \<and> byte_val c \<le> 90)"

definition is_ascii_alphabetic :: "char \<Rightarrow> bool" where
  "is_ascii_alphabetic c = (is_ascii_lowercase c \<or> is_ascii_uppercase c)"

definition is_ascii_alphanumeric :: "char \<Rightarrow> bool" where
  "is_ascii_alphanumeric c = (is_ascii_alphabetic c \<or> is_ascii_digit c)"

definition is_ascii_hexdigit :: "char \<Rightarrow> bool" where
  "is_ascii_hexdigit c =
     (is_ascii_digit c \<or> (97 \<le> byte_val c \<and> byte_val c \<le> 102) \<or> (65 \<le> byte_val c \<and> byte_val c \<le> 70))"

definition is_ascii :: "char \<Rightarrow> bool" where
  "is_ascii c = (byte_val c < 128)"

definition to_ascii_lowercase :: "char \<Rightarrow> char" where
  "to_ascii_lowercase c = (if is_ascii_uppercase c then char_of (byte_val c + 32) else c)"

definition to_ascii_uppercase :: "char \<Rightarrow> char" where
  "to_ascii_uppercase c = (if is_ascii_lowercase c then char_of (byte_val c - 32) else c)"

section \<open>Unicode scalar values of a UTF-8 string\<close>

definition utf8_len :: "char \<Rightarrow> nat" where
  "utf8_len c = (let b = byte_val c in if b < 128 then 1 else if b < 224 then 2 else if b < 240 then 3 else 4)"

fun code_point :: "nat list \<Rightarrow> nat" where
  "code_point [] = 0"
| "code_point [a] = a"
| "code_point [a, b] = (a mod 32) * 64 + b mod 64"
| "code_point [a, b, c] = (a mod 16) * 4096 + (b mod 64) * 64 + c mod 64"
| "code_point (a # b # c # d # _) = (a mod 8) * 262144 + (b mod 64) * 4096 + (c mod 64) * 64 + d mod 64"

function char_indices_from :: "nat \<Rightarrow> string \<Rightarrow> (nat \<times> nat) list" where
  "char_indices_from i [] = []"
| "char_indices_from i (c # cs) =
     (let n = utf8_len c
      in (i, code_point (map byte_val (take n (c # cs)))) # char_indices_from (i + n) (drop (n - 1) cs))"
  by pat_completeness auto
termination
  by (relation "measure (\<lambda>(i, s). length s)") auto

definition char_indices :: "string \<Rightarrow> (nat \<times> nat) list" where
  "char_indices s = char_indices_from 0 s"

definition chars :: "string \<Rightarrow> nat list" where
  "chars s = map snd (char_indices s)"

definition is_control :: "nat \<Rightarrow> bool" where
  "is_control p = (p < 32 \<or> (127 \<le> p \<and> p \<le> 159))"

definition is_whitespace :: "nat \<Rightarrow> bool" where
  "is_whitespace p =
     ((9 \<le> p \<and> p \<le> 13) \<or> p = 32 \<or> p = 133 \<or> p = 160 \<or> p = 5760 \<or> (8192 \<le> p \<and> p \<le> 8202)
      \<or> p = 8232 \<or> p = 8233 \<or> p = 8239 \<or> p = 8287 \<or> p = 12288)"

section \<open>Searching and splitting\<close>

text \<open>\<^verbatim>\<open>str::split\<close> with a character predicate: separators do not appear, empty pieces do.\<close>

fun split_on :: "(char \<Rightarrow> bool) \<Rightarrow> string \<Rightarrow> string list" where
  "split_on p [] = [[]]"
| "split_on p (c # cs) =
     (if p c then [] # split_on p cs
      else (case split_on p cs of [] \<Rightarrow> [[c]] | x # xs \<Rightarrow> (c # x) # xs))"

fun starts_with :: "string \<Rightarrow> string \<Rightarrow> bool" where
  "starts_with [] s = True"
| "starts_with (p # ps) [] = False"
| "starts_with (p # ps) (c # cs) = (p = c \<and> starts_with ps cs)"

definition ends_with_char :: "char \<Rightarrow> string \<Rightarrow> bool" where
  "ends_with_char c s = (s \<noteq> [] \<and> last s = c)"

text \<open>\<^verbatim>\<open>str::find\<close> as the text before and after the first occurrence.\<close>

fun split_once :: "string \<Rightarrow> string \<Rightarrow> (string \<times> string) option" where
  "split_once pat [] = (if pat = [] then Some ([], []) else None)"
| "split_once pat (c # cs) =
     (if starts_with pat (c # cs) then Some ([], drop (length pat) (c # cs))
      else map_option (\<lambda>(a, b). (c # a, b)) (split_once pat cs))"

definition rsplit_once_char :: "char \<Rightarrow> string \<Rightarrow> (string \<times> string) option" where
  "rsplit_once_char c s = map_option (\<lambda>(a, b). (rev b, rev a)) (split_once [c] (rev s))"

definition strip_prefix :: "string \<Rightarrow> string \<Rightarrow> string option" where
  "strip_prefix p s = (if starts_with p s then Some (drop (length p) s) else None)"

text \<open>\<^verbatim>\<open>str::trim\<close>: drop the leading and the trailing whitespace scalar values.\<close>

definition trim_start :: "string \<Rightarrow> string" where
  "trim_start s =
     (case find (\<lambda>e. \<not> is_whitespace (snd e)) (char_indices s) of
        None \<Rightarrow> [] | Some (index, _) \<Rightarrow> drop index s)"

definition trim_end :: "string \<Rightarrow> string" where
  "trim_end s =
     (case find (\<lambda>e. \<not> is_whitespace (snd e)) (rev (char_indices s)) of
        None \<Rightarrow> [] | Some (index, _) \<Rightarrow> take (index + utf8_len (s ! index)) s)"

definition trim :: "string \<Rightarrow> string" where
  "trim s = trim_end (trim_start s)"

fun join_str :: "string \<Rightarrow> string list \<Rightarrow> string" where
  "join_str sep [] = []"
| "join_str sep [x] = x"
| "join_str sep (x # y # xs) = x @ sep @ join_str sep (y # xs)"

section \<open>Integers\<close>

definition digit_char :: "nat \<Rightarrow> char" where
  "digit_char d = char_of (48 + d)"

fun show_nat :: "nat \<Rightarrow> string" where
  "show_nat n = (if n < 10 then [digit_char n] else show_nat (n div 10) @ [digit_char (n mod 10)])"

declare show_nat.simps [simp del]

definition show_int :: "int \<Rightarrow> string" where
  "show_int i = (if i < 0 then ''-'' @ show_nat (nat (- i)) else show_nat (nat i))"

definition hex_char :: "nat \<Rightarrow> char" where
  "hex_char d = (if d < 10 then char_of (48 + d) else char_of (87 + d))"

fun show_hex :: "nat \<Rightarrow> string" where
  "show_hex n = (if n < 16 then [hex_char n] else show_hex (n div 16) @ [hex_char (n mod 16)])"

declare show_hex.simps [simp del]

definition checked_mul_u32 :: "u32 \<Rightarrow> u32 \<Rightarrow> u32 option" where
  "checked_mul_u32 a b = (if unat a * unat b < 2 ^ 32 then Some (a * b) else None)"

definition checked_add_u32 :: "u32 \<Rightarrow> u32 \<Rightarrow> u32 option" where
  "checked_add_u32 a b = (if unat a + unat b < 2 ^ 32 then Some (a + b) else None)"

text \<open>\<^verbatim>\<open>u64::to_be_bytes\<close> and \<^verbatim>\<open>u64::to_le_bytes\<close>.\<close>

definition byte_at :: "nat \<Rightarrow> u64 \<Rightarrow> char" where
  "byte_at i w = char_of (unat w div 256 ^ i mod 256)"

definition to_le_bytes :: "u64 \<Rightarrow> bytes" where
  "to_le_bytes w = map (\<lambda>i. byte_at i w) [0..<8]"

definition to_be_bytes :: "u64 \<Rightarrow> bytes" where
  "to_be_bytes w = rev (to_le_bytes w)"

text \<open>\<^verbatim>\<open>format!("{byte:02x}")\<close>.\<close>

definition hex_byte :: "char \<Rightarrow> string" where
  "hex_byte c = [hex_char (byte_val c div 16), hex_char (byte_val c mod 16)]"

section \<open>Derived Debug\<close>

definition debug_char :: "char \<Rightarrow> string" where
  "debug_char c =
     (let b = byte_val c in
      if b = 0 then [CHR 0x5C, CHR ''0'']
      else if b = 9 then [CHR 0x5C, CHR ''t'']
      else if b = 10 then [CHR 0x5C, CHR ''n'']
      else if b = 13 then [CHR 0x5C, CHR ''r'']
      else if b = 34 \<or> b = 92 then [CHR 0x5C, c]
      else if b < 32 \<or> b = 127 then [CHR 0x5C, CHR ''u'', CHR 0x7B] @ show_hex b @ [CHR 0x7D]
      else [c])"

definition debug_str :: "string \<Rightarrow> string" where
  "debug_str s = [CHR 0x22] @ concat (map debug_char s) @ [CHR 0x22]"

definition debug_tuple :: "string \<Rightarrow> string list \<Rightarrow> string" where
  "debug_tuple name args = name @ ''('' @ join_str '', '' args @ '')''"

definition debug_struct :: "string \<Rightarrow> (string \<times> string) list \<Rightarrow> string" where
  "debug_struct name fields =
     name @ '' { '' @ join_str '', '' (map (\<lambda>(f, v). f @ '': '' @ v) fields) @ '' }''"

definition debug_list :: "string list \<Rightarrow> string" where
  "debug_list xs = ''['' @ join_str '', '' xs @ '']''"

fun debug_option :: "string option \<Rightarrow> string" where
  "debug_option None = ''None''"
| "debug_option (Some s) = debug_tuple ''Some'' [s]"

section \<open>Lemmas\<close>

lemma byte_val_less [simp]: "byte_val c < 256"
  by (simp add: byte_val_def)

lemma char_of_byte_val [simp]: "char_of (byte_val c) = c"
  by (simp add: byte_val_def)

lemma byte_val_char_of: "n < 256 \<Longrightarrow> byte_val (char_of n) = n"
  by (simp add: byte_val_def)

lemma byte_val_inject: "byte_val a = byte_val b \<longleftrightarrow> a = b"
  by (metis char_of_byte_val)

lemmas ascii_defs = is_ascii_digit_def is_ascii_lowercase_def is_ascii_uppercase_def
  is_ascii_alphabetic_def is_ascii_alphanumeric_def is_ascii_hexdigit_def is_ascii_def

lemma lowercase_idem [simp]: "to_ascii_lowercase (to_ascii_lowercase c) = to_ascii_lowercase c"
  by (auto simp: to_ascii_lowercase_def is_ascii_uppercase_def byte_val_char_of)

lemma hexdigit_lowercase [simp]: "is_ascii_hexdigit (to_ascii_lowercase c) = is_ascii_hexdigit c"
  by (auto simp: to_ascii_lowercase_def ascii_defs byte_val_char_of)

lemma lowercase_not_uppercase [simp]: "\<not> is_ascii_uppercase (to_ascii_lowercase c)"
  by (auto simp: to_ascii_lowercase_def ascii_defs byte_val_char_of)

lemma map_lowercase_idem [simp]:
  "map to_ascii_lowercase (map to_ascii_lowercase s) = map to_ascii_lowercase s"
  by simp

lemma split_on_not_Nil [simp]: "split_on p s \<noteq> []"
  by (induction s) (auto split: list.splits)

lemma split_on_pieces: "x \<in> set (split_on p s) \<Longrightarrow> c \<in> set x \<Longrightarrow> \<not> p c \<and> c \<in> set s"
proof (induction s arbitrary: x)
  case (Cons d s)
  then show ?case by (fastforce split: if_splits list.splits)
qed auto

lemma split_on_no_sep: "\<forall>c\<in>set s. \<not> p c \<Longrightarrow> split_on p s = [s]"
  by (induction s) auto

lemma split_on_append_sep:
  "p c \<Longrightarrow> \<forall>d\<in>set x. \<not> p d \<Longrightarrow> split_on p (x @ c # s) = x # split_on p s"
  by (induction x) auto

lemma split_on_join:
  assumes "p c" and "xs \<noteq> []" and "\<forall>x\<in>set xs. \<forall>d\<in>set x. \<not> p d"
  shows "split_on p (join_str [c] xs) = xs"
  using assms(2,3)
proof (induction "[c]" xs rule: join_str.induct)
  case (2 x)
  then show ?case by (simp add: split_on_no_sep)
next
  case (3 x y xs)
  then show ?case using assms(1) by (simp add: split_on_append_sep)
qed simp

lemma digit_char_digit: "d < 10 \<Longrightarrow> is_ascii_digit (digit_char d)"
  by (simp add: digit_char_def is_ascii_digit_def byte_val_char_of)

lemma byte_val_digit_char: "d < 10 \<Longrightarrow> byte_val (digit_char d) = 48 + d"
  by (simp add: digit_char_def byte_val_char_of)

lemma show_nat_digits: "c \<in> set (show_nat n) \<Longrightarrow> is_ascii_digit c"
proof (induction n rule: show_nat.induct)
  case (1 n)
  show ?case
  proof (cases "n < 10")
    case True
    then show ?thesis using 1 by (simp add: show_nat.simps[of n] digit_char_digit)
  next
    case False
    then show ?thesis using 1 by (auto simp: show_nat.simps[of n] digit_char_digit)
  qed
qed

lemma show_nat_not_Nil [simp]: "show_nat n \<noteq> []"
  by (subst show_nat.simps) simp

lemma length_to_le_bytes [simp]: "length (to_le_bytes w) = 8"
  by (simp add: to_le_bytes_def)

lemma length_to_be_bytes [simp]: "length (to_be_bytes w) = 8"
  by (simp add: to_be_bytes_def)

lemma byte_at_val: "byte_val (byte_at i w) = unat w div 256 ^ i mod 256"
  by (simp add: byte_at_def byte_val_def)

lemma digits_sum_256:
  fixes n :: nat
  shows "n mod 256 ^ k = (\<Sum>i<k. n div 256 ^ i mod 256 * 256 ^ i)"
proof (induction k)
  case (Suc k)
  have "n mod 256 ^ Suc k = 256 ^ k * (n div 256 ^ k mod 256) + n mod 256 ^ k"
    by (metis mod_mult2_eq mult.commute power_Suc)
  then show ?case using Suc by (simp add: mult.commute)
qed simp

lemma to_le_bytes_inject: "to_le_bytes a = to_le_bytes b \<longleftrightarrow> a = b"
proof
  assume eq: "to_le_bytes a = to_le_bytes b"
  have same: "unat a div 256 ^ i mod 256 = unat b div 256 ^ i mod 256" if "i < 8" for i
    using arg_cong[OF eq, of "\<lambda>xs. byte_val (xs ! i)"] that
    by (simp add: to_le_bytes_def byte_at_val)
  have bound: "unat (w :: u64) < 256 ^ 8" for w
    using unsigned_less[of w, where 'a = nat] by simp
  have "unat a mod 256 ^ 8 = unat b mod 256 ^ 8"
    unfolding digits_sum_256 by (rule sum.cong) (simp_all add: same)
  then have "unat a = unat b" using bound[of a] bound[of b] by simp
  then show "a = b" by (rule unsigned_word_eqI)
qed simp

lemma to_be_bytes_inject: "to_be_bytes a = to_be_bytes b \<longleftrightarrow> a = b"
  by (simp add: to_be_bytes_def to_le_bytes_inject)

lemma char_indices_ascii:
  "\<forall>c\<in>set s. is_ascii c \<Longrightarrow> map snd (char_indices_from i s) = map byte_val s"
proof (induction s arbitrary: i)
  case (Cons c s)
  then have "utf8_len c = 1" by (simp add: utf8_len_def is_ascii_def)
  then show ?case using Cons by simp
qed simp

lemma chars_ascii: "\<forall>c\<in>set s. is_ascii c \<Longrightarrow> chars s = map byte_val s"
  by (simp add: chars_def char_indices_def char_indices_ascii)

lemma starts_with_append: "starts_with p (p @ s)"
  by (induction p) simp_all

end
