(* ===== verification/Names.thy ===== *)
theory Names
  imports Rust_Str
begin

text \<open>
  \<^verbatim>\<open>rsolve-core/src/names.rs\<close> and \<^verbatim>\<open>environment.rs\<close>: the validated string newtypes.  Each newtype
  is the string it wraps, and its smart constructor returns the wrapped string or the typed
  error.  \<^verbatim>\<open>NormalizedGitUrl\<close> recognises IP literals with the standard library's \<^verbatim>\<open>IpAddr\<close>,
  which is the argument \<open>ip\<close> of the definitions that use it: it maps a text to whether it
  is an IPv6 address and to its canonical display.
\<close>

type_synonym package_name = string
type_synonym package_namespace = string
type_synonym bioconductor_release = string
type_synonym repository_id = string
type_synonym registry_id = string
type_synonym snapshot_id = string
type_synonym artifact_locator = string
type_synonym distribution_channel = string
type_synonym source_scheme = string
type_synonym normalized_git_url = string
type_synonym repository_subdir = string
type_synonym sha256_digest = string
type_synonym environment_id = string
type_synonym repository_rank = u64

text \<open>The index of the first byte that satisfies a predicate.\<close>

fun position :: "('a \<Rightarrow> bool) \<Rightarrow> 'a list \<Rightarrow> nat option" where
  "position p [] = None"
| "position p (x # xs) = (if p x then Some 0 else map_option Suc (position p xs))"

section \<open>Package names\<close>

datatype package_name_error =
    EmptyName
  | InvalidFirstCharacter
  | InvalidCharacter nat
  | TrailingPeriod

fun package_name_error_display :: "package_name_error \<Rightarrow> string" where
  "package_name_error_display EmptyName = ''package name is empty''"
| "package_name_error_display InvalidFirstCharacter = ''package name must start with a letter''"
| "package_name_error_display (InvalidCharacter index) =
     ''package name has an invalid character at '' @ show_nat index"
| "package_name_error_display TrailingPeriod = ''package name must not end with a period''"

definition package_name_byte :: "char \<Rightarrow> bool" where
  "package_name_byte c = (is_ascii_alphanumeric c \<or> c = CHR ''.'')"

definition package_name_new :: "string \<Rightarrow> package_name_error + package_name" where
  "package_name_new input =
     (case input of
        [] \<Rightarrow> Inl EmptyName
      | b # _ \<Rightarrow>
          if \<not> is_ascii_alphabetic b then Inl InvalidFirstCharacter
          else case position (\<lambda>c. \<not> package_name_byte c) input of
                 Some index \<Rightarrow> Inl (InvalidCharacter index)
               | None \<Rightarrow>
                   if ends_with_char (CHR ''.'') input then Inl TrailingPeriod else Inr input)"

section \<open>Opaque identifiers\<close>

datatype identifier_error = EmptyIdentifier string | ControlCharacterIn string

fun identifier_error_display :: "identifier_error \<Rightarrow> string" where
  "identifier_error_display (EmptyIdentifier kind) = kind @ '' is empty''"
| "identifier_error_display (ControlCharacterIn kind) = kind @ '' contains a control character''"

definition opaque_identifier_new :: "string \<Rightarrow> string \<Rightarrow> identifier_error + string" where
  "opaque_identifier_new kind input =
     (if input = [] then Inl (EmptyIdentifier kind)
      else if list_ex is_control (chars input) then Inl (ControlCharacterIn kind)
      else Inr input)"

section \<open>Normalized Git URLs\<close>

datatype normalized_git_url_error =
    EmptyUrl
  | InvalidScheme
  | MissingAuthority
  | CredentialsForbidden
  | QueryOrFragmentForbidden
  | InvalidHost
  | InvalidPort
  | InvalidPercentEscape
  | InvalidPathCharacter
  | ControlOrWhitespaceInUrl

fun normalized_git_url_error_display :: "normalized_git_url_error \<Rightarrow> string" where
  "normalized_git_url_error_display EmptyUrl = ''normalized Git URL is empty''"
| "normalized_git_url_error_display InvalidScheme =
     ''normalized Git URL has an invalid or non-canonical scheme''"
| "normalized_git_url_error_display MissingAuthority = ''normalized Git URL must have an authority''"
| "normalized_git_url_error_display CredentialsForbidden = ''normalized Git URL must not contain credentials''"
| "normalized_git_url_error_display QueryOrFragmentForbidden =
     ''normalized Git URL must not contain a query or fragment''"
| "normalized_git_url_error_display InvalidHost = ''normalized Git URL has an invalid host''"
| "normalized_git_url_error_display InvalidPort = ''normalized Git URL has an invalid port''"
| "normalized_git_url_error_display InvalidPercentEscape = ''normalized Git URL has an invalid percent escape''"
| "normalized_git_url_error_display InvalidPathCharacter = ''normalized Git URL has an invalid path character''"
| "normalized_git_url_error_display ControlOrWhitespaceInUrl =
     ''normalized Git URL contains control or whitespace''"

definition hex_value :: "char \<Rightarrow> nat" where
  "hex_value c =
     (if is_ascii_digit c then byte_val c - 48
      else if is_ascii_lowercase c then byte_val c - 97 + 10
      else byte_val c - 65 + 10)"

definition is_url_unreserved :: "char \<Rightarrow> bool" where
  "is_url_unreserved c = (is_ascii_alphanumeric c \<or> c \<in> set ''-._~'')"

definition is_url_path_character :: "char \<Rightarrow> bool" where
  "is_url_path_character c = (is_url_unreserved c \<or> c \<in> set ''/:@!$&()*+,;='' \<or> c = CHR 0x27)"

fun normalize_url_component :: "string \<Rightarrow> normalized_git_url_error + string" where
  "normalize_url_component [] = Inr []"
| "normalize_url_component (c # cs) =
     (if c = CHR ''%'' then
        (case cs of
           h # l # rest \<Rightarrow>
             if \<not> is_ascii_hexdigit h \<or> \<not> is_ascii_hexdigit l then Inl InvalidPercentEscape
             else let octet = char_of (hex_value h * 16 + hex_value l)
                  in map_res (\<lambda>r. (if is_url_unreserved octet then [octet]
                                   else [CHR ''%'', to_ascii_uppercase h, to_ascii_uppercase l]) @ r)
                       (normalize_url_component rest)
         | _ \<Rightarrow> Inl InvalidPercentEscape)
      else if \<not> is_url_path_character c then Inl InvalidPathCharacter
      else map_res (Cons c) (normalize_url_component cs))"

definition is_default_port :: "string \<Rightarrow> nat \<Rightarrow> bool" where
  "is_default_port scheme port =
     ((scheme, port) \<in> {(''https'', 443), (''http'', 80), (''ssh'', 22), (''git'', 9418)})"

definition valid_host_label :: "string \<Rightarrow> bool" where
  "valid_host_label l =
     (l \<noteq> [] \<and> hd l \<noteq> CHR ''-'' \<and> last l \<noteq> CHR ''-'' \<and>
      list_all (\<lambda>c. is_ascii_alphanumeric c \<or> c = CHR ''-'') l)"

fun nat_of_digits :: "nat \<Rightarrow> string \<Rightarrow> nat" where
  "nat_of_digits n [] = n"
| "nat_of_digits n (b # bs) = nat_of_digits (n * 10 + (byte_val b - 48)) bs"

text \<open>The port text: non-empty, digits only, and within \<^verbatim>\<open>u16\<close>.\<close>

definition parse_port :: "string \<Rightarrow> normalized_git_url_error + nat" where
  "parse_port port =
     (if port = [] \<or> \<not> list_all is_ascii_digit port then Inl InvalidPort
      else if nat_of_digits 0 port < 65536 then Inr (nat_of_digits 0 port)
      else Inl InvalidPort)"

definition split_host_port ::
  "(string \<Rightarrow> (bool \<times> string) option) \<Rightarrow> string \<Rightarrow> normalized_git_url_error + string \<times> string option" where
  "split_host_port ip authority =
     (if starts_with ''['' authority then
        (case split_once '']'' (tl authority) of
           None \<Rightarrow> Inl InvalidHost
         | Some (host, remainder) \<Rightarrow>
             if \<not> starts_with '':'' remainder \<and> remainder \<noteq> [] then Inl InvalidHost
             else case ip host of
                    Some (True, shown) \<Rightarrow>
                      Inr (''['' @ shown @ '']'', if remainder = [] then None else Some (tl remainder))
                  | _ \<Rightarrow> Inl InvalidHost)
      else
        (case rsplit_once_char (CHR '':'') authority of
           Some (host, port) \<Rightarrow> if CHR '':'' \<in> set host then Inl InvalidHost else Inr (host, Some port)
         | None \<Rightarrow> Inr (authority, None)))"

definition canonical_host_and_port ::
  "(string \<Rightarrow> (bool \<times> string) option) \<Rightarrow> string \<Rightarrow> normalized_git_url_error + string \<times> nat option" where
  "canonical_host_and_port ip authority =
     bind_res (split_host_port ip authority) (\<lambda>(host, port_text).
       if host = [] \<or> CHR ''%'' \<in> set host then Inl InvalidHost
       else
         bind_res
           (if starts_with ''['' host then Inr host
            else case ip host of
                   Some (_, shown) \<Rightarrow> Inr shown
                 | None \<Rightarrow>
                     if \<not> list_all is_ascii host
                        \<or> list_ex (\<lambda>l. \<not> valid_host_label l) (split_on (\<lambda>c. c = CHR ''.'') host)
                     then Inl InvalidHost else Inr (map to_ascii_lowercase host))
           (\<lambda>canonical_host.
              case port_text of
                None \<Rightarrow> Inr (canonical_host, None)
              | Some port \<Rightarrow> map_res (\<lambda>n. (canonical_host, Some n)) (parse_port port)))"

definition valid_scheme :: "string \<Rightarrow> bool" where
  "valid_scheme scheme =
     (scheme \<noteq> [] \<and> is_ascii_alphabetic (hd scheme) \<and>
      list_all (\<lambda>c. is_ascii_alphanumeric c \<or> c \<in> set ''+-.'') scheme)"

definition normalized_git_url_new ::
  "(string \<Rightarrow> (bool \<times> string) option) \<Rightarrow> string \<Rightarrow> normalized_git_url_error + normalized_git_url" where
  "normalized_git_url_new ip input =
     (if input = [] then Inl EmptyUrl
      else if list_ex (\<lambda>p. is_control p \<or> is_whitespace p) (chars input) then Inl ControlOrWhitespaceInUrl
      else if CHR ''?'' \<in> set input \<or> CHR ''#'' \<in> set input then Inl QueryOrFragmentForbidden
      else case split_once ''://'' input of
             None \<Rightarrow> Inl InvalidScheme
           | Some (scheme, remainder) \<Rightarrow>
               if \<not> valid_scheme scheme then Inl InvalidScheme
               else
                 let scheme = map to_ascii_lowercase scheme;
                     authority = takeWhile (\<lambda>c. c \<noteq> CHR ''/'') remainder;
                     rest = dropWhile (\<lambda>c. c \<noteq> CHR ''/'') remainder
                 in if authority = [] then Inl MissingAuthority
                    else if CHR ''@'' \<in> set authority then Inl CredentialsForbidden
                    else bind_res (canonical_host_and_port ip authority) (\<lambda>(host, port).
                      bind_res (normalize_url_component rest) (\<lambda>path.
                        Inr (scheme @ ''://'' @ host
                             @ (case port of
                                  Some n \<Rightarrow> if is_default_port scheme n then [] else '':'' @ show_nat n
                                | None \<Rightarrow> [])
                             @ path))))"

section \<open>Git commit identifiers and SHA-256 digests\<close>

datatype git_hash_algorithm = Sha1 | Sha256

record git_commit_id =
  gc_algorithm :: git_hash_algorithm
  gc_hex :: string

datatype git_commit_id_error = WrongOidLength nat | NonHexadecimalOid | NullObject

fun git_commit_id_error_display :: "git_commit_id_error \<Rightarrow> string" where
  "git_commit_id_error_display (WrongOidLength found) =
     ''Git commit OID has invalid length '' @ show_nat found @ ''; expected 40 or 64''"
| "git_commit_id_error_display NonHexadecimalOid = ''Git commit OID is not hexadecimal''"
| "git_commit_id_error_display NullObject = ''Git commit OID must not be Git's null object''"

definition git_commit_id_new :: "string \<Rightarrow> git_commit_id_error + git_commit_id" where
  "git_commit_id_new input =
     bind_res
       (if length input = 40 then Inr Sha1
        else if length input = 64 then Inr Sha256
        else Inl (WrongOidLength (length input)))
       (\<lambda>algorithm.
          if \<not> list_all is_ascii_hexdigit input then Inl NonHexadecimalOid
          else if list_all (\<lambda>c. c = CHR ''0'') input then Inl NullObject
          else Inr \<lparr>gc_algorithm = algorithm, gc_hex = map to_ascii_lowercase input\<rparr>)"

datatype digest_error = WrongDigestLength nat | NonHexadecimalDigest

fun digest_error_display :: "digest_error \<Rightarrow> string" where
  "digest_error_display (WrongDigestLength found) =
     ''SHA-256 digest has length '' @ show_nat found @ '', not 64''"
| "digest_error_display NonHexadecimalDigest = ''SHA-256 digest contains a non-hexadecimal byte''"

definition sha256_digest_new :: "string \<Rightarrow> digest_error + sha256_digest" where
  "sha256_digest_new input =
     (if length input \<noteq> 64 then Inl (WrongDigestLength (length input))
      else if \<not> list_all is_ascii_hexdigit input then Inl NonHexadecimalDigest
      else Inr (map to_ascii_lowercase input))"

section \<open>Repository subdirectories\<close>

datatype repository_subdir_error =
    EmptySubdir
  | AbsoluteSubdir
  | BackslashInSubdir
  | ControlCharacterAt nat
  | EmptyComponentAt nat
  | DotComponentAt nat
  | ParentComponentAt nat
  | WindowsDrivePrefix

fun repository_subdir_error_display :: "repository_subdir_error \<Rightarrow> string" where
  "repository_subdir_error_display EmptySubdir = ''repository subdirectory must not be empty''"
| "repository_subdir_error_display AbsoluteSubdir = ''repository subdirectory must be a relative path''"
| "repository_subdir_error_display BackslashInSubdir = ''repository subdirectory must use slash separators''"
| "repository_subdir_error_display (ControlCharacterAt index) =
     ''repository subdirectory contains a control character at '' @ show_nat index"
| "repository_subdir_error_display (EmptyComponentAt index) =
     ''repository subdirectory has an empty component at '' @ show_nat index"
| "repository_subdir_error_display (DotComponentAt index) =
     ''repository subdirectory has a non-canonical dot component at '' @ show_nat index"
| "repository_subdir_error_display (ParentComponentAt index) =
     ''repository subdirectory has a parent component at '' @ show_nat index"
| "repository_subdir_error_display WindowsDrivePrefix =
     ''repository subdirectory must not have a Windows drive prefix''"

definition has_drive_prefix :: "string \<Rightarrow> bool" where
  "has_drive_prefix first = (case first of a # b # _ \<Rightarrow> is_ascii_alphabetic a \<and> b = CHR '':'' | _ \<Rightarrow> False)"

fun check_subdir_components :: "nat \<Rightarrow> string list \<Rightarrow> repository_subdir_error option" where
  "check_subdir_components index [] = None"
| "check_subdir_components index (c # cs) =
     (if c = [] then Some (EmptyComponentAt index)
      else if c = ''.'' then Some (DotComponentAt index)
      else if c = ''..'' then Some (ParentComponentAt index)
      else check_subdir_components (Suc index) cs)"

definition slash_split :: "string \<Rightarrow> string list" where
  "slash_split s = split_on (\<lambda>c. c = CHR ''/'') s"

definition repository_subdir_new :: "string \<Rightarrow> repository_subdir_error + repository_subdir" where
  "repository_subdir_new input =
     (if input = [] then Inl EmptySubdir
      else if starts_with ''/'' input then Inl AbsoluteSubdir
      else if CHR 0x5C \<in> set input then Inl BackslashInSubdir
      else case find (\<lambda>e. is_control (snd e)) (char_indices input) of
             Some (index, _) \<Rightarrow> Inl (ControlCharacterAt index)
           | None \<Rightarrow>
               if has_drive_prefix (hd (slash_split input)) then Inl WindowsDrivePrefix
               else case check_subdir_components 0 (slash_split input) of
                      Some e \<Rightarrow> Inl e
                    | None \<Rightarrow> Inr input)"

section \<open>Repository ranks\<close>

definition rank_new :: "u64 \<Rightarrow> repository_rank" where
  "rank_new ordinal = ordinal"

definition rank_from_usize :: "nat \<Rightarrow> repository_rank option" where
  "rank_from_usize ordinal = (if ordinal < 2 ^ 64 then Some (word_of_nat ordinal) else None)"

section \<open>Environment identifiers\<close>

datatype environment_id_error =
    EmptyEnvironmentId
  | EnvironmentIdTooLong
  | InvalidFirstEnvironmentCharacter
  | InvalidEnvironmentCharacter
  | ControlOrWhitespaceInEnvironmentId

fun environment_id_error_display :: "environment_id_error \<Rightarrow> string" where
  "environment_id_error_display EmptyEnvironmentId = ''environment ID is empty''"
| "environment_id_error_display EnvironmentIdTooLong = ''environment ID is longer than 64 characters''"
| "environment_id_error_display InvalidFirstEnvironmentCharacter =
     ''environment ID must start with a lowercase ASCII letter or digit''"
| "environment_id_error_display InvalidEnvironmentCharacter =
     ''environment ID may contain only lowercase ASCII letters, digits, '' @ [CHR 0x60, CHR ''_'', CHR 0x60]
     @ '', and '' @ [CHR 0x60, CHR ''-'', CHR 0x60]"
| "environment_id_error_display ControlOrWhitespaceInEnvironmentId =
     ''environment ID contains control or whitespace characters''"

definition environment_id_byte :: "char \<Rightarrow> bool" where
  "environment_id_byte c = (is_ascii_lowercase c \<or> is_ascii_digit c \<or> c = CHR ''_'' \<or> c = CHR ''-'')"

definition environment_id_new :: "string \<Rightarrow> environment_id_error + environment_id" where
  "environment_id_new s =
     (case s of
        [] \<Rightarrow> Inl EmptyEnvironmentId
      | b # _ \<Rightarrow>
          if list_ex (\<lambda>p. is_control p \<or> is_whitespace p) (chars s) then Inl ControlOrWhitespaceInEnvironmentId
          else if \<not> is_ascii_lowercase b \<and> \<not> is_ascii_digit b then Inl InvalidFirstEnvironmentCharacter
          else if \<not> list_all environment_id_byte s then Inl InvalidEnvironmentCharacter
          else if length s > 64 then Inl EnvironmentIdTooLong
          else Inr s)"

section \<open>Lemmas\<close>

lemma position_None_iff: "position p xs = None \<longleftrightarrow> (\<forall>x\<in>set xs. \<not> p x)"
  by (induction xs) auto

lemma position_Some_iff:
  "position p xs = Some i \<longleftrightarrow> i < length xs \<and> p (xs ! i) \<and> (\<forall>j<i. \<not> p (xs ! j))"
proof (induction xs arbitrary: i)
  case (Cons x xs)
  show ?case
  proof (cases i)
    case 0
    then show ?thesis by auto
  next
    case (Suc k)
    have "(\<forall>j<Suc k. \<not> p ((x # xs) ! j)) \<longleftrightarrow> \<not> p x \<and> (\<forall>j<k. \<not> p (xs ! j))"
      by (auto simp: less_Suc_eq_0_disj)
    then show ?thesis using Cons[of k] Suc by auto
  qed
qed simp

lemma package_name_new_Inr_iff:
  "package_name_new s = Inr n \<longleftrightarrow>
     n = s \<and> s \<noteq> [] \<and> is_ascii_alphabetic (hd s) \<and> list_all package_name_byte s \<and> last s \<noteq> CHR ''.''"
proof (cases "position (\<lambda>c. \<not> package_name_byte c) s")
  case None
  then have "list_all package_name_byte s" by (simp add: position_None_iff list_all_iff)
  then show ?thesis
    using None by (auto simp: package_name_new_def ends_with_char_def split: list.splits)
next
  case (Some i)
  then have "\<not> list_all package_name_byte s" by (auto simp: position_Some_iff list_all_length)
  then show ?thesis using Some by (auto simp: package_name_new_def split: list.splits)
qed

lemma opaque_identifier_new_Inr_iff:
  "opaque_identifier_new kind s = Inr n \<longleftrightarrow> n = s \<and> s \<noteq> [] \<and> (\<forall>p\<in>set (chars s). \<not> is_control p)"
  by (auto simp: opaque_identifier_new_def list_ex_iff)

lemma sha256_digest_new_Inr_iff:
  "sha256_digest_new s = Inr d \<longleftrightarrow>
     length s = 64 \<and> list_all is_ascii_hexdigit s \<and> d = map to_ascii_lowercase s"
  by (auto simp: sha256_digest_new_def)

lemma git_commit_id_new_Inr_iff:
  "git_commit_id_new s = Inr c \<longleftrightarrow>
     (length s = 40 \<and> gc_algorithm c = Sha1 \<or> length s = 64 \<and> gc_algorithm c = Sha256) \<and>
     list_all is_ascii_hexdigit s \<and> (\<exists>b\<in>set s. b \<noteq> CHR ''0'') \<and> gc_hex c = map to_ascii_lowercase s"
  by (cases c) (auto simp: git_commit_id_new_def list_all_iff)

lemma check_subdir_None_iff:
  "check_subdir_components i cs = None \<longleftrightarrow> (\<forall>c\<in>set cs. c \<noteq> [] \<and> c \<noteq> ''.'' \<and> c \<noteq> ''..'')"
  by (induction cs arbitrary: i) auto

lemma find_None_iff_all: "find p xs = None \<longleftrightarrow> (\<forall>x\<in>set xs. \<not> p x)"
  by (auto simp: find_None_iff)

lemma repository_subdir_new_Inr_iff:
  "repository_subdir_new s = Inr d \<longleftrightarrow>
     d = s \<and> s \<noteq> [] \<and> \<not> starts_with ''/'' s \<and> CHR 0x5C \<notin> set s \<and>
     (\<forall>p\<in>set (chars s). \<not> is_control p) \<and> \<not> has_drive_prefix (hd (slash_split s)) \<and>
     (\<forall>c\<in>set (slash_split s). c \<noteq> [] \<and> c \<noteq> ''.'' \<and> c \<noteq> ''..'')"
proof (cases "find (\<lambda>e. is_control (snd e)) (char_indices s)")
  case None
  then have "\<forall>p\<in>set (chars s). \<not> is_control p" by (auto simp: chars_def find_None_iff_all)
  then show ?thesis
    by (cases "check_subdir_components 0 (slash_split s)")
      (auto simp: repository_subdir_new_def None check_subdir_None_iff[of 0, symmetric])
next
  case (Some e)
  then have "\<not> (\<forall>p\<in>set (chars s). \<not> is_control p)"
    by (metis chars_def find_None_iff_all image_eqI list.set_map option.distinct(1))
  then show ?thesis using Some by (cases e) (simp add: repository_subdir_new_def)
qed

lemma environment_byte_ascii: "environment_id_byte c \<Longrightarrow> is_ascii c"
  by (auto simp: environment_id_byte_def ascii_defs byte_val_def)

lemma environment_byte_printable:
  "environment_id_byte c \<Longrightarrow> \<not> is_control (byte_val c) \<and> \<not> is_whitespace (byte_val c)"
  by (auto simp: environment_id_byte_def ascii_defs is_control_def is_whitespace_def byte_val_def)

lemma environment_id_new_Inr_iff:
  "environment_id_new s = Inr e \<longleftrightarrow>
     e = s \<and> s \<noteq> [] \<and> (is_ascii_lowercase (hd s) \<or> is_ascii_digit (hd s)) \<and>
     list_all environment_id_byte s \<and> length s \<le> 64"
proof -
  have "\<not> list_ex (\<lambda>p. is_control p \<or> is_whitespace p) (chars s)" if "list_all environment_id_byte s"
  proof -
    have "chars s = map byte_val s"
      using that environment_byte_ascii by (intro chars_ascii) (auto simp: list_all_iff)
    then show ?thesis
      using that environment_byte_printable by (auto simp: list_ex_iff list_all_iff)
  qed
  then show ?thesis by (cases s) (auto simp: environment_id_new_def)
qed

lemma hex_upper_props:
  assumes "is_ascii_hexdigit h"
  shows "is_ascii_hexdigit (to_ascii_uppercase h)" and "hex_value (to_ascii_uppercase h) = hex_value h"
    and "to_ascii_uppercase (to_ascii_uppercase h) = to_ascii_uppercase h"
  using assms by (auto simp: to_ascii_uppercase_def ascii_defs hex_value_def byte_val_char_of)

lemma unreserved_path: "is_url_unreserved c \<Longrightarrow> is_url_path_character c \<and> c \<noteq> CHR ''%''"
  by (auto simp: is_url_path_character_def is_url_unreserved_def ascii_defs byte_val_def)

lemma normalize_url_component_idem:
  "normalize_url_component s = Inr t \<Longrightarrow> normalize_url_component t = Inr t"
proof (induction s arbitrary: t rule: normalize_url_component.induct)
  case (2 c cs)
  show ?case
  proof (cases "c = CHR ''%''")
    case True
    with 2(3) obtain h l rest r where cs: "cs = h # l # rest"
      and hex: "is_ascii_hexdigit h" "is_ascii_hexdigit l"
      and r: "normalize_url_component rest = Inr r"
      and t: "t = (if is_url_unreserved (char_of (hex_value h * 16 + hex_value l))
                   then [char_of (hex_value h * 16 + hex_value l)]
                   else [CHR ''%'', to_ascii_uppercase h, to_ascii_uppercase l]) @ r"
      by (auto simp: map_res_Inr_iff Let_def split: list.splits if_splits)
    have IH: "normalize_url_component r = Inr r"
      using 2(1)[of h "l # rest" l rest "char_of (hex_value h * 16 + hex_value l)" r] True cs hex r by simp
    show ?thesis using hex_upper_props[OF hex(1)] hex_upper_props[OF hex(2)] IH t unreserved_path
      by (cases "is_url_unreserved (char_of (hex_value h * 16 + hex_value l))") auto
  next
    case False
    with 2(3) obtain r where ok: "is_url_path_character c"
      and r: "normalize_url_component cs = Inr r" and t: "t = c # r"
      by (auto simp: map_res_Inr_iff split: if_splits)
    have "normalize_url_component r = Inr r" using 2(2)[OF False _ r] ok by simp
    then show ?thesis using False ok t by simp
  qed
qed simp

lemma lowercase_zero: "to_ascii_lowercase h = CHR ''0'' \<longleftrightarrow> h = CHR ''0''"
proof (cases "is_ascii_uppercase h")
  case True
  then have "byte_val (to_ascii_lowercase h) \<noteq> byte_val (CHR ''0'')" "byte_val h \<noteq> byte_val (CHR ''0'')"
    by (auto simp: to_ascii_lowercase_def ascii_defs byte_val_char_of byte_val_def)
  then show ?thesis by auto
qed (simp add: to_ascii_lowercase_def)

lemma sha256_digest_idem: "sha256_digest_new s = Inr d \<Longrightarrow> sha256_digest_new d = Inr d"
  by (auto simp: sha256_digest_new_Inr_iff list_all_iff)

lemma git_commit_id_idem: "git_commit_id_new s = Inr c \<Longrightarrow> git_commit_id_new (gc_hex c) = Inr c"
  using lowercase_zero by (auto simp: git_commit_id_new_Inr_iff list_all_iff)

end
