(* ===== verification/Versions.thy ===== *)
theory Versions
  imports Rust_Str
begin

text \<open>
  \<^verbatim>\<open>rsolve-core/src/r_versions.rs\<close>: R package versions.  A version keeps the spelling it was
  parsed from; equality, order and hashing use its numeric components without the trailing
  zeros.  Components are stored inline up to eight and in a vector beyond that.
\<close>

section \<open>Components\<close>

datatype components = Inline "u32 list" nat | Spill "u32 list"

definition components_from_vec :: "u32 list \<Rightarrow> components" where
  "components_from_vec values =
     (if length values \<le> 8 then Inline (values @ replicate (8 - length values) 0) (length values)
      else Spill values)"

fun components_len :: "components \<Rightarrow> nat" where
  "components_len (Inline values len) = len"
| "components_len (Spill values) = length values"

fun components_get :: "components \<Rightarrow> nat \<Rightarrow> u32" where
  "components_get (Inline values len) index = values ! index"
| "components_get (Spill values) index = values ! index"

text \<open>The \<^verbatim>\<open>while len > 0 && self.get(len - 1) == 0\<close> loop, as recursion on \<^verbatim>\<open>len\<close>.\<close>

fun canonical_len_from :: "components \<Rightarrow> nat \<Rightarrow> nat" where
  "canonical_len_from c 0 = 0"
| "canonical_len_from c (Suc n) = (if components_get c n = 0 then canonical_len_from c n else Suc n)"

definition canonical_len :: "components \<Rightarrow> nat" where
  "canonical_len c = canonical_len_from c (components_len c)"

definition components_iter :: "components \<Rightarrow> u32 list" where
  "components_iter c = map (components_get c) [0..<canonical_len c]"

section \<open>Versions\<close>

record r_package_version =
  rv_raw :: string
  rv_components :: components

datatype r_package_version_error =
    EmptyVersion
  | EmptyVersionComponent nat
  | NonNumericComponent nat
  | ComponentOverflow nat
  | TooFewComponents nat nat

fun r_package_version_error_display :: "r_package_version_error \<Rightarrow> string" where
  "r_package_version_error_display EmptyVersion = ''R version is empty''"
| "r_package_version_error_display (EmptyVersionComponent index) =
     ''R version component '' @ show_nat index @ '' is empty''"
| "r_package_version_error_display (NonNumericComponent index) =
     ''R version component '' @ show_nat index @ '' is not numeric''"
| "r_package_version_error_display (ComponentOverflow index) =
     ''R version component '' @ show_nat index @ '' overflows u32''"
| "r_package_version_error_display (TooFewComponents found minimum) =
     ''R version has '' @ show_nat found @ '' component(s), minimum is '' @ show_nat minimum"

text \<open>The byte loop of one component: \<^verbatim>\<open>checked_mul(10)\<close>, then \<^verbatim>\<open>checked_add\<close> of the digit.\<close>

fun parse_component :: "nat \<Rightarrow> u32 \<Rightarrow> string \<Rightarrow> r_package_version_error + u32" where
  "parse_component index v [] = Inr v"
| "parse_component index v (b # bs) =
     (if \<not> is_ascii_digit b then Inl (NonNumericComponent index)
      else case Option.bind (checked_mul_u32 v 10)
                  (\<lambda>w. checked_add_u32 w (word_of_nat (byte_val b - 48))) of
             None \<Rightarrow> Inl (ComponentOverflow index)
           | Some w \<Rightarrow> parse_component index w bs)"

fun parse_components :: "nat \<Rightarrow> string list \<Rightarrow> r_package_version_error + u32 list" where
  "parse_components index [] = Inr []"
| "parse_components index (s # ss) =
     (if s = [] then Inl (EmptyVersionComponent index)
      else bind_res (parse_component index 0 s)
             (\<lambda>v. map_res (Cons v) (parse_components (Suc index) ss)))"

definition is_version_separator :: "char \<Rightarrow> bool" where
  "is_version_separator c = (c = CHR ''.'' \<or> c = CHR ''-'')"

definition parse_with_minimum :: "string \<Rightarrow> nat \<Rightarrow> r_package_version_error + r_package_version" where
  "parse_with_minimum input minimum =
     (if input = [] then Inl EmptyVersion
      else bind_res (parse_components 0 (split_on is_version_separator input))
             (\<lambda>cs. if length cs < minimum then Inl (TooFewComponents (length cs) minimum)
                    else Inr \<lparr>rv_raw = input, rv_components = components_from_vec cs\<rparr>))"

definition parse_version :: "string \<Rightarrow> r_package_version_error + r_package_version" where
  "parse_version input = parse_with_minimum input 2"

definition parse_bare :: "string \<Rightarrow> r_package_version_error + r_package_version" where
  "parse_bare input = parse_with_minimum input 1"

definition version_str :: "r_package_version \<Rightarrow> string" where
  "version_str v = rv_raw v"

definition version_components :: "r_package_version \<Rightarrow> u32 list" where
  "version_components v = map (components_get (rv_components v)) [0..<components_len (rv_components v)]"

definition canonical_component_count :: "r_package_version \<Rightarrow> nat" where
  "canonical_component_count v = canonical_len (rv_components v)"

definition version_cmp :: "r_package_version \<Rightarrow> r_package_version \<Rightarrow> ordering" where
  "version_cmp v w = iter_cmp (components_iter (rv_components v)) (components_iter (rv_components w))"

definition version_eq :: "r_package_version \<Rightarrow> r_package_version \<Rightarrow> bool" where
  "version_eq v w = (version_cmp v w = Equal)"

text \<open>What \<^verbatim>\<open>Hash\<close> feeds the hasher: the canonical length, then the canonical components.\<close>

definition version_hash_input :: "r_package_version \<Rightarrow> nat \<times> u32 list" where
  "version_hash_input v = (canonical_len (rv_components v), components_iter (rv_components v))"

text \<open>The derived \<^verbatim>\<open>Debug\<close> of a version, which the resolver's tie-breaking keys contain.\<close>

definition debug_u32 :: "u32 \<Rightarrow> string" where
  "debug_u32 w = show_nat (unat w)"

fun debug_components :: "components \<Rightarrow> string" where
  "debug_components (Inline values len) =
     debug_struct ''Inline'' [(''values'', debug_list (map debug_u32 values)), (''len'', show_nat len)]"
| "debug_components (Spill values) = debug_tuple ''Spill'' [debug_list (map debug_u32 values)]"

definition debug_version :: "r_package_version \<Rightarrow> string" where
  "debug_version v =
     debug_struct ''RPackageVersion''
       [(''raw'', debug_str (rv_raw v)), (''components'', debug_components (rv_components v))]"

section \<open>Reference definitions\<close>

text \<open>
  R's \<^verbatim>\<open>numeric_version\<close> comparison: component by component, a missing component counting as
  zero.
\<close>

fun padded_cmp :: "u32 list \<Rightarrow> u32 list \<Rightarrow> ordering" where
  "padded_cmp [] [] = Equal"
| "padded_cmp (x # xs) [] = then_with (cmp_of x 0) (padded_cmp xs [])"
| "padded_cmp [] (y # ys) = then_with (cmp_of 0 y) (padded_cmp [] ys)"
| "padded_cmp (x # xs) (y # ys) = then_with (cmp_of x y) (padded_cmp xs ys)"

definition strip_zeros :: "u32 list \<Rightarrow> u32 list" where
  "strip_zeros xs = rev (dropWhile (\<lambda>x. x = 0) (rev xs))"

text \<open>The number a digit string denotes, continuing from \<open>n\<close>.\<close>

fun dec_value :: "nat \<Rightarrow> string \<Rightarrow> nat" where
  "dec_value n [] = n"
| "dec_value n (b # bs) = dec_value (n * 10 + (byte_val b - 48)) bs"

text \<open>The representation invariant of a stored component sequence.\<close>

fun components_ok :: "components \<Rightarrow> bool" where
  "components_ok (Inline values len) = (length values = 8 \<and> len \<le> 8)"
| "components_ok (Spill values) = (8 < length values)"

section \<open>Lemmas on components\<close>

definition stored :: "components \<Rightarrow> u32 list" where
  "stored c = map (components_get c) [0..<components_len c]"

lemma version_components_stored: "version_components v = stored (rv_components v)"
  by (simp add: version_components_def stored_def)

lemma components_from_vec_ok: "components_ok (components_from_vec vs)"
  by (simp add: components_from_vec_def)

lemma stored_from_vec [simp]: "stored (components_from_vec vs) = vs"
  by (rule nth_equalityI) (auto simp: stored_def components_from_vec_def nth_append)

lemma strip_zeros_snoc: "strip_zeros (xs @ [x]) = (if x = 0 then strip_zeros xs else xs @ [x])"
  by (simp add: strip_zeros_def)

lemma strip_zeros_Nil [simp]: "strip_zeros [] = []"
  by (simp add: strip_zeros_def)

lemma map_get_canonical:
  "map (components_get c) [0..<canonical_len_from c n] = strip_zeros (map (components_get c) [0..<n])"
  by (induction n) (simp_all add: strip_zeros_snoc)

lemma components_iter_strip: "components_iter c = strip_zeros (stored c)"
  by (simp add: components_iter_def canonical_len_def stored_def map_get_canonical)

lemma canonical_len_strip: "canonical_len c = length (strip_zeros (stored c))"
  using components_iter_strip[of c] by (metis components_iter_def diff_zero length_map length_upt)

lemma strip_zeros_Nil_iff: "strip_zeros xs = [] \<longleftrightarrow> (\<forall>x\<in>set xs. x = 0)"
  by (auto simp: strip_zeros_def)

lemma strip_zeros_Cons:
  "strip_zeros (x # xs) = (if x = 0 \<and> strip_zeros xs = [] then [] else x # strip_zeros xs)"
  by (auto simp: strip_zeros_def dropWhile_append dest: dropWhile_eq_Nil_conv[THEN iffD1])

lemma padded_cmp_Nil_left: "padded_cmp [] ys = (if strip_zeros ys = [] then Equal else Less)"
proof (induction ys)
  case (Cons y ys)
  have "y = 0 \<or> 0 < y" by (simp add: word_gt_0)
  then show ?case using Cons by (auto simp: strip_zeros_Cons cmp_of_def)
qed simp

lemma padded_cmp_Nil_right: "padded_cmp xs [] = (if strip_zeros xs = [] then Equal else Greater)"
proof (induction xs)
  case (Cons x xs)
  have "x = 0 \<or> 0 < x" by (simp add: word_gt_0)
  then show ?case using Cons by (auto simp: strip_zeros_Cons cmp_of_def)
qed simp

lemma iter_cmp_Nil: "iter_cmp [] ys = (if ys = [] then Equal else Less)"
  "iter_cmp xs [] = (if xs = [] then Equal else Greater)"
  by (cases ys; cases xs; simp)+

lemma iter_cmp_strip: "iter_cmp (strip_zeros xs) (strip_zeros ys) = padded_cmp xs ys"
proof (induction xs ys rule: padded_cmp.induct)
  case (4 x xs y ys)
  show ?case
  proof (cases "(x = 0 \<and> strip_zeros xs = []) \<or> (y = 0 \<and> strip_zeros ys = [])")
    case True
    then show ?thesis using 4
      by (auto simp: strip_zeros_Cons iter_cmp_Nil cmp_of_def word_gt_0 split: if_splits)
  next
    case False
    then show ?thesis using 4 by (auto simp: strip_zeros_Cons)
  qed
qed (simp_all add: iter_cmp_Nil padded_cmp_Nil_left padded_cmp_Nil_right)

lemma version_cmp_padded: "version_cmp v w = padded_cmp (version_components v) (version_components w)"
  by (simp add: version_cmp_def components_iter_strip iter_cmp_strip version_components_stored)

interpretation vers: total_cmp version_cmp
  unfolding version_cmp_def by (rule total_cmp_key) (rule iterc.total_cmp_axioms)

interpretation vers_eq: rust_eq version_eq
  unfolding version_eq_def by (rule vers.cmp_eq.rust_eq_axioms)

lemma version_eq_iff: "version_eq v w \<longleftrightarrow> components_iter (rv_components v) = components_iter (rv_components w)"
  by (simp add: version_eq_def version_cmp_def iter_cmp_cmp_of)

lemma version_hash_input_iff: "version_hash_input v = version_hash_input w \<longleftrightarrow> version_eq v w"
  by (auto simp: version_hash_input_def version_eq_iff canonical_len_strip
      components_iter_strip)

section \<open>Lemmas on parsing\<close>

lemma unat_word_of_nat32: "n < 2 ^ 32 \<Longrightarrow> unat (word_of_nat n :: u32) = n"
  by (simp add: unat_of_nat take_bit_eq_mod)

lemma checked_step_nat:
  assumes "d < 10"
  shows "Option.bind (checked_mul_u32 v 10) (\<lambda>w. checked_add_u32 w (word_of_nat d)) =
         (if unat v * 10 + d < 2 ^ 32 then Some (word_of_nat (unat v * 10 + d)) else None)"
proof (cases "unat v * 10 < 2 ^ 32")
  case True
  have mul: "unat (v * 10) = unat v * 10"
    using True by (simp add: unat_word_ariths)
  have d: "unat (word_of_nat d :: u32) = d"
    using assms by (intro unat_word_of_nat32) simp
  have "v * 10 + word_of_nat d = word_of_nat (unat v * 10 + d)"
    by (simp add: mult.commute)
  then show ?thesis
    using True mul d by (simp add: checked_mul_u32_def checked_add_u32_def)
next
  case False
  then show ?thesis by (simp add: checked_mul_u32_def)
qed

lemma checked_step:
  assumes "is_ascii_digit b"
  shows "Option.bind (checked_mul_u32 v 10) (\<lambda>w. checked_add_u32 w (word_of_nat (byte_val b - 48))) =
         (if unat v * 10 + (byte_val b - 48) < 2 ^ 32
          then Some (word_of_nat (unat v * 10 + (byte_val b - 48))) else None)"
  by (rule checked_step_nat) (use assms in \<open>auto simp: is_ascii_digit_def\<close>)

lemma dec_value_mono: "n \<le> dec_value n bs"
proof (induction bs arbitrary: n)
  case (Cons b bs)
  have "n \<le> n * 10 + (byte_val b - 48)" by simp
  also have "\<dots> \<le> dec_value (n * 10 + (byte_val b - 48)) bs" by (rule Cons)
  finally show ?case by simp
qed simp

lemma parse_component_value:
  assumes "\<forall>b\<in>set bs. is_ascii_digit b"
  shows "parse_component i v bs =
         (if dec_value (unat v) bs < 2 ^ 32 then Inr (word_of_nat (dec_value (unat v) bs))
          else Inl (ComponentOverflow i))"
  using assms
proof (induction bs arbitrary: v)
  case Nil
  have "unat v < 2 ^ 32" using unsigned_less[of v, where 'a = nat] by simp
  then show ?case by simp
next
  case (Cons b bs)
  let ?n = "unat v * 10 + (byte_val b - 48)"
  have digit: "is_ascii_digit b" using Cons.prems by simp
  show ?case
  proof (cases "?n < 2 ^ 32")
    case True
    have "parse_component i v (b # bs) = parse_component i (word_of_nat ?n) bs"
      using digit True by (simp only: parse_component.simps checked_step[OF digit]) simp
    then show ?thesis using Cons.IH[of "word_of_nat ?n"] Cons.prems unat_word_of_nat32[OF True]
      by simp
  next
    case False
    then have "\<not> dec_value ?n bs < 2 ^ 32" using dec_value_mono[of ?n bs] by linarith
    moreover have "parse_component i v (b # bs) = Inl (ComponentOverflow i)"
      using digit False by (simp only: parse_component.simps checked_step[OF digit]) simp
    ultimately show ?thesis by simp
  qed
qed

lemma parse_component_digits: "parse_component i v bs = Inr w \<Longrightarrow> \<forall>b\<in>set bs. is_ascii_digit b"
  by (induction bs arbitrary: v) (auto split: if_splits option.splits)

lemma parse_component_Inr_iff:
  "parse_component i 0 bs = Inr w \<longleftrightarrow>
     (\<forall>b\<in>set bs. is_ascii_digit b) \<and> dec_value 0 bs < 2 ^ 32 \<and> w = word_of_nat (dec_value 0 bs)"
  using parse_component_digits[of i 0 bs w] parse_component_value[of bs i 0]
  by (auto split: if_splits)

text \<open>A component text that parses, and the value it has.\<close>

definition component_text :: "string \<Rightarrow> bool" where
  "component_text s = (s \<noteq> [] \<and> (\<forall>b\<in>set s. is_ascii_digit b) \<and> dec_value 0 s < 2 ^ 32)"

definition component_value :: "string \<Rightarrow> u32" where
  "component_value s = word_of_nat (dec_value 0 s)"

lemma parse_components_Inr_iff:
  "parse_components i ss = Inr cs \<longleftrightarrow> (\<forall>s\<in>set ss. component_text s) \<and> cs = map component_value ss"
proof (induction ss arbitrary: i cs)
  case (Cons s ss)
  then show ?case
    by (auto simp: bind_res_Inr_iff map_res_Inr_iff parse_component_Inr_iff component_text_def
        component_value_def)
qed auto

lemma parse_with_minimum_Inr_iff:
  "parse_with_minimum s n = Inr v \<longleftrightarrow>
     s \<noteq> [] \<and> (\<forall>c\<in>set (split_on is_version_separator s). component_text c) \<and>
     n \<le> length (split_on is_version_separator s) \<and>
     v = \<lparr>rv_raw = s,
          rv_components = components_from_vec (map component_value (split_on is_version_separator s))\<rparr>"
  by (auto simp: parse_with_minimum_def bind_res_Inr_iff parse_components_Inr_iff)

lemma parse_version_components:
  "parse_with_minimum s n = Inr v \<Longrightarrow>
   version_components v = map component_value (split_on is_version_separator s)"
  by (simp add: parse_with_minimum_Inr_iff version_components_stored)

lemma dec_value_append: "dec_value n (xs @ ys) = dec_value (dec_value n xs) ys"
  by (induction xs arbitrary: n) simp_all

lemma dec_value_show_nat: "dec_value 0 (show_nat n) = n"
proof (induction n rule: show_nat.induct)
  case (1 n)
  show ?case
  proof (cases "n < 10")
    case True
    then show ?thesis by (simp add: show_nat.simps[of n] byte_val_digit_char)
  next
    case False
    then show ?thesis using 1
      by (simp add: show_nat.simps[of n] dec_value_append byte_val_digit_char)
  qed
qed

lemma component_text_show [simp]: "component_text (show_nat (unat (w :: u32)))"
  using unsigned_less[of w, where 'a = nat]
  by (auto simp: component_text_def dec_value_show_nat show_nat_digits)

lemma component_value_show [simp]: "component_value (show_nat (unat w)) = w"
  by (simp add: component_value_def dec_value_show_nat)

lemma show_nat_no_separator: "c \<in> set (show_nat n) \<Longrightarrow> \<not> is_version_separator c"
proof -
  assume "c \<in> set (show_nat n)"
  then have "is_ascii_digit c" by (rule show_nat_digits)
  then show ?thesis by (auto simp: is_version_separator_def is_ascii_digit_def byte_val_def)
qed

text \<open>Printing components with dots and parsing them back.\<close>

lemma parse_join_components:
  assumes "cs \<noteq> []" and "n \<le> length cs"
  shows "\<exists>v. parse_with_minimum (join_str ''.'' (map (\<lambda>c. show_nat (unat c)) cs)) n = Inr v \<and>
             version_components v = cs"
proof -
  let ?s = "join_str ''.'' (map (\<lambda>c. show_nat (unat c)) cs)"
  have split: "split_on is_version_separator ?s = map (\<lambda>c. show_nat (unat c)) cs"
    using assms(1)
    by (intro split_on_join) (auto simp: is_version_separator_def[of "CHR ''.''"] dest: show_nat_no_separator)
  have "?s \<noteq> []"
  proof
    assume "?s = []"
    then have "map (\<lambda>c. show_nat (unat c)) cs = [[]]" using split by simp
    then show False by (cases cs) auto
  qed
  moreover have "map component_value (map (\<lambda>c. show_nat (unat c)) cs) = cs"
    by (simp add: comp_def)
  ultimately show ?thesis using assms(2) split
    by (auto simp: parse_with_minimum_Inr_iff version_components_stored)
qed

end
