(* ===== verification/Identity.thy ===== *)
theory Identity
  imports Names Versions
begin

text \<open>
  \<^verbatim>\<open>rsolve-core/src/identity.rs\<close>: release identities and distribution evidence.  A release is
  identified by its name and its provenance; versions inside a provenance are compared
  numerically, so the equality of identities is an operation of its own.  Distribution
  evidence is kept in a canonical order by a tagged, length-delimited byte key.
\<close>

section \<open>Provenance and identity\<close>

datatype provenance =
    RBasePackage r_package_version
  | RegistryRelease package_namespace r_package_version
  | GitCommit normalized_git_url git_commit_id "repository_subdir option"
  | BioconductorRelease package_namespace bioconductor_release r_package_version
  | ImmutableSource source_scheme sha256_digest

fun provenance_eq :: "provenance \<Rightarrow> provenance \<Rightarrow> bool" where
  "provenance_eq (RBasePackage v) (RBasePackage v') = version_eq v v'"
| "provenance_eq (RegistryRelease n v) (RegistryRelease n' v') = (n = n' \<and> version_eq v v')"
| "provenance_eq (GitCommit r c s) (GitCommit r' c' s') = (r = r' \<and> c = c' \<and> s = s')"
| "provenance_eq (BioconductorRelease n r v) (BioconductorRelease n' r' v') =
     (n = n' \<and> r = r' \<and> version_eq v v')"
| "provenance_eq (ImmutableSource s d) (ImmutableSource s' d') = (s = s' \<and> d = d')"
| "provenance_eq _ _ = False"

fun provenance_is_r_base_package :: "provenance \<Rightarrow> bool" where
  "provenance_is_r_base_package (RBasePackage _) = True"
| "provenance_is_r_base_package _ = False"

record release_identity =
  ri_name :: package_name
  ri_provenance :: provenance

definition release_identity_new :: "package_name \<Rightarrow> provenance \<Rightarrow> release_identity" where
  "release_identity_new name provenance = \<lparr>ri_name = name, ri_provenance = provenance\<rparr>"

definition identity_eq :: "release_identity \<Rightarrow> release_identity \<Rightarrow> bool" where
  "identity_eq a b = (ri_name a = ri_name b \<and> provenance_eq (ri_provenance a) (ri_provenance b))"

section \<open>The textual sort key of an identity\<close>

text \<open>
  Derived \<^verbatim>\<open>Debug\<close> output, and \<^verbatim>\<open>identity_sort_key\<close> of the resolver crate:
  \<^verbatim>\<open>format!("{}:{:?}", identity.name(), identity.provenance())\<close>.
\<close>

definition debug_newtype :: "string \<Rightarrow> string \<Rightarrow> string" where
  "debug_newtype name s = debug_tuple name [debug_str s]"

fun debug_algorithm :: "git_hash_algorithm \<Rightarrow> string" where
  "debug_algorithm Sha1 = ''Sha1''"
| "debug_algorithm Sha256 = ''Sha256''"

definition debug_commit :: "git_commit_id \<Rightarrow> string" where
  "debug_commit c =
     debug_struct ''GitCommitId''
       [(''algorithm'', debug_algorithm (gc_algorithm c)), (''hex'', debug_str (gc_hex c))]"

fun debug_provenance :: "provenance \<Rightarrow> string" where
  "debug_provenance (RBasePackage v) = debug_struct ''RBasePackage'' [(''r_version'', debug_version v)]"
| "debug_provenance (RegistryRelease n v) =
     debug_struct ''RegistryRelease''
       [(''namespace'', debug_newtype ''PackageNamespace'' n), (''version'', debug_version v)]"
| "debug_provenance (GitCommit r c s) =
     debug_struct ''GitCommit''
       [(''repository'', debug_newtype ''NormalizedGitUrl'' r), (''commit'', debug_commit c),
        (''subdirectory'', debug_option (map_option (debug_newtype ''RepositorySubdir'') s))]"
| "debug_provenance (BioconductorRelease n r v) =
     debug_struct ''BioconductorRelease''
       [(''namespace'', debug_newtype ''PackageNamespace'' n),
        (''release'', debug_newtype ''BioconductorRelease'' r), (''version'', debug_version v)]"
| "debug_provenance (ImmutableSource s d) =
     debug_struct ''ImmutableSource''
       [(''scheme'', debug_newtype ''SourceScheme'' s), (''digest'', debug_newtype ''Sha256Digest'' d)]"

definition identity_sort_key :: "release_identity \<Rightarrow> string" where
  "identity_sort_key i = ri_name i @ '':'' @ debug_provenance (ri_provenance i)"

definition debug_identity :: "release_identity \<Rightarrow> string" where
  "debug_identity i =
     debug_struct ''ReleaseIdentity''
       [(''name'', debug_newtype ''PackageName'' (ri_name i)),
        (''provenance'', debug_provenance (ri_provenance i))]"

section \<open>Distributions\<close>

datatype upstream_checksum = Md5 string | Sha256Sum sha256_digest | OtherSum string string

record source_artifact =
  sa_locator :: artifact_locator
  sa_upstream_checksums :: "upstream_checksum list"
  sa_size :: "u64 option"

datatype artifact = Source source_artifact

text \<open>The observed metadata \<^verbatim>\<open>BTreeMap<String, String>\<close> is its list of entries in key order.\<close>

record distribution =
  di_registry :: registry_id
  di_channel :: distribution_channel
  di_snapshot :: "snapshot_id option"
  di_artifacts :: "artifact list"
  di_observed_metadata :: "(string \<times> string) list"

section \<open>The canonical key\<close>

definition len_u64 :: "'a list \<Rightarrow> bytes" where
  "len_u64 xs = to_be_bytes (word_of_nat (length xs))"

definition key_field :: "nat \<Rightarrow> bytes \<Rightarrow> bytes" where
  "key_field tag v = char_of tag # len_u64 v @ v"

fun checksum_key :: "upstream_checksum \<Rightarrow> bytes" where
  "checksum_key (Md5 v) = key_field 1 v"
| "checksum_key (Sha256Sum v) = key_field 2 v"
| "checksum_key (OtherSum algorithm v) = key_field 3 algorithm @ key_field 4 v"

fun artifact_key :: "artifact \<Rightarrow> bytes" where
  "artifact_key (Source source) =
     key_field 0 ''Source''
     @ key_field 1 (sa_locator source)
     @ key_field 2 (len_u64 (sa_upstream_checksums source))
     @ concat (map (\<lambda>c. key_field 3 (checksum_key c)) (sa_upstream_checksums source))
     @ (case sa_size source of
          Some n \<Rightarrow> key_field 4 [char_of (1::nat)] @ key_field 5 (to_be_bytes n)
        | None \<Rightarrow> key_field 4 [char_of (0::nat)])"

definition metadata_key :: "string \<times> string \<Rightarrow> bytes" where
  "metadata_key e = key_field 1 (fst e) @ key_field 2 (snd e)"

definition distribution_key :: "distribution \<Rightarrow> bytes" where
  "distribution_key d =
     key_field 1 (di_registry d)
     @ key_field 2 (di_channel d)
     @ (case di_snapshot d of
          Some snapshot \<Rightarrow> key_field 3 [char_of (1::nat)] @ key_field 4 snapshot
        | None \<Rightarrow> key_field 3 [char_of (0::nat)])
     @ key_field 5 (len_u64 (di_artifacts d))
     @ concat (map (\<lambda>a. key_field 6 (artifact_key a)) (di_artifacts d))
     @ key_field 7 (len_u64 (di_observed_metadata d))
     @ concat (map (\<lambda>e. key_field 8 (metadata_key e)) (di_observed_metadata d))"

definition canonicalize_distributions :: "distribution list \<Rightarrow> distribution list" where
  "canonicalize_distributions distributions =
     map snd
       (dedup_by (\<lambda>left right. fst left = fst right)
         (sort_by (\<lambda>left right. cmp_of (fst left) (fst right))
           (map (\<lambda>d. (distribution_key d, d)) distributions)))"

section \<open>Lemmas on equality\<close>

lemma provenance_eq_refl: "provenance_eq p p"
  by (cases p) (simp_all add: vers_eq.eq_refl)

lemma provenance_eq_sym: "provenance_eq p q \<Longrightarrow> provenance_eq q p"
  by (cases p; cases q) (auto intro: vers_eq.eq_sym)

lemma provenance_eq_trans: "provenance_eq p q \<Longrightarrow> provenance_eq q r \<Longrightarrow> provenance_eq p r"
  by (cases p; cases q; cases r) (auto intro: vers_eq.eq_trans)

interpretation prov_eq: rust_eq provenance_eq
  by unfold_locales (rule provenance_eq_refl, erule provenance_eq_sym, erule (1) provenance_eq_trans)

interpretation id_eq: rust_eq identity_eq
  by unfold_locales
    (auto simp: identity_eq_def intro: prov_eq.eq_refl prov_eq.eq_sym prov_eq.eq_trans)

lemma identity_eq_name: "identity_eq a b \<Longrightarrow> ri_name a = ri_name b"
  by (simp add: identity_eq_def)

lemma provenance_eq_base:
  "provenance_eq p q \<Longrightarrow> provenance_is_r_base_package p = provenance_is_r_base_package q"
  by (cases p; cases q) auto

section \<open>The canonical key is injective\<close>

text \<open>
  A Rust vector is shorter than \<open>2 ^ 63\<close> bytes; the lemmas need \<open>2 ^ 64\<close>, so that no
  length wraps in its eight-byte field.
\<close>

definition sized :: "'a list \<Rightarrow> bool" where
  "sized xs = (length xs < 2 ^ 64)"

fun checksum_sized :: "upstream_checksum \<Rightarrow> bool" where
  "checksum_sized (Md5 v) = sized v"
| "checksum_sized (Sha256Sum v) = sized v"
| "checksum_sized (OtherSum algorithm v) = (sized algorithm \<and> sized v)"

fun artifact_sized :: "artifact \<Rightarrow> bool" where
  "artifact_sized (Source s) =
     (sized (sa_locator s) \<and> list_all (\<lambda>c. checksum_sized c \<and> sized (checksum_key c)) (sa_upstream_checksums s))"

definition distribution_sized :: "distribution \<Rightarrow> bool" where
  "distribution_sized d =
     (sized (di_registry d) \<and> sized (di_channel d) \<and> pred_option sized (di_snapshot d)
      \<and> list_all (\<lambda>a. artifact_sized a \<and> sized (artifact_key a)) (di_artifacts d)
      \<and> list_all (\<lambda>e. sized (fst e) \<and> sized (snd e) \<and> sized (metadata_key e)) (di_observed_metadata d))"

text \<open>A key is a list of tagged fields, and a tagged field sequence is uniquely decodable.\<close>

type_synonym field = "nat \<times> bytes"

definition fields_bytes :: "field list \<Rightarrow> bytes" where
  "fields_bytes fs = concat (map (\<lambda>(t, v). key_field t v) fs)"

definition fields_ok :: "field list \<Rightarrow> bool" where
  "fields_ok fs = list_all (\<lambda>(t, v). t < 256 \<and> sized v) fs"

lemma fields_bytes_simps [simp]:
  "fields_bytes [] = []" "fields_bytes ((t, v) # fs) = key_field t v @ fields_bytes fs"
  "fields_bytes (fs @ gs) = fields_bytes fs @ fields_bytes gs"
  by (simp_all add: fields_bytes_def)

lemma fields_ok_simps [simp]:
  "fields_ok []" "fields_ok ((t, v) # fs) \<longleftrightarrow> t < 256 \<and> sized v \<and> fields_ok fs"
  "fields_ok (fs @ gs) \<longleftrightarrow> fields_ok fs \<and> fields_ok gs"
  by (simp_all add: fields_ok_def)

lemma word_of_nat64_inject:
  "m < 2 ^ 64 \<Longrightarrow> n < 2 ^ 64 \<Longrightarrow> (word_of_nat m :: u64) = word_of_nat n \<longleftrightarrow> m = n"
proof -
  assume "m < 2 ^ 64" "n < 2 ^ 64"
  then have "unat (word_of_nat m :: u64) = m" "unat (word_of_nat n :: u64) = n"
    by (simp_all add: unat_of_nat take_bit_eq_mod)
  then show ?thesis by metis
qed

lemma length_len_u64 [simp]: "length (len_u64 xs) = 8"
  by (simp add: len_u64_def)

lemma len_u64_inject: "sized xs \<Longrightarrow> sized ys \<Longrightarrow> len_u64 xs = len_u64 ys \<longleftrightarrow> length xs = length ys"
  by (simp add: len_u64_def to_be_bytes_inject sized_def word_of_nat64_inject)

lemma char_of_inject: "t < 256 \<Longrightarrow> u < 256 \<Longrightarrow> char_of (t::nat) = char_of u \<longleftrightarrow> t = u"
  by (metis byte_val_char_of)

lemma key_field_append_inject:
  assumes "t < 256" "u < 256" "sized v" "sized w"
  shows "key_field t v @ r = key_field u w @ r' \<longleftrightarrow> t = u \<and> v = w \<and> r = r'"
proof
  assume eq: "key_field t v @ r = key_field u w @ r'"
  then have "t = u" and *: "len_u64 v @ v @ r = len_u64 w @ w @ r'"
    using assms(1,2) by (simp_all add: key_field_def char_of_inject)
  from * have "len_u64 v = len_u64 w" and **: "v @ r = w @ r'" by auto
  then have "length v = length w" using assms(3,4) by (simp add: len_u64_inject)
  with ** \<open>t = u\<close> show "t = u \<and> v = w \<and> r = r'" by simp
qed simp

lemma fields_bytes_inject: "fields_ok fs \<Longrightarrow> fields_ok gs \<Longrightarrow> fields_bytes fs = fields_bytes gs \<Longrightarrow> fs = gs"
proof (induction fs arbitrary: gs)
  case Nil
  then show ?case by (cases gs) (auto simp: fields_bytes_def key_field_def)
next
  case (Cons f fs)
  obtain t v where f: "f = (t, v)" by (cases f)
  obtain g gs' where gs: "gs = g # gs'"
    using Cons.prems f by (cases gs) (auto simp: key_field_def)
  obtain u w where g: "g = (u, w)" by (cases g)
  have "t = u \<and> v = w \<and> fields_bytes fs = fields_bytes gs'"
    using Cons.prems by (subst key_field_append_inject[symmetric]) (simp_all add: f g gs)
  moreover have "fs = gs'" if "fields_bytes fs = fields_bytes gs'"
    using Cons.prems that by (intro Cons.IH) (simp_all add: f g gs)
  ultimately show ?case by (simp add: f g gs)
qed

fun tagged :: "nat \<Rightarrow> bytes list \<Rightarrow> field list" where
  "tagged t [] = []"
| "tagged t (v # vs) = (t, v) # tagged t vs"

lemma fields_bytes_tagged:
  "fields_bytes (tagged t (map f xs)) = concat (map (\<lambda>x. key_field t (f x)) xs)"
  by (induction xs) simp_all

lemma fields_ok_tagged: "fields_ok (tagged t vs) \<longleftrightarrow> vs = [] \<or> t < 256 \<and> list_all sized vs"
  by (induction vs) auto

lemma tagged_inject: "tagged t vs = tagged t ws \<longleftrightarrow> vs = ws"
proof (induction vs arbitrary: ws)
  case Nil
  then show ?case by (cases ws) simp_all
next
  case (Cons v vs)
  then show ?case by (cases ws) simp_all
qed

lemma split_tagged:
  assumes "t \<noteq> u"
  shows "tagged t xs @ (u, v) # r = tagged t ys @ (u, w) # r' \<longleftrightarrow> xs = ys \<and> v = w \<and> r = r'"
proof (induction xs arbitrary: ys)
  case Nil
  then show ?case using assms by (cases ys) auto
next
  case (Cons x xs)
  then show ?case using assms by (cases ys) auto
qed

definition checksum_fields :: "upstream_checksum \<Rightarrow> field list" where
  "checksum_fields c = (case c of Md5 v \<Rightarrow> [(1, v)] | Sha256Sum v \<Rightarrow> [(2, v)] | OtherSum a v \<Rightarrow> [(3, a), (4, v)])"

lemma checksum_key_fields: "checksum_key c = fields_bytes (checksum_fields c)"
  by (cases c) (simp_all add: checksum_fields_def)

lemma checksum_key_inject:
  assumes "checksum_sized a" "checksum_sized b" "checksum_key a = checksum_key b"
  shows "a = b"
proof -
  have "checksum_fields a = checksum_fields b"
    using assms by (intro fields_bytes_inject)
      (cases a; cases b; simp add: checksum_fields_def checksum_key_fields)+
  then show ?thesis by (cases a; cases b) (simp_all add: checksum_fields_def)
qed

lemma map_inject_on:
  "(\<And>x y. x \<in> set xs \<Longrightarrow> y \<in> set ys \<Longrightarrow> f x = f y \<Longrightarrow> x = y) \<Longrightarrow> map f xs = map f ys \<Longrightarrow> xs = ys"
proof (induction xs arbitrary: ys)
  case (Cons x xs)
  then show ?case by (cases ys) auto
qed simp

definition artifact_fields :: "source_artifact \<Rightarrow> field list" where
  "artifact_fields s =
     [(0, ''Source''), (1, sa_locator s), (2, len_u64 (sa_upstream_checksums s))]
     @ tagged 3 (map checksum_key (sa_upstream_checksums s))
     @ (case sa_size s of Some n \<Rightarrow> [(4, [char_of (1::nat)]), (5, to_be_bytes n)] | None \<Rightarrow> [(4, [char_of (0::nat)])])"

lemma artifact_key_fields: "artifact_key (Source s) = fields_bytes (artifact_fields s)"
  by (cases "sa_size s") (simp_all add: artifact_fields_def fields_bytes_tagged)

lemma artifact_fields_ok: "artifact_sized (Source s) \<Longrightarrow> fields_ok (artifact_fields s)"
  by (cases "sa_size s")
    (auto simp: artifact_fields_def sized_def fields_ok_tagged list_all_iff)

lemma char01_neq: "char_of (1::nat) \<noteq> char_of (0::nat)"
  by (simp add: char_of_inject)

lemma artifact_key_inject:
  assumes "artifact_sized a" "artifact_sized b" "artifact_key a = artifact_key b"
  shows "a = b"
proof -
  obtain s t where ab: "a = Source s" "b = Source t" by (cases a; cases b) auto
  have eq: "artifact_fields s = artifact_fields t"
    using assms ab artifact_fields_ok by (intro fields_bytes_inject) (simp_all add: artifact_key_fields[symmetric])
  have "map checksum_key (sa_upstream_checksums s) = map checksum_key (sa_upstream_checksums t)
        \<and> sa_size s = sa_size t"
    using eq char01_neq
    by (cases "sa_size s"; cases "sa_size t")
      (simp_all add: artifact_fields_def split_tagged tagged_inject to_be_bytes_inject)
  moreover have "sa_locator s = sa_locator t" using eq by (simp add: artifact_fields_def)
  ultimately have "s = t"
    using map_inject_on[of "sa_upstream_checksums s" "sa_upstream_checksums t" checksum_key]
      checksum_key_inject assms(1,2) ab
    by (cases s; cases t) (auto simp: list_all_iff)
  then show ?thesis using ab by simp
qed

lemma metadata_key_inject:
  assumes "sized (fst a)" "sized (snd a)" "sized (fst b)" "sized (snd b)"
    and "metadata_key a = metadata_key b"
  shows "a = b"
proof -
  have "[(1, fst a), (2, snd a)] = [(1::nat, fst b), (2, snd b)]"
    using assms by (intro fields_bytes_inject) (simp_all add: metadata_key_def)
  then show ?thesis by (simp add: prod_eq_iff)
qed

definition distribution_fields :: "distribution \<Rightarrow> field list" where
  "distribution_fields d =
     [(1, di_registry d), (2, di_channel d)]
     @ (case di_snapshot d of Some s \<Rightarrow> [(3, [char_of (1::nat)]), (4, s)] | None \<Rightarrow> [(3, [char_of (0::nat)])])
     @ [(5, len_u64 (di_artifacts d))]
     @ tagged 6 (map artifact_key (di_artifacts d))
     @ (7, len_u64 (di_observed_metadata d)) # tagged 8 (map metadata_key (di_observed_metadata d))"

lemma distribution_key_fields: "distribution_key d = fields_bytes (distribution_fields d)"
  by (cases "di_snapshot d")
    (simp_all add: distribution_key_def distribution_fields_def fields_bytes_tagged)

lemma distribution_fields_ok: "distribution_sized d \<Longrightarrow> fields_ok (distribution_fields d)"
  by (cases "di_snapshot d")
    (auto simp: distribution_fields_def distribution_sized_def fields_ok_tagged list_all_iff sized_def)

lemma distribution_key_inject:
  assumes "distribution_sized a" "distribution_sized b" "distribution_key a = distribution_key b"
  shows "a = b"
proof -
  have eq: "distribution_fields a = distribution_fields b"
    using assms distribution_fields_ok by (intro fields_bytes_inject) (simp_all add: distribution_key_fields)
  have head: "di_registry a = di_registry b" "di_channel a = di_channel b"
    and snap: "di_snapshot a = di_snapshot b"
    using eq char01_neq
    by (auto simp: distribution_fields_def split: option.splits)
  have "map artifact_key (di_artifacts a) = map artifact_key (di_artifacts b)
        \<and> map metadata_key (di_observed_metadata a) = map metadata_key (di_observed_metadata b)"
    using eq snap by (cases "di_snapshot b") (simp_all add: distribution_fields_def split_tagged tagged_inject)
  then have "di_artifacts a = di_artifacts b" and "di_observed_metadata a = di_observed_metadata b"
    using map_inject_on[of "di_artifacts a" "di_artifacts b" artifact_key] artifact_key_inject
      map_inject_on[of "di_observed_metadata a" "di_observed_metadata b" metadata_key] metadata_key_inject
      assms(1,2)
    by (auto simp: distribution_sized_def list_all_iff)
  then show ?thesis using head snap by (cases a; cases b) simp
qed

section \<open>Canonicalization\<close>

lemma sort_by_map:
  "sort_by cmp (map f xs) = map f (sort_by (\<lambda>a b. cmp (f a) (f b)) xs)"
proof -
  have ins: "insort_by cmp (f x) (map f ys) = map f (insort_by (\<lambda>a b. cmp (f a) (f b)) x ys)" for x ys
    by (induction ys) auto
  show ?thesis by (induction xs) (simp_all add: ins)
qed

lemma dedup_by_map:
  "dedup_by same (map f xs) = map f (dedup_by (\<lambda>a b. same (f a) (f b)) xs)"
  by (induction "\<lambda>a b. same (f a) (f b)" xs rule: dedup_by.induct) auto

lemma canonicalize_distributions_canonical:
  "canonicalize_distributions ds = canonical_by distribution_key ds"
  by (simp add: canonicalize_distributions_def canonical_by_def sort_by_map dedup_by_map comp_def)

lemma canonicalize_subset: "set (canonicalize_distributions ds) \<subseteq> set ds"
  by (simp add: canonicalize_distributions_canonical set_canonical_by_subset)

lemma sized_inj: "list_all distribution_sized ds \<Longrightarrow> inj_on distribution_key (set ds)"
  by (auto simp: inj_on_def list_all_iff intro: distribution_key_inject)

lemma set_canonicalize:
  "list_all distribution_sized ds \<Longrightarrow> set (canonicalize_distributions ds) = set ds"
  by (simp add: canonicalize_distributions_canonical set_canonical_by sized_inj)

lemma canonicalize_idem:
  "canonicalize_distributions (canonicalize_distributions ds) = canonicalize_distributions ds"
  by (simp add: canonicalize_distributions_canonical canonical_by_idem)

lemma canonicalize_cong_set:
  "list_all distribution_sized ds \<Longrightarrow> set ds = set es \<Longrightarrow>
   canonicalize_distributions ds = canonicalize_distributions es"
  unfolding canonicalize_distributions_canonical
  by (rule canonical_by_cong_set) (rule sized_inj)

end
