(* ===== verification/Constraints.thy ===== *)
theory Constraints
  imports Identity "HOL-Library.Product_Lexorder"
begin

text \<open>
  \<^verbatim>\<open>rsolve-core/src/constraints.rs\<close> and \<^verbatim>\<open>publication.rs\<close>: version constraints, package
  requirements, the composition of root requirements, and publication dates.  The calendar
  library \<^verbatim>\<open>jiff\<close> is not part of the repository: a \<^verbatim>\<open>Date\<close> is the triple of its year, month and
  day in chronological order, and its \<^verbatim>\<open>strptime\<close> and \<^verbatim>\<open>strftime\<close> are arguments.
\<close>

section \<open>Version constraints\<close>

datatype relation_op = Lt | Le | Eq | Ne | Ge | Gt

record version_clause =
  vc_op :: relation_op
  vc_version :: r_package_version

record version_constraint =
  clauses :: "version_clause list"

definition constraint_new :: "version_clause list \<Rightarrow> version_constraint" where
  "constraint_new cs = \<lparr>clauses = cs\<rparr>"

definition unconstrained :: version_constraint where
  "unconstrained = \<lparr>clauses = []\<rparr>"

definition conjunction :: "version_constraint \<Rightarrow> version_constraint \<Rightarrow> version_constraint" where
  "conjunction a b = constraint_new (clauses a @ clauses b)"

definition from_clause :: "relation_op \<Rightarrow> r_package_version \<Rightarrow> version_constraint" where
  "from_clause op v = constraint_new [\<lparr>vc_op = op, vc_version = v\<rparr>]"

definition is_unconstrained :: "version_constraint \<Rightarrow> bool" where
  "is_unconstrained c = (clauses c = [])"

definition clause_satisfied :: "r_package_version \<Rightarrow> version_clause \<Rightarrow> bool" where
  "clause_satisfied candidate clause =
     (let ordering = version_cmp candidate (vc_version clause) in
      case vc_op clause of
        Lt \<Rightarrow> ordering = Less
      | Le \<Rightarrow> ordering \<noteq> Greater
      | Eq \<Rightarrow> ordering = Equal
      | Ne \<Rightarrow> ordering \<noteq> Equal
      | Ge \<Rightarrow> ordering \<noteq> Less
      | Gt \<Rightarrow> ordering = Greater)"

definition satisfies :: "version_constraint \<Rightarrow> r_package_version \<Rightarrow> bool" where
  "satisfies c candidate = list_all (clause_satisfied candidate) (clauses c)"

definition clause_eq :: "version_clause \<Rightarrow> version_clause \<Rightarrow> bool" where
  "clause_eq a b = (vc_op a = vc_op b \<and> version_eq (vc_version a) (vc_version b))"

definition constraint_eq :: "version_constraint \<Rightarrow> version_constraint \<Rightarrow> bool" where
  "constraint_eq a b = list_all2 clause_eq (clauses a) (clauses b)"

section \<open>Dependencies and package requirements\<close>

datatype dependency_kind = Depends | Imports | LinkingTo | Suggests | Enhances

datatype dependency_source_constraint =
    SourceAny
  | SourceRegistry package_namespace
  | SourceRepository repository_id
  | SourceBioconductor package_namespace bioconductor_release
  | SourceGit normalized_git_url
  | SourceExact release_identity

fun source_eq :: "dependency_source_constraint \<Rightarrow> dependency_source_constraint \<Rightarrow> bool" where
  "source_eq (SourceExact a) (SourceExact b) = identity_eq a b"
| "source_eq a b = (a = b)"

record package_requirement =
  pr_name :: package_name
  pr_source :: dependency_source_constraint
  pr_constraint :: version_constraint

datatype package_requirement_error = ExactIdentityNameMismatch package_name package_name

fun package_requirement_error_display :: "package_requirement_error \<Rightarrow> string" where
  "package_requirement_error_display (ExactIdentityNameMismatch package identity) =
     ''exact release identity name '' @ identity @ '' does not match package requirement '' @ package"

definition package_requirement_new ::
  "package_name \<Rightarrow> dependency_source_constraint \<Rightarrow> version_constraint \<Rightarrow>
   package_requirement_error + package_requirement" where
  "package_requirement_new name source constraint =
     (let ok = Inr \<lparr>pr_name = name, pr_source = source, pr_constraint = constraint\<rparr> in
      case source of
        SourceExact identity \<Rightarrow>
          if ri_name identity \<noteq> name then Inl (ExactIdentityNameMismatch name (ri_name identity)) else ok
      | _ \<Rightarrow> ok)"

definition requirement_eq :: "package_requirement \<Rightarrow> package_requirement \<Rightarrow> bool" where
  "requirement_eq a b =
     (pr_name a = pr_name b \<and> source_eq (pr_source a) (pr_source b)
      \<and> constraint_eq (pr_constraint a) (pr_constraint b))"

record declared_dependency =
  dd_kind :: dependency_kind
  dd_package :: package_requirement

definition declared_dependency_from_parts ::
  "dependency_kind \<Rightarrow> package_name \<Rightarrow> dependency_source_constraint \<Rightarrow> version_constraint \<Rightarrow>
   package_requirement_error + declared_dependency" where
  "declared_dependency_from_parts kind name source constraint =
     map_res (\<lambda>p. \<lparr>dd_kind = kind, dd_package = p\<rparr>) (package_requirement_new name source constraint)"

definition dependency_eq :: "declared_dependency \<Rightarrow> declared_dependency \<Rightarrow> bool" where
  "dependency_eq a b = (dd_kind a = dd_kind b \<and> requirement_eq (dd_package a) (dd_package b))"

datatype effective_dependency_kind =
  EffDepends | EffImports | EffLinkingTo | PromotedSuggests

record resolved_dependency_edge =
  re_kind :: effective_dependency_kind
  re_package :: package_requirement

fun effective :: "dependency_kind \<Rightarrow> effective_dependency_kind option" where
  "effective Depends = Some EffDepends"
| "effective Imports = Some EffImports"
| "effective LinkingTo = Some EffLinkingTo"
| "effective Suggests = None"
| "effective Enhances = None"

section \<open>Root requirements\<close>

datatype root_expansion_policy = HardOnly | DirectSuggests

record root_requirement =
  rr_package :: package_requirement
  rr_expansion :: root_expansion_policy

datatype root_composition_error =
    ConflictingSource package_name dependency_source_constraint dependency_source_constraint
  | ConflictingExactIdentity package_name dependency_source_constraint dependency_source_constraint
  | ConflictingPackageNames package_name package_name

definition combine_sources ::
  "dependency_source_constraint \<Rightarrow> dependency_source_constraint \<Rightarrow> package_name \<Rightarrow>
   root_composition_error + dependency_source_constraint" where
  "combine_sources left right name =
     (if source_eq left right then Inr left
      else case (left, right) of
             (SourceAny, specific) \<Rightarrow> Inr specific
           | (specific, SourceAny) \<Rightarrow> Inr specific
           | (SourceExact l, SourceExact r) \<Rightarrow>
               if identity_eq l r then Inr (SourceExact l)
               else Inl (ConflictingExactIdentity name left right)
           | _ \<Rightarrow> Inl (ConflictingSource name left right))"

definition root_combine ::
  "root_requirement \<Rightarrow> root_requirement \<Rightarrow> root_composition_error + root_requirement" where
  "root_combine a b =
     (let name = pr_name (rr_package a);
          left_source = pr_source (rr_package a);
          right_source = pr_source (rr_package b) in
      if name \<noteq> pr_name (rr_package b)
      then Inl (ConflictingPackageNames name (pr_name (rr_package b)))
      else
        bind_res (combine_sources left_source right_source name) (\<lambda>source.
        bind_res
          (map_err (\<lambda>_. ConflictingExactIdentity name left_source right_source)
            (package_requirement_new name source
              (conjunction (pr_constraint (rr_package a)) (pr_constraint (rr_package b)))))
          (\<lambda>package.
             Inr \<lparr>rr_package = package,
                  rr_expansion = (if rr_expansion a = DirectSuggests \<or> rr_expansion b = DirectSuggests
                                  then DirectSuggests else HardOnly)\<rparr>)))"

definition compose_root ::
  "(package_name \<times> root_requirement) list \<Rightarrow> root_requirement \<Rightarrow>
   root_composition_error + (package_name \<times> root_requirement) list" where
  "compose_root composed root =
     (let name = pr_name (rr_package root) in
      case map_of composed name of
        Some existing \<Rightarrow>
          map_res (bt_insert (bt_remove composed name) name) (root_combine existing root)
      | None \<Rightarrow> Inr (bt_insert composed name root))"

definition combine_root_requirements ::
  "root_requirement list \<Rightarrow> root_composition_error + root_requirement list" where
  "combine_root_requirements roots = map_res (map snd) (try_fold compose_root [] roots)"

section \<open>Publication dates\<close>

type_synonym publication_date = "int \<times> nat \<times> nat"

datatype publication_date_error =
    InvalidDate string string
  | NonCanonicalDate string

fun publication_date_error_display :: "publication_date_error \<Rightarrow> string" where
  "publication_date_error_display (InvalidDate input diagnostic) =
     ''invalid publication date '' @ debug_str input @ '': '' @ diagnostic"
| "publication_date_error_display (NonCanonicalDate input) =
     ''publication date '' @ debug_str input @ '' is not YYYY-MM-DD''"

definition publication_date_parse ::
  "(string \<Rightarrow> string + publication_date) \<Rightarrow> (publication_date \<Rightarrow> string) \<Rightarrow> string \<Rightarrow>
   publication_date_error + publication_date" where
  "publication_date_parse strptime strftime input =
     (case strptime input of
        Inl diagnostic \<Rightarrow> Inl (InvalidDate input diagnostic)
      | Inr date \<Rightarrow> if strftime date \<noteq> input then Inl (NonCanonicalDate input) else Inr date)"

record release_publication =
  rp_date :: publication_date

type_synonym publication_cutoff = publication_date

section \<open>Lemmas\<close>

lemma satisfies_unconstrained [simp]: "satisfies unconstrained v"
  by (simp add: satisfies_def unconstrained_def)

lemma satisfies_conjunction: "satisfies (conjunction a b) v \<longleftrightarrow> satisfies a v \<and> satisfies b v"
  by (simp add: satisfies_def conjunction_def constraint_new_def)

lemma clause_satisfied_cong:
  assumes "version_eq v w"
  shows "clause_satisfied v c = clause_satisfied w c"
  using vers.cmp_cong_left[of v w "vc_version c"] assms
  by (simp add: clause_satisfied_def version_eq_def)

lemma satisfies_cong: "version_eq v w \<Longrightarrow> satisfies c v = satisfies c w"
  unfolding satisfies_def by (auto simp: list_all_iff clause_satisfied_cong)

lemma source_eq_refl: "source_eq a a"
  by (cases a) (simp_all add: id_eq.eq_refl)

lemma source_eq_sym: "source_eq a b \<Longrightarrow> source_eq b a"
  by (cases a; cases b) (auto intro: id_eq.eq_sym)

lemma source_eq_trans: "source_eq a b \<Longrightarrow> source_eq b c \<Longrightarrow> source_eq a c"
  by (cases a; cases b; cases c) (auto intro: id_eq.eq_trans)

interpretation src_eq: rust_eq source_eq
  by unfold_locales (rule source_eq_refl, erule source_eq_sym, erule (1) source_eq_trans)

interpretation cl_eq: rust_eq clause_eq
  by unfold_locales
    (auto simp: clause_eq_def intro: vers_eq.eq_refl vers_eq.eq_sym vers_eq.eq_trans)

text \<open>Equality of vectors, element by element, is an equality operation again.\<close>

lemma rust_eq_list_all2: "rust_eq eq \<Longrightarrow> rust_eq (list_all2 eq)"
proof -
  assume E: "rust_eq eq"
  show ?thesis
  proof
    show "list_all2 eq xs xs" for xs by (rule list_all2_refl) (rule rust_eq.eq_refl[OF E])
    show "list_all2 eq xs ys \<Longrightarrow> list_all2 eq ys xs" for xs ys
      by (auto simp: list_all2_conv_all_nth intro: rust_eq.eq_sym[OF E])
    show "list_all2 eq xs ys \<Longrightarrow> list_all2 eq ys zs \<Longrightarrow> list_all2 eq xs zs" for xs ys zs
      by (rule list_all2_trans[where ?P1.0 = eq and ?P2.0 = eq and as = xs and bs = ys])
        (auto intro: rust_eq.eq_trans[OF E])
  qed
qed

interpretation vcon_eq: rust_eq constraint_eq
  unfolding constraint_eq_def
  using rust_eq_list_all2[OF cl_eq.rust_eq_axioms] unfolding rust_eq_def by blast

interpretation req_eq: rust_eq requirement_eq
  by unfold_locales
    (auto simp: requirement_eq_def intro: src_eq.eq_refl src_eq.eq_sym src_eq.eq_trans
      vcon_eq.eq_refl vcon_eq.eq_sym vcon_eq.eq_trans)

interpretation dep_eq: rust_eq dependency_eq
  by unfold_locales
    (auto simp: dependency_eq_def intro: req_eq.eq_refl req_eq.eq_sym req_eq.eq_trans)

interpretation deps_eq: rust_eq "list_all2 dependency_eq"
  by (rule rust_eq_list_all2) (rule dep_eq.rust_eq_axioms)

text \<open>The invariant of a requirement: an exact source names the required package.\<close>

definition requirement_wf :: "package_requirement \<Rightarrow> bool" where
  "requirement_wf p = (case pr_source p of SourceExact i \<Rightarrow> ri_name i = pr_name p | _ \<Rightarrow> True)"

lemma package_requirement_new_Inr_iff:
  "package_requirement_new n s c = Inr p \<longleftrightarrow>
     p = \<lparr>pr_name = n, pr_source = s, pr_constraint = c\<rparr> \<and> requirement_wf p"
  by (cases s) (auto simp: package_requirement_new_def requirement_wf_def)

lemma combine_sources_Inr:
  "combine_sources l r n = Inr s \<Longrightarrow>
     (l = SourceAny \<longrightarrow> s = r) \<and> (l \<noteq> SourceAny \<longrightarrow> s = l) \<and> (l \<noteq> SourceAny \<longrightarrow> r \<noteq> SourceAny \<longrightarrow> source_eq l r)"
  by (cases l; cases r) (auto simp: combine_sources_def split: if_splits)

lemma root_combine_Inr:
  assumes "root_combine a b = Inr r"
  shows "pr_name (rr_package r) = pr_name (rr_package a)"
    and "pr_name (rr_package b) = pr_name (rr_package a)"
    and "pr_constraint (rr_package r) =
           conjunction (pr_constraint (rr_package a)) (pr_constraint (rr_package b))"
    and "rr_expansion r = DirectSuggests \<longleftrightarrow>
           rr_expansion a = DirectSuggests \<or> rr_expansion b = DirectSuggests"
    and "requirement_wf (rr_package r)"
    and "combine_sources (pr_source (rr_package a)) (pr_source (rr_package b))
           (pr_name (rr_package a)) = Inr (pr_source (rr_package r))"
  using assms
  by (auto simp: root_combine_def Let_def bind_res_Inr_iff package_requirement_new_Inr_iff
      split: if_splits)

text \<open>
  What one entry of the composed map says about the roots \<open>qs\<close> consumed so far: it merges
  exactly those with its name.
\<close>

definition merges_roots :: "root_requirement list \<Rightarrow> package_name \<Rightarrow> root_requirement \<Rightarrow> bool" where
  "merges_roots qs n r \<longleftrightarrow>
     pr_name (rr_package r) = n \<and>
     (\<exists>q\<in>set qs. pr_name (rr_package q) = n) \<and>
     clauses (pr_constraint (rr_package r)) =
       concat (map (\<lambda>q. clauses (pr_constraint (rr_package q)))
                   (filter (\<lambda>q. pr_name (rr_package q) = n) qs)) \<and>
     (rr_expansion r = DirectSuggests \<longleftrightarrow>
        (\<exists>q\<in>set qs. pr_name (rr_package q) = n \<and> rr_expansion q = DirectSuggests)) \<and>
     (\<forall>q\<in>set qs. pr_name (rr_package q) = n \<longrightarrow>
        pr_source (rr_package q) = SourceAny \<or> source_eq (pr_source (rr_package r)) (pr_source (rr_package q)))"

definition composed_ok ::
  "root_requirement list \<Rightarrow> (package_name \<times> root_requirement) list \<Rightarrow> bool" where
  "composed_ok qs m \<longleftrightarrow>
     sorted_wrt (<) (map fst m) \<and>
     dom (map_of m) = (\<lambda>q. pr_name (rr_package q)) ` set qs \<and>
     (\<forall>n r. map_of m n = Some r \<longrightarrow> merges_roots qs n r)"

lemma merges_roots_combine:
  assumes "merges_roots qs n e" and "pr_name (rr_package root) = n" and "root_combine e root = Inr r"
  shows "merges_roots (qs @ [root]) n r"
proof -
  note C = root_combine_Inr[OF assms(3)]
  let ?se = "pr_source (rr_package e)" and ?sr = "pr_source (rr_package root)"
    and ?s = "pr_source (rr_package r)"
  note S = combine_sources_Inr[OF C(6)]
  have src: "pr_source (rr_package q) = SourceAny \<or> source_eq ?s (pr_source (rr_package q))"
    if "q \<in> set (qs @ [root])" "pr_name (rr_package q) = n" for q
  proof (cases "q \<in> set qs")
    case True
    then have "pr_source (rr_package q) = SourceAny \<or> source_eq ?se (pr_source (rr_package q))"
      using assms(1) that(2) by (auto simp: merges_roots_def)
    then show ?thesis using S by (cases "?se = SourceAny"; cases "pr_source (rr_package q)") auto
  next
    case False
    then have "q = root" using that by simp
    then show ?thesis using S src_eq.eq_refl[of ?sr] by (cases "?se = SourceAny") auto
  qed
  have "clauses (pr_constraint (rr_package r)) =
        clauses (pr_constraint (rr_package e)) @ clauses (pr_constraint (rr_package root))"
    by (simp add: C(3) conjunction_def constraint_new_def)
  then show ?thesis
    using assms(1,2) C(1,4) src by (auto simp: merges_roots_def)
qed

lemma merges_roots_fresh:
  assumes "pr_name (rr_package root) = n" and "\<forall>q\<in>set qs. pr_name (rr_package q) \<noteq> n"
  shows "merges_roots (qs @ [root]) n root"
  using assms src_eq.eq_refl by (auto simp: merges_roots_def filter_empty_conv)

lemma merges_roots_other:
  "merges_roots qs n r \<Longrightarrow> pr_name (rr_package root) \<noteq> n \<Longrightarrow> merges_roots (qs @ [root]) n r"
  by (auto simp: merges_roots_def)

lemma compose_root_ok:
  assumes "composed_ok qs m" and "compose_root m root = Inr m'"
  shows "composed_ok (qs @ [root]) m'"
proof -
  let ?n = "pr_name (rr_package root)"
  have sorted: "sorted_wrt (<) (map fst m)" using assms(1) by (simp add: composed_ok_def)
  show ?thesis
  proof (cases "map_of m ?n")
    case None
    then have m': "m' = bt_insert m ?n root" using assms(2) by (simp add: compose_root_def)
    have "?n \<notin> (\<lambda>q. pr_name (rr_package q)) ` set qs"
      using None assms(1) by (auto simp: composed_ok_def domIff)
    then have fresh: "\<forall>q\<in>set qs. pr_name (rr_package q) \<noteq> ?n" by (metis image_eqI)
    show ?thesis
      using assms(1) sorted_bt_insert[OF sorted] map_of_bt_insert[OF sorted] m'
        merges_roots_fresh[OF refl fresh] merges_roots_other[of qs]
      by (auto simp: composed_ok_def split: if_splits)
  next
    case (Some e)
    then obtain r where r: "root_combine e root = Inr r" and m': "m' = bt_insert (bt_remove m ?n) ?n r"
      using assms(2) by (auto simp: compose_root_def Let_def map_res_Inr_iff)
    have "merges_roots (qs @ [root]) ?n r"
      using assms(1) Some r by (intro merges_roots_combine[of qs _ e]) (auto simp: composed_ok_def)
    moreover have "map_of m' = (map_of m)(?n \<mapsto> r)"
      by (simp add: m' map_of_bt_insert sorted_bt_remove[OF sorted] map_of_bt_remove)
    ultimately show ?thesis
      using assms(1) sorted_bt_insert[OF sorted_bt_remove[OF sorted]] m' merges_roots_other[of qs]
      by (auto simp: composed_ok_def split: if_splits)
  qed
qed

lemma try_fold_compose_ok:
  "composed_ok qs m \<Longrightarrow> try_fold compose_root m roots = Inr m' \<Longrightarrow> composed_ok (qs @ roots) m'"
proof (induction roots arbitrary: qs m)
  case (Cons root roots)
  then obtain m1 where m1: "compose_root m root = Inr m1" "try_fold compose_root m1 roots = Inr m'"
    by (auto simp: bind_res_Inr_iff)
  then show ?case using Cons.IH[OF compose_root_ok[OF Cons.prems(1) m1(1)] m1(2)] by simp
qed simp

lemma combine_root_requirements_ok:
  assumes "combine_root_requirements roots = Inr out"
  shows "sorted_wrt (<) (map (\<lambda>r. pr_name (rr_package r)) out)"
    and "(\<lambda>r. pr_name (rr_package r)) ` set out = (\<lambda>r. pr_name (rr_package r)) ` set roots"
    and "r \<in> set out \<Longrightarrow> merges_roots roots (pr_name (rr_package r)) r"
proof -
  obtain m where m: "try_fold compose_root [] roots = Inr m" and out: "out = map snd m"
    using assms by (auto simp: combine_root_requirements_def map_res_Inr_iff)
  have ok: "composed_ok roots m"
    using try_fold_compose_ok[of "[]" "[]" roots m] m by (simp add: composed_ok_def)
  have dist: "distinct (map fst m)" using ok by (simp add: composed_ok_def strict_sorted_iff)
  have key: "merges_roots roots n r" if "(n, r) \<in> set m" for n r
    using ok that dist by (auto simp: composed_ok_def)
  then have names: "map (\<lambda>r. pr_name (rr_package r)) out = map fst m"
    by (auto simp: out merges_roots_def)
  show "sorted_wrt (<) (map (\<lambda>r. pr_name (rr_package r)) out)"
    using ok by (simp add: names composed_ok_def)
  have "set (map (\<lambda>r. pr_name (rr_package r)) out) = (\<lambda>r. pr_name (rr_package r)) ` set roots"
    using ok by (simp only: names) (simp add: composed_ok_def dom_map_of_conv_image_fst)
  then show "(\<lambda>r. pr_name (rr_package r)) ` set out = (\<lambda>r. pr_name (rr_package r)) ` set roots"
    by simp
  show "merges_roots roots (pr_name (rr_package r)) r" if "r \<in> set out" for r
    using that key by (force simp: out merges_roots_def)
qed

lemma merges_roots_satisfies:
  "merges_roots qs n r \<Longrightarrow>
   satisfies (pr_constraint (rr_package r)) v \<longleftrightarrow>
     (\<forall>q\<in>set qs. pr_name (rr_package q) = n \<longrightarrow> satisfies (pr_constraint (rr_package q)) v)"
  by (auto simp: merges_roots_def satisfies_def list_all_iff)

end
