(* ===== verification/Metadata.thy ===== *)
theory Metadata
  imports Constraints
begin

text \<open>
  \<^verbatim>\<open>rsolve-core/src/metadata/\<close>: release metadata, the canonical metadata digest, validated
  releases and their identity-keyed aggregation.  SHA-256 (the \<^verbatim>\<open>sha2\<close> crate) is the argument
  \<open>sha\<close>; the lemmas that need it assume that it returns 32 bytes.
\<close>

section \<open>Release metadata\<close>

type_synonym release_metadata = "(string \<times> string) list"

datatype release_metadata_error = ReservedField string

definition reserved_fields :: "string list" where
  "reserved_fields =
     [''package'', ''version'', ''depends'', ''imports'', ''linkingto'', ''suggests'', ''enhances'',
      ''published'']"

definition release_metadata_error_display :: "release_metadata_error \<Rightarrow> string" where
  "release_metadata_error_display e =
     (case e of ReservedField field \<Rightarrow>
        ''release metadata field '' @ debug_str field @ '' is not metadata'')"

definition release_metadata_new :: "(string \<times> string) list \<Rightarrow> release_metadata_error + release_metadata" where
  "release_metadata_new entries =
     (case find (\<lambda>field. map to_ascii_lowercase field \<in> set reserved_fields) (map fst entries) of
        Some field \<Rightarrow> Inl (ReservedField field)
      | None \<Rightarrow> Inr entries)"

definition release_metadata_from_pairs ::
  "(string \<times> string) list \<Rightarrow> release_metadata_error + release_metadata" where
  "release_metadata_from_pairs pairs =
     release_metadata_new (fold (\<lambda>e m. bt_insert m (fst e) (snd e)) pairs [])"

section \<open>The canonical digest\<close>

definition digest_domain :: bytes where
  "digest_domain = ''rsolve.logical-release-metadata'' @ [CHR 0x00] @ ''v1''"

definition append_u64 :: "u64 \<Rightarrow> bytes" where
  "append_u64 v = to_le_bytes v"

definition append_bytes :: "bytes \<Rightarrow> bytes" where
  "append_bytes v = append_u64 (word_of_nat (length v)) @ v"

definition append_optional_string :: "string option \<Rightarrow> bytes" where
  "append_optional_string v =
     (case v of Some s \<Rightarrow> char_of (1::nat) # append_bytes s | None \<Rightarrow> [char_of (0::nat)])"

definition append_version :: "r_package_version \<Rightarrow> bytes" where
  "append_version v =
     append_u64 (word_of_nat (canonical_component_count v))
     @ concat (map (\<lambda>c. append_u64 (ucast c)) (take (canonical_component_count v) (version_components v)))"

fun append_provenance :: "provenance \<Rightarrow> bytes" where
  "append_provenance (RBasePackage v) = char_of (0::nat) # append_version v"
| "append_provenance (RegistryRelease n v) = char_of (1::nat) # append_bytes n @ append_version v"
| "append_provenance (GitCommit r c s) =
     char_of (2::nat) # append_bytes r @ append_bytes (gc_hex c) @ append_optional_string s"
| "append_provenance (BioconductorRelease n r v) =
     char_of (3::nat) # append_bytes n @ append_bytes r @ append_version v"
| "append_provenance (ImmutableSource s d) = char_of (4::nat) # append_bytes s @ append_bytes d"

definition append_identity :: "release_identity \<Rightarrow> bytes" where
  "append_identity i = append_bytes (ri_name i) @ append_provenance (ri_provenance i)"

fun append_source_constraint :: "dependency_source_constraint \<Rightarrow> bytes" where
  "append_source_constraint SourceAny = [char_of (0::nat)]"
| "append_source_constraint (SourceRegistry n) = char_of (1::nat) # append_bytes n"
| "append_source_constraint (SourceRepository r) = char_of (5::nat) # append_bytes r"
| "append_source_constraint (SourceBioconductor n r) = char_of (2::nat) # append_bytes n @ append_bytes r"
| "append_source_constraint (SourceGit r) = char_of (3::nat) # append_bytes r"
| "append_source_constraint (SourceExact i) = char_of (4::nat) # append_identity i"

fun op_tag :: "relation_op \<Rightarrow> nat" where
  "op_tag Lt = 0" | "op_tag Le = 1" | "op_tag Eq = 2" | "op_tag Ne = 3" | "op_tag Ge = 4" | "op_tag Gt = 5"

fun kind_tag :: "dependency_kind \<Rightarrow> nat" where
  "kind_tag Depends = 0" | "kind_tag Imports = 1" | "kind_tag LinkingTo = 2" | "kind_tag Suggests = 3"
| "kind_tag Enhances = 4"

definition encode_clause :: "version_clause \<Rightarrow> bytes" where
  "encode_clause c = char_of (op_tag (vc_op c)) # append_version (vc_version c)"

text \<open>\<^verbatim>\<open>records.sort(); records.dedup();\<close> then the count and every record, length-delimited.\<close>

definition append_records :: "bytes list \<Rightarrow> bytes" where
  "append_records records =
     (let canonical = canonical_by id records
      in append_u64 (word_of_nat (length canonical)) @ concat (map append_bytes canonical))"

definition encode_dependency :: "declared_dependency \<Rightarrow> bytes" where
  "encode_dependency d =
     char_of (kind_tag (dd_kind d))
     # append_bytes (pr_name (dd_package d))
     @ append_source_constraint (pr_source (dd_package d))
     @ append_records (map encode_clause (clauses (pr_constraint (dd_package d))))"

definition encode_metadata ::
  "release_identity \<Rightarrow> r_package_version \<Rightarrow> declared_dependency list \<Rightarrow> bytes" where
  "encode_metadata identity observed_version dependencies =
     append_bytes digest_domain @ append_identity identity @ append_version observed_version
     @ append_records (map encode_dependency dependencies)"

text \<open>
  \<^verbatim>\<open>Sha256Digest::new(hex).expect(..)\<close>: the error branch is the panic, which a 32-byte hash
  never reaches.
\<close>

definition hex_string :: "bytes \<Rightarrow> string" where
  "hex_string bs = concat (map hex_byte bs)"

definition canonical_metadata_digest ::
  "(bytes \<Rightarrow> bytes) \<Rightarrow> release_identity \<Rightarrow> r_package_version \<Rightarrow> declared_dependency list \<Rightarrow>
   sha256_digest" where
  "canonical_metadata_digest sha identity observed_version dependencies =
     (case sha256_digest_new (hex_string (sha (encode_metadata identity observed_version dependencies))) of
        Inr digest \<Rightarrow> digest
      | Inl _ \<Rightarrow> [])"

section \<open>Observations and validated releases\<close>

record release_observation =
  ob_identity :: release_identity
  ob_observed_package :: package_name
  ob_observed_version :: r_package_version
  ob_metadata :: release_metadata
  ob_publication :: "release_publication option"
  ob_declared_dependencies :: "declared_dependency list"
  ob_distributions :: "distribution list"

record package_release =
  pk_identity :: release_identity
  pk_version :: r_package_version
  pk_metadata :: release_metadata
  pk_publication :: "release_publication option"
  pk_declared_dependencies :: "declared_dependency list"
  pk_distributions :: "distribution list"
  pk_metadata_digest :: sha256_digest

datatype package_release_error =
    ConflictingMetadata string
  | InvalidMetadata release_metadata_error
  | InvalidDependency nat

fun package_release_error_display :: "package_release_error \<Rightarrow> string" where
  "package_release_error_display (ConflictingMetadata field) =
     ''conflicting release metadata in '' @ field"
| "package_release_error_display (InvalidMetadata e) = release_metadata_error_display e"
| "package_release_error_display (InvalidDependency index) =
     ''invalid dependency at index '' @ show_nat index"

text \<open>The version that the provenance itself fixes, if it fixes one.\<close>

fun provenance_version :: "provenance \<Rightarrow> r_package_version option" where
  "provenance_version (RegistryRelease _ v) = Some v"
| "provenance_version (BioconductorRelease _ _ v) = Some v"
| "provenance_version (RBasePackage v) = Some v"
| "provenance_version (GitCommit _ _ _) = None"
| "provenance_version (ImmutableSource _ _) = None"

definition invalid_dependency :: "declared_dependency \<Rightarrow> bool" where
  "invalid_dependency d =
     (pr_name (dd_package d) = [] \<or>
      (case pr_source (dd_package d) of
         SourceExact identity \<Rightarrow> ri_name identity \<noteq> pr_name (dd_package d)
       | _ \<Rightarrow> False))"

definition package_release_try_from ::
  "(bytes \<Rightarrow> bytes) \<Rightarrow> release_observation \<Rightarrow> package_release_error + package_release" where
  "package_release_try_from sha ob =
     (if ri_name (ob_identity ob) \<noteq> ob_observed_package ob
      then Inl (ConflictingMetadata ''package name'')
      else if \<not> pred_option (\<lambda>v. version_eq v (ob_observed_version ob))
                  (provenance_version (ri_provenance (ob_identity ob)))
      then Inl (ConflictingMetadata ''provenance version'')
      else case position invalid_dependency (ob_declared_dependencies ob) of
             Some index \<Rightarrow> Inl (InvalidDependency index)
           | None \<Rightarrow>
               Inr \<lparr>pk_identity = ob_identity ob,
                    pk_version = ob_observed_version ob,
                    pk_metadata = ob_metadata ob,
                    pk_publication = ob_publication ob,
                    pk_declared_dependencies = ob_declared_dependencies ob,
                    pk_distributions = canonicalize_distributions (ob_distributions ob),
                    pk_metadata_digest =
                      canonical_metadata_digest sha (ob_identity ob) (ob_observed_version ob)
                        (ob_declared_dependencies ob)\<rparr>)"

definition is_r_base_package :: "package_release \<Rightarrow> bool" where
  "is_r_base_package release = provenance_is_r_base_package (ri_provenance (pk_identity release))"

section \<open>Merging releases\<close>

definition push_distribution :: "distribution list \<Rightarrow> distribution \<Rightarrow> distribution list" where
  "push_distribution ds d = (if d \<in> set ds then ds else ds @ [d])"

definition release_merge_distributions :: "package_release \<Rightarrow> distribution list \<Rightarrow> package_release" where
  "release_merge_distributions release incoming =
     release\<lparr>pk_distributions :=
       canonicalize_distributions (foldl push_distribution (pk_distributions release) incoming)\<rparr>"

definition merge_publication ::
  "release_publication option \<Rightarrow> release_publication option \<Rightarrow>
   package_release_error + release_publication option" where
  "merge_publication a b =
     (case (a, b) of
        (Some l, Some r) \<Rightarrow> if l \<noteq> r then Inl (ConflictingMetadata ''publication'') else Inr (Some l)
      | (Some l, None) \<Rightarrow> Inr (Some l)
      | (None, r) \<Rightarrow> Inr r)"

definition merge_consistent ::
  "package_release \<Rightarrow> package_release \<Rightarrow> package_release_error + package_release" where
  "merge_consistent self incoming =
     (if \<not> version_eq (pk_version self) (pk_version incoming)
      then Inl (ConflictingMetadata ''version'')
      else if pk_metadata self \<noteq> pk_metadata incoming
      then Inl (ConflictingMetadata ''metadata'')
      else bind_res (merge_publication (pk_publication self) (pk_publication incoming)) (\<lambda>merged.
        if \<not> list_all2 dependency_eq (pk_declared_dependencies self) (pk_declared_dependencies incoming)
        then Inl (ConflictingMetadata ''declared dependencies'')
        else
          let self' = (if pk_publication self = None then self\<lparr>pk_publication := merged\<rparr> else self)
          in Inr (release_merge_distributions self' (pk_distributions incoming))))"

section \<open>Aggregation\<close>

type_synonym release_aggregation = "(release_identity \<times> package_release) list"

definition observe_release ::
  "release_aggregation \<Rightarrow> package_release \<Rightarrow> package_release_error + release_aggregation" where
  "observe_release agg release =
     (case hm_get identity_eq agg (pk_identity release) of
        Some existing \<Rightarrow>
          map_res (hm_insert identity_eq agg (pk_identity release)) (merge_consistent existing release)
      | None \<Rightarrow> Inr (hm_insert identity_eq agg (pk_identity release) release))"

definition observe ::
  "(bytes \<Rightarrow> bytes) \<Rightarrow> release_aggregation \<Rightarrow> release_observation \<Rightarrow>
   package_release_error + release_aggregation" where
  "observe sha agg observation =
     bind_res (package_release_try_from sha observation) (observe_release agg)"

definition aggregation_get :: "release_aggregation \<Rightarrow> release_identity \<Rightarrow> package_release option" where
  "aggregation_get agg identity = hm_get identity_eq agg identity"

section \<open>Prefix codes\<close>

text \<open>
  The contract of every encoder of \<^verbatim>\<open>digest.rs\<close>: on sized values, what one encoder wrote can
  be told from what follows, up to the equality of the encoded type.
\<close>

locale prefix_code =
  fixes enc :: "'a \<Rightarrow> bytes" and okv :: "'a \<Rightarrow> bool" and eqv :: "'a \<Rightarrow> 'a \<Rightarrow> bool"
  assumes enc_prefix: "okv a \<Longrightarrow> okv b \<Longrightarrow> enc a @ r = enc b @ r' \<longleftrightarrow> eqv a b \<and> r = r'"
begin

lemma enc_inject: "okv a \<Longrightarrow> okv b \<Longrightarrow> enc a = enc b \<longleftrightarrow> eqv a b"
  using enc_prefix[of a b "[]" "[]"] by simp

lemma concat_prefix:
  assumes "length xs = length ys" "list_all okv xs" "list_all okv ys"
  shows "concat (map enc xs) @ r = concat (map enc ys) @ r' \<longleftrightarrow> list_all2 eqv xs ys \<and> r = r'"
  using assms by (induction xs ys rule: list_induct2) (auto simp: enc_prefix)

end

section \<open>Lemmas on the encoding\<close>

interpretation u64_code: prefix_code append_u64 "\<lambda>_. True" "(=)"
  by unfold_locales (simp add: append_u64_def to_le_bytes_inject)

lemma append_bytes_prefix:
  assumes "sized v" "sized w"
  shows "append_bytes v @ r = append_bytes w @ r' \<longleftrightarrow> v = w \<and> r = r'"
proof
  assume "append_bytes v @ r = append_bytes w @ r'"
  then have "(word_of_nat (length v) :: u64) = word_of_nat (length w)" and eq: "v @ r = w @ r'"
    by (simp_all add: append_bytes_def u64_code.enc_prefix)
  then have "length v = length w" using assms by (simp add: sized_def word_of_nat64_inject)
  then show "v = w \<and> r = r'" using eq by simp
qed simp

interpretation bytes_code: prefix_code append_bytes sized "(=)"
  by unfold_locales (rule append_bytes_prefix)

interpretation opt_code: prefix_code append_optional_string "pred_option sized" "(=)"
proof
  fix v w :: "string option" and r r'
  assume "pred_option sized v" "pred_option sized w"
  then show "append_optional_string v @ r = append_optional_string w @ r' \<longleftrightarrow> v = w \<and> r = r'"
    by (cases v; cases w) (auto simp: append_optional_string_def bytes_code.enc_prefix char_of_inject)
qed

lemma ucast_u32_inject: "(ucast (a :: u32) :: u64) = ucast b \<longleftrightarrow> a = b"
proof
  assume "(ucast a :: u64) = ucast b"
  then have "unat (ucast a :: u64) = unat (ucast b :: u64)" by simp
  moreover have "unat (ucast w :: u64) = unat w" for w :: u32
    using unsigned_less[of w, where 'a = nat] by (simp add: unsigned_ucast_eq take_bit_nat_eq_self)
  ultimately show "a = b" by (simp add: unsigned_word_eqI)
qed simp

lemma concat_prefix_u64:
  "length xs = length ys \<Longrightarrow>
   concat (map append_u64 xs) @ r = concat (map append_u64 ys) @ r' \<longleftrightarrow> xs = ys \<and> r = r'"
  using u64_code.concat_prefix[of xs ys r r'] by (simp add: list.rel_eq list_all_iff)

definition version_sized :: "r_package_version \<Rightarrow> bool" where
  "version_sized v = sized (version_components v)"

lemma length_strip_zeros: "length (strip_zeros xs) \<le> length xs"
  by (induction xs rule: rev_induct) (auto simp: strip_zeros_snoc)

lemma take_strip_zeros: "take (length (strip_zeros xs)) xs = strip_zeros xs"
  by (induction xs rule: rev_induct) (auto simp: strip_zeros_snoc length_strip_zeros)

lemma append_version_strip:
  "append_version v =
     append_u64 (word_of_nat (length (strip_zeros (version_components v))))
     @ concat (map append_u64 (map ucast (strip_zeros (version_components v))))"
  by (simp add: append_version_def canonical_component_count_def canonical_len_strip
      version_components_stored take_strip_zeros comp_def)

lemma version_eq_strip:
  "version_eq v w \<longleftrightarrow> strip_zeros (version_components v) = strip_zeros (version_components w)"
  by (simp add: version_eq_iff components_iter_strip version_components_stored)

interpretation version_code: prefix_code append_version version_sized version_eq
proof
  fix v w r r' assume sz: "version_sized v" "version_sized w"
  let ?a = "strip_zeros (version_components v)" and ?b = "strip_zeros (version_components w)"
  have lens: "length ?a < 2 ^ 64" "length ?b < 2 ^ 64"
    using sz length_strip_zeros by (auto simp: version_sized_def sized_def intro: le_less_trans)
  show "append_version v @ r = append_version w @ r' \<longleftrightarrow> version_eq v w \<and> r = r'"
  proof
    assume "append_version v @ r = append_version w @ r'"
    then have len: "length ?a = length ?b"
      and rest: "concat (map append_u64 (map ucast ?a)) @ r = concat (map append_u64 (map ucast ?b)) @ r'"
      using lens by (auto simp: append_version_strip u64_code.enc_prefix word_of_nat64_inject)
    then have "map (ucast :: u32 \<Rightarrow> u64) ?a = map ucast ?b \<and> r = r'"
      using concat_prefix_u64 len by (metis length_map)
    moreover have "inj (ucast :: u32 \<Rightarrow> u64)" by (simp add: inj_def ucast_u32_inject)
    ultimately show "version_eq v w \<and> r = r'" by (simp add: version_eq_strip inj_map_eq_map)
  qed (simp add: append_version_strip version_eq_strip)
qed

text \<open>A commit as \<^verbatim>\<open>GitCommitId::new\<close> builds it: the algorithm follows from the length.\<close>

definition commit_wf :: "git_commit_id \<Rightarrow> bool" where
  "commit_wf c = (gc_algorithm c = (if length (gc_hex c) = 40 then Sha1 else Sha256))"

fun provenance_sized :: "provenance \<Rightarrow> bool" where
  "provenance_sized (RBasePackage v) = version_sized v"
| "provenance_sized (RegistryRelease n v) = (sized n \<and> version_sized v)"
| "provenance_sized (GitCommit r c s) = (sized r \<and> sized (gc_hex c) \<and> commit_wf c \<and> pred_option sized s)"
| "provenance_sized (BioconductorRelease n r v) = (sized n \<and> sized r \<and> version_sized v)"
| "provenance_sized (ImmutableSource s d) = (sized s \<and> sized d)"

definition identity_sized :: "release_identity \<Rightarrow> bool" where
  "identity_sized i = (sized (ri_name i) \<and> provenance_sized (ri_provenance i))"

lemma commit_hex_inject: "commit_wf c \<Longrightarrow> commit_wf d \<Longrightarrow> gc_hex c = gc_hex d \<longleftrightarrow> c = d"
  by (cases c; cases d) (auto simp: commit_wf_def)

lemmas part_prefix = bytes_code.enc_prefix version_code.enc_prefix opt_code.enc_prefix

interpretation provenance_code: prefix_code append_provenance provenance_sized provenance_eq
proof
  fix p q r r' assume "provenance_sized p" "provenance_sized q"
  then show "append_provenance p @ r = append_provenance q @ r' \<longleftrightarrow> provenance_eq p q \<and> r = r'"
    by (cases p; cases q) (simp_all add: part_prefix char_of_inject commit_hex_inject conj_ac)
qed

interpretation identity_code: prefix_code append_identity identity_sized identity_eq
  by unfold_locales
    (simp add: append_identity_def identity_sized_def identity_eq_def part_prefix
      provenance_code.enc_prefix)

fun source_sized :: "dependency_source_constraint \<Rightarrow> bool" where
  "source_sized SourceAny = True"
| "source_sized (SourceRegistry n) = sized n"
| "source_sized (SourceRepository r) = sized r"
| "source_sized (SourceBioconductor n r) = (sized n \<and> sized r)"
| "source_sized (SourceGit r) = sized r"
| "source_sized (SourceExact i) = identity_sized i"

interpretation source_code: prefix_code append_source_constraint source_sized source_eq
proof
  fix a b r r' assume "source_sized a" "source_sized b"
  then show "append_source_constraint a @ r = append_source_constraint b @ r' \<longleftrightarrow> source_eq a b \<and> r = r'"
    by (cases a; cases b) (simp_all add: part_prefix char_of_inject identity_code.enc_prefix)
qed

lemma op_tag_inject: "op_tag a = op_tag b \<longleftrightarrow> a = b"
  by (cases a; cases b) simp_all

lemma kind_tag_inject: "kind_tag a = kind_tag b \<longleftrightarrow> a = b"
  by (cases a; cases b) simp_all

lemma tag_small [simp]: "op_tag a < 256" "kind_tag k < 256"
  by (cases a; simp) (cases k; simp)

interpretation clause_code: prefix_code encode_clause "\<lambda>c. version_sized (vc_version c)" clause_eq
  by unfold_locales
    (simp add: encode_clause_def clause_eq_def part_prefix char_of_inject op_tag_inject)

text \<open>A record set: sorted and without repetition, so the encoding is that of the set.\<close>

definition records_sized :: "bytes list \<Rightarrow> bool" where
  "records_sized rs = (sized rs \<and> list_all sized rs)"

lemma canonical_records:
  "set (canonical_by id rs) = set (rs :: bytes list)"
  "sorted_wrt (<) (canonical_by id (rs :: bytes list))"
  using set_canonical_by[of id rs] canonical_by_sorted[of id rs] by simp_all

lemma length_canonical_records: "length (canonical_by id rs) \<le> length (rs :: bytes list)"
proof -
  have "distinct (canonical_by id rs)" using canonical_records(2) by (simp add: strict_sorted_iff)
  then have "length (canonical_by id rs) = card (set rs)"
    by (metis canonical_records(1) distinct_card)
  then show ?thesis by (simp add: card_length)
qed

interpretation records_code: prefix_code append_records records_sized "\<lambda>a b. set a = set b"
proof
  fix a b :: "bytes list" and r r' :: bytes
  assume sz: "records_sized a" "records_sized b"
  let ?a = "canonical_by id a" and ?b = "canonical_by id b"
  have lens: "length ?a < 2 ^ 64" "length ?b < 2 ^ 64"
    using sz length_canonical_records
    by (auto simp: records_sized_def sized_def intro: le_less_trans)
  have all: "list_all sized ?a" "list_all sized ?b"
    using sz by (simp_all add: records_sized_def list_all_iff canonical_records)
  show "append_records a @ r = append_records b @ r' \<longleftrightarrow> set a = set b \<and> r = r'"
  proof
    assume eq: "append_records a @ r = append_records b @ r'"
    then have len: "length ?a = length ?b"
      using lens by (simp add: append_records_def Let_def u64_code.enc_prefix word_of_nat64_inject)
    have "concat (map append_bytes ?a) @ r = concat (map append_bytes ?b) @ r'"
      using eq by (simp add: append_records_def Let_def u64_code.enc_prefix)
    then have "?a = ?b \<and> r = r'"
      using bytes_code.concat_prefix[OF len all, of r r'] by (simp add: list.rel_eq)
    then show "set a = set b \<and> r = r'" using canonical_records(1) by metis
  next
    assume "set a = set b \<and> r = r'"
    then have "?a = ?b" by (intro canonical_by_cong_set) simp_all
    then show "append_records a @ r = append_records b @ r'"
      using \<open>set a = set b \<and> r = r'\<close> by (simp add: append_records_def)
  qed
qed

text \<open>Two lists describe the same set up to an equality operation.\<close>

definition same_set :: "('a \<Rightarrow> 'a \<Rightarrow> bool) \<Rightarrow> 'a list \<Rightarrow> 'a list \<Rightarrow> bool" where
  "same_set eq xs ys = (list_all (\<lambda>x. list_ex (eq x) ys) xs \<and> list_all (\<lambda>y. list_ex (\<lambda>x. eq x y) xs) ys)"

lemma set_map_same_set:
  assumes "\<And>x y. x \<in> set xs \<Longrightarrow> y \<in> set ys \<Longrightarrow> enc x = enc y \<longleftrightarrow> eq x y"
  shows "set (map enc xs) = set (map enc ys) \<longleftrightarrow> same_set eq xs ys"
proof -
  have "enc x \<in> enc ` set ys \<longleftrightarrow> (\<exists>y\<in>set ys. eq x y)" if "x \<in> set xs" for x
    using assms[OF that] by (auto simp: image_iff)
  moreover have "enc y \<in> enc ` set xs \<longleftrightarrow> (\<exists>x\<in>set xs. eq x y)" if "y \<in> set ys" for y
    using assms[OF _ that] by (simp add: image_iff) (metis (no_types))
  ultimately show ?thesis
    by (simp add: same_set_def list_all_iff list_ex_iff set_eq_subset image_subset_iff)
qed

definition dependency_sized :: "declared_dependency \<Rightarrow> bool" where
  "dependency_sized d =
     (sized (pr_name (dd_package d)) \<and> source_sized (pr_source (dd_package d))
      \<and> list_all (\<lambda>c. version_sized (vc_version c)) (clauses (pr_constraint (dd_package d)))
      \<and> records_sized (map encode_clause (clauses (pr_constraint (dd_package d)))))"

text \<open>Equality of declared dependencies up to the order and repetition of their clauses.\<close>

definition same_dependency :: "declared_dependency \<Rightarrow> declared_dependency \<Rightarrow> bool" where
  "same_dependency d e =
     (dd_kind d = dd_kind e \<and> pr_name (dd_package d) = pr_name (dd_package e)
      \<and> source_eq (pr_source (dd_package d)) (pr_source (dd_package e))
      \<and> same_set clause_eq (clauses (pr_constraint (dd_package d))) (clauses (pr_constraint (dd_package e))))"

interpretation dependency_code: prefix_code encode_dependency dependency_sized same_dependency
proof
  fix d e r r' assume sz: "dependency_sized d" "dependency_sized e"
  let ?c = "\<lambda>d. clauses (pr_constraint (dd_package d))"
  have cl: "encode_clause x = encode_clause y \<longleftrightarrow> clause_eq x y" if "x \<in> set (?c d)" "y \<in> set (?c e)" for x y
    using sz that by (intro clause_code.enc_inject) (auto simp: dependency_sized_def list_all_iff)
  have rec: "append_records (map encode_clause (?c d)) @ r = append_records (map encode_clause (?c e)) @ r' \<longleftrightarrow>
             same_set clause_eq (?c d) (?c e) \<and> r = r'"
    using sz by (subst records_code.enc_prefix)
      (simp_all only: dependency_sized_def set_map_same_set[OF cl, of "?c d" "?c e"])
  show "encode_dependency d @ r = encode_dependency e @ r' \<longleftrightarrow> same_dependency d e \<and> r = r'"
    using sz
    by (simp add: encode_dependency_def same_dependency_def dependency_sized_def part_prefix
        source_code.enc_prefix rec char_of_inject kind_tag_inject)
qed

text \<open>The whole preimage of the digest.\<close>

definition metadata_sized ::
  "release_identity \<Rightarrow> r_package_version \<Rightarrow> declared_dependency list \<Rightarrow> bool" where
  "metadata_sized i v ds =
     (identity_sized i \<and> version_sized v \<and> list_all dependency_sized ds
      \<and> records_sized (map encode_dependency ds))"

lemma encode_metadata_iff:
  assumes "metadata_sized i v ds" "metadata_sized j w es"
  shows "encode_metadata i v ds = encode_metadata j w es \<longleftrightarrow>
           identity_eq i j \<and> version_eq v w \<and> same_set same_dependency ds es"
proof -
  have "encode_dependency x = encode_dependency y \<longleftrightarrow> same_dependency x y"
    if "x \<in> set ds" "y \<in> set es" for x y
    using assms that by (intro dependency_code.enc_inject) (auto simp: metadata_sized_def list_all_iff)
  then have "append_records (map encode_dependency ds) = append_records (map encode_dependency es) \<longleftrightarrow>
             same_set same_dependency ds es"
    using assms by (subst records_code.enc_inject) (simp_all only: metadata_sized_def set_map_same_set)
  then show ?thesis
    using assms
    by (simp add: encode_metadata_def metadata_sized_def identity_code.enc_prefix part_prefix)
qed

section \<open>The digest\<close>

lemma hex_char_facts:
  assumes "n < 16"
  shows "is_ascii_hexdigit (hex_char n)" "to_ascii_lowercase (hex_char n) = hex_char n"
    "byte_val (hex_char n) = (if n < 10 then 48 + n else 87 + n)"
proof -
  show b: "byte_val (hex_char n) = (if n < 10 then 48 + n else 87 + n)"
    using assms by (simp add: hex_char_def byte_val_char_of)
  show "is_ascii_hexdigit (hex_char n)"
    using assms by (simp add: is_ascii_hexdigit_def is_ascii_digit_def b)
  have "\<not> is_ascii_uppercase (hex_char n)" using assms by (simp add: is_ascii_uppercase_def b)
  then show "to_ascii_lowercase (hex_char n) = hex_char n" by (simp add: to_ascii_lowercase_def)
qed

lemma hex_char_inject:
  assumes "m < 16" "n < 16"
  shows "hex_char m = hex_char n \<longleftrightarrow> m = n"
proof
  assume "hex_char m = hex_char n"
  then have "byte_val (hex_char m) = byte_val (hex_char n)" by simp
  then show "m = n" using assms by (simp add: hex_char_facts split: if_splits)
qed simp

lemma byte_nibbles: "byte_val b div 16 < 16"
  using byte_val_less[of b] by linarith

lemma hex_byte_inject: "hex_byte a = hex_byte b \<longleftrightarrow> a = b"
proof
  assume "hex_byte a = hex_byte b"
  then have "byte_val a div 16 = byte_val b div 16" "byte_val a mod 16 = byte_val b mod 16"
    by (simp_all add: hex_byte_def hex_char_inject byte_nibbles)
  then have "byte_val a = byte_val b" by (metis div_mult_mod_eq)
  then show "a = b" by (simp add: byte_val_inject)
qed simp

lemma hex_string_ok:
  "length (hex_string bs) = 2 * length bs" "list_all is_ascii_hexdigit (hex_string bs)"
  "map to_ascii_lowercase (hex_string bs) = hex_string bs"
  by (induction bs) (simp_all add: hex_string_def hex_byte_def hex_char_facts byte_nibbles)

lemma hex_string_inject: "hex_string as = hex_string bs \<longleftrightarrow> as = bs"
proof (induction as arbitrary: bs)
  case Nil
  then show ?case by (cases bs) (simp_all add: hex_string_def hex_byte_def)
next
  case (Cons a as)
  have len: "length (hex_byte x) = 2" for x by (simp add: hex_byte_def)
  show ?case
  proof (cases bs)
    case Nil
    then show ?thesis by (simp add: hex_string_def hex_byte_def)
  next
    case (Cons b bs')
    have "hex_string (a # as) = hex_string bs \<longleftrightarrow> hex_byte a = hex_byte b \<and> hex_string as = hex_string bs'"
      using len by (simp add: Cons hex_string_def)
    then show ?thesis by (simp add: Cons Cons.IH hex_byte_inject)
  qed
qed

text \<open>With a 32-byte hash the \<^verbatim>\<open>expect\<close> of the digest constructor never fires.\<close>

lemma canonical_metadata_digest_ok:
  assumes "\<And>bs. length (sha bs) = 32"
  shows "sha256_digest_new (hex_string (sha (encode_metadata i v ds))) =
           Inr (canonical_metadata_digest sha i v ds)"
    and "canonical_metadata_digest sha i v ds = hex_string (sha (encode_metadata i v ds))"
proof -
  have "sha256_digest_new (hex_string (sha bs)) = Inr (hex_string (sha bs))" for bs
    using assms[of bs] by (simp add: sha256_digest_new_Inr_iff hex_string_ok)
  then show "sha256_digest_new (hex_string (sha (encode_metadata i v ds))) =
               Inr (canonical_metadata_digest sha i v ds)"
    and "canonical_metadata_digest sha i v ds = hex_string (sha (encode_metadata i v ds))"
    by (simp_all add: canonical_metadata_digest_def)
qed

section \<open>Validation\<close>

lemma package_release_try_from_Inr_iff:
  "package_release_try_from sha ob = Inr release \<longleftrightarrow>
     ri_name (ob_identity ob) = ob_observed_package ob \<and>
     pred_option (\<lambda>v. version_eq v (ob_observed_version ob)) (provenance_version (ri_provenance (ob_identity ob))) \<and>
     (\<forall>d\<in>set (ob_declared_dependencies ob). pr_name (dd_package d) \<noteq> [] \<and> requirement_wf (dd_package d)) \<and>
     release =
       \<lparr>pk_identity = ob_identity ob, pk_version = ob_observed_version ob,
        pk_metadata = ob_metadata ob, pk_publication = ob_publication ob,
        pk_declared_dependencies = ob_declared_dependencies ob,
        pk_distributions = canonicalize_distributions (ob_distributions ob),
        pk_metadata_digest =
          canonical_metadata_digest sha (ob_identity ob) (ob_observed_version ob) (ob_declared_dependencies ob)\<rparr>"
proof -
  have inv: "invalid_dependency d \<longleftrightarrow> \<not> (pr_name (dd_package d) \<noteq> [] \<and> requirement_wf (dd_package d))" for d
    by (auto simp: invalid_dependency_def requirement_wf_def split: dependency_source_constraint.splits)
  have "(case position invalid_dependency ds of Some k \<Rightarrow> Inl (InvalidDependency k) | None \<Rightarrow> Inr x) = Inr y
         \<longleftrightarrow> (\<forall>d\<in>set ds. pr_name (dd_package d) \<noteq> [] \<and> requirement_wf (dd_package d)) \<and> y = x"
    for ds and x y :: package_release
    using position_None_iff[of invalid_dependency ds]
    by (cases "position invalid_dependency ds") (auto simp: inv)
  then show ?thesis by (simp add: package_release_try_from_def)
qed

text \<open>
  What an observation has to fulfil, read off the documentation of the release: registries, Bioconductor
  and R itself publish a package under its version, a commit or an immutable source does not name one;
  a declared dependency names a package, and one on an exact release names the package of that release.
\<close>

fun provenance_admits :: "provenance \<Rightarrow> r_package_version \<Rightarrow> bool" where
  "provenance_admits (RegistryRelease _ w) v \<longleftrightarrow> version_eq w v"
| "provenance_admits (BioconductorRelease _ _ w) v \<longleftrightarrow> version_eq w v"
| "provenance_admits (RBasePackage w) v \<longleftrightarrow> version_eq w v"
| "provenance_admits (GitCommit _ _ _) v \<longleftrightarrow> True"
| "provenance_admits (ImmutableSource _ _) v \<longleftrightarrow> True"

definition names_one_package :: "declared_dependency \<Rightarrow> bool" where
  "names_one_package d \<longleftrightarrow>
     pr_name (dd_package d) \<noteq> [] \<and> (\<forall>i. pr_source (dd_package d) = SourceExact i \<longrightarrow> ri_name i = pr_name (dd_package d))"

lemma provenance_admits_iff:
  "provenance_admits p v \<longleftrightarrow> pred_option (\<lambda>w. version_eq w v) (provenance_version p)"
  by (cases p) simp_all

lemma names_one_package_iff: "names_one_package d \<longleftrightarrow> \<not> invalid_dependency d"
  by (auto simp: names_one_package_def invalid_dependency_def split: dependency_source_constraint.splits)

lemma try_from_rejected:
  "package_release_try_from sha ob = Inl e \<longleftrightarrow>
     (if ri_name (ob_identity ob) \<noteq> ob_observed_package ob then e = ConflictingMetadata ''package name''
      else if \<not> provenance_admits (ri_provenance (ob_identity ob)) (ob_observed_version ob)
      then e = ConflictingMetadata ''provenance version''
      else \<exists>n < length (ob_declared_dependencies ob). e = InvalidDependency n \<and>
             \<not> names_one_package (ob_declared_dependencies ob ! n) \<and>
             (\<forall>m<n. names_one_package (ob_declared_dependencies ob ! m)))"
proof -
  let ?ds = "ob_declared_dependencies ob"
  have bad: "(\<exists>n < length ?ds. P n \<and> \<not> names_one_package (?ds ! n) \<and> (\<forall>m<n. names_one_package (?ds ! m))) \<longleftrightarrow>
      (\<exists>n. position invalid_dependency ?ds = Some n \<and> P n)" for P
    by (auto simp: position_Some_iff names_one_package_iff)
  show ?thesis
    unfolding bad
    by (cases "position invalid_dependency ?ds") (auto simp: package_release_try_from_def provenance_admits_iff)
qed

lemma try_from_accepted:
  "(\<exists>r. package_release_try_from sha ob = Inr r) \<longleftrightarrow>
     ri_name (ob_identity ob) = ob_observed_package ob \<and>
     provenance_admits (ri_provenance (ob_identity ob)) (ob_observed_version ob) \<and>
     (\<forall>d\<in>set (ob_declared_dependencies ob). names_one_package d)"
proof -
  have "names_one_package d \<longleftrightarrow> pr_name (dd_package d) \<noteq> [] \<and> requirement_wf (dd_package d)" for d
    by (cases "pr_source (dd_package d)") (simp_all add: names_one_package_def requirement_wf_def)
  then show ?thesis unfolding package_release_try_from_Inr_iff by (simp add: provenance_admits_iff)
qed

text \<open>The observation a release gives of itself.\<close>

definition observation_of :: "package_release \<Rightarrow> release_observation" where
  "observation_of r =
     \<lparr>ob_identity = pk_identity r, ob_observed_package = ri_name (pk_identity r), ob_observed_version = pk_version r,
      ob_metadata = pk_metadata r, ob_publication = pk_publication r,
      ob_declared_dependencies = pk_declared_dependencies r, ob_distributions = pk_distributions r\<rparr>"

lemma try_from_stable:
  "package_release_try_from sha ob = Inr r \<Longrightarrow> package_release_try_from sha (observation_of r) = Inr r"
  by (auto simp: package_release_try_from_Inr_iff observation_of_def canonicalize_idem)

lemma sorted_keys_distinct:
  fixes f :: "'a \<Rightarrow> 'k::linorder"
  shows "sorted_wrt (\<lambda>a b. f a < f b) xs \<Longrightarrow> distinct xs"
  by (induction xs) auto

lemma try_from_distributions:
  assumes "package_release_try_from sha ob = Inr r" and "list_all distribution_sized (ob_distributions ob)"
  shows "set (pk_distributions r) = set (ob_distributions ob)"
    and "distinct (pk_distributions r)"
    and "set ds = set (ob_distributions ob) \<Longrightarrow> package_release_try_from sha (ob\<lparr>ob_distributions := ds\<rparr>) = Inr r"
proof -
  show "set (pk_distributions r) = set (ob_distributions ob)"
    using assms by (auto simp: package_release_try_from_Inr_iff set_canonicalize)
  have "sorted_wrt (\<lambda>a b. distribution_key a < distribution_key b) (pk_distributions r)"
    using assms(1) canonical_by_sorted by (auto simp: package_release_try_from_Inr_iff canonicalize_distributions_canonical)
  then show "distinct (pk_distributions r)"
    by (rule sorted_keys_distinct)
  assume "set ds = set (ob_distributions ob)"
  then show "package_release_try_from sha (ob\<lparr>ob_distributions := ds\<rparr>) = Inr r"
    using assms canonicalize_cong_set[of "ob_distributions ob" ds] by (auto simp: package_release_try_from_Inr_iff)
qed

section \<open>Merging and aggregation\<close>

lemma set_foldl_push: "set (foldl push_distribution ds es) = set ds \<union> set es"
  by (induction es arbitrary: ds) (auto simp: push_distribution_def)

lemma merge_publication_Inr_iff:
  "merge_publication a b = Inr m \<longleftrightarrow> (a = None \<or> b = None \<or> a = b) \<and> m = (if a = None then b else a)"
  by (cases a; cases b) (auto simp: merge_publication_def)

lemma merge_consistent_Inr_iff:
  "merge_consistent a b = Inr r \<longleftrightarrow>
     version_eq (pk_version a) (pk_version b) \<and> pk_metadata a = pk_metadata b \<and>
     (pk_publication a = None \<or> pk_publication b = None \<or> pk_publication a = pk_publication b) \<and>
     list_all2 dependency_eq (pk_declared_dependencies a) (pk_declared_dependencies b) \<and>
     r = a\<lparr>pk_publication := (if pk_publication a = None then pk_publication b else pk_publication a),
           pk_distributions :=
             canonicalize_distributions (foldl push_distribution (pk_distributions a) (pk_distributions b))\<rparr>"
  by (cases a)
    (auto simp: merge_consistent_def bind_res_Inr_iff merge_publication_Inr_iff Let_def
      release_merge_distributions_def)

text \<open>The type invariant of a release: its distributions are in canonical form.\<close>

definition release_wf :: "package_release \<Rightarrow> bool" where
  "release_wf r = (canonicalize_distributions (pk_distributions r) = pk_distributions r)"

lemma try_from_wf: "package_release_try_from sha ob = Inr r \<Longrightarrow> release_wf r"
  by (simp add: package_release_try_from_Inr_iff release_wf_def canonicalize_idem)

lemma merge_consistent_wf: "merge_consistent a b = Inr r \<Longrightarrow> release_wf r"
  by (simp add: merge_consistent_Inr_iff release_wf_def canonicalize_idem)

lemma release_wf_inj: "release_wf r \<Longrightarrow> inj_on distribution_key (set (pk_distributions r))"
  unfolding release_wf_def canonicalize_distributions_canonical
  using canonical_by_sorted[of distribution_key "pk_distributions r"] sorted_keys_inj by metis

text \<open>
  What the aggregated release of an identity says about the releases \<open>qs\<close> of that identity: it
  agrees with each of them, and its distributions are exactly theirs.
\<close>

definition agrees :: "package_release \<Rightarrow> package_release \<Rightarrow> bool" where
  "agrees r q =
     (identity_eq (pk_identity r) (pk_identity q) \<and> version_eq (pk_version r) (pk_version q)
      \<and> pk_metadata r = pk_metadata q
      \<and> (pk_publication q = None \<or> pk_publication r = pk_publication q)
      \<and> list_all2 dependency_eq (pk_declared_dependencies r) (pk_declared_dependencies q))"

definition release_sized :: "package_release \<Rightarrow> bool" where
  "release_sized r = list_all distribution_sized (pk_distributions r)"

definition aggregates :: "package_release list \<Rightarrow> package_release \<Rightarrow> bool" where
  "aggregates qs r \<longleftrightarrow>
     (\<forall>q\<in>set qs. agrees r q) \<and>
     (pk_publication r \<noteq> None \<longrightarrow> (\<exists>q\<in>set qs. pk_publication q = pk_publication r)) \<and>
     (list_all release_sized qs \<longrightarrow> set (pk_distributions r) = (\<Union>q\<in>set qs. set (pk_distributions q)))"

lemma agrees_refl: "agrees q q"
  by (simp add: agrees_def id_eq.eq_refl vers_eq.eq_refl deps_eq.eq_refl)

lemma merge_agrees:
  assumes "merge_consistent e q = Inr m" "identity_eq (pk_identity e) (pk_identity q)"
  shows "agrees m q" and "agrees e x \<Longrightarrow> agrees m x"
    and "pk_publication m = pk_publication e \<or> pk_publication m = pk_publication q"
    and "release_sized e \<Longrightarrow> release_sized q \<Longrightarrow>
           set (pk_distributions m) = set (pk_distributions e) \<union> set (pk_distributions q)"
proof -
  show "agrees m q" "agrees e x \<Longrightarrow> agrees m x"
    using assms by (auto simp: merge_consistent_Inr_iff agrees_def)
  show "pk_publication m = pk_publication e \<or> pk_publication m = pk_publication q"
    using assms by (auto simp: merge_consistent_Inr_iff)
  show "set (pk_distributions m) = set (pk_distributions e) \<union> set (pk_distributions q)"
    if "release_sized e" "release_sized q"
  proof -
    have "list_all distribution_sized (foldl push_distribution (pk_distributions e) (pk_distributions q))"
      using that by (auto simp: release_sized_def list_all_iff set_foldl_push)
    then show ?thesis
      using assms(1) by (simp add: merge_consistent_Inr_iff set_canonicalize set_foldl_push)
  qed
qed

lemma aggregates_merge:
  assumes agg: "aggregates qs e" and id: "identity_eq (pk_identity e) (pk_identity q)"
    and merge: "merge_consistent e q = Inr m"
  shows "aggregates (qs @ [q]) m"
proof -
  note M = merge_agrees[OF merge id]
  have "set (pk_distributions m) = (\<Union>q\<in>set (qs @ [q]). set (pk_distributions q))"
    if "list_all release_sized (qs @ [q])"
  proof -
    have eq: "set (pk_distributions e) = (\<Union>q\<in>set qs. set (pk_distributions q))"
      using agg that by (simp add: aggregates_def)
    then have "release_sized e" using that by (auto simp: release_sized_def list_all_iff)
    then show ?thesis using M(4) that eq by auto
  qed
  moreover have "\<exists>x\<in>set (qs @ [q]). pk_publication x = pk_publication m" if "pk_publication m \<noteq> None"
    using M(3) that agg by (auto simp: aggregates_def)
  ultimately show ?thesis using M(1,2) agg by (auto simp: aggregates_def)
qed

lemma observe_release_union: "observe_release = union_insert identity_eq pk_identity merge_consistent"
  by (intro ext) (simp add: observe_release_def union_insert_def)

interpretation aggregation: keyed_union identity_eq pk_identity merge_consistent aggregates
proof
  show "aggregates [x] x" for x by (simp add: aggregates_def agrees_refl)
  show "merge_consistent a x = Inr m \<Longrightarrow> pk_identity m = pk_identity a" for a x m
    by (simp add: merge_consistent_Inr_iff)
qed (rule aggregates_merge)

text \<open>Observing raw observations is validating each and observing the releases.\<close>

lemma observe_all:
  "try_fold (observe sha) agg obs = Inr agg' \<Longrightarrow>
     \<exists>releases. list_all2 (\<lambda>ob r. package_release_try_from sha ob = Inr r) obs releases \<and>
       try_fold observe_release agg releases = Inr agg'"
proof (induction obs arbitrary: agg)
  case (Cons ob obs)
  obtain r mid where r: "package_release_try_from sha ob = Inr r" "observe_release agg r = Inr mid"
    and rest: "try_fold (observe sha) mid obs = Inr agg'"
    using Cons.prems unfolding try_fold.simps observe_def bind_res_Inr_iff by blast
  obtain rs where "list_all2 (\<lambda>ob r. package_release_try_from sha ob = Inr r) obs rs"
    "try_fold observe_release mid rs = Inr agg'" using Cons.IH[OF rest] by blast
  then have "list_all2 (\<lambda>ob r. package_release_try_from sha ob = Inr r) (ob # obs) (r # rs) \<and>
      try_fold observe_release agg (r # rs) = Inr agg'" using r by simp
  then show ?case by blast
qed simp

lemma aggregation_summary:
  assumes "try_fold observe_release [] releases = Inr agg"
  shows "case aggregation_get agg i of
           None \<Rightarrow> filter (\<lambda>r. identity_eq (pk_identity r) i) releases = []
         | Some r \<Rightarrow> identity_eq (pk_identity r) i \<and> aggregates (filter (\<lambda>r. identity_eq (pk_identity r) i) releases) r"
  using aggregation.union_get[OF assms[unfolded observe_release_union], of i]
  by (auto simp: aggregation_get_def split: option.splits)

end
