(* ===== verification/Candidates.thy ===== *)
theory Candidates
  imports Metadata
begin

text \<open>
  \<^verbatim>\<open>rsolve-core/src/request.rs\<close>, \<^verbatim>\<open>target.rs\<close> and \<^verbatim>\<open>candidates.rs\<close>: solver keys and requests,
  repository occurrences, prepared candidates and their identity-keyed union.  The iteration
  order of a \<^verbatim>\<open>HashMap\<close> is unspecified: it is the argument \<open>iter\<close>, of which the lemmas assume
  only that it is a permutation.
\<close>

section \<open>Requests\<close>

datatype solver_key =
    KeyRegistry package_namespace package_name
  | KeyBioconductor package_namespace bioconductor_release package_name
  | KeyRepository repository_id package_name
  | KeyExact release_identity
  | KeyInstalledName package_name
  | KeyR

fun solver_key_eq :: "solver_key \<Rightarrow> solver_key \<Rightarrow> bool" where
  "solver_key_eq (KeyExact a) (KeyExact b) = identity_eq a b"
| "solver_key_eq a b = (a = b)"

type_synonym locked_identities = "(solver_key \<times> release_identity) list"

record resolution_target =
  rt_r_version :: r_package_version

record resolution_request =
  rq_roots :: "root_requirement list"
  rq_target :: resolution_target
  rq_r_requirement :: version_constraint
  rq_locked :: locked_identities
  rq_publication_cutoff :: "publication_cutoff option"

definition resolution_request_new ::
  "root_requirement list \<Rightarrow> resolution_target \<Rightarrow> version_constraint \<Rightarrow> locked_identities \<Rightarrow>
   resolution_request" where
  "resolution_request_new roots target r_requirement locked =
     \<lparr>rq_roots = roots, rq_target = target, rq_r_requirement = r_requirement, rq_locked = locked,
      rq_publication_cutoff = None\<rparr>"

definition with_publication_cutoff :: "resolution_request \<Rightarrow> publication_cutoff \<Rightarrow> resolution_request" where
  "with_publication_cutoff request cutoff = request\<lparr>rq_publication_cutoff := Some cutoff\<rparr>"

definition with_optional_publication_cutoff ::
  "resolution_request \<Rightarrow> publication_cutoff option \<Rightarrow> resolution_request" where
  "with_optional_publication_cutoff request cutoff = request\<lparr>rq_publication_cutoff := cutoff\<rparr>"

definition exact_root_identity :: "resolution_request \<Rightarrow> package_name \<Rightarrow> release_identity option" where
  "exact_root_identity request name =
     find_map (\<lambda>root.
       if pr_name (rr_package root) = name
       then (case pr_source (rr_package root) of SourceExact identity \<Rightarrow> Some identity | _ \<Rightarrow> None)
       else None) (rq_roots request)"

section \<open>Repository occurrences\<close>

datatype candidate_availability = Available | MetadataOnly

datatype candidate_currentness = Current | Historical

text \<open>The derived orders: the position of the constructor in the declaration.\<close>

instantiation candidate_availability :: linorder
begin

fun less_eq_candidate_availability where
  "less_eq_candidate_availability MetadataOnly Available = False"
| "less_eq_candidate_availability (_ :: candidate_availability) _ = True"

definition less_candidate_availability where
  "less_candidate_availability (a :: candidate_availability) b = (a \<le> b \<and> \<not> b \<le> a)"

instance
proof
  fix a b c :: candidate_availability
  show "a < b \<longleftrightarrow> a \<le> b \<and> \<not> b \<le> a" by (rule less_candidate_availability_def)
  show "a \<le> a" by (cases a) simp_all
  show "a \<le> b \<Longrightarrow> b \<le> c \<Longrightarrow> a \<le> c" by (cases a; cases b; cases c) simp_all
  show "a \<le> b \<Longrightarrow> b \<le> a \<Longrightarrow> a = b" by (cases a; cases b) simp_all
  show "a \<le> b \<or> b \<le> a" by (cases a; cases b) simp_all
qed

end

instantiation candidate_currentness :: linorder
begin

fun less_eq_candidate_currentness where
  "less_eq_candidate_currentness Historical Current = False"
| "less_eq_candidate_currentness (_ :: candidate_currentness) _ = True"

definition less_candidate_currentness where
  "less_candidate_currentness (a :: candidate_currentness) b = (a \<le> b \<and> \<not> b \<le> a)"

instance
proof
  fix a b c :: candidate_currentness
  show "a < b \<longleftrightarrow> a \<le> b \<and> \<not> b \<le> a" by (rule less_candidate_currentness_def)
  show "a \<le> a" by (cases a) simp_all
  show "a \<le> b \<Longrightarrow> b \<le> c \<Longrightarrow> a \<le> c" by (cases a; cases b; cases c) simp_all
  show "a \<le> b \<Longrightarrow> b \<le> a \<Longrightarrow> a = b" by (cases a; cases b) simp_all
  show "a \<le> b \<or> b \<le> a" by (cases a; cases b) simp_all
qed

end

record repository_occurrence =
  oc_repository :: repository_id
  oc_registry :: registry_id
  oc_availability :: candidate_availability
  oc_currentness :: candidate_currentness
  oc_rank :: repository_rank
  oc_distributions :: "distribution list"

datatype repository_occurrence_error =
  DistributionRegistryMismatch repository_id registry_id registry_id

fun repository_occurrence_error_display :: "repository_occurrence_error \<Rightarrow> string" where
  "repository_occurrence_error_display (DistributionRegistryMismatch repository expected found) =
     ''distribution for repository '' @ repository @ '' belongs to registry '' @ found
     @ '', expected '' @ expected"

definition validate_distribution_registries ::
  "repository_id \<Rightarrow> registry_id \<Rightarrow> distribution list \<Rightarrow> repository_occurrence_error + unit" where
  "validate_distribution_registries repository registry distributions =
     (case find (\<lambda>d. di_registry d \<noteq> registry) distributions of
        Some d \<Rightarrow> Inl (DistributionRegistryMismatch repository registry (di_registry d))
      | None \<Rightarrow> Inr ())"

definition repository_occurrence_new ::
  "repository_id \<Rightarrow> registry_id \<Rightarrow> candidate_availability \<Rightarrow> candidate_currentness \<Rightarrow>
   repository_rank \<Rightarrow> distribution list \<Rightarrow> repository_occurrence_error + repository_occurrence" where
  "repository_occurrence_new repository registry availability currentness rank distributions =
     map_res (\<lambda>_.
       \<lparr>oc_repository = repository, oc_registry = registry, oc_availability = availability,
        oc_currentness = currentness, oc_rank = rank,
        oc_distributions = canonicalize_distributions distributions\<rparr>)
       (validate_distribution_registries repository registry distributions)"

definition occurrence_same_facts :: "repository_occurrence \<Rightarrow> repository_occurrence \<Rightarrow> bool" where
  "occurrence_same_facts a b =
     (oc_repository a = oc_repository b \<and> oc_registry a = oc_registry b
      \<and> oc_availability a = oc_availability b \<and> oc_currentness a = oc_currentness b
      \<and> oc_rank a = oc_rank b)"

definition occurrence_merge_distributions ::
  "repository_occurrence \<Rightarrow> repository_occurrence \<Rightarrow> repository_occurrence" where
  "occurrence_merge_distributions self other =
     self\<lparr>oc_distributions := canonicalize_distributions (oc_distributions self @ oc_distributions other)\<rparr>"

section \<open>Prepared candidates\<close>

datatype non_repository_exposure = NoExposure | ExactOnly | RuntimeInstalled

record prepared_candidate =
  pc_release :: package_release
  pc_exposure :: non_repository_exposure
  pc_occurrences :: "repository_occurrence list"

datatype prepared_candidate_error =
    ReleaseError package_release_error
  | IdentityMismatch
  | ConflictingReleaseMetadata string
  | ConflictingOccurrence repository_id
  | InvalidOccurrence repository_occurrence_error
  | DistributionNotInRelease repository_id
  | ReleaseDistributionWithoutOccurrence
  | MissingRepositoryOccurrence
  | InvalidNonRepositoryExposure

fun prepared_candidate_error_display :: "prepared_candidate_error \<Rightarrow> string" where
  "prepared_candidate_error_display (ReleaseError e) = package_release_error_display e"
| "prepared_candidate_error_display IdentityMismatch = ''prepared candidates have different identities''"
| "prepared_candidate_error_display (ConflictingReleaseMetadata field) =
     ''conflicting release metadata in '' @ field"
| "prepared_candidate_error_display (ConflictingOccurrence repository) =
     ''conflicting occurrences for repository '' @ repository"
| "prepared_candidate_error_display (InvalidOccurrence e) = repository_occurrence_error_display e"
| "prepared_candidate_error_display (DistributionNotInRelease repository) =
     ''occurrence for repository '' @ repository @ '' contains an unprojected distribution''"
| "prepared_candidate_error_display ReleaseDistributionWithoutOccurrence =
     ''prepared release contains a distribution absent from its repository occurrences''"
| "prepared_candidate_error_display MissingRepositoryOccurrence =
     ''a repository-backed prepared candidate requires a repository occurrence''"
| "prepared_candidate_error_display InvalidNonRepositoryExposure =
     ''runtime-installed exposure is only valid for R base packages''"

definition map_release_merge_error :: "package_release_error \<Rightarrow> prepared_candidate_error" where
  "map_release_merge_error e =
     (case e of ConflictingMetadata field \<Rightarrow> ConflictingReleaseMetadata field | other \<Rightarrow> ReleaseError other)"

fun subject_name :: "solver_key \<Rightarrow> package_name option" where
  "subject_name (KeyRegistry _ name) = Some name"
| "subject_name (KeyBioconductor _ _ name) = Some name"
| "subject_name (KeyRepository _ name) = Some name"
| "subject_name (KeyInstalledName name) = Some name"
| "subject_name (KeyExact identity) = Some (ri_name identity)"
| "subject_name KeyR = None"

fun provenance_matches :: "provenance \<Rightarrow> solver_key \<Rightarrow> bool" where
  "provenance_matches p (KeyRegistry namespace _) =
     (case p of RegistryRelease candidate _ \<Rightarrow> candidate = namespace | _ \<Rightarrow> False)"
| "provenance_matches p (KeyBioconductor namespace release _) =
     (case p of BioconductorRelease n r _ \<Rightarrow> n = namespace \<and> r = release | _ \<Rightarrow> False)"
| "provenance_matches p (KeyExact _) = True"
| "provenance_matches p (KeyRepository _ _) = True"
| "provenance_matches p (KeyInstalledName _) = True"
| "provenance_matches p KeyR = False"

definition pc_identity :: "prepared_candidate \<Rightarrow> release_identity" where
  "pc_identity c = pk_identity (pc_release c)"

definition available_occurrences :: "prepared_candidate \<Rightarrow> repository_occurrence list" where
  "available_occurrences c = filter (\<lambda>oc. oc_availability oc = Available) (pc_occurrences c)"

definition applicable_occurrences :: "prepared_candidate \<Rightarrow> solver_key \<Rightarrow> repository_occurrence list" where
  "applicable_occurrences c subject =
     (case subject_name subject of
        None \<Rightarrow> []
      | Some name \<Rightarrow>
          if ri_name (pc_identity c) \<noteq> name then []
          else if (case subject of KeyExact identity \<Rightarrow> \<not> identity_eq (pc_identity c) identity | _ \<Rightarrow> False) then []
          else if \<not> provenance_matches (ri_provenance (pc_identity c)) subject then []
          else filter (\<lambda>oc. case subject of KeyRepository repository _ \<Rightarrow> oc_repository oc = repository | _ \<Rightarrow> True)
                 (available_occurrences c))"

definition is_eligible_for :: "prepared_candidate \<Rightarrow> solver_key \<Rightarrow> bool" where
  "is_eligible_for c subject =
     (case subject_name subject of
        None \<Rightarrow> False
      | Some name \<Rightarrow>
          if ri_name (pc_identity c) \<noteq> name then False
          else case subject of
                 KeyExact identity \<Rightarrow>
                   identity_eq (pc_identity c) identity
                   \<and> (pc_exposure c \<noteq> NoExposure \<or> available_occurrences c \<noteq> [])
               | _ \<Rightarrow>
                   if pc_exposure c = RuntimeInstalled \<and> (case subject of KeyInstalledName _ \<Rightarrow> True | _ \<Rightarrow> False)
                   then True
                   else applicable_occurrences c subject \<noteq> [])"

definition iter_min :: "'a::linorder list \<Rightarrow> 'a option" where
  "iter_min xs = (case xs of [] \<Rightarrow> None | y # ys \<Rightarrow> Some (fold min ys y))"

definition repository_rank_for :: "prepared_candidate \<Rightarrow> solver_key \<Rightarrow> repository_rank option" where
  "repository_rank_for c subject = iter_min (map oc_rank (applicable_occurrences c subject))"

definition candidate_same_facts :: "prepared_candidate \<Rightarrow> prepared_candidate \<Rightarrow> bool" where
  "candidate_same_facts a b =
     (pc_exposure a = pc_exposure b
      \<and> identity_eq (pc_identity a) (pc_identity b)
      \<and> version_eq (pk_version (pc_release a)) (pk_version (pc_release b))
      \<and> pk_metadata (pc_release a) = pk_metadata (pc_release b)
      \<and> pk_publication (pc_release a) = pk_publication (pc_release b)
      \<and> list_all2 dependency_eq (pk_declared_dependencies (pc_release a))
           (pk_declared_dependencies (pc_release b))
      \<and> pk_distributions (pc_release a) = pk_distributions (pc_release b)
      \<and> pc_occurrences a = pc_occurrences b)"

text \<open>\<^verbatim>\<open>normalize_and_validate\<close>: the two sorts, the merging pass between them, the checks.\<close>

definition cmp_by_repository :: "repository_occurrence \<Rightarrow> repository_occurrence \<Rightarrow> ordering" where
  "cmp_by_repository l r =
     then_with (cmp_of (oc_repository l) (oc_repository r))
       (then_with (cmp_of (oc_rank l) (oc_rank r))
         (then_with (cmp_of (oc_registry l) (oc_registry r))
           (then_with (cmp_of (oc_availability l) (oc_availability r))
             (cmp_of (oc_currentness l) (oc_currentness r)))))"

definition cmp_by_rank :: "repository_occurrence \<Rightarrow> repository_occurrence \<Rightarrow> ordering" where
  "cmp_by_rank l r =
     then_with (cmp_of (oc_rank l) (oc_rank r))
       (then_with (cmp_of (oc_repository l) (oc_repository r))
         (then_with (cmp_of (oc_registry l) (oc_registry r))
           (then_with (cmp_of (oc_availability l) (oc_availability r))
             (cmp_of (oc_currentness l) (oc_currentness r)))))"

definition push_occurrence ::
  "repository_occurrence list \<Rightarrow> repository_occurrence \<Rightarrow>
   prepared_candidate_error + repository_occurrence list" where
  "push_occurrence normalized oc =
     bind_res (map_err InvalidOccurrence
       (validate_distribution_registries (oc_repository oc) (oc_registry oc) (oc_distributions oc)))
     (\<lambda>_. if normalized \<noteq> [] \<and> oc_repository (last normalized) = oc_repository oc
          then if \<not> occurrence_same_facts (last normalized) oc
               then Inl (ConflictingOccurrence (oc_repository oc))
               else Inr (butlast normalized @ [occurrence_merge_distributions (last normalized) oc])
          else Inr (normalized @ [oc]))"

definition normalize_and_validate :: "prepared_candidate \<Rightarrow> prepared_candidate_error + prepared_candidate" where
  "normalize_and_validate c =
     (if pc_exposure c = RuntimeInstalled \<and> \<not> is_r_base_package (pc_release c)
      then Inl InvalidNonRepositoryExposure
      else
        bind_res (try_fold push_occurrence [] (sort_by cmp_by_repository (pc_occurrences c))) (\<lambda>normalized.
        let occurrences = sort_by cmp_by_rank normalized;
            distributions = pk_distributions (pc_release c) in
        if pc_exposure c = NoExposure \<and> occurrences = [] then Inl MissingRepositoryOccurrence
        else case find (\<lambda>oc. list_ex (\<lambda>d. d \<notin> set distributions) (oc_distributions oc)) occurrences of
               Some oc \<Rightarrow> Inl (DistributionNotInRelease (oc_repository oc))
             | None \<Rightarrow>
                 if pc_exposure c = NoExposure
                    \<and> list_ex (\<lambda>d. d \<notin> set (concat (map oc_distributions occurrences))) distributions
                 then Inl ReleaseDistributionWithoutOccurrence
                 else Inr (c\<lparr>pc_occurrences := occurrences\<rparr>)))"

definition prepared_candidate_new ::
  "package_release \<Rightarrow> non_repository_exposure \<Rightarrow> repository_occurrence list \<Rightarrow>
   prepared_candidate_error + prepared_candidate" where
  "prepared_candidate_new release exposure occurrences =
     normalize_and_validate \<lparr>pc_release = release, pc_exposure = exposure, pc_occurrences = occurrences\<rparr>"

definition merge_exposure ::
  "non_repository_exposure \<Rightarrow> non_repository_exposure \<Rightarrow> non_repository_exposure" where
  "merge_exposure a b =
     (if a = RuntimeInstalled \<or> b = RuntimeInstalled then RuntimeInstalled
      else if a = ExactOnly \<or> b = ExactOnly then ExactOnly
      else NoExposure)"

definition candidate_merge ::
  "prepared_candidate \<Rightarrow> prepared_candidate \<Rightarrow> prepared_candidate_error + prepared_candidate" where
  "candidate_merge self incoming =
     (if \<not> identity_eq (pc_identity self) (pc_identity incoming) then Inl IdentityMismatch
      else
        bind_res (map_err map_release_merge_error
          (merge_consistent (pc_release self) (pc_release incoming))) (\<lambda>release.
        normalize_and_validate
          \<lparr>pc_release = release,
           pc_exposure = merge_exposure (pc_exposure self) (pc_exposure incoming),
           pc_occurrences = pc_occurrences self @ pc_occurrences incoming\<rparr>))"

section \<open>The union of candidates\<close>

type_synonym prepared_candidate_set = "(release_identity \<times> prepared_candidate) list"

definition candidate_set_insert ::
  "prepared_candidate_set \<Rightarrow> prepared_candidate \<Rightarrow> prepared_candidate_error + prepared_candidate_set" where
  "candidate_set_insert cs candidate =
     (case hm_get identity_eq cs (pc_identity candidate) of
        Some existing \<Rightarrow>
          map_res (\<lambda>merged. hm_insert identity_eq cs (pc_identity merged) merged)
            (candidate_merge existing candidate)
      | None \<Rightarrow> Inr (hm_insert identity_eq cs (pc_identity candidate) candidate))"

definition from_candidates :: "prepared_candidate list \<Rightarrow> prepared_candidate_error + prepared_candidate_set" where
  "from_candidates cs = try_fold candidate_set_insert [] cs"

definition set_candidates ::
  "(prepared_candidate list \<Rightarrow> prepared_candidate list) \<Rightarrow> prepared_candidate_set \<Rightarrow> prepared_candidate list" where
  "set_candidates iter cs = iter (map snd cs)"

definition set_applicable ::
  "(prepared_candidate list \<Rightarrow> prepared_candidate list) \<Rightarrow> prepared_candidate_set \<Rightarrow> solver_key \<Rightarrow>
   prepared_candidate list" where
  "set_applicable iter cs subject = filter (\<lambda>c. is_eligible_for c subject) (set_candidates iter cs)"

section \<open>Normal form of the occurrences\<close>

text \<open>The facts of an occurrence: everything but its distributions.\<close>

definition oc_facts :: "repository_occurrence \<Rightarrow> repository_occurrence" where
  "oc_facts oc = oc\<lparr>oc_distributions := []\<rparr>"

lemma occurrence_same_facts_iff: "occurrence_same_facts a b \<longleftrightarrow> oc_facts a = oc_facts b"
  by (cases a; cases b) (auto simp: occurrence_same_facts_def oc_facts_def)

lemma oc_facts_fields:
  assumes "oc_facts a = oc_facts b"
  shows "oc_repository a = oc_repository b" "oc_registry a = oc_registry b"
    "oc_availability a = oc_availability b" "oc_currentness a = oc_currentness b" "oc_rank a = oc_rank b"
  using assms by (cases a; cases b; simp add: oc_facts_def)+

lemma oc_facts_merge [simp]: "oc_facts (occurrence_merge_distributions a b) = oc_facts a"
  by (simp add: oc_facts_def occurrence_merge_distributions_def)

interpretation by_repository: total_cmp cmp_by_repository
proof -
  show "total_cmp cmp_by_repository"
    unfolding cmp_by_repository_def[abs_def] by (intro total_cmp_then total_cmp_field)
qed

interpretation by_rank: total_cmp cmp_by_rank
proof -
  show "total_cmp cmp_by_rank"
    unfolding cmp_by_rank_def[abs_def] by (intro total_cmp_then total_cmp_field)
qed

lemma cmp_by_repository_le:
  "cmp_by_repository a b \<noteq> Greater \<Longrightarrow> oc_repository a \<le> oc_repository b"
  by (auto simp: cmp_by_repository_def then_with_def cmp_of_def split: if_splits)

lemma validate_registries_Inr_iff:
  "validate_distribution_registries repository registry ds = Inr u \<longleftrightarrow>
     (\<forall>d\<in>set ds. di_registry d = registry)"
  by (auto simp: validate_distribution_registries_def find_None_iff_all find_Some_iff split: option.splits)

text \<open>
  The canonical key tells the distributions of the occurrences apart; sized distributions satisfy
  it (\<open>sized_inj\<close>), and so do the occurrences of a release in canonical form.
\<close>

definition keys_apart :: "repository_occurrence list \<Rightarrow> bool" where
  "keys_apart xs = inj_on distribution_key (\<Union>x\<in>set xs. set (oc_distributions x))"

text \<open>
  What the merging pass has established after the occurrences \<open>xs\<close>: one entry per repository, in
  order, with the facts of \<open>xs\<close> and, for each entry, the distributions of its own repository.
\<close>

definition merged_occurrences :: "repository_occurrence list \<Rightarrow> repository_occurrence list \<Rightarrow> bool" where
  "merged_occurrences xs ns \<longleftrightarrow>
     oc_facts ` set ns = oc_facts ` set xs \<and>
     (\<forall>x\<in>set xs. \<forall>d\<in>set (oc_distributions x). di_registry d = oc_registry x) \<and>
     (\<forall>n\<in>set ns. set (oc_distributions n) \<subseteq>
        (\<Union>x\<in>{x \<in> set xs. oc_facts x = oc_facts n}. set (oc_distributions x))) \<and>
     (keys_apart xs \<longrightarrow>
       (\<forall>n\<in>set ns. set (oc_distributions n) =
          (\<Union>x\<in>{x \<in> set xs. oc_facts x = oc_facts n}. set (oc_distributions x))))"

lemma merged_source:
  "merged_occurrences xs ns \<Longrightarrow> n \<in> set ns \<Longrightarrow> d \<in> set (oc_distributions n) \<Longrightarrow>
     \<exists>x\<in>set xs. oc_facts x = oc_facts n \<and> d \<in> set (oc_distributions x)"
  unfolding merged_occurrences_def by blast

lemma merged_occurrences_cong:
  "set xs = set ys \<Longrightarrow> set ns = set ms \<Longrightarrow> merged_occurrences xs ns = merged_occurrences ys ms"
  by (simp only: merged_occurrences_def keys_apart_def)

lemma merge_distributions_set:
  "set (oc_distributions (occurrence_merge_distributions a b)) \<subseteq>
     set (oc_distributions a) \<union> set (oc_distributions b)"
  "inj_on distribution_key (set (oc_distributions a) \<union> set (oc_distributions b)) \<Longrightarrow>
     set (oc_distributions (occurrence_merge_distributions a b)) =
       set (oc_distributions a) \<union> set (oc_distributions b)"
  using canonicalize_subset[of "oc_distributions a @ oc_distributions b"]
    set_canonical_by[of distribution_key "oc_distributions a @ oc_distributions b"]
  by (auto simp: occurrence_merge_distributions_def canonicalize_distributions_canonical)

lemma push_occurrence_cases:
  assumes "push_occurrence ns x = Inr ns'"
  obtains (fresh) "\<forall>d\<in>set (oc_distributions x). di_registry d = oc_registry x" "ns' = ns @ [x]"
      "ns = [] \<or> oc_repository (last ns) \<noteq> oc_repository x"
    | (same) ms n where "\<forall>d\<in>set (oc_distributions x). di_registry d = oc_registry x" "ns = ms @ [n]"
      "oc_facts n = oc_facts x" "ns' = ms @ [occurrence_merge_distributions n x]"
  using assms
  by (cases ns rule: rev_cases)
    (auto simp: push_occurrence_def bind_res_Inr_iff validate_registries_Inr_iff
      occurrence_same_facts_iff split: if_splits)

lemma keys_apart_append: "keys_apart (xs @ ys) \<Longrightarrow> keys_apart xs"
  by (auto simp: keys_apart_def intro: inj_on_subset)

lemma merged_fresh:
  assumes "merged_occurrences xs ns" "\<forall>d\<in>set (oc_distributions x). di_registry d = oc_registry x"
    and new: "\<forall>y\<in>set xs. oc_facts y \<noteq> oc_facts x"
  shows "merged_occurrences (xs @ [x]) (ns @ [x])"
proof -
  have n: "oc_facts n \<noteq> oc_facts x" if "n \<in> set ns" for n
  proof -
    have "oc_facts n \<in> oc_facts ` set xs" using assms(1) that by (auto simp: merged_occurrences_def)
    then show ?thesis using new by auto
  qed
  have "{y \<in> set (xs @ [x]). oc_facts y = oc_facts n} = {y \<in> set xs. oc_facts y = oc_facts n}"
    if "n \<in> set ns" for n using n[OF that] by auto
  moreover have "{y \<in> set (xs @ [x]). oc_facts y = oc_facts x} = {x}" using new by auto
  ultimately show ?thesis
    using assms(1,2) keys_apart_append[of xs "[x]"] by (auto simp: merged_occurrences_def)
qed

lemma merged_same:
  assumes m: "merged_occurrences xs (ms @ [n])"
    and reg: "\<forall>d\<in>set (oc_distributions x). di_registry d = oc_registry x"
    and nx: "oc_facts n = oc_facts x" and dist: "\<forall>y\<in>set ms. oc_facts y \<noteq> oc_facts x"
  shows "merged_occurrences (xs @ [x]) (ms @ [occurrence_merge_distributions n x])"
proof -
  let ?m = "occurrence_merge_distributions n x"
  have other: "{y \<in> set (xs @ [x]). oc_facts y = oc_facts k} = {y \<in> set xs. oc_facts y = oc_facts k}"
    if "k \<in> set ms" for k using dist that by auto
  have own: "{y \<in> set (xs @ [x]). oc_facts y = oc_facts ?m} = insert x {y \<in> set xs. oc_facts y = oc_facts n}"
    using nx by auto
  have sz: "inj_on distribution_key (set (oc_distributions n) \<union> set (oc_distributions x))" if "keys_apart (xs @ [x])"
  proof -
    have "set (oc_distributions n) \<subseteq> (\<Union>y\<in>set xs. set (oc_distributions y))"
      using merged_source[OF m] by force
    then show ?thesis using that unfolding keys_apart_def by (auto intro: inj_on_subset)
  qed
  have facts: "oc_facts ` set (ms @ [?m]) = oc_facts ` set (xs @ [x])"
  proof -
    have "oc_facts ` set (ms @ [n]) = oc_facts ` set xs" using m by (simp only: merged_occurrences_def)
    then show ?thesis using nx by (auto simp: image_iff)
  qed
  have sub: "set (oc_distributions k) \<subseteq> (\<Union>y\<in>{y \<in> set (xs @ [x]). oc_facts y = oc_facts k}. set (oc_distributions y))"
    if "k \<in> set (ms @ [?m])" for k
  proof (cases "k \<in> set ms")
    case True
    then show ?thesis using m by (simp only: other) (simp add: merged_occurrences_def)
  next
    case False
    then have k: "k = ?m" using that by simp
    have "set (oc_distributions n) \<subseteq> (\<Union>y\<in>{y \<in> set xs. oc_facts y = oc_facts n}. set (oc_distributions y))"
      using m by (simp add: merged_occurrences_def)
    then show ?thesis unfolding k own using merge_distributions_set(1)[of n x] by blast
  qed
  have eq: "set (oc_distributions k) = (\<Union>y\<in>{y \<in> set (xs @ [x]). oc_facts y = oc_facts k}. set (oc_distributions y))"
    if "k \<in> set (ms @ [?m])" "keys_apart (xs @ [x])" for k
  proof (cases "k \<in> set ms")
    case True
    then show ?thesis
      using m keys_apart_append[OF that(2)] by (simp only: other) (simp add: merged_occurrences_def)
  next
    case False
    then have k: "k = ?m" using that by simp
    have "set (oc_distributions n) = (\<Union>y\<in>{y \<in> set xs. oc_facts y = oc_facts n}. set (oc_distributions y))"
      using m keys_apart_append[OF that(2)] by (simp add: merged_occurrences_def)
    then show ?thesis
      unfolding k own using merge_distributions_set(2)[of n x] sz that(2) by auto
  qed
  show ?thesis
    unfolding merged_occurrences_def using facts sub eq reg m
    by (auto simp: merged_occurrences_def simp del: UN_simps)
qed

lemma push_occurrences_ok:
  assumes "sorted_wrt (\<lambda>a b. cmp_by_repository a b \<noteq> Greater) xs" "try_fold push_occurrence [] xs = Inr ns"
  shows "merged_occurrences xs ns \<and> sorted_wrt (<) (map oc_repository ns)"
  using assms
proof (induction xs arbitrary: ns rule: rev_induct)
  case Nil
  then show ?case by (simp add: merged_occurrences_def)
next
  case (snoc x xs)
  obtain ms where ms: "try_fold push_occurrence [] xs = Inr ms" and step: "push_occurrence ms x = Inr ns"
    using snoc.prems(2) by (auto simp: try_fold_append bind_res_Inr_iff)
  have IH: "merged_occurrences xs ms" "sorted_wrt (<) (map oc_repository ms)"
    using snoc.IH[OF _ ms] snoc.prems(1) by (simp_all add: sorted_wrt_append)
  have le: "oc_repository m \<le> oc_repository x" if "m \<in> set ms" for m
  proof -
    have "oc_facts m \<in> oc_facts ` set xs" using IH(1) that by (auto simp: merged_occurrences_def)
    then obtain y where "y \<in> set xs" "oc_facts m = oc_facts y" by auto
    then show ?thesis
      using snoc.prems(1) oc_facts_fields(1)[of m y] cmp_by_repository_le[of y x]
      by (auto simp: sorted_wrt_append)
  qed
  from step show ?case
  proof (cases rule: push_occurrence_cases)
    case fresh
    have less: "oc_repository m < oc_repository x" if "m \<in> set ms" for m
    proof -
      have "ms \<noteq> []" using that by auto
      then have "oc_repository (last ms) < oc_repository x" using fresh(3) le[of "last ms"] by force
      moreover have "oc_repository m \<le> oc_repository (last ms)"
        using IH(2) that by (cases ms rule: rev_cases) (auto simp: sorted_wrt_append)
      ultimately show ?thesis by simp
    qed
    have "oc_facts y \<noteq> oc_facts x" if "y \<in> set xs" for y
    proof -
      have "oc_facts y \<in> oc_facts ` set ms" using IH(1) that by (auto simp: merged_occurrences_def)
      then obtain m where "m \<in> set ms" "oc_facts y = oc_facts m" by auto
      then show ?thesis using less[of m] oc_facts_fields(1)[of m x] by auto
    qed
    then show ?thesis
      using merged_fresh[OF IH(1) fresh(1)] less IH(2) by (auto simp: fresh(2) sorted_wrt_append)
  next
    case (same ks n)
    have "oc_repository n = oc_repository x" using same(3) by (rule oc_facts_fields)
    then have "oc_repository y < oc_repository x" if "y \<in> set ks" for y
      using IH(2) that by (simp add: same(2) sorted_wrt_append)
    then have "\<forall>y\<in>set ks. oc_facts y \<noteq> oc_facts x"
      using oc_facts_fields(1) by (metis less_irrefl)
    moreover have "oc_repository (occurrence_merge_distributions n x) = oc_repository n"
      by (simp add: occurrence_merge_distributions_def)
    ultimately show ?thesis
      using merged_same[OF IH(1)[unfolded same(2)] same(1,3)] IH(2)
      by (auto simp: same(2,4) sorted_wrt_append)
  qed
qed

section \<open>The invariant of prepared candidates\<close>

definition candidate_ok :: "prepared_candidate \<Rightarrow> bool" where
  "candidate_ok c \<longleftrightarrow>
     distinct (map oc_repository (pc_occurrences c)) \<and>
     sorted_wrt (\<lambda>a b. cmp_by_rank a b \<noteq> Greater) (pc_occurrences c) \<and>
     (\<forall>oc\<in>set (pc_occurrences c). \<forall>d\<in>set (oc_distributions oc).
        di_registry d = oc_registry oc \<and> d \<in> set (pk_distributions (pc_release c))) \<and>
     (pc_exposure c = NoExposure \<longrightarrow>
        pc_occurrences c \<noteq> [] \<and>
        set (pk_distributions (pc_release c)) \<subseteq> (\<Union>oc\<in>set (pc_occurrences c). set (oc_distributions oc))) \<and>
     (pc_exposure c = RuntimeInstalled \<longrightarrow> is_r_base_package (pc_release c))"

lemma normalize_Inr_iff:
  "normalize_and_validate c = Inr c' \<longleftrightarrow>
     (\<exists>ns. try_fold push_occurrence [] (sort_by cmp_by_repository (pc_occurrences c)) = Inr ns \<and>
        c' = c\<lparr>pc_occurrences := sort_by cmp_by_rank ns\<rparr> \<and>
        (pc_exposure c = RuntimeInstalled \<longrightarrow> is_r_base_package (pc_release c)) \<and>
        (pc_exposure c = NoExposure \<longrightarrow> ns \<noteq> [] \<and>
           set (pk_distributions (pc_release c)) \<subseteq> (\<Union>oc\<in>set ns. set (oc_distributions oc))) \<and>
        (\<forall>oc\<in>set ns. set (oc_distributions oc) \<subseteq> set (pk_distributions (pc_release c))))"
proof -
  have checks:
    "(case find (\<lambda>oc. list_ex (\<lambda>d. d \<notin> set D) (oc_distributions oc)) os of
        Some oc \<Rightarrow> Inl (DistributionNotInRelease (oc_repository oc))
      | None \<Rightarrow> if e = NoExposure \<and> list_ex (\<lambda>d. d \<notin> set (concat (map oc_distributions os))) D
                then Inl ReleaseDistributionWithoutOccurrence else Inr y) = Inr z \<longleftrightarrow>
     y = z \<and> (\<forall>oc\<in>set os. set (oc_distributions oc) \<subseteq> set D) \<and>
     (e = NoExposure \<longrightarrow> set D \<subseteq> (\<Union>oc\<in>set os. set (oc_distributions oc)))"
    for D os e and y z :: prepared_candidate
    using find_None_iff_all[of "\<lambda>oc. list_ex (\<lambda>d. d \<notin> set D) (oc_distributions oc)" os]
    by (cases "find (\<lambda>oc. list_ex (\<lambda>d. d \<notin> set D) (oc_distributions oc)) os")
      (auto simp: list_ex_iff)
  show ?thesis
    by (auto simp: normalize_and_validate_def bind_res_Inr_iff Let_def checks)
qed

lemma normalize_Inr:
  assumes "normalize_and_validate c = Inr c'"
  shows "candidate_ok c'" and "merged_occurrences (pc_occurrences c) (pc_occurrences c')"
    and "pc_release c' = pc_release c" and "pc_exposure c' = pc_exposure c"
proof -
  obtain ns where ns: "try_fold push_occurrence [] (sort_by cmp_by_repository (pc_occurrences c)) = Inr ns"
    and c': "c' = c\<lparr>pc_occurrences := sort_by cmp_by_rank ns\<rparr>"
    and runtime: "pc_exposure c = RuntimeInstalled \<Longrightarrow> is_r_base_package (pc_release c)"
    and repo: "pc_exposure c = NoExposure \<Longrightarrow> ns \<noteq> [] \<and>
      set (pk_distributions (pc_release c)) \<subseteq> (\<Union>oc\<in>set ns. set (oc_distributions oc))"
    and sub: "\<forall>oc\<in>set ns. set (oc_distributions oc) \<subseteq> set (pk_distributions (pc_release c))"
    using assms unfolding normalize_Inr_iff by blast
  have m: "merged_occurrences (sort_by cmp_by_repository (pc_occurrences c)) ns"
    and sorted: "sorted_wrt (<) (map oc_repository ns)"
    using push_occurrences_ok[OF by_repository.sorted_sort_by ns] by auto
  from m show mo: "merged_occurrences (pc_occurrences c) (pc_occurrences c')"
    by (subst (asm) merged_occurrences_cong[OF by_repository.set_sort_by by_rank.set_sort_by[symmetric]])
      (simp add: c')
  show "pc_release c' = pc_release c" "pc_exposure c' = pc_exposure c" by (simp_all add: c')
  have "mset (map oc_repository (sort_by cmp_by_rank ns)) = mset (map oc_repository ns)" by simp
  then have "distinct (map oc_repository (sort_by cmp_by_rank ns))"
    using sorted by (metis mset_eq_imp_distinct_iff strict_sorted_iff)
  moreover have "di_registry d = oc_registry oc"
    if mem: "oc \<in> set (pc_occurrences c')" "d \<in> set (oc_distributions oc)" for oc d
  proof -
    obtain x where "x \<in> set (pc_occurrences c)" "oc_facts x = oc_facts oc" "d \<in> set (oc_distributions x)"
      using merged_source[OF mo mem] by blast
    then show ?thesis using mo oc_facts_fields(2)[of x oc] by (auto simp: merged_occurrences_def)
  qed
  ultimately show "candidate_ok c'"
    using by_rank.sorted_sort_by repo sub runtime
    by (auto simp: c' candidate_ok_def)
qed

lemma candidate_merge_Inr:
  assumes "candidate_merge a b = Inr m"
  shows "candidate_ok m"
    and "merged_occurrences (pc_occurrences a @ pc_occurrences b) (pc_occurrences m)"
    and "identity_eq (pc_identity a) (pc_identity b)" and "pc_identity m = pc_identity a"
    and "pc_exposure m = merge_exposure (pc_exposure a) (pc_exposure b)"
    and "merge_consistent (pc_release a) (pc_release b) = Inr (pc_release m)"
proof -
  obtain release where ids: "identity_eq (pc_identity a) (pc_identity b)"
    and release: "merge_consistent (pc_release a) (pc_release b) = Inr release"
    and norm: "normalize_and_validate
        \<lparr>pc_release = release, pc_exposure = merge_exposure (pc_exposure a) (pc_exposure b),
         pc_occurrences = pc_occurrences a @ pc_occurrences b\<rparr> = Inr m"
    using assms by (auto simp: candidate_merge_def bind_res_Inr_iff split: if_splits)
  note N = normalize_Inr[OF norm]
  show "identity_eq (pc_identity a) (pc_identity b)" by (rule ids)
  show "candidate_ok m" "merged_occurrences (pc_occurrences a @ pc_occurrences b) (pc_occurrences m)"
    "pc_exposure m = merge_exposure (pc_exposure a) (pc_exposure b)"
    "merge_consistent (pc_release a) (pc_release b) = Inr (pc_release m)"
    using N release by simp_all
  show "pc_identity m = pc_identity a"
    using N(3) release by (auto simp: pc_identity_def merge_consistent_Inr_iff)
qed

section \<open>Eligibility\<close>

lemma provenance_matches_cong:
  "provenance_eq p q \<Longrightarrow> provenance_matches p k = provenance_matches q k"
  by (cases k; cases p; cases q) auto

text \<open>Which occurrences serve a subject depends on the identity and on the facts alone.\<close>

definition serves :: "release_identity \<Rightarrow> solver_key \<Rightarrow> repository_occurrence \<Rightarrow> bool" where
  "serves i k oc =
     (oc_availability oc = Available \<and> subject_name k = Some (ri_name i)
      \<and> provenance_matches (ri_provenance i) k
      \<and> (case k of KeyExact j \<Rightarrow> identity_eq i j | KeyRepository r _ \<Rightarrow> oc_repository oc = r | _ \<Rightarrow> True))"

lemma applicable_occurrences_serves:
  "applicable_occurrences c k = filter (serves (pc_identity c) k) (pc_occurrences c)"
  by (cases k) (auto simp: applicable_occurrences_def available_occurrences_def serves_def
      intro!: filter_cong)

lemma serves_cong:
  assumes "identity_eq i j" "oc_facts x = oc_facts y"
  shows "serves i k x = serves j k y"
proof -
  have "identity_eq i l = identity_eq j l" for l using assms(1) by (rule id_eq.eq_cong_left)
  moreover have "ri_name i = ri_name j" using assms(1) by (rule identity_eq_name)
  moreover have "provenance_matches (ri_provenance i) k = provenance_matches (ri_provenance j) k"
    using assms(1) by (simp add: identity_eq_def provenance_matches_cong)
  ultimately show ?thesis
    by (simp only: serves_def oc_facts_fields[OF assms(2)])
qed

lemma is_eligible_iff:
  "is_eligible_for c k \<longleftrightarrow>
     (\<exists>oc\<in>set (pc_occurrences c). serves (pc_identity c) k oc) \<or>
     (\<exists>i. k = KeyExact i \<and> identity_eq (pc_identity c) i \<and> pc_exposure c \<noteq> NoExposure) \<or>
     (k = KeyInstalledName (ri_name (pc_identity c)) \<and> pc_exposure c = RuntimeInstalled)"
proof (cases k)
  case (KeyExact i)
  then show ?thesis
    by (auto simp: is_eligible_for_def serves_def available_occurrences_def identity_eq_def filter_empty_conv)
qed (auto simp: is_eligible_for_def applicable_occurrences_serves filter_empty_conv serves_def)

lemma merged_serves:
  assumes "merged_occurrences xs ns" "identity_eq i j"
  shows "(\<exists>n\<in>set ns. serves i k n) \<longleftrightarrow> (\<exists>x\<in>set xs. serves j k x)"
proof -
  have eq: "oc_facts ` set ns = oc_facts ` set xs" using assms(1) by (simp add: merged_occurrences_def)
  show ?thesis
  proof
    assume "\<exists>n\<in>set ns. serves i k n"
    then obtain n where "n \<in> set ns" "serves i k n" by auto
    moreover from this eq obtain x where "x \<in> set xs" "oc_facts n = oc_facts x" by (metis imageE imageI)
    ultimately show "\<exists>x\<in>set xs. serves j k x" using serves_cong[OF assms(2)] by blast
  next
    assume "\<exists>x\<in>set xs. serves j k x"
    then obtain x where "x \<in> set xs" "serves j k x" by auto
    moreover from this eq obtain n where "n \<in> set ns" "oc_facts n = oc_facts x" by (metis imageE imageI)
    ultimately show "\<exists>n\<in>set ns. serves i k n" using serves_cong[OF assms(2)] by blast
  qed
qed

lemma merge_exposure_iff:
  "merge_exposure a b = NoExposure \<longleftrightarrow> a = NoExposure \<and> b = NoExposure"
  "merge_exposure a b = RuntimeInstalled \<longleftrightarrow> a = RuntimeInstalled \<or> b = RuntimeInstalled"
  by (cases a; cases b; simp add: merge_exposure_def)+

lemma merge_eligible_iff:
  assumes "candidate_merge a b = Inr m"
  shows "is_eligible_for m k \<longleftrightarrow> is_eligible_for a k \<or> is_eligible_for b k"
proof -
  note M = candidate_merge_Inr[OF assms]
  let ?i = "pc_identity a" and ?j = "pc_identity b"
  have exact: "identity_eq ?i l = identity_eq ?j l" for l using M(3) by (rule id_eq.eq_cong_left)
  have name: "ri_name ?i = ri_name ?j" using M(3) by (rule identity_eq_name)
  have "(\<exists>oc\<in>set (pc_occurrences m). serves ?i k oc) \<longleftrightarrow>
        (\<exists>oc\<in>set (pc_occurrences a). serves ?i k oc) \<or> (\<exists>oc\<in>set (pc_occurrences b). serves ?j k oc)"
    using merged_serves[OF M(2) id_eq.eq_refl, of ?i k] serves_cong[OF M(3) refl] by auto
  then show ?thesis
    using exact name by (auto simp: is_eligible_iff M(4,5) merge_exposure_iff)
qed

section \<open>The union of candidates\<close>

text \<open>
  What the merged candidate of an identity says about the candidates \<open>cs\<close> of that identity.
\<close>

definition unites :: "prepared_candidate list \<Rightarrow> prepared_candidate \<Rightarrow> bool" where
  "unites cs m \<longleftrightarrow>
     (\<forall>k. is_eligible_for m k \<longleftrightarrow> (\<exists>c\<in>set cs. is_eligible_for c k)) \<and>
     (\<forall>c\<in>set cs. agrees (pc_release m) (pc_release c)) \<and>
     oc_facts ` set (pc_occurrences m) = (\<Union>c\<in>set cs. oc_facts ` set (pc_occurrences c)) \<and>
     ((\<forall>c\<in>set cs. candidate_ok c) \<longrightarrow> candidate_ok m) \<and>
     ((\<forall>c\<in>set cs. release_wf (pc_release c)) \<longrightarrow> release_wf (pc_release m))"

lemma unites_merge:
  assumes "unites cs a" "candidate_merge a c = Inr m"
  shows "unites (cs @ [c]) m"
proof -
  note M = candidate_merge_Inr[OF assms(2)]
  have "oc_facts ` set (pc_occurrences m) = oc_facts ` set (pc_occurrences a) \<union> oc_facts ` set (pc_occurrences c)"
    using M(2) by (simp add: merged_occurrences_def image_Un)
  then have "oc_facts ` set (pc_occurrences m) = (\<Union>c\<in>set (cs @ [c]). oc_facts ` set (pc_occurrences c))"
    using assms(1) by (simp add: unites_def Un_commute)
  moreover have "\<forall>x\<in>set (cs @ [c]). agrees (pc_release m) (pc_release x)"
    using assms(1) merge_agrees(1,2)[OF M(6)] M(3) by (auto simp: unites_def pc_identity_def)
  ultimately show ?thesis
    using assms(1) M(1) merge_consistent_wf[OF M(6)] merge_eligible_iff[OF assms(2)]
    by (simp add: unites_def) blast
qed

lemma candidate_set_insert_union:
  "candidate_set_insert = union_insert identity_eq pc_identity candidate_merge"
proof (intro ext)
  fix cs c
  have "map_res (\<lambda>m. hm_insert identity_eq cs (pc_identity m) m) (candidate_merge e c) =
        map_res (hm_insert identity_eq cs (pc_identity c)) (candidate_merge e c)"
    if "hm_get identity_eq cs (pc_identity c) = Some e" for e
  proof (cases "candidate_merge e c")
    case (Inr m)
    have "identity_eq (pc_identity m) (pc_identity c)"
      using candidate_merge_Inr(3,4)[OF Inr] by simp
    from id_eq.hm_insert_cong[OF this, of cs] show ?thesis using that by (simp add: Inr)
  qed simp
  then show "candidate_set_insert cs c = union_insert identity_eq pc_identity candidate_merge cs c"
    by (auto simp: candidate_set_insert_def union_insert_def split: option.splits)
qed

interpretation candidate_union: keyed_union identity_eq pc_identity candidate_merge unites
proof
  show "unites [x] x" for x by (simp add: unites_def agrees_refl)
  show "candidate_merge a x = Inr m \<Longrightarrow> pc_identity m = pc_identity a" for a x m
    by (rule candidate_merge_Inr)
qed (rule unites_merge)

lemma iter_min_Some_iff: "iter_min xs = Some m \<longleftrightarrow> m \<in> set xs \<and> (\<forall>x\<in>set xs. m \<le> x)"
proof -
  have "iter_min xs = Some m \<longleftrightarrow> xs \<noteq> [] \<and> m = Min (set xs)"
    using Min.set_eq_fold[of "hd xs" "tl xs"] by (cases xs) (auto simp: iter_min_def)
  then show ?thesis by (auto intro: Min_eqI[symmetric])
qed

lemma iter_min_None_iff: "iter_min xs = None \<longleftrightarrow> xs = []"
  by (simp add: iter_min_def split: list.splits)

section \<open>Merging candidates with the same facts succeeds\<close>

lemma push_occurrences_succeed:
  assumes "sorted_wrt (\<lambda>a b. cmp_by_repository a b \<noteq> Greater) xs"
    and "\<forall>x\<in>set xs. \<forall>d\<in>set (oc_distributions x). di_registry d = oc_registry x"
    and "\<forall>x\<in>set xs. \<forall>y\<in>set xs. oc_repository x = oc_repository y \<longrightarrow> oc_facts x = oc_facts y"
  shows "\<exists>ns. try_fold push_occurrence [] xs = Inr ns"
  using assms
proof (induction xs rule: rev_induct)
  case (snoc x xs)
  obtain ns where ns: "try_fold push_occurrence [] xs = Inr ns"
    using snoc by (auto simp: sorted_wrt_append)
  have "merged_occurrences xs ns"
    using push_occurrences_ok[OF _ ns] snoc.prems(1) by (simp add: sorted_wrt_append)
  then have facts: "oc_facts ` set ns = oc_facts ` set xs" by (simp add: merged_occurrences_def)
  have "occurrence_same_facts (last ns) x"
    if "ns \<noteq> []" "oc_repository (last ns) = oc_repository x"
  proof -
    have "oc_facts (last ns) \<in> oc_facts ` set xs" using facts that(1) last_in_set by blast
    then obtain y where y: "y \<in> set xs" "oc_facts (last ns) = oc_facts y" by blast
    then have "oc_repository y = oc_repository x" using that(2) oc_facts_fields(1)[of "last ns" y] by simp
    then have "oc_facts y = oc_facts x"
      using bspec[OF bspec[OF snoc.prems(3), of y], of x] y(1) by auto
    then show ?thesis using y(2) by (simp only: occurrence_same_facts_iff)
  qed
  moreover have "validate_distribution_registries (oc_repository x) (oc_registry x) (oc_distributions x) = Inr ()"
    using snoc.prems(2) by (simp add: validate_registries_Inr_iff)
  ultimately have "\<exists>ms. push_occurrence ns x = Inr ms" by (simp add: push_occurrence_def)
  then show ?case using ns by (auto simp: try_fold_append)
qed simp

text \<open>Two candidates that say the same about a release, up to the form of their occurrences.\<close>

definition compatible :: "prepared_candidate \<Rightarrow> prepared_candidate \<Rightarrow> bool" where
  "compatible a b \<longleftrightarrow>
     candidate_ok a \<and> candidate_ok b \<and> release_wf (pc_release a) \<and> pc_exposure a = pc_exposure b \<and>
     identity_eq (pc_identity a) (pc_identity b) \<and>
     version_eq (pk_version (pc_release a)) (pk_version (pc_release b)) \<and>
     pk_metadata (pc_release a) = pk_metadata (pc_release b) \<and>
     pk_publication (pc_release a) = pk_publication (pc_release b) \<and>
     list_all2 dependency_eq (pk_declared_dependencies (pc_release a)) (pk_declared_dependencies (pc_release b)) \<and>
     set (pk_distributions (pc_release a)) = set (pk_distributions (pc_release b)) \<and>
     oc_facts ` set (pc_occurrences a) = oc_facts ` set (pc_occurrences b)"

lemma same_facts_compatible:
  "candidate_same_facts a b \<Longrightarrow> candidate_ok a \<Longrightarrow> candidate_ok b \<Longrightarrow> release_wf (pc_release a) \<Longrightarrow> compatible a b"
  by (simp add: compatible_def candidate_same_facts_def)

lemma foldl_push_same: "set es \<subseteq> set ds \<Longrightarrow> foldl push_distribution ds es = ds"
  by (induction es) (auto simp: push_distribution_def)

lemma candidate_ok_repository_facts:
  assumes "candidate_ok a" "x \<in> set (pc_occurrences a)" "y \<in> set (pc_occurrences a)"
    and "oc_repository x = oc_repository y"
  shows "x = y"
  using assms by (auto simp: candidate_ok_def distinct_map inj_on_def)

lemma compatible_merge:
  assumes "compatible a b"
  shows "\<exists>m. candidate_merge a b = Inr m \<and> compatible m b \<and> pc_release m = pc_release a"
proof -
  note C = assms[unfolded compatible_def]
  let ?c = "\<lparr>pc_release = pc_release a, pc_exposure = pc_exposure a,
             pc_occurrences = pc_occurrences a @ pc_occurrences b\<rparr>"
  have release: "merge_consistent (pc_release a) (pc_release b) = Inr (pc_release a)"
    using C by (simp add: merge_consistent_Inr_iff foldl_push_same release_wf_def)
  let ?xs = "sort_by cmp_by_repository (pc_occurrences a @ pc_occurrences b)"
  have reps: "\<exists>x\<in>set (pc_occurrences a). oc_facts x = oc_facts y"
    if "y \<in> set (pc_occurrences a @ pc_occurrences b)" for y
  proof (cases "y \<in> set (pc_occurrences a)")
    case False
    then have "oc_facts y \<in> oc_facts ` set (pc_occurrences a)" using C that by auto
    then show ?thesis by (metis imageE)
  qed blast
  have same: "oc_facts x = oc_facts y"
    if xy: "x \<in> set ?xs" "y \<in> set ?xs" "oc_repository x = oc_repository y" for x y
  proof -
    obtain x' y' where "x' \<in> set (pc_occurrences a)" "oc_facts x' = oc_facts x"
      "y' \<in> set (pc_occurrences a)" "oc_facts y' = oc_facts y"
      using reps[of x] reps[of y] xy by auto
    then show ?thesis
      using candidate_ok_repository_facts[of a x' y'] C xy(3) oc_facts_fields(1) by metis
  qed
  have "\<forall>x\<in>set ?xs. \<forall>d\<in>set (oc_distributions x). di_registry d = oc_registry x"
    using C by (auto simp: candidate_ok_def)
  then obtain ns where ns: "try_fold push_occurrence [] ?xs = Inr ns"
    using push_occurrences_succeed[OF by_repository.sorted_sort_by] same by blast
  have m: "merged_occurrences ?xs ns" using push_occurrences_ok[OF by_repository.sorted_sort_by ns] by blast
  have sub: "d \<in> set (pk_distributions (pc_release a))"
    if "x \<in> set ?xs" "d \<in> set (oc_distributions x)" for x d
    using C that by (auto simp: candidate_ok_def)
  then have apart: "keys_apart ?xs"
    using release_wf_inj[of "pc_release a"] C unfolding keys_apart_def by (auto intro: inj_on_subset)
  have subn: "set (oc_distributions n) \<subseteq> set (pk_distributions (pc_release a))" if "n \<in> set ns" for n
    using merged_source[OF m that] sub by blast
  have cover: "ns \<noteq> [] \<and> set (pk_distributions (pc_release a)) \<subseteq> (\<Union>oc\<in>set ns. set (oc_distributions oc))"
    if "pc_exposure a = NoExposure"
  proof -
    have facts: "oc_facts ` set ns = oc_facts ` set ?xs" using m by (simp add: merged_occurrences_def)
    have "\<exists>n\<in>set ns. d \<in> set (oc_distributions n)" if d: "x \<in> set ?xs" "d \<in> set (oc_distributions x)" for x d
    proof -
      obtain n where n: "n \<in> set ns" "oc_facts n = oc_facts x" using facts d(1) by (metis imageE imageI)
      then have "set (oc_distributions n) = (\<Union>y\<in>{y \<in> set ?xs. oc_facts y = oc_facts n}. set (oc_distributions y))"
        using m apart unfolding merged_occurrences_def by blast
      then show ?thesis using n d by auto
    qed
    moreover have "pc_occurrences a \<noteq> []"
      and "set (pk_distributions (pc_release a)) \<subseteq> (\<Union>oc\<in>set (pc_occurrences a). set (oc_distributions oc))"
      using C that unfolding candidate_ok_def by blast+
    moreover from this(1) have "ns \<noteq> []" using facts by (cases ns) auto
    ultimately show ?thesis by fastforce
  qed
  have norm: "normalize_and_validate ?c = Inr (?c\<lparr>pc_occurrences := sort_by cmp_by_rank ns\<rparr>)"
    unfolding normalize_Inr_iff using ns cover subn C by (auto simp: candidate_ok_def)
  let ?m = "?c\<lparr>pc_occurrences := sort_by cmp_by_rank ns\<rparr>"
  have merged: "candidate_merge a b = Inr ?m"
    using C release norm by (simp add: candidate_merge_def merge_exposure_def) (cases "pc_exposure b"; simp)
  moreover have "oc_facts ` set (pc_occurrences ?m) = oc_facts ` set (pc_occurrences b)"
    using m C by (simp add: merged_occurrences_def image_Un)
  ultimately have "compatible ?m b"
    using C normalize_Inr(1)[OF norm] by (simp add: compatible_def pc_identity_def)
  then show ?thesis using merged by auto
qed

end
