(* ===== verification/Loaders.thy ===== *)
theory Loaders
  imports Candidates
begin

text \<open>
  \<^verbatim>\<open>rsolve-core/src/resolution.rs\<close> and the candidate loaders: the repository loader and the
  composite loader of \<^verbatim>\<open>rsolve/src/orchestration\<close>, and the R base overlay of
  \<^verbatim>\<open>rsolve-resolver/src/lib.rs\<close>.  A loader is its \<^verbatim>\<open>load\<close> function; the providers' raw loaders
  are arguments.
\<close>

section \<open>Load results and resolutions\<close>

datatype candidate_load_error_category =
  NotFound | SnapshotInvalid | TransportFailure | MetadataInvalid | AuthenticationFailed | Cancelled

record candidate_load_error =
  le_category :: candidate_load_error_category
  le_diagnostic :: string

definition candidate_load_error_new :: "candidate_load_error_category \<Rightarrow> string \<Rightarrow> candidate_load_error" where
  "candidate_load_error_new category diagnostic = \<lparr>le_category = category, le_diagnostic = diagnostic\<rparr>"

fun debug_category :: "candidate_load_error_category \<Rightarrow> string" where
  "debug_category NotFound = ''NotFound''"
| "debug_category SnapshotInvalid = ''SnapshotInvalid''"
| "debug_category TransportFailure = ''TransportFailure''"
| "debug_category MetadataInvalid = ''MetadataInvalid''"
| "debug_category AuthenticationFailed = ''AuthenticationFailed''"
| "debug_category Cancelled = ''Cancelled''"

definition candidate_load_error_display :: "candidate_load_error \<Rightarrow> string" where
  "candidate_load_error_display e = debug_category (le_category e) @ '': '' @ le_diagnostic e"

record quarantined_candidate =
  qc_version :: r_package_version
  qc_diagnostic :: string

definition quarantined_eq :: "quarantined_candidate \<Rightarrow> quarantined_candidate \<Rightarrow> bool" where
  "quarantined_eq a b = (version_eq (qc_version a) (qc_version b) \<and> qc_diagnostic a = qc_diagnostic b)"

record candidate_load_result =
  lr_candidates :: "prepared_candidate list"
  lr_quarantined :: "quarantined_candidate list"

definition candidate_load_result_new ::
  "prepared_candidate list \<Rightarrow> quarantined_candidate list \<Rightarrow> candidate_load_result" where
  "candidate_load_result_new candidates quarantined =
     \<lparr>lr_candidates = candidates, lr_quarantined = quarantined\<rparr>"

type_synonym loader = "solver_key \<Rightarrow> candidate_load_error + candidate_load_result"

record resolved_package =
  rp_subject :: solver_key
  rp_release :: package_release
  rp_effective_dependencies :: "resolved_dependency_edge list"
  rp_visible_repository_ids :: "repository_id list"

definition rp_name :: "resolved_package \<Rightarrow> package_name" where
  "rp_name p = ri_name (pk_identity (rp_release p))"

record resolution =
  rs_target :: resolution_target
  rs_packages :: "resolved_package list"

definition resolution_new :: "resolution_target \<Rightarrow> resolved_package list \<Rightarrow> resolution" where
  "resolution_new target packages =
     \<lparr>rs_target = target,
      rs_packages = sort_by (\<lambda>left right. cmp_of (rp_name left) (rp_name right))
        (filter (\<lambda>p. \<not> is_r_base_package (rp_release p)) packages)\<rparr>"

definition selected :: "resolution \<Rightarrow> package_name \<Rightarrow> package_release option" where
  "selected r name = map_option rp_release (find (\<lambda>p. rp_name p = name) (rs_packages r))"

section \<open>The repository loader\<close>

record raw_candidate_observation =
  ro_release :: package_release
  ro_currentness :: candidate_currentness

record raw_candidate_load_result =
  rl_observations :: "raw_candidate_observation list"
  rl_quarantined :: "quarantined_candidate list"

definition currentness_for_release :: "package_release \<Rightarrow> candidate_currentness" where
  "currentness_for_release release =
     (if list_ex (\<lambda>d. di_snapshot d = None) (pk_distributions release) then Current else Historical)"

record repository_candidate_loader =
  rcl_raw :: "solver_key \<Rightarrow> candidate_load_error + raw_candidate_load_result"
  rcl_repository :: repository_id
  rcl_registry :: registry_id
  rcl_rank :: repository_rank
  rcl_package_allowlist :: "package_name list option"

definition empty_load_result :: candidate_load_result where
  "empty_load_result = candidate_load_result_new [] []"

definition prepare_observation ::
  "repository_candidate_loader \<Rightarrow> raw_candidate_observation \<Rightarrow> candidate_load_error + prepared_candidate" where
  "prepare_observation l observation =
     bind_res
       (map_err (\<lambda>e. candidate_load_error_new MetadataInvalid
            (''invalid provider occurrence: '' @ repository_occurrence_error_display e))
         (repository_occurrence_new (rcl_repository l) (rcl_registry l) Available
            (ro_currentness observation) (rcl_rank l) (pk_distributions (ro_release observation))))
       (\<lambda>occurrence.
          map_err (\<lambda>e. candidate_load_error_new MetadataInvalid
              (''invalid prepared candidate: '' @ prepared_candidate_error_display e))
            (prepared_candidate_new (ro_release observation) NoExposure [occurrence]))"

definition repository_load :: "repository_candidate_loader \<Rightarrow> loader" where
  "repository_load l package =
     (if (case package of KeyRepository repository _ \<Rightarrow> repository \<noteq> rcl_repository l | _ \<Rightarrow> False)
      then Inr empty_load_result
      else case subject_name package of
             None \<Rightarrow> Inr empty_load_result
           | Some name \<Rightarrow>
               if (case rcl_package_allowlist l of Some packages \<Rightarrow> name \<notin> set packages | None \<Rightarrow> False)
               then Inr empty_load_result
               else
                 bind_res (rcl_raw l (KeyInstalledName name)) (\<lambda>raw.
                 bind_res (try_map (prepare_observation l) (rl_observations raw)) (\<lambda>candidates.
                 Inr (candidate_load_result_new
                        (filter (\<lambda>c. is_eligible_for c package) candidates) (rl_quarantined raw)))))"

section \<open>The composite loader\<close>

definition contextual_error :: "nat \<Rightarrow> candidate_load_error \<Rightarrow> candidate_load_error" where
  "contextual_error index e =
     candidate_load_error_new (le_category e) (''candidate source '' @ show_nat index @ '': '' @ le_diagnostic e)"

definition push_quarantined ::
  "quarantined_candidate list \<Rightarrow> quarantined_candidate \<Rightarrow> quarantined_candidate list" where
  "push_quarantined qs q = (if list_ex (\<lambda>e. quarantined_eq e q) qs then qs else qs @ [q])"

definition composite_step ::
  "solver_key \<Rightarrow> prepared_candidate_set \<times> quarantined_candidate list \<Rightarrow> nat \<times> loader \<Rightarrow>
   candidate_load_error + prepared_candidate_set \<times> quarantined_candidate list" where
  "composite_step subject acc il =
     (case snd il subject of
        Inl e \<Rightarrow> if le_category e = NotFound then Inr acc else Inl (contextual_error (fst il) e)
      | Inr result \<Rightarrow>
          map_res (\<lambda>candidates. (candidates, foldl push_quarantined (snd acc) (lr_quarantined result)))
            (map_err (\<lambda>e. candidate_load_error_new MetadataInvalid
                (''candidate source '' @ show_nat (fst il) @ '' produced a merge conflict: ''
                 @ prepared_candidate_error_display e))
              (try_fold candidate_set_insert (fst acc) (lr_candidates result))))"

definition composite_load ::
  "(prepared_candidate list \<Rightarrow> prepared_candidate list) \<Rightarrow> loader list \<Rightarrow> loader" where
  "composite_load iter loaders subject =
     map_res (\<lambda>(candidates, quarantined). candidate_load_result_new (set_candidates iter candidates) quarantined)
       (try_fold (composite_step subject) ([], []) (enumerate 0 loaders))"

section \<open>The R base overlay\<close>

definition r_base_package_names :: "string list" where
  "r_base_package_names =
     [''base'', ''compiler'', ''datasets'', ''graphics'', ''grDevices'', ''grid'', ''methods'',
      ''parallel'', ''splines'', ''stats'', ''stats4'', ''tcltk'', ''tools'', ''utils'']"

definition is_r_base_package_name :: "package_name \<Rightarrow> bool" where
  "is_r_base_package_name name = list_ex (\<lambda>candidate. candidate = name) r_base_package_names"

record r_base_package_overlay =
  ov_loader :: loader
  ov_base :: "(package_name \<times> package_release) list"
  ov_r_version :: r_package_version

definition overlay_release ::
  "(bytes \<Rightarrow> bytes) \<Rightarrow> r_package_version \<Rightarrow> string \<Rightarrow>
   candidate_load_error + package_name \<times> package_release" where
  "overlay_release sha r_version name =
     bind_res
       (map_err (\<lambda>e. candidate_load_error_new MetadataInvalid
            (''invalid R base package name '' @ name @ '': '' @ package_name_error_display e))
         (package_name_new name))
       (\<lambda>package.
     bind_res
       (map_err (\<lambda>e. candidate_load_error_new MetadataInvalid
            (''invalid R base package metadata: '' @ release_metadata_error_display e))
         (release_metadata_new []))
       (\<lambda>metadata.
          map_res (Pair package)
            (map_err (\<lambda>e. candidate_load_error_new MetadataInvalid
                (''invalid R base package release '' @ name @ '': '' @ package_release_error_display e))
              (package_release_try_from sha
                 \<lparr>ob_identity = release_identity_new package (RBasePackage r_version),
                  ob_observed_package = package, ob_observed_version = r_version,
                  ob_metadata = metadata, ob_publication = None,
                  ob_declared_dependencies = [], ob_distributions = []\<rparr>))))"

definition overlay_new ::
  "(bytes \<Rightarrow> bytes) \<Rightarrow> loader \<Rightarrow> r_package_version \<Rightarrow> candidate_load_error + r_base_package_overlay" where
  "overlay_new sha loader r_version =
     map_res (\<lambda>base. \<lparr>ov_loader = loader, ov_base = base, ov_r_version = r_version\<rparr>)
       (try_fold (\<lambda>base name.
            map_res (\<lambda>(package, release). bt_insert base package release)
              (overlay_release sha r_version name))
          [] r_base_package_names)"

definition overlay_base :: "r_base_package_overlay \<Rightarrow> solver_key \<Rightarrow> package_release option" where
  "overlay_base ov package =
     (case package of KeyInstalledName name \<Rightarrow> map_of (ov_base ov) name | _ \<Rightarrow> None)"

definition overlay_load :: "r_base_package_overlay \<Rightarrow> loader" where
  "overlay_load ov package =
     (case overlay_base ov package of
        Some release \<Rightarrow>
          map_res (\<lambda>c. candidate_load_result_new [c] [])
            (map_err (\<lambda>e. candidate_load_error_new MetadataInvalid
                (''invalid R base candidate: '' @ prepared_candidate_error_display e))
              (prepared_candidate_new release RuntimeInstalled []))
      | None \<Rightarrow> ov_loader ov package)"

section \<open>The contract of a loader\<close>

text \<open>
  What the resolver relies on: a loaded candidate satisfies the candidate invariant and is eligible
  for the subject it was loaded for.
\<close>

locale candidate_loader =
  fixes load :: loader
  assumes load_ok: "load k = Inr r \<Longrightarrow> c \<in> set (lr_candidates r) \<Longrightarrow> candidate_ok c"
    and load_eligible: "load k = Inr r \<Longrightarrow> c \<in> set (lr_candidates r) \<Longrightarrow> is_eligible_for c k"
begin

lemma load_name:
  assumes "load k = Inr r" "c \<in> set (lr_candidates r)"
  shows "subject_name k = Some (ri_name (pc_identity c))"
  using load_eligible[OF assms] by (auto simp: is_eligible_for_def split: option.splits if_splits)

lemma load_R: "load KeyR = Inr r \<Longrightarrow> lr_candidates r = []"
  using load_name[of KeyR r] by (cases "lr_candidates r") auto

end

lemma prepare_observation_Inr:
  assumes "prepare_observation l ob = Inr c"
  shows "candidate_ok c" and "pc_release c = ro_release ob"
  using assms normalize_Inr
  by (auto simp: prepare_observation_def bind_res_Inr_iff prepared_candidate_new_def)

lemma repository_load_Inr:
  assumes "repository_load l k = Inr r" "c \<in> set (lr_candidates r)"
  shows "\<exists>obs candidates.
    try_map (prepare_observation l) obs = Inr candidates \<and> c \<in> set candidates
    \<and> is_eligible_for c k"
proof -
  obtain name where "subject_name k = Some name"
    using assms by (cases "subject_name k")
      (auto simp: repository_load_def empty_load_result_def candidate_load_result_new_def split: if_splits)
  then show ?thesis
    using assms by (auto simp: repository_load_def empty_load_result_def candidate_load_result_new_def
        bind_res_Inr_iff split: if_splits) blast
qed

interpretation repository_loader: candidate_loader "repository_load l" for l
proof
  fix k r c
  assume load: "repository_load l k = Inr r" and c: "c \<in> set (lr_candidates r)"
  then obtain obs candidates where cs: "try_map (prepare_observation l) obs = Inr candidates"
    and mem: "c \<in> set candidates" and el: "is_eligible_for c k"
    using repository_load_Inr by blast
  show "is_eligible_for c k" by (rule el)
  show "candidate_ok c"
    using try_map_mem[OF cs mem] prepare_observation_Inr by blast
qed

section \<open>The composite loader meets the contract\<close>

text \<open>
  The fold over the loaders collects the candidates of the loaders that answered, in order.
\<close>

definition answers :: "loader list \<Rightarrow> solver_key \<Rightarrow> candidate_load_result list" where
  "answers loaders k = concat (map (\<lambda>l. case l k of Inr r \<Rightarrow> [r] | Inl _ \<Rightarrow> []) loaders)"

lemma composite_fold:
  assumes "try_fold (composite_step k) acc (enumerate n loaders) = Inr acc'"
  shows "try_fold candidate_set_insert (fst acc) (concat (map lr_candidates (answers loaders k))) = Inr (fst acc') \<and>
         (\<forall>l\<in>set loaders. \<forall>e. l k = Inl e \<longrightarrow> le_category e = NotFound)"
  using assms
proof (induction loaders arbitrary: n acc)
  case (Cons l loaders)
  obtain mid where step: "composite_step k acc (n, l) = Inr mid"
    and rest: "try_fold (composite_step k) mid (enumerate (Suc n) loaders) = Inr acc'"
    using Cons.prems by (auto simp: bind_res_Inr_iff)
  show ?case
  proof (cases "l k")
    case (Inl e)
    then show ?thesis
      using step Cons.IH[OF rest] by (simp add: composite_step_def answers_def split: if_splits)
  next
    case (Inr r)
    then have "try_fold candidate_set_insert (fst acc) (lr_candidates r) = Inr (fst mid)"
      using step by (auto simp: composite_step_def map_res_Inr_iff)
    then show ?thesis
      using Inr Cons.IH[OF rest] by (simp add: answers_def try_fold_append)
  qed
qed (simp add: answers_def)

lemma composite_load_Inr:
  assumes "composite_load iter loaders k = Inr r"
  shows "\<exists>cs. from_candidates (concat (map lr_candidates (answers loaders k))) = Inr cs \<and>
           lr_candidates r = set_candidates iter cs"
    and "l \<in> set loaders \<Longrightarrow> l k = Inl e \<Longrightarrow> le_category e = NotFound"
proof -
  obtain cs qs where fold: "try_fold (composite_step k) ([], []) (enumerate 0 loaders) = Inr (cs, qs)"
    and r: "r = candidate_load_result_new (set_candidates iter cs) qs"
    using assms by (auto simp: composite_load_def map_res_Inr_iff)
  note F = composite_fold[OF fold]
  show "\<exists>cs. from_candidates (concat (map lr_candidates (answers loaders k))) = Inr cs \<and>
          lr_candidates r = set_candidates iter cs"
    using F by (auto simp: r candidate_load_result_new_def from_candidates_def)
  show "l \<in> set loaders \<Longrightarrow> l k = Inl e \<Longrightarrow> le_category e = NotFound" using F by blast
qed

lemma push_quarantined_known:
  "list_ex (\<lambda>e. quarantined_eq e q) (foldl push_quarantined qs ps) \<longleftrightarrow>
     list_ex (\<lambda>e. quarantined_eq e q) qs \<or> list_ex (\<lambda>e. quarantined_eq e q) ps"
proof (induction ps arbitrary: qs)
  case (Cons p ps)
  have "quarantined_eq e q \<longleftrightarrow> quarantined_eq p q" if "quarantined_eq e p" for e
    using that by (auto simp: quarantined_eq_def intro: vers_eq.eq_trans vers_eq.eq_sym)
  then show ?case using Cons.IH by (auto simp: push_quarantined_def list_ex_iff)
qed simp

lemma push_quarantined_apart:
  "sorted_wrt (\<lambda>a b. \<not> quarantined_eq a b) qs \<Longrightarrow> sorted_wrt (\<lambda>a b. \<not> quarantined_eq a b) (foldl push_quarantined qs ps)"
  by (induction ps arbitrary: qs) (auto simp: push_quarantined_def sorted_wrt_append list_ex_iff)

lemma composite_fold_Inr_iff:
  "try_fold (composite_step k) ([], []) (enumerate 0 loaders) = Inr (cs, qs) \<longleftrightarrow>
     (\<forall>l\<in>set loaders. \<forall>e. l k = Inl e \<longrightarrow> le_category e = NotFound) \<and>
     from_candidates (concat (map lr_candidates (answers loaders k))) = Inr cs \<and>
     qs = foldl push_quarantined [] (concat (map lr_quarantined (answers loaders k)))"
proof (induction loaders arbitrary: cs qs rule: rev_induct)
  case (snoc l loaders)
  have ans: "answers (loaders @ [l]) k = answers loaders k @ (case l k of Inr r \<Rightarrow> [r] | Inl _ \<Rightarrow> [])"
    by (simp add: answers_def)
  have "try_fold (composite_step k) ([], []) (enumerate 0 (loaders @ [l])) = Inr (cs, qs) \<longleftrightarrow>
     (\<exists>c q. try_fold (composite_step k) ([], []) (enumerate 0 loaders) = Inr (c, q) \<and>
            composite_step k (c, q) (length loaders, l) = Inr (cs, qs))"
    by (auto simp: enumerate_append_eq try_fold_append bind_res_Inr_iff)
  also have "\<dots> \<longleftrightarrow>
     (\<forall>l\<in>set loaders. \<forall>e. l k = Inl e \<longrightarrow> le_category e = NotFound) \<and>
     (\<exists>c. from_candidates (concat (map lr_candidates (answers loaders k))) = Inr c \<and>
          composite_step k (c, foldl push_quarantined [] (concat (map lr_quarantined (answers loaders k))))
            (length loaders, l) = Inr (cs, qs))"
    unfolding snoc.IH by blast
  also have "\<dots> \<longleftrightarrow>
     (\<forall>l\<in>set (loaders @ [l]). \<forall>e. l k = Inl e \<longrightarrow> le_category e = NotFound) \<and>
     from_candidates (concat (map lr_candidates (answers (loaders @ [l]) k))) = Inr cs \<and>
     qs = foldl push_quarantined [] (concat (map lr_quarantined (answers (loaders @ [l]) k)))"
    by (cases "l k") (auto simp: composite_step_def ans map_res_Inr_iff from_candidates_def try_fold_append bind_res_Inr_iff)
  finally show ?case .
qed (auto simp: answers_def from_candidates_def)

lemma composite_load_Inr_iff:
  "composite_load iter loaders k = Inr r \<longleftrightarrow>
     (\<forall>l\<in>set loaders. \<forall>e. l k = Inl e \<longrightarrow> le_category e = NotFound) \<and>
     (\<exists>cs. from_candidates (concat (map lr_candidates (answers loaders k))) = Inr cs \<and>
       r = candidate_load_result_new (set_candidates iter cs)
             (foldl push_quarantined [] (concat (map lr_quarantined (answers loaders k)))))"
  unfolding composite_load_def map_res_Inr_iff split_paired_Ex composite_fold_Inr_iff by auto

text \<open>
  The loader that makes the composite fail: it reports an error of its own, or its candidates cannot be
  united with those of the loaders before it.
\<close>

lemma composite_load_Inl_iff:
  "composite_load iter loaders k = Inl err \<longleftrightarrow>
     (\<exists>pre l post cs. loaders = pre @ l # post \<and>
        (\<forall>l\<in>set pre. \<forall>e. l k = Inl e \<longrightarrow> le_category e = NotFound) \<and>
        from_candidates (concat (map lr_candidates (answers pre k))) = Inr cs \<and>
        ((\<exists>e. l k = Inl e \<and> le_category e \<noteq> NotFound \<and> err = contextual_error (length pre) e) \<or>
         (\<exists>r e. l k = Inr r \<and> from_candidates (concat (map lr_candidates (answers pre k)) @ lr_candidates r) = Inl e \<and>
            err = candidate_load_error_new MetadataInvalid
              (''candidate source '' @ show_nat (length pre) @ '' produced a merge conflict: '' @
               prepared_candidate_error_display e))))"
proof -
  have step: "composite_step k (cs, qs) (n, l) = Inl err \<longleftrightarrow>
      (\<exists>e. l k = Inl e \<and> le_category e \<noteq> NotFound \<and> err = contextual_error n e) \<or>
      (\<exists>r e. l k = Inr r \<and> from_candidates (xs @ lr_candidates r) = Inl e \<and>
         err = candidate_load_error_new MetadataInvalid
           (''candidate source '' @ show_nat n @ '' produced a merge conflict: '' @ prepared_candidate_error_display e))"
    if "from_candidates xs = Inr cs" for cs qs n l xs
    using that by (cases "l k"; cases "try_fold candidate_set_insert cs (lr_candidates (projr (l k)))")
      (auto simp: composite_step_def from_candidates_def try_fold_append)
  have "composite_load iter loaders k = Inl err \<longleftrightarrow> try_fold (composite_step k) ([], []) (enumerate 0 loaders) = Inl err"
    by (cases "try_fold (composite_step k) ([], []) (enumerate 0 loaders)") (auto simp: composite_load_def)
  also have "\<dots> \<longleftrightarrow> (\<exists>pre l post cs qs. loaders = pre @ l # post \<and>
      try_fold (composite_step k) ([], []) (enumerate 0 pre) = Inr (cs, qs) \<and>
      composite_step k (cs, qs) (length pre, l) = Inl err)"
    unfolding try_fold_enumerate_Inl split_paired_Ex by simp
  also have "\<dots> \<longleftrightarrow> (\<exists>pre l post cs qs. loaders = pre @ l # post \<and>
      try_fold (composite_step k) ([], []) (enumerate 0 pre) = Inr (cs, qs) \<and>
      from_candidates (concat (map lr_candidates (answers pre k))) = Inr cs \<and>
      composite_step k (cs, qs) (length pre, l) = Inl err)"
    unfolding composite_fold_Inr_iff by blast
  finally show ?thesis
    unfolding composite_fold_Inr_iff by (simp add: step cong: conj_cong)
qed

lemma from_candidates_values:
  assumes "from_candidates xs = Inr cs" "c \<in> set (map snd cs)"
  shows "unites (filter (\<lambda>x. identity_eq (pc_identity x) (pc_identity c)) xs) c"
  using assms candidate_union.union_values
  by (simp only: from_candidates_def candidate_set_insert_union)

locale composite_loader =
  fixes iter :: "prepared_candidate list \<Rightarrow> prepared_candidate list" and loaders :: "loader list"
  assumes iter_perm: "mset (iter cs) = mset cs"
    and parts: "l \<in> set loaders \<Longrightarrow> candidate_loader l"
begin

lemma composite_candidate:
  assumes "composite_load iter loaders k = Inr r" "c \<in> set (lr_candidates r)"
  shows "candidate_ok c \<and> is_eligible_for c k"
proof -
  let ?all = "concat (map lr_candidates (answers loaders k))"
  obtain cs where cs: "from_candidates ?all = Inr cs" "lr_candidates r = set_candidates iter cs"
    using composite_load_Inr(1)[OF assms(1)] by blast
  have "set (iter (map snd cs)) = set (map snd cs)" using iter_perm by (metis set_mset_mset)
  then have mem: "c \<in> set (map snd cs)" using assms(2) cs(2) by (simp add: set_candidates_def)
  have all: "candidate_ok x \<and> is_eligible_for x k" if mem: "x \<in> set ?all" for x
  proof -
    obtain l r where "l \<in> set loaders" "l k = Inr r" "x \<in> set (lr_candidates r)"
      using mem by (auto simp: answers_def dest: sym split: sum.splits)
    then show ?thesis
      using candidate_loader.load_ok[OF parts] candidate_loader.load_eligible[OF parts] by blast
  qed
  obtain x where x: "x \<in> set ?all" "identity_eq (pc_identity x) (pc_identity c)"
    using candidate_union.union_source[OF cs(1)[unfolded from_candidates_def candidate_set_insert_union] mem]
    by blast
  show ?thesis
    using from_candidates_values[OF cs(1) mem] all x by (auto simp: unites_def)
qed

lemma composite_is_loader: "candidate_loader (composite_load iter loaders)"
  by unfold_locales (use composite_candidate in blast)+

end

sublocale composite_loader \<subseteq> candidate_loader "composite_load iter loaders"
  by (rule composite_is_loader)

text \<open>Repositories under the composite loader, in whatever order its hash map hands the candidates out.\<close>

lemma repositories_composite:
  assumes "\<And>cs. mset (iter cs) = mset cs"
  shows "composite_loader iter (map repository_load ls)"
proof (rule composite_loader.intro)
  fix l assume "l \<in> set (map repository_load ls)"
  then show "candidate_loader l" using repository_loader.candidate_loader_axioms by auto
qed (rule assms)

interpretation repositories: composite_loader "\<lambda>cs. cs" "map repository_load ls" for ls
  by (rule repositories_composite) simp

section \<open>The overlay meets the contract\<close>

lemma overlay_release_Inr:
  "overlay_release sha v name = Inr (package, release) \<Longrightarrow>
     package = name \<and> pk_identity release = release_identity_new name (RBasePackage v)
     \<and> pk_version release = v \<and> pk_declared_dependencies release = [] \<and> pk_distributions release = []
     \<and> pk_publication release = None"
  by (auto simp: overlay_release_def bind_res_Inr_iff map_res_Inr_iff package_name_new_Inr_iff
      package_release_try_from_Inr_iff canonicalize_distributions_def)

definition base_release :: "r_package_version \<Rightarrow> package_name \<Rightarrow> package_release \<Rightarrow> bool" where
  "base_release v name release =
     (pk_identity release = release_identity_new name (RBasePackage v) \<and> pk_version release = v
      \<and> pk_declared_dependencies release = [] \<and> pk_distributions release = []
      \<and> pk_publication release = None)"

lemma overlay_fold:
  assumes "try_fold (\<lambda>base name. map_res (\<lambda>(package, release). bt_insert base package release)
             (overlay_release sha v name)) base names = Inr base'"
    and "sorted_wrt (<) (map fst base)"
  shows "sorted_wrt (<) (map fst base') \<and> dom (map_of base') = dom (map_of base) \<union> set names \<and>
         (\<forall>n r. map_of base' n = Some r \<longrightarrow> map_of base n = Some r \<or> base_release v n r)"
  using assms
proof (induction names arbitrary: base)
  case (Cons n names)
  obtain p r where pr: "overlay_release sha v n = Inr (p, r)"
    and rest: "try_fold (\<lambda>base name. map_res (\<lambda>(package, release). bt_insert base package release)
             (overlay_release sha v name)) (bt_insert base p r) names = Inr base'"
    using Cons.prems(1) by (auto simp: bind_res_Inr_iff map_res_Inr_iff)
  have "p = n" "base_release v n r" using overlay_release_Inr[OF pr] by (simp_all add: base_release_def)
  moreover note IH = Cons.IH[OF rest sorted_bt_insert[OF Cons.prems(2)]]
  ultimately show ?case
    using IH by (auto simp: map_of_bt_insert[OF Cons.prems(2)] split: if_splits)
qed simp

lemma overlay_new_Inr:
  assumes "overlay_new sha loader v = Inr ov"
  shows "ov_loader ov = loader" and "ov_r_version ov = v"
    and "dom (map_of (ov_base ov)) = set r_base_package_names"
    and "map_of (ov_base ov) n = Some r \<Longrightarrow> base_release v n r"
proof -
  obtain base where ov: "ov = \<lparr>ov_loader = loader, ov_base = base, ov_r_version = v\<rparr>"
    and fold: "try_fold (\<lambda>base name. map_res (\<lambda>(package, release). bt_insert base package release)
             (overlay_release sha v name)) [] r_base_package_names = Inr base"
    using assms by (auto simp: overlay_new_def map_res_Inr_iff)
  have F: "dom (map_of base) = set r_base_package_names"
    "\<And>n r. map_of base n = Some r \<Longrightarrow> base_release v n r"
    using overlay_fold[OF fold] by auto
  then show "ov_loader ov = loader" "ov_r_version ov = v"
    "dom (map_of (ov_base ov)) = set r_base_package_names"
    "map_of (ov_base ov) n = Some r \<Longrightarrow> base_release v n r"
    by (simp_all add: ov)
qed

text \<open>The construction of the overlay never fails: the fixed names are valid package names.\<close>

lemma r_base_names_valid: "list_all (\<lambda>n. package_name_new n = Inr n) r_base_package_names"
  by code_simp

lemma overlay_release_ok:
  assumes "name \<in> set r_base_package_names"
  shows "\<exists>release. overlay_release sha v name = Inr (name, release)"
proof -
  have "package_name_new name = Inr name"
    using assms r_base_names_valid by (simp add: list_all_iff)
  then show ?thesis
    by (simp add: overlay_release_def release_metadata_new_def package_release_try_from_def
        release_identity_new_def vers_eq.eq_refl)
qed

lemma overlay_new_ok: "\<exists>ov. overlay_new sha loader v = Inr ov"
proof -
  have "\<exists>out. try_fold (\<lambda>base name. map_res (\<lambda>(package, release). bt_insert base package release)
          (overlay_release sha v name)) base names = Inr out"
    if "set names \<subseteq> set r_base_package_names" for base names
    using that
  proof (induction names arbitrary: base)
    case (Cons n names)
    then obtain release where "overlay_release sha v n = Inr (n, release)"
      using overlay_release_ok[of n sha v] by auto
    then show ?case using Cons by simp
  qed simp
  then show ?thesis by (auto simp: overlay_new_def map_res_Inr_iff)
qed

lemma overlay_candidate:
  assumes "base_release v n release"
  shows "prepared_candidate_new release RuntimeInstalled [] =
           Inr \<lparr>pc_release = release, pc_exposure = RuntimeInstalled, pc_occurrences = []\<rparr>"
  using assms
  by (simp add: prepared_candidate_new_def normalize_and_validate_def base_release_def
      is_r_base_package_def release_identity_new_def)

locale overlay_loader = candidate_loader inner for inner :: loader +
  fixes sha :: "bytes \<Rightarrow> bytes" and v :: r_package_version and ov :: r_base_package_overlay
  assumes built: "overlay_new sha inner v = Inr ov"
begin

lemma overlay_load_base:
  assumes "n \<in> set r_base_package_names"
  shows "\<exists>release. base_release v n release \<and>
           overlay_load ov (KeyInstalledName n) =
             Inr \<lparr>lr_candidates = [\<lparr>pc_release = release, pc_exposure = RuntimeInstalled, pc_occurrences = []\<rparr>],
                  lr_quarantined = []\<rparr>"
proof -
  note O = overlay_new_Inr[OF built]
  obtain release where r: "map_of (ov_base ov) n = Some release" using assms O(3) by blast
  then show ?thesis
    using O(4)[OF r] overlay_candidate[OF O(4)[OF r]]
    by (auto simp: overlay_load_def overlay_base_def candidate_load_result_new_def)
qed

lemma overlay_load_other:
  assumes "\<And>n. k = KeyInstalledName n \<Longrightarrow> n \<notin> set r_base_package_names"
  shows "overlay_load ov k = inner k"
proof -
  note O = overlay_new_Inr[OF built]
  have "overlay_base ov k = None"
    using assms O(3) by (cases k) (auto simp: overlay_base_def domIff set_eq_iff)
  then show ?thesis by (simp add: overlay_load_def O(1))
qed

lemma overlay_sound:
  assumes "overlay_load ov k = Inr r" "c \<in> set (lr_candidates r)"
  shows "candidate_ok c \<and> is_eligible_for c k"
proof (cases "\<exists>n\<in>set r_base_package_names. k = KeyInstalledName n")
  case True
  then obtain n release where n: "k = KeyInstalledName n" "base_release v n release"
    "c = \<lparr>pc_release = release, pc_exposure = RuntimeInstalled, pc_occurrences = []\<rparr>"
    using overlay_load_base assms by force
  then show ?thesis
    by (simp add: candidate_ok_def is_eligible_iff pc_identity_def base_release_def
        release_identity_new_def is_r_base_package_def)
next
  case False
  then have "overlay_load ov k = inner k" by (intro overlay_load_other) auto
  then have "inner k = Inr r" using assms(1) by metis
  then show ?thesis using load_ok load_eligible assms(2) by blast
qed

end

sublocale overlay_loader \<subseteq> shadowed: candidate_loader "overlay_load ov"
  by unfold_locales (use overlay_sound in blast)+

lemma overlay_stack:
  assumes "\<And>cs. mset (iter cs) = mset cs" and "overlay_new sha (composite_load iter (map repository_load ls)) v = Inr ov"
  shows "overlay_loader (composite_load iter (map repository_load ls)) sha v ov"
  by (intro overlay_loader.intro overlay_loader_axioms.intro assms(2) composite_loader.composite_is_loader
      repositories_composite assms(1))

interpretation base_overlay: overlay_loader "composite_load (\<lambda>cs. cs) (map repository_load ls)" sha v
  "projr (overlay_new sha (composite_load (\<lambda>cs. cs) (map repository_load ls)) v)" for ls sha v
proof (intro overlay_loader.intro overlay_loader_axioms.intro)
  show "candidate_loader (composite_load (\<lambda>cs. cs) (map repository_load ls))"
    by (rule repositories.candidate_loader_axioms)
  show "overlay_new sha (composite_load (\<lambda>cs. cs) (map repository_load ls)) v =
          Inr (projr (overlay_new sha (composite_load (\<lambda>cs. cs) (map repository_load ls)) v))"
    using overlay_new_ok[of sha "composite_load (\<lambda>cs. cs) (map repository_load ls)" v] by auto
qed

section \<open>Well-formed releases\<close>

text \<open>
  The releases of a provider are built by \<^verbatim>\<open>PackageRelease::try_from\<close>, so they are in canonical form;
  every loader hands the form on.
\<close>

definition raw_wf :: "repository_candidate_loader \<Rightarrow> bool" where
  "raw_wf l \<longleftrightarrow>
     (\<forall>k raw ob. rcl_raw l k = Inr raw \<longrightarrow> ob \<in> set (rl_observations raw) \<longrightarrow> release_wf (ro_release ob))"

definition hands_on_wf :: "loader \<Rightarrow> bool" where
  "hands_on_wf load \<longleftrightarrow> (\<forall>k r c. load k = Inr r \<longrightarrow> c \<in> set (lr_candidates r) \<longrightarrow> release_wf (pc_release c))"

lemma repository_load_wf: "raw_wf l \<Longrightarrow> hands_on_wf (repository_load l)"
  unfolding hands_on_wf_def
proof (intro allI impI)
  fix k r c
  assume wf: "raw_wf l" and load: "repository_load l k = Inr r" and c: "c \<in> set (lr_candidates r)"
  obtain name where "subject_name k = Some name"
    using load c by (cases "subject_name k")
      (auto simp: repository_load_def empty_load_result_def candidate_load_result_new_def split: if_splits)
  then obtain raw candidates where raw: "rcl_raw l (KeyInstalledName name) = Inr raw"
    and cs: "try_map (prepare_observation l) (rl_observations raw) = Inr candidates" and mem: "c \<in> set candidates"
    using load c
    by (auto simp: repository_load_def empty_load_result_def candidate_load_result_new_def
        bind_res_Inr_iff split: if_splits)
  obtain ob where "ob \<in> set (rl_observations raw)" "prepare_observation l ob = Inr c"
    using try_map_mem[OF cs mem] by blast
  then show "release_wf (pc_release c)"
    using prepare_observation_Inr(2)[of l ob c] wf raw unfolding raw_wf_def by metis
qed

lemma composite_load_wf:
  assumes "\<And>l. l \<in> set loaders \<Longrightarrow> hands_on_wf l" and iter: "\<And>cs. mset (iter cs) = mset cs"
  shows "hands_on_wf (composite_load iter loaders)"
  unfolding hands_on_wf_def
proof (intro allI impI)
  fix k r c
  assume load: "composite_load iter loaders k = Inr r" and c: "c \<in> set (lr_candidates r)"
  let ?all = "concat (map lr_candidates (answers loaders k))"
  obtain cs where cs: "from_candidates ?all = Inr cs" "lr_candidates r = iter (map snd cs)"
    using composite_load_Inr(1)[OF load] by (auto simp: set_candidates_def)
  have mem: "c \<in> set (map snd cs)" using c cs(2) iter[of "map snd cs"] by (metis set_mset_mset)
  have "release_wf (pc_release x)" if mem: "x \<in> set ?all" for x
  proof -
    obtain l r where "l \<in> set loaders" "l k = Inr r" "x \<in> set (lr_candidates r)"
      using mem by (auto simp: answers_def dest: sym split: sum.splits)
    then show ?thesis using assms(1) unfolding hands_on_wf_def by blast
  qed
  then show "release_wf (pc_release c)"
    using from_candidates_values[OF cs(1) mem] by (auto simp: unites_def)
qed

lemma overlay_load_wf:
  assumes "overlay_new sha loader v = Inr ov" and "hands_on_wf loader"
  shows "hands_on_wf (overlay_load ov)"
  unfolding hands_on_wf_def
proof (intro allI impI)
  fix k r c
  assume load: "overlay_load ov k = Inr r" and c: "c \<in> set (lr_candidates r)"
  note O = overlay_new_Inr[OF assms(1)]
  show "release_wf (pc_release c)"
  proof (cases "overlay_base ov k")
    case None
    then show ?thesis using load c assms(2) by (simp add: overlay_load_def O(1) hands_on_wf_def)
  next
    case (Some release)
    then obtain n where n: "base_release v n release"
      using O(4) by (cases k) (auto simp: overlay_base_def)
    then show ?thesis
      using load c Some overlay_candidate[OF n]
      by (auto simp: overlay_load_def candidate_load_result_new_def release_wf_def base_release_def
          canonicalize_distributions_def)
  qed
qed

end
