(* ===== verification/Repository_Spec.thy ===== *)
theory Repository_Spec
  imports Metadata
begin

text \<open>
  \<^verbatim>\<open>rsolve/src/manifest/repository.rs\<close> and the errors of \<^verbatim>\<open>manifest.rs\<close>: endpoints and their path
  normalization, registries, repository specifications with their package allowlists, and the
  normalization of the relative paths a manifest names.  The \<^verbatim>\<open>url\<close> crate is not part of the
  repository: what the code calls of it is the record \<open>url_api\<close>.  A \<^verbatim>\<open>PathBuf\<close> is the text it displays.
\<close>

section \<open>Errors\<close>

datatype manifest_error =
    RIsNotAPackageRequirement
  | DuplicateRequirement package_name
  | InvalidDependency string
  | Toml string
  | ManifestIo string string
  | ManifestNotFound string
  | UnknownSchema int
  | MissingField string
  | InvalidField string string
  | UnknownField string
  | WrongType string string
  | UnknownRegistryKind string
  | InvalidRegistry string
  | InvalidRepository string
  | DuplicateRepository repository_id
  | EmptyRepositoryPackageAllowlist repository_id
  | InvalidRepositoryPackage repository_id string string
  | DuplicateRepositoryPackage repository_id package_name
  | RepositoryPackageNotAllowed repository_id package_name
  | ManifestNoVisibleRepository package_name
  | UnknownRepositoryReference repository_id string
  | UnknownEnvironmentGroup string string
  | DuplicateEnvironmentGroup string string
  | UnknownEnvironment string
  | InvalidVersionConstraint string string
  | TargetOutsideRConstraint string string
  | DirectSourceRequiresAcquisition package_name
  | InvalidIdentifier string string
  | InvalidEndpoint string string
  | SourceConflict string
  | InvalidDependencyField string string

text \<open>Text in backquotes, as the messages quote identifiers.\<close>

definition quoted :: "string \<Rightarrow> string" where
  "quoted s = CHR 0x60 # s @ [CHR 0x60]"

fun manifest_error_display :: "manifest_error \<Rightarrow> string" where
  "manifest_error_display RIsNotAPackageRequirement =
     ''R is expressed by the manifest R constraint, not a package requirement''"
| "manifest_error_display (DuplicateRequirement name) = ''manifest has duplicate direct requirement '' @ name"
| "manifest_error_display (InvalidDependency e) = ''invalid package requirement: '' @ e"
| "manifest_error_display (Toml e) = ''invalid manifest TOML: '' @ e"
| "manifest_error_display (ManifestIo path source) = ''failed to read manifest '' @ path @ '': '' @ source"
| "manifest_error_display (ManifestNotFound start) =
     ''no rsolve.toml found from '' @ start @ '' to filesystem root''"
| "manifest_error_display (UnknownSchema schema) = ''unsupported manifest schema '' @ show_int schema"
| "manifest_error_display (MissingField field) = ''manifest is missing required field '' @ quoted field"
| "manifest_error_display (InvalidField field reason) =
     ''invalid manifest field '' @ quoted field @ '': '' @ reason"
| "manifest_error_display (UnknownField field) = ''unknown manifest field '' @ quoted field"
| "manifest_error_display (WrongType field expected) =
     ''manifest field '' @ quoted field @ '' must be '' @ expected"
| "manifest_error_display (UnknownRegistryKind kind) = ''unknown registry kind '' @ quoted kind"
| "manifest_error_display (InvalidRegistry reason) = ''invalid registry specification: '' @ reason"
| "manifest_error_display (InvalidRepository reason) = ''invalid repository: '' @ reason"
| "manifest_error_display (DuplicateRepository rid) = ''duplicate repository ID '' @ quoted rid"
| "manifest_error_display (EmptyRepositoryPackageAllowlist rid) =
     ''repository '' @ quoted rid @ '' package allowlist must contain at least one package''"
| "manifest_error_display (InvalidRepositoryPackage repository v reason) =
     ''repository '' @ quoted repository @ '' has invalid package '' @ quoted v @ '': '' @ reason"
| "manifest_error_display (DuplicateRepositoryPackage repository package) =
     ''repository '' @ quoted repository @ '' package allowlist repeats '' @ quoted package"
| "manifest_error_display (RepositoryPackageNotAllowed repository package) =
     ''package '' @ quoted package @ '' is not allowed by repository '' @ quoted repository"
| "manifest_error_display (ManifestNoVisibleRepository package) =
     ''no configured repository allows package '' @ quoted package"
| "manifest_error_display (UnknownRepositoryReference rid field) =
     ''dependency '' @ quoted field @ '' references unknown repository '' @ quoted rid"
| "manifest_error_display (UnknownEnvironmentGroup environment g) =
     ''environment '' @ quoted environment @ '' references unknown group '' @ quoted g"
| "manifest_error_display (DuplicateEnvironmentGroup environment g) =
     ''environment '' @ quoted environment @ '' references group '' @ quoted g @ '' more than once''"
| "manifest_error_display (UnknownEnvironment environment) = ''unknown environment '' @ quoted environment"
| "manifest_error_display (InvalidVersionConstraint field reason) =
     ''invalid version constraint '' @ quoted field @ '': '' @ reason"
| "manifest_error_display (TargetOutsideRConstraint target constraint) =
     ''target R version '' @ quoted target @ '' does not satisfy constraint '' @ quoted constraint"
| "manifest_error_display (DirectSourceRequiresAcquisition name) =
     ''direct source for '' @ quoted name @ '' requires acquisition before resolution''"
| "manifest_error_display (InvalidIdentifier kind v) = ''invalid '' @ kind @ '' identifier '' @ quoted v"
| "manifest_error_display (InvalidEndpoint v reason) = ''invalid endpoint '' @ quoted v @ '': '' @ reason"
| "manifest_error_display (SourceConflict field) =
     ''conflicting or unsupported source fields in '' @ quoted field"
| "manifest_error_display (InvalidDependencyField name reason) =
     ''invalid dependency '' @ quoted name @ '': '' @ reason"

section \<open>Path segments\<close>

datatype dot_segment = CurrentSegment | ParentSegment

text \<open>The scanning loop of \<^verbatim>\<open>dot_segment_kind\<close>: literal and percent-encoded dots only.\<close>

fun count_dots :: "string \<Rightarrow> nat \<Rightarrow> nat option" where
  "count_dots [] dots = Some dots"
| "count_dots (a # bs) dots =
     (if a = CHR ''.'' then count_dots bs (dots + 1)
      else case bs of
             b # c # rest \<Rightarrow>
               if a = CHR ''%'' \<and> b = CHR ''2'' \<and> (c = CHR ''e'' \<or> c = CHR ''E'')
               then count_dots rest (dots + 1) else None
           | _ \<Rightarrow> None)"

definition dot_segment_kind :: "string \<Rightarrow> dot_segment option" where
  "dot_segment_kind segment =
     (if segment = ''.'' then Some CurrentSegment
      else if segment = ''..'' then Some ParentSegment
      else case count_dots segment 0 of
             None \<Rightarrow> None
           | Some dots \<Rightarrow>
               if dots = 1 then Some CurrentSegment
               else if dots = 2 then Some ParentSegment
               else None)"

text \<open>One iteration of the loop of \<^verbatim>\<open>normalize_url_path\<close>.\<close>

definition url_path_step :: "string \<Rightarrow> string list \<Rightarrow> string \<Rightarrow> manifest_error + string list" where
  "url_path_step path parts part =
     (let escapes = Inl (InvalidEndpoint path ''path escapes the URL root'') in
      case dot_segment_kind part of
        Some CurrentSegment \<Rightarrow> Inr parts
      | Some ParentSegment \<Rightarrow>
          if parts = [] then escapes
          else if last parts = [] \<and> length parts = 1 \<and> starts_with ''/'' path then escapes
          else if butlast parts = [] \<and> starts_with ''/'' path then escapes
          else Inr (butlast parts)
      | None \<Rightarrow> Inr (parts @ [part]))"

definition normalize_url_path :: "string \<Rightarrow> manifest_error + string" where
  "normalize_url_path path =
     (if list_ex (\<lambda>c. is_control c \<or> is_whitespace c) (chars path)
      then Inl (InvalidEndpoint path ''path contains control or whitespace'')
      else
        map_res (\<lambda>parts.
          let joined = join_str ''/'' parts;
              closed = (if ends_with_char (CHR ''/'') path \<and> \<not> ends_with_char (CHR ''/'') joined
                        then joined @ ''/'' else joined)
          in if closed = [] then ''/'' else closed)
        (try_fold (url_path_step path) [] (slash_split path)))"

text \<open>The loop of \<^verbatim>\<open>reject_raw_root_escape\<close> keeps the segments that are still open.\<close>

definition raw_path_step :: "string \<Rightarrow> string list \<Rightarrow> string \<Rightarrow> manifest_error + string list" where
  "raw_path_step input segments segment =
     (case dot_segment_kind segment of
        Some CurrentSegment \<Rightarrow> Inr segments
      | Some ParentSegment \<Rightarrow>
          if length segments \<le> 1 then Inl (InvalidEndpoint input ''path escapes the URL root'')
          else Inr (butlast segments)
      | None \<Rightarrow> Inr (segments @ [segment]))"

definition before_query :: "string \<Rightarrow> string" where
  "before_query s = takeWhile (\<lambda>c. c \<noteq> CHR ''?'' \<and> c \<noteq> CHR ''#'') s"

definition reject_raw_root_escape :: "string \<Rightarrow> manifest_error + unit" where
  "reject_raw_root_escape input =
     (case split_once ''://'' input of
        None \<Rightarrow> Inr ()
      | Some (_, rest) \<Rightarrow>
          let authority_and_path = before_query rest in
          if CHR 0x5C \<in> set authority_and_path
          then Inl (InvalidEndpoint input ''backslashes are forbidden in HTTP(S) URL authority or path'')
          else
            let path = before_query (dropWhile (\<lambda>c. c \<noteq> CHR ''/'') authority_and_path)
            in map_res (\<lambda>_. ()) (try_fold (raw_path_step input) [] (slash_split path)))"

section \<open>Endpoints\<close>

text \<open>What the code calls of \<^verbatim>\<open>url::Url\<close>; a parse error is its display.\<close>

record 'u url_api =
  url_parse :: "string \<Rightarrow> string + 'u"
  url_scheme :: "'u \<Rightarrow> string"
  url_host_str :: "'u \<Rightarrow> string option"
  url_username :: "'u \<Rightarrow> string"
  url_password :: "'u \<Rightarrow> string option"
  url_query :: "'u \<Rightarrow> string option"
  url_fragment :: "'u \<Rightarrow> string option"
  url_port :: "'u \<Rightarrow> nat option"
  url_path :: "'u \<Rightarrow> string"
  url_set_path :: "'u \<Rightarrow> string \<Rightarrow> 'u"
  url_clear_port :: "'u \<Rightarrow> unit + 'u"
  url_to_string :: "'u \<Rightarrow> string"

type_synonym endpoint = string

definition clear_default_port :: "'u url_api \<Rightarrow> string \<Rightarrow> 'u \<Rightarrow> bool \<Rightarrow> manifest_error + 'u" where
  "clear_default_port api original url is_default =
     (if is_default then map_err (\<lambda>_. InvalidEndpoint original ''invalid default port'') (url_clear_port api url)
      else Inr url)"

definition endpoint_parse :: "'u url_api \<Rightarrow> string \<Rightarrow> manifest_error + endpoint" where
  "endpoint_parse api original =
     bind_res (reject_raw_root_escape original) (\<lambda>_.
     bind_res (map_err (InvalidEndpoint original) (url_parse api original)) (\<lambda>url.
       if url_scheme api url \<noteq> ''http'' \<and> url_scheme api url \<noteq> ''https''
       then Inl (InvalidEndpoint original
              (''scheme '' @ quoted (url_scheme api url) @ '' is not HTTP or HTTPS''))
       else if url_host_str api url = None
       then Inl (InvalidEndpoint original ''an absolute URL with a host is required'')
       else if url_username api url \<noteq> [] \<or> url_password api url \<noteq> None
       then Inl (InvalidEndpoint original ''credentials are forbidden'')
       else if url_query api url \<noteq> None \<or> url_fragment api url \<noteq> None
       then Inl (InvalidEndpoint original ''query and fragment are forbidden'')
       else if url_port api url = Some 0
       then Inl (InvalidEndpoint original ''port zero is forbidden'')
       else
         bind_res (normalize_url_path (url_path api url)) (\<lambda>path.
           let url = url_set_path api url path in
           map_res (url_to_string api)
             (clear_default_port api original url
               (url_scheme api url = ''http'' \<and> url_port api url = Some 80 \<or>
                url_scheme api url = ''https'' \<and> url_port api url = Some 443)))))"

definition endpoint_scheme :: "endpoint \<Rightarrow> string" where
  "endpoint_scheme e = (case split_once '':'' e of Some (scheme, _) \<Rightarrow> scheme | None \<Rightarrow> [])"

section \<open>Registries and repositories\<close>

datatype registry_spec = Cran | CranLike package_namespace | RUniverse

datatype registry_provenance_policy = FixedNamespace package_namespace | GitMetadata

definition reserved_namespace :: manifest_error where
  "reserved_namespace = InvalidRegistry (''cran-like cannot use reserved namespace '' @ quoted ''cran'')"

definition registry_spec_cran_like :: "package_namespace \<Rightarrow> manifest_error + registry_spec" where
  "registry_spec_cran_like ns = (if ns = ''cran'' then Inl reserved_namespace else Inr (CranLike ns))"

fun provenance_policy :: "registry_spec \<Rightarrow> registry_provenance_policy" where
  "provenance_policy Cran = FixedNamespace ''cran''"
| "provenance_policy (CranLike ns) = FixedNamespace ns"
| "provenance_policy RUniverse = GitMetadata"

fun registry_tag :: "registry_spec \<Rightarrow> string" where
  "registry_tag Cran = ''cran''"
| "registry_tag (CranLike _) = ''cran-like''"
| "registry_tag RUniverse = ''r-universe''"

record repository_spec =
  sp_id :: repository_id
  sp_registry :: registry_spec
  sp_manifest_endpoint :: endpoint
  sp_packages :: "package_name list option"

record effective_repository =
  er_spec :: repository_spec
  er_endpoint :: endpoint

definition named_id_byte :: "char \<Rightarrow> bool" where
  "named_id_byte c = (is_ascii_lowercase c \<or> is_ascii_digit c \<or> c = CHR ''_'' \<or> c = CHR ''-'')"

definition validate_named_id :: "string \<Rightarrow> string \<Rightarrow> manifest_error + unit" where
  "validate_named_id v kind =
     (if v = [] \<or> length v > 64 \<or> \<not> is_ascii_lowercase (hd v) \<or> \<not> list_all named_id_byte v
      then Inl (InvalidIdentifier kind v) else Inr ())"

definition validate_repository_id :: "repository_id \<Rightarrow> manifest_error + unit" where
  "validate_repository_id rid = validate_named_id rid ''repository''"

text \<open>The first pair of equal neighbours, \<^verbatim>\<open>windows(2).find(...)\<close>.\<close>

fun first_repeat :: "'a list \<Rightarrow> 'a option" where
  "first_repeat (x # y # xs) = (if x = y then Some x else first_repeat (y # xs))"
| "first_repeat _ = None"

definition repository_spec_new_with_packages ::
  "repository_id \<Rightarrow> registry_spec \<Rightarrow> endpoint \<Rightarrow> package_name list option \<Rightarrow> manifest_error + repository_spec" where
  "repository_spec_new_with_packages rid registry manifest_endpoint packages =
     bind_res (validate_repository_id rid) (\<lambda>_.
       if registry = CranLike ''cran'' then Inl reserved_namespace
       else
         bind_res
           (case packages of
              None \<Rightarrow> Inr None
            | Some ps \<Rightarrow>
                if ps = [] then Inl (EmptyRepositoryPackageAllowlist rid)
                else
                  let canonical = sort_by cmp_of ps in
                  case first_repeat canonical of
                    Some package \<Rightarrow> Inl (DuplicateRepositoryPackage rid package)
                  | None \<Rightarrow> Inr (Some canonical))
           (\<lambda>ps. Inr \<lparr>sp_id = rid, sp_registry = registry, sp_manifest_endpoint = manifest_endpoint,
                      sp_packages = ps\<rparr>))"

definition repository_spec_new ::
  "repository_id \<Rightarrow> registry_spec \<Rightarrow> endpoint \<Rightarrow> manifest_error + repository_spec" where
  "repository_spec_new rid registry manifest_endpoint =
     repository_spec_new_with_packages rid registry manifest_endpoint None"

definition repository_effective :: "repository_spec \<Rightarrow> endpoint \<Rightarrow> effective_repository" where
  "repository_effective spec e = \<lparr>er_spec = spec, er_endpoint = e\<rparr>"

text \<open>\<^verbatim>\<open>slice::binary_search\<close>: halve the range, then look at what is left.\<close>

function search_base :: "'a::linorder list \<Rightarrow> 'a \<Rightarrow> nat \<Rightarrow> nat \<Rightarrow> nat" where
  "search_base xs x base len =
     (if len \<le> 1 then base
      else
        let half = len div 2; mid = base + half
        in search_base xs x (if cmp_of (xs ! mid) x = Greater then base else mid) (len - half))"
  by pat_completeness auto
termination
  by (relation "measure (\<lambda>(_, _, _, len). len)") auto

declare search_base.simps [simp del]

definition binary_search_ok :: "'a::linorder list \<Rightarrow> 'a \<Rightarrow> bool" where
  "binary_search_ok xs x = (xs \<noteq> [] \<and> xs ! search_base xs x 0 (length xs) = x)"

definition package_allowed :: "repository_spec \<Rightarrow> package_name \<Rightarrow> bool" where
  "package_allowed spec package =
     (case sp_packages spec of None \<Rightarrow> True | Some ps \<Rightarrow> binary_search_ok ps package)"

definition effective_package_allowed :: "effective_repository \<Rightarrow> package_name \<Rightarrow> bool" where
  "effective_package_allowed r package = package_allowed (er_spec r) package"

text \<open>A field with its length before it, as every preimage of the manifest layer has them.\<close>

definition append_field :: "bytes \<Rightarrow> bytes" where
  "append_field v = to_be_bytes (word_of_nat (length v)) @ v"

definition digest_fields :: "(bytes \<Rightarrow> bytes) \<Rightarrow> bytes list \<Rightarrow> bytes" where
  "digest_fields sha fs =
     sha (''rsolve.manifest.v1'' @ [char_of (0::nat)] @ concat (map append_field fs))"

definition hex_digest :: "bytes \<Rightarrow> string" where
  "hex_digest bs = concat (map hex_byte bs)"

definition registry_fields :: "registry_spec \<Rightarrow> bytes list" where
  "registry_fields registry =
     registry_tag registry # (case registry of CranLike ns \<Rightarrow> [ns] | _ \<Rightarrow> [])"

definition configured_registry_id_for ::
  "(bytes \<Rightarrow> bytes) \<Rightarrow> registry_spec \<Rightarrow> endpoint \<Rightarrow> manifest_error + registry_id" where
  "configured_registry_id_for sha registry e =
     map_err (\<lambda>err. InvalidRepository (identifier_error_display err))
       (opaque_identifier_new ''RegistryId''
         (hex_digest (digest_fields sha (registry_fields registry @ [e]))))"

definition configured_registry_id :: "(bytes \<Rightarrow> bytes) \<Rightarrow> repository_spec \<Rightarrow> manifest_error + registry_id" where
  "configured_registry_id sha spec =
     configured_registry_id_for sha (sp_registry spec) (sp_manifest_endpoint spec)"

definition effective_configured_registry_id ::
  "(bytes \<Rightarrow> bytes) \<Rightarrow> effective_repository \<Rightarrow> manifest_error + registry_id" where
  "effective_configured_registry_id sha r = configured_registry_id sha (er_spec r)"

section \<open>Selectors and relative paths\<close>

definition validate_selector :: "string \<Rightarrow> string \<Rightarrow> manifest_error + unit" where
  "validate_selector v ctxt =
     (if v = [] \<or> length v > 1024 \<or> list_ex is_control (chars v)
      then Inl (InvalidDependencyField ctxt
             ''Git selector must be a non-empty, bounded, non-control string'')
      else Inr ())"

definition subdirectory_step :: "string list \<Rightarrow> string \<Rightarrow> string + string list" where
  "subdirectory_step parts part =
     (if part = [] \<or> part = ''.'' then Inr parts
      else if part = ''..''
      then (if parts = [] then Inl ''subdirectory escapes the source root'' else Inr (butlast parts))
      else Inr (parts @ [part]))"

definition normalize_relative_subdirectory :: "string \<Rightarrow> string + string" where
  "normalize_relative_subdirectory v =
     (if v = [] \<or> starts_with ''/'' v \<or> CHR 0x5C \<in> set v
      then Inl ''subdirectory must be a non-empty relative slash path''
      else if list_ex is_control (chars v) then Inl ''subdirectory contains a control character''
      else
        bind_res (try_fold subdirectory_step [] (slash_split v)) (\<lambda>parts.
          if parts = [] then Inl ''subdirectory must contain a path component''
          else Inr (join_str ''/'' parts)))"

definition validate_relative_subdirectory :: "string \<Rightarrow> string + unit" where
  "validate_relative_subdirectory v = map_res (\<lambda>_. ()) (normalize_relative_subdirectory v)"

definition requested_path_step :: "string list \<Rightarrow> string \<Rightarrow> string list" where
  "requested_path_step parts part =
     (if part = [] \<or> part = ''.'' then parts
      else if part = ''..''
      then (if parts = [] \<or> last parts = ''..'' then parts @ [''..''] else butlast parts)
      else parts @ [part])"

definition normalize_requested_path :: "string \<Rightarrow> string + string" where
  "normalize_requested_path original =
     (let v = map (\<lambda>c. if c = CHR 0x5C then CHR ''/'' else c) original in
      if starts_with ''/'' v \<or> starts_with ''//'' v \<or> (length v > 1 \<and> v ! 1 = CHR '':'')
      then Inl ''path must not be absolute or use a drive/UNC prefix''
      else if list_ex is_control (chars v) then Inl ''path contains a control character''
      else
        let parts = foldl requested_path_step [] (slash_split v) in
        if parts = [] \<or> last parts = ''..'' then Inl ''path must have a non-empty final component''
        else Inr (join_str ''/'' parts))"

end
