(* ===== verification/Manifest.thy ===== *)
theory Manifest
  imports Loaders Repository_Spec
begin

text \<open>
  \<^verbatim>\<open>rsolve/src/manifest.rs\<close> and \<^verbatim>\<open>manifest/compose.rs\<close>: the small in-memory manifest, the manifest
  document, version constraints as they are written, the composition of one environment and the
  digest of its intent.  A \<^verbatim>\<open>BTreeMap\<close> is the list of its entries in key order.  SHA-256 is the
  argument \<open>sha\<close> and the display of a date the argument \<open>strftime\<close>.
\<close>

section \<open>The in-memory manifest\<close>

record manifest_dependency =
  md_name :: package_name
  md_constraint :: version_constraint

record manifest_target =
  mt_r_version :: r_package_version

record manifest =
  mf_r_requirement :: version_constraint
  mf_target :: manifest_target
  mf_requirements :: "manifest_dependency list"

text \<open>The loop over the requirements with the set of the names seen before.\<close>

fun check_requirements :: "package_name list \<Rightarrow> manifest_dependency list \<Rightarrow> manifest_error + unit" where
  "check_requirements names [] = Inr ()"
| "check_requirements names (requirement # rest) =
     (if md_name requirement = ''R'' then Inl RIsNotAPackageRequirement
      else if md_name requirement \<in> set names then Inl (DuplicateRequirement (md_name requirement))
      else check_requirements (md_name requirement # names) rest)"

definition manifest_validate :: "manifest \<Rightarrow> manifest_error + unit" where
  "manifest_validate m = check_requirements [] (mf_requirements m)"

definition manifest_new ::
  "version_constraint \<Rightarrow> manifest_target \<Rightarrow> manifest_dependency list \<Rightarrow> manifest_error + manifest" where
  "manifest_new r_requirement target requirements =
     (let m = \<lparr>mf_r_requirement = r_requirement, mf_target = target, mf_requirements = requirements\<rparr>
      in map_res (\<lambda>_. m) (manifest_validate m))"

definition into_resolution_target :: "manifest_target \<Rightarrow> resolution_target" where
  "into_resolution_target t = \<lparr>rt_r_version = mt_r_version t\<rparr>"

definition manifest_root :: "manifest_dependency \<Rightarrow> manifest_error + root_requirement" where
  "manifest_root requirement =
     map_res (\<lambda>package. \<lparr>rr_package = package, rr_expansion = HardOnly\<rparr>)
       (map_err (\<lambda>e. InvalidDependency (package_requirement_error_display e))
         (package_requirement_new (md_name requirement) SourceAny (md_constraint requirement)))"

definition compose_resolution_request_with_locked ::
  "manifest \<Rightarrow> locked_identities \<Rightarrow> manifest_error + resolution_request" where
  "compose_resolution_request_with_locked m locked =
     bind_res (manifest_validate m) (\<lambda>_.
     map_res (\<lambda>roots.
       resolution_request_new roots (into_resolution_target (mf_target m)) (mf_r_requirement m) locked)
       (try_map manifest_root (mf_requirements m)))"

definition compose_resolution_request :: "manifest \<Rightarrow> manifest_error + resolution_request" where
  "compose_resolution_request m = compose_resolution_request_with_locked m []"

section \<open>The manifest document\<close>

type_synonym direct_url = string

datatype git_selector = DefaultBranch | Branch string | Tag string | Rev string

datatype manifest_source =
    RegistrySource "repository_id option"
  | GitSource normalized_git_url git_selector "string option"
  | UrlSource direct_url "sha256_digest option"
  | PathSource string "sha256_digest option"

record manifest_dependency_spec =
  ds_version :: string
  ds_source :: manifest_source
  ds_include_suggests :: bool

type_synonym dependency_map = "(package_name \<times> manifest_dependency_spec) list"

record manifest_document =
  doc_schema :: u32
  doc_project_root :: "string option"
  doc_r_requirement :: string
  doc_published_before :: "publication_date option"
  doc_repositories :: "repository_spec list"
  doc_dependencies :: dependency_map
  doc_groups :: "(string \<times> dependency_map) list"
  doc_environments :: "(string \<times> string list) list"

section \<open>Version constraints as text\<close>

datatype constraint_version_kind = ConstraintR | ConstraintPackage

fun relation_rank :: "relation_op \<Rightarrow> nat" where
  "relation_rank Lt = 0"
| "relation_rank Le = 1"
| "relation_rank Eq = 2"
| "relation_rank Ne = 3"
| "relation_rank Ge = 4"
| "relation_rank Gt = 5"

fun relation_tag :: "relation_op \<Rightarrow> bytes" where
  "relation_tag Lt = ''<''"
| "relation_tag Le = ''<=''"
| "relation_tag Eq = ''=''"
| "relation_tag Ne = ''!=''"
| "relation_tag Ge = ''>=''"
| "relation_tag Gt = ''>''"

definition clause_cmp :: "version_clause \<Rightarrow> version_clause \<Rightarrow> ordering" where
  "clause_cmp left right =
     then_with (cmp_of (relation_rank (vc_op left)) (relation_rank (vc_op right)))
       (then_with (version_cmp (vc_version left) (vc_version right))
         (cmp_of (version_str (vc_version left)) (version_str (vc_version right))))"

definition canonical_clauses :: "version_clause list \<Rightarrow> version_clause list" where
  "canonical_clauses cs = dedup_by clause_eq (sort_by clause_cmp cs)"

definition canonicalize_constraint :: "version_constraint \<Rightarrow> version_constraint" where
  "canonicalize_constraint c = constraint_new (canonical_clauses (clauses c))"

definition split_relation :: "string \<Rightarrow> relation_op \<times> string" where
  "split_relation term =
     (case strip_prefix ''>='' term of Some v \<Rightarrow> (Ge, v) | None \<Rightarrow>
     (case strip_prefix ''<='' term of Some v \<Rightarrow> (Le, v) | None \<Rightarrow>
     (case strip_prefix ''!='' term of Some v \<Rightarrow> (Ne, v) | None \<Rightarrow>
     (case strip_prefix ''=='' term of Some v \<Rightarrow> (Eq, v) | None \<Rightarrow>
     (case strip_prefix ''>'' term of Some v \<Rightarrow> (Gt, v) | None \<Rightarrow>
     (case strip_prefix ''<'' term of Some v \<Rightarrow> (Lt, v) | None \<Rightarrow>
     (case strip_prefix ''='' term of Some v \<Rightarrow> (Eq, v) | None \<Rightarrow> (Eq, term))))))))"

definition parse_term ::
  "string \<Rightarrow> constraint_version_kind \<Rightarrow> string \<Rightarrow> manifest_error + version_clause" where
  "parse_term field kind piece =
     (let term = trim piece in
      if term = [] then Inl (InvalidVersionConstraint field ''constraint contains an empty conjunction term'')
      else
        case split_relation term of (op, rest) \<Rightarrow>
          let version = trim rest in
          if version = [] \<or> version = ''*''
          then Inl (InvalidVersionConstraint field ''relation must have a numeric version'')
          else
            map_res (\<lambda>v. \<lparr>vc_op = op, vc_version = v\<rparr>)
              (map_err (\<lambda>e. InvalidVersionConstraint field (r_package_version_error_display e))
                (case kind of ConstraintR \<Rightarrow> parse_bare version | ConstraintPackage \<Rightarrow> parse_version version)))"

definition parse_constraint ::
  "string \<Rightarrow> string \<Rightarrow> constraint_version_kind \<Rightarrow> manifest_error + version_constraint" where
  "parse_constraint input field kind =
     (if input = [] \<or> list_ex is_control (chars input)
      then Inl (InvalidVersionConstraint field
             ''constraint must be non-empty and contain no control characters'')
      else if trim input = ''*'' then Inr unconstrained
      else
        map_res (\<lambda>cs. canonicalize_constraint (constraint_new cs))
          (try_map (parse_term field kind) (split_on (\<lambda>c. c = CHR '','') input)))"

definition parse_r_constraint :: "string \<Rightarrow> string \<Rightarrow> manifest_error + version_constraint" where
  "parse_r_constraint input field = parse_constraint input field ConstraintR"

definition parse_package_constraint :: "string \<Rightarrow> string \<Rightarrow> manifest_error + version_constraint" where
  "parse_package_constraint input field = parse_constraint input field ConstraintPackage"

section \<open>Root intents\<close>

record composed_root_intent =
  ci_name :: package_name
  ci_constraint :: version_constraint
  ci_source :: manifest_source
  ci_expansion :: root_expansion_policy

record composed_environment =
  ce_environment :: environment_id
  ce_r_requirement :: version_constraint
  ce_published_before :: "publication_date option"
  ce_target :: resolution_target
  ce_repositories :: "repository_spec list"
  ce_roots :: "composed_root_intent list"
  ce_locked :: locked_identities

definition is_remote_cran_root_intent :: "composed_root_intent \<Rightarrow> bool" where
  "is_remote_cran_root_intent root =
     (if ci_name root = ''R'' then False
      else case ci_source root of
             RegistrySource None \<Rightarrow> \<not> is_r_base_package_name (ci_name root)
           | _ \<Rightarrow> True)"

definition intent_root :: "composed_root_intent \<Rightarrow> manifest_error + root_requirement" where
  "intent_root root =
     bind_res
       (case ci_source root of
          RegistrySource None \<Rightarrow> Inr SourceAny
        | RegistrySource (Some repository) \<Rightarrow> Inr (SourceRepository repository)
        | _ \<Rightarrow> Inl (DirectSourceRequiresAcquisition (ci_name root)))
       (\<lambda>source.
          map_res (\<lambda>package. \<lparr>rr_package = package, rr_expansion = ci_expansion root\<rparr>)
            (map_err (\<lambda>e. InvalidDependency (package_requirement_error_display e))
              (package_requirement_new (ci_name root) source (ci_constraint root))))"

definition composed_into_resolution_request :: "composed_environment \<Rightarrow> manifest_error + resolution_request" where
  "composed_into_resolution_request env =
     map_res (\<lambda>roots.
       with_optional_publication_cutoff
         (resolution_request_new roots (ce_target env) (ce_r_requirement env) (ce_locked env))
         (ce_published_before env))
       (try_map intent_root (ce_roots env))"

definition merge_sources ::
  "package_name \<Rightarrow> manifest_source \<Rightarrow> manifest_source \<Rightarrow> manifest_error + manifest_source" where
  "merge_sources name left right =
     (if left = right then Inr left
      else case (left, right) of
             (RegistrySource None, RegistrySource (Some repository)) \<Rightarrow> Inr (RegistrySource (Some repository))
           | (RegistrySource (Some repository), RegistrySource None) \<Rightarrow> Inr (RegistrySource (Some repository))
           | _ \<Rightarrow> Inl (SourceConflict name))"

definition merge_roots ::
  "composed_root_intent \<Rightarrow> composed_root_intent \<Rightarrow> manifest_error + composed_root_intent" where
  "merge_roots left right =
     map_res (\<lambda>source.
       \<lparr>ci_name = ci_name left,
        ci_constraint = canonicalize_constraint (conjunction (ci_constraint left) (ci_constraint right)),
        ci_source = source,
        ci_expansion = (if ci_expansion left = DirectSuggests \<or> ci_expansion right = DirectSuggests
                        then DirectSuggests else HardOnly)\<rparr>)
       (merge_sources (ci_name left) (ci_source left) (ci_source right))"

fun normalize_source :: "package_name \<Rightarrow> manifest_source \<Rightarrow> manifest_error + manifest_source" where
  "normalize_source name (GitSource url selector subdirectory) =
     map_res (GitSource url selector)
       (map_err (InvalidDependencyField name)
         (transpose (map_option normalize_relative_subdirectory subdirectory)))"
| "normalize_source name (PathSource path sha256) =
     map_res (\<lambda>p. PathSource p sha256) (map_err (InvalidDependencyField name) (normalize_requested_path path))"
| "normalize_source name source = Inr source"

definition dependency_root ::
  "package_name \<Rightarrow> manifest_dependency_spec \<Rightarrow> manifest_error + composed_root_intent" where
  "dependency_root name dependency =
     bind_res (parse_package_constraint (ds_version dependency) name) (\<lambda>constraint.
     map_res (\<lambda>source.
       \<lparr>ci_name = name, ci_constraint = constraint, ci_source = source,
        ci_expansion = (if ds_include_suggests dependency then DirectSuggests else HardOnly)\<rparr>)
       (normalize_source name (ds_source dependency)))"

type_synonym root_map = "(package_name \<times> composed_root_intent) list"

definition append_dependency ::
  "root_map \<Rightarrow> package_name \<times> manifest_dependency_spec \<Rightarrow> manifest_error + root_map" where
  "append_dependency roots entry =
     (case entry of (name, dependency) \<Rightarrow>
        if name = ''R'' then Inl RIsNotAPackageRequirement
        else
          bind_res (dependency_root name dependency) (\<lambda>candidate.
            case map_of roots name of
              Some existing \<Rightarrow> map_res (bt_insert (bt_remove roots name) name) (merge_roots existing candidate)
            | None \<Rightarrow> Inr (bt_insert roots name candidate)))"

definition append_dependencies :: "root_map \<Rightarrow> dependency_map \<Rightarrow> manifest_error + root_map" where
  "append_dependencies roots dependencies = try_fold append_dependency roots dependencies"

section \<open>Validation of a document\<close>

definition validate_dependency ::
  "repository_id list \<Rightarrow> package_name \<times> manifest_dependency_spec \<Rightarrow> manifest_error + unit" where
  "validate_dependency repositories entry =
     (case entry of (name, dependency) \<Rightarrow>
        bind_res (parse_package_constraint (ds_version dependency) name) (\<lambda>_.
          if name = ''R'' then Inl RIsNotAPackageRequirement
          else
            case ds_source dependency of
              RegistrySource None \<Rightarrow> Inr ()
            | RegistrySource (Some repository) \<Rightarrow>
                bind_res (validate_repository_id repository) (\<lambda>_.
                  if repository \<notin> set repositories
                  then Inl (UnknownRepositoryReference repository name) else Inr ())
            | GitSource _ selector subdirectory \<Rightarrow>
                bind_res
                  (case selector of
                     DefaultBranch \<Rightarrow> Inr ()
                   | Branch v \<Rightarrow> validate_selector v name
                   | Tag v \<Rightarrow> validate_selector v name
                   | Rev v \<Rightarrow> validate_selector v name)
                  (\<lambda>_. case subdirectory of
                         None \<Rightarrow> Inr ()
                       | Some v \<Rightarrow> map_err (InvalidDependencyField name) (validate_relative_subdirectory v))
            | UrlSource _ _ \<Rightarrow> Inr ()
            | PathSource path _ \<Rightarrow>
                map_res (\<lambda>_. ()) (map_err (InvalidDependencyField name) (normalize_requested_path path))))"

definition validate_dependency_maps :: "dependency_map \<Rightarrow> repository_id list \<Rightarrow> manifest_error + unit" where
  "validate_dependency_maps dependencies repositories = each (validate_dependency repositories) dependencies"

fun validate_repositories :: "repository_id list \<Rightarrow> repository_spec list \<Rightarrow> manifest_error + repository_id list" where
  "validate_repositories seen [] = Inr seen"
| "validate_repositories seen (repository # rest) =
     bind_res (validate_repository_id (sp_id repository)) (\<lambda>_.
       if sp_id repository \<in> set seen then Inl (DuplicateRepository (sp_id repository))
       else if sp_registry repository = CranLike ''cran'' then Inl reserved_namespace
       else validate_repositories (sp_id repository # seen) rest)"

fun validate_group_references ::
  "string \<Rightarrow> string list \<Rightarrow> string list \<Rightarrow> string list \<Rightarrow> manifest_error + unit" where
  "validate_group_references environment groups seen [] = Inr ()"
| "validate_group_references environment groups seen (g # gs) =
     (if g \<notin> set groups then Inl (UnknownEnvironmentGroup environment g)
      else if g \<in> set seen then Inl (DuplicateEnvironmentGroup environment g)
      else validate_group_references environment groups (g # seen) gs)"

definition validate_document :: "manifest_document \<Rightarrow> manifest_error + unit" where
  "validate_document document =
     (if doc_schema document \<noteq> 1 then Inl (UnknownSchema (uint (doc_schema document)))
      else
        bind_res (parse_r_constraint (doc_r_requirement document) ''r.version'') (\<lambda>_.
        bind_res (validate_repositories [] (doc_repositories document)) (\<lambda>repositories.
        bind_res
          (each (\<lambda>(environment, group_ids).
             bind_res (map_err (\<lambda>_. InvalidIdentifier ''environment'' environment) (environment_id_new environment))
               (\<lambda>_. validate_group_references environment (map fst (doc_groups document)) [] group_ids))
             (doc_environments document)) (\<lambda>_.
        bind_res (each (\<lambda>g. validate_named_id g ''group'') (map fst (doc_groups document))) (\<lambda>_.
        bind_res (validate_dependency_maps (doc_dependencies document) repositories) (\<lambda>_.
          each (\<lambda>dependencies. validate_dependency_maps dependencies repositories)
            (map snd (doc_groups document))))))))"

section \<open>Composing an environment\<close>

definition check_root_allowlist ::
  "repository_spec list \<Rightarrow> composed_root_intent \<Rightarrow> manifest_error abort + unit" where
  "check_root_allowlist repositories root =
     (case ci_source root of
        RegistrySource (Some repository) \<Rightarrow>
          bind_res
            (expect ''repository references are validated before composition''
              (find (\<lambda>candidate. sp_id candidate = repository) repositories))
            (\<lambda>spec.
               if \<not> package_allowed spec (ci_name root)
               then Inl (Raised (RepositoryPackageNotAllowed repository (ci_name root))) else Inr ())
      | _ \<Rightarrow> Inr ())"

definition validate_repository_package_allowlists ::
  "root_map \<Rightarrow> repository_spec list \<Rightarrow> manifest_error abort + unit" where
  "validate_repository_package_allowlists roots repositories =
     each (check_root_allowlist repositories) (map snd roots)"

definition compose_environment_with_locked ::
  "manifest_document \<Rightarrow> string \<Rightarrow> resolution_target \<Rightarrow> locked_identities \<Rightarrow>
   manifest_error abort + composed_environment" where
  "compose_environment_with_locked document environment_input target locked =
     bind_res (map_err Raised (validate_document document)) (\<lambda>_.
     bind_res (map_err (\<lambda>_. Raised (InvalidIdentifier ''environment'' environment_input))
       (environment_id_new environment_input)) (\<lambda>environment.
     bind_res
       (case map_of (doc_environments document) environment of
          Some group_ids \<Rightarrow> Inr group_ids
        | None \<Rightarrow> if environment = ''default'' then Inr []
                  else Inl (Raised (UnknownEnvironment environment))) (\<lambda>group_ids.
     bind_res (map_err Raised (parse_r_constraint (doc_r_requirement document) ''r.version'')) (\<lambda>r_requirement.
       if \<not> satisfies r_requirement (rt_r_version target)
       then Inl (Raised (TargetOutsideRConstraint (version_str (rt_r_version target)) (doc_r_requirement document)))
       else
         bind_res (map_err Raised (append_dependencies [] (doc_dependencies document))) (\<lambda>base.
         bind_res
           (map_err Raised
             (try_fold (\<lambda>roots g.
                case map_of (doc_groups document) g of
                  None \<Rightarrow> Inl (UnknownEnvironmentGroup environment g)
                | Some dependencies \<Rightarrow> append_dependencies roots dependencies) base group_ids)) (\<lambda>roots.
         bind_res (validate_repository_package_allowlists roots (doc_repositories document)) (\<lambda>_.
           Inr \<lparr>ce_environment = environment,
                ce_r_requirement = r_requirement,
                ce_published_before = doc_published_before document,
                ce_target = target,
                ce_repositories = doc_repositories document,
                ce_roots = map snd roots,
                ce_locked = locked\<rparr>)))))))"

definition compose_environment ::
  "manifest_document \<Rightarrow> string \<Rightarrow> resolution_target \<Rightarrow> manifest_error abort + composed_environment" where
  "compose_environment document environment_input target =
     compose_environment_with_locked document environment_input target []"

section \<open>The intent digest\<close>

definition append_constraint :: "version_constraint \<Rightarrow> bytes" where
  "append_constraint c =
     append_field ''constraint''
     @ concat (map (\<lambda>clause.
         append_field (relation_tag (vc_op clause))
         @ (let version =
              join_str ''.''
                (map (\<lambda>w. show_nat (unat w))
                  (take (canonical_component_count (vc_version clause)) (version_components (vc_version clause))))
            in append_field (if version = [] then ''0'' else version)))
         (canonical_clauses (clauses c)))"

definition append_registry :: "registry_spec \<Rightarrow> bytes" where
  "append_registry registry =
     append_field ''registry'' @ append_field (registry_tag registry)
     @ (case registry of CranLike ns \<Rightarrow> append_field ns | _ \<Rightarrow> [])"

definition or_empty :: "string option \<Rightarrow> string" where
  "or_empty v = (case v of Some s \<Rightarrow> s | None \<Rightarrow> [])"

fun append_selector :: "git_selector \<Rightarrow> bytes" where
  "append_selector DefaultBranch = append_field ''default-branch''"
| "append_selector (Branch v) = append_field ''branch'' @ append_field v"
| "append_selector (Tag v) = append_field ''tag'' @ append_field v"
| "append_selector (Rev v) = append_field ''rev'' @ append_field v"

fun append_source :: "manifest_source \<Rightarrow> bytes" where
  "append_source (RegistrySource repository) =
     append_field ''registry-source'' @ append_field (or_empty repository)"
| "append_source (GitSource url selector subdirectory) =
     append_field ''git'' @ append_field url @ append_selector selector
     @ append_field (or_empty subdirectory)"
| "append_source (UrlSource url sha256) =
     append_field ''url'' @ append_field url @ append_field (or_empty sha256)"
| "append_source (PathSource path sha256) =
     append_field ''path'' @ append_field path @ append_field (or_empty sha256)"

definition append_repository :: "repository_spec \<Rightarrow> bytes" where
  "append_repository repository =
     append_field ''repository'' @ append_field (sp_id repository)
     @ append_registry (sp_registry repository)
     @ append_field (sp_manifest_endpoint repository)
     @ append_field ''packages''
     @ (case sp_packages repository of
          None \<Rightarrow> append_field ''all''
        | Some packages \<Rightarrow> append_field ''allowlist'' @ concat (map append_field packages))"

definition append_root :: "composed_root_intent \<Rightarrow> bytes" where
  "append_root root =
     append_field ''root'' @ append_field (ci_name root)
     @ append_constraint (ci_constraint root) @ append_source (ci_source root)
     @ append_field (case ci_expansion root of HardOnly \<Rightarrow> ''hard-only'' | DirectSuggests \<Rightarrow> ''direct-suggests'')"

definition intent_payload :: "(publication_date \<Rightarrow> string) \<Rightarrow> composed_environment \<Rightarrow> bytes" where
  "intent_payload strftime env =
     append_field ''schema'' @ append_field ''1''
     @ append_field ''environment'' @ append_field (ce_environment env)
     @ append_field ''r'' @ append_constraint (ce_r_requirement env)
     @ append_field ''published-before''
     @ append_field (or_empty (map_option strftime (ce_published_before env)))
     @ concat (map append_repository (ce_repositories env))
     @ concat (map append_root (ce_roots env))"

definition intent_preimage :: "(publication_date \<Rightarrow> string) \<Rightarrow> composed_environment \<Rightarrow> bytes" where
  "intent_preimage strftime env =
     ''rsolve.resolution-intent.v1'' @ [char_of (0::nat)]
     @ to_be_bytes (word_of_nat (length (intent_payload strftime env))) @ intent_payload strftime env"

definition resolution_intent_digest ::
  "(publication_date \<Rightarrow> string) \<Rightarrow> (bytes \<Rightarrow> bytes) \<Rightarrow> composed_environment \<Rightarrow> manifest_error + sha256_digest" where
  "resolution_intent_digest strftime sha env =
     map_err (\<lambda>e. InvalidField ''resolution intent'' (digest_error_display e))
       (sha256_digest_new (hex_digest (sha (intent_preimage strftime env))))"

definition repository_intent_fields :: "repository_spec \<Rightarrow> bytes list" where
  "repository_intent_fields repository =
     [sp_id repository] @ registry_fields (sp_registry repository) @ [sp_manifest_endpoint repository]
     @ (case sp_packages repository of
          None \<Rightarrow> [''all'']
        | Some packages \<Rightarrow> ''allowlist'' # packages)"

definition repository_intent_digest :: "(bytes \<Rightarrow> bytes) \<Rightarrow> manifest_document \<Rightarrow> manifest_error + sha256_digest" where
  "repository_intent_digest sha document =
     map_err (\<lambda>e. InvalidRepository (digest_error_display e))
       (sha256_digest_new
         (hex_digest (digest_fields sha (concat (map repository_intent_fields (doc_repositories document))))))"

end
