(* ===== verification/Policy.thy ===== *)
theory Policy
  imports Loaders
begin

text \<open>
  The policies of \<^verbatim>\<open>rsolve-resolver/src/lib.rs\<close>: which dependencies are effective, in which order
  candidates are tried, and what a previous lock means.
\<close>

section \<open>Effective dependencies\<close>

definition project_dependency_edges ::
  "package_release \<Rightarrow> root_expansion_policy \<Rightarrow> resolved_dependency_edge list" where
  "project_dependency_edges release expansion =
     List.map_filter (\<lambda>dependency.
       map_option (\<lambda>kind. \<lparr>re_kind = kind, re_package = dd_package dependency\<rparr>)
         (if dd_kind dependency = Suggests \<and> expansion = DirectSuggests then Some PromotedSuggests
          else if dd_kind dependency = Suggests \<or> dd_kind dependency = Enhances then None
          else effective (dd_kind dependency)))
       (pk_declared_dependencies release)"

section \<open>Candidate preference\<close>

text \<open>\<^verbatim>\<open>PreferenceContext\<close> holds the locked identity, if any.\<close>

record preference_context =
  px_locked :: "release_identity option"

type_synonym preference =
  "solver_key \<Rightarrow> prepared_candidate \<Rightarrow> prepared_candidate \<Rightarrow> preference_context \<Rightarrow> ordering"

definition compare_prepared_candidates ::
  "preference \<Rightarrow> solver_key \<Rightarrow> prepared_candidate \<Rightarrow> prepared_candidate \<Rightarrow> preference_context \<Rightarrow> ordering" where
  "compare_prepared_candidates preference package left right context =
     then_with (preference package left right context)
       (then_with (version_cmp (pk_version (pc_release left)) (pk_version (pc_release right)))
         (cmp_of (identity_sort_key (pc_identity left)) (identity_sort_key (pc_identity right))))"

definition is_locked_to :: "release_identity option \<Rightarrow> release_identity \<Rightarrow> bool" where
  "is_locked_to locked identity = (case locked of Some l \<Rightarrow> identity_eq l identity | None \<Rightarrow> False)"

definition preference_rank :: "prepared_candidate \<Rightarrow> solver_key \<Rightarrow> preference_context \<Rightarrow> nat" where
  "preference_rank candidate package context =
     (if is_locked_to (px_locked context) (pc_identity candidate) then 3
      else if list_ex (\<lambda>oc. oc_currentness oc = Current) (applicable_occurrences candidate package) then 2
      else 1)"

definition default_preference :: preference where
  "default_preference package left right context =
     then_with (cmp_of (preference_rank left package context) (preference_rank right package context))
       (then_with (version_cmp (pk_version (pc_release left)) (pk_version (pc_release right)))
         (then_with (option_cmp (repository_rank_for right package) (repository_rank_for left package))
           (cmp_of (identity_sort_key (pc_identity left)) (identity_sort_key (pc_identity right)))))"

section \<open>Lock policies\<close>

datatype lock_decision = UnlockedDecision | Prefer release_identity | Require release_identity

type_synonym lock_policy = "solver_key \<Rightarrow> release_identity option \<Rightarrow> lock_decision"

definition prefer_locked :: lock_policy where
  "prefer_locked package previous =
     (case previous of Some identity \<Rightarrow> Prefer identity | None \<Rightarrow> UnlockedDecision)"

definition require_locked :: lock_policy where
  "require_locked package previous =
     (case previous of Some identity \<Rightarrow> Require identity | None \<Rightarrow> UnlockedDecision)"

definition unlocked :: lock_policy where
  "unlocked package previous = UnlockedDecision"

section \<open>Lemmas\<close>

text \<open>A preference is a comparator for every subject and context.\<close>

definition total_preference :: "preference \<Rightarrow> bool" where
  "total_preference preference \<longleftrightarrow> (\<forall>k ctx. total_cmp (\<lambda>l r. preference k l r ctx))"

lemmas total_version_field = total_cmp_key[OF vers.total_cmp_axioms, of "\<lambda>c. pk_version (pc_release c)"]

lemma total_default_preference: "total_preference default_preference"
proof -
  have "total_cmp (\<lambda>l r. option_cmp (repository_rank_for r k) (repository_rank_for l k))" for k
    using total_cmp_reverse[OF total_cmp_key[OF optc.total_cmp_axioms, of "\<lambda>c. repository_rank_for c k"]] .
  then show ?thesis
    unfolding total_preference_def default_preference_def
    by (intro allI total_cmp_then total_cmp_field total_version_field)
qed

text \<open>
  What makes a candidate better than another, the most important criterion first: it is the locked
  release; among unlocked ones, a repository that serves the subject still lists it; its version is
  higher; a repository declared earlier serves it, no repository at all counting as the earliest; the
  last one breaks ties by the text of the identity.
\<close>

definition holds_lock :: "preference_context \<Rightarrow> prepared_candidate \<Rightarrow> bool" where
  "holds_lock ctx c \<longleftrightarrow> (\<exists>i. px_locked ctx = Some i \<and> identity_eq i (pc_identity c))"

definition still_listed :: "solver_key \<Rightarrow> prepared_candidate \<Rightarrow> bool" where
  "still_listed k c \<longleftrightarrow> (\<exists>oc\<in>set (applicable_occurrences c k). oc_currentness oc = Current)"

definition declared_before :: "solver_key \<Rightarrow> prepared_candidate \<Rightarrow> prepared_candidate \<Rightarrow> bool" where
  "declared_before k a b \<longleftrightarrow>
     applicable_occurrences b k \<noteq> [] \<and>
     (applicable_occurrences a k = [] \<or>
      (\<exists>x\<in>set (applicable_occurrences a k). \<forall>y\<in>set (applicable_occurrences b k). oc_rank x < oc_rank y))"

definition preference_criteria ::
  "solver_key \<Rightarrow> preference_context \<Rightarrow> (prepared_candidate \<Rightarrow> prepared_candidate \<Rightarrow> bool) list" where
  "preference_criteria k ctx =
     [\<lambda>a b. holds_lock ctx a \<and> \<not> holds_lock ctx b,
      \<lambda>a b. \<not> holds_lock ctx a \<and> \<not> holds_lock ctx b \<and> still_listed k a \<and> \<not> still_listed k b,
      \<lambda>a b. version_cmp (pk_version (pc_release a)) (pk_version (pc_release b)) = Greater,
      declared_before k,
      \<lambda>a b. identity_sort_key (pc_identity b) < identity_sort_key (pc_identity a)]"

fun beats :: "('a \<Rightarrow> 'a \<Rightarrow> bool) list \<Rightarrow> 'a \<Rightarrow> 'a \<Rightarrow> bool" where
  "beats [] a b \<longleftrightarrow> False"
| "beats (p # ps) a b \<longleftrightarrow> p a b \<or> \<not> p b a \<and> beats ps a b"

lemma iter_min_Some: "xs \<noteq> [] \<Longrightarrow> iter_min xs = Some (Min (set xs))"
proof -
  assume "xs \<noteq> []"
  then obtain y ys where xs: "xs = y # ys" by (cases xs) auto
  then show ?thesis by (simp add: iter_min_def Min.set_eq_fold[symmetric])
qed

lemma declared_before_rank:
  "declared_before k a b \<longleftrightarrow> option_cmp (repository_rank_for b k) (repository_rank_for a k) = Greater"
proof (cases "applicable_occurrences a k = [] \<or> applicable_occurrences b k = []")
  case True
  then show ?thesis
    by (cases "applicable_occurrences a k"; cases "applicable_occurrences b k")
      (auto simp: declared_before_def repository_rank_for_def iter_min_def)
next
  case False
  then have "option_cmp (repository_rank_for b k) (repository_rank_for a k) = Greater \<longleftrightarrow>
      Min (oc_rank ` set (applicable_occurrences a k)) < Min (oc_rank ` set (applicable_occurrences b k))"
    unfolding repository_rank_for_def by (simp add: iter_min_Some del: Min_less_iff Min_gr_iff)
  also have "\<dots> \<longleftrightarrow> (\<exists>x\<in>oc_rank ` set (applicable_occurrences a k). x < Min (oc_rank ` set (applicable_occurrences b k)))"
    using False by (intro Min_less_iff) simp_all
  finally show ?thesis using False by (simp add: declared_before_def)
qed

lemma default_preference_beats:
  "default_preference k a b ctx = Greater \<longleftrightarrow> beats (preference_criteria k ctx) a b"
proof -
  have lock: "is_locked_to (px_locked ctx) (pc_identity c) \<longleftrightarrow> holds_lock ctx c" for c
    by (cases "px_locked ctx") (auto simp: is_locked_to_def holds_lock_def)
  have listed: "list_ex (\<lambda>oc. oc_currentness oc = Current) (applicable_occurrences c k) \<longleftrightarrow> still_listed k c" for c
    by (simp add: still_listed_def list_ex_iff)
  have version: "version_cmp v w = Equal \<longleftrightarrow> version_cmp v w \<noteq> Greater \<and> version_cmp w v \<noteq> Greater" for v w
    using vers.cmp_flip[of w v] by (cases "version_cmp v w") (auto simp: reverse_ordering_def)
  have rank: "option_cmp (repository_rank_for b k) (repository_rank_for a k) = Equal \<longleftrightarrow>
      \<not> declared_before k a b \<and> \<not> declared_before k b a"
    unfolding declared_before_rank using optc.cmp_flip[of "repository_rank_for a k" "repository_rank_for b k"]
    by (cases "option_cmp (repository_rank_for b k) (repository_rank_for a k)") (auto simp: reverse_ordering_def)
  show ?thesis
    unfolding default_preference_def then_with_eq_iff version rank declared_before_rank[symmetric]
    by (auto simp: preference_criteria_def preference_rank_def lock listed cmp_of_def)
qed

lemma default_preference_flip: "default_preference k b a ctx = reverse_ordering (default_preference k a b ctx)"
  using total_default_preference unfolding total_preference_def by (metis total_cmp.cmp_flip)

lemma total_compare_prepared:
  assumes "total_preference preference"
  shows "total_cmp (\<lambda>l r. compare_prepared_candidates preference k l r ctx)"
  using assms unfolding total_preference_def compare_prepared_candidates_def
  by (intro total_cmp_then total_cmp_field total_version_field) blast

lemma in_map_filter: "y \<in> set (List.map_filter f xs) \<longleftrightarrow> (\<exists>x\<in>set xs. f x = Some y)"
  by (induction xs) (auto simp: map_filter_simps split: option.splits)

lemma project_edges_iff:
  "e \<in> set (project_dependency_edges release expansion) \<longleftrightarrow>
     (\<exists>d\<in>set (pk_declared_dependencies release).
        re_package e = dd_package d \<and>
        (effective (dd_kind d) = Some (re_kind e) \<or>
         dd_kind d = Suggests \<and> expansion = DirectSuggests \<and> re_kind e = PromotedSuggests))"
proof -
  have "map_option (\<lambda>kind. \<lparr>re_kind = kind, re_package = dd_package d\<rparr>)
          (if dd_kind d = Suggests \<and> expansion = DirectSuggests then Some PromotedSuggests
           else if dd_kind d = Suggests \<or> dd_kind d = Enhances then None
           else effective (dd_kind d)) = Some e \<longleftrightarrow>
        re_package e = dd_package d \<and>
        (effective (dd_kind d) = Some (re_kind e) \<or>
         dd_kind d = Suggests \<and> expansion = DirectSuggests \<and> re_kind e = PromotedSuggests)" for d :: declared_dependency
    by (cases e; cases "dd_kind d") auto
  then show ?thesis by (simp only: project_dependency_edges_def in_map_filter)
qed

end
