(* ===== verification/Adapter.thy ===== *)
theory Adapter
  imports Policy
begin

text \<open>
  The PubGrub adapter, \<^verbatim>\<open>rsolve-resolver/src/adapter.rs\<close>: candidate interning, the cached provider
  and its callbacks.  The two \<^verbatim>\<open>RefCell\<close>s of the provider are a state that the callbacks thread.
  PubGrub is not part of the repository: its version sets and its dependency container are the
  operations of the record \<open>pubgrub_api\<close>, an argument of the definitions that use them.  The
  loader is called at most once per subject, because its answer is cached, so it is a function.
\<close>

section \<open>Versions, packages and messages\<close>

datatype solver_version = VRoot | VR r_package_version | VCandidate nat

fun solver_version_eq :: "solver_version \<Rightarrow> solver_version \<Rightarrow> bool" where
  "solver_version_eq (VR a) (VR b) = version_eq a b"
| "solver_version_eq a b = (a = b)"

datatype package_id = PRoot | PSubject solver_key | POccupancy package_name

fun package_id_eq :: "package_id \<Rightarrow> package_id \<Rightarrow> bool" where
  "package_id_eq (PSubject a) (PSubject b) = solver_key_eq a b"
| "package_id_eq a b = (a = b)"

fun debug_solver_key :: "solver_key \<Rightarrow> string" where
  "debug_solver_key (KeyRegistry namespace name) =
     debug_struct ''Registry''
       [(''namespace'', debug_newtype ''PackageNamespace'' namespace), (''name'', debug_newtype ''PackageName'' name)]"
| "debug_solver_key (KeyBioconductor namespace release name) =
     debug_struct ''Bioconductor''
       [(''namespace'', debug_newtype ''PackageNamespace'' namespace),
        (''release'', debug_newtype ''BioconductorRelease'' release),
        (''name'', debug_newtype ''PackageName'' name)]"
| "debug_solver_key (KeyRepository repository name) =
     debug_struct ''Repository''
       [(''repository'', debug_newtype ''RepositoryId'' repository), (''name'', debug_newtype ''PackageName'' name)]"
| "debug_solver_key (KeyExact identity) = debug_tuple ''Exact'' [debug_identity identity]"
| "debug_solver_key (KeyInstalledName name) = debug_tuple ''InstalledName'' [debug_newtype ''PackageName'' name]"
| "debug_solver_key KeyR = ''R''"

fun debug_package_id :: "package_id \<Rightarrow> string" where
  "debug_package_id PRoot = ''Root''"
| "debug_package_id (PSubject subject) = debug_tuple ''Subject'' [debug_solver_key subject]"
| "debug_package_id (POccupancy name) = debug_tuple ''Occupancy'' [debug_newtype ''PackageName'' name]"

datatype publication_rejection =
    PublicationCooldown release_identity publication_date
  | PublicationUnknown release_identity

fun rejection_identity :: "publication_rejection \<Rightarrow> release_identity" where
  "rejection_identity (PublicationCooldown identity _) = identity"
| "rejection_identity (PublicationUnknown identity) = identity"

definition publication_rejection_sort_key :: "publication_rejection \<Rightarrow> string" where
  "publication_rejection_sort_key r = identity_sort_key (rejection_identity r)"

datatype provider_message = TextMessage string | PublicationMessage "publication_rejection list"

fun provider_message_display :: "provider_message \<Rightarrow> string" where
  "provider_message_display (TextMessage message) = message"
| "provider_message_display (PublicationMessage rejections) =
     show_nat (length rejections) @ '' publication-ineligible candidate(s)''"

record adapter_error =
  ae_package :: solver_key
  ae_source :: candidate_load_error

definition adapter_error_at :: "solver_key \<Rightarrow> candidate_load_error \<Rightarrow> adapter_error" where
  "adapter_error_at package source = \<lparr>ae_package = package, ae_source = source\<rparr>"

text \<open>
  PubGrub's \<^verbatim>\<open>Ranges<SolverVersion>\<close> (\<^verbatim>\<open>empty\<close>, \<^verbatim>\<open>singleton\<close>, \<^verbatim>\<open>union\<close>, \<^verbatim>\<open>contains\<close>) and
  \<^verbatim>\<open>DependencyConstraints::from_iter\<close>.
\<close>

record 'r pubgrub_api =
  pg_empty :: 'r
  pg_singleton :: "solver_version \<Rightarrow> 'r"
  pg_union :: "'r \<Rightarrow> 'r \<Rightarrow> 'r"
  pg_contains :: "'r \<Rightarrow> solver_version \<Rightarrow> bool"
  pg_constraints :: "(package_id \<times> 'r) list \<Rightarrow> (package_id \<times> 'r) list"

datatype 'r dependencies = DepsUnavailable provider_message | DepsAvailable "(package_id \<times> 'r) list"

section \<open>Interning\<close>

record candidate_interner =
  in_next :: nat
  in_by_identity :: "(release_identity \<times> nat) list"
  in_candidates :: "(nat \<times> prepared_candidate) list"

definition empty_interner :: candidate_interner where
  "empty_interner = \<lparr>in_next = 0, in_by_identity = [], in_candidates = []\<rparr>"

definition metadata_invalid :: "string \<Rightarrow> candidate_load_error" where
  "metadata_invalid diagnostic = candidate_load_error_new MetadataInvalid diagnostic"

text \<open>\<^verbatim>\<open>usize::checked_add(1)\<close> on a 64-bit target.\<close>

definition intern :: "prepared_candidate \<Rightarrow> (candidate_interner, candidate_load_error, nat) sm" where
  "intern candidate = (\<lambda>i.
     case hm_get identity_eq (in_by_identity i) (pc_identity candidate) of
       Some cid \<Rightarrow>
         (case hm_get (=) (in_candidates i) cid of
            None \<Rightarrow> (Inl (metadata_invalid
              ''candidate interner lost the prepared candidate for an interned identity''), i)
          | Some existing \<Rightarrow>
              if \<not> candidate_same_facts existing candidate
              then (Inl (metadata_invalid ''conflicting logical metadata for interned candidate''), i)
              else (Inr cid, i))
     | None \<Rightarrow>
         if in_next i + 1 < 2 ^ 64
         then (Inr (in_next i),
               \<lparr>in_next = in_next i + 1,
                in_by_identity = hm_insert identity_eq (in_by_identity i) (pc_identity candidate) (in_next i),
                in_candidates = hm_insert (=) (in_candidates i) (in_next i) candidate\<rparr>)
         else (Inl (metadata_invalid
              ''candidate interner exhausted its solve-local identifier space''), i))"

definition ids_for_name :: "candidate_interner \<Rightarrow> package_name \<Rightarrow> nat list" where
  "ids_for_name i name =
     map fst
       (sort_by (\<lambda>l r. cmp_of (identity_sort_key (pc_identity (snd l))) (identity_sort_key (pc_identity (snd r))))
         (filter (\<lambda>e. ri_name (pc_identity (snd e)) = name) (in_candidates i)))"

section \<open>The provider\<close>

record loaded_subject =
  ls_candidates :: "(nat \<times> prepared_candidate) list"
  ls_quarantined :: "quarantined_candidate list"

record provider =
  pv_loader :: loader
  pv_preference :: preference
  pv_lock_policy :: lock_policy
  pv_request :: resolution_request

record provider_state =
  ps_cache :: "(solver_key \<times> (candidate_load_error + loaded_subject)) list"
  ps_interner :: candidate_interner

definition initial_state :: provider_state where
  "initial_state = \<lparr>ps_cache = [], ps_interner = empty_interner\<rparr>"

definition merge_within ::
  "prepared_candidate list \<Rightarrow> prepared_candidate \<Rightarrow> candidate_load_error + prepared_candidate list" where
  "merge_within unique release =
     (case position (\<lambda>c. identity_eq (pc_identity c) (pc_identity release)) unique of
        Some index \<Rightarrow>
          map_res (\<lambda>merged. take index unique @ drop (Suc index) unique @ [merged])
            (map_err (\<lambda>e. metadata_invalid
                (''conflicting metadata within subject: '' @ prepared_candidate_error_display e))
              (candidate_merge (unique ! index) release))
      | None \<Rightarrow> Inr (unique @ [release]))"

definition intern_pair ::
  "prepared_candidate \<Rightarrow> (candidate_interner, candidate_load_error, nat \<times> prepared_candidate) sm" where
  "intern_pair c = bind_s (intern c) (\<lambda>cid. ret_s (cid, c))"

definition prepare_subject ::
  "provider \<Rightarrow> solver_key \<Rightarrow> (candidate_interner, candidate_load_error, loaded_subject) sm" where
  "prepare_subject p subject =
     bind_s (lift_s (pv_loader p subject)) (\<lambda>result.
     bind_s (lift_s (try_fold merge_within [] (lr_candidates result))) (\<lambda>unique.
     bind_s (mapm_s intern_pair
              (filter (\<lambda>c. is_eligible_for c subject)
                (sort_by (\<lambda>l r. cmp_of (identity_sort_key (pc_identity l)) (identity_sort_key (pc_identity r)))
                  unique)))
       (\<lambda>candidates. ret_s \<lparr>ls_candidates = candidates, ls_quarantined = lr_quarantined result\<rparr>)))"

definition loaded :: "provider \<Rightarrow> solver_key \<Rightarrow> (provider_state, adapter_error, loaded_subject) sm" where
  "loaded p subject = (\<lambda>st.
     case hm_get solver_key_eq (ps_cache st) subject of
       Some cached \<Rightarrow> (map_err (adapter_error_at subject) cached, st)
     | None \<Rightarrow>
         (let (r, interner) = prepare_subject p subject (ps_interner st) in
          (map_err (adapter_error_at subject) r,
           \<lparr>ps_cache = hm_insert solver_key_eq (ps_cache st) subject r, ps_interner = interner\<rparr>)))"

definition candidates ::
  "provider \<Rightarrow> solver_key \<Rightarrow> (provider_state, adapter_error, (nat \<times> prepared_candidate) list) sm" where
  "candidates p subject = bind_s (loaded p subject) (\<lambda>l. ret_s (ls_candidates l))"

definition candidate_for_id ::
  "provider \<Rightarrow> solver_key \<Rightarrow> nat \<Rightarrow> (provider_state, adapter_error, prepared_candidate) sm" where
  "candidate_for_id p subject cid =
     bind_s (loaded p subject) (\<lambda>l.
       lift_s (case find (\<lambda>e. fst e = cid) (ls_candidates l) of
                 Some (_, c) \<Rightarrow> Inr c
               | None \<Rightarrow> Inl (adapter_error_at subject
                   (metadata_invalid ''selected candidate is not visible in this subject''))))"

definition pv_r_version :: "provider \<Rightarrow> r_package_version" where
  "pv_r_version p = rt_r_version (rq_target (pv_request p))"

definition pv_lock_decision :: "provider \<Rightarrow> solver_key \<Rightarrow> lock_decision" where
  "pv_lock_decision p subject =
     pv_lock_policy p subject (hm_get solver_key_eq (rq_locked (pv_request p)) subject)"

definition required_identity :: "lock_decision \<Rightarrow> release_identity option" where
  "required_identity decision = (case decision of Require identity \<Rightarrow> Some identity | _ \<Rightarrow> None)"

definition locked_identity :: "lock_decision \<Rightarrow> release_identity option" where
  "locked_identity decision =
     (case decision of Prefer identity \<Rightarrow> Some identity | Require identity \<Rightarrow> Some identity
      | UnlockedDecision \<Rightarrow> None)"

section \<open>Ranges\<close>

definition r_range :: "'r pubgrub_api \<Rightarrow> provider \<Rightarrow> version_constraint \<Rightarrow> 'r" where
  "r_range pg p constraint =
     (if satisfies constraint (pv_r_version p) then pg_singleton pg (VR (pv_r_version p)) else pg_empty pg)"

definition subject_for_package :: "provider \<Rightarrow> package_requirement \<Rightarrow> adapter_error + solver_key" where
  "subject_for_package p package =
     (case pr_source package of
        SourceGit _ \<Rightarrow>
          Inl (adapter_error_at (KeyInstalledName (pr_name package))
            (metadata_invalid (''Git-sourced dependencies are not supported for package '' @ pr_name package)))
      | source \<Rightarrow>
          if pr_name package = ''R'' then Inr KeyR
          else Inr (case source of
                      SourceAny \<Rightarrow>
                        (case exact_root_identity (pv_request p) (pr_name package) of
                           None \<Rightarrow> KeyInstalledName (pr_name package)
                         | Some identity \<Rightarrow> KeyExact identity)
                    | SourceRegistry namespace \<Rightarrow> KeyRegistry namespace (pr_name package)
                    | SourceBioconductor namespace release \<Rightarrow> KeyBioconductor namespace release (pr_name package)
                    | SourceRepository repository \<Rightarrow> KeyRepository repository (pr_name package)
                    | SourceExact identity \<Rightarrow> KeyExact identity))"

fun expansion_loop :: "provider \<Rightarrow> solver_key \<Rightarrow> root_requirement list \<Rightarrow> adapter_error + root_expansion_policy" where
  "expansion_loop p subject [] = Inr HardOnly"
| "expansion_loop p subject (root # roots) =
     bind_res (subject_for_package p (rr_package root)) (\<lambda>s.
       if solver_key_eq s subject \<and> rr_expansion root = DirectSuggests then Inr DirectSuggests
       else expansion_loop p subject roots)"

definition expansion_for_subject :: "provider \<Rightarrow> solver_key \<Rightarrow> adapter_error + root_expansion_policy" where
  "expansion_for_subject p subject = expansion_loop p subject (rq_roots (pv_request p))"

fun expansion_for_subjects :: "provider \<Rightarrow> solver_key list \<Rightarrow> adapter_error + root_expansion_policy" where
  "expansion_for_subjects p [] = Inr HardOnly"
| "expansion_for_subjects p (subject # subjects) =
     bind_res (expansion_for_subject p subject) (\<lambda>e.
       if e = DirectSuggests then Inr DirectSuggests else expansion_for_subjects p subjects)"

definition candidate_ranges ::
  "'r pubgrub_api \<Rightarrow> provider \<Rightarrow> solver_key \<Rightarrow> version_constraint \<Rightarrow> (provider_state, adapter_error, 'r) sm" where
  "candidate_ranges pg p subject constraint =
     bind_s (loaded p subject) (\<lambda>l.
       let rng = foldl (\<lambda>rng (cid, c).
             if satisfies constraint (pk_version (pc_release c))
             then pg_union pg rng (pg_singleton pg (VCandidate cid)) else rng)
             (pg_empty pg) (ls_candidates l);
           matching = filter (\<lambda>q. satisfies constraint (qc_version q)) (ls_quarantined l) in
       if required_identity (pv_lock_decision p subject) = None \<and> rng = pg_empty pg \<and> matching \<noteq> []
       then lift_s (Inl (adapter_error_at subject (metadata_invalid
              (''all candidates matching the requested range were quarantined: ''
               @ join_str '', '' (map (\<lambda>q. version_str (qc_version q)) matching)))))
       else ret_s rng)"

definition ranges_for_subject ::
  "'r pubgrub_api \<Rightarrow> provider \<Rightarrow> solver_key \<Rightarrow> version_constraint \<Rightarrow> (provider_state, adapter_error, 'r) sm" where
  "ranges_for_subject pg p subject constraint =
     (if subject = KeyR then ret_s (r_range pg p constraint) else candidate_ranges pg p subject constraint)"

section \<open>Publication policy and eligibility\<close>

definition publication_rejection ::
  "publication_cutoff \<Rightarrow> release_identity option \<Rightarrow> prepared_candidate \<Rightarrow> publication_rejection option" where
  "publication_rejection cutoff locked c =
     (if is_r_base_package (pc_release c) \<or> is_locked_to locked (pc_identity c) then None
      else case pk_publication (pc_release c) of
             Some publication \<Rightarrow>
               if rp_date publication > cutoff
               then Some (PublicationCooldown (pc_identity c) (rp_date publication)) else None
           | None \<Rightarrow> Some (PublicationUnknown (pc_identity c)))"

definition publication_rejections ::
  "provider \<Rightarrow> (nat \<times> prepared_candidate) list \<Rightarrow> release_identity option \<Rightarrow> publication_rejection list" where
  "publication_rejections p cs locked =
     (case rq_publication_cutoff (pv_request p) of
        None \<Rightarrow> []
      | Some cutoff \<Rightarrow>
          sort_by (\<lambda>l r. cmp_of (publication_rejection_sort_key l) (publication_rejection_sort_key r))
            (List.map_filter (\<lambda>e. publication_rejection cutoff locked (snd e)) cs))"

definition eligible_candidates ::
  "'r pubgrub_api \<Rightarrow> provider \<Rightarrow> solver_key \<Rightarrow> 'r option \<Rightarrow>
   (provider_state, adapter_error, (nat \<times> prepared_candidate) list \<times> preference_context) sm" where
  "eligible_candidates pg p subject rng =
     bind_s (candidates p subject) (\<lambda>cs.
       let decision = pv_lock_decision p subject;
           locked = locked_identity decision;
           eligible = filter (\<lambda>(cid, c).
             (case required_identity decision of None \<Rightarrow> True | Some identity \<Rightarrow> identity_eq (pc_identity c) identity)
             \<and> (case rng of None \<Rightarrow> True | Some r \<Rightarrow> pg_contains pg r (VCandidate cid))) cs;
           rejections = publication_rejections p eligible locked;
           kept = filter (\<lambda>(_, c).
             \<not> list_ex (\<lambda>rejection. identity_eq (pc_identity c) (rejection_identity rejection)) rejections) eligible in
       ret_s (if rq_publication_cutoff (pv_request p) \<noteq> None \<and> rejections \<noteq> [] \<and> kept \<noteq> [] then kept else eligible,
              \<lparr>px_locked = locked\<rparr>))"

definition publication_rejections_for_candidate ::
  "provider \<Rightarrow> solver_key \<Rightarrow> nat \<Rightarrow> (provider_state, adapter_error, publication_rejection list) sm" where
  "publication_rejections_for_candidate p subject cid =
     (let decision = pv_lock_decision p subject in
      bind_s (candidate_for_id p subject cid) (\<lambda>c.
        ret_s (if (case required_identity decision of Some identity \<Rightarrow> \<not> identity_eq (pc_identity c) identity | None \<Rightarrow> False)
               then [] else publication_rejections p [(cid, c)] (locked_identity decision))))"

section \<open>The callbacks\<close>

definition usize_max :: nat where
  "usize_max = 2 ^ 64 - 1"

definition prioritize ::
  "'r pubgrub_api \<Rightarrow> provider \<Rightarrow> package_id \<Rightarrow> 'r \<Rightarrow> provider_state \<Rightarrow> (nat \<times> string) \<times> provider_state" where
  "prioritize pg p package rng st =
     (let (count, st') =
        (case package of
           PRoot \<Rightarrow> (1, st)
         | PSubject KeyR \<Rightarrow> ((if pg_contains pg rng (VR (pv_r_version p)) then 1 else 0), st)
         | PSubject subject \<Rightarrow>
             (case candidates p subject st of
                (Inr cs, st') \<Rightarrow> (length (filter (\<lambda>e. pg_contains pg rng (VCandidate (fst e))) cs), st')
              | (Inl _, st') \<Rightarrow> (usize_max, st'))
         | POccupancy _ \<Rightarrow> (1, st))
      in ((count, debug_package_id package), st'))"

definition sort_candidates ::
  "provider \<Rightarrow> solver_key \<Rightarrow> (nat \<times> prepared_candidate) list \<Rightarrow> preference_context \<Rightarrow>
   (nat \<times> prepared_candidate) list" where
  "sort_candidates p subject cs context =
     sort_by (\<lambda>l r. compare_prepared_candidates (pv_preference p) subject (snd l) (snd r) context) cs"

definition pop :: "'a list \<Rightarrow> 'a option" where
  "pop xs = (if xs = [] then None else Some (last xs))"

definition choose_version ::
  "'r pubgrub_api \<Rightarrow> provider \<Rightarrow> package_id \<Rightarrow> 'r \<Rightarrow> (provider_state, adapter_error, solver_version option) sm" where
  "choose_version pg p package rng =
     (case package of
        PRoot \<Rightarrow> ret_s (if pg_contains pg rng VRoot then Some VRoot else None)
      | PSubject KeyR \<Rightarrow>
          ret_s (if pg_contains pg rng (VR (pv_r_version p)) then Some (VR (pv_r_version p)) else None)
      | PSubject subject \<Rightarrow>
          bind_s (eligible_candidates pg p subject (Some rng)) (\<lambda>(eligible, context).
            ret_s (map_option (\<lambda>e. VCandidate (fst e)) (pop (sort_candidates p subject eligible context))))
      | POccupancy name \<Rightarrow>
          (\<lambda>st. (Inr (map_option VCandidate
             (find (\<lambda>cid. pg_contains pg rng (VCandidate cid)) (ids_for_name (ps_interner st) name))), st)))"

fun dependency_loop ::
  "'r pubgrub_api \<Rightarrow> provider \<Rightarrow> resolved_dependency_edge list \<Rightarrow>
   (provider_state, adapter_error, provider_message + (package_id \<times> 'r) list) sm" where
  "dependency_loop pg p [] = ret_s (Inr [])"
| "dependency_loop pg p (e # es) =
     (case pr_source (re_package e) of
        SourceGit _ \<Rightarrow>
          ret_s (Inl (TextMessage
            (''Git-sourced dependencies are not supported for package '' @ pr_name (re_package e))))
      | _ \<Rightarrow>
          bind_s (lift_s (subject_for_package p (re_package e))) (\<lambda>subject.
          bind_s (ranges_for_subject pg p subject (pr_constraint (re_package e))) (\<lambda>rng.
          bind_s (dependency_loop pg p es) (\<lambda>rest.
          ret_s (map_res (\<lambda>deps. (PSubject subject, rng) # deps) rest)))))"

definition root_dependency ::
  "'r pubgrub_api \<Rightarrow> provider \<Rightarrow> root_requirement \<Rightarrow> (provider_state, adapter_error, package_id \<times> 'r) sm" where
  "root_dependency pg p requirement =
     bind_s (lift_s (subject_for_package p (rr_package requirement))) (\<lambda>subject.
     bind_s (ranges_for_subject pg p subject (pr_constraint (rr_package requirement))) (\<lambda>rng.
     ret_s (PSubject subject, rng)))"

definition subject_dependencies ::
  "'r pubgrub_api \<Rightarrow> provider \<Rightarrow> solver_key \<Rightarrow> nat \<Rightarrow> (provider_state, adapter_error, 'r dependencies) sm" where
  "subject_dependencies pg p subject cid =
     bind_s (publication_rejections_for_candidate p subject cid) (\<lambda>rejections.
       if rejections \<noteq> [] then ret_s (DepsUnavailable (PublicationMessage rejections))
       else
         bind_s (candidate_for_id p subject cid) (\<lambda>c.
         bind_s (lift_s (expansion_for_subject p subject)) (\<lambda>expansion.
         bind_s (dependency_loop pg p (project_dependency_edges (pc_release c) expansion)) (\<lambda>outcome.
         ret_s (case outcome of
                  Inl message \<Rightarrow> DepsUnavailable message
                | Inr deps \<Rightarrow>
                    DepsAvailable (pg_constraints pg
                      ((POccupancy (ri_name (pc_identity c)), pg_singleton pg (VCandidate cid)) # deps)))))))"

definition get_dependencies ::
  "'r pubgrub_api \<Rightarrow> provider \<Rightarrow> package_id \<Rightarrow> solver_version \<Rightarrow>
   (provider_state, adapter_error, 'r dependencies) sm" where
  "get_dependencies pg p package version =
     (case package of
        PRoot \<Rightarrow>
          if \<not> solver_version_eq version VRoot
          then ret_s (DepsUnavailable (TextMessage ''unknown root version''))
          else
            bind_s (mapm_s (root_dependency pg p) (rq_roots (pv_request p))) (\<lambda>deps.
            ret_s (DepsAvailable (pg_constraints pg
              ((PSubject KeyR, r_range pg p (rq_r_requirement (pv_request p))) # deps))))
      | PSubject KeyR \<Rightarrow> ret_s (DepsAvailable [])
      | PSubject subject \<Rightarrow>
          (case version of
             VCandidate cid \<Rightarrow> subject_dependencies pg p subject cid
           | _ \<Rightarrow> ret_s (DepsUnavailable (TextMessage ''unknown candidate version'')))
      | POccupancy _ \<Rightarrow> ret_s (DepsAvailable []))"

end
