(* ===== verification/Adapter_Inv.thy ===== *)
theory Adapter_Inv
  imports Adapter
begin

text \<open>
  Lemmas on the adapter: the invariant of the interner and of the cache, that every callback keeps
  it and only adds entries, and what a callback's answer says about the cached candidates.
\<close>

section \<open>Equality of keys, packages and versions\<close>

interpretation key_eq: rust_eq solver_key_eq
proof
  show "solver_key_eq a a" for a by (cases a) (simp_all add: id_eq.eq_refl)
  show "solver_key_eq a b \<Longrightarrow> solver_key_eq b a" for a b
    by (cases a; cases b) (auto intro: id_eq.eq_sym)
  show "solver_key_eq a b \<Longrightarrow> solver_key_eq b c \<Longrightarrow> solver_key_eq a c" for a b c
    by (cases a; cases b; cases c) (auto intro: id_eq.eq_trans)
qed

interpretation package_eq: rust_eq package_id_eq
proof
  show "package_id_eq a a" for a by (cases a) (simp_all add: key_eq.eq_refl)
  show "package_id_eq a b \<Longrightarrow> package_id_eq b a" for a b
    by (cases a; cases b) (auto intro: key_eq.eq_sym)
  show "package_id_eq a b \<Longrightarrow> package_id_eq b c \<Longrightarrow> package_id_eq a c" for a b c
    by (cases a; cases b; cases c) (auto intro: key_eq.eq_trans)
qed

lemma solver_key_eq_R [simp]: "solver_key_eq k KeyR \<longleftrightarrow> k = KeyR" "solver_key_eq KeyR k \<longleftrightarrow> k = KeyR"
  by (cases k; simp)+

lemma serves_key_cong: "solver_key_eq k k' \<Longrightarrow> serves i k oc = serves i k' oc"
proof (cases k; cases k')
  fix a b assume "solver_key_eq k k'" "k = KeyExact a" "k' = KeyExact b"
  then show ?thesis
    using id_eq.eq_cong_right[of a b i] identity_eq_name[of a b] by (simp add: serves_def)
qed auto

lemma is_eligible_key_cong:
  assumes "solver_key_eq k k'"
  shows "is_eligible_for c k = is_eligible_for c k'"
proof -
  have "(\<exists>i. k = KeyExact i \<and> identity_eq (pc_identity c) i) \<longleftrightarrow> (\<exists>i. k' = KeyExact i \<and> identity_eq (pc_identity c) i)"
  proof (cases k; cases k')
    fix a b assume "k = KeyExact a" "k' = KeyExact b"
    then show ?thesis using assms id_eq.eq_cong_right[of a b "pc_identity c"] by simp
  qed (use assms in auto)
  moreover have "k = KeyInstalledName n \<longleftrightarrow> k' = KeyInstalledName n" for n
    using assms by (cases k; cases k') auto
  ultimately show ?thesis unfolding is_eligible_iff serves_key_cong[OF assms] by blast
qed

section \<open>Interning\<close>

lemma candidate_same_facts_refl: "candidate_same_facts c c"
  by (simp add: candidate_same_facts_def id_eq.eq_refl vers_eq.eq_refl deps_eq.eq_refl)

definition interned :: "candidate_interner \<Rightarrow> nat \<Rightarrow> prepared_candidate \<Rightarrow> bool" where
  "interned i cid c \<longleftrightarrow> (\<exists>c0. hm_get (=) (in_candidates i) cid = Some c0 \<and> candidate_same_facts c0 c)"

definition interner_ok :: "candidate_interner \<Rightarrow> bool" where
  "interner_ok i \<longleftrightarrow>
     (\<forall>a cid. hm_get identity_eq (in_by_identity i) a = Some cid \<longrightarrow>
        (\<exists>c. hm_get (=) (in_candidates i) cid = Some c \<and> identity_eq (pc_identity c) a)) \<and>
     (\<forall>cid c. hm_get (=) (in_candidates i) cid = Some c \<longrightarrow>
        cid < in_next i \<and> hm_get identity_eq (in_by_identity i) (pc_identity c) = Some cid)"

definition interner_ext :: "candidate_interner \<Rightarrow> candidate_interner \<Rightarrow> bool" where
  "interner_ext i j \<longleftrightarrow>
     (\<forall>cid c. hm_get (=) (in_candidates i) cid = Some c \<longrightarrow> hm_get (=) (in_candidates j) cid = Some c)"

lemma interned_ext: "interner_ext i j \<Longrightarrow> interned i cid c \<Longrightarrow> interned j cid c"
  by (auto simp: interner_ext_def interned_def)

text \<open>Candidate identifiers are identities: equal exactly when the identities are.\<close>

lemma interned_identity_iff:
  assumes ok: "interner_ok i" and "interned i a c" "interned i b d"
  shows "identity_eq (pc_identity c) (pc_identity d) \<longleftrightarrow> a = b"
proof -
  obtain c0 d0 where c0: "hm_get (=) (in_candidates i) a = Some c0" "identity_eq (pc_identity c0) (pc_identity c)"
    and d0: "hm_get (=) (in_candidates i) b = Some d0" "identity_eq (pc_identity d0) (pc_identity d)"
    using assms(2,3) by (auto simp: interned_def candidate_same_facts_def)
  have "hm_get identity_eq (in_by_identity i) (pc_identity c) = Some a"
    using ok c0 id_eq.hm_get_cong[OF c0(2)] by (metis interner_ok_def)
  moreover have "hm_get identity_eq (in_by_identity i) (pc_identity d) = Some b"
    using ok d0 id_eq.hm_get_cong[OF d0(2)] by (metis interner_ok_def)
  moreover have "identity_eq (pc_identity c) (pc_identity d)" if "a = b"
    using c0 d0 that id_eq.eq_sym id_eq.eq_trans by (metis option.inject)
  ultimately show ?thesis
    using id_eq.hm_get_cong[of "pc_identity c" "pc_identity d" "in_by_identity i"] by auto
qed

lemma intern_cases:
  assumes "intern c i = (r, j)"
  obtains (old) "j = i" "\<And>cid. r = Inr cid \<Longrightarrow> interned i cid c"
  | (new) "hm_get identity_eq (in_by_identity i) (pc_identity c) = None" "r = Inr (in_next i)"
      "j = \<lparr>in_next = in_next i + 1,
            in_by_identity = hm_insert identity_eq (in_by_identity i) (pc_identity c) (in_next i),
            in_candidates = hm_insert (=) (in_candidates i) (in_next i) c\<rparr>"
proof (cases "hm_get identity_eq (in_by_identity i) (pc_identity c)")
  case None
  show ?thesis
  proof (cases "in_next i + 1 < 2 ^ 64")
    case True
    then show ?thesis using assms None by (intro new) (simp_all add: intern_def)
  next
    case False
    then show ?thesis using assms None by (intro old) (auto simp: intern_def)
  qed
next
  case (Some cid)
  then show ?thesis
    using assms by (intro old) (auto simp: intern_def interned_def split: option.splits if_splits)
qed

lemma intern_ok:
  assumes ok: "interner_ok i" and run: "intern c i = (r, j)"
  shows "interner_ok j \<and> interner_ext i j \<and> (\<forall>cid. r = Inr cid \<longrightarrow> interned j cid c)"
  using run
proof (cases rule: intern_cases)
  case old
  then show ?thesis using ok by (simp add: interner_ext_def)
next
  case new
  have fresh: "hm_get (=) (in_candidates i) (in_next i) = None"
    using ok by (cases "hm_get (=) (in_candidates i) (in_next i)") (auto simp: interner_ok_def)
  have cands: "hm_get (=) (in_candidates j) cid =
      (if in_next i = cid then Some c else hm_get (=) (in_candidates i) cid)" for cid
    by (simp add: new(3) hol_eq.hm_get_insert)
  have ids: "hm_get identity_eq (in_by_identity j) a =
      (if identity_eq (pc_identity c) a then Some (in_next i) else hm_get identity_eq (in_by_identity i) a)" for a
    by (simp add: new(3) id_eq.hm_get_insert)
  have nxt: "in_next j = Suc (in_next i)" by (simp add: new(3))
  have ext: "interner_ext i j" using fresh cands by (auto simp: interner_ext_def)
  have "\<not> identity_eq (pc_identity c) (pc_identity d)" if "hm_get (=) (in_candidates i) cid = Some d" for cid d
  proof
    assume "identity_eq (pc_identity c) (pc_identity d)"
    then have "hm_get identity_eq (in_by_identity i) (pc_identity d) = None"
      using new(1) id_eq.hm_get_cong by metis
    then show False using ok that by (auto simp: interner_ok_def)
  qed
  moreover have "\<exists>d. hm_get (=) (in_candidates j) cid = Some d \<and> identity_eq (pc_identity d) a"
    if get: "hm_get identity_eq (in_by_identity i) a = Some cid" for a cid
  proof -
    obtain d where "hm_get (=) (in_candidates i) cid = Some d" "identity_eq (pc_identity d) a"
      using ok get unfolding interner_ok_def by blast
    then show ?thesis using ext unfolding interner_ext_def by blast
  qed
  ultimately have "interner_ok j"
    using ok cands nxt by (auto simp: interner_ok_def ids id_eq.eq_refl less_SucI split: if_splits)
  then show ?thesis using ext cands new(2) candidate_same_facts_refl by (auto simp: interned_def)
qed

interpretation interning: state_protocol interner_ok interner_ext
  by unfold_locales (auto simp: interner_ext_def)

lemma keeps_intern: "keeps interner_ok interner_ext (intern c)"
  unfolding keeps_def using intern_ok by (metis prod.collapse)

lemma keeps_intern_pair: "keeps interner_ok interner_ext (intern_pair c)"
  unfolding intern_pair_def by (intro interning.keeps_intros keeps_intern)

lemma intern_pair_Inr_iff:
  "intern_pair c i = (Inr e, u) \<longleftrightarrow> (\<exists>cid. intern c i = (Inr cid, u) \<and> e = (cid, c))"
  by (auto simp: intern_pair_def bind_s_Inr_iff)

lemma intern_all:
  assumes "mapm_s intern_pair cs i = (Inr es, j)" "interner_ok i"
  shows "map snd es = cs \<and> (\<forall>e\<in>set es. interned j (fst e) (snd e))"
  using assms
proof (induction cs arbitrary: i es)
  case (Cons c cs)
  obtain cid u es' where head: "intern c i = (Inr cid, u)" and rest: "mapm_s intern_pair cs u = (Inr es', j)"
    and es: "es = (cid, c) # es'"
    using Cons.prems(1) by (auto simp: intern_pair_Inr_iff bind_s_Inr_iff)
  have u: "interner_ok u" "interned u cid c" using intern_ok[OF Cons.prems(2) head] by auto
  have "interner_ext u j"
    using interning.keepsD[OF interning.keeps_mapm u(1) rest] keeps_intern_pair by blast
  then show ?case using Cons.IH[OF rest u(1)] interned_ext[OF _ u(2)] by (simp add: es)
qed simp

section \<open>Merging within a subject\<close>

text \<open>
  What the candidates \<open>us\<close> of a subject say about the loaded ones \<open>xs\<close>: one per identity, each
  the union of the loaded candidates of its identity.
\<close>

definition within_ok :: "prepared_candidate list \<Rightarrow> prepared_candidate list \<Rightarrow> bool" where
  "within_ok xs us \<longleftrightarrow>
     sorted_wrt (\<lambda>a b. \<not> identity_eq (pc_identity a) (pc_identity b)) us \<and>
     (\<forall>u\<in>set us. unites (filter (\<lambda>x. identity_eq (pc_identity x) (pc_identity u)) xs) u \<and>
        (\<exists>x\<in>set xs. identity_eq (pc_identity x) (pc_identity u))) \<and>
     (\<forall>x\<in>set xs. \<exists>u\<in>set us. identity_eq (pc_identity u) (pc_identity x))"

lemma filter_same_id_cong:
  "identity_eq i j \<Longrightarrow> filter (\<lambda>x. identity_eq (pc_identity x) i) xs = filter (\<lambda>x. identity_eq (pc_identity x) j) xs"
  using id_eq.eq_cong_right by simp

lemma within_fresh:
  assumes "within_ok xs us" "\<forall>u\<in>set us. \<not> identity_eq (pc_identity u) (pc_identity x)"
  shows "within_ok (xs @ [x]) (us @ [x])"
proof -
  have none: "\<not> identity_eq (pc_identity y) (pc_identity x)" if "y \<in> set xs" for y
    using assms that id_eq.eq_trans unfolding within_ok_def by blast
  then have "filter (\<lambda>y. identity_eq (pc_identity y) (pc_identity x)) xs = []" by (simp add: filter_empty_conv)
  then show ?thesis
    using assms id_eq.eq_sym candidate_union.summary_first[of x]
    by (auto simp: within_ok_def sorted_wrt_append id_eq.eq_refl)
qed

lemma within_merge:
  assumes ok: "within_ok xs (as @ u # bs)" and ux: "identity_eq (pc_identity u) (pc_identity x)"
    and merge: "candidate_merge u x = Inr m"
  shows "within_ok (xs @ [x]) (as @ bs @ [m])"
proof -
  have m: "pc_identity m = pc_identity u" using candidate_merge_Inr(4)[OF merge] .
  have others: "\<not> identity_eq (pc_identity v) (pc_identity u)" if "v \<in> set as \<union> set bs" for v
    using ok that id_eq.eq_sym by (auto simp: within_ok_def sorted_wrt_append)
  have nx: "\<not> identity_eq (pc_identity x) (pc_identity v)" if "v \<in> set as \<union> set bs" for v
    using others[OF that] ux id_eq.eq_sym id_eq.eq_trans by blast
  have xu: "identity_eq (pc_identity x) (pc_identity u)" using ux by (rule id_eq.eq_sym)
  have "unites (filter (\<lambda>y. identity_eq (pc_identity y) (pc_identity u)) xs @ [x]) m"
    using ok merge unites_merge by (auto simp: within_ok_def)
  then show ?thesis
    using ok others nx xu ux id_eq.eq_sym
    by (auto simp: within_ok_def sorted_wrt_append m)
qed

lemma merge_within_ok:
  assumes "merge_within us x = Inr us'" "within_ok xs us"
  shows "within_ok (xs @ [x]) us'"
proof (cases "position (\<lambda>c. identity_eq (pc_identity c) (pc_identity x)) us")
  case None
  then have "us' = us @ [x]" using assms(1) by (simp add: merge_within_def)
  moreover have "\<forall>u\<in>set us. \<not> identity_eq (pc_identity u) (pc_identity x)"
    using None by (simp add: position_None_iff)
  ultimately show ?thesis using within_fresh[OF assms(2)] by simp
next
  case (Some index)
  then have i: "index < length us" "identity_eq (pc_identity (us ! index)) (pc_identity x)"
    by (auto simp: position_Some_iff)
  obtain m where m: "candidate_merge (us ! index) x = Inr m"
    and us': "us' = take index us @ drop (Suc index) us @ [m]"
    using assms(1) Some by (auto simp: merge_within_def map_res_Inr_iff)
  have "us = take index us @ us ! index # drop (Suc index) us" using i(1) by (rule id_take_nth_drop)
  then show ?thesis using within_merge[OF _ i(2) m] assms(2) us' by metis
qed

lemma merge_all_ok:
  assumes "try_fold merge_within [] xs = Inr us"
  shows "within_ok xs us"
  using assms
proof (induction xs arbitrary: us rule: rev_induct)
  case Nil
  then show ?case by (simp add: within_ok_def)
next
  case (snoc x xs)
  then show ?case using merge_within_ok by (auto simp: try_fold_append bind_res_Inr_iff)
qed

section \<open>The cache\<close>

lemma set_insort_by: "set (insort_by cmp x xs) = insert x (set xs)"
  by (induction xs) auto

lemma sorted_wrt_insort_by:
  "(\<And>a b. P a b \<Longrightarrow> P b a) \<Longrightarrow>
   sorted_wrt P (insort_by cmp x xs) \<longleftrightarrow> (\<forall>y\<in>set xs. P x y) \<and> sorted_wrt P xs"
  by (induction xs) (auto simp: set_insort_by)

lemma sorted_wrt_sort_by:
  assumes "\<And>a b. P a b \<Longrightarrow> P b a"
  shows "sorted_wrt P (sort_by cmp xs) \<longleftrightarrow> sorted_wrt P xs"
proof -
  have "set (sort_by cmp xs) = set xs" for xs by (induction xs) (simp_all add: set_insort_by)
  then show ?thesis by (induction xs) (simp_all add: sorted_wrt_insort_by[of P, OF assms])
qed

text \<open>What a cached answer says about the loader's answer for an equal subject.\<close>

definition subject_ok :: "provider \<Rightarrow> candidate_interner \<Rightarrow> solver_key \<Rightarrow> loaded_subject \<Rightarrow> bool" where
  "subject_ok p i k l \<longleftrightarrow>
     (\<exists>k0 r us. solver_key_eq k0 k \<and> pv_loader p k0 = Inr r \<and> within_ok (lr_candidates r) us \<and>
        snd ` set (ls_candidates l) = {u \<in> set us. is_eligible_for u k} \<and>
        ls_quarantined l = lr_quarantined r) \<and>
     (\<forall>e\<in>set (ls_candidates l). interned i (fst e) (snd e)) \<and>
     distinct (map fst (ls_candidates l))"

definition provider_ok :: "provider \<Rightarrow> provider_state \<Rightarrow> bool" where
  "provider_ok p st \<longleftrightarrow>
     interner_ok (ps_interner st) \<and>
     (\<forall>k l. hm_get solver_key_eq (ps_cache st) k = Some (Inr l) \<longrightarrow> subject_ok p (ps_interner st) k l)"

definition extends_state :: "provider_state \<Rightarrow> provider_state \<Rightarrow> bool" where
  "extends_state s t \<longleftrightarrow>
     interner_ext (ps_interner s) (ps_interner t) \<and>
     (\<forall>k r. hm_get solver_key_eq (ps_cache s) k = Some r \<longrightarrow> hm_get solver_key_eq (ps_cache t) k = Some r)"

interpretation providing: state_protocol "provider_ok p" extends_state for p
  by unfold_locales (auto simp: extends_state_def interner_ext_def)

lemma initial_ok: "provider_ok p initial_state"
  by (simp add: provider_ok_def initial_state_def empty_interner_def interner_ok_def)

lemma subject_ok_ext: "interner_ext i j \<Longrightarrow> subject_ok p i k l \<Longrightarrow> subject_ok p j k l"
  using interned_ext unfolding subject_ok_def by blast

lemma subject_ok_cong:
  assumes "solver_key_eq k k'" "subject_ok p i k l"
  shows "subject_ok p i k' l"
  using assms(2) key_eq.eq_trans[OF _ assms(1)]
  unfolding subject_ok_def is_eligible_key_cong[OF assms(1)] by blast

lemma keeps_prepare: "keeps interner_ok interner_ext (prepare_subject p k)"
  unfolding prepare_subject_def
  by (intro interning.keeps_intros keeps_intern_pair)

lemma distinct_interned:
  assumes "interner_ok j" "\<forall>e\<in>set es. interned j (fst e) (snd e)"
    and "sorted_wrt (\<lambda>a b. \<not> identity_eq (pc_identity a) (pc_identity b)) (map snd es)"
  shows "distinct (map fst es)"
  using assms(2,3)
proof (induction es)
  case (Cons e es)
  have "fst e \<noteq> fst d" if "d \<in> set es" for d
    using Cons.prems that interned_identity_iff[OF assms(1)] by force
  then show ?case using Cons by (auto simp: image_iff)
qed simp

lemma prepare_subject_ok:
  assumes "interner_ok i" "prepare_subject p k i = (Inr l, j)"
  shows "subject_ok p j k l"
proof -
  let ?key = "\<lambda>l r. cmp_of (identity_sort_key (pc_identity l)) (identity_sort_key (pc_identity r))"
  obtain r us es where r: "pv_loader p k = Inr r" and us: "try_fold merge_within [] (lr_candidates r) = Inr us"
    and es: "mapm_s intern_pair (filter (\<lambda>c. is_eligible_for c k) (sort_by ?key us)) i = (Inr es, j)"
    and l: "l = \<lparr>ls_candidates = es, ls_quarantined = lr_quarantined r\<rparr>"
    using assms(2) by (auto simp: prepare_subject_def bind_s_Inr_iff)
  have w: "within_ok (lr_candidates r) us" using us by (rule merge_all_ok)
  have I: "map snd es = filter (\<lambda>c. is_eligible_for c k) (sort_by ?key us)"
    "\<forall>e\<in>set es. interned j (fst e) (snd e)"
    using intern_all[OF es assms(1)] by auto
  have "set (map snd es) = {u \<in> set us. is_eligible_for u k}" unfolding I(1) by auto
  then have snds: "snd ` set es = {u \<in> set us. is_eligible_for u k}" by simp
  have "interner_ok j"
    using interning.keepsD[OF keeps_prepare assms] by blast
  moreover have "sorted_wrt (\<lambda>a b. \<not> identity_eq (pc_identity a) (pc_identity b)) (map snd es)"
    unfolding I(1) using w id_eq.eq_sym
    by (intro sorted_wrt_filter) (subst sorted_wrt_sort_by, blast, simp add: within_ok_def)
  ultimately have dist: "distinct (map fst es)" using distinct_interned I(2) by blast
  show ?thesis
    unfolding subject_ok_def
  proof (intro conjI exI)
    show "solver_key_eq k k" by (rule key_eq.eq_refl)
    show "pv_loader p k = Inr r" "within_ok (lr_candidates r) us" by (fact r, fact w)
    show "snd ` set (ls_candidates l) = {u \<in> set us. is_eligible_for u k}" using snds by (simp add: l)
    show "ls_quarantined l = lr_quarantined r" by (simp add: l)
    show "\<forall>e\<in>set (ls_candidates l). interned j (fst e) (snd e)" using I(2) by (simp add: l)
    show "distinct (map fst (ls_candidates l))" using dist by (simp add: l)
  qed
qed

lemma loaded_cached:
  "hm_get solver_key_eq (ps_cache st) k = Some (Inr l) \<Longrightarrow> loaded p k st = (Inr l, st)"
  by (simp add: loaded_def)

lemma loaded_ok:
  assumes ok: "provider_ok p st" and run: "loaded p k st = (r, st')"
  shows "provider_ok p st' \<and> extends_state st st' \<and>
         (\<forall>l. r = Inr l \<longrightarrow> hm_get solver_key_eq (ps_cache st') k = Some (Inr l))"
proof (cases "hm_get solver_key_eq (ps_cache st) k")
  case (Some c)
  then have "st' = st" "r = map_err (adapter_error_at k) c" using run by (auto simp: loaded_def)
  then show ?thesis using ok Some providing.ext_refl by (cases c) auto
next
  case None
  obtain q j where prep: "prepare_subject p k (ps_interner st) = (q, j)" by fastforce
  then have st': "st' = \<lparr>ps_cache = hm_insert solver_key_eq (ps_cache st) k q, ps_interner = j\<rparr>"
    and r: "r = map_err (adapter_error_at k) q"
    using run None by (auto simp: loaded_def)
  have iok: "interner_ok (ps_interner st)" using ok by (simp add: provider_ok_def)
  then have j: "interner_ok j" "interner_ext (ps_interner st) j"
    using interning.keepsD[OF keeps_prepare _ prep] by auto
  have cache: "hm_get solver_key_eq (ps_cache st') k' =
      (if solver_key_eq k k' then Some q else hm_get solver_key_eq (ps_cache st) k')" for k'
    by (simp add: st' key_eq.hm_get_insert)
  have "subject_ok p j k' l" if "hm_get solver_key_eq (ps_cache st') k' = Some (Inr l)" for k' l
  proof (cases "solver_key_eq k k'")
    case True
    then have "q = Inr l" using that cache by simp
    then show ?thesis using prepare_subject_ok[OF iok] prep subject_ok_cong[OF True] by blast
  next
    case False
    then have "subject_ok p (ps_interner st) k' l" using ok that cache by (simp add: provider_ok_def)
    then show ?thesis by (rule subject_ok_ext[OF j(2)])
  qed
  then have "provider_ok p st'" using j(1) by (simp add: provider_ok_def st')
  moreover have "extends_state st st'"
    unfolding extends_state_def cache
    using j(2) None key_eq.hm_get_cong[of k _ "ps_cache st"] by (auto simp: st')
  moreover have "q = Inr l" if "r = Inr l" for l using that r by simp
  ultimately show ?thesis using cache[of k] by (simp add: key_eq.eq_refl)
qed

lemma keeps_loaded: "keeps (provider_ok p) extends_state (loaded p k)"
  unfolding keeps_def using loaded_ok by (metis prod.collapse)

lemma keeps_candidates: "keeps (provider_ok p) extends_state (candidates p k)"
  unfolding candidates_def by (intro providing.keeps_intros keeps_loaded)

lemma keeps_candidate_for_id: "keeps (provider_ok p) extends_state (candidate_for_id p k cid)"
  unfolding candidate_for_id_def by (intro providing.keeps_intros keeps_loaded)

lemma keeps_ranges: "keeps (provider_ok p) extends_state (ranges_for_subject pg p k c)"
  unfolding ranges_for_subject_def candidate_ranges_def Let_def
  by (auto intro!: providing.keeps_intros keeps_loaded)

lemma keeps_eligible: "keeps (provider_ok p) extends_state (eligible_candidates pg p k r)"
  unfolding eligible_candidates_def Let_def by (intro providing.keeps_intros keeps_candidates)

lemma keeps_rejections: "keeps (provider_ok p) extends_state (publication_rejections_for_candidate p k cid)"
  unfolding publication_rejections_for_candidate_def Let_def
  by (intro providing.keeps_intros keeps_candidate_for_id)

lemma keeps_dependency_loop: "keeps (provider_ok p) extends_state (dependency_loop pg p es)"
  by (induction es)
    (auto intro!: providing.keeps_intros keeps_ranges split: dependency_source_constraint.split)

lemma keeps_root_dependency: "keeps (provider_ok p) extends_state (root_dependency pg p q)"
  unfolding root_dependency_def by (intro providing.keeps_intros keeps_ranges)

lemma keeps_subject_dependencies: "keeps (provider_ok p) extends_state (subject_dependencies pg p k cid)"
  unfolding subject_dependencies_def
  by (auto intro!: providing.keeps_bind providing.keeps_ret providing.keeps_lift keeps_rejections
      keeps_candidate_for_id keeps_dependency_loop)

lemma keeps_get_dependencies: "keeps (provider_ok p) extends_state (get_dependencies pg p q v)"
  unfolding get_dependencies_def
  by (auto intro!: providing.keeps_bind providing.keeps_ret providing.keeps_mapm keeps_root_dependency
      keeps_subject_dependencies split: package_id.split solver_key.split solver_version.split)

lemma keeps_state: "(\<And>st. snd (m st) = st) \<Longrightarrow> keeps (provider_ok p) extends_state m"
  by (simp add: keeps_def providing.ext_refl)

lemma keeps_choose_version: "keeps (provider_ok p) extends_state (choose_version pg p q r)"
proof -
  have "keeps (provider_ok p) extends_state
      (bind_s (eligible_candidates pg p k (Some r)) (\<lambda>(eligible, context).
        ret_s (map_option (\<lambda>e. VCandidate (fst e)) (pop (sort_candidates p k eligible context)))))" for k
    by (intro providing.keeps_bind keeps_eligible) (auto intro: providing.keeps_ret)
  then show ?thesis
    unfolding choose_version_def
    by (auto intro!: providing.keeps_ret keeps_state split: package_id.split solver_key.split)
qed

lemma prioritize_ok:
  assumes "provider_ok p st"
  shows "provider_ok p (snd (prioritize pg p q r st)) \<and> extends_state st (snd (prioritize pg p q r st))"
proof -
  have *: "provider_ok p (snd (candidates p k st)) \<and> extends_state st (snd (candidates p k st))" for k
    using keeps_candidates assms by (auto simp: keeps_def)
  have "snd (prioritize pg p q r st) = st \<or> (\<exists>k. snd (prioritize pg p q r st) = snd (candidates p k st))"
  proof -
    have "snd (prioritize pg p (PSubject k) r st) = snd (candidates p k st)" if "k \<noteq> KeyR" for k
      using that by (cases k) (simp_all add: prioritize_def split: prod.split sum.split)
    moreover have "snd (prioritize pg p q r st) = st" if "\<forall>k. q = PSubject k \<longrightarrow> k = KeyR"
      using that by (cases q) (simp_all add: prioritize_def)
    ultimately show ?thesis by metis
  qed
  then show ?thesis using * assms providing.ext_refl by metis
qed

section \<open>What an answer says\<close>

text \<open>A candidate is visible in a subject when the cached answer of the subject contains it.\<close>

definition visible :: "provider_state \<Rightarrow> solver_key \<Rightarrow> nat \<Rightarrow> prepared_candidate \<Rightarrow> bool" where
  "visible st k cid c \<longleftrightarrow>
     (\<exists>l. hm_get solver_key_eq (ps_cache st) k = Some (Inr l) \<and> (cid, c) \<in> set (ls_candidates l))"

lemma visible_ext: "extends_state s t \<Longrightarrow> visible s k cid c \<Longrightarrow> visible t k cid c"
  by (auto simp: extends_state_def visible_def)

lemma visible_cong: "solver_key_eq k k' \<Longrightarrow> visible st k cid c \<Longrightarrow> visible st k' cid c"
  using key_eq.hm_get_cong[of k k' "ps_cache st"] by (simp add: visible_def)

lemma visible_facts:
  assumes "provider_ok p st" "visible st k cid c"
  shows "interned (ps_interner st) cid c" and "is_eligible_for c k"
    and "\<exists>k0 r. solver_key_eq k0 k \<and> pv_loader p k0 = Inr r \<and>
           unites (filter (\<lambda>x. identity_eq (pc_identity x) (pc_identity c)) (lr_candidates r)) c \<and>
           (\<exists>x\<in>set (lr_candidates r). identity_eq (pc_identity x) (pc_identity c))"
proof -
  obtain l where l: "hm_get solver_key_eq (ps_cache st) k = Some (Inr l)" "(cid, c) \<in> set (ls_candidates l)"
    using assms(2) by (auto simp: visible_def)
  then have ok: "subject_ok p (ps_interner st) k l" using assms(1) by (simp add: provider_ok_def)
  then show "interned (ps_interner st) cid c" using l(2) by (fastforce simp: subject_ok_def)
  obtain k0 r us where k0: "solver_key_eq k0 k" "pv_loader p k0 = Inr r" "within_ok (lr_candidates r) us"
    and us: "snd ` set (ls_candidates l) = {u \<in> set us. is_eligible_for u k}"
    using ok unfolding subject_ok_def by blast
  have c: "c \<in> set us" "is_eligible_for c k" using us l(2) by force+
  show "is_eligible_for c k" by (rule c)
  show "\<exists>k0 r. solver_key_eq k0 k \<and> pv_loader p k0 = Inr r \<and>
          unites (filter (\<lambda>x. identity_eq (pc_identity x) (pc_identity c)) (lr_candidates r)) c \<and>
          (\<exists>x\<in>set (lr_candidates r). identity_eq (pc_identity x) (pc_identity c))"
    using k0 c(1) unfolding within_ok_def by blast
qed

lemma visible_unique:
  assumes "provider_ok p st" "visible st k cid c" "visible st k cid d"
  shows "c = d"
proof -
  obtain l where l: "hm_get solver_key_eq (ps_cache st) k = Some (Inr l)"
    "(cid, c) \<in> set (ls_candidates l)" "(cid, d) \<in> set (ls_candidates l)"
    using assms(2,3) by (auto simp: visible_def)
  then have "distinct (map fst (ls_candidates l))"
    using assms(1) by (auto simp: provider_ok_def subject_ok_def)
  then show ?thesis using l(2,3) by (metis eq_key_imp_eq_value)
qed

lemma loaded_visible:
  assumes "provider_ok p st" "loaded p k st = (Inr l, st')"
  shows "visible st' k cid c \<longleftrightarrow> (cid, c) \<in> set (ls_candidates l)"
  using loaded_ok[OF assms] by (auto simp: visible_def)

lemma find_SomeD: "find P xs = Some x \<Longrightarrow> x \<in> set xs \<and> P x"
  by (auto simp: find_Some_iff)

lemma candidate_for_id_visible:
  assumes "provider_ok p st" "candidate_for_id p k cid st = (Inr c, st')"
  shows "visible st' k cid c"
proof -
  obtain l where l: "loaded p k st = (Inr l, st')"
    and f: "(case find (\<lambda>e. fst e = cid) (ls_candidates l) of Some (_, c) \<Rightarrow> Inr c
       | None \<Rightarrow> Inl (adapter_error_at k
           (metadata_invalid ''selected candidate is not visible in this subject''))) = (Inr c :: adapter_error + prepared_candidate)"
    using assms(2) by (auto simp: candidate_for_id_def bind_s_Inr_iff)
  then have "(cid, c) \<in> set (ls_candidates l)"
    by (auto dest: find_SomeD split: option.splits)
  then show ?thesis using loaded_visible[OF assms(1) l] by blast
qed

lemma visible_candidate_for_id:
  assumes "provider_ok p st" "visible st k cid c"
  shows "candidate_for_id p k cid st = (Inr c, st)"
proof -
  obtain l where l: "hm_get solver_key_eq (ps_cache st) k = Some (Inr l)" "(cid, c) \<in> set (ls_candidates l)"
    using assms(2) by (auto simp: visible_def)
  have "find (\<lambda>e. fst e = cid) (ls_candidates l) \<noteq> None"
    using l(2) by (auto simp: find_None_iff)
  then obtain e where e: "find (\<lambda>e. fst e = cid) (ls_candidates l) = Some e" by blast
  then have "fst e = cid" by (auto dest: find_SomeD)
  then obtain d where d: "find (\<lambda>e. fst e = cid) (ls_candidates l) = Some (cid, d)"
    using e by (cases e) simp
  then have "(cid, d) \<in> set (ls_candidates l)" by (auto dest: find_SomeD)
  then have "d = c" using visible_unique[OF assms(1) _ assms(2)] l(1) by (auto simp: visible_def)
  then show ?thesis
    using d loaded_cached[OF l(1)] by (simp add: candidate_for_id_def bind_s_def lift_s_def)
qed

text \<open>
  The documented laws of PubGrub's version sets, and that its constraint container keeps every entry it is
  built from, repeated packages included: the adapter pushes one entry per dependency and does not merge
  them, so it relies on a container that does not drop any.
\<close>

definition pubgrub_laws :: "'r pubgrub_api \<Rightarrow> bool" where
  "pubgrub_laws pg \<longleftrightarrow>
     (\<forall>v. \<not> pg_contains pg (pg_empty pg) v) \<and>
     (\<forall>u v. pg_contains pg (pg_singleton pg u) v \<longleftrightarrow> solver_version_eq u v) \<and>
     (\<forall>a b v. pg_contains pg (pg_union pg a b) v \<longleftrightarrow> pg_contains pg a v \<or> pg_contains pg b v) \<and>
     (\<forall>ds. set ds \<subseteq> set (pg_constraints pg ds))"

lemma solver_version_eq_candidate [simp]: "solver_version_eq (VCandidate a) v \<longleftrightarrow> v = VCandidate a"
  by (cases v) auto

lemma fold_ranges:
  assumes "pubgrub_laws pg"
  shows "pg_contains pg (foldl (\<lambda>rng (cid, c).
             if P c then pg_union pg rng (pg_singleton pg (VCandidate cid)) else rng) r0 es) v \<longleftrightarrow>
         pg_contains pg r0 v \<or> (\<exists>(cid, c)\<in>set es. P c \<and> v = VCandidate cid)"
proof (induction es arbitrary: r0)
  case (Cons e es)
  then show ?case using assms by (cases e) (auto simp: pubgrub_laws_def)
qed simp

text \<open>Which versions a range of a subject contains.\<close>

definition range_ok ::
  "'r pubgrub_api \<Rightarrow> provider \<Rightarrow> provider_state \<Rightarrow> solver_key \<Rightarrow> version_constraint \<Rightarrow> 'r \<Rightarrow> bool" where
  "range_ok pg p st k c rng \<longleftrightarrow>
     (if k = KeyR
      then \<forall>v. pg_contains pg rng v \<longrightarrow> (\<exists>w. v = VR w \<and> version_eq (pv_r_version p) w) \<and> satisfies c (pv_r_version p)
      else \<forall>v. pg_contains pg rng v \<longrightarrow>
                 (\<exists>cid x. v = VCandidate cid \<and> visible st k cid x \<and> satisfies c (pk_version (pc_release x))))"

lemma r_range_ok: "pubgrub_laws pg \<Longrightarrow> range_ok pg p st KeyR c (r_range pg p c)"
proof -
  assume laws: "pubgrub_laws pg"
  have "solver_version_eq (VR a) v \<longleftrightarrow> (\<exists>w. v = VR w \<and> version_eq a w)" for a v by (cases v) auto
  then show ?thesis using laws by (simp add: range_ok_def r_range_def pubgrub_laws_def)
qed

lemma ranges_for_subject_ok:
  assumes "pubgrub_laws pg" "provider_ok p st" "ranges_for_subject pg p k c st = (Inr rng, st')"
  shows "range_ok pg p st' k c rng"
proof (cases "k = KeyR")
  case True
  then show ?thesis using assms r_range_ok by (auto simp: ranges_for_subject_def)
next
  case False
  then obtain l where l: "loaded p k st = (Inr l, st')"
    and rng: "rng = foldl (\<lambda>rng (cid, x). if satisfies c (pk_version (pc_release x))
             then pg_union pg rng (pg_singleton pg (VCandidate cid)) else rng) (pg_empty pg) (ls_candidates l)"
    using assms(3)
    by (auto simp: ranges_for_subject_def candidate_ranges_def bind_s_Inr_iff Let_def split: if_splits)
  have "\<not> pg_contains pg (pg_empty pg) v" for v using assms(1) by (simp add: pubgrub_laws_def)
  then show ?thesis
    using False loaded_visible[OF assms(2) l] by (auto simp: range_ok_def rng fold_ranges[OF assms(1)])
qed

lemma range_ok_ext: "extends_state s t \<Longrightarrow> range_ok pg p s k c rng \<Longrightarrow> range_ok pg p t k c rng"
  using visible_ext unfolding range_ok_def by metis

text \<open>A requirement is covered by a list of constraints.\<close>

definition covered ::
  "'r pubgrub_api \<Rightarrow> provider \<Rightarrow> provider_state \<Rightarrow> (package_id \<times> 'r) list \<Rightarrow> package_requirement \<Rightarrow> bool" where
  "covered pg p st deps q \<longleftrightarrow>
     (\<exists>k rng. subject_for_package p q = Inr k \<and> (PSubject k, rng) \<in> set deps \<and>
        range_ok pg p st k (pr_constraint q) rng)"

lemma covered_mono:
  assumes "extends_state s t" "set ds \<subseteq> set es" "covered pg p s ds q"
  shows "covered pg p t es q"
  using assms(2,3) range_ok_ext[OF assms(1), of pg p] unfolding covered_def by (meson subsetD)

lemma root_dependency_covered:
  assumes "pubgrub_laws pg" "provider_ok p st" "root_dependency pg p q st = (Inr d, st')"
  shows "covered pg p st' [d] (rr_package q)"
proof -
  obtain k rng where "subject_for_package p (rr_package q) = Inr k"
    and "ranges_for_subject pg p k (pr_constraint (rr_package q)) st = (Inr rng, st')"
    and "d = (PSubject k, rng)"
    using assms(3) by (auto simp: root_dependency_def bind_s_Inr_iff)
  moreover from this have "range_ok pg p st' k (pr_constraint (rr_package q)) rng"
    using ranges_for_subject_ok[OF assms(1,2)] by blast
  ultimately show ?thesis unfolding covered_def by (meson list.set_intros(1))
qed

lemma covered_tail: "covered pg p st ds q \<Longrightarrow> covered pg p st (d # ds) q"
  unfolding covered_def by (meson list.set_intros(2))

lemma root_dependencies_covered:
  assumes "pubgrub_laws pg" "provider_ok p st" "mapm_s (root_dependency pg p) qs st = (Inr ds, st')"
  shows "\<forall>q\<in>set qs. covered pg p st' ds (rr_package q)"
  using assms(2,3)
proof (induction qs arbitrary: st ds)
  case (Cons q qs)
  obtain d u ds' where d: "root_dependency pg p q st = (Inr d, u)"
    and rest: "mapm_s (root_dependency pg p) qs u = (Inr ds', st')" and ds: "ds = d # ds'"
    using Cons.prems(2) by (auto simp: bind_s_Inr_iff)
  have u: "provider_ok p u" using providing.keepsD[OF keeps_root_dependency Cons.prems(1) d] by blast
  have ext: "extends_state u st'"
    using providing.keepsD[OF providing.keeps_mapm u rest] keeps_root_dependency by blast
  show ?case
    using root_dependency_covered[OF assms(1) Cons.prems(1) d] Cons.IH[OF u rest]
      covered_mono[OF ext, of "[d]" ds] covered_tail[of pg p st' ds' _ d]
    by (auto simp: ds)
qed simp

lemma dependency_loop_covered:
  assumes "pubgrub_laws pg" "provider_ok p st" "dependency_loop pg p es st = (Inr (Inr ds), st')"
  shows "\<forall>e\<in>set es. covered pg p st' ds (re_package e)"
  using assms(2,3)
proof (induction es arbitrary: st ds)
  case (Cons e es)
  have "\<exists>k rng u ds'. subject_for_package p (re_package e) = Inr k \<and>
      ranges_for_subject pg p k (pr_constraint (re_package e)) st = (Inr rng, u) \<and>
      dependency_loop pg p es u = (Inr (Inr ds'), st') \<and> ds = (PSubject k, rng) # ds'"
    using Cons.prems(2)
    by (cases "pr_source (re_package e)")
      (auto simp: bind_s_Inr_iff map_res_Inr_iff eq_commute[of "Inr ds"])
  then obtain k rng u ds' where k: "subject_for_package p (re_package e) = Inr k"
    and r: "ranges_for_subject pg p k (pr_constraint (re_package e)) st = (Inr rng, u)"
    and rest: "dependency_loop pg p es u = (Inr (Inr ds'), st')" and ds: "ds = (PSubject k, rng) # ds'"
    by blast
  have u: "provider_ok p u" using providing.keepsD[OF keeps_ranges Cons.prems(1) r] by blast
  have ext: "extends_state u st'" using providing.keepsD[OF keeps_dependency_loop u rest] by blast
  have "covered pg p st' ds (re_package e)"
    using range_ok_ext[OF ext ranges_for_subject_ok[OF assms(1) Cons.prems(1) r]] k
    by (auto simp: covered_def ds)
  then show ?case
    using Cons.IH[OF u rest] by (auto simp: ds intro: covered_tail)
qed simp

text \<open>The publication policy admits a candidate of a subject.\<close>

definition publication_ok :: "provider \<Rightarrow> solver_key \<Rightarrow> prepared_candidate \<Rightarrow> bool" where
  "publication_ok p k c \<longleftrightarrow>
     (\<forall>cutoff. rq_publication_cutoff (pv_request p) = Some cutoff \<longrightarrow>
        is_r_base_package (pc_release c) \<or>
        is_locked_to (locked_identity (pv_lock_decision p k)) (pc_identity c) \<or>
        (\<exists>d. pk_publication (pc_release c) = Some d \<and> rp_date d \<le> cutoff))"

lemma publication_rejections_Nil:
  "publication_rejections p [(cid, c)] (locked_identity (pv_lock_decision p k)) = [] \<longleftrightarrow> publication_ok p k c"
  by (auto simp: publication_rejections_def publication_ok_def publication_rejection_def map_filter_simps
      not_less split: option.splits)

text \<open>
  The lock decision excludes a candidate.  PubGrub only asks for the dependencies of versions that
  \<^verbatim>\<open>choose_version\<close> returned, which never returns an excluded candidate.
\<close>

definition excluded_by_lock :: "provider \<Rightarrow> solver_key \<Rightarrow> prepared_candidate \<Rightarrow> bool" where
  "excluded_by_lock p k c \<longleftrightarrow>
     (\<exists>i. pv_lock_decision p k = Require i \<and> \<not> identity_eq (pc_identity c) i)"

lemma outcome_available:
  "(case outcome of Inl m \<Rightarrow> DepsUnavailable m | Inr d \<Rightarrow> DepsAvailable (f d)) = DepsAvailable deps \<longleftrightarrow>
     (\<exists>d. outcome = Inr d \<and> deps = f d)"
  by (auto split: sum.splits)

lemma subject_dependencies_available:
  assumes laws: "pubgrub_laws pg" and ok: "provider_ok p st"
    and run: "subject_dependencies pg p k cid st = (Inr (DepsAvailable deps), st')"
  shows "\<exists>c expansion. visible st' k cid c \<and> expansion_for_subject p k = Inr expansion \<and>
           (publication_ok p k c \<or> excluded_by_lock p k c) \<and>
           (POccupancy (ri_name (pc_identity c)), pg_singleton pg (VCandidate cid)) \<in> set deps \<and>
           (\<forall>e\<in>set (project_dependency_edges (pc_release c) expansion). covered pg p st' deps (re_package e))"
proof -
  obtain s1 c expansion s2 ds where
    rej: "publication_rejections_for_candidate p k cid st = (Inr [], s1)"
    and c: "candidate_for_id p k cid s1 = (Inr c, s2)"
    and e: "expansion_for_subject p k = Inr expansion"
    and loop: "dependency_loop pg p (project_dependency_edges (pc_release c) expansion) s2 = (Inr (Inr ds), st')"
    and deps: "deps = pg_constraints pg
                 ((POccupancy (ri_name (pc_identity c)), pg_singleton pg (VCandidate cid)) # ds)"
    using run
    by (auto simp: subject_dependencies_def bind_s_Inr_iff outcome_available
        eq_commute[of "DepsAvailable deps"] split: if_splits)
  obtain c1 where c1: "candidate_for_id p k cid st = (Inr c1, s1)"
    and empty: "(if (case required_identity (pv_lock_decision p k) of
                       Some i \<Rightarrow> \<not> identity_eq (pc_identity c1) i | None \<Rightarrow> False)
                 then [] else publication_rejections p [(cid, c1)] (locked_identity (pv_lock_decision p k))) = []"
    using rej by (auto simp: publication_rejections_for_candidate_def bind_s_Inr_iff Let_def)
  have s1: "provider_ok p s1" using providing.keepsD[OF keeps_candidate_for_id ok c1] by blast
  have s2: "provider_ok p s2" "extends_state s1 s2" using providing.keepsD[OF keeps_candidate_for_id s1 c] by auto
  have "visible s2 k cid c1" using visible_ext[OF s2(2)] candidate_for_id_visible[OF ok c1] by blast
  then have "c1 = c" using visible_unique[OF s2(1)] candidate_for_id_visible[OF s1 c] by blast
  then have pub: "publication_ok p k c \<or> excluded_by_lock p k c"
    using empty publication_rejections_Nil[of p cid c k]
    by (cases "pv_lock_decision p k") (auto simp: required_identity_def excluded_by_lock_def split: if_splits)
  have ext: "extends_state s2 st'" using providing.keepsD[OF keeps_dependency_loop s2(1) loop] by blast
  have keep: "set ((POccupancy (ri_name (pc_identity c)), pg_singleton pg (VCandidate cid)) # ds) \<subseteq> set deps"
    using laws unfolding deps pubgrub_laws_def by blast
  have "covered pg p st' deps (re_package x)"
    if "x \<in> set (project_dependency_edges (pc_release c) expansion)" for x
    using dependency_loop_covered[OF laws s2(1) loop] that keep
    by (intro covered_mono[OF providing.ext_refl, of ds deps]) auto
  moreover have "visible st' k cid c" using visible_ext[OF ext] candidate_for_id_visible[OF s1 c] by blast
  ultimately show ?thesis using e pub keep by auto
qed

lemma root_dependencies_available:
  assumes laws: "pubgrub_laws pg" and ok: "provider_ok p st"
    and run: "get_dependencies pg p PRoot VRoot st = (Inr (DepsAvailable deps), st')"
  shows "(PSubject KeyR, r_range pg p (rq_r_requirement (pv_request p))) \<in> set deps"
    and "\<forall>q\<in>set (rq_roots (pv_request p)). covered pg p st' deps (rr_package q)"
proof -
  obtain ds where ds: "mapm_s (root_dependency pg p) (rq_roots (pv_request p)) st = (Inr ds, st')"
    and deps: "deps = pg_constraints pg ((PSubject KeyR, r_range pg p (rq_r_requirement (pv_request p))) # ds)"
    using run by (auto simp: get_dependencies_def bind_s_Inr_iff)
  have keep: "set ((PSubject KeyR, r_range pg p (rq_r_requirement (pv_request p))) # ds) \<subseteq> set deps"
    using laws unfolding deps pubgrub_laws_def by blast
  then show "(PSubject KeyR, r_range pg p (rq_r_requirement (pv_request p))) \<in> set deps" by simp
  show "\<forall>q\<in>set (rq_roots (pv_request p)). covered pg p st' deps (rr_package q)"
    using root_dependencies_covered[OF laws ok ds] keep
    by (auto intro: covered_mono[OF providing.ext_refl, of ds deps])
qed

end
