(* ===== verification/Solve.thy ===== *)
theory Solve
  imports Adapter_Inv
begin

text \<open>
  The second half of \<^verbatim>\<open>rsolve-resolver/src/adapter.rs\<close>: \<^verbatim>\<open>solve\<close> and the translation of PubGrub's
  errors.  PubGrub's \<^verbatim>\<open>resolve\<close> is the argument \<open>run\<close>: it drives the callbacks and returns a
  selection or an error.
\<close>

section \<open>Failures\<close>

record publication_policy_diagnostic =
  pd_cutoff :: publication_cutoff
  pd_rejections :: "publication_rejection list"

record resolution_diagnostic =
  rd_summary :: string
  rd_publication_policy :: "publication_policy_diagnostic option"

datatype resolution_failure =
    CandidateLoad solver_key candidate_load_error
  | NoSolution resolution_diagnostic
  | InstalledNameConflict package_name release_identity release_identity
  | SolverFailure resolution_diagnostic

text \<open>\<^verbatim>\<open>show_date\<close> is the calendar library's rendering of a date.\<close>

fun resolution_failure_display :: "(publication_date \<Rightarrow> string) \<Rightarrow> resolution_failure \<Rightarrow> string" where
  "resolution_failure_display show_date (CandidateLoad package source) =
     ''candidate load for '' @ debug_solver_key package @ '' failed: '' @ candidate_load_error_display source"
| "resolution_failure_display show_date (NoSolution diagnostic) =
     ''no resolution''
     @ (case rd_publication_policy diagnostic of
          Some policy \<Rightarrow>
            '' (publication policy evidence in proof: cutoff '' @ show_date (pd_cutoff policy)
            @ '', '' @ show_nat (length (pd_rejections policy)) @ '' rejection(s))''
        | None \<Rightarrow> '''')
     @ '': '' @ rd_summary diagnostic"
| "resolution_failure_display show_date (InstalledNameConflict name first second) =
     ''installed package name '' @ name @ '' maps to distinct identities '' @ identity_sort_key first
     @ '' and '' @ identity_sort_key second"
| "resolution_failure_display show_date (SolverFailure diagnostic) =
     ''resolver failure: '' @ rd_summary diagnostic"

definition map_adapter_error :: "adapter_error \<Rightarrow> resolution_failure" where
  "map_adapter_error e = CandidateLoad (ae_package e) (ae_source e)"

text \<open>
  The part of PubGrub's derivation tree that the code inspects: a custom external node carries a
  message, every other external node is opaque, a derived node has two causes.
\<close>

datatype derivation_tree =
    ExternalCustom provider_message
  | ExternalOther
  | Derived derivation_tree derivation_tree

datatype pubgrub_error =
    ErrorRetrievingDependencies adapter_error
  | ErrorChoosingVersion adapter_error
  | ErrorInShouldCancel adapter_error
  | NoSolutionTree derivation_tree

fun collect_publication_leaves :: "derivation_tree \<Rightarrow> publication_rejection list \<Rightarrow> publication_rejection list" where
  "collect_publication_leaves (ExternalCustom (PublicationMessage leaf)) rejections = rejections @ leaf"
| "collect_publication_leaves (ExternalCustom (TextMessage _)) rejections = rejections"
| "collect_publication_leaves ExternalOther rejections = rejections"
| "collect_publication_leaves (Derived cause1 cause2) rejections =
     collect_publication_leaves cause2 (collect_publication_leaves cause1 rejections)"

fun rejection_tail_cmp :: "publication_rejection \<Rightarrow> publication_rejection \<Rightarrow> ordering" where
  "rejection_tail_cmp (PublicationCooldown _ l) (PublicationCooldown _ r) = cmp_of l r"
| "rejection_tail_cmp (PublicationCooldown _ _) (PublicationUnknown _) = Less"
| "rejection_tail_cmp (PublicationUnknown _) (PublicationCooldown _ _) = Greater"
| "rejection_tail_cmp (PublicationUnknown _) (PublicationUnknown _) = Equal"

definition publication_rejection_cmp :: "publication_rejection \<Rightarrow> publication_rejection \<Rightarrow> ordering" where
  "publication_rejection_cmp left right =
     then_with (cmp_of (publication_rejection_sort_key left) (publication_rejection_sort_key right))
       (rejection_tail_cmp left right)"

fun publication_rejection_eq :: "publication_rejection \<Rightarrow> publication_rejection \<Rightarrow> bool" where
  "publication_rejection_eq (PublicationCooldown i d) (PublicationCooldown j e) = (identity_eq i j \<and> d = e)"
| "publication_rejection_eq (PublicationUnknown i) (PublicationUnknown j) = identity_eq i j"
| "publication_rejection_eq _ _ = False"

definition publication_policy_diagnostic ::
  "derivation_tree \<Rightarrow> publication_cutoff option \<Rightarrow> publication_policy_diagnostic option" where
  "publication_policy_diagnostic tree cutoff =
     (case cutoff of
        None \<Rightarrow> None
      | Some cutoff \<Rightarrow>
          let rejections = collect_publication_leaves tree [] in
          if rejections = [] then None
          else Some \<lparr>pd_cutoff = cutoff,
                     pd_rejections = dedup_by publication_rejection_eq (sort_by publication_rejection_cmp rejections)\<rparr>)"

text \<open>\<open>debug_tree\<close> is the rendering of the tree by PubGrub.\<close>

definition map_error ::
  "(derivation_tree \<Rightarrow> string) \<Rightarrow> pubgrub_error \<Rightarrow> publication_cutoff option \<Rightarrow> resolution_failure" where
  "map_error debug_tree e cutoff =
     (case e of
        ErrorRetrievingDependencies source \<Rightarrow> map_adapter_error source
      | ErrorChoosingVersion source \<Rightarrow> map_adapter_error source
      | ErrorInShouldCancel source \<Rightarrow> map_adapter_error source
      | NoSolutionTree tree \<Rightarrow>
          NoSolution \<lparr>rd_summary = debug_tree tree,
                      rd_publication_policy = publication_policy_diagnostic tree cutoff\<rparr>)"

section \<open>From a selection to a resolution\<close>

fun subject_rank :: "solver_key \<Rightarrow> nat" where
  "subject_rank (KeyInstalledName _) = 0"
| "subject_rank (KeyRegistry _ _) = 1"
| "subject_rank (KeyBioconductor _ _ _) = 2"
| "subject_rank (KeyRepository _ _) = 3"
| "subject_rank (KeyExact _) = 4"
| "subject_rank KeyR = 5"

definition canonical_subject_cmp :: "solver_key \<Rightarrow> solver_key \<Rightarrow> ordering" where
  "canonical_subject_cmp left right =
     then_with (cmp_of (subject_rank left) (subject_rank right))
       (cmp_of (debug_solver_key left) (debug_solver_key right))"

record selected_entry =
  se_subject :: solver_key
  se_candidate :: prepared_candidate
  se_subjects :: "solver_key list"

definition conflicting_identities ::
  "package_name \<Rightarrow> release_identity \<Rightarrow> release_identity \<Rightarrow> resolution_failure" where
  "conflicting_identities name existing candidate =
     (if identity_sort_key existing \<le> identity_sort_key candidate
      then InstalledNameConflict name existing candidate
      else InstalledNameConflict name candidate existing)"

definition collect_candidate ::
  "(package_name \<times> selected_entry) list \<Rightarrow> solver_key \<Rightarrow> prepared_candidate \<Rightarrow>
   resolution_failure + (package_name \<times> selected_entry) list" where
  "collect_candidate packages subject c =
     (let name = ri_name (pc_identity c) in
      case map_of packages name of
        None \<Rightarrow>
          Inr (bt_insert packages name \<lparr>se_subject = subject, se_candidate = c, se_subjects = [subject]\<rparr>)
      | Some entry \<Rightarrow>
          if \<not> identity_eq (pc_identity (se_candidate entry)) (pc_identity c)
          then Inl (conflicting_identities name (pc_identity (se_candidate entry)) (pc_identity c))
          else
            map_res (\<lambda>merged. bt_insert packages name
                \<lparr>se_subject = (if canonical_subject_cmp subject (se_subject entry) = Less
                               then subject else se_subject entry),
                 se_candidate = merged,
                 se_subjects = se_subjects entry @ [subject]\<rparr>)
              (map_err (\<lambda>e. CandidateLoad subject
                  (metadata_invalid (''inconsistent prepared candidate: '' @ prepared_candidate_error_display e)))
                (candidate_merge (se_candidate entry) c)))"

definition collect_selected ::
  "provider \<Rightarrow> (package_name \<times> selected_entry) list \<Rightarrow> package_id \<times> solver_version \<Rightarrow>
   (provider_state, resolution_failure, (package_name \<times> selected_entry) list) sm" where
  "collect_selected p packages sel =
     (case sel of
        (PSubject subject, VCandidate cid) \<Rightarrow>
          if solver_key_eq subject KeyR then ret_s packages
          else
            bind_s (map_err_s map_adapter_error (candidate_for_id p subject cid)) (\<lambda>c.
              if is_r_base_package (pc_release c) then ret_s packages
              else lift_s (collect_candidate packages subject c))
      | _ \<Rightarrow> ret_s packages)"

definition visible_repositories :: "prepared_candidate \<Rightarrow> solver_key list \<Rightarrow> repository_id list" where
  "visible_repositories c subjects =
     map snd
       (dedup_by (\<lambda>left right. snd left = snd right)
         (sort_by cmp_of
           (map (\<lambda>oc. (oc_rank oc, oc_repository oc))
             (concat (map (applicable_occurrences c) subjects)))))"

definition project_package :: "provider \<Rightarrow> selected_entry \<Rightarrow> resolution_failure + resolved_package" where
  "project_package p entry =
     map_res (\<lambda>expansion.
       \<lparr>rp_subject = se_subject entry,
        rp_release = pc_release (se_candidate entry),
        rp_effective_dependencies = project_dependency_edges (pc_release (se_candidate entry)) expansion,
        rp_visible_repository_ids = visible_repositories (se_candidate entry) (se_subjects entry)\<rparr>)
       (map_err map_adapter_error (expansion_for_subjects p (se_subjects entry)))"

definition finish ::
  "provider \<Rightarrow> (package_id \<times> solver_version) list \<Rightarrow> (provider_state, resolution_failure, resolution) sm" where
  "finish p selection =
     bind_s (foldm_s (collect_selected p) [] selection) (\<lambda>packages.
     bind_s (lift_s (try_map (project_package p) (map snd packages))) (\<lambda>projected.
     ret_s (resolution_new (rq_target (pv_request p))
       (sort_by (\<lambda>left right. cmp_of (rp_name left) (rp_name right)) projected))))"

definition solve ::
  "(derivation_tree \<Rightarrow> string) \<Rightarrow>
   (provider \<Rightarrow> provider_state \<Rightarrow> (pubgrub_error + (package_id \<times> solver_version) list) \<times> provider_state) \<Rightarrow>
   loader \<Rightarrow> preference \<Rightarrow> lock_policy \<Rightarrow> resolution_request \<Rightarrow> resolution_failure + resolution" where
  "solve debug_tree run loader preference lock_policy request =
     (let p = \<lparr>pv_loader = loader, pv_preference = preference, pv_lock_policy = lock_policy, pv_request = request\<rparr> in
      case run p initial_state of
        (Inl e, _) \<Rightarrow> Inl (map_error debug_tree e (rq_publication_cutoff request))
      | (Inr selection, st) \<Rightarrow> fst (finish p selection st))"

end
