(* ===== verification/Lock.thy ===== *)
theory Lock
  imports Manifest Solve
begin

text \<open>
  \<^verbatim>\<open>rsolve/src/lock.rs\<close>: the lock model.  A resolution is projected into locked packages, which are
  normalized and validated; a lock is consumed against the roots of a manifest or of a composed
  environment by walking its dependency graph.  Equality of locked packages compares versions
  numerically, as the derived \<^verbatim>\<open>PartialEq\<close> does, so it is the function \<open>locked_package_eq\<close>.
\<close>

section \<open>Data\<close>

datatype locked_git_selector = LockedDefaultBranch | LockedBranch string | LockedTag string | LockedRev string

record locked_git_source =
  gs_url :: normalized_git_url
  gs_selector :: locked_git_selector
  gs_subdirectory :: "repository_subdir option"
  gs_version_constraint :: version_constraint

record locked_dependency_edge =
  ld_kind :: effective_dependency_kind
  ld_package :: package_name

record locked_package =
  lp_identity :: release_identity
  lp_version :: r_package_version
  lp_published_version_spelling :: "string option"
  lp_dependencies :: "locked_dependency_edge list"
  lp_visible_repository_ids :: "repository_id list"
  lp_metadata_sha256 :: sha256_digest
  lp_requested_git_source :: "locked_git_source option"

record locked_resolution =
  lk_target :: resolution_target
  lk_environment :: environment_id
  lk_publication_cutoff :: "publication_date option"
  lk_packages :: "locked_package list"

record lockfile =
  lf_resolution_intent_sha256 :: sha256_digest
  lf_r_requirement :: version_constraint
  lf_resolution :: locked_resolution

record consumed_locked_graph =
  cg_target :: resolution_target
  cg_environment :: environment_id
  cg_publication_cutoff :: "publication_date option"
  cg_packages :: "locked_package list"

datatype lock_error =
    ConflictingMetadata string
  | InvalidPublishedVersionSpelling string
  | RBasePackageLocked string
  | DanglingDependency string string
  | InstalledNameConflict string string string
  | TargetMismatch
  | EnvironmentMismatch string string
  | ManifestFailed manifest_error
  | NonCanonical
  | RRequirementMismatch
  | DirectRootMissing string
  | DirectRootVersionMismatch string
  | UnreachablePackage string
  | DuplicateVisibleRepository string string
  | UnknownVisibleRepository string string
  | RootRepositoryNotVisible string string
  | VisibleRepositoryPackageNotAllowed string string
  | NoVisibleRepository string
  | VisibleRepositoryOrderMismatch string
  | PublicationCutoffMismatch "string option" "string option"
  | ResolutionIntentMismatch string string
  | RRequirementIntentMismatch
  | ExactIdentitySetMismatch "string list" "string list"

fun lock_error_display :: "lock_error \<Rightarrow> string" where
  "lock_error_display (ConflictingMetadata identity) = ''conflicting metadata for locked identity '' @ identity"
| "lock_error_display (InvalidPublishedVersionSpelling identity) =
     ''invalid published version spelling for '' @ identity"
| "lock_error_display (RBasePackageLocked identity) = ''R base package is not lockable: '' @ identity"
| "lock_error_display (DanglingDependency package dependency) =
     ''locked package '' @ package @ '' refers to unselected dependency '' @ dependency"
| "lock_error_display (InstalledNameConflict name first_identity second_identity) =
     ''installed package name '' @ name @ '' maps to distinct identities '' @ first_identity
     @ '' and '' @ second_identity"
| "lock_error_display TargetMismatch = ''lock target does not match manifest target''"
| "lock_error_display (EnvironmentMismatch expected found) =
     ''lock environment '' @ expected @ '' does not match requested environment '' @ found"
| "lock_error_display (ManifestFailed e) = ''manifest composition failed: '' @ manifest_error_display e"
| "lock_error_display NonCanonical = ''lock contents are not in canonical order''"
| "lock_error_display RRequirementMismatch = ''stored R requirement is not satisfied by the lock target''"
| "lock_error_display (DirectRootMissing name) =
     ''direct manifest root '' @ name @ '' is absent from the lock''"
| "lock_error_display (DirectRootVersionMismatch name) =
     ''locked version for direct manifest root '' @ name @ '' does not satisfy manifest constraint''"
| "lock_error_display (UnreachablePackage package) =
     ''locked package '' @ package @ '' is unreachable from manifest roots''"
| "lock_error_display (DuplicateVisibleRepository package repository) =
     ''locked package '' @ package @ '' lists duplicate visible repository '' @ repository"
| "lock_error_display (UnknownVisibleRepository package repository) =
     ''locked package '' @ package @ '' references unknown configured repository '' @ repository"
| "lock_error_display (RootRepositoryNotVisible name repository) =
     ''locked root '' @ name @ '' is not visible from repository '' @ repository"
| "lock_error_display (VisibleRepositoryPackageNotAllowed package repository) =
     ''locked package '' @ package @ '' is excluded by repository '' @ repository"
| "lock_error_display (NoVisibleRepository package) =
     ''locked package '' @ package @ '' has no visible configured repository''"
| "lock_error_display (VisibleRepositoryOrderMismatch package) =
     ''locked package '' @ package @ '' visible repositories are not in manifest order''"
| "lock_error_display (PublicationCutoffMismatch lock composed) =
     ''lock publication cutoff '' @ debug_option (map_option debug_str lock)
     @ '' does not match composed environment cutoff '' @ debug_option (map_option debug_str composed)"
| "lock_error_display (ResolutionIntentMismatch lock composed) =
     ''lock resolution intent '' @ lock @ '' does not match composed environment intent '' @ composed"
| "lock_error_display RRequirementIntentMismatch =
     ''lock R requirement does not match the composed environment''"
| "lock_error_display (ExactIdentitySetMismatch missing extra) =
     ''exact lock identity set mismatch (missing: '' @ debug_list (map debug_str missing)
     @ '', extra: '' @ debug_list (map debug_str extra) @ '')''"

text \<open>The derived equalities.\<close>

definition git_source_eq :: "locked_git_source \<Rightarrow> locked_git_source \<Rightarrow> bool" where
  "git_source_eq a b =
     (gs_url a = gs_url b \<and> gs_selector a = gs_selector b \<and> gs_subdirectory a = gs_subdirectory b
      \<and> constraint_eq (gs_version_constraint a) (gs_version_constraint b))"

definition locked_package_eq :: "locked_package \<Rightarrow> locked_package \<Rightarrow> bool" where
  "locked_package_eq a b =
     (identity_eq (lp_identity a) (lp_identity b)
      \<and> version_eq (lp_version a) (lp_version b)
      \<and> lp_published_version_spelling a = lp_published_version_spelling b
      \<and> lp_dependencies a = lp_dependencies b
      \<and> lp_visible_repository_ids a = lp_visible_repository_ids b
      \<and> lp_metadata_sha256 a = lp_metadata_sha256 b
      \<and> rel_option git_source_eq (lp_requested_git_source a) (lp_requested_git_source b))"

definition target_eq :: "resolution_target \<Rightarrow> resolution_target \<Rightarrow> bool" where
  "target_eq a b = version_eq (rt_r_version a) (rt_r_version b)"

definition lp_name :: "locked_package \<Rightarrow> package_name" where
  "lp_name p = ri_name (lp_identity p)"

section \<open>Canonical spellings and orders\<close>

text \<open>The loop of \<^verbatim>\<open>canonical_version\<close>: trailing zeros go while more than two components are left.\<close>

function pop_zeros :: "u32 list \<Rightarrow> u32 list" where
  "pop_zeros cs = (if length cs > 2 \<and> last cs = 0 then pop_zeros (butlast cs) else cs)"
  by pat_completeness auto
termination
  by (relation "measure length") auto

declare pop_zeros.simps [simp del]

definition canonical_version :: "r_package_version \<Rightarrow> string" where
  "canonical_version v = join_str ''.'' (map (\<lambda>c. show_nat (unat c)) (pop_zeros (version_components v)))"

fun identity_key_tail :: "provenance \<Rightarrow> string" where
  "identity_key_tail (RBasePackage r_version) = '':r-base:'' @ version_str r_version"
| "identity_key_tail (RegistryRelease ns version) = '':registry:'' @ ns @ ''@'' @ version_str version"
| "identity_key_tail (GitCommit repository commit subdirectory) =
     '':git:'' @ repository @ ''@'' @ gc_hex commit @ '':'' @ or_empty subdirectory"
| "identity_key_tail (BioconductorRelease ns release version) =
     '':bioconductor:'' @ ns @ '':'' @ release @ ''@'' @ version_str version"
| "identity_key_tail (ImmutableSource scheme digest) = '':immutable:'' @ scheme @ ''@'' @ digest"

definition identity_key :: "release_identity \<Rightarrow> string" where
  "identity_key identity = ri_name identity @ identity_key_tail (ri_provenance identity)"

fun dependency_kind_rank :: "effective_dependency_kind \<Rightarrow> nat" where
  "dependency_kind_rank EffDepends = 0"
| "dependency_kind_rank EffImports = 1"
| "dependency_kind_rank EffLinkingTo = 2"
| "dependency_kind_rank PromotedSuggests = 3"

definition dependency_edge_cmp :: "locked_dependency_edge \<Rightarrow> locked_dependency_edge \<Rightarrow> ordering" where
  "dependency_edge_cmp left right =
     then_with (cmp_of (ld_package left) (ld_package right))
       (cmp_of (dependency_kind_rank (ld_kind left)) (dependency_kind_rank (ld_kind right)))"

definition canonicalize_dependency_edges :: "locked_dependency_edge list \<Rightarrow> locked_dependency_edge list" where
  "canonicalize_dependency_edges edges = dedup_by (=) (sort_by dependency_edge_cmp edges)"

fun provenance_rank :: "provenance \<Rightarrow> nat" where
  "provenance_rank (RBasePackage _) = 0"
| "provenance_rank (RegistryRelease _ _) = 1"
| "provenance_rank (GitCommit _ _ _) = 2"
| "provenance_rank (BioconductorRelease _ _ _) = 3"
| "provenance_rank (ImmutableSource _ _) = 4"

definition cmp_optional_subdirectory :: "repository_subdir option \<Rightarrow> repository_subdir option \<Rightarrow> ordering" where
  "cmp_optional_subdirectory left right = option_cmp left right"

text \<open>The derived order of \<^verbatim>\<open>GitCommitId\<close>: the algorithm, then the digits.\<close>

fun algorithm_rank :: "git_hash_algorithm \<Rightarrow> nat" where
  "algorithm_rank Sha1 = 0"
| "algorithm_rank Sha256 = 1"

definition commit_cmp :: "git_commit_id \<Rightarrow> git_commit_id \<Rightarrow> ordering" where
  "commit_cmp left right =
     then_with (cmp_of (algorithm_rank (gc_algorithm left)) (algorithm_rank (gc_algorithm right)))
       (cmp_of (gc_hex left) (gc_hex right))"

fun cmp_provenance_fields :: "provenance \<Rightarrow> provenance \<Rightarrow> ordering" where
  "cmp_provenance_fields (RBasePackage l) (RBasePackage r) = version_cmp l r"
| "cmp_provenance_fields (RegistryRelease ln lv) (RegistryRelease rn rv) =
     then_with (cmp_of ln rn) (version_cmp lv rv)"
| "cmp_provenance_fields (GitCommit lr lc ls) (GitCommit rr rc rs) =
     then_with (then_with (cmp_of lr rr) (commit_cmp lc rc)) (cmp_optional_subdirectory ls rs)"
| "cmp_provenance_fields (BioconductorRelease ln lr lv) (BioconductorRelease rn rr rv) =
     then_with (then_with (cmp_of ln rn) (cmp_of lr rr)) (version_cmp lv rv)"
| "cmp_provenance_fields (ImmutableSource ls ld) (ImmutableSource rs rd) =
     then_with (cmp_of ls rs) (cmp_of ld rd)"
| "cmp_provenance_fields _ _ = Equal"

definition cmp_provenance :: "provenance \<Rightarrow> provenance \<Rightarrow> ordering" where
  "cmp_provenance left right =
     then_with (cmp_of (provenance_rank left) (provenance_rank right)) (cmp_provenance_fields left right)"

definition cmp_identity :: "release_identity \<Rightarrow> release_identity \<Rightarrow> ordering" where
  "cmp_identity left right =
     then_with (cmp_of (ri_name left) (ri_name right))
       (cmp_provenance (ri_provenance left) (ri_provenance right))"

definition package_cmp :: "locked_package \<Rightarrow> locked_package \<Rightarrow> ordering" where
  "package_cmp left right = cmp_identity (lp_identity left) (lp_identity right)"

section \<open>Locked packages\<close>

definition published_spelling :: "package_release \<Rightarrow> string" where
  "published_spelling release =
     (case ri_provenance (pk_identity release) of
        RegistryRelease _ version \<Rightarrow> version_str version
      | BioconductorRelease _ _ version \<Rightarrow> version_str version
      | _ \<Rightarrow> version_str (pk_version release))"

definition locked_edge :: "resolved_dependency_edge \<Rightarrow> locked_dependency_edge list" where
  "locked_edge dependency =
     (if pr_name (re_package dependency) \<noteq> ''R''
      then [\<lparr>ld_kind = re_kind dependency, ld_package = pr_name (re_package dependency)\<rparr>] else [])"

definition from_resolved :: "resolved_package \<Rightarrow> locked_package" where
  "from_resolved p =
     (let canonical = canonical_version (pk_version (rp_release p));
          published = published_spelling (rp_release p) in
      \<lparr>lp_identity = pk_identity (rp_release p),
       lp_version = pk_version (rp_release p),
       lp_published_version_spelling = (if published \<noteq> canonical then Some published else None),
       lp_dependencies =
         canonicalize_dependency_edges (concat (map locked_edge (rp_effective_dependencies p))),
       lp_visible_repository_ids = rp_visible_repository_ids p,
       lp_metadata_sha256 = pk_metadata_digest (rp_release p),
       lp_requested_git_source = None\<rparr>)"

definition registry_version :: "provenance \<Rightarrow> r_package_version option" where
  "registry_version p =
     (case p of
        RegistryRelease _ version \<Rightarrow> Some version
      | BioconductorRelease _ _ version \<Rightarrow> Some version
      | _ \<Rightarrow> None)"

text \<open>The two checks of a requested Git source.\<close>

definition git_source_matches :: "locked_package \<Rightarrow> locked_git_source \<Rightarrow> bool" where
  "git_source_matches p source =
     ((case ri_provenance (lp_identity p) of
         GitCommit repository _ subdirectory \<Rightarrow>
           repository = gs_url source \<and> subdirectory = gs_subdirectory source
       | _ \<Rightarrow> False)
      \<and> satisfies (gs_version_constraint source) (lp_version p))"

definition revision_matches :: "locked_package \<Rightarrow> locked_git_source \<Rightarrow> bool" where
  "revision_matches p source =
     (case gs_selector source of
        LockedRev v \<Rightarrow>
          (case git_commit_id_new v of
             Inr requested_commit \<Rightarrow>
               (case ri_provenance (lp_identity p) of
                  GitCommit _ commit _ \<Rightarrow> commit = requested_commit
                | _ \<Rightarrow> False)
           | Inl _ \<Rightarrow> True)
      | _ \<Rightarrow> True)"

definition validate_git_source :: "locked_package \<Rightarrow> lock_error + unit" where
  "validate_git_source p =
     (case lp_requested_git_source p of
        None \<Rightarrow> Inr ()
      | Some source \<Rightarrow>
          if \<not> git_source_matches p source \<or> \<not> revision_matches p source
          then Inl (ConflictingMetadata (identity_key (lp_identity p)))
          else Inr ())"

definition validate_spelling :: "locked_package \<Rightarrow> lock_error + unit" where
  "validate_spelling p =
     (case lp_published_version_spelling p of
        None \<Rightarrow> Inr ()
      | Some spelling \<Rightarrow>
          bind_res
            (map_err (\<lambda>_. InvalidPublishedVersionSpelling (identity_key (lp_identity p)))
              (parse_version spelling))
            (\<lambda>parsed.
               if \<not> version_eq parsed (lp_version p) \<or> spelling = canonical_version (lp_version p)
               then Inl (InvalidPublishedVersionSpelling (identity_key (lp_identity p)))
               else Inr ()))"

definition package_validate :: "locked_package \<Rightarrow> lock_error + unit" where
  "package_validate p =
     (if provenance_is_r_base_package (ri_provenance (lp_identity p))
      then Inl (RBasePackageLocked (identity_key (lp_identity p)))
      else if (case registry_version (ri_provenance (lp_identity p)) of
                 Some version \<Rightarrow> \<not> version_eq version (lp_version p)
               | None \<Rightarrow> False)
      then Inl (ConflictingMetadata (identity_key (lp_identity p)))
      else
        bind_res (validate_git_source p) (\<lambda>_. validate_spelling p))"

section \<open>Normalization and validation\<close>

fun check_visible :: "package_name \<Rightarrow> repository_id list \<Rightarrow> repository_id list \<Rightarrow> lock_error + unit" where
  "check_visible name seen [] = Inr ()"
| "check_visible name seen (repository # rest) =
     (if repository \<in> set seen then Inl (DuplicateVisibleRepository name repository)
      else check_visible name (repository # seen) rest)"

definition validate_visible_repository_ids :: "locked_package \<Rightarrow> lock_error + unit" where
  "validate_visible_repository_ids p = check_visible (lp_name p) [] (lp_visible_repository_ids p)"

text \<open>
  \<^verbatim>\<open>ensure_installed_names\<close>: \<^verbatim>\<open>BTreeMap::insert\<close> returns the identity stored before, and the new one
  replaces it.
\<close>

fun installed_names_from :: "(package_name \<times> release_identity) list \<Rightarrow> locked_package list \<Rightarrow> lock_error + unit" where
  "installed_names_from identities [] = Inr ()"
| "installed_names_from identities (p # ps) =
     (case map_of identities (lp_name p) of
        Some previous \<Rightarrow>
          if \<not> identity_eq previous (lp_identity p)
          then Inl (InstalledNameConflict (lp_name p) (identity_key previous) (identity_key (lp_identity p)))
          else installed_names_from (bt_insert identities (lp_name p) (lp_identity p)) ps
      | None \<Rightarrow> installed_names_from (bt_insert identities (lp_name p) (lp_identity p)) ps)"

definition ensure_installed_names :: "locked_package list \<Rightarrow> lock_error + unit" where
  "ensure_installed_names packages = installed_names_from [] packages"

definition ensure_dependencies_exist :: "locked_package list \<Rightarrow> lock_error + unit" where
  "ensure_dependencies_exist packages =
     each (\<lambda>p.
       each (\<lambda>dependency.
         if ld_package dependency \<notin> set (map lp_name packages)
         then Inl (DanglingDependency (lp_name p) (ld_package dependency)) else Inr ())
         (lp_dependencies p)) packages"

text \<open>The loop that drops repetitions of a sorted list of packages; \<open>unique\<close> is kept in reverse.\<close>

fun dedup_packages :: "locked_package list \<Rightarrow> locked_package list \<Rightarrow> lock_error + locked_package list" where
  "dedup_packages unique [] = Inr (rev unique)"
| "dedup_packages unique (p # ps) =
     (case unique of
        previous # _ \<Rightarrow>
          if identity_eq (lp_identity previous) (lp_identity p) then
            (if \<not> locked_package_eq previous p
             then Inl (ConflictingMetadata (identity_key (lp_identity p)))
             else dedup_packages unique ps)
          else dedup_packages (p # unique) ps
      | [] \<Rightarrow> dedup_packages [p] ps)"

definition normalize_package :: "locked_package \<Rightarrow> lock_error + locked_package" where
  "normalize_package p =
     bind_res (package_validate p) (\<lambda>_.
       let q = p\<lparr>lp_dependencies := canonicalize_dependency_edges (lp_dependencies p)\<rparr>
       in map_res (\<lambda>_. q) (validate_visible_repository_ids q))"

definition normalize_packages :: "locked_package list \<Rightarrow> lock_error + locked_package list" where
  "normalize_packages packages =
     bind_res (try_map normalize_package packages) (\<lambda>normalized.
     bind_res (dedup_packages [] (sort_by package_cmp normalized)) (\<lambda>unique.
     bind_res (ensure_installed_names unique) (\<lambda>_.
       map_res (\<lambda>_. unique) (ensure_dependencies_exist unique))))"

definition normalize_contents :: "lockfile \<Rightarrow> lock_error + lockfile" where
  "normalize_contents lock =
     map_res (\<lambda>packages. lock\<lparr>lf_resolution := (lf_resolution lock)\<lparr>lk_packages := packages\<rparr>\<rparr>)
       (normalize_packages (lk_packages (lf_resolution lock)))"

text \<open>\<^verbatim>\<open>windows(2)\<close>.\<close>

fun windows2 :: "'a list \<Rightarrow> ('a \<times> 'a) list" where
  "windows2 (x # y # xs) = (x, y) # windows2 (y # xs)"
| "windows2 _ = []"

definition validate_contents :: "lockfile \<Rightarrow> lock_error + unit" where
  "validate_contents lock =
     (let resolution = lf_resolution lock in
      if \<not> satisfies (lf_r_requirement lock) (rt_r_version (lk_target resolution))
      then Inl RRequirementMismatch
      else
        let packages = sort_by package_cmp (lk_packages resolution) in
        bind_res
          (each (\<lambda>p. bind_res (package_validate p) (\<lambda>_. validate_visible_repository_ids p)) packages) (\<lambda>_.
        bind_res
          (each (\<lambda>(a, b).
             if identity_eq (lp_identity a) (lp_identity b) \<and> \<not> locked_package_eq a b
             then Inl (ConflictingMetadata (identity_key (lp_identity a))) else Inr ())
             (windows2 packages)) (\<lambda>_.
        bind_res (ensure_installed_names packages) (\<lambda>_.
          ensure_dependencies_exist packages))))"

definition validate :: "lockfile \<Rightarrow> lock_error + unit" where
  "validate lock = validate_contents lock"

definition lockfile_new ::
  "sha256_digest \<Rightarrow> version_constraint \<Rightarrow> locked_resolution \<Rightarrow> lock_error + lockfile" where
  "lockfile_new resolution_intent_sha256 r_requirement resolution =
     bind_res
       (normalize_contents
         \<lparr>lf_resolution_intent_sha256 = resolution_intent_sha256,
          lf_r_requirement = canonicalize_constraint r_requirement,
          lf_resolution = resolution\<rparr>)
       (\<lambda>lock. map_res (\<lambda>_. lock) (validate_contents lock))"

definition validate_canonical_resolution :: "locked_resolution \<Rightarrow> lock_error + unit" where
  "validate_canonical_resolution resolution =
     (let packages = sort_by package_cmp (lk_packages resolution) in
      if \<not> list_all2 locked_package_eq packages (lk_packages resolution) then Inl NonCanonical
      else if list_ex (\<lambda>(a, b). identity_eq (lp_identity a) (lp_identity b)) (windows2 (lk_packages resolution))
      then Inl NonCanonical
      else if list_ex (\<lambda>p. list_ex (\<lambda>(a, b). dependency_edge_cmp a b \<noteq> Less) (windows2 (lp_dependencies p)))
                (lk_packages resolution)
      then Inl NonCanonical
      else Inr ())"

section \<open>Locking a resolution\<close>

definition retain_selected :: "package_name list \<Rightarrow> locked_package \<Rightarrow> locked_package" where
  "retain_selected names p =
     p\<lparr>lp_dependencies := filter (\<lambda>dependency. ld_package dependency \<in> set names) (lp_dependencies p)\<rparr>"

definition from_resolution_with_applicability ::
  "resolution \<Rightarrow> environment_id \<Rightarrow> publication_date option \<Rightarrow> sha256_digest \<Rightarrow> version_constraint \<Rightarrow>
   lock_error + lockfile" where
  "from_resolution_with_applicability resolution environment publication_cutoff intent r_requirement =
     (let selected_names = map rp_name (rs_packages resolution);
          packages = map (\<lambda>p. retain_selected selected_names (from_resolved p)) (rs_packages resolution) in
      bind_res (each package_validate packages) (\<lambda>_.
      bind_res (dedup_packages [] (sort_by package_cmp packages)) (\<lambda>unique.
        lockfile_new intent (canonicalize_constraint r_requirement)
          \<lparr>lk_target = rs_target resolution, lk_environment = environment,
           lk_publication_cutoff = publication_cutoff, lk_packages = unique\<rparr>)))"

section \<open>Solver keys of a lock\<close>

definition identity_solver_keys :: "release_identity \<Rightarrow> repository_id list \<Rightarrow> solver_key list" where
  "identity_solver_keys identity repositories =
     (let name = ri_name identity in
      [KeyInstalledName name]
      @ map (\<lambda>repository. KeyRepository repository name) repositories
      @ (case ri_provenance identity of
           RegistryRelease ns _ \<Rightarrow> [KeyRegistry ns name, KeyExact identity]
         | BioconductorRelease ns release _ \<Rightarrow> [KeyBioconductor ns release name, KeyExact identity]
         | GitCommit _ _ _ \<Rightarrow> [KeyExact identity]
         | ImmutableSource _ _ \<Rightarrow> [KeyExact identity]
         | RBasePackage _ \<Rightarrow> []))"

definition insert_locked_key ::
  "locked_package \<Rightarrow> locked_identities \<Rightarrow> solver_key \<Rightarrow> lock_error + locked_identities" where
  "insert_locked_key p identities key =
     (case hm_get solver_key_eq identities key of
        Some previous \<Rightarrow>
          if \<not> identity_eq previous (lp_identity p)
          then Inl (ConflictingMetadata (identity_key (lp_identity p)))
          else Inr (hm_insert solver_key_eq identities key (lp_identity p))
      | None \<Rightarrow> Inr (hm_insert solver_key_eq identities key (lp_identity p)))"

definition lockfile_identities :: "lockfile \<Rightarrow> lock_error + locked_identities" where
  "lockfile_identities lock =
     bind_res (validate lock) (\<lambda>_.
       try_fold (\<lambda>identities p.
         try_fold (insert_locked_key p) identities
           (identity_solver_keys (lp_identity p) (lp_visible_repository_ids p)))
         [] (lk_packages (lf_resolution lock)))"

section \<open>Consuming a lock\<close>

text \<open>
  \<^verbatim>\<open>mark_reachable\<close> descends into the dependencies of a package the first time it meets it.  Its
  recursion and the loop over the dependencies are the two functions below; \<open>depth\<close> bounds the
  nesting of calls, and running out of it is the stack overflow of the code.  A lock of \<open>n\<close> packages
  never nests deeper than \<open>n + 1\<close> calls, which is what \<open>consume_roots\<close> supplies.
\<close>

type_synonym name_map = "(package_name \<times> locked_package) list"

fun mark_reachable ::
  "nat \<Rightarrow> name_map \<Rightarrow> package_name list \<Rightarrow> locked_package \<Rightarrow> lock_error abort + package_name list"
and mark_dependencies ::
  "nat \<Rightarrow> name_map \<Rightarrow> package_name list \<Rightarrow> package_name \<Rightarrow> locked_dependency_edge list \<Rightarrow>
   lock_error abort + package_name list" where
  "mark_reachable 0 by_name reachable p = Inl (Panicked ''stack overflow'')"
| "mark_reachable (Suc depth) by_name reachable p =
     (if lp_name p \<in> set reachable then Inr reachable
      else mark_dependencies depth by_name (lp_name p # reachable) (lp_name p) (lp_dependencies p))"
| "mark_dependencies depth by_name reachable parent [] = Inr reachable"
| "mark_dependencies depth by_name reachable parent (dependency # rest) =
     bind_res
       (ok_or (Raised (DanglingDependency parent (ld_package dependency)))
         (map_of by_name (ld_package dependency))) (\<lambda>q.
     bind_res (mark_reachable depth by_name reachable q) (\<lambda>marked.
       mark_dependencies depth by_name marked parent rest))"

record root_check =
  rc_name :: package_name
  rc_constraint :: version_constraint
  rc_repository :: "repository_id option"
  rc_runtime_provided :: bool
  rc_direct_source :: bool

definition is_r_base_name :: "package_name \<Rightarrow> bool" where
  "is_r_base_name name = (name = ''R'' \<or> is_r_base_package_name name)"

definition consume_root ::
  "nat \<Rightarrow> resolution_target \<Rightarrow> name_map \<Rightarrow> package_name list \<Rightarrow> root_check \<Rightarrow>
   lock_error abort + package_name list" where
  "consume_root depth target by_name reachable root =
     (let name = rc_name root in
      if rc_runtime_provided root \<and> is_r_base_name name then
        (if \<not> satisfies (rc_constraint root) (rt_r_version target)
         then Inl (Raised (DirectRootVersionMismatch name)) else Inr reachable)
      else
        bind_res (ok_or (Raised (DirectRootMissing name)) (map_of by_name name)) (\<lambda>p.
          if \<not> satisfies (rc_constraint root) (lp_version p)
          then Inl (Raised (DirectRootVersionMismatch name))
          else
            bind_res
              (case rc_repository root of
                 Some repository \<Rightarrow>
                   if repository \<notin> set (lp_visible_repository_ids p)
                   then Inl (Raised (RootRepositoryNotVisible name repository)) else Inr ()
               | None \<Rightarrow> Inr ())
              (\<lambda>_. mark_reachable depth by_name reachable p)))"

text \<open>The two loops over the repositories a package is visible in.\<close>

definition check_known_repositories ::
  "repository_spec list \<Rightarrow> locked_package \<Rightarrow> lock_error abort + unit" where
  "check_known_repositories repositories p =
     each (\<lambda>repository.
       if repository \<notin> set (map sp_id repositories)
       then Inl (Raised (UnknownVisibleRepository (lp_name p) repository)) else Inr ())
       (lp_visible_repository_ids p)"

definition check_allowed_repositories ::
  "repository_spec list \<Rightarrow> locked_package \<Rightarrow> lock_error abort + unit" where
  "check_allowed_repositories repositories p =
     each (\<lambda>repository.
       bind_res
         (expect ''visible repository IDs were validated above''
           (find (\<lambda>candidate. sp_id candidate = repository) repositories))
         (\<lambda>spec.
            if \<not> package_allowed spec (lp_name p)
            then Inl (Raised (VisibleRepositoryPackageNotAllowed (lp_name p) repository)) else Inr ()))
       (lp_visible_repository_ids p)"

text \<open>\<^verbatim>\<open>configured_ranks\<close>, and the loop that compares each rank with the previous one.\<close>

definition configured_ranks :: "repository_spec list \<Rightarrow> (repository_id \<times> nat) list" where
  "configured_ranks repositories = bt_collect (zip (map sp_id repositories) [0..<length repositories])"

fun check_visible_order ::
  "(repository_id \<times> nat) list \<Rightarrow> package_name \<Rightarrow> nat option \<Rightarrow> repository_id list \<Rightarrow> lock_error abort + unit" where
  "check_visible_order ranks name previous [] = Inr ()"
| "check_visible_order ranks name previous (repository # rest) =
     bind_res (expect ''no entry found for key'' (map_of ranks repository)) (\<lambda>rank.
       if (case previous of Some r \<Rightarrow> r \<ge> rank | None \<Rightarrow> False)
       then Inl (Raised (VisibleRepositoryOrderMismatch name))
       else check_visible_order ranks name (Some rank) rest)"

definition check_visibility :: "repository_spec list \<Rightarrow> locked_package \<Rightarrow> lock_error abort + unit" where
  "check_visibility repositories p =
     bind_res (check_known_repositories repositories p) (\<lambda>_.
     bind_res (check_allowed_repositories repositories p) (\<lambda>_.
       check_visible_order (configured_ranks repositories) (lp_name p) None (lp_visible_repository_ids p)))"

definition check_consumed ::
  "repository_spec list option \<Rightarrow> root_check list \<Rightarrow> package_name list \<Rightarrow> locked_package \<Rightarrow> lock_error abort + unit" where
  "check_consumed configured roots reachable p =
     (if lp_name p \<notin> set reachable then Inl (Raised (UnreachablePackage (lp_name p)))
      else
        let direct_source_root = list_ex (\<lambda>root. rc_direct_source root \<and> rc_name root = lp_name p) roots in
        case configured of
          None \<Rightarrow> Inr ()
        | Some repositories \<Rightarrow>
            if \<not> direct_source_root
               \<and> \<not> list_ex (\<lambda>seen. list_ex (\<lambda>repository.
                      sp_id repository = seen \<and> package_allowed repository (lp_name p)) repositories)
                    (lp_visible_repository_ids p)
            then Inl (Raised (NoVisibleRepository (lp_name p))) else Inr ())"

definition consume_roots ::
  "lockfile \<Rightarrow> resolution_target \<Rightarrow> environment_id \<Rightarrow> version_constraint \<Rightarrow> root_check list \<Rightarrow>
   repository_spec list option \<Rightarrow> lock_error abort + consumed_locked_graph" where
  "consume_roots lock target environment r_requirement roots configured =
     bind_res (map_err Raised (validate lock)) (\<lambda>_.
     let resolution = lf_resolution lock in
     bind_res (map_err Raised (validate_canonical_resolution resolution)) (\<lambda>_.
       if \<not> target_eq (lk_target resolution) target then Inl (Raised TargetMismatch)
       else if lk_environment resolution \<noteq> environment
       then Inl (Raised (EnvironmentMismatch (lk_environment resolution) environment))
       else if \<not> satisfies r_requirement (rt_r_version (lk_target resolution))
       then Inl (Raised RRequirementMismatch)
       else
         bind_res
           (case configured of
              None \<Rightarrow> Inr ()
            | Some repositories \<Rightarrow> each (check_visibility repositories) (lk_packages resolution)) (\<lambda>_.
         let by_name = bt_collect (map (\<lambda>p. (lp_name p, p)) (lk_packages resolution)) in
         bind_res
           (try_fold (consume_root (Suc (length (lk_packages resolution))) (lk_target resolution) by_name)
             [] roots) (\<lambda>reachable.
         bind_res (each (check_consumed configured roots reachable) (lk_packages resolution)) (\<lambda>_.
           Inr \<lparr>cg_target = lk_target resolution, cg_environment = lk_environment resolution,
                cg_publication_cutoff = lk_publication_cutoff resolution,
                cg_packages = lk_packages resolution\<rparr>)))))"

section \<open>Consuming against a manifest or a composed environment\<close>

definition lock_resolution_request ::
  "lockfile \<Rightarrow> manifest \<Rightarrow> environment_id \<Rightarrow> lock_error + resolution_request" where
  "lock_resolution_request lock m environment =
     bind_res (validate lock) (\<lambda>_.
     let resolution = lf_resolution lock; target = lk_target resolution in
     if lk_environment resolution \<noteq> environment
     then Inl (EnvironmentMismatch (lk_environment resolution) environment)
     else
       bind_res (map_err ManifestFailed (compose_resolution_request m)) (\<lambda>request.
         if \<not> target_eq (rq_target request) target then Inl TargetMismatch
         else if \<not> satisfies (rq_r_requirement request) (rt_r_version target) then Inl RRequirementMismatch
         else if \<not> constraint_eq (rq_r_requirement request) (lf_r_requirement lock)
         then Inl RRequirementIntentMismatch
         else
           map_res (\<lambda>identities.
             with_optional_publication_cutoff
               (resolution_request_new (rq_roots request) (rq_target request) (rq_r_requirement request) identities)
               (lk_publication_cutoff resolution))
             (lockfile_identities lock)))"

definition request_root_check :: "root_requirement \<Rightarrow> root_check" where
  "request_root_check root =
     (let source = pr_source (rr_package root) in
      \<lparr>rc_name = pr_name (rr_package root),
       rc_constraint = pr_constraint (rr_package root),
       rc_repository = (case source of SourceRepository repository \<Rightarrow> Some repository | _ \<Rightarrow> None),
       rc_runtime_provided = (source = SourceAny),
       rc_direct_source = (case source of SourceGit _ \<Rightarrow> True | _ \<Rightarrow> False)\<rparr>)"

definition lock_consume_locked_graph ::
  "lockfile \<Rightarrow> manifest \<Rightarrow> environment_id \<Rightarrow> lock_error abort + consumed_locked_graph" where
  "lock_consume_locked_graph lock m environment =
     bind_res (map_err Raised (lock_resolution_request lock m environment)) (\<lambda>request.
       consume_roots lock (rq_target request) environment (mf_r_requirement m)
         (map request_root_check (rq_roots request)) None)"

definition consume_locked_graph ::
  "manifest \<Rightarrow> lockfile \<Rightarrow> environment_id \<Rightarrow> lock_error abort + consumed_locked_graph" where
  "consume_locked_graph m lock environment = lock_consume_locked_graph lock m environment"

definition intent_root_check :: "composed_root_intent \<Rightarrow> root_check" where
  "intent_root_check root =
     \<lparr>rc_name = ci_name root,
      rc_constraint = ci_constraint root,
      rc_repository = (case ci_source root of RegistrySource repository \<Rightarrow> repository | _ \<Rightarrow> None),
      rc_runtime_provided = (ci_source root = RegistrySource None),
      rc_direct_source = (case ci_source root of RegistrySource _ \<Rightarrow> False | _ \<Rightarrow> True)\<rparr>"

fun lock_git_selector :: "git_selector \<Rightarrow> locked_git_selector" where
  "lock_git_selector DefaultBranch = LockedDefaultBranch"
| "lock_git_selector (Branch v) = LockedBranch v"
| "lock_git_selector (Tag v) = LockedTag v"
| "lock_git_selector (Rev v) = LockedRev v"

definition lock_subdirectory :: "package_name \<Rightarrow> string option \<Rightarrow> lock_error + repository_subdir option" where
  "lock_subdirectory name subdirectory =
     map_err (\<lambda>e. ManifestFailed (InvalidDependencyField name (repository_subdir_error_display e)))
       (transpose (map_option repository_subdir_new subdirectory))"

definition check_git_root ::
  "lockfile \<Rightarrow> sha256_digest \<Rightarrow> composed_root_intent \<Rightarrow> lock_error + unit" where
  "check_git_root lock intent root =
     (case ci_source root of
        GitSource url selector subdirectory \<Rightarrow>
          (case find (\<lambda>p. lp_name p = ci_name root) (lk_packages (lf_resolution lock)) of
             None \<Rightarrow> Inr ()
           | Some p \<Rightarrow>
               bind_res (ok_or (DirectRootMissing (ci_name root)) (lp_requested_git_source p)) (\<lambda>requested.
               bind_res (lock_subdirectory (ci_name root) subdirectory) (\<lambda>expected_subdirectory.
                 if gs_url requested \<noteq> url \<or> gs_selector requested \<noteq> lock_git_selector selector
                    \<or> gs_subdirectory requested \<noteq> expected_subdirectory
                 then Inl (ResolutionIntentMismatch (lf_resolution_intent_sha256 lock) intent)
                 else if \<not> constraint_eq (canonicalize_constraint (gs_version_constraint requested))
                             (canonicalize_constraint (ci_constraint root))
                 then Inl (DirectRootVersionMismatch (ci_name root))
                 else Inr ())))
      | _ \<Rightarrow> Inr ())"

definition consume_composed_environment ::
  "(publication_date \<Rightarrow> string) \<Rightarrow> (bytes \<Rightarrow> bytes) \<Rightarrow> lockfile \<Rightarrow> composed_environment \<Rightarrow>
   lock_error abort + consumed_locked_graph" where
  "consume_composed_environment strftime sha lock composed =
     bind_res (map_err Raised (validate lock)) (\<lambda>_.
     let resolution = lf_resolution lock in
     if \<not> target_eq (lk_target resolution) (ce_target composed) then Inl (Raised TargetMismatch)
     else if lk_environment resolution \<noteq> ce_environment composed
     then Inl (Raised (EnvironmentMismatch (lk_environment resolution) (ce_environment composed)))
     else if \<not> satisfies (lf_r_requirement lock) (rt_r_version (ce_target composed))
     then Inl (Raised RRequirementMismatch)
     else if \<not> constraint_eq (lf_r_requirement lock) (ce_r_requirement composed)
     then Inl (Raised RRequirementIntentMismatch)
     else if lk_publication_cutoff resolution \<noteq> ce_published_before composed
     then Inl (Raised (PublicationCutoffMismatch
            (map_option strftime (lk_publication_cutoff resolution))
            (map_option strftime (ce_published_before composed))))
     else
       bind_res (map_err (\<lambda>e. Raised (ManifestFailed e)) (resolution_intent_digest strftime sha composed)) (\<lambda>intent.
         if lf_resolution_intent_sha256 lock \<noteq> intent
         then Inl (Raised (ResolutionIntentMismatch (lf_resolution_intent_sha256 lock) intent))
         else
           bind_res (map_err Raised (each (check_git_root lock intent) (ce_roots composed))) (\<lambda>_.
             consume_roots lock (ce_target composed) (ce_environment composed) (ce_r_requirement composed)
               (map intent_root_check (ce_roots composed)) (Some (ce_repositories composed)))))"

text \<open>The Git source of the root a package stands for, recorded in the lock.\<close>

definition attach_git_source :: "composed_environment \<Rightarrow> locked_package \<Rightarrow> lock_error + locked_package" where
  "attach_git_source composed p =
     (case find (\<lambda>root. ci_name root = lp_name p) (ce_roots composed) of
        None \<Rightarrow> Inr p
      | Some root \<Rightarrow>
          (case ci_source root of
             GitSource url selector subdirectory \<Rightarrow>
               (case ri_provenance (lp_identity p) of
                  GitCommit repository _ identity_subdir \<Rightarrow>
                    bind_res (lock_subdirectory (ci_name root) subdirectory) (\<lambda>subdir.
                      if repository \<noteq> url \<or> identity_subdir \<noteq> subdir
                      then Inl (ConflictingMetadata (identity_key (lp_identity p)))
                      else
                        Inr (p\<lparr>lp_requested_git_source :=
                          Some \<lparr>gs_url = url, gs_selector = lock_git_selector selector,
                                gs_subdirectory = subdir,
                                gs_version_constraint = canonicalize_constraint (ci_constraint root)\<rparr>\<rparr>))
                | _ \<Rightarrow> Inl (ConflictingMetadata (identity_key (lp_identity p))))
           | _ \<Rightarrow> Inr p))"

definition from_resolution_with_composed_environment ::
  "(publication_date \<Rightarrow> string) \<Rightarrow> (bytes \<Rightarrow> bytes) \<Rightarrow> resolution \<Rightarrow> composed_environment \<Rightarrow>
   lock_error abort + lockfile" where
  "from_resolution_with_composed_environment strftime sha resolution composed =
     (if \<not> target_eq (rs_target resolution) (ce_target composed) then Inl (Raised TargetMismatch)
      else
        bind_res (map_err (\<lambda>e. Raised (ManifestFailed e)) (resolution_intent_digest strftime sha composed)) (\<lambda>intent.
        bind_res
          (map_err Raised
            (from_resolution_with_applicability resolution (ce_environment composed)
              (ce_published_before composed) intent (ce_r_requirement composed))) (\<lambda>lock.
        bind_res (map_err Raised (try_map (attach_git_source composed) (lk_packages (lf_resolution lock)))) (\<lambda>packages.
          let lock = lock\<lparr>lf_resolution := (lf_resolution lock)\<lparr>lk_packages := packages\<rparr>\<rparr> in
          map_res (\<lambda>_. lock) (consume_composed_environment strftime sha lock composed)))))"

definition canonical_lock_basename :: "environment_id \<Rightarrow> string" where
  "canonical_lock_basename environment =
     (if environment = ''default'' then ''rsolve.lock'' else ''rsolve.'' @ environment @ ''.lock'')"

definition legacy_composed_environment ::
  "'u url_api \<Rightarrow> manifest \<Rightarrow> string \<Rightarrow> publication_date option \<Rightarrow> lock_error + composed_environment" where
  "legacy_composed_environment api m mirror publication_cutoff =
     bind_res (map_err ManifestFailed (endpoint_parse api mirror)) (\<lambda>e.
     bind_res (map_err ManifestFailed (repository_spec_new ''cran'' Cran e)) (\<lambda>repository.
       Inr \<lparr>ce_environment = ''default'',
            ce_r_requirement = mf_r_requirement m,
            ce_published_before = publication_cutoff,
            ce_target = \<lparr>rt_r_version = mt_r_version (mf_target m)\<rparr>,
            ce_repositories = [repository],
            ce_roots =
              map (\<lambda>requirement.
                \<lparr>ci_name = md_name requirement, ci_constraint = md_constraint requirement,
                 ci_source = RegistrySource None, ci_expansion = HardOnly\<rparr>) (mf_requirements m),
            ce_locked = []\<rparr>))"

section \<open>Resolving with a lock\<close>

text \<open>\<^verbatim>\<open>semantic_identity_key\<close> and \<^verbatim>\<open>verify_exact_identity_set\<close> of \<^verbatim>\<open>orchestration.rs\<close>.\<close>

definition semantic_identity_key :: "release_identity \<Rightarrow> r_package_version \<Rightarrow> string" where
  "semantic_identity_key identity version =
     identity_key identity @ ''@''
     @ join_str ''.''
         (map (\<lambda>c. show_nat (unat c)) (take (canonical_component_count version) (version_components version)))"

definition pair_eq :: "release_identity \<times> r_package_version \<Rightarrow> release_identity \<times> r_package_version \<Rightarrow> bool" where
  "pair_eq a b = (identity_eq (fst a) (fst b) \<and> version_eq (snd a) (snd b))"

text \<open>Collecting into a \<^verbatim>\<open>HashSet\<close>: the first of equal elements is kept.\<close>

fun pair_collect ::
  "(release_identity \<times> r_package_version) list \<Rightarrow> (release_identity \<times> r_package_version) list" where
  "pair_collect [] = []"
| "pair_collect (x # xs) = x # filter (\<lambda>y. \<not> pair_eq x y) (pair_collect xs)"

definition set_difference ::
  "(release_identity \<times> r_package_version) list \<Rightarrow> (release_identity \<times> r_package_version) list \<Rightarrow>
   (release_identity \<times> r_package_version) list" where
  "set_difference xs ys = filter (\<lambda>x. \<not> list_ex (pair_eq x) ys) xs"

definition verify_exact_identity_set :: "resolution \<Rightarrow> consumed_locked_graph \<Rightarrow> lock_error + unit" where
  "verify_exact_identity_set resolution consumed =
     (let expected = pair_collect (map (\<lambda>p. (lp_identity p, lp_version p)) (cg_packages consumed));
          actual = pair_collect (map (\<lambda>p. (pk_identity (rp_release p), pk_version (rp_release p)))
                     (filter (\<lambda>p. \<not> is_r_base_package (rp_release p)) (rs_packages resolution)));
          keys = (\<lambda>ps. canonical_by id (map (\<lambda>(i, v). semantic_identity_key i v) ps)) in
      if set_difference expected actual = [] \<and> set_difference actual expected = [] then Inr ()
      else Inl (ExactIdentitySetMismatch (keys (set_difference expected actual))
             (keys (set_difference actual expected))))"

end
