(* ===== verification/Lock_Wire.thy ===== *)
theory Lock_Wire
  imports Lock
begin

text \<open>
  \<^verbatim>\<open>rsolve/src/wire.rs\<close>: the TOML form of a lock.  The wire structs are records; what serde and the
  \<^verbatim>\<open>toml\<close> crate do is an argument: \<open>from_str\<close> reads a text into them, and the record below has the two
  calls of \<^verbatim>\<open>toml::to_string\<close>.  \<^verbatim>\<open>canonical_version\<close> and the relation ranks and tags are those of the lock
  and of the manifest, which the file repeats word for word.
\<close>

section \<open>Wire structs\<close>

datatype lock_wire_error =
    WireParse string
  | WireSerialize string
  | UnsupportedSchema u32
  | InvalidIdentity string
  | NonCanonicalVersion string string
  | InvalidWireField string string
  | DomainError lock_error

fun lock_wire_error_display :: "lock_wire_error \<Rightarrow> string" where
  "lock_wire_error_display (WireParse message) = ''lock TOML parse failed: '' @ message"
| "lock_wire_error_display (WireSerialize message) = ''lock TOML serialization failed: '' @ message"
| "lock_wire_error_display (UnsupportedSchema version) =
     ''unsupported lock schema version '' @ show_nat (unat version)"
| "lock_wire_error_display (InvalidIdentity identity) = ''invalid lock identity '' @ identity"
| "lock_wire_error_display (NonCanonicalVersion field v) =
     ''non-canonical version in '' @ field @ '': '' @ v"
| "lock_wire_error_display (InvalidWireField field message) =
     ''invalid lock field '' @ field @ '': '' @ message"
| "lock_wire_error_display (DomainError e) = lock_error_display e"

datatype wire_source =
    WireRegistry string
  | WireBioconductor string string
  | WireGit string string "string option"
  | WireImmutable string string

record wire_dependency =
  wd_kind :: string
  wd_package :: string

record wire_requested_git_source =
  wg_url :: string
  wg_selector :: string
  wg_selector_value :: "string option"
  wg_subdirectory :: "string option"
  wg_version_constraint :: string

record wire_package =
  wp_name :: string
  wp_version :: string
  wp_source :: wire_source
  wp_metadata_sha256 :: string
  wp_dependencies :: "wire_dependency list"
  wp_visible_repository_ids :: "string list"
  wp_requested_git_source :: "wire_requested_git_source option"

record wire_lockfile =
  wl_version :: u32
  wl_r_version :: string
  wl_resolution_intent_sha256 :: string
  wl_r_requirement :: string
  wl_environment :: string
  wl_publication_cutoff :: "string option"
  wl_packages :: "wire_package list"

definition schema_version :: u32 where
  "schema_version = 1"

section \<open>Constraints\<close>

definition clause_text :: "version_clause \<Rightarrow> string" where
  "clause_text clause = relation_tag (vc_op clause) @ canonical_version (vc_version clause)"

definition canonical_r_requirement :: "version_constraint \<Rightarrow> string" where
  "canonical_r_requirement constraint =
     (if clauses constraint = [] then ''*''
      else join_str '','' (map clause_text (canonical_clauses (clauses constraint))))"

section \<open>Encoding\<close>

fun encode_dependency_kind :: "effective_dependency_kind \<Rightarrow> string" where
  "encode_dependency_kind EffDepends = ''depends''"
| "encode_dependency_kind EffImports = ''imports''"
| "encode_dependency_kind EffLinkingTo = ''linking-to''"
| "encode_dependency_kind PromotedSuggests = ''promoted-suggests''"

fun encode_provenance :: "provenance \<Rightarrow> lock_wire_error + wire_source" where
  "encode_provenance (RegistryRelease ns _) = Inr (WireRegistry ns)"
| "encode_provenance (BioconductorRelease ns release _) = Inr (WireBioconductor ns release)"
| "encode_provenance (GitCommit repository commit subdirectory) =
     Inr (WireGit repository (gc_hex commit) subdirectory)"
| "encode_provenance (ImmutableSource scheme digest) = Inr (WireImmutable scheme digest)"
| "encode_provenance (RBasePackage _) = Inl (InvalidIdentity ''R base package'')"

fun encode_selector :: "locked_git_selector \<Rightarrow> string \<times> string option" where
  "encode_selector LockedDefaultBranch = (''default-branch'', None)"
| "encode_selector (LockedBranch v) = (''branch'', Some v)"
| "encode_selector (LockedTag v) = (''tag'', Some v)"
| "encode_selector (LockedRev v) = (''rev'', Some v)"

definition encode_requested_git_source :: "locked_git_source \<Rightarrow> wire_requested_git_source" where
  "encode_requested_git_source source =
     (case encode_selector (gs_selector source) of (selector, selector_value) \<Rightarrow>
        \<lparr>wg_url = gs_url source, wg_selector = selector, wg_selector_value = selector_value,
         wg_subdirectory = gs_subdirectory source,
         wg_version_constraint = canonical_r_requirement (gs_version_constraint source)\<rparr>)"

definition encode_package :: "package_name list \<Rightarrow> locked_package \<Rightarrow> lock_wire_error + wire_package" where
  "encode_package selected_names p =
     map_res (\<lambda>source.
       \<lparr>wp_name = lp_name p,
        wp_version = (case lp_published_version_spelling p of
                        Some spelling \<Rightarrow> spelling | None \<Rightarrow> canonical_version (lp_version p)),
        wp_source = source,
        wp_metadata_sha256 = lp_metadata_sha256 p,
        wp_dependencies =
          map (\<lambda>d. \<lparr>wd_kind = encode_dependency_kind (ld_kind d), wd_package = ld_package d\<rparr>)
            (filter (\<lambda>d. ld_package d \<in> set selected_names) (lp_dependencies p)),
        wp_visible_repository_ids = lp_visible_repository_ids p,
        wp_requested_git_source = map_option encode_requested_git_source (lp_requested_git_source p)\<rparr>)
       (encode_provenance (ri_provenance (lp_identity p)))"

text \<open>The wire struct \<^verbatim>\<open>to_toml\<close> writes.\<close>

definition encode_lockfile ::
  "(publication_date \<Rightarrow> string) \<Rightarrow> lockfile \<Rightarrow> lock_wire_error + wire_lockfile" where
  "encode_lockfile strftime lock =
     bind_res
       (map_err DomainError
         (lockfile_new (lf_resolution_intent_sha256 lock) (lf_r_requirement lock) (lf_resolution lock)))
       (\<lambda>normalized.
         let resolution = lf_resolution normalized in
         map_res (\<lambda>packages.
           \<lparr>wl_version = schema_version,
            wl_r_version = canonical_version (rt_r_version (lk_target resolution)),
            wl_resolution_intent_sha256 = lf_resolution_intent_sha256 normalized,
            wl_r_requirement = canonical_r_requirement (lf_r_requirement normalized),
            wl_environment = lk_environment resolution,
            wl_publication_cutoff = map_option strftime (lk_publication_cutoff resolution),
            wl_packages = packages\<rparr>)
           (try_map (encode_package (map lp_name (lk_packages resolution))) (lk_packages resolution)))"

section \<open>Text\<close>

record toml_printer =
  tp_scalar :: "string \<Rightarrow> string + string"
  tp_array :: "string list \<Rightarrow> string + string"

function trim_start_matches :: "string \<Rightarrow> string \<Rightarrow> string" where
  "trim_start_matches p s =
     (if p \<noteq> [] \<and> starts_with p s then trim_start_matches p (drop (length p) s) else s)"
  by pat_completeness auto
termination
proof (relation "measure (\<lambda>(p, s). length s)")
  fix p s :: string
  assume "p \<noteq> [] \<and> starts_with p s"
  then have "p \<noteq> []" "s \<noteq> []" by (cases p; cases s; auto)+
  then show "((p, drop (length p) s), (p, s)) \<in> measure (\<lambda>(p, s). length s)" by simp
qed simp

declare trim_start_matches.simps [simp del]

definition toml_string :: "toml_printer \<Rightarrow> string \<Rightarrow> lock_wire_error + string" where
  "toml_string printer v =
     map_res (\<lambda>serialized. trim_start_matches ''value = '' (trim_end serialized))
       (map_err WireSerialize (tp_scalar printer v))"

definition toml_array :: "toml_printer \<Rightarrow> string list \<Rightarrow> lock_wire_error + string" where
  "toml_array printer vs =
     map_res (\<lambda>serialized. trim_start_matches ''values = '' (trim_end serialized))
       (map_err WireSerialize (tp_array printer vs))"

definition inline_field :: "toml_printer \<Rightarrow> string \<Rightarrow> string \<Rightarrow> lock_wire_error + string" where
  "inline_field printer name v = map_res (\<lambda>s. name @ '' = '' @ s) (toml_string printer v)"

definition inline_table :: "string list \<Rightarrow> string" where
  "inline_table parts = ''{ '' @ join_str '', '' parts @ '' }''"

definition toml_dependencies :: "toml_printer \<Rightarrow> wire_dependency list \<Rightarrow> lock_wire_error + string" where
  "toml_dependencies printer ds =
     map_res (\<lambda>entries. ''['' @ join_str '', '' entries @ '']'')
       (try_map (\<lambda>d.
          bind_res (toml_string printer (wd_kind d)) (\<lambda>kind.
            map_res (\<lambda>package. ''{ kind = '' @ kind @ '', package = '' @ package @ '' }'')
              (toml_string printer (wd_package d)))) ds)"

fun source_entries :: "wire_source \<Rightarrow> (string \<times> string) list" where
  "source_entries (WireRegistry ns) = [(''kind'', ''registry''), (''namespace'', ns)]"
| "source_entries (WireBioconductor ns release) =
     [(''kind'', ''bioconductor''), (''namespace'', ns), (''release'', release)]"
| "source_entries (WireGit repository commit subdirectory) =
     [(''kind'', ''git''), (''repository'', repository), (''commit'', commit)]
     @ (case subdirectory of Some v \<Rightarrow> [(''subdirectory'', v)] | None \<Rightarrow> [])"
| "source_entries (WireImmutable scheme digest) =
     [(''kind'', ''immutable''), (''scheme'', scheme), (''digest'', digest)]"

definition inline_entries :: "toml_printer \<Rightarrow> (string \<times> string) list \<Rightarrow> lock_wire_error + string" where
  "inline_entries printer entries =
     map_res inline_table (try_map (\<lambda>(name, v). inline_field printer name v) entries)"

definition inline_source :: "toml_printer \<Rightarrow> wire_source \<Rightarrow> lock_wire_error + string" where
  "inline_source printer source = inline_entries printer (source_entries source)"

definition inline_requested_git_source ::
  "toml_printer \<Rightarrow> wire_requested_git_source \<Rightarrow> lock_wire_error + string" where
  "inline_requested_git_source printer source =
     inline_entries printer
       ([(''url'', wg_url source), (''selector'', wg_selector source)]
        @ (case wg_selector_value source of Some v \<Rightarrow> [(''selector-value'', v)] | None \<Rightarrow> [])
        @ (case wg_subdirectory source of Some v \<Rightarrow> [(''subdirectory'', v)] | None \<Rightarrow> [])
        @ [(''version-constraint'', wg_version_constraint source)])"

definition newline :: string where
  "newline = [CHR 0x0A]"

definition toml_line :: "string \<Rightarrow> lock_wire_error + string \<Rightarrow> lock_wire_error + string" where
  "toml_line name r = map_res (\<lambda>s. name @ '' = '' @ s @ newline) r"

definition serialize_package :: "toml_printer \<Rightarrow> wire_package \<Rightarrow> lock_wire_error + string" where
  "serialize_package printer p =
     map_res (\<lambda>ls. newline @ ''[[packages]]'' @ newline @ concat ls)
       (try_map (\<lambda>(name, r). toml_line name r)
         ([(''name'', toml_string printer (wp_name p)),
           (''version'', toml_string printer (wp_version p)),
           (''source'', inline_source printer (wp_source p)),
           (''metadata-sha256'', toml_string printer (wp_metadata_sha256 p)),
           (''dependencies'', toml_dependencies printer (wp_dependencies p)),
           (''visible-repository-ids'', toml_array printer (wp_visible_repository_ids p))]
          @ (case wp_requested_git_source p of
               Some source \<Rightarrow> [(''requested-git-source'', inline_requested_git_source printer source)]
             | None \<Rightarrow> [])))"

definition generated_header :: string where
  "generated_header =
     ''# This file is automatically @generated by rsolve.'' @ newline
     @ ''# It is not intended for manual editing.'' @ newline @ newline"

definition serialize_wire :: "toml_printer \<Rightarrow> wire_lockfile \<Rightarrow> lock_wire_error + string" where
  "serialize_wire printer wire =
     bind_res
       (try_map (\<lambda>(name, r). toml_line name r)
         ([(''r-version'', toml_string printer (wl_r_version wire)),
           (''r-requirement'', toml_string printer (wl_r_requirement wire)),
           (''resolution-intent-sha256'', toml_string printer (wl_resolution_intent_sha256 wire)),
           (''environment'', toml_string printer (wl_environment wire))]
          @ (case wl_publication_cutoff wire of
               Some cutoff \<Rightarrow> [(''publication-cutoff'', toml_string printer cutoff)] | None \<Rightarrow> [])))
       (\<lambda>ls.
         map_res (\<lambda>ps.
           generated_header @ ''version = '' @ show_nat (unat (wl_version wire)) @ newline @ concat ls
           @ (if wl_packages wire = [] then ''packages = []'' @ newline else [])
           @ concat ps)
           (try_map (serialize_package printer) (wl_packages wire)))"

definition to_toml ::
  "toml_printer \<Rightarrow> (publication_date \<Rightarrow> string) \<Rightarrow> lockfile \<Rightarrow> lock_wire_error + string" where
  "to_toml printer strftime lock = bind_res (encode_lockfile strftime lock) (serialize_wire printer)"

section \<open>Decoding\<close>

definition wire_parse_version :: "string \<Rightarrow> string \<Rightarrow> lock_wire_error + r_package_version" where
  "wire_parse_version field v =
     map_err (\<lambda>e. InvalidWireField field (r_package_version_error_display e)) (parse_version v)"

definition parse_canonical_r_version_field :: "string \<Rightarrow> string \<Rightarrow> lock_wire_error + r_package_version" where
  "parse_canonical_r_version_field field v =
     bind_res (map_err (\<lambda>e. InvalidWireField field (r_package_version_error_display e)) (parse_bare v))
       (\<lambda>version.
          if canonical_version version \<noteq> v then Inl (NonCanonicalVersion field v) else Inr version)"

definition decode_dependency_kind :: "string \<Rightarrow> lock_wire_error + effective_dependency_kind" where
  "decode_dependency_kind v =
     (if v = ''depends'' then Inr EffDepends
      else if v = ''imports'' then Inr EffImports
      else if v = ''linking-to'' then Inr EffLinkingTo
      else if v = ''promoted-suggests'' then Inr PromotedSuggests
      else Inl (InvalidWireField ''package.dependencies.kind'' (''unknown effective dependency kind '' @ v)))"

definition wire_namespace :: "string \<Rightarrow> lock_wire_error + package_namespace" where
  "wire_namespace ns =
     map_err (\<lambda>e. InvalidWireField ''source.namespace'' (identifier_error_display e))
       (opaque_identifier_new ''PackageNamespace'' ns)"

fun decode_provenance ::
  "(string \<Rightarrow> (bool \<times> string) option) \<Rightarrow> wire_source \<Rightarrow> r_package_version \<Rightarrow> lock_wire_error + provenance" where
  "decode_provenance ip (WireRegistry ns) version =
     map_res (\<lambda>ns. RegistryRelease ns version) (wire_namespace ns)"
| "decode_provenance ip (WireBioconductor ns release) version =
     bind_res (wire_namespace ns) (\<lambda>ns.
       map_res (\<lambda>release. BioconductorRelease ns release version)
         (map_err (\<lambda>e. InvalidWireField ''source.release'' (identifier_error_display e))
           (opaque_identifier_new ''BioconductorRelease'' release)))"
| "decode_provenance ip (WireGit repository commit subdirectory) version =
     bind_res
       (map_err (\<lambda>e. InvalidWireField ''source.repository'' (normalized_git_url_error_display e))
         (normalized_git_url_new ip repository)) (\<lambda>repository.
     bind_res
       (map_err (\<lambda>e. InvalidWireField ''source.commit'' (git_commit_id_error_display e))
         (git_commit_id_new commit)) (\<lambda>commit.
       map_res (GitCommit repository commit)
         (transpose (map_option (\<lambda>v.
            map_err (\<lambda>e. InvalidWireField ''source.subdirectory'' (repository_subdir_error_display e))
              (repository_subdir_new v)) subdirectory))))"
| "decode_provenance ip (WireImmutable scheme digest) version =
     bind_res
       (map_err (\<lambda>e. InvalidWireField ''source.scheme'' (identifier_error_display e))
         (opaque_identifier_new ''SourceScheme'' scheme)) (\<lambda>scheme.
       map_res (ImmutableSource scheme)
         (map_err (\<lambda>e. InvalidWireField ''source.digest'' (digest_error_display e))
           (sha256_digest_new digest)))"

definition decode_selector :: "string \<Rightarrow> string option \<Rightarrow> lock_wire_error + locked_git_selector" where
  "decode_selector kind v =
     (let field = ''package.requested-git-source.selector'' in
      case v of
        None \<Rightarrow>
          if kind = ''default-branch'' then Inr LockedDefaultBranch
          else Inl (InvalidWireField field (''invalid selector '' @ kind @ '' with value '' @ debug_option (map_option debug_str v)))
      | Some s \<Rightarrow>
          if kind = ''branch'' \<or> kind = ''tag'' \<or> kind = ''rev'' then
            map_res (\<lambda>_. if kind = ''branch'' then LockedBranch s else if kind = ''tag'' then LockedTag s else LockedRev s)
              (map_err (\<lambda>e. InvalidWireField field (manifest_error_display e)) (validate_selector s field))
          else Inl (InvalidWireField field (''invalid selector '' @ kind @ '' with value '' @ debug_option (map_option debug_str v))))"

definition decode_requested_git_source ::
  "(string \<Rightarrow> (bool \<times> string) option) \<Rightarrow> wire_requested_git_source \<Rightarrow> lock_wire_error + locked_git_source" where
  "decode_requested_git_source ip wire =
     (let constraint_field = ''package.requested-git-source.version-constraint'' in
      bind_res (decode_selector (wg_selector wire) (wg_selector_value wire)) (\<lambda>selector.
      bind_res
        (map_err (\<lambda>e. InvalidWireField ''package.requested-git-source.url'' (normalized_git_url_error_display e))
          (normalized_git_url_new ip (wg_url wire))) (\<lambda>url.
      bind_res
        (map_err (\<lambda>e. InvalidWireField ''package.requested-git-source.subdirectory'' (repository_subdir_error_display e))
          (transpose (map_option repository_subdir_new (wg_subdirectory wire)))) (\<lambda>subdirectory.
      bind_res
        (map_err (\<lambda>e. InvalidWireField constraint_field (manifest_error_display e))
          (parse_package_constraint (wg_version_constraint wire) constraint_field)) (\<lambda>version_constraint.
        if canonical_r_requirement version_constraint \<noteq> wg_version_constraint wire
        then Inl (InvalidWireField constraint_field ''constraint is not canonically spelled'')
        else Inr \<lparr>gs_url = url, gs_selector = selector, gs_subdirectory = subdirectory,
                  gs_version_constraint = version_constraint\<rparr>)))))"

definition decode_dependency :: "wire_dependency \<Rightarrow> lock_wire_error + locked_dependency_edge" where
  "decode_dependency d =
     bind_res (decode_dependency_kind (wd_kind d)) (\<lambda>kind.
       map_res (\<lambda>package. \<lparr>ld_kind = kind, ld_package = package\<rparr>)
         (map_err (\<lambda>e. InvalidWireField ''package.dependencies.package'' (package_name_error_display e))
           (package_name_new (wd_package d))))"

definition decode_package ::
  "(string \<Rightarrow> (bool \<times> string) option) \<Rightarrow> wire_package \<Rightarrow> lock_wire_error + locked_package" where
  "decode_package ip wire =
     bind_res
       (map_err (\<lambda>e. InvalidWireField ''package.name'' (package_name_error_display e))
         (package_name_new (wp_name wire))) (\<lambda>name.
     bind_res (wire_parse_version ''package.version'' (wp_version wire)) (\<lambda>version.
     bind_res (decode_provenance ip (wp_source wire) version) (\<lambda>provenance.
     bind_res
       (map_err (\<lambda>e. InvalidWireField ''metadata-sha256'' (digest_error_display e))
         (sha256_digest_new (wp_metadata_sha256 wire))) (\<lambda>metadata_sha256.
     bind_res (try_map decode_dependency (wp_dependencies wire)) (\<lambda>dependencies.
     bind_res
       (try_map (\<lambda>v.
          map_err (\<lambda>e. InvalidWireField ''package.visible-repository-ids'' (identifier_error_display e))
            (opaque_identifier_new ''RepositoryId'' v)) (wp_visible_repository_ids wire)) (\<lambda>repositories.
     bind_res (transpose (map_option (decode_requested_git_source ip) (wp_requested_git_source wire)))
       (\<lambda>requested.
       Inr \<lparr>lp_identity = release_identity_new name provenance,
            lp_version = version,
            lp_published_version_spelling =
              (if canonical_version version \<noteq> wp_version wire then Some (wp_version wire) else None),
            lp_dependencies = dependencies,
            lp_visible_repository_ids = repositories,
            lp_metadata_sha256 = metadata_sha256,
            lp_requested_git_source = requested\<rparr>)))))))"

definition decode_resolution ::
  "(string \<Rightarrow> (bool \<times> string) option) \<Rightarrow> (string \<Rightarrow> string + publication_date) \<Rightarrow> (publication_date \<Rightarrow> string) \<Rightarrow>
   wire_lockfile \<Rightarrow> lock_wire_error + (locked_resolution \<times> sha256_digest \<times> version_constraint)" where
  "decode_resolution ip strptime strftime wire =
     bind_res (parse_canonical_r_version_field ''r-version'' (wl_r_version wire)) (\<lambda>r_version.
     bind_res
       (map_err (\<lambda>e. InvalidWireField ''r-requirement'' (manifest_error_display e))
         (parse_r_constraint (wl_r_requirement wire) ''r-requirement'')) (\<lambda>r_requirement.
       if canonical_r_requirement r_requirement \<noteq> wl_r_requirement wire
       then Inl (InvalidWireField ''r-requirement'' ''constraint is not canonically spelled'')
       else
     bind_res
       (map_err (\<lambda>e. InvalidWireField ''resolution-intent-sha256'' (digest_error_display e))
         (sha256_digest_new (wl_resolution_intent_sha256 wire))) (\<lambda>intent.
     bind_res (try_map (decode_package ip) (wl_packages wire)) (\<lambda>packages.
     bind_res
       (transpose (map_option (\<lambda>v.
          map_err (\<lambda>e. InvalidWireField ''publication-cutoff'' (publication_date_error_display e))
            (publication_date_parse strptime strftime v)) (wl_publication_cutoff wire))) (\<lambda>cutoff.
     bind_res
       (map_err (\<lambda>e. InvalidWireField ''environment'' (environment_id_error_display e))
         (environment_id_new (wl_environment wire))) (\<lambda>environment.
       Inr (\<lparr>lk_target = \<lparr>rt_r_version = r_version\<rparr>, lk_environment = environment,
             lk_publication_cutoff = cutoff, lk_packages = packages\<rparr>, intent, r_requirement)))))))"

text \<open>What \<^verbatim>\<open>from_toml\<close> does with a wire struct.\<close>

definition decode_lockfile ::
  "(string \<Rightarrow> (bool \<times> string) option) \<Rightarrow> (string \<Rightarrow> string + publication_date) \<Rightarrow> (publication_date \<Rightarrow> string) \<Rightarrow>
   wire_lockfile \<Rightarrow> lock_wire_error + lockfile" where
  "decode_lockfile ip strptime strftime wire =
     (if wl_version wire \<noteq> schema_version then Inl (UnsupportedSchema (wl_version wire))
      else
        bind_res (decode_resolution ip strptime strftime wire) (\<lambda>(resolution, intent, r_requirement).
        bind_res (map_err DomainError (validate_canonical_resolution resolution)) (\<lambda>_.
          map_err DomainError (lockfile_new intent r_requirement resolution))))"

definition from_toml ::
  "(string \<Rightarrow> string + wire_lockfile) \<Rightarrow> (string \<Rightarrow> (bool \<times> string) option) \<Rightarrow> (string \<Rightarrow> string + publication_date) \<Rightarrow>
   (publication_date \<Rightarrow> string) \<Rightarrow> string \<Rightarrow> lock_wire_error + lockfile" where
  "from_toml from_str ip strptime strftime input =
     bind_res (map_err WireParse (from_str input)) (decode_lockfile ip strptime strftime)"

end
