(* ===== verification/Manifest_Wire.thy ===== *)
theory Manifest_Wire
  imports Manifest
begin

text \<open>
  \<^verbatim>\<open>rsolve/src/manifest/wire.rs\<close>: from a decoded TOML value to a manifest document.  The decoder
  of the \<^verbatim>\<open>toml\<close> crate is the argument \<open>from_str\<close>; its \<^verbatim>\<open>Value\<close> is the datatype below, a table the
  list of its entries in the order it iterates in.  The arguments \<open>ip\<close>, \<open>api\<close>, \<open>strptime\<close> and \<open>strftime\<close> are
  those of Git URLs, of the \<^verbatim>\<open>url\<close> crate and of the calendar.  \<^verbatim>\<open>Path::is_absolute\<close> is that of a Unix
  path.
\<close>

section \<open>Decoded values\<close>

datatype toml_value =
    TomlString string
  | TomlInteger int
  | TomlFloat string
  | TomlBoolean bool
  | TomlDatetime string
  | TomlArray "toml_value list"
  | TomlTable "(string \<times> toml_value) list"

type_synonym toml_table = "(string \<times> toml_value) list"

fun as_table :: "toml_value \<Rightarrow> toml_table option" where
  "as_table (TomlTable t) = Some t"
| "as_table _ = None"

fun as_array :: "toml_value \<Rightarrow> toml_value list option" where
  "as_array (TomlArray vs) = Some vs"
| "as_array _ = None"

fun as_str :: "toml_value \<Rightarrow> string option" where
  "as_str (TomlString s) = Some s"
| "as_str _ = None"

definition wire_table :: "toml_table \<Rightarrow> string \<Rightarrow> manifest_error + toml_table" where
  "wire_table root key =
     (case map_of root key of
        Some (TomlTable t) \<Rightarrow> Inr t
      | Some _ \<Rightarrow> Inl (WrongType key ''table'')
      | None \<Rightarrow> Inl (MissingField key))"

definition reject_unknown :: "toml_table \<Rightarrow> string list \<Rightarrow> string \<Rightarrow> manifest_error + unit" where
  "reject_unknown t allowed ctxt =
     (case find (\<lambda>field. field \<notin> set allowed) (map fst t) of
        Some field \<Rightarrow> Inl (UnknownField (ctxt @ ''.'' @ field))
      | None \<Rightarrow> Inr ())"

definition wire_string :: "toml_table \<Rightarrow> string \<Rightarrow> manifest_error + string option" where
  "wire_string t key =
     (case map_of t key of
        None \<Rightarrow> Inr None
      | Some (TomlString v) \<Rightarrow> Inr (Some v)
      | Some _ \<Rightarrow> Inl (WrongType key ''string''))"

definition required_string :: "toml_table \<Rightarrow> string \<Rightarrow> manifest_error + string" where
  "required_string t key = bind_res (wire_string t key) (ok_or (MissingField key))"

definition wire_integer :: "toml_table \<Rightarrow> string \<Rightarrow> manifest_error + int option" where
  "wire_integer t key =
     (case map_of t key of
        None \<Rightarrow> Inr None
      | Some (TomlInteger v) \<Rightarrow> Inr (Some v)
      | Some _ \<Rightarrow> Inl (WrongType key ''integer''))"

definition parse_optional_string :: "toml_table \<Rightarrow> string \<Rightarrow> string \<Rightarrow> manifest_error + string option" where
  "parse_optional_string root section_name key =
     (case map_of root section_name of
        None \<Rightarrow> Inr None
      | Some v \<Rightarrow>
          bind_res (ok_or (WrongType section_name ''table'') (as_table v)) (\<lambda>t.
          bind_res (reject_unknown t [key] section_name) (\<lambda>_. wire_string t key)))"

definition parse_required_section_string :: "toml_table \<Rightarrow> string \<Rightarrow> string \<Rightarrow> manifest_error + string" where
  "parse_required_section_string root section_name key =
     bind_res (ok_or (MissingField section_name) (map_of root section_name)) (\<lambda>v.
     bind_res (ok_or (WrongType section_name ''table'') (as_table v)) (\<lambda>t.
     bind_res (reject_unknown t [key] section_name) (\<lambda>_.
     bind_res (bind_res (wire_string t key) (ok_or (MissingField (section_name @ ''.'' @ key)))) (\<lambda>s.
       if s = [] \<or> list_ex is_control (chars s)
       then Inl (InvalidField (section_name @ ''.'' @ key)
              ''constraint must be non-empty and contain no control characters'')
       else Inr s))))"

definition parse_optional_date ::
  "(string \<Rightarrow> string + publication_date) \<Rightarrow> (publication_date \<Rightarrow> string) \<Rightarrow> toml_table \<Rightarrow> string \<Rightarrow> string \<Rightarrow>
   manifest_error + publication_date option" where
  "parse_optional_date strptime strftime root section_name key =
     bind_res (parse_optional_string root section_name key) (\<lambda>v.
       case v of
         None \<Rightarrow> Inr None
       | Some s \<Rightarrow>
           map_res Some
             (map_err (\<lambda>e. InvalidField (section_name @ ''.'' @ key) (publication_date_error_display e))
               (publication_date_parse strptime strftime s)))"

section \<open>Repositories\<close>

definition direct_url_parse :: "'u url_api \<Rightarrow> string \<Rightarrow> manifest_error + direct_url" where
  "direct_url_parse api original =
     bind_res (reject_raw_root_escape original) (\<lambda>_.
     bind_res (map_err (InvalidEndpoint original) (url_parse api original)) (\<lambda>url.
       if url_scheme api url \<noteq> ''https'' \<or> url_host_str api url = None
       then Inl (InvalidEndpoint original ''direct source URL must be an absolute HTTPS URL'')
       else if url_username api url \<noteq> [] \<or> url_password api url \<noteq> None \<or> url_fragment api url \<noteq> None
       then Inl (InvalidEndpoint original ''direct source URL forbids credentials and fragments'')
       else
         bind_res (normalize_url_path (url_path api url)) (\<lambda>path.
           let url = url_set_path api url path in
           map_res (url_to_string api) (clear_default_port api original url (url_port api url = Some 443)))))"

definition parse_registry_kind :: "string \<Rightarrow> string option \<Rightarrow> manifest_error + registry_spec" where
  "parse_registry_kind kind namespace =
     (if kind = ''cran'' then
        (if namespace \<noteq> None then Inl (InvalidRegistry ''cran does not accept namespace'') else Inr Cran)
      else if kind = ''cran-like'' then
        bind_res (ok_or (InvalidRegistry ''cran-like requires namespace'') namespace) (\<lambda>ns.
          if ns = ''cran'' then Inl reserved_namespace
          else
            bind_res (map_err (\<lambda>e. InvalidRegistry (identifier_error_display e))
              (opaque_identifier_new ''PackageNamespace'' ns)) registry_spec_cran_like)
      else if kind = ''r-universe'' then
        (if namespace \<noteq> None then Inl (InvalidRegistry ''r-universe is parameterless'') else Inr RUniverse)
      else Inl (UnknownRegistryKind kind))"

definition parse_registry :: "toml_value option \<Rightarrow> manifest_error + registry_spec" where
  "parse_registry v =
     (case v of
        None \<Rightarrow> Inl (MissingField ''repositories[].registry'')
      | Some (TomlString kind) \<Rightarrow> parse_registry_kind kind None
      | Some (TomlTable t) \<Rightarrow>
          bind_res (reject_unknown t [''kind'', ''namespace''] ''repositories[].registry'') (\<lambda>_.
          bind_res (required_string t ''kind'') (\<lambda>kind.
          bind_res (wire_string t ''namespace'') (\<lambda>namespace. parse_registry_kind kind namespace)))
      | Some _ \<Rightarrow> Inl (WrongType ''repositories[].registry'' ''string or table''))"

definition parse_repository_packages ::
  "toml_value option \<Rightarrow> repository_id \<Rightarrow> manifest_error + package_name list option" where
  "parse_repository_packages v repository =
     (case v of
        None \<Rightarrow> Inr None
      | Some v \<Rightarrow>
          bind_res (ok_or (WrongType (''repositories['' @ repository @ ''].packages'') ''array of package names'')
            (as_array v)) (\<lambda>entries.
          map_res Some
            (try_map (\<lambda>entry.
               bind_res
                 (ok_or (WrongType (''repositories['' @ repository @ ''].packages[]'') ''package name string'')
                   (as_str entry))
                 (\<lambda>s. map_err (\<lambda>e. InvalidRepositoryPackage repository s (package_name_error_display e))
                        (package_name_new s))) entries)))"

definition parse_repository ::
  "'u url_api \<Rightarrow> repository_id list \<Rightarrow> toml_value \<Rightarrow> manifest_error + repository_spec" where
  "parse_repository api ids entry =
     bind_res (ok_or (WrongType ''repositories[]'' ''table'') (as_table entry)) (\<lambda>t.
     bind_res (reject_unknown t [''id'', ''url'', ''registry'', ''packages''] ''repositories[]'') (\<lambda>_.
     bind_res (required_string t ''id'') (\<lambda>id_text.
     bind_res (map_err (\<lambda>e. InvalidRepository (identifier_error_display e))
       (opaque_identifier_new ''RepositoryId'' id_text)) (\<lambda>rid.
     bind_res (validate_repository_id rid) (\<lambda>_.
       if rid \<in> set ids then Inl (DuplicateRepository rid)
       else
         bind_res (required_string t ''url'') (\<lambda>url.
         bind_res (endpoint_parse api url) (\<lambda>e.
         bind_res (parse_registry (map_of t ''registry'')) (\<lambda>registry.
         bind_res (parse_repository_packages (map_of t ''packages'') rid) (\<lambda>packages.
           repository_spec_new_with_packages rid registry e packages)))))))))"

fun parse_repository_entries ::
  "'u url_api \<Rightarrow> repository_id list \<Rightarrow> toml_value list \<Rightarrow> manifest_error + repository_spec list" where
  "parse_repository_entries api ids [] = Inr []"
| "parse_repository_entries api ids (entry # entries) =
     bind_res (parse_repository api ids entry) (\<lambda>spec.
       map_res (Cons spec) (parse_repository_entries api (sp_id spec # ids) entries))"

definition parse_repositories :: "'u url_api \<Rightarrow> toml_value option \<Rightarrow> manifest_error + repository_spec list" where
  "parse_repositories api v =
     (case v of
        None \<Rightarrow> Inr []
      | Some v \<Rightarrow>
          bind_res (ok_or (WrongType ''repositories'' ''array of tables'') (as_array v))
            (parse_repository_entries api []))"

section \<open>Dependencies\<close>

definition wire_validate_version :: "string \<Rightarrow> string \<Rightarrow> manifest_error + unit" where
  "wire_validate_version v ctxt =
     (if v = [] \<or> list_ex is_control (chars v)
      then Inl (InvalidDependencyField ctxt ''version must be non-empty and contain no control characters'')
      else Inr ())"

definition has_any_key :: "toml_table \<Rightarrow> string list \<Rightarrow> bool" where
  "has_any_key t keys = list_ex (\<lambda>key. key \<in> set keys) (map fst t)"

definition git_keys :: "string list" where
  "git_keys = [''branch'', ''tag'', ''rev'']"

definition optional_digest :: "toml_table \<Rightarrow> string \<Rightarrow> manifest_error + sha256_digest option" where
  "optional_digest t ctxt =
     bind_res (wire_string t ''sha256'') (\<lambda>v.
       transpose (map_option (\<lambda>digest.
         map_err (\<lambda>e. InvalidDependencyField ctxt (digest_error_display e)) (sha256_digest_new digest)) v))"

definition parse_repository_source :: "toml_table \<Rightarrow> string \<Rightarrow> string \<Rightarrow> manifest_error + manifest_source" where
  "parse_repository_source t ctxt repository =
     bind_res (map_err (\<lambda>e. InvalidRepository (identifier_error_display e))
       (opaque_identifier_new ''RepositoryId'' repository)) (\<lambda>rid.
     bind_res (validate_repository_id rid) (\<lambda>_.
       if has_any_key t (git_keys @ [''sha256'', ''subdirectory'']) then Inl (SourceConflict ctxt)
       else Inr (RegistrySource (Some rid))))"

definition parse_git_selector :: "toml_table \<Rightarrow> string \<Rightarrow> manifest_error + git_selector" where
  "parse_git_selector t ctxt =
     bind_res (wire_string t ''branch'') (\<lambda>branch.
     bind_res (wire_string t ''tag'') (\<lambda>tag.
     bind_res (wire_string t ''rev'') (\<lambda>rv.
       if length (filter (\<lambda>s. s \<noteq> None) [branch, tag, rv]) > 1 then Inl (SourceConflict ctxt)
       else case branch of
              Some v \<Rightarrow> map_res (\<lambda>_. Branch v) (validate_selector v ctxt)
            | None \<Rightarrow>
            (case tag of
              Some v \<Rightarrow> map_res (\<lambda>_. Tag v) (validate_selector v ctxt)
            | None \<Rightarrow>
            (case rv of
              Some v \<Rightarrow> map_res (\<lambda>_. Rev v) (validate_selector v ctxt)
            | None \<Rightarrow> Inr DefaultBranch)))))"

definition parse_git_source ::
  "(string \<Rightarrow> (bool \<times> string) option) \<Rightarrow> toml_table \<Rightarrow> string \<Rightarrow> string option \<Rightarrow> string \<Rightarrow>
   manifest_error + manifest_source" where
  "parse_git_source ip t ctxt subdirectory git =
     bind_res (map_err (\<lambda>e. InvalidDependencyField ctxt (normalized_git_url_error_display e))
       (normalized_git_url_new ip git)) (\<lambda>url.
     bind_res (parse_git_selector t ctxt) (\<lambda>selector.
       if has_any_key t [''sha256''] then Inl (SourceConflict ctxt)
       else
         bind_res
           (case subdirectory of
              None \<Rightarrow> Inr ()
            | Some v \<Rightarrow> map_err (InvalidDependencyField ctxt) (validate_relative_subdirectory v))
           (\<lambda>_. Inr (GitSource url selector subdirectory))))"

definition parse_url_source ::
  "'u url_api \<Rightarrow> toml_table \<Rightarrow> string \<Rightarrow> string option \<Rightarrow> string \<Rightarrow> manifest_error + manifest_source" where
  "parse_url_source api t ctxt subdirectory url_text =
     (if subdirectory \<noteq> None then Inl (SourceConflict ctxt)
      else
        bind_res (direct_url_parse api url_text) (\<lambda>url.
        bind_res (optional_digest t ctxt) (\<lambda>sha256.
          if has_any_key t git_keys then Inl (SourceConflict ctxt) else Inr (UrlSource url sha256))))"

definition parse_path_source ::
  "toml_table \<Rightarrow> string \<Rightarrow> string option \<Rightarrow> string \<Rightarrow> manifest_error + manifest_source" where
  "parse_path_source t ctxt subdirectory path =
     (if starts_with ''/'' path \<or> path = []
      then Inl (InvalidDependencyField ctxt ''path must be a non-empty relative path'')
      else if has_any_key t git_keys then Inl (SourceConflict ctxt)
      else
        bind_res (optional_digest t ctxt) (\<lambda>sha256.
          if subdirectory \<noteq> None then Inl (SourceConflict ctxt)
          else map_res (\<lambda>p. PathSource p sha256)
                 (map_err (InvalidDependencyField ctxt) (normalize_requested_path path))))"

definition parse_source ::
  "(string \<Rightarrow> (bool \<times> string) option) \<Rightarrow> 'u url_api \<Rightarrow> toml_table \<Rightarrow> string \<Rightarrow> string option \<Rightarrow>
   string option \<Rightarrow> string option \<Rightarrow> string option \<Rightarrow> string option \<Rightarrow> manifest_error + manifest_source" where
  "parse_source ip api t ctxt subdirectory repository git url path =
     (case repository of
        Some r \<Rightarrow> parse_repository_source t ctxt r
      | None \<Rightarrow>
      (case git of
        Some g \<Rightarrow> parse_git_source ip t ctxt subdirectory g
      | None \<Rightarrow>
      (case url of
        Some u \<Rightarrow> parse_url_source api t ctxt subdirectory u
      | None \<Rightarrow>
      (case path of
        Some p \<Rightarrow> parse_path_source t ctxt subdirectory p
      | None \<Rightarrow>
          if has_any_key t (git_keys @ [''sha256'', ''subdirectory'']) then Inl (SourceConflict ctxt)
          else Inr (RegistrySource None)))))"

definition parse_dependency_table ::
  "(string \<Rightarrow> (bool \<times> string) option) \<Rightarrow> 'u url_api \<Rightarrow> toml_table \<Rightarrow> string \<Rightarrow>
   manifest_error + manifest_dependency_spec" where
  "parse_dependency_table ip api t ctxt =
     bind_res
       (reject_unknown t
         [''version'', ''repository'', ''git'', ''branch'', ''tag'', ''rev'', ''subdirectory'', ''url'',
          ''sha256'', ''path'', ''include-suggests''] ctxt) (\<lambda>_.
     bind_res (map_res (\<lambda>v. case v of Some s \<Rightarrow> s | None \<Rightarrow> ''*'') (wire_string t ''version'')) (\<lambda>version.
     bind_res (wire_validate_version version ctxt) (\<lambda>_.
     bind_res
       (case map_of t ''include-suggests'' of
          None \<Rightarrow> Inr False
        | Some (TomlBoolean b) \<Rightarrow> Inr b
        | Some _ \<Rightarrow> Inl (WrongType (ctxt @ ''.include-suggests'') ''boolean'')) (\<lambda>include_suggests.
     bind_res (wire_string t ''subdirectory'') (\<lambda>subdirectory.
     bind_res (wire_string t ''repository'') (\<lambda>repository.
     bind_res (wire_string t ''git'') (\<lambda>git.
     bind_res (wire_string t ''url'') (\<lambda>url.
     bind_res (wire_string t ''path'') (\<lambda>path.
       if length (filter (\<lambda>s. s \<noteq> None) [repository, git, url, path]) > 1 then Inl (SourceConflict ctxt)
       else
         map_res (\<lambda>source.
           \<lparr>ds_version = version, ds_source = source, ds_include_suggests = include_suggests\<rparr>)
           (parse_source ip api t ctxt subdirectory repository git url path))))))))))"

fun parse_dependency ::
  "(string \<Rightarrow> (bool \<times> string) option) \<Rightarrow> 'u url_api \<Rightarrow> toml_value \<Rightarrow> string \<Rightarrow>
   manifest_error + manifest_dependency_spec" where
  "parse_dependency ip api (TomlString version) ctxt =
     map_res (\<lambda>_. \<lparr>ds_version = version, ds_source = RegistrySource None, ds_include_suggests = False\<rparr>)
       (wire_validate_version version ctxt)"
| "parse_dependency ip api (TomlTable t) ctxt = parse_dependency_table ip api t ctxt"
| "parse_dependency ip api _ ctxt = Inl (WrongType ctxt ''string or table'')"

definition parse_dependencies ::
  "(string \<Rightarrow> (bool \<times> string) option) \<Rightarrow> 'u url_api \<Rightarrow> toml_value option \<Rightarrow> string \<Rightarrow>
   manifest_error + dependency_map" where
  "parse_dependencies ip api v ctxt =
     (case v of
        None \<Rightarrow> Inr []
      | Some v \<Rightarrow>
          bind_res (ok_or (WrongType ctxt ''table'') (as_table v)) (\<lambda>t.
          map_res bt_collect
            (try_map (\<lambda>(name, entry).
               bind_res (map_err (\<lambda>e. InvalidDependencyField name (package_name_error_display e))
                 (package_name_new name)) (\<lambda>package.
                 if package = ''R'' then Inl RIsNotAPackageRequirement
                 else map_res (Pair package) (parse_dependency ip api entry (ctxt @ ''.'' @ name)))) t)))"

definition check_repository_reference ::
  "repository_id list \<Rightarrow> string \<Rightarrow> manifest_source \<Rightarrow> manifest_error + unit" where
  "check_repository_reference repository_ids field source =
     (case source of
        RegistrySource (Some rid) \<Rightarrow>
          if rid \<notin> set repository_ids then Inl (UnknownRepositoryReference rid field) else Inr ()
      | _ \<Rightarrow> Inr ())"

definition validate_repository_references ::
  "dependency_map \<Rightarrow> (string \<times> dependency_map) list \<Rightarrow> repository_id list \<Rightarrow> manifest_error + unit" where
  "validate_repository_references dependencies groups repository_ids =
     bind_res
       (each (\<lambda>(name, d). check_repository_reference repository_ids name (ds_source d)) dependencies) (\<lambda>_.
       each (\<lambda>(g, ds).
         each (\<lambda>(name, d).
           check_repository_reference repository_ids (''groups.'' @ g @ ''.'' @ name) (ds_source d)) ds) groups)"

section \<open>Groups and environments\<close>

definition parse_groups ::
  "(string \<Rightarrow> (bool \<times> string) option) \<Rightarrow> 'u url_api \<Rightarrow> toml_value option \<Rightarrow>
   manifest_error + (string \<times> dependency_map) list" where
  "parse_groups ip api v =
     (case v of
        None \<Rightarrow> Inr []
      | Some v \<Rightarrow>
          bind_res (ok_or (WrongType ''groups'' ''table'') (as_table v)) (\<lambda>groups.
          map_res bt_collect
            (try_map (\<lambda>(g, entry).
               bind_res (validate_named_id g ''group'') (\<lambda>_.
               bind_res (ok_or (WrongType (''groups.'' @ g) ''table'') (as_table entry)) (\<lambda>t.
               bind_res (reject_unknown t [''dependencies''] (''groups.'' @ g)) (\<lambda>_.
                 map_res (Pair g)
                   (parse_dependencies ip api (map_of t ''dependencies'') (''groups.'' @ g @ ''.dependencies''))))))
               groups)))"

definition parse_environments :: "toml_value option \<Rightarrow> manifest_error + (string \<times> string list) list" where
  "parse_environments v =
     (case v of
        None \<Rightarrow> Inr []
      | Some v \<Rightarrow>
          bind_res (ok_or (WrongType ''environments'' ''table'') (as_table v)) (\<lambda>environments.
          map_res bt_collect
            (try_map (\<lambda>(e, entry).
               bind_res (map_err (\<lambda>_. InvalidIdentifier ''environment'' e) (environment_id_new e)) (\<lambda>_.
               bind_res (ok_or (WrongType (''environments.'' @ e) ''array of strings'') (as_array entry)) (\<lambda>vs.
                 map_res (Pair e)
                   (try_map (\<lambda>v. ok_or (WrongType (''environments.'' @ e @ ''[]'') ''string'') (as_str v)) vs))))
               environments)))"

definition validate_environment_references ::
  "(string \<times> string list) list \<Rightarrow> (string \<times> dependency_map) list \<Rightarrow> manifest_error + unit" where
  "validate_environment_references environments groups =
     each (\<lambda>(environment, references). validate_group_references environment (map fst groups) [] references)
       environments"

section \<open>The document\<close>

definition parse_manifest_value ::
  "(string \<Rightarrow> (bool \<times> string) option) \<Rightarrow> 'u url_api \<Rightarrow>
   (string \<Rightarrow> string + publication_date) \<Rightarrow> (publication_date \<Rightarrow> string) \<Rightarrow>
   toml_value \<Rightarrow> string option \<Rightarrow> manifest_error + manifest_document" where
  "parse_manifest_value ip api strptime strftime v project_root =
     bind_res (ok_or (WrongType ''root'' ''table'') (as_table v)) (\<lambda>root.
     bind_res
       (reject_unknown root
         [''rsolve'', ''r'', ''resolution'', ''repositories'', ''dependencies'', ''groups'', ''environments'']
         ''root'') (\<lambda>_.
     bind_res (wire_table root ''rsolve'') (\<lambda>rsolve.
     bind_res (reject_unknown rsolve [''schema''] ''rsolve'') (\<lambda>_.
     bind_res (bind_res (wire_integer rsolve ''schema'') (ok_or (MissingField ''rsolve.schema''))) (\<lambda>schema.
       if schema \<noteq> 1 then Inl (UnknownSchema schema)
       else
     bind_res (parse_required_section_string root ''r'' ''version'') (\<lambda>r_requirement.
     bind_res (parse_optional_date strptime strftime root ''resolution'' ''published-before'') (\<lambda>published_before.
     bind_res (parse_repositories api (map_of root ''repositories'')) (\<lambda>repositories.
     bind_res (parse_dependencies ip api (map_of root ''dependencies'') ''dependencies'') (\<lambda>dependencies.
     bind_res (parse_groups ip api (map_of root ''groups'')) (\<lambda>groups.
     bind_res (parse_environments (map_of root ''environments'')) (\<lambda>environments.
     bind_res (validate_repository_references dependencies groups (map sp_id repositories)) (\<lambda>_.
     bind_res (validate_environment_references environments groups) (\<lambda>_.
       Inr \<lparr>doc_schema = word_of_int schema, doc_project_root = project_root,
            doc_r_requirement = r_requirement, doc_published_before = published_before,
            doc_repositories = repositories, doc_dependencies = dependencies,
            doc_groups = groups, doc_environments = environments\<rparr>)))))))))))))"

definition parse_manifest ::
  "(string \<Rightarrow> string + toml_value) \<Rightarrow> (string \<Rightarrow> (bool \<times> string) option) \<Rightarrow> 'u url_api \<Rightarrow>
   (string \<Rightarrow> string + publication_date) \<Rightarrow> (publication_date \<Rightarrow> string) \<Rightarrow>
   string \<Rightarrow> manifest_error + manifest_document" where
  "parse_manifest from_str ip api strptime strftime input =
     bind_res (map_err Toml (from_str input)) (\<lambda>v. parse_manifest_value ip api strptime strftime v None)"

end
