(* ===== verification/Solve_Sound.thy ===== *)
theory Solve_Sound
  imports Solve
begin

text \<open>
  The soundness of \<^verbatim>\<open>solve\<close>: the callbacks as a step relation, PubGrub's documented answer, and
  that the code after \<^verbatim>\<open>resolve\<close> turns every such answer into a resolution that satisfies the
  request.
\<close>

section \<open>The callbacks as steps\<close>

inductive callback :: "'r pubgrub_api \<Rightarrow> provider \<Rightarrow> provider_state \<Rightarrow> provider_state \<Rightarrow> bool"
  for pg :: "'r pubgrub_api" and p :: provider where
  call_prioritize: "callback pg p st (snd (prioritize pg p q r st))"
| call_choose_version: "choose_version pg p q r st = (answer, st') \<Longrightarrow> callback pg p st st'"
| call_get_dependencies: "get_dependencies pg p q v st = (answer, st') \<Longrightarrow> callback pg p st st'"

inductive_cases callbackE: "callback pg p st st'"

lemma callback_ok:
  assumes "callback pg p st st'" "provider_ok p st"
  shows "provider_ok p st' \<and> extends_state st st'"
  using assms(1)
proof (cases rule: callback.cases)
  case (call_prioritize q r)
  then show ?thesis using prioritize_ok[OF assms(2)] by simp
next
  case (call_choose_version q r answer)
  show ?thesis
    by (rule providing.keepsD[OF keeps_choose_version assms(2) call_choose_version])
next
  case (call_get_dependencies q v answer)
  show ?thesis
    by (rule providing.keepsD[OF keeps_get_dependencies assms(2) call_get_dependencies])
qed

lemma callbacks_ok:
  assumes "(callback pg p)\<^sup>*\<^sup>* st st'" "provider_ok p st"
  shows "provider_ok p st' \<and> extends_state st st'"
  using assms
proof (induction rule: rtranclp_induct)
  case base
  then show ?case using providing.ext_refl by blast
next
  case (step t u)
  then show ?case using callback_ok providing.ext_trans by blast
qed

section \<open>PubGrub's answer\<close>

text \<open>
  What PubGrub documents of a solution: it selects one version per package, the root among them;
  the provider reported the dependencies of every selected version, and each reported constraint
  contains the version selected for its package; every other version was chosen by the provider.
  The provider state is the one in which the callbacks left it.
\<close>

definition answered ::
  "'r pubgrub_api \<Rightarrow> provider \<Rightarrow> (package_id \<times> solver_version) list \<Rightarrow> provider_state \<Rightarrow>
   package_id \<Rightarrow> solver_version \<Rightarrow> bool" where
  "answered pg p selection st q v \<longleftrightarrow>
     (\<exists>s1 s2 deps. (callback pg p)\<^sup>*\<^sup>* initial_state s1 \<and>
        get_dependencies pg p q v s1 = (Inr (DepsAvailable deps), s2) \<and>
        (callback pg p)\<^sup>*\<^sup>* s2 st \<and>
        (\<forall>(q', r)\<in>set deps. \<exists>(q2, w)\<in>set selection. package_id_eq q2 q' \<and> pg_contains pg r w))"

definition chosen ::
  "'r pubgrub_api \<Rightarrow> provider \<Rightarrow> provider_state \<Rightarrow> package_id \<Rightarrow> solver_version \<Rightarrow> bool" where
  "chosen pg p st q v \<longleftrightarrow>
     (\<exists>s1 s2 r. (callback pg p)\<^sup>*\<^sup>* initial_state s1 \<and>
        choose_version pg p q r s1 = (Inr (Some v), s2) \<and> (callback pg p)\<^sup>*\<^sup>* s2 st)"

definition pubgrub_answer ::
  "'r pubgrub_api \<Rightarrow> provider \<Rightarrow> (package_id \<times> solver_version) list \<Rightarrow> provider_state \<Rightarrow> bool" where
  "pubgrub_answer pg p selection st \<longleftrightarrow>
     (PRoot, VRoot) \<in> set selection \<and>
     sorted_wrt (\<lambda>a b. \<not> package_id_eq (fst a) (fst b)) selection \<and>
     (\<forall>(q, v)\<in>set selection. answered pg p selection st q v \<and> (q \<noteq> PRoot \<longrightarrow> chosen pg p st q v))"

section \<open>The specification of a resolution\<close>

text \<open>An identity answers to a subject.\<close>

definition matches_subject :: "solver_key \<Rightarrow> release_identity \<Rightarrow> bool" where
  "matches_subject k i \<longleftrightarrow>
     subject_name k = Some (ri_name i) \<and> provenance_matches (ri_provenance i) k \<and>
     (\<forall>j. k = KeyExact j \<longrightarrow> identity_eq i j)"

text \<open>
  A requirement is met: it is on R and the target satisfies it, or a package of the resolution
  satisfies it, or the runtime provides it.
\<close>

definition meets :: "provider \<Rightarrow> resolution \<Rightarrow> package_requirement \<Rightarrow> bool" where
  "meets p res q \<longleftrightarrow>
     (\<exists>k. subject_for_package p q = Inr k \<and>
        (if k = KeyR then satisfies (pr_constraint q) (pv_r_version p)
         else
           (\<exists>pkg\<in>set (rs_packages res).
              matches_subject k (pk_identity (rp_release pkg)) \<and>
              satisfies (pr_constraint q) (pk_version (rp_release pkg)) \<and>
              (\<forall>r n. k = KeyRepository r n \<longrightarrow> r \<in> set (rp_visible_repository_ids pkg))) \<or>
           (\<exists>k0 r c. solver_key_eq k0 k \<and> pv_loader p k0 = Inr r \<and> c \<in> set (lr_candidates r) \<and>
              is_r_base_package (pc_release c) \<and> satisfies (pr_constraint q) (pk_version (pc_release c)))))"

definition resolution_ok :: "provider \<Rightarrow> resolution \<Rightarrow> bool" where
  "resolution_ok p res \<longleftrightarrow>
     rs_target res = rq_target (pv_request p) \<and>
     satisfies (rq_r_requirement (pv_request p)) (pv_r_version p) \<and>
     sorted_wrt (<) (map rp_name (rs_packages res)) \<and>
     (\<forall>q\<in>set (rq_roots (pv_request p)). meets p res (rr_package q)) \<and>
     (\<forall>pkg\<in>set (rs_packages res).
        \<not> is_r_base_package (rp_release pkg) \<and>
        (\<forall>e\<in>set (rp_effective_dependencies pkg). meets p res (re_package e)) \<and>
        set (project_dependency_edges (rp_release pkg) HardOnly) \<subseteq> set (rp_effective_dependencies pkg) \<and>
        (\<forall>i. pv_lock_decision p (rp_subject pkg) = Require i \<longrightarrow> identity_eq (pk_identity (rp_release pkg)) i) \<and>
        (\<forall>cutoff. rq_publication_cutoff (pv_request p) = Some cutoff \<longrightarrow>
           is_locked_to (locked_identity (pv_lock_decision p (rp_subject pkg))) (pk_identity (rp_release pkg)) \<or>
           (\<exists>d. pk_publication (rp_release pkg) = Some d \<and> rp_date d \<le> cutoff)))"

section \<open>Congruence\<close>

lemma clause_eq_satisfied: "clause_eq a b \<Longrightarrow> clause_satisfied v a = clause_satisfied v b"
proof -
  assume "clause_eq a b"
  then have op: "vc_op a = vc_op b" and eq: "version_cmp (vc_version a) (vc_version b) = Equal"
    by (simp_all add: clause_eq_def version_eq_def)
  have "version_cmp v (vc_version a) = version_cmp v (vc_version b)"
    using vers.cmp_cong_left[OF eq, of v] vers.cmp_flip by metis
  then show ?thesis by (simp add: clause_satisfied_def op)
qed

lemma constraint_eq_satisfies: "constraint_eq a b \<Longrightarrow> satisfies a v = satisfies b v"
proof -
  have "list_all (clause_satisfied v) xs = list_all (clause_satisfied v) ys" if "list_all2 clause_eq xs ys" for xs ys
    using that by (induction rule: list_all2_induct) (simp_all add: clause_eq_satisfied)
  then show "constraint_eq a b \<Longrightarrow> satisfies a v = satisfies b v"
    by (simp add: constraint_eq_def satisfies_def)
qed

lemma matches_subject_cong:
  assumes "solver_key_eq k k'"
  shows "matches_subject k i = matches_subject k' i"
proof (cases k; cases k')
  fix a b assume "k = KeyExact a" "k' = KeyExact b"
  then show ?thesis
    using assms id_eq.eq_cong_right[of a b i] identity_eq_name[of a b] by (simp add: matches_subject_def)
qed (use assms in auto)

lemma matches_identity_cong:
  assumes "identity_eq i j"
  shows "matches_subject k i = matches_subject k j"
proof -
  have "provenance_matches (ri_provenance i) k = provenance_matches (ri_provenance j) k"
    using assms by (intro provenance_matches_cong) (simp add: identity_eq_def)
  then show ?thesis
    by (simp only: matches_subject_def identity_eq_name[OF assms] id_eq.eq_cong_left[OF assms])
qed

lemma eligible_matches: "is_eligible_for c k \<Longrightarrow> matches_subject k (pc_identity c)"
  unfolding is_eligible_iff
proof (elim disjE)
  assume "\<exists>oc\<in>set (pc_occurrences c). serves (pc_identity c) k oc"
  then show ?thesis by (cases k) (auto simp: serves_def matches_subject_def)
qed (auto simp: matches_subject_def dest: identity_eq_name)

lemma subject_for_package_cong:
  assumes "requirement_eq a b" "subject_for_package p a = Inr k"
  shows "\<exists>k'. subject_for_package p b = Inr k' \<and> solver_key_eq k k'"
proof -
  have name: "pr_name a = pr_name b" and src: "source_eq (pr_source a) (pr_source b)"
    using assms(1) by (simp_all add: requirement_eq_def)
  have "pr_source a = pr_source b \<or>
      (\<exists>i j. pr_source a = SourceExact i \<and> pr_source b = SourceExact j \<and> identity_eq i j)"
    using src by (cases "pr_source a"; cases "pr_source b") auto
  then show ?thesis
  proof
    assume "pr_source a = pr_source b"
    then have "subject_for_package p a = subject_for_package p b"
      by (simp only: subject_for_package_def name)
    then have "subject_for_package p b = Inr k" using assms(2) by metis
    then show ?thesis using key_eq.eq_refl by blast
  next
    assume "\<exists>i j. pr_source a = SourceExact i \<and> pr_source b = SourceExact j \<and> identity_eq i j"
    then obtain i j where "pr_source a = SourceExact i" "pr_source b = SourceExact j" "identity_eq i j" by blast
    then show ?thesis
      using assms(2) by (auto simp: subject_for_package_def name split: if_splits)
  qed
qed

lemma meets_cong:
  assumes eq: "requirement_eq a b" and "meets p res a"
  shows "meets p res b"
proof -
  obtain k where k: "subject_for_package p a = Inr k" and m: "if k = KeyR then satisfies (pr_constraint a) (pv_r_version p)
         else
           (\<exists>pkg\<in>set (rs_packages res).
              matches_subject k (pk_identity (rp_release pkg)) \<and>
              satisfies (pr_constraint a) (pk_version (rp_release pkg)) \<and>
              (\<forall>r n. k = KeyRepository r n \<longrightarrow> r \<in> set (rp_visible_repository_ids pkg))) \<or>
           (\<exists>k0 r c. solver_key_eq k0 k \<and> pv_loader p k0 = Inr r \<and> c \<in> set (lr_candidates r) \<and>
              is_r_base_package (pc_release c) \<and> satisfies (pr_constraint a) (pk_version (pc_release c)))"
    using assms(2) unfolding meets_def by blast
  obtain k' where k': "subject_for_package p b = Inr k'" "solver_key_eq k k'"
    using subject_for_package_cong[OF eq k] by blast
  have sat: "satisfies (pr_constraint a) v = satisfies (pr_constraint b) v" for v
    using eq by (intro constraint_eq_satisfies) (simp add: requirement_eq_def)
  have R: "k = KeyR \<longleftrightarrow> k' = KeyR" and rep: "k = KeyRepository r n \<longleftrightarrow> k' = KeyRepository r n" for r n
    using k'(2) by (cases k; cases k'; auto)+
  have trans: "solver_key_eq k0 k \<Longrightarrow> solver_key_eq k0 k'" for k0 using k'(2) key_eq.eq_trans by blast
  show ?thesis
    unfolding meets_def
    using k'(1) m[unfolded R sat rep matches_subject_cong[OF k'(2)]] trans by (metis (no_types, lifting))
qed

section \<open>What the selection contains\<close>

text \<open>The hypotheses of the soundness theorem, collected: PubGrub, the loader, the answer.\<close>

definition solved ::
  "'r pubgrub_api \<Rightarrow> provider \<Rightarrow> (package_id \<times> solver_version) list \<Rightarrow> provider_state \<Rightarrow> bool" where
  "solved pg p selection st \<longleftrightarrow>
     pubgrub_laws pg \<and> pubgrub_answer pg p selection st \<and>
     (\<forall>k r c. pv_loader p k = Inr r \<longrightarrow> c \<in> set (lr_candidates r) \<longrightarrow> candidate_ok c \<and> release_wf (pc_release c))"

lemma solved_state:
  assumes "solved pg p selection st"
  shows "provider_ok p st"
proof -
  have "answered pg p selection st PRoot VRoot"
    using assms by (force simp: solved_def pubgrub_answer_def)
  then obtain s1 s2 deps where "(callback pg p)\<^sup>*\<^sup>* initial_state s1"
    "get_dependencies pg p PRoot VRoot s1 = (Inr (DepsAvailable deps), s2)" "(callback pg p)\<^sup>*\<^sup>* s2 st"
    unfolding answered_def by blast
  then have "(callback pg p)\<^sup>*\<^sup>* initial_state st"
    by (meson call_get_dependencies converse_rtranclp_into_rtranclp rtranclp_trans)
  then show ?thesis using callbacks_ok initial_ok by blast
qed

text \<open>Every constraint of a list has a selected version.\<close>

definition constraints_met ::
  "'r pubgrub_api \<Rightarrow> (package_id \<times> solver_version) list \<Rightarrow> (package_id \<times> 'r) list \<Rightarrow> bool" where
  "constraints_met pg selection deps \<longleftrightarrow>
     (\<forall>(q', r)\<in>set deps. \<exists>(q2, w)\<in>set selection. package_id_eq q2 q' \<and> pg_contains pg r w)"

lemma constraints_metD:
  "constraints_met pg selection deps \<Longrightarrow> (q', r) \<in> set deps \<Longrightarrow>
     \<exists>q2 w. (q2, w) \<in> set selection \<and> package_id_eq q2 q' \<and> pg_contains pg r w"
  by (fastforce simp: constraints_met_def)

lemma answered_run:
  assumes "answered pg p selection st q v"
  shows "\<exists>s1 s2 deps. provider_ok p s1 \<and> get_dependencies pg p q v s1 = (Inr (DepsAvailable deps), s2) \<and>
           extends_state s2 st \<and> constraints_met pg selection deps"
proof -
  obtain s1 s2 deps where run: "(callback pg p)\<^sup>*\<^sup>* initial_state s1"
    "get_dependencies pg p q v s1 = (Inr (DepsAvailable deps), s2)" "(callback pg p)\<^sup>*\<^sup>* s2 st"
    and deps: "constraints_met pg selection deps"
    using assms unfolding answered_def constraints_met_def by blast
  have s1: "provider_ok p s1" using callbacks_ok[OF run(1) initial_ok] by blast
  have s2: "provider_ok p s2" using providing.keepsD[OF keeps_get_dependencies s1 run(2)] by blast
  show ?thesis using s1 run(2) callbacks_ok[OF run(3) s2] deps by blast
qed

text \<open>A requirement is met by the selection.\<close>

definition selection_meets ::
  "provider \<Rightarrow> (package_id \<times> solver_version) list \<Rightarrow> provider_state \<Rightarrow> package_requirement \<Rightarrow> bool" where
  "selection_meets p selection st q \<longleftrightarrow>
     (\<exists>k. subject_for_package p q = Inr k \<and>
        (if k = KeyR then satisfies (pr_constraint q) (pv_r_version p)
         else \<exists>k2 cid x. (PSubject k2, VCandidate cid) \<in> set selection \<and> solver_key_eq k2 k \<and>
                visible st k2 cid x \<and> satisfies (pr_constraint q) (pk_version (pc_release x))))"

lemma covered_selection_meets:
  assumes "covered pg p s2 deps q" "extends_state s2 st"
    and sel: "constraints_met pg selection deps"
  shows "selection_meets p selection st q"
proof -
  obtain k rng where k: "subject_for_package p q = Inr k" "(PSubject k, rng) \<in> set deps"
    and rng: "range_ok pg p st k (pr_constraint q) rng"
    using assms(1) range_ok_ext[OF assms(2), of pg p] unfolding covered_def by blast
  obtain q2 w where w: "(q2, w) \<in> set selection" "package_id_eq q2 (PSubject k)" "pg_contains pg rng w"
    using constraints_metD[OF sel k(2)] by blast
  then obtain k2 where k2: "q2 = PSubject k2" "solver_key_eq k2 k" by (cases q2) auto
  show ?thesis
  proof (cases "k = KeyR")
    case True
    then show ?thesis using k(1) rng w(3) by (auto simp: selection_meets_def range_ok_def)
  next
    case False
    then obtain cid x where x: "w = VCandidate cid" "visible st k cid x"
      "satisfies (pr_constraint q) (pk_version (pc_release x))"
      using rng w(3) by (auto simp: range_ok_def)
    have "visible st k2 cid x" using visible_cong[OF key_eq.eq_sym[OF k2(2)] x(2)] .
    then show ?thesis
      unfolding selection_meets_def using k(1) False x w(1) k2 by auto
  qed
qed

lemma solved_roots:
  assumes "solved pg p selection st"
  shows "satisfies (rq_r_requirement (pv_request p)) (pv_r_version p)"
    and "q \<in> set (rq_roots (pv_request p)) \<Longrightarrow> selection_meets p selection st (rr_package q)"
proof -
  have laws: "pubgrub_laws pg" using assms by (simp add: solved_def)
  have "answered pg p selection st PRoot VRoot"
    using assms by (force simp: solved_def pubgrub_answer_def)
  then obtain s1 s2 deps where s1: "provider_ok p s1"
    and run: "get_dependencies pg p PRoot VRoot s1 = (Inr (DepsAvailable deps), s2)"
    and s2: "extends_state s2 st"
    and sel: "constraints_met pg selection deps"
    using answered_run by blast
  note D = root_dependencies_available[OF laws s1 run]
  obtain w where "pg_contains pg (r_range pg p (rq_r_requirement (pv_request p))) w" using constraints_metD[OF sel D(1)] by blast
  then show "satisfies (rq_r_requirement (pv_request p)) (pv_r_version p)"
    using r_range_ok[OF laws, of p st "rq_r_requirement (pv_request p)"] by (auto simp: range_ok_def)
  show "q \<in> set (rq_roots (pv_request p)) \<Longrightarrow> selection_meets p selection st (rr_package q)"
    using D(2) covered_selection_meets[OF _ s2 sel] by blast
qed

lemma solved_visible_ok:
  assumes "solved pg p selection st" "visible st k cid c"
  shows "candidate_ok c" "release_wf (pc_release c)"
proof -
  obtain k0 r where "pv_loader p k0 = Inr r"
    and "unites (filter (\<lambda>x. identity_eq (pc_identity x) (pc_identity c)) (lr_candidates r)) c"
    using visible_facts(3)[OF solved_state[OF assms(1)] assms(2)] by blast
  moreover have "\<forall>x\<in>set (lr_candidates r). candidate_ok x \<and> release_wf (pc_release x)"
    using assms(1) calculation(1) unfolding solved_def by blast
  ultimately show "candidate_ok c" "release_wf (pc_release c)"
    by (simp_all add: unites_def)
qed

lemma eligible_candidates_Inr:
  assumes "eligible_candidates pg p k rng s = (Inr (eligible, ctx), s')"
  shows "\<exists>cs. candidates p k s = (Inr cs, s') \<and> set eligible \<subseteq> set cs \<and>
           (\<forall>e\<in>set eligible. \<not> excluded_by_lock p k (snd e)) \<and>
           (\<forall>e\<in>set eligible. \<forall>r. rng = Some r \<longrightarrow> pg_contains pg r (VCandidate (fst e)))"
proof -
  let ?ok = "\<lambda>(cid, c).
      (case required_identity (pv_lock_decision p k) of None \<Rightarrow> True | Some i \<Rightarrow> identity_eq (pc_identity c) i)
      \<and> (case rng of None \<Rightarrow> True | Some r \<Rightarrow> pg_contains pg r (VCandidate cid))"
  obtain cs where cs: "candidates p k s = (Inr cs, s')" and sub: "set eligible \<subseteq> set (filter ?ok cs)"
    using assms unfolding eligible_candidates_def Let_def bind_s_Inr_iff ret_s_iff
    by (elim exE conjE) (simp split: if_splits; fastforce)
  have "\<not> excluded_by_lock p k c" if "?ok (cid, c)" for cid c
    using that by (auto simp: excluded_by_lock_def required_identity_def)
  then show ?thesis using cs sub by fastforce
qed

lemma choose_version_subject:
  assumes ok: "provider_ok p s" and k: "k \<noteq> KeyR"
    and run: "choose_version pg p (PSubject k) r s = (Inr (Some v), s')"
  shows "\<exists>cid c. v = VCandidate cid \<and> visible s' k cid c \<and> \<not> excluded_by_lock p k c"
proof -
  obtain eligible ctx where e: "eligible_candidates pg p k (Some r) s = (Inr (eligible, ctx), s')"
    and v: "map_option (\<lambda>e. VCandidate (fst e)) (pop (sort_candidates p k eligible ctx)) = Some v"
    using run k by (cases k) (auto simp: choose_version_def bind_s_Inr_iff eq_commute[of "Some v"])
  obtain cs where cs: "candidates p k s = (Inr cs, s')" and sub: "set eligible \<subseteq> set cs"
    and req: "\<forall>e\<in>set eligible. \<not> excluded_by_lock p k (snd e)"
    using eligible_candidates_Inr[OF e] by blast
  obtain cid c where last: "last (sort_candidates p k eligible ctx) = (cid, c)"
    and ne: "sort_candidates p k eligible ctx \<noteq> []" and vc: "v = VCandidate cid"
    using v by (cases "last (sort_candidates p k eligible ctx)") (auto simp: pop_def split: if_splits)
  have "set (sort_candidates p k eligible ctx) = set eligible"
  proof -
    have "set (sort_by cmp xs) = set xs" for cmp and xs :: "(nat \<times> prepared_candidate) list"
      by (induction xs) (simp_all add: set_insort_by)
    then show ?thesis by (simp add: sort_candidates_def)
  qed
  then have mem: "(cid, c) \<in> set eligible" using last ne last_in_set by metis
  obtain l where l: "loaded p k s = (Inr l, s')" "cs = ls_candidates l"
    using cs by (auto simp: candidates_def bind_s_Inr_iff)
  then have "visible s' k cid c" using loaded_visible[OF ok l(1)] mem sub by auto
  moreover have "\<not> excluded_by_lock p k c"
    using req mem by auto
  ultimately show ?thesis using vc by blast
qed

lemma solved_subject:
  assumes S: "solved pg p selection st" and sel: "(PSubject k, v) \<in> set selection" and k: "k \<noteq> KeyR"
  shows "\<exists>cid c expansion. v = VCandidate cid \<and> visible st k cid c \<and>
           expansion_for_subject p k = Inr expansion \<and>
           publication_ok p k c \<and> \<not> excluded_by_lock p k c \<and>
           (\<exists>w. (POccupancy (ri_name (pc_identity c)), w) \<in> set selection \<and> w = VCandidate cid) \<and>
           (\<forall>e\<in>set (project_dependency_edges (pc_release c) expansion).
              selection_meets p selection st (re_package e))"
proof -
  have laws: "pubgrub_laws pg" and st: "provider_ok p st"
    using S solved_state[OF S] by (simp_all add: solved_def)
  have "answered pg p selection st (PSubject k) v" and "chosen pg p st (PSubject k) v"
    using S sel by (auto simp: solved_def pubgrub_answer_def)
  then obtain s1 s2 deps t1 t2 r where s1: "provider_ok p s1"
    and run: "get_dependencies pg p (PSubject k) v s1 = (Inr (DepsAvailable deps), s2)"
    and s2: "extends_state s2 st"
    and deps: "constraints_met pg selection deps"
    and t: "(callback pg p)\<^sup>*\<^sup>* initial_state t1" "choose_version pg p (PSubject k) r t1 = (Inr (Some v), t2)"
      "(callback pg p)\<^sup>*\<^sup>* t2 st"
    unfolding chosen_def by (metis answered_run)
  have t1: "provider_ok p t1" using callbacks_ok[OF t(1) initial_ok] by blast
  have t2: "provider_ok p t2" using providing.keepsD[OF keeps_choose_version t1 t(2)] by blast
  obtain cid c' where v: "v = VCandidate cid" and c': "visible t2 k cid c'" "\<not> excluded_by_lock p k c'"
    using choose_version_subject[OF t1 k t(2)] by blast
  have "subject_dependencies pg p k cid s1 = (Inr (DepsAvailable deps), s2)"
    using run k by (cases k) (simp_all add: get_dependencies_def v)
  then obtain c expansion where c: "visible s2 k cid c" "expansion_for_subject p k = Inr expansion"
    "publication_ok p k c \<or> excluded_by_lock p k c"
    "(POccupancy (ri_name (pc_identity c)), pg_singleton pg (VCandidate cid)) \<in> set deps"
    "\<forall>e\<in>set (project_dependency_edges (pc_release c) expansion). covered pg p s2 deps (re_package e)"
    using subject_dependencies_available[OF laws s1] by metis
  have vis: "visible st k cid c" using visible_ext[OF s2 c(1)] .
  moreover have "visible st k cid c'" using visible_ext c'(1) callbacks_ok[OF t(3) t2] by blast
  ultimately have "c' = c" using visible_unique[OF st] by blast
  obtain q2 w where w: "(q2, w) \<in> set selection" "package_id_eq q2 (POccupancy (ri_name (pc_identity c)))"
    "pg_contains pg (pg_singleton pg (VCandidate cid)) w"
    using constraints_metD[OF deps c(4)] by blast
  have "w = VCandidate cid" using w(3) laws by (simp add: pubgrub_laws_def)
  moreover have "q2 = POccupancy (ri_name (pc_identity c))" using w(2) by (cases q2) auto
  ultimately have "\<exists>w. (POccupancy (ri_name (pc_identity c)), w) \<in> set selection \<and> w = VCandidate cid"
    using w(1) by blast
  moreover have "\<forall>e\<in>set (project_dependency_edges (pc_release c) expansion). selection_meets p selection st (re_package e)"
    using c(5) covered_selection_meets[OF _ s2 deps] by blast
  ultimately show ?thesis using v vis c(2,3) c'(2) \<open>c' = c\<close> by auto
qed

section \<open>One identity per installed name\<close>

lemma selection_functional:
  assumes "pubgrub_answer pg p selection st" "(q, v) \<in> set selection" "(q, w) \<in> set selection"
  shows "v = w"
proof -
  have sorted: "sorted_wrt (\<lambda>a b. \<not> package_id_eq (fst a) (fst b)) selection"
    using assms(1) by (simp add: pubgrub_answer_def)
  obtain i j where "i < length selection" "j < length selection" "selection ! i = (q, v)" "selection ! j = (q, w)"
    using assms(2,3) by (auto simp: in_set_conv_nth)
  moreover have "\<not> package_id_eq (fst (selection ! i)) (fst (selection ! j))"
    if "i < j" "j < length selection" for i j
    using sorted that by (rule sorted_wrt_nth_less)
  ultimately have "i = j" using package_eq.eq_refl by (metis fst_conv nat_neq_iff)
  then show ?thesis using \<open>selection ! i = (q, v)\<close> \<open>selection ! j = (q, w)\<close> by simp
qed

lemma same_name_same_candidate:
  assumes S: "solved pg p selection st"
    and a: "(PSubject k, VCandidate i) \<in> set selection" "k \<noteq> KeyR" "visible st k i c"
    and b: "(PSubject k', VCandidate j) \<in> set selection" "k' \<noteq> KeyR" "visible st k' j d"
    and name: "ri_name (pc_identity c) = ri_name (pc_identity d)"
  shows "candidate_same_facts c d"
proof -
  have st: "provider_ok p st" using S by (rule solved_state)
  have "(POccupancy (ri_name (pc_identity c)), VCandidate i) \<in> set selection"
    using solved_subject[OF S a(1,2)] visible_unique[OF st a(3)] by auto
  moreover have "(POccupancy (ri_name (pc_identity c)), VCandidate j) \<in> set selection"
    using solved_subject[OF S b(1,2)] visible_unique[OF st b(3)] name by auto
  ultimately have "i = j" using selection_functional S by (fastforce simp: solved_def)
  then obtain c0 where c0: "candidate_same_facts c0 c" "candidate_same_facts c0 d"
    using visible_facts(1)[OF st a(3)] visible_facts(1)[OF st b(3)] by (auto simp: interned_def)
  then show ?thesis
    unfolding candidate_same_facts_def
    by (metis deps_eq.eq_sym deps_eq.eq_trans id_eq.eq_sym id_eq.eq_trans vers_eq.eq_sym vers_eq.eq_trans)
qed

lemma compatible_same_facts:
  assumes "compatible m c" "candidate_same_facts c d" "candidate_ok d"
  shows "compatible m d"
  using assms id_eq.eq_trans vers_eq.eq_trans deps_eq.eq_trans
  unfolding compatible_def candidate_same_facts_def by (metis (no_types, lifting))

section \<open>Collecting the selected packages\<close>

definition picked ::
  "(package_id \<times> solver_version) list \<Rightarrow> provider_state \<Rightarrow> solver_key \<Rightarrow> nat \<Rightarrow> prepared_candidate \<Rightarrow> bool" where
  "picked selection st k cid c \<longleftrightarrow>
     (PSubject k, VCandidate cid) \<in> set selection \<and> k \<noteq> KeyR \<and> visible st k cid c \<and>
     \<not> is_r_base_package (pc_release c)"

definition entry_ok ::
  "(package_id \<times> solver_version) list \<Rightarrow> provider_state \<Rightarrow> package_name \<Rightarrow> selected_entry \<Rightarrow> bool" where
  "entry_ok selection st n entry \<longleftrightarrow>
     se_subject entry \<in> set (se_subjects entry) \<and>
     (\<forall>k\<in>set (se_subjects entry). \<exists>cid c. picked selection st k cid c \<and>
        ri_name (pc_identity c) = n \<and> compatible (se_candidate entry) c)"

definition collected ::
  "(package_id \<times> solver_version) list \<Rightarrow> provider_state \<Rightarrow> (package_id \<times> solver_version) list \<Rightarrow>
   (package_name \<times> selected_entry) list \<Rightarrow> bool" where
  "collected selection st processed packages \<longleftrightarrow>
     sorted_wrt (<) (map fst packages) \<and>
     (\<forall>n e. map_of packages n = Some e \<longrightarrow> entry_ok selection st n e) \<and>
     (\<forall>k cid c. (PSubject k, VCandidate cid) \<in> set processed \<longrightarrow> picked selection st k cid c \<longrightarrow>
        (\<exists>e. map_of packages (ri_name (pc_identity c)) = Some e \<and> k \<in> set (se_subjects e)))"

lemma compatible_name: "compatible a b \<Longrightarrow> ri_name (pc_identity a) = ri_name (pc_identity b)"
  by (simp add: compatible_def identity_eq_name)

lemma picked_compatible:
  assumes S: "solved pg p selection st" and "picked selection st k i c" "picked selection st k' j d"
    and "ri_name (pc_identity c) = ri_name (pc_identity d)" "compatible m c"
  shows "compatible m d"
  using assms(2-5) same_name_same_candidate[OF S, of k i c k' j d] compatible_same_facts[of m c d]
    solved_visible_ok[OF S, of k' j d]
  by (simp add: picked_def)

lemma compatible_refl:
  assumes "candidate_ok c" "release_wf (pc_release c)"
  shows "compatible c c"
  using assms same_facts_compatible candidate_same_facts_refl by blast

lemma collect_candidate_ok:
  assumes S: "solved pg p selection st" and C: "collected selection st processed packages"
    and c: "picked selection st k cid c"
  shows "\<exists>packages'. collect_candidate packages k c = Inr packages' \<and>
           collected selection st (processed @ [(PSubject k, VCandidate cid)]) packages'"
proof -
  let ?n = "ri_name (pc_identity c)"
  have vis: "visible st k cid c" using c by (simp add: picked_def)
  have sorted: "sorted_wrt (<) (map fst packages)" using C by (simp add: collected_def)
  have cc: "compatible c c" using compatible_refl solved_visible_ok[OF S vis] by blast
  have "\<exists>e'. collect_candidate packages k c = Inr (bt_insert packages ?n e') \<and> entry_ok selection st ?n e' \<and>
      k \<in> set (se_subjects e') \<and> (\<forall>e. map_of packages ?n = Some e \<longrightarrow> set (se_subjects e) \<subseteq> set (se_subjects e'))"
  proof (cases "map_of packages ?n")
    case None
    let ?e = "\<lparr>se_subject = k, se_candidate = c, se_subjects = [k]\<rparr>"
    have "collect_candidate packages k c = Inr (bt_insert packages ?n ?e)"
      using None by (simp add: collect_candidate_def)
    moreover have "entry_ok selection st ?n ?e" using c cc by (auto simp: entry_ok_def)
    ultimately show ?thesis using None by (intro exI[of _ ?e]) simp
  next
    case (Some e)
    then have eok: "entry_ok selection st ?n e" using C by (simp add: collected_def)
    have comp: "compatible (se_candidate e) c"
      using eok picked_compatible[OF S _ c] unfolding entry_ok_def by blast
    then obtain m where m: "candidate_merge (se_candidate e) c = Inr m" "compatible m c"
      using compatible_merge by blast
    let ?e = "\<lparr>se_subject = (if canonical_subject_cmp k (se_subject e) = Less then k else se_subject e),
               se_candidate = m, se_subjects = se_subjects e @ [k]\<rparr>"
    have "identity_eq (pc_identity (se_candidate e)) (pc_identity c)" using comp by (simp add: compatible_def)
    then have "collect_candidate packages k c = Inr (bt_insert packages ?n ?e)"
      using Some m(1) by (simp add: collect_candidate_def)
    moreover have "\<exists>i d. picked selection st k' i d \<and> ri_name (pc_identity d) = ?n \<and> compatible m d"
      if k': "k' \<in> set (se_subjects e @ [k])" for k'
    proof (cases "k' = k")
      case True
      then show ?thesis using c m(2) by blast
    next
      case False
      then obtain i d where "picked selection st k' i d" "ri_name (pc_identity d) = ?n"
        using eok k' unfolding entry_ok_def by auto
      then show ?thesis using picked_compatible[OF S c _ _ m(2)] by metis
    qed
    moreover from this have "entry_ok selection st ?n ?e" using eok by (simp add: entry_ok_def)
    ultimately show ?thesis using Some by (intro exI[of _ ?e]) auto
  qed
  then obtain e' where run: "collect_candidate packages k c = Inr (bt_insert packages ?n e')"
    and e': "entry_ok selection st ?n e'" "k \<in> set (se_subjects e')"
      "\<And>e. map_of packages ?n = Some e \<Longrightarrow> set (se_subjects e) \<subseteq> set (se_subjects e')"
    by blast
  have same: "d = c" if "picked selection st k cid d" for d
    using visible_unique[OF solved_state[OF S]] vis that by (auto simp: picked_def)
  have "collected selection st (processed @ [(PSubject k, VCandidate cid)]) (bt_insert packages ?n e')"
    unfolding collected_def
  proof (intro conjI allI impI)
    show "sorted_wrt (<) (map fst (bt_insert packages ?n e'))" by (rule sorted_bt_insert[OF sorted])
    show "entry_ok selection st n e" if "map_of (bt_insert packages ?n e') n = Some e" for n e
      using that C e'(1) by (auto simp: map_of_bt_insert[OF sorted] collected_def split: if_splits)
    show "\<exists>e. map_of (bt_insert packages ?n e') (ri_name (pc_identity d)) = Some e \<and> k' \<in> set (se_subjects e)"
      if sel: "(PSubject k', VCandidate i) \<in> set (processed @ [(PSubject k, VCandidate cid)])"
        and d: "picked selection st k' i d" for k' i d
    proof (cases "k' = k \<and> i = cid")
      case True
      then show ?thesis using same d e'(2) by (auto simp: map_of_bt_insert[OF sorted])
    next
      case False
      then have "(PSubject k', VCandidate i) \<in> set processed" using sel by auto
      then obtain e where "map_of packages (ri_name (pc_identity d)) = Some e" "k' \<in> set (se_subjects e)"
        using C d unfolding collected_def by blast
      then show ?thesis using e'(3) by (auto simp: map_of_bt_insert[OF sorted])
    qed
  qed
  then show ?thesis using run by blast
qed

lemma collect_selected_ok:
  assumes S: "solved pg p selection st" and C: "collected selection st processed packages"
    and x: "x \<in> set selection"
  shows "\<exists>packages'. collect_selected p packages x st = (Inr packages', st) \<and>
           collected selection st (processed @ [x]) packages'"
proof -
  have skip: "collected selection st (processed @ [x]) packages"
    if "\<And>k cid c. x = (PSubject k, VCandidate cid) \<Longrightarrow> \<not> picked selection st k cid c"
    using C that unfolding collected_def by auto
  show ?thesis
  proof (cases "\<exists>k cid. x = (PSubject k, VCandidate cid) \<and> k \<noteq> KeyR")
    case True
    then obtain k cid where k: "x = (PSubject k, VCandidate cid)" "k \<noteq> KeyR" by blast
    then obtain c where vis: "visible st k cid c" using solved_subject[OF S] x by blast
    note st = solved_state[OF S]
    have load: "candidate_for_id p k cid st = (Inr c, st)" using visible_candidate_for_id[OF st vis] .
    show ?thesis
    proof (cases "is_r_base_package (pc_release c)")
      case True
      then have "\<not> picked selection st k cid d" for d
        using visible_unique[OF st vis] by (auto simp: picked_def)
      then have "collected selection st (processed @ [x]) packages" using skip k(1) by blast
      then show ?thesis
        using k load True by (simp add: collect_selected_def bind_s_def map_err_s_def ret_s_def)
    next
      case False
      then have "picked selection st k cid c" using k x vis by (simp add: picked_def)
      then show ?thesis
        using collect_candidate_ok[OF S C] k load False
        by (auto simp: collect_selected_def bind_s_def map_err_s_def lift_s_def)
    qed
  next
    case False
    then have "collect_selected p packages x st = (Inr packages, st)"
      by (auto simp: collect_selected_def split: prod.split package_id.split solver_version.split)
    moreover have "\<not> picked selection st k cid c" if "x = (PSubject k, VCandidate cid)" for k cid c
      using False that by (simp add: picked_def)
    ultimately show ?thesis using skip by blast
  qed
qed

lemma collect_all_ok:
  assumes S: "solved pg p selection st"
  shows "set xs \<subseteq> set selection \<Longrightarrow> collected selection st processed packages \<Longrightarrow>
    \<exists>packages'. foldm_s (collect_selected p) packages xs st = (Inr packages', st) \<and>
      collected selection st (processed @ xs) packages'"
proof (induction xs arbitrary: processed packages)
  case (Cons x xs)
  obtain mid where mid: "collect_selected p packages x st = (Inr mid, st)"
    "collected selection st (processed @ [x]) mid"
    using collect_selected_ok[OF S Cons.prems(2), of x] Cons.prems(1) by auto
  then show ?case using Cons.IH[of "processed @ [x]" mid] Cons.prems(1) by (simp add: bind_s_def)
qed simp

section \<open>Projecting the packages\<close>

lemma expansion_for_subjects_ok:
  assumes "\<forall>k\<in>set ks. \<exists>x. expansion_for_subject p k = Inr x"
  shows "\<exists>x. expansion_for_subjects p ks = Inr x \<and>
           (ks \<noteq> [] \<longrightarrow> (\<exists>k\<in>set ks. expansion_for_subject p k = Inr x))"
  using assms
proof (induction ks)
  case (Cons k ks)
  obtain x where x: "expansion_for_subject p k = Inr x" using Cons.prems by auto
  obtain y where y: "expansion_for_subjects p ks = Inr y" "ks \<noteq> [] \<Longrightarrow> \<exists>k\<in>set ks. expansion_for_subject p k = Inr y"
    using Cons by auto
  show ?case
  proof (cases "x = DirectSuggests")
    case True
    then show ?thesis using x by auto
  next
    case False
    then have h: "x = HardOnly" by (cases x) auto
    show ?thesis
    proof (cases "ks = []")
      case True
      then show ?thesis using x h by auto
    next
      case False
      then show ?thesis using x y h by auto
    qed
  qed
qed simp

lemma set_sort_by_any [simp]: "set (sort_by cmp xs) = set xs"
  by (induction xs) (simp_all add: set_insort_by)

lemma visible_repositories_mem:
  assumes "k \<in> set ks" "oc \<in> set (applicable_occurrences c k)"
  shows "oc_repository oc \<in> set (visible_repositories c ks)"
proof -
  let ?xs = "sort_by cmp_of (map (\<lambda>oc. (oc_rank oc, oc_repository oc)) (concat (map (applicable_occurrences c) ks)))"
  have "(oc_rank oc, oc_repository oc) \<in> set ?xs" using assms by auto
  then have "\<exists>y\<in>set (dedup_by (\<lambda>l r. snd l = snd r) ?xs). snd (oc_rank oc, oc_repository oc) = snd y"
    by (rule dedup_by_represented[OF same_key.rust_eq_axioms])
  then obtain y where y: "y \<in> set (dedup_by (\<lambda>l r. snd l = snd r) ?xs)" "oc_repository oc = snd y" by auto
  then show ?thesis unfolding visible_repositories_def set_map using imageI[OF y(1), of snd] by metis
qed

lemma edges_agree:
  assumes "list_all2 dependency_eq (pk_declared_dependencies a) (pk_declared_dependencies b)"
    and "e \<in> set (project_dependency_edges a x)"
  shows "\<exists>e'\<in>set (project_dependency_edges b x). requirement_eq (re_package e') (re_package e)"
proof -
  obtain d where d: "d \<in> set (pk_declared_dependencies a)" "re_package e = dd_package d"
    "effective (dd_kind d) = Some (re_kind e) \<or>
     dd_kind d = Suggests \<and> x = DirectSuggests \<and> re_kind e = PromotedSuggests"
    using assms(2) unfolding project_edges_iff by blast
  obtain d' where d': "d' \<in> set (pk_declared_dependencies b)" "dependency_eq d d'"
    using assms(1) d(1) by (metis list_all2_conv_all_nth in_set_conv_nth)
  let ?e = "\<lparr>re_kind = re_kind e, re_package = dd_package d'\<rparr>"
  have "?e \<in> set (project_dependency_edges b x)"
    unfolding project_edges_iff using d d' by (auto simp: dependency_eq_def)
  moreover have "requirement_eq (re_package ?e) (re_package e)"
    using d(2) d'(2) req_eq.eq_sym by (simp add: dependency_eq_def)
  ultimately show ?thesis by blast
qed

lemma compatible_serves:
  assumes "compatible m c" "is_eligible_for c (KeyRepository r n)"
  shows "\<exists>oc\<in>set (applicable_occurrences m (KeyRepository r n)). oc_repository oc = r"
proof -
  obtain oc where oc: "oc \<in> set (pc_occurrences c)" "serves (pc_identity c) (KeyRepository r n) oc"
    using assms(2) by (auto simp: is_eligible_iff)
  have "oc_facts oc \<in> oc_facts ` set (pc_occurrences m)" using assms(1) oc(1) by (simp add: compatible_def)
  then obtain oc' where oc': "oc' \<in> set (pc_occurrences m)" "oc_facts oc = oc_facts oc'" by blast
  have "identity_eq (pc_identity c) (pc_identity m)" using assms(1) id_eq.eq_sym by (simp add: compatible_def)
  then have "serves (pc_identity m) (KeyRepository r n) oc'" using serves_cong oc(2) oc'(2) by blast
  then show ?thesis using oc'(1) by (auto simp: applicable_occurrences_serves serves_def)
qed

lemma project_entry:
  assumes S: "solved pg p selection st" and e: "entry_ok selection st n e"
  shows "\<exists>pkg k cid c x. project_package p e = Inr pkg \<and>
           rp_subject pkg = se_subject e \<and> rp_release pkg = pc_release (se_candidate e) \<and>
           rp_visible_repository_ids pkg = visible_repositories (se_candidate e) (se_subjects e) \<and>
           rp_effective_dependencies pkg = project_dependency_edges (pc_release (se_candidate e)) x \<and>
           k \<in> set (se_subjects e) \<and> expansion_for_subject p k = Inr x \<and>
           picked selection st k cid c \<and> compatible (se_candidate e) c"
proof -
  have all: "\<exists>cid c x. picked selection st k cid c \<and> compatible (se_candidate e) c \<and> expansion_for_subject p k = Inr x"
    if "k \<in> set (se_subjects e)" for k
  proof -
    obtain cid c where "picked selection st k cid c" "compatible (se_candidate e) c"
      using e \<open>k \<in> set (se_subjects e)\<close> unfolding entry_ok_def by blast
    moreover from this obtain x where "expansion_for_subject p k = Inr x"
      using solved_subject[OF S] unfolding picked_def by blast
    ultimately show ?thesis by blast
  qed
  have "se_subjects e \<noteq> []" using e by (auto simp: entry_ok_def)
  then obtain x k where x: "expansion_for_subjects p (se_subjects e) = Inr x" "k \<in> set (se_subjects e)"
    "expansion_for_subject p k = Inr x"
    using expansion_for_subjects_ok[of "se_subjects e" p] all by blast
  obtain cid c where "picked selection st k cid c" "compatible (se_candidate e) c" using all[OF x(2)] by blast
  then show ?thesis using x by (simp add: project_package_def) blast
qed

section \<open>The resolution\<close>

lemma compatible_base:
  "compatible m c \<Longrightarrow> is_r_base_package (pc_release m) = is_r_base_package (pc_release c)"
  by (auto simp: compatible_def is_r_base_package_def pc_identity_def identity_eq_def dest: provenance_eq_base)

lemma sort_names_id:
  "sorted_wrt (<) (map rp_name xs) \<Longrightarrow> sort_by (\<lambda>l r. cmp_of (rp_name l) (rp_name r)) xs = xs"
  by (rule total_cmp.sort_by_id[OF total_cmp_field])
    (auto simp: sorted_wrt_map cmp_of_def elim!: sorted_wrt_mono_rel[rotated])

lemma list_all2_exists: "(\<And>x. x \<in> set xs \<Longrightarrow> \<exists>y. P x y) \<Longrightarrow> \<exists>ys. list_all2 P xs ys"
proof (induction xs)
  case (Cons x xs)
  obtain ys where "list_all2 P xs ys" using Cons by force
  moreover obtain y where "P x y" using Cons.prems by force
  ultimately have "list_all2 P (x # xs) (y # ys)" by simp
  then show ?case by blast
qed auto

text \<open>The packages of the resolution are the projections of the collected entries, in name order.\<close>

lemma finish_packages:
  assumes S: "solved pg p selection st"
  shows "\<exists>packages res. finish p selection st = (Inr res, st) \<and> collected selection st selection packages \<and>
           rs_target res = rq_target (pv_request p) \<and>
           list_all2 (\<lambda>e pkg. project_package p (snd e) = Inr pkg) packages (rs_packages res) \<and>
           map rp_name (rs_packages res) = map fst packages"
proof -
  obtain packages where run: "foldm_s (collect_selected p) [] selection st = (Inr packages, st)"
    and C: "collected selection st selection packages"
    using collect_all_ok[OF S, of selection "[]" "[]"] by (auto simp: collected_def)
  have sorted: "sorted_wrt (<) (map fst packages)" using C by (simp add: collected_def)
  have entry: "entry_ok selection st (fst e) (snd e)" if "e \<in> set packages" for e
    using C that sorted by (auto simp: collected_def strict_sorted_iff)
  have "\<exists>pkg. project_package p (snd e) = Inr pkg" if "e \<in> set packages" for e
    using project_entry[OF S entry[OF that]] by blast
  then obtain pkgs where pkgs: "list_all2 (\<lambda>e pkg. project_package p (snd e) = Inr pkg) packages pkgs"
    using list_all2_exists[of packages "\<lambda>e pkg. project_package p (snd e) = Inr pkg"] by blast
  have facts: "rp_name pkg = fst e \<and> \<not> is_r_base_package (rp_release pkg)"
    if e: "e \<in> set packages" and pkg: "project_package p (snd e) = Inr pkg" for e pkg
  proof -
    obtain k cid c where k: "rp_release pkg = pc_release (se_candidate (snd e))" "k \<in> set (se_subjects (snd e))"
      "picked selection st k cid c" "compatible (se_candidate (snd e)) c"
      using project_entry[OF S entry[OF e]] pkg by auto
    obtain cid' c' where c': "picked selection st k cid' c'" "ri_name (pc_identity c') = fst e"
      "compatible (se_candidate (snd e)) c'"
      using entry[OF e] k(2) unfolding entry_ok_def by blast
    have "rp_name pkg = fst e"
      using k(1) c'(2) compatible_name[OF c'(3)] by (simp add: rp_name_def pc_identity_def)
    moreover have "\<not> is_r_base_package (rp_release pkg)"
      using k(1,3) compatible_base[OF k(4)] by (simp add: picked_def)
    ultimately show ?thesis by blast
  qed
  have names: "map rp_name pkgs = map fst packages"
  proof (rule nth_equalityI)
    show "length (map rp_name pkgs) = length (map fst packages)" using list_all2_lengthD[OF pkgs] by simp
    fix j assume "j < length (map rp_name pkgs)"
    then show "map rp_name pkgs ! j = map fst packages ! j"
      using list_all2_nthD2[OF pkgs, of j] list_all2_lengthD[OF pkgs] facts[of "packages ! j" "pkgs ! j"] by simp
  qed
  have base: "filter (\<lambda>x. \<not> is_r_base_package (rp_release x)) pkgs = pkgs"
  proof (rule filter_True, rule ballI)
    fix x assume "x \<in> set pkgs"
    then obtain j where "j < length packages" "x = pkgs ! j" "project_package p (snd (packages ! j)) = Inr x"
      using pkgs by (auto simp: list_all2_conv_all_nth in_set_conv_nth)
    then show "\<not> is_r_base_package (rp_release x)" using facts[of "packages ! j" x] by simp
  qed
  have tm: "try_map (project_package p) (map snd packages) = Inr pkgs"
    using pkgs by (simp add: try_map_Inr_iff list_all2_map1)
  have srt: "sort_by (\<lambda>l r. cmp_of (rp_name l) (rp_name r)) pkgs = pkgs"
    using sorted names by (intro sort_names_id) simp
  have "finish p selection st = (Inr \<lparr>rs_target = rq_target (pv_request p), rs_packages = pkgs\<rparr>, st)"
    using run tm srt base by (simp add: finish_def bind_s_def lift_s_def ret_s_def resolution_new_def)
  then show ?thesis using C pkgs names by auto
qed

lemma selection_meets_meets:
  assumes S: "solved pg p selection st" and C: "collected selection st selection packages"
    and pkgs: "list_all2 (\<lambda>e pkg. project_package p (snd e) = Inr pkg) packages (rs_packages res)"
    and sm: "selection_meets p selection st q"
  shows "meets p res q"
proof -
  obtain k where k: "subject_for_package p q = Inr k" using sm unfolding selection_meets_def by blast
  show ?thesis
  proof (cases "k = KeyR")
    case True
    then show ?thesis using sm k by (simp add: selection_meets_def meets_def)
  next
    case False
    then obtain k2 cid x where sel: "(PSubject k2, VCandidate cid) \<in> set selection" "solver_key_eq k2 k"
      and vis: "visible st k2 cid x" and sat: "satisfies (pr_constraint q) (pk_version (pc_release x))"
      using sm k unfolding selection_meets_def by auto
    have k2: "k2 \<noteq> KeyR" using False sel(2) by auto
    note st = solved_state[OF S]
    have el: "is_eligible_for x k2" using visible_facts(2)[OF st vis] .
    show ?thesis
    proof (cases "is_r_base_package (pc_release x)")
      case True
      obtain k0 r y where y: "solver_key_eq k0 k2" "pv_loader p k0 = Inr r" "y \<in> set (lr_candidates r)"
        "agrees (pc_release x) (pc_release y)"
        using visible_facts(3)[OF st vis] by (fastforce simp: unites_def)
      have "is_r_base_package (pc_release y)" "satisfies (pr_constraint q) (pk_version (pc_release y))"
        using True y(4) sat satisfies_cong[of "pk_version (pc_release x)" "pk_version (pc_release y)"]
          provenance_eq_base[of "ri_provenance (pk_identity (pc_release x))" "ri_provenance (pk_identity (pc_release y))"]
        by (simp_all add: agrees_def is_r_base_package_def identity_eq_def)
      moreover have "solver_key_eq k0 k" using y(1) sel(2) key_eq.eq_trans by blast
      ultimately show ?thesis unfolding meets_def using k False y(2,3) by auto
    next
      case nb: False
      then have pick: "picked selection st k2 cid x" using sel(1) k2 vis by (simp add: picked_def)
      then obtain e where e: "map_of packages (ri_name (pc_identity x)) = Some e" "k2 \<in> set (se_subjects e)"
        using C sel(1) unfolding collected_def by blast
      have entry: "entry_ok selection st (ri_name (pc_identity x)) e" using C e(1) by (simp add: collected_def)
      have "compatible (se_candidate e) x"
        using entry e(2) picked_compatible[OF S _ pick] unfolding entry_ok_def by metis
      note comp = this this[unfolded compatible_def]
      obtain i where i: "i < length packages" "packages ! i = (ri_name (pc_identity x), e)"
        using map_of_SomeD[OF e(1)] by (auto simp: in_set_conv_nth)
      let ?pkg = "rs_packages res ! i"
      have pkg: "?pkg \<in> set (rs_packages res)" "project_package p e = Inr ?pkg"
        using pkgs i by (auto simp: list_all2_conv_all_nth)
      have rel: "rp_release ?pkg = pc_release (se_candidate e)"
        "rp_visible_repository_ids ?pkg = visible_repositories (se_candidate e) (se_subjects e)"
        using project_entry[OF S entry] pkg(2) by auto
      have "matches_subject k (pk_identity (rp_release ?pkg))"
        using eligible_matches[OF el] matches_subject_cong[OF sel(2)]
          matches_identity_cong[of "pc_identity (se_candidate e)" "pc_identity x" k2] comp(2)
        by (simp add: rel pc_identity_def)
      moreover have "satisfies (pr_constraint q) (pk_version (rp_release ?pkg))"
        using sat satisfies_cong[of "pk_version (pc_release (se_candidate e))" "pk_version (pc_release x)"] comp(2)
        by (simp add: rel)
      moreover have "r \<in> set (rp_visible_repository_ids ?pkg)" if "k = KeyRepository r n" for r n
      proof -
        have "k2 = KeyRepository r n" using that sel(2) by (cases k2) auto
        then obtain oc where "oc \<in> set (applicable_occurrences (se_candidate e) k2)" "oc_repository oc = r"
          using compatible_serves[OF comp(1)] el by metis
        then show ?thesis using visible_repositories_mem[OF e(2)] rel(2) by metis
      qed
      ultimately show ?thesis unfolding meets_def using k False pkg(1) by auto
    qed
  qed
qed

lemma project_hard_subset:
  "set (project_dependency_edges release HardOnly) \<subseteq> set (project_dependency_edges release x)"
  by (auto simp: project_edges_iff)

lemma finish_package_ok:
  assumes S: "solved pg p selection st" and C: "collected selection st selection packages"
    and pkgs: "list_all2 (\<lambda>e pkg. project_package p (snd e) = Inr pkg) packages (rs_packages res)"
    and pkg: "pkg \<in> set (rs_packages res)"
  shows "\<not> is_r_base_package (rp_release pkg)"
    and "e \<in> set (rp_effective_dependencies pkg) \<Longrightarrow> meets p res (re_package e)"
    and "set (project_dependency_edges (rp_release pkg) HardOnly) \<subseteq> set (rp_effective_dependencies pkg)"
    and "\<exists>cid c. picked selection st (rp_subject pkg) cid c \<and>
           identity_eq (pk_identity (rp_release pkg)) (pc_identity c) \<and>
           pk_publication (rp_release pkg) = pk_publication (pc_release c)"
proof -
  obtain i where i: "i < length packages" "pkg = rs_packages res ! i" "project_package p (snd (packages ! i)) = Inr pkg"
    using pkgs pkg by (auto simp: list_all2_conv_all_nth in_set_conv_nth)
  let ?e = "snd (packages ! i)"
  have "map_of packages (fst (packages ! i)) = Some ?e"
    using C i(1) by (auto simp: collected_def strict_sorted_iff)
  then have entry: "entry_ok selection st (fst (packages ! i)) ?e" using C by (simp add: collected_def)
  obtain k cid c x where rel: "rp_subject pkg = se_subject ?e" "rp_release pkg = pc_release (se_candidate ?e)"
    "rp_effective_dependencies pkg = project_dependency_edges (pc_release (se_candidate ?e)) x"
    and x: "expansion_for_subject p k = Inr x"
    and pick: "picked selection st k cid c" and comp: "compatible (se_candidate ?e) c"
    using project_entry[OF S entry] i(3) by auto
  show "\<not> is_r_base_package (rp_release pkg)"
    using pick compatible_base[OF comp] rel(2) by (simp add: picked_def)
  show "set (project_dependency_edges (rp_release pkg) HardOnly) \<subseteq> set (rp_effective_dependencies pkg)"
    using project_hard_subset by (simp add: rel)
  have deps: "list_all2 dependency_eq (pk_declared_dependencies (pc_release (se_candidate ?e)))
      (pk_declared_dependencies (pc_release c))"
    using comp unfolding compatible_def by blast
  show "meets p res (re_package e)" if mem: "e \<in> set (rp_effective_dependencies pkg)"
  proof -
    obtain e' where e': "e' \<in> set (project_dependency_edges (pc_release c) x)"
      "requirement_eq (re_package e') (re_package e)"
      using edges_agree[OF deps mem[unfolded rel(3)]] by blast
    have "selection_meets p selection st (re_package e')"
      using solved_subject[OF S, of k "VCandidate cid"] pick x e'(1)
        visible_unique[OF solved_state[OF S], of k cid] by (auto simp: picked_def)
    then show ?thesis using selection_meets_meets[OF S C pkgs] meets_cong[OF e'(2)] by blast
  qed
  obtain cid' c' where "picked selection st (se_subject ?e) cid' c'" "compatible (se_candidate ?e) c'"
    using entry unfolding entry_ok_def by blast
  then show "\<exists>cid c. picked selection st (rp_subject pkg) cid c \<and>
           identity_eq (pk_identity (rp_release pkg)) (pc_identity c) \<and>
           pk_publication (rp_release pkg) = pk_publication (pc_release c)"
    by (auto simp: rel compatible_def pc_identity_def)
qed

lemma is_locked_cong: "identity_eq i j \<Longrightarrow> is_locked_to l i = is_locked_to l j"
  using id_eq.eq_cong_right by (auto simp: is_locked_to_def split: option.splits)

lemma finish_sound:
  assumes S: "solved pg p selection st"
  shows "\<exists>res. finish p selection st = (Inr res, st) \<and> resolution_ok p res"
proof -
  obtain packages res where run: "finish p selection st = (Inr res, st)"
    and C: "collected selection st selection packages"
    and target: "rs_target res = rq_target (pv_request p)"
    and pkgs: "list_all2 (\<lambda>e pkg. project_package p (snd e) = Inr pkg) packages (rs_packages res)"
    and names: "map rp_name (rs_packages res) = map fst packages"
    using finish_packages[OF S] by blast
  have "resolution_ok p res"
    unfolding resolution_ok_def
  proof (intro conjI ballI)
    show "rs_target res = rq_target (pv_request p)" by (rule target)
    show "satisfies (rq_r_requirement (pv_request p)) (pv_r_version p)" by (rule solved_roots(1)[OF S])
    show "sorted_wrt (<) (map rp_name (rs_packages res))" using C by (simp add: names collected_def)
    show "meets p res (rr_package q)" if "q \<in> set (rq_roots (pv_request p))" for q
      using selection_meets_meets[OF S C pkgs] solved_roots(2)[OF S that] by blast
  next
    fix pkg assume pkg: "pkg \<in> set (rs_packages res)"
    note F = finish_package_ok[OF S C pkgs pkg]
    show "\<not> is_r_base_package (rp_release pkg)" by (rule F(1))
    show "meets p res (re_package e)" if "e \<in> set (rp_effective_dependencies pkg)" for e by (rule F(2)[OF that])
    show "set (project_dependency_edges (rp_release pkg) HardOnly) \<subseteq> set (rp_effective_dependencies pkg)" by (rule F(3))
    obtain cid c where pick: "picked selection st (rp_subject pkg) cid c"
      and id: "identity_eq (pk_identity (rp_release pkg)) (pc_identity c)"
      and pub: "pk_publication (rp_release pkg) = pk_publication (pc_release c)"
      using F(4) by blast
    have c: "publication_ok p (rp_subject pkg) c" "\<not> excluded_by_lock p (rp_subject pkg) c"
      using solved_subject[OF S, of "rp_subject pkg" "VCandidate cid"] pick
        visible_unique[OF solved_state[OF S], of "rp_subject pkg" cid] by (auto simp: picked_def)
    have "identity_eq (pk_identity (rp_release pkg)) i" if "pv_lock_decision p (rp_subject pkg) = Require i" for i
      using c(2) that id id_eq.eq_trans unfolding excluded_by_lock_def by blast
    then show "\<forall>i. pv_lock_decision p (rp_subject pkg) = Require i \<longrightarrow> identity_eq (pk_identity (rp_release pkg)) i"
      by blast
    show "\<forall>cutoff. rq_publication_cutoff (pv_request p) = Some cutoff \<longrightarrow>
        is_locked_to (locked_identity (pv_lock_decision p (rp_subject pkg))) (pk_identity (rp_release pkg)) \<or>
        (\<exists>d. pk_publication (rp_release pkg) = Some d \<and> rp_date d \<le> cutoff)"
      using c(1) pick pub is_locked_cong[OF id] by (auto simp: publication_ok_def picked_def)
  qed
  then show ?thesis using run by blast
qed

end
