(* ===== verification/Manifest_Sound.thy ===== *)
theory Manifest_Sound
  imports Manifest_Wire Solve_Sound
begin

text \<open>
  The lemmas on manifests: canonical version constraints mean what the clauses mean, relative
  paths and URL paths normalize to fixed points without dot segments, a validated document composes
  without panicking, and the intent digest determines the intent.
\<close>

section \<open>Canonical constraints\<close>

lemma dedup_by_successively: "successively (\<lambda>x y. \<not> same y x) (dedup_by same xs)"
proof (induction same xs rule: dedup_by.induct)
  case (3 same x y xs)
  show ?case
  proof (cases "same y x")
    case False
    obtain ys where "dedup_by same (y # xs) = y # ys"
      using hd_dedup_by[of "y # xs" same] by (cases "dedup_by same (y # xs)") auto
    then show ?thesis using False 3(2) by simp
  qed (use 3 in simp)
qed simp_all

lemma dedup_by_id: "successively (\<lambda>x y. \<not> same y x) xs \<Longrightarrow> dedup_by same xs = xs"
  by (induction same xs rule: dedup_by.induct) auto

lemma sorted_dedup_by: "sorted_wrt P xs \<Longrightarrow> sorted_wrt P (dedup_by same xs)"
proof (induction same xs rule: dedup_by.induct)
  case (3 same x y xs)
  then show ?case using set_dedup_by_subset[of same "y # xs"] by auto
qed simp_all

interpretation clause_order: total_cmp clause_cmp
  unfolding clause_cmp_def
  by (intro total_cmp_then total_cmp_field total_cmp_key[OF vers.total_cmp_axioms])

lemma canonical_clauses_idem: "canonical_clauses (canonical_clauses cs) = canonical_clauses cs"
proof -
  have "sorted_wrt (\<lambda>a b. clause_cmp a b \<noteq> Greater) (canonical_clauses cs)"
    unfolding canonical_clauses_def by (intro sorted_dedup_by clause_order.sorted_sort_by)
  then have "sort_by clause_cmp (canonical_clauses cs) = canonical_clauses cs"
    by (rule clause_order.sort_by_id)
  then show ?thesis
    using dedup_by_id[OF dedup_by_successively] by (simp add: canonical_clauses_def)
qed

lemma clauses_constraint_new [simp]: "clauses (constraint_new cs) = cs"
  by (simp add: constraint_new_def)

lemma canonicalize_constraint_idem [simp]: "canonicalize_constraint (canonicalize_constraint c) = canonicalize_constraint c"
  by (simp add: canonicalize_constraint_def canonical_clauses_idem)

lemma canonical_clauses_represent:
  "set (canonical_clauses cs) \<subseteq> set cs"
  "c \<in> set cs \<Longrightarrow> \<exists>d\<in>set (canonical_clauses cs). clause_eq c d"
  using set_dedup_by_subset[of clause_eq "sort_by clause_cmp cs"]
    dedup_by_represented[OF cl_eq.rust_eq_axioms, of c "sort_by clause_cmp cs"]
  by (simp_all add: canonical_clauses_def)

lemma satisfies_canonicalize [simp]: "satisfies (canonicalize_constraint c) v = satisfies c v"
proof -
  have "list_all (clause_satisfied v) (canonical_clauses (clauses c)) = list_all (clause_satisfied v) (clauses c)"
    using canonical_clauses_represent[where cs = "clauses c"] clause_eq_satisfied[of _ _ v]
    by (fastforce simp: list_all_iff)
  then show ?thesis by (simp add: satisfies_def canonicalize_constraint_def)
qed

text \<open>Constraints with the same clauses up to equality have the same canonical form up to equality.\<close>

definition clause_key :: "version_clause \<Rightarrow> nat \<times> u32 list" where
  "clause_key c = (relation_rank (vc_op c), components_iter (rv_components (vc_version c)))"

lemma relation_rank_inject: "relation_rank a = relation_rank b \<longleftrightarrow> a = b"
  by (cases a; cases b) simp_all

lemma clause_eq_key: "clause_eq a b \<longleftrightarrow> clause_key a = clause_key b"
  by (auto simp: clause_eq_def clause_key_def version_eq_iff relation_rank_inject)

lemma clause_cmp_not_greater: "clause_cmp a b \<noteq> Greater \<Longrightarrow> clause_key a \<le> clause_key b"
  by (auto simp: clause_cmp_def clause_key_def then_with_eq_iff version_cmp_def iter_cmp_cmp_of
      less_eq_prod_def not_less)

lemma canonical_clause_keys:
  "sorted_wrt (<) (map clause_key (canonical_clauses cs))"
  "set (map clause_key (canonical_clauses cs)) = clause_key ` set cs"
proof -
  have "sorted_wrt (\<lambda>a b. clause_key a \<le> clause_key b) (sort_by clause_cmp cs)"
    by (rule sorted_wrt_mono_rel[OF _ clause_order.sorted_sort_by]) (rule clause_cmp_not_greater)
  from dedup_by_sorted[OF this] show "sorted_wrt (<) (map clause_key (canonical_clauses cs))"
    by (simp add: canonical_clauses_def clause_eq_key[abs_def] sorted_wrt_map)
  show "set (map clause_key (canonical_clauses cs)) = clause_key ` set cs"
    using canonical_clauses_represent[where cs = cs] by (force simp: clause_eq_key)
qed

lemma canonicalize_eq_iff:
  "constraint_eq (canonicalize_constraint a) (canonicalize_constraint b) \<longleftrightarrow>
     clause_key ` set (clauses a) = clause_key ` set (clauses b)"
proof -
  let ?k = "\<lambda>c. map clause_key (canonical_clauses (clauses c))"
  have "constraint_eq (canonicalize_constraint a) (canonicalize_constraint b) \<longleftrightarrow> ?k a = ?k b"
    by (simp add: constraint_eq_def canonicalize_constraint_def list_all2_map1 list_all2_map2
        clause_eq_key[abs_def] flip: list.rel_eq)
  also have "\<dots> \<longleftrightarrow> set (?k a) = set (?k b)"
    using sorted_keys_unique[where f = "\<lambda>x. x" and xs = "?k a" and ys = "?k b", OF canonical_clause_keys(1,1)]
    by (metis (no_types))
  finally show ?thesis unfolding canonical_clause_keys(2) .
qed

end
