(* ===== verification/Lock_Sound.thy ===== *)
theory Lock_Sound
  imports Lock Manifest_Sound
begin

text \<open>
  The lemmas on locks: identities are compared by a key, so \<^verbatim>\<open>cmp_identity\<close> is a total order that
  agrees with equality; normalization yields the canonical form; marking the dependency graph
  terminates and marks exactly the packages that are reachable.
\<close>

section \<open>The order of identities\<close>

lemma cmp_of_pair: "cmp_of (a, b) (c, d) = then_with (cmp_of a c) (cmp_of b d)"
  by (auto simp: cmp_of_def then_with_def less_prod_def)

lemma then_with_assoc: "then_with (then_with a b) c = then_with a (then_with b c)"
  by (cases a) simp_all

lemma then_with_Equal [simp]: "then_with a Equal = a"
  by (cases a) simp_all

lemma then_with_neq: "a \<noteq> b \<Longrightarrow> then_with (cmp_of a b) c = cmp_of a b"
  by (simp add: cmp_of_def)

lemma option_cmp_key: "option_cmp a b = cmp_of (case a of None \<Rightarrow> [] | Some x \<Rightarrow> [x]) (case b of None \<Rightarrow> [] | Some x \<Rightarrow> [x])"
  by (cases a; cases b) (auto simp: cmp_of_def)

lemma version_cmp_key: "version_cmp v w = cmp_of (components_iter (rv_components v)) (components_iter (rv_components w))"
  by (simp add: version_cmp_def iter_cmp_cmp_of)

type_synonym provenance_key = "nat \<times> string \<times> nat \<times> string \<times> string list \<times> u32 list"

fun provenance_key :: "provenance \<Rightarrow> provenance_key" where
  "provenance_key (RBasePackage v) = (0, [], 0, [], [], components_iter (rv_components v))"
| "provenance_key (RegistryRelease n v) = (1, n, 0, [], [], components_iter (rv_components v))"
| "provenance_key (GitCommit r c s) =
     (2, r, algorithm_rank (gc_algorithm c), gc_hex c, (case s of None \<Rightarrow> [] | Some x \<Rightarrow> [x]), [])"
| "provenance_key (BioconductorRelease n r v) = (3, n, 0, r, [], components_iter (rv_components v))"
| "provenance_key (ImmutableSource s d) = (4, s, 0, d, [], [])"

definition identity_order_key :: "release_identity \<Rightarrow> string \<times> provenance_key" where
  "identity_order_key i = (ri_name i, provenance_key (ri_provenance i))"

definition package_key :: "locked_package \<Rightarrow> string \<times> provenance_key" where
  "package_key p = identity_order_key (lp_identity p)"

lemma cmp_provenance_key: "cmp_provenance p q = cmp_of (provenance_key p) (provenance_key q)"
  by (cases p; cases q)
    (simp_all add: cmp_provenance_def cmp_of_pair then_with_assoc version_cmp_key commit_cmp_def
      cmp_optional_subdirectory_def option_cmp_key lin.cmp_refl then_with_neq)

lemma cmp_identity_key: "cmp_identity i j = cmp_of (identity_order_key i) (identity_order_key j)"
  by (simp add: cmp_identity_def identity_order_key_def cmp_of_pair cmp_provenance_key)

lemma package_cmp_key: "package_cmp = (\<lambda>l r. cmp_of (package_key l) (package_key r))"
  by (simp add: fun_eq_iff package_cmp_def package_key_def cmp_identity_key)

interpretation identity_order: total_cmp cmp_identity
  unfolding cmp_identity_key by (rule total_cmp_field)

lemma algorithm_rank_inject [simp]: "algorithm_rank a = algorithm_rank b \<longleftrightarrow> a = b"
  by (cases a; cases b) simp_all

lemma commit_eq_fields: "(c :: git_commit_id) = d \<longleftrightarrow> gc_algorithm c = gc_algorithm d \<and> gc_hex c = gc_hex d"
  by (cases c; cases d) simp

lemma provenance_key_eq_iff: "provenance_key p = provenance_key q \<longleftrightarrow> provenance_eq p q"
  by (cases p; cases q) (auto simp: version_eq_iff commit_eq_fields split: option.splits)

lemma identity_order_key_eq_iff: "identity_order_key i = identity_order_key j \<longleftrightarrow> identity_eq i j"
  by (simp add: identity_order_key_def identity_eq_def provenance_key_eq_iff)

lemma cmp_identity_Equal_iff: "cmp_identity i j = Equal \<longleftrightarrow> identity_eq i j"
  by (simp add: cmp_identity_key identity_order_key_eq_iff)

section \<open>The order of dependency edges\<close>

definition edge_key :: "locked_dependency_edge \<Rightarrow> string \<times> nat" where
  "edge_key e = (ld_package e, dependency_kind_rank (ld_kind e))"

lemma dependency_edge_cmp_key: "dependency_edge_cmp = (\<lambda>l r. cmp_of (edge_key l) (edge_key r))"
  by (simp add: fun_eq_iff dependency_edge_cmp_def edge_key_def cmp_of_pair)

lemma edge_key_inject: "edge_key a = edge_key b \<longleftrightarrow> a = b"
proof -
  have "dependency_kind_rank k = dependency_kind_rank l \<longleftrightarrow> k = l" for k l by (cases k; cases l) simp_all
  then show ?thesis by (cases a; cases b) (auto simp: edge_key_def)
qed

lemma canonical_edges_by_key: "canonicalize_dependency_edges es = canonical_by edge_key es"
  by (simp add: canonicalize_dependency_edges_def canonical_by_def dependency_edge_cmp_key edge_key_inject)

definition edges_canonical :: "locked_dependency_edge list \<Rightarrow> bool" where
  "edges_canonical es = sorted_wrt (\<lambda>a b. edge_key a < edge_key b) es"

lemma canonical_edges:
  "edges_canonical (canonicalize_dependency_edges es)" "set (canonicalize_dependency_edges es) = set es"
  "edges_canonical es \<Longrightarrow> canonicalize_dependency_edges es = es"
  unfolding edges_canonical_def canonical_edges_by_key
  by (rule canonical_by_sorted, rule set_canonical_by, simp add: inj_on_def edge_key_inject, rule canonical_by_id)

lemma windows2_successively: "(\<forall>(a, b)\<in>set (windows2 xs). P a b) \<longleftrightarrow> successively P xs"
  by (induction xs rule: windows2.induct) auto

lemma sorted_wrt_successively:
  assumes "\<And>x y z. P x y \<Longrightarrow> P y z \<Longrightarrow> P x z"
  shows "successively P xs \<longleftrightarrow> sorted_wrt P xs"
  by (rule successively_conv_sorted_wrt) (use assms in \<open>auto simp: transp_def\<close>)

lemma edges_canonical_windows:
  "edges_canonical es \<longleftrightarrow> \<not> list_ex (\<lambda>(a, b). dependency_edge_cmp a b \<noteq> Less) (windows2 es)"
proof -
  have "edges_canonical es \<longleftrightarrow> successively (\<lambda>a b. edge_key a < edge_key b) es"
    unfolding edges_canonical_def by (rule sorted_wrt_successively[symmetric]) simp
  then show ?thesis
    by (auto simp: list_ex_iff dependency_edge_cmp_key simp flip: windows2_successively)
qed

section \<open>Dropping repetitions\<close>

lemma git_source_eq_refl: "git_source_eq a a"
  by (simp add: git_source_eq_def vcon_eq.eq_refl)

lemma locked_package_eq_refl: "locked_package_eq p p"
  by (simp add: locked_package_eq_def id_eq.eq_refl vers_eq.eq_refl git_source_eq_refl option.rel_refl)

lemma dedup_packages_step:
  "dedup_packages (u # us) ps = Inr qs \<Longrightarrow>
     qs = rev us @ dedup_by (\<lambda>l r. package_key l = package_key r) (u # ps)"
proof (induction ps arbitrary: u us)
  case (Cons p ps)
  show ?case
  proof (cases "identity_eq (lp_identity u) (lp_identity p)")
    case True
    then have "package_key p = package_key u"
      by (simp add: package_key_def identity_order_key_eq_iff id_eq.eq_commute)
    then show ?thesis using True Cons by (auto split: if_splits)
  next
    case False
    then have "package_key p \<noteq> package_key u"
      by (simp add: package_key_def identity_order_key_eq_iff id_eq.eq_commute)
    then show ?thesis using False Cons.prems Cons.IH[of p "u # us"] by simp
  qed
qed simp

text \<open>What the loop leaves is the canonical list of the packages by their identities.\<close>

lemma dedup_packages_canonical:
  assumes "dedup_packages [] (sort_by package_cmp ps) = Inr qs"
  shows "qs = canonical_by package_key ps"
  using assms dedup_packages_step[where us = "[]"]
  by (cases "sort_by package_cmp ps") (auto simp: canonical_by_def package_cmp_key)

lemma dedup_packages_sorted:
  "sorted_wrt (\<lambda>a b. package_key a < package_key b) (rev us @ ps) \<Longrightarrow> dedup_packages us ps = Inr (rev us @ ps)"
proof (induction ps arbitrary: us)
  case (Cons p ps)
  have "dedup_packages us (p # ps) = dedup_packages (p # us) ps"
  proof (cases us)
    case (Cons u vs)
    have "package_key u < package_key p" using Cons.prems Cons by (simp add: sorted_wrt_append)
    then have "\<not> identity_eq (lp_identity u) (lp_identity p)"
      by (auto simp: package_key_def simp flip: identity_order_key_eq_iff)
    then show ?thesis using Cons by simp
  qed simp
  then show ?case using Cons.IH[of "p # us"] Cons.prems by simp
qed simp

lemma sort_packages_sorted:
  "sorted_wrt (\<lambda>a b. package_key a < package_key b) ps \<Longrightarrow> sort_by package_cmp ps = ps"
  unfolding package_cmp_key
  by (rule total_cmp.sort_by_id[OF total_cmp_field]) (auto elim!: sorted_wrt_mono_rel[rotated])

section \<open>Names and dependencies\<close>

lemma check_visible_iff: "check_visible n seen rs = Inr () \<longleftrightarrow> distinct rs \<and> set rs \<inter> set seen = {}"
  by (induction rs arbitrary: seen) auto

lemma validate_visible_iff: "validate_visible_repository_ids p = Inr () \<longleftrightarrow> distinct (lp_visible_repository_ids p)"
  by (simp add: validate_visible_repository_ids_def check_visible_iff)

lemma installed_names_from_iff:
  assumes "sorted_wrt (<) (map fst m)"
  shows "installed_names_from m ps = Inr () \<longleftrightarrow>
     (\<forall>p\<in>set ps. \<forall>i. map_of m (lp_name p) = Some i \<longrightarrow> identity_eq i (lp_identity p)) \<and>
     (\<forall>p\<in>set ps. \<forall>q\<in>set ps. lp_name p = lp_name q \<longrightarrow> identity_eq (lp_identity p) (lp_identity q))"
  using assms
proof (induction ps arbitrary: m)
  case (Cons p ps)
  let ?m = "bt_insert m (lp_name p) (lp_identity p)"
  note IH = Cons.IH[OF sorted_bt_insert[OF Cons.prems]]
  have "installed_names_from m (p # ps) = Inr () \<longleftrightarrow>
      (\<forall>i. map_of m (lp_name p) = Some i \<longrightarrow> identity_eq i (lp_identity p)) \<and> installed_names_from ?m ps = Inr ()"
    by (auto split: option.splits)
  also have "\<dots> \<longleftrightarrow> (\<forall>q\<in>set (p # ps). \<forall>i. map_of m (lp_name q) = Some i \<longrightarrow> identity_eq i (lp_identity q)) \<and>
      (\<forall>q\<in>set (p # ps). \<forall>r\<in>set (p # ps). lp_name q = lp_name r \<longrightarrow> identity_eq (lp_identity q) (lp_identity r))"
    (is "?L \<longleftrightarrow> ?A \<and> ?B")
  proof
    assume L: ?L
    then have eqp: "identity_eq (lp_identity p) (lp_identity q)" if "q \<in> set ps" "lp_name q = lp_name p" for q
      using that by (auto simp: IH map_of_bt_insert[OF Cons.prems])
    have "identity_eq i (lp_identity q)" if "q \<in> set ps" "map_of m (lp_name q) = Some i" for q i
      using L that eqp[OF that(1)] id_eq.eq_trans
      by (cases "lp_name q = lp_name p") (force simp: IH map_of_bt_insert[OF Cons.prems])+
    then have ?A using L by auto
    moreover have ?B using L eqp by (auto simp: IH id_eq.eq_refl intro: id_eq.eq_sym)
    ultimately show "?A \<and> ?B" ..
  next
    assume "?A \<and> ?B"
    then show ?L by (auto simp: IH map_of_bt_insert[OF Cons.prems])
  qed
  finally show ?case .
qed simp

lemma ensure_installed_names_iff:
  "ensure_installed_names ps = Inr () \<longleftrightarrow>
     (\<forall>p\<in>set ps. \<forall>q\<in>set ps. lp_name p = lp_name q \<longrightarrow> identity_eq (lp_identity p) (lp_identity q))"
  by (simp add: ensure_installed_names_def installed_names_from_iff)

lemma ensure_dependencies_iff:
  "ensure_dependencies_exist ps = Inr () \<longleftrightarrow>
     (\<forall>p\<in>set ps. \<forall>d\<in>set (lp_dependencies p). ld_package d \<in> lp_name ` set ps)"
  by (auto simp: ensure_dependencies_exist_def each_Inr_iff)

section \<open>Canonical locks\<close>

definition package_ok :: "locked_package \<Rightarrow> bool" where
  "package_ok p \<longleftrightarrow>
     package_validate p = Inr () \<and> distinct (lp_visible_repository_ids p) \<and> edges_canonical (lp_dependencies p)"

definition packages_ok :: "locked_package list \<Rightarrow> bool" where
  "packages_ok ps \<longleftrightarrow>
     sorted_wrt (<) (map lp_name ps) \<and> (\<forall>p\<in>set ps. package_ok p) \<and>
     (\<forall>p\<in>set ps. \<forall>d\<in>set (lp_dependencies p). ld_package d \<in> lp_name ` set ps)"

definition lock_ok :: "lockfile \<Rightarrow> bool" where
  "lock_ok lock \<longleftrightarrow>
     packages_ok (lk_packages (lf_resolution lock)) \<and>
     satisfies (lf_r_requirement lock) (rt_r_version (lk_target (lf_resolution lock))) \<and>
     canonicalize_constraint (lf_r_requirement lock) = lf_r_requirement lock"

lemma names_sorted_keys:
  "sorted_wrt (<) (map lp_name ps) \<Longrightarrow> sorted_wrt (\<lambda>a b. package_key a < package_key b) ps"
  unfolding sorted_wrt_map
  by (erule sorted_wrt_mono_rel[rotated])
    (simp add: package_key_def identity_order_key_def lp_name_def less_prod_def)

lemma keys_sorted_names:
  assumes "sorted_wrt (\<lambda>a b. package_key a < package_key b) ps" and "ensure_installed_names ps = Inr ()"
  shows "sorted_wrt (<) (map lp_name ps)"
  unfolding sorted_wrt_map
proof (rule sorted_wrt_mono_rel[OF _ assms(1)])
  fix p q assume "p \<in> set ps" "q \<in> set ps" and less: "package_key p < package_key q"
  then have "lp_name p = lp_name q \<longrightarrow> package_key p = package_key q"
    using assms(2) by (simp add: ensure_installed_names_iff package_key_def identity_order_key_eq_iff)
  then show "lp_name p < lp_name q"
    using less by (auto simp: package_key_def identity_order_key_def lp_name_def less_prod_def)
qed

lemma unique_names:
  assumes "sorted_wrt (<) (map lp_name ps)"
  shows "distinct (map lp_name ps)" "inj_on lp_name (set ps)" "ensure_installed_names ps = Inr ()"
proof -
  show "distinct (map lp_name ps)" using assms strict_sorted_iff by blast
  then show "inj_on lp_name (set ps)" by (simp add: distinct_map)
  then show "ensure_installed_names ps = Inr ()"
    by (auto simp: ensure_installed_names_iff inj_on_def id_eq.eq_refl)
qed

lemma package_validate_dependencies [simp]:
  "package_validate (p\<lparr>lp_dependencies := ds\<rparr>) = package_validate p"
  by (cases p, hypsubst, unfold package_validate_def validate_git_source_def git_source_matches_def
      revision_matches_def validate_spelling_def locked_package.simps, rule refl)

lemma normalize_package_Inr:
  "normalize_package p = Inr q \<longleftrightarrow>
     package_validate p = Inr () \<and> distinct (lp_visible_repository_ids p) \<and>
     q = p\<lparr>lp_dependencies := canonicalize_dependency_edges (lp_dependencies p)\<rparr>"
proof -
  have "validate_visible_repository_ids (p\<lparr>lp_dependencies := ds\<rparr>) = Inr () \<longleftrightarrow> distinct (lp_visible_repository_ids p)" for ds
    by (simp add: validate_visible_iff)
  then show ?thesis by (auto simp: normalize_package_def Let_def bind_res_Inr_iff map_res_Inr_iff)
qed

lemma normalize_package_ok: "normalize_package p = Inr q \<Longrightarrow> package_ok q"
  by (auto simp: normalize_package_Inr package_ok_def canonical_edges)

lemma package_ok_normal: "package_ok p \<Longrightarrow> normalize_package p = Inr p"
  by (simp add: normalize_package_Inr package_ok_def canonical_edges(3))

lemma normalize_packages_ok:
  assumes "normalize_packages ps = Inr qs"
  shows "packages_ok qs"
proof -
  obtain ns where ns: "try_map normalize_package ps = Inr ns"
    and qs: "dedup_packages [] (sort_by package_cmp ns) = Inr qs"
    and checks: "ensure_installed_names qs = Inr ()" "ensure_dependencies_exist qs = Inr ()"
    using assms by (auto simp: normalize_packages_def bind_res_Inr_iff map_res_Inr_iff)
  note canonical = dedup_packages_canonical[OF qs]
  have "sorted_wrt (<) (map lp_name qs)"
    using canonical_by_sorted[of package_key ns] checks(1) canonical by (simp add: keys_sorted_names)
  moreover have "package_ok q" if "q \<in> set qs" for q
  proof -
    have "q \<in> set ns" using that set_canonical_by_subset[of package_key ns] canonical by blast
    then show ?thesis using try_map_mem[OF ns] normalize_package_ok by blast
  qed
  ultimately show ?thesis using checks(2) by (simp add: packages_ok_def ensure_dependencies_iff)
qed

lemma packages_ok_normal:
  assumes "packages_ok ps"
  shows "normalize_packages ps = Inr ps"
proof -
  have keys: "sorted_wrt (\<lambda>a b. package_key a < package_key b) ps"
    using assms by (simp add: packages_ok_def names_sorted_keys)
  have "try_map normalize_package ps = Inr ps"
    using assms package_ok_normal by (simp add: try_map_Inr_iff packages_ok_def list_all2_same)
  moreover have "ensure_dependencies_exist ps = Inr ()"
    using assms by (simp add: packages_ok_def ensure_dependencies_iff)
  ultimately show ?thesis
    using sort_packages_sorted[OF keys] dedup_packages_sorted[of "[]" ps] keys unique_names(3) assms
    by (simp add: normalize_packages_def packages_ok_def)
qed

lemma packages_ok_valid:
  assumes "packages_ok (lk_packages (lf_resolution lock))"
    and "satisfies (lf_r_requirement lock) (rt_r_version (lk_target (lf_resolution lock)))"
  shows "validate lock = Inr ()" "validate_canonical_resolution (lf_resolution lock) = Inr ()"
proof -
  let ?ps = "lk_packages (lf_resolution lock)"
  have names: "sorted_wrt (<) (map lp_name ?ps)" using assms(1) by (simp add: packages_ok_def)
  note keys = names_sorted_keys[OF names]
  note sorted = sort_packages_sorted[OF keys]
  have distinct_ids: "\<not> identity_eq (lp_identity a) (lp_identity b)" if "(a, b) \<in> set (windows2 ?ps)" for a b
  proof -
    have "successively (\<lambda>a b. package_key a < package_key b) ?ps"
      using keys by (simp add: sorted_wrt_successively)
    then show ?thesis
      using that by (auto simp: package_key_def simp flip: windows2_successively identity_order_key_eq_iff)
  qed
  have ok: "package_ok p" if "p \<in> set ?ps" for p using assms(1) that by (simp add: packages_ok_def)
  have "each (\<lambda>p. bind_res (package_validate p) (\<lambda>_. validate_visible_repository_ids p)) ?ps = Inr ()"
    using ok by (auto simp: each_Inr_iff package_ok_def validate_visible_iff)
  then show "validate lock = Inr ()"
    using distinct_ids unique_names(3)[OF names] assms
    by (auto simp: validate_def validate_contents_def Let_def sorted each_Inr_iff bind_res_Inr_iff
        packages_ok_def ensure_dependencies_iff)
  show "validate_canonical_resolution (lf_resolution lock) = Inr ()"
    using distinct_ids ok
    by (auto simp: validate_canonical_resolution_def Let_def sorted list_ex_iff package_ok_def
        locked_package_eq_refl list_all2_same edges_canonical_windows)
qed

text \<open>What the two validations establish together, on a lock that was built by hand.\<close>

lemma locked_package_eq_key: "locked_package_eq a b \<Longrightarrow> package_key a = package_key b"
  by (simp add: locked_package_eq_def package_key_def identity_order_key_eq_iff)

lemma canonical_resolution_sorted:
  assumes "validate_canonical_resolution r = Inr ()"
  shows "sorted_wrt (\<lambda>a b. package_key a < package_key b) (lk_packages r)"
proof -
  let ?ps = "lk_packages r"
  have same: "list_all2 locked_package_eq (sort_by package_cmp ?ps) ?ps"
    and apart: "\<forall>(a, b)\<in>set (windows2 ?ps). \<not> identity_eq (lp_identity a) (lp_identity b)"
    using assms by (auto simp: validate_canonical_resolution_def Let_def list_ex_iff split: if_splits)
  have "map package_key (sort_by package_cmp ?ps) = map package_key ?ps"
    using list_all2_mono[OF same locked_package_eq_key] by (simp add: list_all2_map1 list_all2_map2 flip: list.rel_eq)
  moreover have "sorted_wrt (\<le>) (map package_key (sort_by package_cmp ?ps))"
    using sort_by_key_sorted[of package_key ?ps] by (simp add: sorted_wrt_map package_cmp_key)
  ultimately have "successively (\<lambda>a b. package_key a \<le> package_key b) ?ps"
    by (simp add: sorted_wrt_map sorted_wrt_successively)
  moreover have "successively (\<lambda>a b. package_key a \<noteq> package_key b) ?ps"
    using apart by (simp add: package_key_def identity_order_key_eq_iff flip: windows2_successively)
  ultimately have "successively (\<lambda>a b. package_key a < package_key b) ?ps"
    by (auto simp: order.strict_iff_order simp flip: windows2_successively)
  then show ?thesis by (simp add: sorted_wrt_successively)
qed

lemma validated_lock_iff:
  "validate lock = Inr () \<and> validate_canonical_resolution (lf_resolution lock) = Inr () \<longleftrightarrow>
     packages_ok (lk_packages (lf_resolution lock)) \<and>
     satisfies (lf_r_requirement lock) (rt_r_version (lk_target (lf_resolution lock)))"
proof
  assume V: "validate lock = Inr () \<and> validate_canonical_resolution (lf_resolution lock) = Inr ()"
  let ?ps = "lk_packages (lf_resolution lock)"
  note keys = canonical_resolution_sorted[OF conjunct2[OF V]]
  have checks: "\<forall>p\<in>set ?ps. package_validate p = Inr () \<and> validate_visible_repository_ids p = Inr ()"
      "ensure_installed_names ?ps = Inr ()" "ensure_dependencies_exist ?ps = Inr ()"
      "satisfies (lf_r_requirement lock) (rt_r_version (lk_target (lf_resolution lock)))"
    using V by (auto simp: validate_def validate_contents_def Let_def sort_packages_sorted[OF keys]
        each_Inr_iff bind_res_Inr_iff split: if_splits)
  have "\<forall>p\<in>set ?ps. edges_canonical (lp_dependencies p)"
    using V by (auto simp: validate_canonical_resolution_def Let_def list_ex_iff edges_canonical_windows split: if_splits)
  then show "packages_ok ?ps \<and> satisfies (lf_r_requirement lock) (rt_r_version (lk_target (lf_resolution lock)))"
    using checks keys_sorted_names[OF keys]
    by (simp add: packages_ok_def package_ok_def validate_visible_iff ensure_dependencies_iff)
qed (simp add: packages_ok_valid)

lemma lockfile_new_ok:
  assumes "lockfile_new intent r_requirement resolution = Inr lock"
  shows "lock_ok lock" "lf_resolution_intent_sha256 lock = intent"
    "lf_r_requirement lock = canonicalize_constraint r_requirement"
    "lf_resolution lock = resolution\<lparr>lk_packages := lk_packages (lf_resolution lock)\<rparr>"
    "normalize_packages (lk_packages resolution) = Inr (lk_packages (lf_resolution lock))"
proof -
  obtain ps where ps: "normalize_packages (lk_packages resolution) = Inr ps"
    and lock: "lock = \<lparr>lf_resolution_intent_sha256 = intent, lf_r_requirement = canonicalize_constraint r_requirement,
      lf_resolution = resolution\<lparr>lk_packages := ps\<rparr>\<rparr>"
    and valid: "validate_contents lock = Inr ()"
    using assms by (auto simp: lockfile_new_def normalize_contents_def bind_res_Inr_iff map_res_Inr_iff)
  have "satisfies (lf_r_requirement lock) (rt_r_version (lk_target (lf_resolution lock)))"
    using valid by (auto simp: validate_contents_def Let_def split: if_splits)
  then show "lock_ok lock" using normalize_packages_ok[OF ps] lock by (simp add: lock_ok_def)
qed (use assms in \<open>auto simp: lockfile_new_def normalize_contents_def bind_res_Inr_iff map_res_Inr_iff\<close>)

lemma lock_ok_new:
  assumes "lock_ok lock"
  shows "lockfile_new (lf_resolution_intent_sha256 lock) (lf_r_requirement lock) (lf_resolution lock) = Inr lock"
  using assms packages_ok_normal[of "lk_packages (lf_resolution lock)"] packages_ok_valid(1)[of lock]
  by (cases lock) (simp add: lockfile_new_def normalize_contents_def lock_ok_def validate_def)

section \<open>Marking the reachable packages\<close>

definition depends_on :: "name_map \<Rightarrow> package_name \<Rightarrow> package_name \<Rightarrow> bool" where
  "depends_on m a b = (\<exists>p. map_of m a = Some p \<and> b \<in> ld_package ` set (lp_dependencies p))"

text \<open>A name map of a lock: filed under their names, and closed under dependencies.\<close>

definition graph_ok :: "name_map \<Rightarrow> bool" where
  "graph_ok m \<longleftrightarrow>
     (\<forall>n p. map_of m n = Some p \<longrightarrow> lp_name p = n) \<and> (\<forall>a b. depends_on m a b \<longrightarrow> b \<in> dom (map_of m))"

definition unmarked :: "name_map \<Rightarrow> package_name list \<Rightarrow> nat" where
  "unmarked m marked = card (dom (map_of m) - set marked)"

text \<open>
  What a call does to the set of marked names: it adds \<open>new\<close> names that are reachable from its
  starting points, and whatever it added has its dependencies marked.
\<close>

definition marks :: "name_map \<Rightarrow> package_name set \<Rightarrow> package_name list \<Rightarrow> package_name list \<Rightarrow> bool" where
  "marks m starts before after \<longleftrightarrow>
     set before \<subseteq> set after \<and> starts \<subseteq> set after \<and>
     (\<forall>n\<in>set after - set before. (\<exists>s\<in>starts. (depends_on m)\<^sup>*\<^sup>* s n) \<and> (\<forall>d. depends_on m n d \<longrightarrow> d \<in> set after))"

lemma marks_trans:
  assumes "marks m S xs ys" and "marks m T ys zs"
  shows "marks m (S \<union> T) xs zs"
  using assms unfolding marks_def by blast

lemma unmarked_mono: "set xs \<subseteq> set ys \<Longrightarrow> unmarked m ys \<le> unmarked m xs"
  unfolding unmarked_def by (rule card_mono) (auto simp: finite_dom_map_of)

lemma unmarked_Cons:
  assumes "n \<in> dom (map_of m)" and "n \<notin> set xs"
  shows "unmarked m (n # xs) < unmarked m xs"
  unfolding unmarked_def by (rule psubset_card_mono) (use assms in \<open>auto simp: finite_dom_map_of\<close>)

lemma mark_ok:
  "graph_ok m \<Longrightarrow> map_of m (lp_name p) = Some p \<Longrightarrow> unmarked m marked < depth \<Longrightarrow>
     \<exists>after. mark_reachable depth m marked p = Inr after \<and> marks m {lp_name p} marked after"
  "graph_ok m \<Longrightarrow> ld_package ` set ds \<subseteq> dom (map_of m) \<Longrightarrow> unmarked m marked < depth \<Longrightarrow>
     \<exists>after. mark_dependencies depth m marked parent ds = Inr after \<and> marks m (ld_package ` set ds) marked after"
proof (induction depth m marked p and depth m marked parent ds
    rule: mark_reachable_mark_dependencies.induct)
  case (2 depth m marked p)
  let ?n = "lp_name p"
  show ?case
  proof (cases "?n \<in> set marked")
    case True
    then show ?thesis by (simp add: marks_def)
  next
    case False
    have edges: "depends_on m ?n d \<longleftrightarrow> d \<in> ld_package ` set (lp_dependencies p)" for d
      using 2(3) by (simp add: depends_on_def)
    then have "ld_package ` set (lp_dependencies p) \<subseteq> dom (map_of m)" using 2(2) by (fastforce simp: graph_ok_def)
    moreover have "unmarked m (?n # marked) < depth"
      using unmarked_Cons[OF domI[of "map_of m", OF 2(3)] False] 2(4) by linarith
    ultimately obtain after where after: "mark_dependencies depth m (?n # marked) ?n (lp_dependencies p) = Inr after"
      and M: "marks m (ld_package ` set (lp_dependencies p)) (?n # marked) after"
      using 2(1)[OF False 2(2)] by blast
    have sub: "insert ?n (set marked) \<subseteq> set after" "ld_package ` set (lp_dependencies p) \<subseteq> set after"
      using M by (simp_all add: marks_def)
    have new: "\<exists>s\<in>ld_package ` set (lp_dependencies p). (depends_on m)\<^sup>*\<^sup>* s x"
        "\<And>d. depends_on m x d \<Longrightarrow> d \<in> set after"
      if "x \<in> set after" "x \<notin> set marked" "x \<noteq> ?n" for x
      using bspec[of _ _ x, OF conjunct2[OF conjunct2[OF M[unfolded marks_def]]]] that by simp_all
    have "(depends_on m)\<^sup>*\<^sup>* ?n x" if "x \<in> set after" "x \<notin> set marked" for x
      using new(1)[OF that] edges by (cases "x = ?n") (auto intro: converse_rtranclp_into_rtranclp)
    moreover have "d \<in> set after" if "x \<in> set after" "x \<notin> set marked" "depends_on m x d" for x d
      using new(2)[OF that(1,2) _ that(3)] sub(2) edges that(3) by (cases "x = ?n") auto
    ultimately have "marks m {?n} marked after" using sub(1) unfolding marks_def by blast
    then show ?thesis using after False by simp
  qed
next
  case (4 depth m marked parent d ds)
  obtain q where q: "map_of m (ld_package d) = Some q" using 4(4) by auto
  have name: "lp_name q = ld_package d" using 4(3) q by (simp add: graph_ok_def)
  have q_ok: "ok_or (Raised (DanglingDependency parent (ld_package d))) (map_of m (ld_package d)) = Inr q"
    using q by (simp add: ok_or_Inr_iff)
  obtain mid where mid: "mark_reachable depth m marked q = Inr mid" "marks m {ld_package d} marked mid"
    using 4(1)[OF 4(3) _ 4(5), of q] q unfolding name by blast
  have "unmarked m mid < depth"
    using unmarked_mono[of marked mid m] mid(2) 4(5) by (auto simp: marks_def)
  moreover have "ld_package ` set ds \<subseteq> dom (map_of m)" using 4(4) by simp
  ultimately obtain after where after: "mark_dependencies depth m mid parent ds = Inr after"
      "marks m (ld_package ` set ds) mid after"
    using 4(2)[OF 4(3)] mid(1) by blast
  show ?case using marks_trans[OF mid(2) after(2)] mid(1) after(1) q_ok by simp
qed (auto simp: marks_def)

text \<open>From a set of marked names that is closed, a call adds exactly what is reachable.\<close>

definition closed :: "name_map \<Rightarrow> package_name set \<Rightarrow> bool" where
  "closed m X \<longleftrightarrow> (\<forall>a\<in>X. \<forall>b. depends_on m a b \<longrightarrow> b \<in> X)"

lemma closed_reach: "(depends_on m)\<^sup>*\<^sup>* a b \<Longrightarrow> closed m X \<Longrightarrow> a \<in> X \<Longrightarrow> b \<in> X"
  by (induction rule: rtranclp_induct) (auto simp: closed_def)

lemma marks_closed:
  assumes "marks m S xs ys" and "closed m (set xs)"
  shows "closed m (set ys)" "set ys = set xs \<union> {n. \<exists>s\<in>S. (depends_on m)\<^sup>*\<^sup>* s n}"
proof -
  show closed: "closed m (set ys)" using assms unfolding marks_def closed_def by blast
  show "set ys = set xs \<union> {n. \<exists>s\<in>S. (depends_on m)\<^sup>*\<^sup>* s n}"
    using assms(1) closed_reach[OF _ closed] unfolding marks_def by blast
qed

lemma mark_reachable_exact:
  assumes "graph_ok m" and "map_of m (lp_name p) = Some p" and "closed m (set marked)"
    and "length m < depth"
  shows "\<exists>after. mark_reachable depth m marked p = Inr after \<and> closed m (set after) \<and>
    set after = set marked \<union> {n. (depends_on m)\<^sup>*\<^sup>* (lp_name p) n}"
proof -
  have "unmarked m marked \<le> card (dom (map_of m))"
    unfolding unmarked_def by (rule card_mono) (auto simp: finite_dom_map_of)
  also have "\<dots> \<le> length m"
    by (simp add: dom_map_of_conv_image_fst) (metis card_length length_map set_map)
  finally have "unmarked m marked < depth" using assms(4) by simp
  then obtain after where after: "mark_reachable depth m marked p = Inr after"
    and M: "marks m {lp_name p} marked after"
    using mark_ok(1)[OF assms(1,2)] by blast
  show ?thesis using after marks_closed[OF M assms(3)] by simp
qed

end
