(* ===== verification/Lock_Consume.thy ===== *)
theory Lock_Consume
  imports Lock_Sound
begin

text \<open>
  When a lock is consumed: an exact description of the locks \<^verbatim>\<open>consume_roots\<close> accepts, and that it
  neither panics nor runs out of stack on any input.
\<close>

section \<open>The graph of a lock\<close>

definition locked_depends :: "locked_package list \<Rightarrow> package_name \<Rightarrow> package_name \<Rightarrow> bool" where
  "locked_depends ps a b = (\<exists>p\<in>set ps. lp_name p = a \<and> b \<in> ld_package ` set (lp_dependencies p))"

definition name_map_of :: "locked_package list \<Rightarrow> name_map" where
  "name_map_of ps = bt_collect (map (\<lambda>p. (lp_name p, p)) ps)"

lemma name_map_of_Some:
  assumes "sorted_wrt (<) (map lp_name ps)"
  shows "map_of (name_map_of ps) n = Some p \<longleftrightarrow> p \<in> set ps \<and> lp_name p = n"
proof -
  have "distinct (map lp_name ps)" using unique_names(1)[OF assms] .
  then have "distinct (map fst (rev (map (\<lambda>p. (lp_name p, p)) ps)))" by (auto simp: distinct_map inj_on_def)
  then show ?thesis by (auto simp: name_map_of_def map_of_bt_collect)
qed

lemma dom_name_map_of: "dom (map_of (name_map_of ps)) = lp_name ` set ps"
  by (simp add: name_map_of_def dom_map_of_conv_image_fst set_bt_collect_fst image_image)

lemma length_name_map_of: "length (name_map_of ps) \<le> length ps"
proof -
  have "distinct (map fst (name_map_of ps))"
    using sorted_bt_collect strict_sorted_iff unfolding name_map_of_def by blast
  then have "length (name_map_of ps) = card (lp_name ` set ps)"
    by (simp flip: dom_name_map_of distinct_card add: dom_map_of_conv_image_fst) (metis distinct_card length_map set_map)
  also have "\<dots> \<le> length ps" by (metis card_length length_map set_map)
  finally show ?thesis .
qed

lemma depends_on_name_map:
  "sorted_wrt (<) (map lp_name ps) \<Longrightarrow> depends_on (name_map_of ps) = locked_depends ps"
  by (auto simp: fun_eq_iff depends_on_def locked_depends_def name_map_of_Some)

lemma graph_ok_name_map:
  assumes "packages_ok ps"
  shows "graph_ok (name_map_of ps)"
proof -
  have names: "sorted_wrt (<) (map lp_name ps)" using assms by (simp add: packages_ok_def)
  then show ?thesis
    using assms
    by (auto simp: graph_ok_def depends_on_name_map locked_depends_def name_map_of_Some packages_ok_def
        simp flip: dom_name_map_of)
qed

section \<open>Roots\<close>

definition runtime_root :: "root_check \<Rightarrow> bool" where
  "runtime_root root = (rc_runtime_provided root \<and> is_r_base_name (rc_name root))"

definition root_met :: "resolution_target \<Rightarrow> locked_package list \<Rightarrow> root_check \<Rightarrow> bool" where
  "root_met target ps root =
     (if runtime_root root then satisfies (rc_constraint root) (rt_r_version target)
      else \<exists>p\<in>set ps. lp_name p = rc_name root \<and> satisfies (rc_constraint root) (lp_version p) \<and>
             (\<forall>r. rc_repository root = Some r \<longrightarrow> r \<in> set (lp_visible_repository_ids p)))"

definition start_names :: "root_check list \<Rightarrow> package_name set" where
  "start_names roots = rc_name ` {root \<in> set roots. \<not> runtime_root root}"

lemma consume_root_met:
  assumes "packages_ok ps" and "closed (name_map_of ps) (set marked)" and "root_met target ps root"
  shows "\<exists>after. consume_root (Suc (length ps)) target (name_map_of ps) marked root = Inr after \<and>
    closed (name_map_of ps) (set after) \<and>
    set after = set marked \<union> {n. \<exists>s\<in>start_names [root]. (locked_depends ps)\<^sup>*\<^sup>* s n}"
proof (cases "runtime_root root")
  case True
  then show ?thesis using assms(2,3)
    by (simp add: consume_root_def runtime_root_def root_met_def start_names_def Let_def)
next
  case False
  have names: "sorted_wrt (<) (map lp_name ps)" using assms(1) by (simp add: packages_ok_def)
  from False assms(3) obtain p where p: "p \<in> set ps" "lp_name p = rc_name root"
      "satisfies (rc_constraint root) (lp_version p)"
      "\<And>r. rc_repository root = Some r \<Longrightarrow> r \<in> set (lp_visible_repository_ids p)"
    by (auto simp: root_met_def)
  have get: "map_of (name_map_of ps) (rc_name root) = Some p" using p name_map_of_Some[OF names] by simp
  have depth: "length (name_map_of ps) < Suc (length ps)" using length_name_map_of[of ps] by simp
  have "consume_root (Suc (length ps)) target (name_map_of ps) marked root =
      mark_reachable (Suc (length ps)) (name_map_of ps) marked p"
    using False p(3,4) get
    by (auto simp: consume_root_def runtime_root_def Let_def ok_or_def split: option.splits)
  then show ?thesis
    using mark_reachable_exact[OF graph_ok_name_map[OF assms(1)] _ assms(2) depth, of p] get p(2) False
    by (auto simp: depends_on_name_map[OF names] start_names_def)
qed

lemma consume_root_unmet:
  assumes "sorted_wrt (<) (map lp_name ps)" and "\<not> root_met target ps root"
  shows "\<exists>e. consume_root depth target (name_map_of ps) marked root = Inl (Raised e)"
proof (cases "runtime_root root \<or> map_of (name_map_of ps) (rc_name root) = None")
  case True
  then show ?thesis using assms(2)
    by (auto simp: consume_root_def runtime_root_def root_met_def Let_def ok_or_def)
next
  case False
  then obtain p where get: "map_of (name_map_of ps) (rc_name root) = Some p" by auto
  then have "p \<in> set ps" "lp_name p = rc_name root" using name_map_of_Some[OF assms(1)] by auto
  then show ?thesis using assms(2) False get
    by (auto simp: consume_root_def runtime_root_def root_met_def Let_def ok_or_def split: option.splits)
qed

lemma consume_roots_fold:
  assumes "packages_ok ps" and "closed (name_map_of ps) (set marked)"
  shows "(\<forall>root\<in>set roots. root_met target ps root) \<Longrightarrow>
    \<exists>after. try_fold (consume_root (Suc (length ps)) target (name_map_of ps)) marked roots = Inr after \<and>
      set after = set marked \<union> {n. \<exists>s\<in>start_names roots. (locked_depends ps)\<^sup>*\<^sup>* s n}"
    and "\<not> (\<forall>root\<in>set roots. root_met target ps root) \<Longrightarrow>
    \<exists>e. try_fold (consume_root (Suc (length ps)) target (name_map_of ps)) marked roots = Inl (Raised e)"
  using assms(2)
proof (induction roots arbitrary: marked)
  case (Cons root roots)
  have names: "sorted_wrt (<) (map lp_name ps)" using assms(1) by (simp add: packages_ok_def)
  have starts: "start_names (root # roots) = start_names [root] \<union> start_names roots"
    by (auto simp: start_names_def)
  {
    case 1
    obtain mid where mid: "consume_root (Suc (length ps)) target (name_map_of ps) marked root = Inr mid"
        "closed (name_map_of ps) (set mid)"
        "set mid = set marked \<union> {n. \<exists>s\<in>start_names [root]. (locked_depends ps)\<^sup>*\<^sup>* s n}"
      using consume_root_met[OF assms(1) 1(2), of target root] 1(1) by auto
    then show ?case using Cons.IH(1)[OF _ mid(2)] 1(1) by (auto simp: starts)
  next
    case 2
    show ?case
    proof (cases "root_met target ps root")
      case True
      obtain mid where "consume_root (Suc (length ps)) target (name_map_of ps) marked root = Inr mid"
          "closed (name_map_of ps) (set mid)"
        using consume_root_met[OF assms(1) 2(2) True] by blast
      then show ?thesis using Cons.IH(2)[of mid] 2(1) True by auto
    next
      case False
      then obtain e where "consume_root (Suc (length ps)) target (name_map_of ps) marked root = Inl (Raised e)"
        using consume_root_unmet[OF names] by blast
      then show ?thesis by simp
    qed
  }
qed (auto simp: start_names_def)

section \<open>Visible repositories\<close>

definition rank_of :: "repository_spec list \<Rightarrow> repository_id \<Rightarrow> nat" where
  "rank_of repositories r = (case map_of (configured_ranks repositories) r of Some rank \<Rightarrow> rank | None \<Rightarrow> 0)"

definition visible_ok :: "repository_spec list \<Rightarrow> locked_package \<Rightarrow> bool" where
  "visible_ok repositories p \<longleftrightarrow>
     (\<forall>r\<in>set (lp_visible_repository_ids p).
        \<exists>spec. find (\<lambda>candidate. sp_id candidate = r) repositories = Some spec \<and> package_allowed spec (lp_name p)) \<and>
     sorted_wrt (\<lambda>a b. rank_of repositories a < rank_of repositories b) (lp_visible_repository_ids p)"

lemma dom_configured_ranks: "dom (map_of (configured_ranks repositories)) = sp_id ` set repositories"
  by (simp add: configured_ranks_def dom_map_of_conv_image_fst set_bt_collect_fst)
    (metis (no_types) length_map length_upt map_fst_zip minus_nat.diff_0 set_map)

lemma check_order_iff:
  assumes "set rs \<subseteq> dom (map_of (configured_ranks repositories))"
  shows "check_visible_order (configured_ranks repositories) n previous rs =
    (if sorted_wrt (<) ((case previous of None \<Rightarrow> [] | Some k \<Rightarrow> [k]) @ map (rank_of repositories) rs)
     then Inr () else Inl (Raised (VisibleRepositoryOrderMismatch n)))"
  using assms
proof (induction rs arbitrary: previous)
  case (Cons r rs)
  obtain k where k: "map_of (configured_ranks repositories) r = Some k" using Cons.prems by auto
  then have rank: "rank_of repositories r = k" by (simp add: rank_of_def)
  show ?case
  proof (cases previous)
    case (Some j)
    then show ?thesis using Cons.IH[of "Some k"] Cons.prems k rank by (auto simp: expect_def)
  qed (use Cons.IH[of "Some k"] Cons.prems k rank in \<open>auto simp: expect_def\<close>)
qed (auto split: option.splits)

lemma find_spec:
  "r \<in> sp_id ` set repositories \<longleftrightarrow> (\<exists>spec. find (\<lambda>candidate. sp_id candidate = r) repositories = Some spec)"
  by (auto simp: find_None_iff image_iff simp flip: not_None_eq)

lemma check_visibility_iff:
  "check_visibility repositories p = Inr () \<longleftrightarrow> visible_ok repositories p"
  "check_visibility repositories p \<noteq> Inl (Panicked message)"
proof -
  let ?rs = "lp_visible_repository_ids p"
  have known: "check_known_repositories repositories p = Inr () \<longleftrightarrow> set ?rs \<subseteq> sp_id ` set repositories"
    by (auto simp: check_known_repositories_def each_Inr_iff)
  have known_panic: "check_known_repositories repositories p \<noteq> Inl (Panicked message)"
    by (auto simp: check_known_repositories_def dest!: each_Inl split: if_splits)
  have allowed: "check_allowed_repositories repositories p = Inr () \<longleftrightarrow>
      (\<forall>r\<in>set ?rs. \<exists>spec. find (\<lambda>candidate. sp_id candidate = r) repositories = Some spec \<and> package_allowed spec (lp_name p))"
    unfolding check_allowed_repositories_def each_Inr_iff
  proof (rule ball_cong[OF refl])
    fix r
    show "bind_res (expect ''visible repository IDs were validated above''
          (find (\<lambda>candidate. sp_id candidate = r) repositories)) (\<lambda>spec.
        if \<not> package_allowed spec (lp_name p)
        then Inl (Raised (VisibleRepositoryPackageNotAllowed (lp_name p) r)) else Inr ()) = Inr () \<longleftrightarrow>
      (\<exists>spec. find (\<lambda>candidate. sp_id candidate = r) repositories = Some spec \<and> package_allowed spec (lp_name p))"
      by (cases "find (\<lambda>candidate. sp_id candidate = r) repositories") (simp_all add: expect_def)
  qed
  have allowed_panic: "check_allowed_repositories repositories p \<noteq> Inl (Panicked message)"
    if "set ?rs \<subseteq> sp_id ` set repositories"
    using that
    by (force simp: check_allowed_repositories_def expect_def find_spec subset_eq dest!: each_Inl split: if_splits)
  have order: "check_visible_order (configured_ranks repositories) (lp_name p) None ?rs =
      (if sorted_wrt (\<lambda>a b. rank_of repositories a < rank_of repositories b) ?rs then Inr ()
       else Inl (Raised (VisibleRepositoryOrderMismatch (lp_name p))))"
    if "set ?rs \<subseteq> sp_id ` set repositories"
    using check_order_iff[of ?rs repositories "lp_name p" None] that by (simp add: dom_configured_ranks sorted_wrt_map)
  have sub: "visible_ok repositories p \<Longrightarrow> set ?rs \<subseteq> sp_id ` set repositories"
    by (auto simp: visible_ok_def find_spec subset_eq)
  show "check_visibility repositories p = Inr () \<longleftrightarrow> visible_ok repositories p"
    using known allowed order sub
    by (auto simp: check_visibility_def bind_res_Inr_iff visible_ok_def split: if_splits)
  show "check_visibility repositories p \<noteq> Inl (Panicked message)"
    using known known_panic allowed_panic order
    by (auto simp: check_visibility_def bind_res_Inl_iff split: if_splits)
qed

section \<open>Accepted locks\<close>

definition offered_by :: "repository_spec list \<Rightarrow> locked_package \<Rightarrow> bool" where
  "offered_by repositories p \<longleftrightarrow>
     (\<exists>r\<in>set (lp_visible_repository_ids p). \<exists>spec\<in>set repositories. sp_id spec = r \<and> package_allowed spec (lp_name p))"

definition direct_root :: "root_check list \<Rightarrow> locked_package \<Rightarrow> bool" where
  "direct_root roots p \<longleftrightarrow> (\<exists>root\<in>set roots. rc_direct_source root \<and> rc_name root = lp_name p)"

definition consumable ::
  "lockfile \<Rightarrow> resolution_target \<Rightarrow> environment_id \<Rightarrow> version_constraint \<Rightarrow> root_check list \<Rightarrow>
   repository_spec list option \<Rightarrow> bool" where
  "consumable lock target environment r_requirement roots configured \<longleftrightarrow>
     (let resolution = lf_resolution lock; ps = lk_packages resolution in
      packages_ok ps \<and>
      satisfies (lf_r_requirement lock) (rt_r_version (lk_target resolution)) \<and>
      target_eq (lk_target resolution) target \<and> lk_environment resolution = environment \<and>
      satisfies r_requirement (rt_r_version (lk_target resolution)) \<and>
      (\<forall>root\<in>set roots. root_met (lk_target resolution) ps root) \<and>
      (\<forall>p\<in>set ps. \<exists>s\<in>start_names roots. (locked_depends ps)\<^sup>*\<^sup>* s (lp_name p)) \<and>
      (\<forall>repositories. configured = Some repositories \<longrightarrow>
         (\<forall>p\<in>set ps. visible_ok repositories p \<and> (direct_root roots p \<or> offered_by repositories p))))"

definition graph_of :: "lockfile \<Rightarrow> consumed_locked_graph" where
  "graph_of lock =
     \<lparr>cg_target = lk_target (lf_resolution lock), cg_environment = lk_environment (lf_resolution lock),
      cg_publication_cutoff = lk_publication_cutoff (lf_resolution lock),
      cg_packages = lk_packages (lf_resolution lock)\<rparr>"

lemma check_consumed_iff:
  "check_consumed configured roots reachable p = Inr () \<longleftrightarrow>
     lp_name p \<in> set reachable \<and>
     (\<forall>repositories. configured = Some repositories \<longrightarrow> direct_root roots p \<or> offered_by repositories p)"
  "check_consumed configured roots reachable p \<noteq> Inl (Panicked message)"
  by (auto simp: check_consumed_def direct_root_def offered_by_def list_ex_iff Let_def split: option.splits)

definition visibility_checked :: "repository_spec list option \<Rightarrow> locked_package list \<Rightarrow> lock_error abort + unit" where
  "visibility_checked configured ps =
     (case configured of None \<Rightarrow> Inr () | Some repositories \<Rightarrow> each (check_visibility repositories) ps)"

lemma visibility_checked_iff:
  "visibility_checked configured ps = Inr () \<longleftrightarrow>
     (\<forall>repositories. configured = Some repositories \<longrightarrow> (\<forall>p\<in>set ps. visible_ok repositories p))"
  "visibility_checked configured ps \<noteq> Inl (Panicked message)"
  using check_visibility_iff(2)
  by (auto simp: visibility_checked_def each_Inr_iff check_visibility_iff(1) dest!: each_Inl split: option.splits)

text \<open>The body of \<^verbatim>\<open>consume_roots\<close> after the guards, on a validated lock.\<close>

definition consume_graph ::
  "lockfile \<Rightarrow> root_check list \<Rightarrow> repository_spec list option \<Rightarrow> lock_error abort + consumed_locked_graph" where
  "consume_graph lock roots configured =
     (let ps = lk_packages (lf_resolution lock) in
      bind_res (visibility_checked configured ps) (\<lambda>_.
      bind_res (try_fold (consume_root (Suc (length ps)) (lk_target (lf_resolution lock)) (name_map_of ps)) [] roots)
        (\<lambda>reachable. bind_res (each (check_consumed configured roots reachable) ps) (\<lambda>_. Inr (graph_of lock)))))"

lemma consume_roots_unfold:
  "consume_roots lock target environment r_requirement roots configured =
     bind_res (map_err Raised (validate lock)) (\<lambda>_.
     bind_res (map_err Raised (validate_canonical_resolution (lf_resolution lock))) (\<lambda>_.
       if \<not> target_eq (lk_target (lf_resolution lock)) target then Inl (Raised TargetMismatch)
       else if lk_environment (lf_resolution lock) \<noteq> environment
       then Inl (Raised (EnvironmentMismatch (lk_environment (lf_resolution lock)) environment))
       else if \<not> satisfies r_requirement (rt_r_version (lk_target (lf_resolution lock)))
       then Inl (Raised RRequirementMismatch)
       else consume_graph lock roots configured))"
  by (simp add: consume_roots_def consume_graph_def visibility_checked_def name_map_of_def graph_of_def Let_def)

lemma consume_graph_result:
  assumes "packages_ok (lk_packages (lf_resolution lock))"
  shows "consume_graph lock roots configured = Inr g \<longleftrightarrow>
      g = graph_of lock \<and>
      (\<forall>root\<in>set roots. root_met (lk_target (lf_resolution lock)) (lk_packages (lf_resolution lock)) root) \<and>
      (\<forall>p\<in>set (lk_packages (lf_resolution lock)).
         \<exists>s\<in>start_names roots. (locked_depends (lk_packages (lf_resolution lock)))\<^sup>*\<^sup>* s (lp_name p)) \<and>
      (\<forall>repositories. configured = Some repositories \<longrightarrow>
         (\<forall>p\<in>set (lk_packages (lf_resolution lock)).
            visible_ok repositories p \<and> (direct_root roots p \<or> offered_by repositories p)))"
    and "consume_graph lock roots configured \<noteq> Inl (Panicked message)"
proof -
  let ?ps = "lk_packages (lf_resolution lock)" and ?target = "lk_target (lf_resolution lock)"
  let ?fold = "try_fold (consume_root (Suc (length ?ps)) ?target (name_map_of ?ps)) [] roots"
  have closed: "closed (name_map_of ?ps) (set [])" by (simp add: closed_def)
  note met = consume_roots_fold(1)[OF assms closed, of roots ?target]
  note unmet = consume_roots_fold(2)[OF assms closed, of roots ?target]
  show "consume_graph lock roots configured = Inr g \<longleftrightarrow>
      g = graph_of lock \<and> (\<forall>root\<in>set roots. root_met ?target ?ps root) \<and>
      (\<forall>p\<in>set ?ps. \<exists>s\<in>start_names roots. (locked_depends ?ps)\<^sup>*\<^sup>* s (lp_name p)) \<and>
      (\<forall>repositories. configured = Some repositories \<longrightarrow>
         (\<forall>p\<in>set ?ps. visible_ok repositories p \<and> (direct_root roots p \<or> offered_by repositories p)))"
  proof (cases "\<forall>root\<in>set roots. root_met ?target ?ps root")
    case True
    then obtain after where "?fold = Inr after"
        "set after = {n. \<exists>s\<in>start_names roots. (locked_depends ?ps)\<^sup>*\<^sup>* s n}" using met by auto
    then show ?thesis using True
      by (auto simp: consume_graph_def Let_def bind_res_Inr_iff visibility_checked_iff(1) each_Inr_iff check_consumed_iff(1))
  next
    case False
    then obtain e where "?fold = Inl (Raised e)" using unmet by auto
    then show ?thesis using False by (auto simp: consume_graph_def Let_def bind_res_Inr_iff)
  qed
  have "?fold \<noteq> Inl (Panicked message)"
    using met unmet by (cases "\<forall>root\<in>set roots. root_met ?target ?ps root") auto
  then show "consume_graph lock roots configured \<noteq> Inl (Panicked message)"
    using visibility_checked_iff(2) check_consumed_iff(2)
    by (auto simp: consume_graph_def Let_def bind_res_Inl_iff dest!: each_Inl)
qed

lemma consume_roots_iff:
  "consume_roots lock target environment r_requirement roots configured = Inr g \<longleftrightarrow>
     consumable lock target environment r_requirement roots configured \<and> g = graph_of lock"
proof (cases "validate lock = Inr () \<and> validate_canonical_resolution (lf_resolution lock) = Inr ()")
  case True
  then have "packages_ok (lk_packages (lf_resolution lock)) \<and>
      satisfies (lf_r_requirement lock) (rt_r_version (lk_target (lf_resolution lock)))"
    unfolding validated_lock_iff .
  then show ?thesis
    using True consume_graph_result(1)[of lock roots configured g]
    by (auto simp: consume_roots_unfold consumable_def Let_def)
next
  case False
  then have "\<not> consumable lock target environment r_requirement roots configured"
    unfolding validated_lock_iff consumable_def Let_def by blast
  moreover have "consume_roots lock target environment r_requirement roots configured \<noteq> Inr g"
    using False by (auto simp: consume_roots_unfold bind_res_Inr_iff)
  ultimately show ?thesis by blast
qed

lemma consume_roots_no_panic:
  "consume_roots lock target environment r_requirement roots configured \<noteq> Inl (Panicked message)"
proof (cases "validate lock = Inr () \<and> validate_canonical_resolution (lf_resolution lock) = Inr ()")
  case True
  then have "packages_ok (lk_packages (lf_resolution lock))" unfolding validated_lock_iff by simp
  then show ?thesis
    using True consume_graph_result(2)[of lock roots configured message] by (auto simp: consume_roots_unfold)
next
  case False
  then show ?thesis
    by (cases "validate lock"; cases "validate_canonical_resolution (lf_resolution lock)")
      (auto simp: consume_roots_unfold)
qed

end
