(* ===== verification/Lock_Resolve.thy ===== *)
theory Lock_Resolve
  imports Lock_Consume
begin

text \<open>
  Locks and resolutions: a resolution can always be locked and the lock keeps its graph, a valid
  lock gives every solver key of its packages the locked identity, and the exactness check of a locked
  resolution compares the two sets of releases.
\<close>

section \<open>Locking a resolution\<close>

definition locked_form :: "resolution \<Rightarrow> resolved_package \<Rightarrow> locked_package" where
  "locked_form res p = retain_selected (map rp_name (rs_packages res)) (from_resolved p)"

text \<open>
  What every resolved package has: versions as \<^verbatim>\<open>RPackageVersion::parse\<close> returns them, the version of
  its provenance, and no repository listed twice.
\<close>

definition lockable :: "resolved_package \<Rightarrow> bool" where
  "lockable p \<longleftrightarrow>
     \<not> is_r_base_package (rp_release p) \<and>
     parse_version (version_str (pk_version (rp_release p))) = Inr (pk_version (rp_release p)) \<and>
     (\<forall>v. registry_version (ri_provenance (pk_identity (rp_release p))) = Some v \<longrightarrow>
        parse_version (version_str v) = Inr v \<and> version_eq v (pk_version (rp_release p))) \<and>
     distinct (rp_visible_repository_ids p)"

lemma locked_form_fields [simp]:
  "lp_identity (locked_form res p) = pk_identity (rp_release p)"
  "lp_version (locked_form res p) = pk_version (rp_release p)"
  "lp_visible_repository_ids (locked_form res p) = rp_visible_repository_ids p"
  "lp_requested_git_source (locked_form res p) = None"
  "lp_name (locked_form res p) = rp_name p"
  by (simp_all add: locked_form_def retain_selected_def from_resolved_def Let_def lp_name_def rp_name_def)

lemma set_locked_form_dependencies:
  "set (lp_dependencies (locked_form res p)) =
     (\<lambda>e. \<lparr>ld_kind = re_kind e, ld_package = pr_name (re_package e)\<rparr>) `
       {e \<in> set (rp_effective_dependencies p).
          pr_name (re_package e) \<noteq> ''R'' \<and> pr_name (re_package e) \<in> rp_name ` set (rs_packages res)}"
  by (auto simp: locked_form_def retain_selected_def from_resolved_def Let_def canonical_edges(2)
      locked_edge_def split: if_splits)

lemma locked_form_dependencies:
  "ld_package ` set (lp_dependencies (locked_form res p)) =
     {n \<in> (\<lambda>e. pr_name (re_package e)) ` set (rp_effective_dependencies p).
        n \<noteq> ''R'' \<and> n \<in> rp_name ` set (rs_packages res)}"
  unfolding set_locked_form_dependencies image_image by auto

lemma published_spelling_cases:
  "published_spelling release =
     version_str (case registry_version (ri_provenance (pk_identity release)) of
                    Some v \<Rightarrow> v | None \<Rightarrow> pk_version release)"
  by (cases "ri_provenance (pk_identity release)") (simp_all add: published_spelling_def registry_version_def)

lemma locked_form_ok:
  assumes "lockable p"
  shows "package_ok (locked_form res p)"
proof -
  let ?q = "locked_form res p" and ?r = "rp_release p"
  have git: "validate_git_source ?q = Inr ()" by (simp add: validate_git_source_def)
  have spelling: "lp_published_version_spelling ?q =
      (if published_spelling ?r \<noteq> canonical_version (pk_version ?r) then Some (published_spelling ?r) else None)"
    by (simp add: locked_form_def retain_selected_def from_resolved_def Let_def)
  obtain v where "parse_version (published_spelling ?r) = Inr v" "version_eq v (pk_version ?r)"
    using assms
    by (cases "registry_version (ri_provenance (pk_identity ?r))")
      (auto simp: published_spelling_cases lockable_def vers_eq.eq_refl)
  then have "validate_spelling ?q = Inr ()" by (simp add: validate_spelling_def spelling)
  then have "package_validate ?q = Inr ()"
    using assms git by (auto simp: package_validate_def lockable_def is_r_base_package_def split: option.splits)
  moreover have "edges_canonical (lp_dependencies ?q)"
    using canonical_edges(1)
    by (simp add: locked_form_def retain_selected_def from_resolved_def Let_def edges_canonical_def sorted_wrt_filter)
  ultimately show ?thesis using assms by (simp add: package_ok_def lockable_def)
qed

lemma locked_packages_ok:
  assumes "sorted_wrt (<) (map rp_name (rs_packages res))" and "\<forall>p\<in>set (rs_packages res). lockable p"
  shows "packages_ok (map (locked_form res) (rs_packages res))"
proof -
  have "map lp_name (map (locked_form res) (rs_packages res)) = map rp_name (rs_packages res)" by simp
  moreover have "ld_package d \<in> rp_name ` set (rs_packages res)"
    if "d \<in> set (lp_dependencies (locked_form res p))" for p d
    using that locked_form_dependencies[of res p] by blast
  ultimately show ?thesis
    using assms locked_form_ok by (auto simp: packages_ok_def image_image comp_def)
qed

lemma locking_ok:
  assumes "sorted_wrt (<) (map rp_name (rs_packages res))" and "\<forall>p\<in>set (rs_packages res). lockable p"
    and "satisfies r_requirement (rt_r_version (rs_target res))"
  shows "from_resolution_with_applicability res environment cutoff intent r_requirement =
    Inr \<lparr>lf_resolution_intent_sha256 = intent, lf_r_requirement = canonicalize_constraint r_requirement,
         lf_resolution = \<lparr>lk_target = rs_target res, lk_environment = environment, lk_publication_cutoff = cutoff,
           lk_packages = map (locked_form res) (rs_packages res)\<rparr>\<rparr>"
    (is "_ = Inr ?lock")
proof -
  let ?ps = "map (locked_form res) (rs_packages res)"
  have ok: "packages_ok ?ps" by (rule locked_packages_ok[OF assms(1,2)])
  then have keys: "sorted_wrt (\<lambda>a b. package_key a < package_key b) ?ps"
    by (simp only: packages_ok_def names_sorted_keys)
  have "each package_validate ?ps = Inr ()"
    using ok by (simp add: each_Inr_iff packages_ok_def package_ok_def)
  moreover have "dedup_packages [] (sort_by package_cmp ?ps) = Inr ?ps"
    using sort_packages_sorted[OF keys] dedup_packages_sorted[of "[]" ?ps] keys by simp
  moreover have "lock_ok ?lock" using ok assms(3) by (simp add: lock_ok_def)
  ultimately show ?thesis
    using lock_ok_new[of ?lock]
    by (simp add: from_resolution_with_applicability_def locked_form_def[abs_def] Let_def)
qed

section \<open>Solver keys\<close>

lemma try_fold_map: "try_fold f s (map g xs) = try_fold (\<lambda>s x. f s (g x)) s xs"
  by (induction xs arbitrary: s) (auto simp: fun_eq_iff intro!: arg_cong[where f = "bind_res _"])

lemma try_fold_nested:
  "try_fold (\<lambda>s x. try_fold (g x) s (h x)) s xs = try_fold (\<lambda>s (x, y). g x s y) s (concat (map (\<lambda>x. map (Pair x) (h x)) xs))"
proof (induction xs arbitrary: s)
  case (Cons x xs)
  then show ?case by (simp add: try_fold_append try_fold_map)
qed simp

definition key_entries :: "locked_package list \<Rightarrow> (locked_package \<times> solver_key) list" where
  "key_entries ps =
     concat (map (\<lambda>p. map (Pair p) (identity_solver_keys (lp_identity p) (lp_visible_repository_ids p))) ps)"

lemma insert_keys:
  assumes "\<And>p k q l. (p, k) \<in> set es \<Longrightarrow> (q, l) \<in> set es \<Longrightarrow> solver_key_eq k l \<Longrightarrow> identity_eq (lp_identity p) (lp_identity q)"
  shows "\<exists>m. try_fold (\<lambda>m (p, k). insert_locked_key p m k) [] es = Inr m \<and>
    (\<forall>k. (hm_get solver_key_eq m k = None \<longleftrightarrow> (\<forall>(p, l)\<in>set es. \<not> solver_key_eq l k)) \<and>
      (\<forall>i. hm_get solver_key_eq m k = Some i \<longrightarrow> (\<exists>(p, l)\<in>set es. solver_key_eq l k \<and> i = lp_identity p)))"
  using assms
proof (induction es rule: rev_induct)
  case (snoc e es)
  obtain p k where e: "e = (p, k)" by (cases e)
  obtain m where m: "try_fold (\<lambda>m (p, k). insert_locked_key p m k) [] es = Inr m"
    and none: "\<And>k. hm_get solver_key_eq m k = None \<longleftrightarrow> (\<forall>(p, l)\<in>set es. \<not> solver_key_eq l k)"
    and some: "\<And>k i. hm_get solver_key_eq m k = Some i \<Longrightarrow> \<exists>(p, l)\<in>set es. solver_key_eq l k \<and> i = lp_identity p"
  proof -
    have "\<exists>m. try_fold (\<lambda>m (p, k). insert_locked_key p m k) [] es = Inr m \<and>
      (\<forall>k. (hm_get solver_key_eq m k = None \<longleftrightarrow> (\<forall>(p, l)\<in>set es. \<not> solver_key_eq l k)) \<and>
        (\<forall>i. hm_get solver_key_eq m k = Some i \<longrightarrow> (\<exists>(p, l)\<in>set es. solver_key_eq l k \<and> i = lp_identity p)))"
      by (rule snoc.IH) (rule snoc.prems, simp_all)
    then show ?thesis using that by blast
  qed
  have "insert_locked_key p m k = Inr (hm_insert solver_key_eq m k (lp_identity p))"
  proof (cases "hm_get solver_key_eq m k")
    case (Some i)
    then obtain q l where "(q, l) \<in> set es" "solver_key_eq l k" "i = lp_identity q" using some by blast
    then have "identity_eq i (lp_identity p)" using snoc.prems[of q l p k] e by simp
    then show ?thesis using Some by (simp add: insert_locked_key_def)
  qed (simp add: insert_locked_key_def)
  then have fold: "try_fold (\<lambda>m (p, k). insert_locked_key p m k) [] (es @ [e]) = Inr (hm_insert solver_key_eq m k (lp_identity p))"
    using m by (simp add: e try_fold_append)
  have "hm_get solver_key_eq (hm_insert solver_key_eq m k (lp_identity p)) j = None \<longleftrightarrow>
      (\<forall>(p, l)\<in>set (es @ [e]). \<not> solver_key_eq l j)" for j
    using none[of j] by (auto simp: e key_eq.hm_get_insert)
  moreover have "\<exists>(p, l)\<in>set (es @ [e]). solver_key_eq l j \<and> i = lp_identity p"
    if "hm_get solver_key_eq (hm_insert solver_key_eq m k (lp_identity p)) j = Some i" for j i
    using that some[of j i] by (cases "solver_key_eq k j") (auto simp: e key_eq.hm_get_insert)
  ultimately show ?case using fold by blast
qed simp

lemma solver_key_name: "k \<in> set (identity_solver_keys i rs) \<Longrightarrow> subject_name k = Some (ri_name i)"
  by (cases "ri_provenance i") (auto simp: identity_solver_keys_def Let_def)

lemma entry_name: "(p, k) \<in> set (key_entries ps) \<Longrightarrow> p \<in> set ps \<and> subject_name k = Some (lp_name p)"
  using solver_key_name by (auto simp: key_entries_def lp_name_def)

lemma subject_name_cong: "solver_key_eq k l \<Longrightarrow> subject_name k = subject_name l"
  by (cases k; cases l) (auto simp: identity_eq_def)

lemma valid_lock_names:
  assumes "validate lock = Inr ()"
    and "p \<in> set (lk_packages (lf_resolution lock))" "q \<in> set (lk_packages (lf_resolution lock))" "lp_name p = lp_name q"
  shows "identity_eq (lp_identity p) (lp_identity q)"
proof -
  have "ensure_installed_names (sort_by package_cmp (lk_packages (lf_resolution lock))) = Inr ()"
    using assms(1) by (auto simp: validate_def validate_contents_def Let_def bind_res_Inr_iff split: if_splits)
  then show ?thesis using assms(2-4) by (simp add: ensure_installed_names_iff)
qed

text \<open>
  The identities of a valid lock: every solver key of a package leads to its identity, and no other
  key is locked.
\<close>

lemma lockfile_identities_ok:
  assumes "validate lock = Inr ()"
  shows "\<exists>m. lockfile_identities lock = Inr m \<and>
    (\<forall>p\<in>set (lk_packages (lf_resolution lock)).
       \<forall>k\<in>set (identity_solver_keys (lp_identity p) (lp_visible_repository_ids p)).
         \<exists>i. hm_get solver_key_eq m k = Some i \<and> identity_eq i (lp_identity p)) \<and>
    (\<forall>k i. hm_get solver_key_eq m k = Some i \<longrightarrow>
       (\<exists>p\<in>set (lk_packages (lf_resolution lock)). i = lp_identity p \<and>
          (\<exists>l\<in>set (identity_solver_keys (lp_identity p) (lp_visible_repository_ids p)). solver_key_eq l k)))"
proof -
  let ?ps = "lk_packages (lf_resolution lock)"
  have apart: "identity_eq (lp_identity p) (lp_identity q)"
    if "(p, k) \<in> set (key_entries ?ps)" "(q, l) \<in> set (key_entries ?ps)" "solver_key_eq k l" for p k q l
    using entry_name[OF that(1)] entry_name[OF that(2)] subject_name_cong[OF that(3)]
    by (intro valid_lock_names[OF assms]) auto
  obtain m where m: "try_fold (\<lambda>m (p, k). insert_locked_key p m k) [] (key_entries ?ps) = Inr m"
    and none: "\<And>k. hm_get solver_key_eq m k = None \<Longrightarrow> \<forall>(p, l)\<in>set (key_entries ?ps). \<not> solver_key_eq l k"
    and some: "\<And>k i. hm_get solver_key_eq m k = Some i \<Longrightarrow> \<exists>(p, l)\<in>set (key_entries ?ps). solver_key_eq l k \<and> i = lp_identity p"
  proof -
    have "\<exists>m. try_fold (\<lambda>m (p, k). insert_locked_key p m k) [] (key_entries ?ps) = Inr m \<and>
      (\<forall>k. (hm_get solver_key_eq m k = None \<longleftrightarrow> (\<forall>(p, l)\<in>set (key_entries ?ps). \<not> solver_key_eq l k)) \<and>
        (\<forall>i. hm_get solver_key_eq m k = Some i \<longrightarrow>
           (\<exists>(p, l)\<in>set (key_entries ?ps). solver_key_eq l k \<and> i = lp_identity p)))"
      by (rule insert_keys) (rule apart)
    then show ?thesis using that by blast
  qed
  have "lockfile_identities lock = Inr m"
    using assms m by (simp add: lockfile_identities_def try_fold_nested key_entries_def)
  moreover have "\<exists>i. hm_get solver_key_eq m k = Some i \<and> identity_eq i (lp_identity p)"
    if "p \<in> set ?ps" "k \<in> set (identity_solver_keys (lp_identity p) (lp_visible_repository_ids p))" for p k
  proof -
    have e: "(p, k) \<in> set (key_entries ?ps)" using that by (auto simp: key_entries_def)
    then obtain i where i: "hm_get solver_key_eq m k = Some i" using none key_eq.eq_refl by fastforce
    then obtain q l where q: "(q, l) \<in> set (key_entries ?ps)" "solver_key_eq l k" "i = lp_identity q"
      using some by blast
    show ?thesis using i apart[OF q(1) e q(2)] q(3) by simp
  qed
  moreover have "\<exists>p\<in>set ?ps. i = lp_identity p \<and>
      (\<exists>l\<in>set (identity_solver_keys (lp_identity p) (lp_visible_repository_ids p)). solver_key_eq l k)"
    if "hm_get solver_key_eq m k = Some i" for k i
    using some[OF that] by (auto simp: key_entries_def)
  ultimately show ?thesis by blast
qed

section \<open>Exact identity sets\<close>

definition lock_releases :: "consumed_locked_graph \<Rightarrow> (release_identity \<times> r_package_version) list" where
  "lock_releases g = pair_collect (map (\<lambda>p. (lp_identity p, lp_version p)) (cg_packages g))"

definition solved_releases :: "resolution \<Rightarrow> (release_identity \<times> r_package_version) list" where
  "solved_releases res =
     pair_collect (map (\<lambda>p. (pk_identity (rp_release p), pk_version (rp_release p)))
       (filter (\<lambda>p. \<not> is_r_base_package (rp_release p)) (rs_packages res)))"

lemma set_difference_Nil: "set_difference xs ys = [] \<longleftrightarrow> (\<forall>x\<in>set xs. \<exists>y\<in>set ys. pair_eq x y)"
  by (simp add: set_difference_def filter_empty_conv list_ex_iff)

lemma verify_exact_unfold:
  "verify_exact_identity_set res g =
     (let missing = set_difference (lock_releases g) (solved_releases res);
          extra = set_difference (solved_releases res) (lock_releases g);
          keys = (\<lambda>ps. canonical_by id (map (\<lambda>(i, v). semantic_identity_key i v) ps)) in
      if missing = [] \<and> extra = [] then Inr () else Inl (ExactIdentitySetMismatch (keys missing) (keys extra)))"
  by (simp add: verify_exact_identity_set_def lock_releases_def solved_releases_def Let_def)

lemma pair_eq_refl: "pair_eq x x"
  by (simp add: pair_eq_def id_eq.eq_refl vers_eq.eq_refl)

lemma set_canonical_keys: "set (canonical_by id xs) = set (xs :: string list)"
  by (rule set_canonical_by) simp

end
