(* ===== verification/Manifest_Paths.thy ===== *)
theory Manifest_Paths
  imports Repository_Spec
begin

text \<open>
  Relative paths and URL paths.  A \<^verbatim>\<open>&str\<close> is valid UTF-8, so splitting it at an ASCII character and
  joining the pieces again neither makes nor loses control characters; normalization leaves paths
  without dot segments and changes nothing the second time.
\<close>

section \<open>UTF-8 text\<close>

function utf8 :: "string \<Rightarrow> bool" where
  "utf8 [] = True"
| "utf8 (c # cs) =
     (utf8_len c - 1 \<le> length cs \<and> list_all (\<lambda>d. 128 \<le> byte_val d) (take (utf8_len c - 1) cs)
      \<and> utf8 (drop (utf8_len c - 1) cs))"
  by pat_completeness auto
termination
  by (relation "measure length") auto

lemma char_indices_shift: "map snd (char_indices_from i s) = map snd (char_indices_from j s)"
proof (induction i s arbitrary: j rule: char_indices_from.induct)
  case (2 i c cs)
  show ?case
    unfolding char_indices_from.simps Let_def list.map snd_conv
    by (intro arg_cong2[where f = Cons] refl 2[OF refl])
qed simp

lemma chars_Nil [simp]: "chars [] = []"
  by (simp add: chars_def char_indices_def)

lemma chars_Cons:
  "chars (c # cs) = code_point (map byte_val (take (utf8_len c) (c # cs))) # chars (drop (utf8_len c - 1) cs)"
  using char_indices_shift[of "utf8_len c" "drop (utf8_len c - 1) cs" 0]
  by (simp add: chars_def char_indices_def Let_def)

lemma utf8_len_pos: "0 < utf8_len c"
  by (simp add: utf8_len_def Let_def)

lemma utf8_ascii: "is_ascii c \<Longrightarrow> utf8_len c = 1"
  by (simp add: utf8_len_def is_ascii_def)

lemma utf8_append:
  assumes "is_ascii c"
  shows "utf8 (x @ c # s) \<longleftrightarrow> utf8 x \<and> utf8 s"
    and "utf8 x \<Longrightarrow> chars (x @ c # s) = chars x @ byte_val c # chars s"
proof (induction x rule: utf8.induct)
  case 1
  {
    case 1
    then show ?case using assms by (simp add: utf8_ascii)
  next
    case 2
    then show ?case using assms by (simp add: chars_Cons utf8_ascii)
  }
next
  case (2 d ds)
  let ?n = "utf8_len d - 1"
  have fits: "?n \<le> length ds" if "list_all (\<lambda>e. 128 \<le> byte_val e) (take ?n (ds @ c # s))" "?n \<le> length (ds @ c # s)"
  proof (rule ccontr)
    assume "\<not> ?n \<le> length ds"
    then have "c \<in> set (take ?n (ds @ c # s))" by (cases "?n - length ds") auto
    then have "128 \<le> byte_val c" using that(1) unfolding list_all_iff by (rule bspec[rotated])
    then show False using assms by (simp add: is_ascii_def)
  qed
  {
    case 1
    show ?case using 2(1) fits by auto
  next
    case 2
    then have n: "?n \<le> length ds" "utf8 (drop ?n ds)" by auto
    have "take (utf8_len d) (d # ds @ c # s) = take (utf8_len d) (d # ds)"
      using n(1) utf8_len_pos[of d] by (cases "utf8_len d") auto
    moreover have "drop ?n (ds @ c # s) = drop ?n ds @ c # s" using n(1) by simp
    ultimately show ?case
      using \<open>utf8 (drop ?n ds) \<Longrightarrow> _\<close>[OF n(2)] unfolding append_Cons chars_Cons by simp
  }
qed

text \<open>Text without a class of characters, such as the control characters.\<close>

definition text_ok :: "(nat \<Rightarrow> bool) \<Rightarrow> string \<Rightarrow> bool" where
  "text_ok bad s = (utf8 s \<and> \<not> list_ex bad (chars s))"

lemma text_ok_slash: "\<not> bad 47 \<Longrightarrow> text_ok bad (x @ CHR ''/'' # s) \<longleftrightarrow> text_ok bad x \<and> text_ok bad s"
  using utf8_append[of "CHR ''/''" x s] by (auto simp: text_ok_def is_ascii_def byte_val_def)

lemma text_ok_join:
  "\<not> bad 47 \<Longrightarrow> text_ok bad (join_str ''/'' xs) \<longleftrightarrow> list_all (text_ok bad) xs"
proof (induction "''/''" xs rule: join_str.induct)
  case 1
  then show ?case by (simp add: text_ok_def)
qed (simp_all add: text_ok_slash)

lemma join_split: "join_str [c] (split_on (\<lambda>d. d = c) s) = s"
proof (induction s)
  case (Cons d s)
  show ?case
  proof (cases "split_on (\<lambda>d. d = c) s")
    case (Cons x xs)
    then show ?thesis using Cons.IH by (cases xs) auto
  qed simp
qed simp

lemma join_slash_split: "join_str ''/'' (slash_split s) = s"
  by (simp add: slash_split_def join_split)

lemma text_ok_split: "\<not> bad 47 \<Longrightarrow> text_ok bad s \<longleftrightarrow> list_all (text_ok bad) (slash_split s)"
  using text_ok_join[of bad "slash_split s"] by (simp add: join_slash_split)

lemma slash_split_join:
  "xs \<noteq> [] \<Longrightarrow> list_all (\<lambda>x. CHR ''/'' \<notin> set x) xs \<Longrightarrow> slash_split (join_str ''/'' xs) = xs"
  unfolding slash_split_def by (rule split_on_join) (auto simp: list_all_iff)

lemma slash_split_pieces: "x \<in> set (slash_split s) \<Longrightarrow> c \<in> set x \<Longrightarrow> c \<noteq> CHR ''/'' \<and> c \<in> set s"
  unfolding slash_split_def by (drule (1) split_on_pieces) simp

lemma set_join: "c \<in> set (join_str ''/'' xs) \<Longrightarrow> c = CHR ''/'' \<or> (\<exists>x\<in>set xs. c \<in> set x)"
  by (induction "''/''" xs rule: join_str.induct) auto

lemma control_not_slash: "\<not> is_control 47" "\<not> (is_control 47 \<or> is_whitespace 47)"
  by (simp_all add: is_control_def is_whitespace_def)

section \<open>Subdirectories\<close>

text \<open>An ordinary path component.\<close>

definition plain :: "string \<Rightarrow> bool" where
  "plain x = (x \<noteq> [] \<and> x \<noteq> ''.'' \<and> x \<noteq> ''..'' \<and> CHR ''/'' \<notin> set x)"

lemma plain_no_slash: "list_all plain xs \<Longrightarrow> list_all (\<lambda>x. CHR ''/'' \<notin> set x) xs"
  by (simp add: list_all_iff plain_def)

lemma join_starts:
  assumes "xs \<noteq> []" and "hd xs \<noteq> []" and "CHR ''/'' \<notin> set (hd xs)"
  shows "join_str ''/'' xs \<noteq> []" "\<not> starts_with ''/'' (join_str ''/'' xs)"
proof -
  obtain c x ys where "xs = (c # x) # ys" using assms(1,2) by (cases xs; cases "hd xs") auto
  then show "join_str ''/'' xs \<noteq> []" "\<not> starts_with ''/'' (join_str ''/'' xs)"
    using assms(3) by (cases ys; auto)+
qed

lemma plain_join:
  assumes "xs \<noteq> []" and "list_all plain xs"
  shows "join_str ''/'' xs \<noteq> []" "\<not> starts_with ''/'' (join_str ''/'' xs)" "slash_split (join_str ''/'' xs) = xs"
proof -
  have "plain (hd xs)" using assms by (cases xs) auto
  then show "join_str ''/'' xs \<noteq> []" "\<not> starts_with ''/'' (join_str ''/'' xs)"
    using join_starts[OF assms(1)] by (simp_all add: plain_def)
  show "slash_split (join_str ''/'' xs) = xs" using slash_split_join assms plain_no_slash by blast
qed

lemma subdirectory_fold:
  assumes "try_fold subdirectory_step [] (slash_split v) = Inr parts"
  shows "list_all plain parts \<and> set parts \<subseteq> set (slash_split v)"
proof (rule try_fold_invariant[OF assms])
  fix s x s' assume x: "x \<in> set (slash_split v)"
    and s: "list_all plain s \<and> set s \<subseteq> set (slash_split v)" and step: "subdirectory_step s x = Inr s'"
  have "CHR ''/'' \<notin> set x" using slash_split_pieces[OF x] by blast
  then show "list_all plain s' \<and> set s' \<subseteq> set (slash_split v)"
    using s step x in_set_butlastD
    by (fastforce simp: subdirectory_step_def plain_def list_all_iff split: if_splits)
qed simp

lemma subdirectory_fold_plain: "list_all plain xs \<Longrightarrow> try_fold subdirectory_step ps xs = Inr (ps @ xs)"
  by (induction xs arbitrary: ps) (auto simp: subdirectory_step_def plain_def)

lemma join_text:
  assumes "text_ok is_control v" and "set parts \<subseteq> set (slash_split v)"
  shows "text_ok is_control (join_str ''/'' parts)"
  using assms text_ok_split[of is_control v] text_ok_join[of is_control parts]
  by (auto simp: control_not_slash list_all_iff)

lemma join_chars:
  assumes "c \<notin> set v" and "set parts \<subseteq> set (slash_split v)" and "c \<noteq> CHR ''/''"
  shows "c \<notin> set (join_str ''/'' parts)"
  using assms set_join[of c parts] slash_split_pieces by blast

lemma subdirectory_Inr:
  assumes "normalize_relative_subdirectory v = Inr w" and "utf8 v"
  obtains parts where "w = join_str ''/'' parts" "parts \<noteq> []" "list_all plain parts" "text_ok is_control w"
    "CHR 0x5C \<notin> set w"
proof -
  obtain parts where parts: "try_fold subdirectory_step [] (slash_split v) = Inr parts" "parts \<noteq> []"
      "w = join_str ''/'' parts" and v: "CHR 0x5C \<notin> set v" "text_ok is_control v"
    using assms by (auto simp: normalize_relative_subdirectory_def text_ok_def bind_res_Inr_iff split: if_splits)
  note ok = subdirectory_fold[OF parts(1)]
  show ?thesis
    using that[OF parts(3,2)] ok join_text[OF v(2)] join_chars[OF v(1)] parts(3) by blast
qed

lemma subdirectory_normal:
  assumes "parts \<noteq> []" "list_all plain parts" "text_ok is_control (join_str ''/'' parts)"
    "CHR 0x5C \<notin> set (join_str ''/'' parts)"
  shows "normalize_relative_subdirectory (join_str ''/'' parts) = Inr (join_str ''/'' parts)"
  using plain_join[OF assms(1,2)] subdirectory_fold_plain[OF assms(2), of "[]"] assms
  by (simp add: normalize_relative_subdirectory_def text_ok_def)

lemma plain_components: "list_all plain xs \<Longrightarrow> check_subdir_components i xs = None"
  by (induction xs arbitrary: i) (auto simp: plain_def)

lemma subdirectory_accepted:
  assumes "parts \<noteq> []" "list_all plain parts" "text_ok is_control (join_str ''/'' parts)"
    "CHR 0x5C \<notin> set (join_str ''/'' parts)"
  shows "repository_subdir_new (join_str ''/'' parts) =
    (if has_drive_prefix (hd parts) then Inl WindowsDrivePrefix else Inr (join_str ''/'' parts))"
proof -
  have "find (\<lambda>e. is_control (snd e)) (char_indices (join_str ''/'' parts)) = None"
    using assms(3) by (auto simp: text_ok_def chars_def list_ex_iff find_None_iff)
  then show ?thesis
    using plain_join[OF assms(1,2)] plain_components[OF assms(2)] assms(4)
    by (simp add: repository_subdir_new_def)
qed

section \<open>Requested paths\<close>

lemma utf8_map:
  assumes "\<And>c. is_ascii c \<Longrightarrow> is_ascii (f c)" and "\<And>c. \<not> is_ascii c \<Longrightarrow> f c = c"
  shows "utf8 (map f s) = utf8 s"
proof (induction s rule: utf8.induct)
  case (2 c cs)
  have "utf8_len (f c) = utf8_len c" using assms by (metis utf8_ascii)
  moreover have "list_all (\<lambda>d. 128 \<le> byte_val d) (map f xs) = list_all (\<lambda>d. 128 \<le> byte_val d) xs" for xs
    using assms by (induction xs) (auto simp: is_ascii_def, (metis not_less)+)
  ultimately show ?case using 2 by (simp add: take_map drop_map)
qed simp

text \<open>Leading parent components, then ordinary ones.\<close>

definition path_shape :: "string list \<Rightarrow> bool" where
  "path_shape parts = (\<exists>k ys. parts = replicate k ''..'' @ ys \<and> list_all plain ys)"

lemma path_shape_step:
  assumes "path_shape parts" and "CHR ''/'' \<notin> set x"
  shows "path_shape (requested_path_step parts x)"
proof -
  obtain k ys where parts: "parts = replicate k ''..'' @ ys" "list_all plain ys"
    using assms(1) by (auto simp: path_shape_def)
  consider "x = [] \<or> x = ''.''" | "x = ''..''" "ys = []" | "x = ''..''" "ys \<noteq> []" | "plain x"
    using assms(2) by (auto simp: plain_def)
  then show ?thesis
  proof cases
    case 2
    then have "requested_path_step parts x = replicate (Suc k) ''..''"
      using parts by (cases k) (simp_all add: requested_path_step_def replicate_append_same)
    then show ?thesis unfolding path_shape_def by (intro exI[of _ "Suc k"] exI[of _ "[]"]) simp
  next
    case 3
    then have "last ys \<noteq> ''..''" using parts(2) by (metis last_in_set list_all_iff plain_def)
    then have "requested_path_step parts x = replicate k ''..'' @ butlast ys"
      using 3 parts by (simp add: requested_path_step_def butlast_append)
    moreover have "list_all plain (butlast ys)" using parts(2) by (simp add: list_all_iff in_set_butlastD)
    ultimately show ?thesis unfolding path_shape_def by blast
  next
    case 4
    then have "requested_path_step parts x = replicate k ''..'' @ (ys @ [x])"
      using parts by (simp add: requested_path_step_def plain_def)
    then show ?thesis using 4 parts(2) unfolding path_shape_def by (intro exI[of _ k] exI[of _ "ys @ [x]"]) simp
  qed (use assms(1) in \<open>auto simp: requested_path_step_def\<close>)
qed

lemma requested_fold:
  assumes "\<forall>x\<in>set xs. CHR ''/'' \<notin> set x" and "path_shape ps"
  shows "path_shape (foldl requested_path_step ps xs)"
  using assms path_shape_step by (induction xs arbitrary: ps) auto

lemma requested_fold_set: "set (foldl requested_path_step ps xs) \<subseteq> set ps \<union> set xs"
proof (induction xs arbitrary: ps)
  case (Cons x xs)
  have "set (requested_path_step ps x) \<subseteq> insert x (set ps)"
    by (auto simp: requested_path_step_def dest: in_set_butlastD)
  then show ?case using Cons[of "requested_path_step ps x"] by auto
qed simp

lemma requested_fold_shape:
  "list_all plain ys \<Longrightarrow> foldl requested_path_step [] (replicate k ''..'' @ ys) = replicate k ''..'' @ ys"
proof -
  assume ys: "list_all plain ys"
  have "foldl requested_path_step (replicate j ''..'') (replicate k ''..'') = replicate (j + k) ''..''" for j
  proof (induction k arbitrary: j)
    case (Suc k)
    have "requested_path_step (replicate j ''..'') ''..'' = replicate (Suc j) ''..''"
      by (cases j) (simp_all add: requested_path_step_def replicate_append_same)
    then show ?case using Suc[of "Suc j"] by simp
  qed simp
  from this[of 0] have "foldl requested_path_step [] (replicate k ''..'') = replicate k ''..''" by simp
  moreover have "foldl requested_path_step ps ys = ps @ ys" for ps
    using ys by (induction ys arbitrary: ps) (auto simp: requested_path_step_def plain_def)
  ultimately show ?thesis by simp
qed

definition slashes :: "string \<Rightarrow> string" where
  "slashes s = map (\<lambda>c. if c = CHR 0x5C then CHR ''/'' else c) s"

definition second_colon :: "string \<Rightarrow> bool" where
  "second_colon s = (length s > 1 \<and> s ! 1 = CHR '':'')"

lemma utf8_slashes: "utf8 (slashes s) = utf8 s"
  unfolding slashes_def by (rule utf8_map) (auto simp: is_ascii_def byte_val_def)

lemma requested_path_unfold:
  "normalize_requested_path s =
     (if starts_with ''/'' (slashes s) \<or> second_colon (slashes s)
      then Inl ''path must not be absolute or use a drive/UNC prefix''
      else if list_ex is_control (chars (slashes s)) then Inl ''path contains a control character''
      else
        let parts = foldl requested_path_step [] (slash_split (slashes s)) in
        if parts = [] \<or> last parts = ''..'' then Inl ''path must have a non-empty final component''
        else Inr (join_str ''/'' parts))"
proof -
  have "starts_with ''//'' t \<Longrightarrow> starts_with ''/'' t" for t by (cases t) auto
  then show ?thesis by (auto simp: normalize_requested_path_def slashes_def second_colon_def Let_def)
qed

lemma requested_Inr:
  assumes "normalize_requested_path s = Inr w" and "utf8 s"
  obtains k ys where "w = join_str ''/'' (replicate k ''..'' @ ys)" "ys \<noteq> []" "list_all plain ys"
    "text_ok is_control w" "CHR 0x5C \<notin> set w"
proof -
  let ?v = "slashes s"
  define parts where "parts = foldl requested_path_step [] (slash_split ?v)"
  have parts: "parts \<noteq> []" "last parts \<noteq> ''..''" "w = join_str ''/'' parts" and v: "text_ok is_control ?v"
    using assms by (auto simp: requested_path_unfold parts_def text_ok_def utf8_slashes Let_def split: if_splits)
  have "path_shape parts"
    unfolding parts_def by (rule requested_fold) (auto dest: slash_split_pieces simp: path_shape_def)
  then obtain k ys where shape: "parts = replicate k ''..'' @ ys" "list_all plain ys" by (auto simp: path_shape_def)
  have "ys \<noteq> []"
  proof
    assume "ys = []"
    then have "parts = replicate k ''..''" "k \<noteq> 0" using shape(1) parts(1) by auto
    then show False using parts(2) by (simp add: last_replicate)
  qed
  moreover have sub: "set parts \<subseteq> set (slash_split ?v)" unfolding parts_def using requested_fold_set[of "[]"] by auto
  have "CHR 0x5C \<notin> set ?v" by (auto simp: slashes_def)
  ultimately show ?thesis
    using that[of k ys] shape parts(3) join_text[OF v sub] join_chars[OF _ sub] by auto
qed

lemma requested_normal:
  assumes "ys \<noteq> []" "list_all plain ys" and w: "w = join_str ''/'' (replicate k ''..'' @ ys)"
    and "text_ok is_control w" "CHR 0x5C \<notin> set w"
  shows "normalize_requested_path w =
    (if second_colon w then Inl ''path must not be absolute or use a drive/UNC prefix'' else Inr w)"
proof -
  let ?parts = "replicate k ''..'' @ ys"
  have same: "slashes w = w" using assms(5) by (auto simp: slashes_def intro!: map_idI)
  have "plain (hd ys)" using assms(1,2) by (cases ys) auto
  then have "hd ?parts \<noteq> [] \<and> CHR ''/'' \<notin> set (hd ?parts)" by (cases k) (auto simp: plain_def hd_append)
  then have "\<not> starts_with ''/'' w" unfolding w using join_starts(2)[of ?parts] assms(1) by simp
  moreover have "slash_split w = ?parts"
    unfolding w using assms(1) plain_no_slash[OF assms(2)] by (intro slash_split_join) (auto simp: list_all_iff)
  moreover have "last ?parts \<noteq> ''..''"
    using assms(1,2) by (metis last_appendR last_in_set list_all_iff plain_def)
  ultimately show ?thesis
    using requested_fold_shape[OF assms(2), of k] assms(1,4)
    by (simp add: requested_path_unfold same text_ok_def flip: w)
qed

section \<open>URL paths\<close>

lemma url_fold:
  assumes "try_fold (url_path_step path) [] (slash_split path) = Inr parts"
  shows "\<forall>x\<in>set parts. dot_segment_kind x = None \<and> x \<in> set (slash_split path)"
proof (rule try_fold_invariant[OF assms])
  fix s x s' assume "x \<in> set (slash_split path)" "\<forall>x\<in>set s. dot_segment_kind x = None \<and> x \<in> set (slash_split path)"
    "url_path_step path s x = Inr s'"
  then show "\<forall>x\<in>set s'. dot_segment_kind x = None \<and> x \<in> set (slash_split path)"
    by (auto simp: url_path_step_def Let_def split: option.splits dot_segment.splits if_splits dest: in_set_butlastD)
qed simp

lemma url_fold_plain:
  "\<forall>x\<in>set xs. dot_segment_kind x = None \<Longrightarrow> try_fold (url_path_step path) ps xs = Inr (ps @ xs)"
  by (induction xs arbitrary: ps) (auto simp: url_path_step_def)

lemma dot_kind_Nil [simp]: "dot_segment_kind [] = None"
  by (simp add: dot_segment_kind_def)

definition url_bad :: "nat \<Rightarrow> bool" where
  "url_bad c = (is_control c \<or> is_whitespace c)"

lemma join_snoc_Nil: "xs \<noteq> [] \<Longrightarrow> join_str ''/'' (xs @ [[]]) = join_str ''/'' xs @ ''/''"
  by (induction "''/''" xs rule: join_str.induct) auto

text \<open>The segments of a normalized URL path.\<close>

lemma url_path_Inr:
  assumes "normalize_url_path path = Inr w" and "utf8 path"
  obtains segments where "w = join_str ''/'' segments" "slash_split w = segments" "w \<noteq> []"
    "\<forall>x\<in>set segments. dot_segment_kind x = None" "text_ok url_bad w"
proof -
  obtain parts where parts: "try_fold (url_path_step path) [] (slash_split path) = Inr parts"
    and w: "w = (let joined = join_str ''/'' parts;
              closed = (if ends_with_char (CHR ''/'') path \<and> \<not> ends_with_char (CHR ''/'') joined
                        then joined @ ''/'' else joined)
          in if closed = [] then ''/'' else closed)"
    and clean: "text_ok url_bad path"
    using assms by (auto simp: normalize_url_path_def text_ok_def url_bad_def[abs_def] map_res_Inr_iff split: if_splits)
  note ok = url_fold[OF parts]
  define segments where "segments =
    (if w = ''/'' then [[], []] else if w = join_str ''/'' parts then parts else parts @ [[]])"
  have bad: "\<not> url_bad 47" using control_not_slash(2) by (simp add: url_bad_def)
  have pieces: "\<forall>x\<in>set segments. x = [] \<or> x \<in> set parts" by (auto simp: segments_def)
  have ne: "w \<noteq> ''/'' \<Longrightarrow> parts \<noteq> []" using w by (auto simp: Let_def split: if_splits)
  then have "segments \<noteq> []" by (auto simp: segments_def)
  moreover have eq: "w = join_str ''/'' segments"
    using w ne by (auto simp: segments_def Let_def join_snoc_Nil split: if_splits)
  moreover have "list_all (\<lambda>x. CHR ''/'' \<notin> set x) segments"
    using pieces ok slash_split_pieces by (fastforce simp: list_all_iff)
  ultimately have "slash_split w = segments" using slash_split_join by simp
  moreover have "list_all (text_ok url_bad) segments"
    using pieces ok clean text_ok_split[of url_bad path, OF bad] by (auto simp: list_all_iff text_ok_def[of _ "[]"])
  then have "text_ok url_bad w" using eq text_ok_join[of url_bad, OF bad] by simp
  moreover have "w \<noteq> []" using w by (auto simp: Let_def split: if_splits)
  moreover have "\<forall>x\<in>set segments. dot_segment_kind x = None" using pieces ok by auto
  ultimately show ?thesis using that eq by blast
qed

lemma url_path_normal:
  assumes "slash_split w = segments" "w \<noteq> []" "\<forall>x\<in>set segments. dot_segment_kind x = None" "text_ok url_bad w"
  shows "normalize_url_path w = Inr w"
  using url_fold_plain[of segments w "[]"] assms join_slash_split[of w]
  by (auto simp: normalize_url_path_def text_ok_def url_bad_def[abs_def] Let_def)

end
