(* ===== verification/Lock_Text.thy ===== *)
theory Lock_Text
  imports Lock_Wire Lock_Resolve Manifest_Paths
begin

text \<open>
  The lock's wire form loses nothing: what \<^verbatim>\<open>to_toml\<close> writes decodes to an equal lock, and that lock is
  written the same way.
\<close>

section \<open>Canonical versions\<close>

lemma pop_zeros_id: "\<not> (length cs > 2 \<and> last cs = 0) \<Longrightarrow> pop_zeros cs = cs"
  unfolding pop_zeros.simps[of cs] by (rule if_not_P)

lemma pop_zeros_keeps:
  "strip_zeros (pop_zeros cs) = strip_zeros cs" "n \<le> 2 \<Longrightarrow> n \<le> length cs \<Longrightarrow> n \<le> length (pop_zeros cs)"
  "pop_zeros (pop_zeros cs) = pop_zeros cs"
proof (induction cs rule: pop_zeros.induct)
  case (1 cs)
  have last: "strip_zeros (butlast cs) = strip_zeros cs" if "cs \<noteq> []" "last cs = 0"
    using that strip_zeros_snoc[of "butlast cs" 0] by (metis append_butlast_last_id)
  {
    case 1
    show ?case using "1.IH"(1) last by (cases "cs = []"; subst pop_zeros.simps) auto
  next
    case 2
    then show ?case using "1.IH"(2) by (subst pop_zeros.simps) auto
  next
    case 3
    show ?case
    proof (cases "length cs > 2 \<and> last cs = 0")
      case True
      then have "pop_zeros cs = pop_zeros (butlast cs)" by (subst pop_zeros.simps) simp
      then show ?thesis using "1.IH"(3) True by simp
    next
      case False
      then have "pop_zeros cs = cs" by (rule pop_zeros_id)
      then show ?thesis by simp
    qed
  }
qed

text \<open>With two components or more, the canonical form is the stripped list padded to two.\<close>

lemma pop_zeros_padded:
  "2 \<le> length cs \<Longrightarrow> pop_zeros cs = strip_zeros cs @ replicate (2 - length (strip_zeros cs)) 0"
proof (induction cs rule: pop_zeros.induct)
  case (1 cs)
  have ne: "cs \<noteq> []" using "1.prems" by auto
  show ?case
  proof (cases "length cs > 2 \<and> last cs = 0")
    case True
    then have "pop_zeros cs = pop_zeros (butlast cs)" by (subst pop_zeros.simps) simp
    moreover have "strip_zeros (butlast cs) = strip_zeros cs"
      using True ne strip_zeros_snoc[of "butlast cs" 0] by (metis append_butlast_last_id)
    moreover have "2 \<le> length cs - Suc 0" using True by linarith
    ultimately show ?thesis using "1.IH"[OF True] by simp
  next
    case False
    then have id: "pop_zeros cs = cs" by (rule pop_zeros_id)
    show ?thesis
    proof (cases "last cs = 0")
      case True
      then have "length cs = 2" using False "1.prems" by simp
      then obtain a b where "cs = [a, b]" by (auto simp: length_Suc_conv numeral_2_eq_2)
      then show ?thesis using id True by (auto simp: strip_zeros_Cons numeral_2_eq_2)
    next
      case nz: False
      then have "strip_zeros cs = cs"
        using strip_zeros_snoc[of "butlast cs" "last cs"] ne by simp
      then show ?thesis using id "1.prems" by simp
    qed
  qed
qed

lemma canonical_version_cong:
  assumes "version_eq v w" and "2 \<le> length (version_components v)" and "2 \<le> length (version_components w)"
  shows "canonical_version v = canonical_version w"
  using assms by (simp add: canonical_version_def pop_zeros_padded version_eq_strip)

lemma parse_canonical:
  assumes "version_components v \<noteq> []" and "n \<le> length (version_components v)" and "n \<le> 2"
  shows "\<exists>w. parse_with_minimum (canonical_version v) n = Inr w \<and> version_eq v w \<and>
    canonical_version w = canonical_version v \<and> version_components w = pop_zeros (version_components v)"
proof -
  have "pop_zeros (version_components v) \<noteq> []"
    using pop_zeros_keeps(2)[of 1 "version_components v"] assms(1) by (cases "version_components v") auto
  then obtain w where w: "parse_with_minimum (canonical_version v) n = Inr w"
      "version_components w = pop_zeros (version_components v)"
    using parse_join_components pop_zeros_keeps(2)[OF assms(3,2)] unfolding canonical_version_def by blast
  then show ?thesis
    by (auto simp: version_eq_strip pop_zeros_keeps canonical_version_def)
qed

section \<open>ASCII text\<close>

lemma chars_all_ascii: "list_all is_ascii s \<Longrightarrow> chars s = map byte_val s"
  by (rule chars_ascii) (simp add: list_all_iff)

lemma char_indices_zip: "list_all is_ascii s \<Longrightarrow> char_indices_from i s = zip [i..<i + length s] (map byte_val s)"
proof (induction s arbitrary: i)
  case (Cons c s)
  have "[i..<i + length (c # s)] = i # [Suc i..<Suc i + length s]"
    using upt_conv_Cons[of i "i + length (c # s)"] by (simp del: upt_Suc)
  then show ?case using Cons utf8_ascii[of c] by (simp add: is_ascii_def)
qed simp

lemma trim_ascii:
  assumes "list_all is_ascii s" and "s \<noteq> []"
    and "\<not> is_whitespace (byte_val (hd s))" and "\<not> is_whitespace (byte_val (last s))"
  shows "trim s = s"
proof -
  let ?n = "length s"
  have idx: "char_indices s = zip [0..<?n] (map byte_val s)"
    using char_indices_zip[OF assms(1), of 0] by (simp add: char_indices_def)
  obtain c cs where s: "s = c # cs" using assms(2) by (cases s) auto
  have "find (\<lambda>e. \<not> is_whitespace (snd e)) (char_indices s) = Some (0, byte_val c)"
    using assms(3) unfolding idx by (simp add: s upt_conv_Cons del: upt_Suc)
  then have start: "trim_start s = s" by (simp add: trim_start_def)
  have "char_indices s = butlast (char_indices s) @ [(?n - 1, byte_val (last s))]"
    unfolding idx using assms(2)
    by (subst append_butlast_last_id[symmetric]) (auto simp: last_zip last_map)
  then have "find (\<lambda>e. \<not> is_whitespace (snd e)) (rev (char_indices s)) = Some (?n - 1, byte_val (last s))"
    using assms(4) by (metis (no_types, lifting) find.simps(2) rev_eq_Cons_iff rev_rev_ident snd_conv)
  moreover have "is_ascii (s ! (?n - 1))" using assms(1,2) by (simp add: list_all_length)
  ultimately have "trim_end s = s" using utf8_ascii assms(2) by (simp add: trim_end_def)
  then show ?thesis using start by (simp add: trim_def)
qed

text \<open>Digits and dots, between two digits.\<close>

definition version_like :: "string \<Rightarrow> bool" where
  "version_like s \<longleftrightarrow>
     s \<noteq> [] \<and> is_ascii_digit (hd s) \<and> is_ascii_digit (last s) \<and> (\<forall>c\<in>set s. is_ascii_digit c \<or> c = CHR ''.'')"

lemma join_dots:
  assumes "xs \<noteq> []" and "\<forall>x\<in>set xs. x \<noteq> [] \<and> (\<forall>c\<in>set x. is_ascii_digit c)"
  shows "version_like (join_str ''.'' xs)"
  using assms
proof (induction "''.''" xs rule: join_str.induct)
  case (2 x)
  then show ?case by (simp add: version_like_def)
next
  case (3 x y xs)
  then have "version_like (join_str ''.'' (y # xs))" by simp
  then show ?case using 3(3) by (auto simp: version_like_def)
qed simp

lemma canonical_version_like: "version_components v \<noteq> [] \<Longrightarrow> version_like (canonical_version v)"
  unfolding canonical_version_def
  using pop_zeros_keeps(2)[of 1 "version_components v"] show_nat_digits
  by (intro join_dots) (auto simp: Suc_le_eq)

lemma version_like_ascii: "version_like s \<Longrightarrow> list_all is_ascii s"
  by (auto simp: version_like_def list_all_iff is_ascii_def is_ascii_digit_def byte_val_def)

lemma digit_not_space: "is_ascii_digit c \<Longrightarrow> \<not> is_whitespace (byte_val c)"
  by (auto simp: is_ascii_digit_def is_whitespace_def)

lemma version_like_trim: "version_like s \<Longrightarrow> trim s = s"
  using version_like_ascii digit_not_space by (intro trim_ascii) (auto simp: version_like_def)

section \<open>Constraints\<close>

text \<open>A version of a clause can be parsed: it has components, two of them for a package.\<close>

definition clause_ready :: "constraint_version_kind \<Rightarrow> version_clause \<Rightarrow> bool" where
  "clause_ready kind c \<longleftrightarrow>
     version_components (vc_version c) \<noteq> [] \<and>
     (kind = ConstraintPackage \<longrightarrow> 2 \<le> length (version_components (vc_version c)))"

lemma relation_tag_chars:
  "list_all is_ascii (relation_tag op)" "relation_tag op \<noteq> []" "hd (relation_tag op) \<in> {CHR ''<'', CHR ''='', CHR ''!'', CHR ''>''}"
  "CHR '','' \<notin> set (relation_tag op)" "b \<in> set (relation_tag op) \<Longrightarrow> \<not> is_control (byte_val b)"
  by (cases op; auto simp: is_ascii_def byte_val_def is_control_def)+

lemma split_relation_tag:
  assumes "version_like t"
  shows "split_relation (relation_tag op @ t) = (op, t)"
proof -
  obtain d s where t: "t = d # s" "is_ascii_digit d" using assms by (cases t) (auto simp: version_like_def)
  then have "d \<noteq> CHR ''=''" by (auto simp: is_ascii_digit_def byte_val_def)
  then show ?thesis using t(1) by (cases op) (simp_all add: split_relation_def strip_prefix_def)
qed

lemma clause_text_shape:
  assumes "clause_ready kind c"
  shows "list_all is_ascii (clause_text c)" "clause_text c \<noteq> []" "CHR '','' \<notin> set (clause_text c)"
    "trim (clause_text c) = clause_text c" "\<forall>b\<in>set (clause_text c). \<not> is_control (byte_val b)"
    "hd (clause_text c) \<in> {CHR ''<'', CHR ''='', CHR ''!'', CHR ''>''}" "is_ascii_digit (last (clause_text c))"
proof -
  let ?v = "canonical_version (vc_version c)" and ?t = "relation_tag (vc_op c)"
  have v: "version_like ?v" using assms canonical_version_like by (simp add: clause_ready_def)
  note T = relation_tag_chars[where op = "vc_op c"]
  show ascii: "list_all is_ascii (clause_text c)" using T(1) version_like_ascii[OF v] by (simp add: clause_text_def)
  show ne: "clause_text c \<noteq> []" using T(2) by (simp add: clause_text_def)
  show hd: "hd (clause_text c) \<in> {CHR ''<'', CHR ''='', CHR ''!'', CHR ''>''}"
    using T(2,3) by (simp add: clause_text_def)
  show last: "is_ascii_digit (last (clause_text c))" using v by (simp add: clause_text_def version_like_def)
  have "CHR '','' \<notin> set ?v" using v by (auto simp: version_like_def is_ascii_digit_def byte_val_def)
  then show "CHR '','' \<notin> set (clause_text c)" using T(4) by (simp add: clause_text_def)
  have "\<not> is_whitespace (byte_val b)" if "b \<in> {CHR ''<'', CHR ''='', CHR ''!'', CHR ''>''}" for b
    using that by (auto simp: is_whitespace_def byte_val_def)
  then show "trim (clause_text c) = clause_text c"
    using hd digit_not_space[OF last] by (intro trim_ascii ascii ne) blast+
  have "\<not> is_control (byte_val b)" if "b \<in> set ?v" for b
    using v that by (auto simp: version_like_def is_ascii_digit_def is_control_def byte_val_def)
  then show "\<forall>b\<in>set (clause_text c). \<not> is_control (byte_val b)" using T(5) by (auto simp: clause_text_def)
qed

text \<open>Clauses that are the same, and written the same way.\<close>

definition same_clause :: "version_clause \<Rightarrow> version_clause \<Rightarrow> bool" where
  "same_clause a b \<longleftrightarrow> clause_eq a b \<and> clause_text a = clause_text b"

lemma parse_clause_text:
  assumes "clause_ready kind c"
  shows "\<exists>d. parse_term field kind (clause_text c) = Inr d \<and> same_clause c d"
proof -
  let ?v = "canonical_version (vc_version c)"
  have v: "version_like ?v" using assms canonical_version_like by (simp add: clause_ready_def)
  define n :: nat where "n = (case kind of ConstraintR \<Rightarrow> 1 | ConstraintPackage \<Rightarrow> 2)"
  have parse: "(case kind of ConstraintR \<Rightarrow> parse_bare ?v | ConstraintPackage \<Rightarrow> parse_version ?v) = parse_with_minimum ?v n"
    by (cases kind) (simp_all add: n_def parse_bare_def parse_version_def)
  have "n \<le> length (version_components (vc_version c))" "n \<le> 2"
    using assms by (cases kind; auto simp: n_def clause_ready_def Suc_le_eq)+
  then obtain w where w: "parse_with_minimum ?v n = Inr w" "version_eq (vc_version c) w" "canonical_version w = ?v"
    using parse_canonical assms unfolding clause_ready_def by blast
  have "trim ?v = ?v" "?v \<noteq> []" using version_like_trim[OF v] v by (auto simp: version_like_def)
  moreover have "?v \<noteq> ''*''" using v by (auto simp: version_like_def is_ascii_digit_def byte_val_def)
  moreover have "split_relation (clause_text c) = (vc_op c, ?v)"
    unfolding clause_text_def by (rule split_relation_tag[OF v])
  ultimately have "parse_term field kind (clause_text c) = Inr \<lparr>vc_op = vc_op c, vc_version = w\<rparr>"
    using clause_text_shape(2,4)[OF assms] parse w(1) by (cases kind) (simp_all add: parse_term_def Let_def)
  moreover have "same_clause c \<lparr>vc_op = vc_op c, vc_version = w\<rparr>"
    using w(2,3) by (simp add: same_clause_def clause_eq_def clause_text_def)
  ultimately show ?thesis by blast
qed

lemma parse_clause_texts:
  "\<forall>c\<in>set cs. clause_ready kind c \<Longrightarrow>
     \<exists>ds. try_map (parse_term field kind) (map clause_text cs) = Inr ds \<and> list_all2 same_clause cs ds"
proof (induction cs)
  case (Cons c cs)
  then obtain d ds where "parse_term field kind (clause_text c) = Inr d" "same_clause c d"
      "try_map (parse_term field kind) (map clause_text cs) = Inr ds" "list_all2 same_clause cs ds"
    using parse_clause_text[of kind c field] by auto
  then show ?case by auto
qed simp

lemma sorted_wrt_adjacent: "sorted_wrt P xs \<Longrightarrow> successively P xs"
  by (induction xs rule: induct_list012) auto

lemma set_join_str: "b \<in> set (join_str sep xs) \<Longrightarrow> b \<in> set sep \<or> (\<exists>x\<in>set xs. b \<in> set x)"
  by (induction sep xs rule: join_str.induct) auto

lemma last_join_str: "xs \<noteq> [] \<Longrightarrow> last xs \<noteq> [] \<Longrightarrow> last (join_str sep xs) = last (last xs) \<and> join_str sep xs \<noteq> []"
  by (induction sep xs rule: join_str.induct) auto

lemma keys_canonical:
  assumes "sorted_wrt (<) (map clause_key ds)"
  shows "canonical_clauses ds = ds"
proof -
  have less: "clause_cmp a b \<noteq> Greater \<and> \<not> clause_eq b a" if "clause_key a < clause_key b" for a b
  proof
    show "clause_cmp a b \<noteq> Greater"
      using that clause_order.cmp_flip[of b a] clause_cmp_not_greater[of b a] by auto
  qed (use that in \<open>simp add: clause_eq_key\<close>)
  have "sorted_wrt (\<lambda>a b. clause_cmp a b \<noteq> Greater) ds"
    using assms less by (auto simp: sorted_wrt_map elim: sorted_wrt_mono_rel[rotated])
  then have "sort_by clause_cmp ds = ds" by (rule clause_order.sort_by_id)
  moreover have "successively (\<lambda>x y. \<not> clause_eq y x) ds"
    using assms less by (auto simp: sorted_wrt_map intro!: sorted_wrt_adjacent elim: sorted_wrt_mono_rel[rotated])
  ultimately show ?thesis using dedup_by_id by (simp add: canonical_clauses_def)
qed

lemma parse_canonical_requirement:
  assumes ready: "\<forall>c\<in>set (clauses constraint). clause_ready kind c"
  shows "\<exists>d. parse_constraint (canonical_r_requirement constraint) field kind = Inr d \<and>
    constraint_eq (canonicalize_constraint constraint) d \<and> canonicalize_constraint d = d \<and>
    canonical_r_requirement d = canonical_r_requirement constraint"
proof (cases "clauses constraint = []")
  case True
  have star: "chars ''*'' = [42]" "trim ''*'' = ''*''" by code_simp+
  have "canonical_clauses [] = []" by code_simp
  then show ?thesis
    using True star
    by (auto simp: canonical_r_requirement_def parse_constraint_def is_control_def constraint_eq_def
        canonicalize_constraint_def unconstrained_def constraint_new_def)
next
  case False
  let ?cs = "canonical_clauses (clauses constraint)"
  let ?s = "join_str '','' (map clause_text ?cs)"
  have ready': "\<forall>c\<in>set ?cs. clause_ready kind c" using ready canonical_clauses_represent(1) by blast
  have ne: "?cs \<noteq> []" using False canonical_clauses_represent(2) by (metis empty_iff list.set(1) list.set_intros(1) neq_Nil_conv)
  have written: "canonical_r_requirement constraint = ?s" using False by (simp add: canonical_r_requirement_def)
  have split: "split_on (\<lambda>c. c = CHR '','') ?s = map clause_text ?cs"
    using ne clause_text_shape(3) ready' by (intro split_on_join) auto
  obtain ds where ds: "try_map (parse_term field kind) (map clause_text ?cs) = Inr ds" "list_all2 same_clause ?cs ds"
    using parse_clause_texts[OF ready'] by blast
  have keys: "map clause_key ds = map clause_key ?cs" and texts: "map clause_text ds = map clause_text ?cs"
    using ds(2) by (induction rule: list_all2_induct) (simp_all add: same_clause_def clause_eq_key)
  have canonical: "canonical_clauses ds = ds"
    by (rule keys_canonical) (simp only: keys canonical_clause_keys(1))
  obtain c cs where cs: "?cs = c # cs" using ne by (cases ?cs) auto
  have c: "clause_ready kind c" using ready' cs by simp
  have hd: "hd ?s = hd (clause_text c)" "?s \<noteq> []" using clause_text_shape(2)[OF c] cs by (cases cs; simp)+
  have bytes: "b = CHR '','' \<or> (\<exists>c\<in>set ?cs. b \<in> set (clause_text c))" if "b \<in> set ?s" for b
    using set_join_str[OF that] by auto
  have ascii: "list_all is_ascii ?s"
    using bytes ready' clause_text_shape(1) by (fastforce simp: list_all_iff is_ascii_def byte_val_def)
  have "\<not> is_control (byte_val b)" if "b \<in> set ?s" for b
    using bytes[OF that] ready' clause_text_shape(5) by (auto simp: is_control_def byte_val_def)
  then have control: "\<not> list_ex is_control (chars ?s)" using ascii by (auto simp: chars_all_ascii list_ex_iff)
  have "clause_ready kind (last ?cs)" using ready' ne by simp
  then have "is_ascii_digit (last ?s)"
    using last_join_str[of "map clause_text ?cs" "'',''"] ne clause_text_shape(2,7)[of kind "last ?cs"] by (simp add: last_map)
  then have "trim ?s = ?s"
    using hd clause_text_shape(6)[OF c] digit_not_space by (intro trim_ascii ascii) (auto simp: is_whitespace_def byte_val_def)
  moreover have "?s \<noteq> ''*''" using hd clause_text_shape(6)[OF c] by auto
  ultimately have "parse_constraint ?s field kind = Inr (constraint_new ds)"
    using hd(2) control split ds(1) canonical by (simp add: parse_constraint_def canonicalize_constraint_def)
  moreover have "constraint_eq (canonicalize_constraint constraint) (constraint_new ds)"
    using ds(2) by (auto simp: constraint_eq_def canonicalize_constraint_def same_clause_def elim: list_all2_mono)
  moreover have "canonicalize_constraint (constraint_new ds) = constraint_new ds"
    using canonical by (simp add: canonicalize_constraint_def)
  moreover have "canonical_r_requirement (constraint_new ds) = ?s"
    using canonical texts ds(2) ne by (auto simp: canonical_r_requirement_def)
  ultimately show ?thesis using written by auto
qed

section \<open>Packages\<close>

text \<open>
  The values a lock is made of, as their constructors return them: every text is accepted and kept by
  its own constructor, and versions have the components their parser asks for.
\<close>

fun provenance_ready :: "(string \<Rightarrow> (bool \<times> string) option) \<Rightarrow> provenance \<Rightarrow> bool" where
  "provenance_ready ip (RegistryRelease ns v) = is_ok (opaque_identifier_new ''PackageNamespace'' ns)"
| "provenance_ready ip (BioconductorRelease ns r v) =
     (is_ok (opaque_identifier_new ''PackageNamespace'' ns) \<and> is_ok (opaque_identifier_new ''BioconductorRelease'' r))"
| "provenance_ready ip (GitCommit r c s) =
     (normalized_git_url_new ip r = Inr r \<and> git_commit_id_new (gc_hex c) = Inr c \<and>
      (\<forall>d. s = Some d \<longrightarrow> is_ok (repository_subdir_new d)))"
| "provenance_ready ip (ImmutableSource s d) = (is_ok (opaque_identifier_new ''SourceScheme'' s) \<and> sha256_digest_new d = Inr d)"
| "provenance_ready ip (RBasePackage v) = True"

definition git_source_ready :: "(string \<Rightarrow> (bool \<times> string) option) \<Rightarrow> locked_git_source \<Rightarrow> bool" where
  "git_source_ready ip s \<longleftrightarrow>
     normalized_git_url_new ip (gs_url s) = Inr (gs_url s) \<and>
     (\<forall>v. snd (encode_selector (gs_selector s)) = Some v \<longrightarrow> is_ok (validate_selector v [])) \<and>
     (\<forall>d. gs_subdirectory s = Some d \<longrightarrow> is_ok (repository_subdir_new d)) \<and>
     (\<forall>c\<in>set (clauses (gs_version_constraint s)). clause_ready ConstraintPackage c) \<and>
     canonicalize_constraint (gs_version_constraint s) = gs_version_constraint s"

definition package_ready :: "(string \<Rightarrow> (bool \<times> string) option) \<Rightarrow> locked_package \<Rightarrow> bool" where
  "package_ready ip p \<longleftrightarrow>
     is_ok (package_name_new (lp_name p)) \<and> provenance_ready ip (ri_provenance (lp_identity p)) \<and>
     2 \<le> length (version_components (lp_version p)) \<and>
     sha256_digest_new (lp_metadata_sha256 p) = Inr (lp_metadata_sha256 p) \<and>
     (\<forall>r\<in>set (lp_visible_repository_ids p). is_ok (opaque_identifier_new ''RepositoryId'' r)) \<and>
     (\<forall>s. lp_requested_git_source p = Some s \<longrightarrow> git_source_ready ip s)"

lemma opaque_kept: "is_ok (opaque_identifier_new kind s) \<Longrightarrow> opaque_identifier_new kind s = Inr s"
  by (auto simp: is_ok_iff opaque_identifier_new_def split: if_splits)

lemma subdir_kept: "is_ok (repository_subdir_new s) \<Longrightarrow> repository_subdir_new s = Inr s"
  by (auto simp: is_ok_iff repository_subdir_new_Inr_iff)

lemma name_kept: "is_ok (package_name_new s) \<Longrightarrow> package_name_new s = Inr s"
  by (auto simp: is_ok_iff package_name_new_Inr_iff)

text \<open>The provenance of a package whose version was read from the wire.\<close>

fun with_version :: "r_package_version \<Rightarrow> provenance \<Rightarrow> provenance" where
  "with_version w (RegistryRelease ns v) = RegistryRelease ns w"
| "with_version w (BioconductorRelease ns r v) = BioconductorRelease ns r w"
| "with_version w p = p"

lemma provenance_roundtrip:
  assumes "provenance_ready ip p" and "\<not> provenance_is_r_base_package p"
  shows "\<exists>s. encode_provenance p = Inr s \<and> decode_provenance ip s w = Inr (with_version w p) \<and>
    encode_provenance (with_version w p) = Inr s"
proof (cases p)
  case (GitCommit r c d)
  then show ?thesis using assms by (cases d) (auto simp: transpose_def dest!: subdir_kept)
qed (use assms in \<open>auto simp: wire_namespace_def dest!: opaque_kept\<close>)

lemma selector_roundtrip:
  assumes "\<forall>v. snd (encode_selector s) = Some v \<longrightarrow> is_ok (validate_selector v [])"
  shows "decode_selector (fst (encode_selector s)) (snd (encode_selector s)) = Inr s"
  using assms by (cases s) (auto simp: decode_selector_def Let_def validate_selector_def is_ok_iff split: if_splits)

lemma git_source_roundtrip:
  assumes "git_source_ready ip s"
  shows "\<exists>t. decode_requested_git_source ip (encode_requested_git_source s) = Inr t \<and> git_source_eq s t \<and>
    encode_requested_git_source t = encode_requested_git_source s"
proof -
  obtain d where d: "parse_package_constraint (canonical_r_requirement (gs_version_constraint s))
        ''package.requested-git-source.version-constraint'' = Inr d"
      "constraint_eq (gs_version_constraint s) d"
      "canonical_r_requirement d = canonical_r_requirement (gs_version_constraint s)"
    using parse_canonical_requirement[of "gs_version_constraint s" ConstraintPackage] assms
    unfolding git_source_ready_def parse_package_constraint_def by metis
  have sub: "transpose (map_option repository_subdir_new (gs_subdirectory s)) = Inr (gs_subdirectory s)"
    using assms by (cases "gs_subdirectory s") (auto simp: git_source_ready_def transpose_def dest!: subdir_kept)
  have url: "normalized_git_url_new ip (gs_url s) = Inr (gs_url s)"
    and sel: "decode_selector (fst (encode_selector (gs_selector s))) (snd (encode_selector (gs_selector s))) = Inr (gs_selector s)"
    using assms selector_roundtrip by (auto simp: git_source_ready_def)
  let ?t = "s\<lparr>gs_version_constraint := d\<rparr>"
  have "encode_requested_git_source ?t = encode_requested_git_source s"
    using d(3) by (simp add: encode_requested_git_source_def)
  moreover have "git_source_eq s ?t" using d(2) by (simp add: git_source_eq_def)
  moreover have "decode_requested_git_source ip (encode_requested_git_source s) = Inr ?t"
    using url sel sub d(1,3)
    by (cases s) (simp add: decode_requested_git_source_def encode_requested_git_source_def Let_def case_prod_beta)
  ultimately show ?thesis by blast
qed

text \<open>The version on the wire: the published spelling, or the canonical one.\<close>

definition wire_spelling :: "locked_package \<Rightarrow> string" where
  "wire_spelling p =
     (case lp_published_version_spelling p of Some s \<Rightarrow> s | None \<Rightarrow> canonical_version (lp_version p))"

lemma parsed_length: "parse_version s = Inr v \<Longrightarrow> 2 \<le> length (version_components v)"
  by (auto simp: parse_version_def parse_with_minimum_Inr_iff version_components_stored)

lemma wire_spelling_parsed:
  assumes "package_validate p = Inr ()" and "2 \<le> length (version_components (lp_version p))"
  shows "\<exists>w. parse_version (wire_spelling p) = Inr w \<and> version_eq (lp_version p) w \<and>
    canonical_version w = canonical_version (lp_version p) \<and>
    lp_published_version_spelling p = (if canonical_version w \<noteq> wire_spelling p then Some (wire_spelling p) else None)"
proof (cases "lp_published_version_spelling p")
  case None
  have "version_components (lp_version p) \<noteq> []" using assms(2) by auto
  from parse_canonical[OF this assms(2) order.refl] None show ?thesis
    by (auto simp: wire_spelling_def parse_version_def)
next
  case (Some s)
  have "validate_spelling p = Inr ()"
    using assms(1) by (auto simp: package_validate_def bind_res_Inr_iff split: if_splits)
  then obtain w where w: "parse_version s = Inr w" "version_eq w (lp_version p)" "s \<noteq> canonical_version (lp_version p)"
    using Some by (auto simp: validate_spelling_def bind_res_Inr_iff split: if_splits)
  have "version_eq (lp_version p) w" using w(2) vers_eq.eq_sym by blast
  moreover have "canonical_version w = canonical_version (lp_version p)"
    by (rule canonical_version_cong[OF w(2) parsed_length[OF w(1)] assms(2)])
  ultimately show ?thesis using w Some by (auto simp: wire_spelling_def)
qed

text \<open>A package after a round trip.\<close>

definition same_package :: "locked_package \<Rightarrow> locked_package \<Rightarrow> bool" where
  "same_package p q \<longleftrightarrow>
     locked_package_eq p q \<and> package_ok q \<and> lp_name q = lp_name p \<and>
     lp_dependencies q = lp_dependencies p \<and>
     (\<forall>names. encode_package names q = encode_package names p)"

lemma with_version_eq:
  assumes "\<forall>v. registry_version p = Some v \<longrightarrow> version_eq v w"
  shows "provenance_eq p (with_version w p)"
  using assms by (cases p) (auto simp: registry_version_def vers_eq.eq_refl)

lemma with_version_facts:
  "provenance_is_r_base_package (with_version w p) = provenance_is_r_base_package p"
  "registry_version (with_version w p) = map_option (\<lambda>_. w) (registry_version p)"
  "with_version w p = GitCommit a b c \<longleftrightarrow> p = GitCommit a b c"
  by (cases p; simp add: registry_version_def)+

lemma git_validation_kept:
  assumes "validate_git_source p = Inr ()" and "rel_option git_source_eq (lp_requested_git_source p) r"
    and "version_eq (lp_version p) w"
  shows "validate_git_source
    (p\<lparr>lp_identity := release_identity_new n (with_version w (ri_provenance (lp_identity p))),
       lp_version := w, lp_requested_git_source := r\<rparr>) = Inr ()"
proof (cases "lp_requested_git_source p")
  case None
  then show ?thesis using assms(2) by (cases r) (auto simp: validate_git_source_def)
next
  case (Some s)
  then obtain t where t: "r = Some t" "git_source_eq s t" using assms(2) by (cases r) auto
  have m: "git_source_matches p s" "revision_matches p s"
    using assms(1) Some by (auto simp: validate_git_source_def split: if_splits)
  obtain a c d where prov: "ri_provenance (lp_identity p) = GitCommit a c d" "a = gs_url s" "d = gs_subdirectory s"
      "satisfies (gs_version_constraint s) (lp_version p)"
    using m(1) by (auto simp: git_source_matches_def split: provenance.splits)
  have "satisfies (gs_version_constraint t) w"
    using prov(4) t(2) constraint_eq_satisfies satisfies_cong[OF assms(3)] by (auto simp: git_source_eq_def)
  then show ?thesis
    using m(2) prov t
    by (auto simp: validate_git_source_def git_source_matches_def revision_matches_def git_source_eq_def
        release_identity_new_def split: locked_git_selector.splits sum.splits)
qed

lemma dependency_roundtrip:
  assumes "is_ok (package_name_new (ld_package d))"
  shows "decode_dependency \<lparr>wd_kind = encode_dependency_kind (ld_kind d), wd_package = ld_package d\<rparr> = Inr d"
  using name_kept[OF assms] by (cases d; cases "ld_kind d") (simp_all add: decode_dependency_def decode_dependency_kind_def)

lemma try_map_id: "\<forall>x\<in>set xs. f (g x) = Inr x \<Longrightarrow> try_map f (map g xs) = Inr xs"
  by (induction xs) auto

lemma try_map_self: "(\<And>x. x \<in> set xs \<Longrightarrow> f x = Inr x) \<Longrightarrow> try_map f xs = Inr xs"
  by (induction xs) auto

lemma requested_roundtrip:
  assumes "\<forall>s. r = Some s \<longrightarrow> git_source_ready ip s"
  shows "\<exists>t. transpose (map_option (decode_requested_git_source ip) (map_option encode_requested_git_source r)) = Inr t \<and>
    rel_option git_source_eq r t \<and> map_option encode_requested_git_source t = map_option encode_requested_git_source r"
proof (cases r)
  case (Some s)
  then obtain t where "decode_requested_git_source ip (encode_requested_git_source s) = Inr t" "git_source_eq s t"
      "encode_requested_git_source t = encode_requested_git_source s"
    using git_source_roundtrip assms by blast
  then show ?thesis using Some by (auto simp: transpose_def)
qed (simp add: transpose_def)

lemma package_roundtrip:
  assumes ok: "package_ok p" and ready: "package_ready ip p"
    and deps: "\<forall>d\<in>set (lp_dependencies p). ld_package d \<in> set names \<and> is_ok (package_name_new (ld_package d))"
  shows "\<exists>wire q. encode_package names p = Inr wire \<and> decode_package ip wire = Inr q \<and> same_package p q"
proof -
  let ?prov = "ri_provenance (lp_identity p)"
  have valid: "package_validate p = Inr ()" and git: "validate_git_source p = Inr ()"
    and base: "\<not> provenance_is_r_base_package ?prov"
    and reg: "\<And>v. registry_version ?prov = Some v \<Longrightarrow> version_eq v (lp_version p)"
    using ok by (auto simp: package_ok_def package_validate_def bind_res_Inr_iff split: if_splits)
  obtain w where w: "parse_version (wire_spelling p) = Inr w" "version_eq (lp_version p) w"
      "canonical_version w = canonical_version (lp_version p)"
      "lp_published_version_spelling p = (if canonical_version w \<noteq> wire_spelling p then Some (wire_spelling p) else None)"
    using wire_spelling_parsed[OF valid] ready by (auto simp: package_ready_def)
  have prov_ready: "provenance_ready ip ?prov" using ready by (simp add: package_ready_def)
  obtain s where s: "encode_provenance ?prov = Inr s" "decode_provenance ip s w = Inr (with_version w ?prov)"
      "encode_provenance (with_version w ?prov) = Inr s"
    using provenance_roundtrip[OF prov_ready base, of w] by blast
  obtain t where t: "transpose (map_option (decode_requested_git_source ip)
        (map_option encode_requested_git_source (lp_requested_git_source p))) = Inr t"
      "rel_option git_source_eq (lp_requested_git_source p) t"
      "map_option encode_requested_git_source t = map_option encode_requested_git_source (lp_requested_git_source p)"
    using requested_roundtrip[of "lp_requested_git_source p" ip] ready by (auto simp: package_ready_def)
  define q where "q = p\<lparr>lp_identity := release_identity_new (lp_name p) (with_version w ?prov),
       lp_version := w, lp_requested_git_source := t\<rparr>"
  define wire where "wire = \<lparr>wp_name = lp_name p, wp_version = wire_spelling p, wp_source = s,
       wp_metadata_sha256 = lp_metadata_sha256 p,
       wp_dependencies = map (\<lambda>d. \<lparr>wd_kind = encode_dependency_kind (ld_kind d), wd_package = ld_package d\<rparr>) (lp_dependencies p),
       wp_visible_repository_ids = lp_visible_repository_ids p,
       wp_requested_git_source = map_option encode_requested_git_source (lp_requested_git_source p)\<rparr>"
  have "filter (\<lambda>d. ld_package d \<in> set names) (lp_dependencies p) = lp_dependencies p"
    using deps by (simp add: filter_id_conv)
  then have enc: "encode_package names p = Inr wire"
    using s(1) by (simp add: encode_package_def wire_def wire_spelling_def)
  have "try_map (\<lambda>v. map_err (\<lambda>e. InvalidWireField ''package.visible-repository-ids'' (identifier_error_display e))
      (opaque_identifier_new ''RepositoryId'' v)) (lp_visible_repository_ids p) = Inr (lp_visible_repository_ids p)"
    by (rule try_map_self) (use ready opaque_kept in \<open>auto simp: package_ready_def\<close>)
  moreover have "try_map decode_dependency (wp_dependencies wire) = Inr (lp_dependencies p)"
    unfolding wire_def using deps dependency_roundtrip by (simp add: try_map_id)
  moreover have "package_name_new (lp_name p) = Inr (lp_name p)" "sha256_digest_new (lp_metadata_sha256 p) = Inr (lp_metadata_sha256 p)"
    using ready name_kept by (simp_all add: package_ready_def)
  ultimately have dec: "decode_package ip wire = Inr q"
    using w(1) s(2) t(1) unfolding decode_package_def q_def
    by (simp add: wire_def wire_parse_version_def w(4)[symmetric] split del: if_split cong: if_cong)
  have q_fields: "lp_name q = lp_name p" "lp_dependencies q = lp_dependencies p" "lp_version q = w"
      "lp_visible_repository_ids q = lp_visible_repository_ids p" "ri_provenance (lp_identity q) = with_version w ?prov"
      "lp_published_version_spelling q = lp_published_version_spelling p" "lp_metadata_sha256 q = lp_metadata_sha256 p"
      "lp_requested_git_source q = t"
    by (simp_all add: q_def lp_name_def release_identity_new_def)
  have "version_eq v w" if "registry_version ?prov = Some v" for v using reg[OF that] w(2) vers_eq.eq_trans by blast
  then have prov_eq: "provenance_eq ?prov (with_version w ?prov)" by (intro with_version_eq) blast
  have "locked_package_eq p q"
    using prov_eq w(2) t(2) q_fields
    by (simp add: locked_package_eq_def identity_eq_def lp_name_def)
  moreover have "package_validate q = Inr ()"
  proof -
    have "validate_git_source q = Inr ()" unfolding q_def by (rule git_validation_kept[OF git t(2) w(2)])
    moreover have "validate_spelling q = Inr ()"
      using w(1,3,4) q_fields(3,6) by (auto simp: validate_spelling_def vers_eq.eq_refl)
    ultimately show ?thesis
      using base q_fields by (auto simp: package_validate_def with_version_facts vers_eq.eq_refl split: option.splits)
  qed
  moreover have "encode_package ns q = encode_package ns p" for ns
    using s(1,3) t(3) w(3) q_fields by (simp add: encode_package_def split: option.split)
  ultimately have "same_package p q"
    using ok q_fields by (simp add: same_package_def package_ok_def)
  then show ?thesis using enc dec by blast
qed

section \<open>Locks\<close>

text \<open>The values of a lock came out of their constructors, so each of them can be read back.\<close>

definition lock_ready ::
  "(string \<Rightarrow> (bool \<times> string) option) \<Rightarrow> (string \<Rightarrow> string + publication_date) \<Rightarrow> (publication_date \<Rightarrow> string) \<Rightarrow>
   lockfile \<Rightarrow> bool" where
  "lock_ready ip strptime strftime lock \<longleftrightarrow>
     (let r = lf_resolution lock in
      sha256_digest_new (lf_resolution_intent_sha256 lock) = Inr (lf_resolution_intent_sha256 lock) \<and>
      environment_id_new (lk_environment r) = Inr (lk_environment r) \<and>
      (\<forall>d. lk_publication_cutoff r = Some d \<longrightarrow> publication_date_parse strptime strftime (strftime d) = Inr d) \<and>
      version_components (rt_r_version (lk_target r)) \<noteq> [] \<and>
      (\<forall>c\<in>set (clauses (lf_r_requirement lock)). clause_ready ConstraintR c) \<and>
      (\<forall>p\<in>set (lk_packages r). package_ready ip p))"

text \<open>The derived equality of \<^verbatim>\<open>Lockfile\<close>.\<close>

definition lockfile_eq :: "lockfile \<Rightarrow> lockfile \<Rightarrow> bool" where
  "lockfile_eq a b \<longleftrightarrow>
     lf_resolution_intent_sha256 a = lf_resolution_intent_sha256 b \<and>
     constraint_eq (lf_r_requirement a) (lf_r_requirement b) \<and>
     target_eq (lk_target (lf_resolution a)) (lk_target (lf_resolution b)) \<and>
     lk_environment (lf_resolution a) = lk_environment (lf_resolution b) \<and>
     lk_publication_cutoff (lf_resolution a) = lk_publication_cutoff (lf_resolution b) \<and>
     list_all2 locked_package_eq (lk_packages (lf_resolution a)) (lk_packages (lf_resolution b))"

lemma try_map_related:
  assumes "\<forall>x\<in>set xs. \<exists>w y. f x = Inr w \<and> g w = Inr y \<and> R x y"
  shows "\<exists>ws ys. try_map f xs = Inr ws \<and> try_map g ws = Inr ys \<and> list_all2 R xs ys"
  using assms
proof (induction xs)
  case (Cons x xs)
  then obtain ws ys w y where "try_map f xs = Inr ws" "try_map g ws = Inr ys" "list_all2 R xs ys"
      "f x = Inr w" "g w = Inr y" "R x y" by fastforce
  then have "try_map f (x # xs) = Inr (w # ws)" "try_map g (w # ws) = Inr (y # ys)" "list_all2 R (x # xs) (y # ys)"
    by simp_all
  then show ?case by blast
qed simp

lemma same_packages:
  assumes "list_all2 same_package ps qs"
  shows "map lp_name qs = map lp_name ps" "list_all2 locked_package_eq ps qs"
    "packages_ok ps \<Longrightarrow> packages_ok qs" "try_map (encode_package ns) qs = try_map (encode_package ns) ps"
proof -
  show names: "map lp_name qs = map lp_name ps"
    using assms by (induction rule: list_all2_induct) (auto simp: same_package_def)
  show "list_all2 locked_package_eq ps qs"
    using assms by (rule list_all2_mono) (simp add: same_package_def)
  show "try_map (encode_package ns) qs = try_map (encode_package ns) ps"
    using assms by (induction rule: list_all2_induct) (auto simp: same_package_def)
  have each: "\<forall>q\<in>set qs. package_ok q \<and> (\<exists>p\<in>set ps. lp_dependencies q = lp_dependencies p)"
    using assms by (induction rule: list_all2_induct) (auto simp: same_package_def)
  show "packages_ok qs" if "packages_ok ps"
    using that each names unfolding packages_ok_def by (metis list.set_map)
qed

lemma cutoff_roundtrip:
  assumes "\<forall>d. c = Some d \<longrightarrow> publication_date_parse strptime strftime (strftime d) = Inr d"
  shows "transpose (map_option (\<lambda>v. map_err f (publication_date_parse strptime strftime v)) (map_option strftime c)) = Inr c"
  using assms by (cases c) (auto simp: transpose_def)

lemma lock_roundtrip:
  assumes ok: "lock_ok lock" and ready: "lock_ready ip strptime strftime lock"
  shows "\<exists>w lock'. encode_lockfile strftime lock = Inr w \<and> decode_lockfile ip strptime strftime w = Inr lock' \<and>
    lock_ok lock' \<and> lockfile_eq lock lock' \<and> encode_lockfile strftime lock' = Inr w"
proof -
  define r where "r = lf_resolution lock"
  let ?names = "map lp_name (lk_packages r)"
  have packages: "packages_ok (lk_packages r)"
    and sat: "satisfies (lf_r_requirement lock) (rt_r_version (lk_target r))"
    and canon: "canonicalize_constraint (lf_r_requirement lock) = lf_r_requirement lock"
    using ok by (simp_all add: lock_ok_def r_def)
  have p_ready: "package_ready ip p" if "p \<in> set (lk_packages r)" for p
    using ready that by (simp add: lock_ready_def r_def Let_def)
  have each: "\<exists>wire q. encode_package ?names p = Inr wire \<and> decode_package ip wire = Inr q \<and> same_package p q"
    if p: "p \<in> set (lk_packages r)" for p
  proof (rule package_roundtrip[OF _ p_ready[OF p]])
    show "package_ok p" using packages p by (simp add: packages_ok_def)
    show "\<forall>d\<in>set (lp_dependencies p). ld_package d \<in> set ?names \<and> is_ok (package_name_new (ld_package d))"
      using packages p p_ready by (fastforce simp: packages_ok_def package_ready_def)
  qed
  obtain ws qs where ws: "try_map (encode_package ?names) (lk_packages r) = Inr ws"
      "try_map (decode_package ip) ws = Inr qs" and same: "list_all2 same_package (lk_packages r) qs"
    using try_map_related[of "lk_packages r" "encode_package ?names" "decode_package ip" same_package] each by blast
  obtain v where v: "parse_bare (canonical_version (rt_r_version (lk_target r))) = Inr v"
      "version_eq (rt_r_version (lk_target r)) v" "canonical_version v = canonical_version (rt_r_version (lk_target r))"
    using parse_canonical[of "rt_r_version (lk_target r)" 1] ready
    by (auto simp: lock_ready_def r_def Let_def parse_bare_def Suc_le_eq)
  have requirement: "\<forall>c\<in>set (clauses (lf_r_requirement lock)). clause_ready ConstraintR c"
    using ready by (simp add: lock_ready_def Let_def)
  obtain d where d: "parse_r_constraint (canonical_r_requirement (lf_r_requirement lock)) ''r-requirement'' = Inr d"
      "constraint_eq (lf_r_requirement lock) d" "canonicalize_constraint d = d"
      "canonical_r_requirement d = canonical_r_requirement (lf_r_requirement lock)"
    using parse_canonical_requirement[of "lf_r_requirement lock" ConstraintR "''r-requirement''", OF requirement]
    unfolding canon parse_r_constraint_def by blast
  define lock' where "lock' =
    lock\<lparr>lf_r_requirement := d, lf_resolution := r\<lparr>lk_target := \<lparr>rt_r_version = v\<rparr>, lk_packages := qs\<rparr>\<rparr>"
  have "satisfies d v"
    using sat constraint_eq_satisfies[OF d(2)] satisfies_cong[OF v(2)] by simp
  then have ok': "lock_ok lock'"
    using same_packages(3)[OF same packages] d(3) by (simp add: lock_ok_def lock'_def)
  have fields: "sha256_digest_new (lf_resolution_intent_sha256 lock) = Inr (lf_resolution_intent_sha256 lock)"
      "environment_id_new (lk_environment r) = Inr (lk_environment r)"
    and cutoff: "\<forall>d. lk_publication_cutoff r = Some d \<longrightarrow> publication_date_parse strptime strftime (strftime d) = Inr d"
    using ready by (simp_all add: lock_ready_def r_def Let_def)
  have new: "lockfile_new (lf_resolution_intent_sha256 lock) (lf_r_requirement lock) r = Inr lock"
    "lockfile_new (lf_resolution_intent_sha256 lock') (lf_r_requirement lock') (lf_resolution lock') = Inr lock'"
    using lock_ok_new[OF ok] lock_ok_new[OF ok'] by (simp_all add: r_def)
  define w where "w = \<lparr>wl_version = schema_version, wl_r_version = canonical_version (rt_r_version (lk_target r)),
    wl_resolution_intent_sha256 = lf_resolution_intent_sha256 lock,
    wl_r_requirement = canonical_r_requirement (lf_r_requirement lock), wl_environment = lk_environment r,
    wl_publication_cutoff = map_option strftime (lk_publication_cutoff r), wl_packages = ws\<rparr>"
  have "encode_lockfile strftime lock = Inr w"
    using new(1) ws(1) by (simp add: encode_lockfile_def Let_def w_def r_def)
  moreover have "encode_lockfile strftime lock' = Inr w"
    using new(2) ws(1) same_packages(1,4)[OF same] v(3) d(4)
    by (simp add: encode_lockfile_def Let_def w_def lock'_def)
  moreover have "decode_resolution ip strptime strftime w =
      Inr (lf_resolution lock', lf_resolution_intent_sha256 lock', lf_r_requirement lock')"
    using fields v d ws(2)
      cutoff_roundtrip[OF cutoff, of "\<lambda>e. InvalidWireField ''publication-cutoff'' (publication_date_error_display e)"]
    by (cases lock; cases r)
      (simp add: decode_resolution_def parse_canonical_r_version_field_def w_def lock'_def)
  then have "decode_lockfile ip strptime strftime w = Inr lock'"
    using packages_ok_valid(2)[of lock'] ok' new(2) by (simp add: decode_lockfile_def w_def lock_ok_def)
  moreover have "lockfile_eq lock lock'"
    using d(2) v(2) same_packages(2)[OF same] by (simp add: lockfile_eq_def lock'_def target_eq_def r_def)
  ultimately show ?thesis using ok' by blast
qed

end
