(* ===== verification/Lock_Toml.thy ===== *)
theory Lock_Toml
  imports Lock_Text Manifest_Wire
begin

text \<open>
  The text of a lock.  \<^verbatim>\<open>wire.rs\<close> writes its TOML by hand and reads it with \<^verbatim>\<open>toml::from_str\<close>.  The first part
  is a reader for the TOML that such a file can hold, written from the TOML specification and not from
  the serializer: bare keys, strings, decimal integers, arrays and inline tables on one line, comments and
  arrays of tables.  How a quoted string is spelled is the \<^verbatim>\<open>toml\<close> crate's business: \<open>lexer\<close> reads one at the
  beginning of a text and returns its value and the rest.  The second part is what serde derives for the
  wire structs.  The third shows that the serializer's output is read back into the structs it came from.
\<close>

section \<open>Reading TOML\<close>

type_synonym string_lexer = "string \<Rightarrow> (string \<times> string) option"
type_synonym 'a reader = "string \<Rightarrow> ('a \<times> string) option"

definition skip_blanks :: "string \<Rightarrow> string" where
  "skip_blanks s = dropWhile (\<lambda>c. c = CHR '' '' \<or> c = CHR 0x09) s"

definition bare_key_char :: "char \<Rightarrow> bool" where
  "bare_key_char c \<longleftrightarrow> is_ascii_alphanumeric c \<or> c = CHR ''_'' \<or> c = CHR ''-''"

definition read_key :: "string reader" where
  "read_key s =
     (let k = takeWhile bare_key_char s in if k = [] then None else Some (k, dropWhile bare_key_char s))"

definition read_entry :: "toml_value reader \<Rightarrow> (string \<times> toml_value) reader" where
  "read_entry rd s =
     Option.bind (read_key s) (\<lambda>(k, r).
       case skip_blanks r of
         [] \<Rightarrow> None
       | c # r' \<Rightarrow>
           if c = CHR ''='' then map_option (\<lambda>(v, t). ((k, v), t)) (rd (skip_blanks r')) else None)"

text \<open>Items between commas, up to the closing bracket.\<close>

function read_items :: "'a reader \<Rightarrow> char \<Rightarrow> 'a list reader" where
  "read_items item close s =
     Option.bind (item (skip_blanks s)) (\<lambda>(x, r).
       case skip_blanks r of
         [] \<Rightarrow> None
       | c # r' \<Rightarrow>
           if c = close then Some ([x], r')
           else if c = CHR '','' \<and> length r' < length s
           then map_option (\<lambda>(xs, t). (x # xs, t)) (read_items item close r')
           else None)"
  by pat_completeness auto
termination
  by (relation "measure (\<lambda>(item, close, s). length s)") auto

declare read_items.simps [simp del]

definition read_list :: "'a reader \<Rightarrow> char \<Rightarrow> 'a list reader" where
  "read_list item close s =
     (case skip_blanks s of
        [] \<Rightarrow> None
      | c # r \<Rightarrow> if c = close then Some ([], r) else read_items item close s)"

text \<open>A decimal integer without leading zeros; what follows cannot belong to a date or a float.\<close>

definition read_integer :: "toml_value reader" where
  "read_integer s =
     (let ds = takeWhile is_ascii_digit s; r = dropWhile is_ascii_digit s in
      if (hd ds = CHR ''0'' \<and> length ds > 1) \<or> r \<noteq> [] \<and> hd r \<notin> set ('' ,]}'' @ [CHR 0x09, CHR 0x0A]) then None
      else Some (TomlInteger (int (foldl (\<lambda>n d. 10 * n + (byte_val d - 48)) 0 ds)), r))"

text \<open>A value, with the depth to which arrays and tables may nest.\<close>

primrec read_value :: "nat \<Rightarrow> string_lexer \<Rightarrow> toml_value reader" where
  "read_value 0 lexer s = None"
| "read_value (Suc depth) lexer s =
     (case s of
        [] \<Rightarrow> None
      | c # r \<Rightarrow>
          if c = CHR ''['' then map_option (\<lambda>(vs, t). (TomlArray vs, t)) (read_list (read_value depth lexer) (CHR '']'') r)
          else if c = CHR ''{'' then
            Option.bind (read_list (read_entry (read_value depth lexer)) (CHR ''}'') r) (\<lambda>(es, t).
              if distinct (map fst es) then Some (TomlTable es, t) else None)
          else if is_ascii_digit c then read_integer s
          else map_option (\<lambda>(v, t). (TomlString v, t)) (lexer s))"

datatype toml_item = TomlEntry string toml_value | TomlHeader string

definition line_end :: "string \<Rightarrow> string option" where
  "line_end s = (case skip_blanks s of [] \<Rightarrow> Some [] | c # r \<Rightarrow> if c = CHR 0x0A then Some r else None)"

definition comment_text :: "char \<Rightarrow> bool" where
  "comment_text c \<longleftrightarrow> c = CHR 0x09 \<or> 32 \<le> byte_val c \<and> byte_val c \<noteq> 127"

text \<open>The item a line starts with, if it has one, and the text behind the line.\<close>

definition read_line :: "string_lexer \<Rightarrow> toml_item option reader" where
  "read_line lexer s =
     (let t = skip_blanks s in
      case t of
        [] \<Rightarrow> Some (None, [])
      | c # r \<Rightarrow>
          if c = CHR 0x0A then Some (None, r)
          else if c = CHR ''#'' then
            map_option (\<lambda>rest. (None, rest)) (line_end (dropWhile comment_text r))
          else if c = CHR ''['' then
            (if starts_with ''['' r then
               Option.bind (read_key (skip_blanks (tl r))) (\<lambda>(k, u).
                 if starts_with '']]'' (skip_blanks u)
                 then map_option (\<lambda>rest. (Some (TomlHeader k), rest)) (line_end (drop 2 (skip_blanks u)))
                 else None)
             else None)
          else
            Option.bind (read_entry (read_value 3 lexer) t) (\<lambda>((k, v), u).
              map_option (\<lambda>rest. (Some (TomlEntry k v), rest)) (line_end u)))"

function read_lines :: "string_lexer \<Rightarrow> string \<Rightarrow> toml_item list option" where
  "read_lines lexer s =
     (if s = [] then Some []
      else Option.bind (read_line lexer s) (\<lambda>(item, rest).
        if length rest < length s
        then map_option (\<lambda>is. (case item of Some i \<Rightarrow> i # is | None \<Rightarrow> is)) (read_lines lexer rest)
        else None))"
  by pat_completeness auto
termination
  by (relation "measure (\<lambda>(lexer, s). length s)") auto

declare read_lines.simps [simp del]

fun leading_entries :: "toml_item list \<Rightarrow> toml_table" where
  "leading_entries (TomlEntry k v # items) = (k, v) # leading_entries items"
| "leading_entries _ = []"

fun header_tables :: "toml_item list \<Rightarrow> (string \<times> toml_table) list" where
  "header_tables [] = []"
| "header_tables (TomlHeader name # items) = (name, leading_entries items) # header_tables items"
| "header_tables (TomlEntry _ _ # items) = header_tables items"

text \<open>The entries before the first header, and an array of tables for every name that heads some.\<close>

definition toml_document :: "toml_item list \<Rightarrow> toml_table option" where
  "toml_document items =
     (let top = leading_entries items; tables = header_tables items; names = remdups (map fst tables) in
      if distinct (map fst top @ names) \<and> list_all (\<lambda>t. distinct (map fst (snd t))) tables
      then Some (top @ map (\<lambda>n. (n, TomlArray (map (\<lambda>t. TomlTable (snd t)) (filter (\<lambda>t. fst t = n) tables)))) names)
      else None)"

definition read_document :: "string_lexer \<Rightarrow> string \<Rightarrow> toml_table option" where
  "read_document lexer s = Option.bind (read_lines lexer s) toml_document"

section \<open>Deserialization of the wire structs\<close>

text \<open>
  The derived \<^verbatim>\<open>Deserialize\<close>: every field by its kebab-case name, an absent \<^verbatim>\<open>Option\<close> as \<^verbatim>\<open>None\<close>, and no
  field the struct does not have.
\<close>

definition toml_elements :: "(toml_value \<Rightarrow> 'a option) \<Rightarrow> toml_value \<Rightarrow> 'a list option" where
  "toml_elements f v = (case v of TomlArray vs \<Rightarrow> those (map f vs) | _ \<Rightarrow> None)"

definition toml_u32 :: "toml_value \<Rightarrow> u32 option" where
  "toml_u32 v = (case v of TomlInteger n \<Rightarrow> if 0 \<le> n \<and> n < 2 ^ 32 then Some (word_of_int n) else None | _ \<Rightarrow> None)"

definition field_value :: "toml_table \<Rightarrow> string \<Rightarrow> (toml_value \<Rightarrow> 'a option) \<Rightarrow> 'a option" where
  "field_value t name f = Option.bind (map_of t name) f"

definition field_option :: "toml_table \<Rightarrow> string \<Rightarrow> (toml_value \<Rightarrow> 'a option) \<Rightarrow> 'a option option" where
  "field_option t name f = (case map_of t name of None \<Rightarrow> Some None | Some v \<Rightarrow> map_option Some (f v))"

definition only_fields :: "string list \<Rightarrow> toml_table \<Rightarrow> bool" where
  "only_fields names t = list_all (\<lambda>e. fst e \<in> set names) t"

definition wire_source_of :: "toml_value \<Rightarrow> wire_source option" where
  "wire_source_of v =
     Option.bind (as_table v) (\<lambda>t.
     Option.bind (field_value t ''kind'' as_str) (\<lambda>kind.
       if kind = ''registry'' \<and> only_fields [''kind'', ''namespace''] t then
         map_option WireRegistry (field_value t ''namespace'' as_str)
       else if kind = ''bioconductor'' \<and> only_fields [''kind'', ''namespace'', ''release''] t then
         Option.bind (field_value t ''namespace'' as_str) (\<lambda>ns.
           map_option (WireBioconductor ns) (field_value t ''release'' as_str))
       else if kind = ''git'' \<and> only_fields [''kind'', ''repository'', ''commit'', ''subdirectory''] t then
         Option.bind (field_value t ''repository'' as_str) (\<lambda>repository.
         Option.bind (field_value t ''commit'' as_str) (\<lambda>commit.
           map_option (WireGit repository commit) (field_option t ''subdirectory'' as_str)))
       else if kind = ''immutable'' \<and> only_fields [''kind'', ''scheme'', ''digest''] t then
         Option.bind (field_value t ''scheme'' as_str) (\<lambda>scheme.
           map_option (WireImmutable scheme) (field_value t ''digest'' as_str))
       else None))"

definition wire_dependency_of :: "toml_value \<Rightarrow> wire_dependency option" where
  "wire_dependency_of v =
     Option.bind (as_table v) (\<lambda>t.
       if \<not> only_fields [''kind'', ''package''] t then None
       else
         Option.bind (field_value t ''kind'' as_str) (\<lambda>kind.
           map_option (\<lambda>package. \<lparr>wd_kind = kind, wd_package = package\<rparr>) (field_value t ''package'' as_str)))"

definition wire_requested_git_source_of :: "toml_value \<Rightarrow> wire_requested_git_source option" where
  "wire_requested_git_source_of v =
     Option.bind (as_table v) (\<lambda>t.
       if \<not> only_fields [''url'', ''selector'', ''selector-value'', ''subdirectory'', ''version-constraint''] t then None
       else
         Option.bind (field_value t ''url'' as_str) (\<lambda>url.
         Option.bind (field_value t ''selector'' as_str) (\<lambda>selector.
         Option.bind (field_option t ''selector-value'' as_str) (\<lambda>selector_value.
         Option.bind (field_option t ''subdirectory'' as_str) (\<lambda>subdirectory.
           map_option (\<lambda>version_constraint.
             \<lparr>wg_url = url, wg_selector = selector, wg_selector_value = selector_value,
              wg_subdirectory = subdirectory, wg_version_constraint = version_constraint\<rparr>)
             (field_value t ''version-constraint'' as_str))))))"

definition wire_package_of :: "toml_value \<Rightarrow> wire_package option" where
  "wire_package_of v =
     Option.bind (as_table v) (\<lambda>t.
       if \<not> only_fields [''name'', ''version'', ''source'', ''metadata-sha256'', ''dependencies'',
             ''visible-repository-ids'', ''requested-git-source''] t then None
       else
         Option.bind (field_value t ''name'' as_str) (\<lambda>name.
         Option.bind (field_value t ''version'' as_str) (\<lambda>version.
         Option.bind (field_value t ''source'' wire_source_of) (\<lambda>source.
         Option.bind (field_value t ''metadata-sha256'' as_str) (\<lambda>metadata_sha256.
         Option.bind (field_value t ''dependencies'' (toml_elements wire_dependency_of)) (\<lambda>dependencies.
         Option.bind (field_value t ''visible-repository-ids'' (toml_elements as_str)) (\<lambda>repositories.
           map_option (\<lambda>requested.
             \<lparr>wp_name = name, wp_version = version, wp_source = source, wp_metadata_sha256 = metadata_sha256,
              wp_dependencies = dependencies, wp_visible_repository_ids = repositories,
              wp_requested_git_source = requested\<rparr>)
             (field_option t ''requested-git-source'' wire_requested_git_source_of))))))))"

definition wire_lockfile_of :: "toml_table \<Rightarrow> wire_lockfile option" where
  "wire_lockfile_of t =
     (if \<not> only_fields [''version'', ''r-version'', ''resolution-intent-sha256'', ''r-requirement'', ''environment'',
           ''publication-cutoff'', ''packages''] t then None
      else
        Option.bind (field_value t ''version'' toml_u32) (\<lambda>version.
        Option.bind (field_value t ''r-version'' as_str) (\<lambda>r_version.
        Option.bind (field_value t ''resolution-intent-sha256'' as_str) (\<lambda>intent.
        Option.bind (field_value t ''r-requirement'' as_str) (\<lambda>r_requirement.
        Option.bind (field_value t ''environment'' as_str) (\<lambda>environment.
        Option.bind (field_option t ''publication-cutoff'' as_str) (\<lambda>cutoff.
          map_option (\<lambda>packages.
            \<lparr>wl_version = version, wl_r_version = r_version, wl_resolution_intent_sha256 = intent,
             wl_r_requirement = r_requirement, wl_environment = environment, wl_publication_cutoff = cutoff,
             wl_packages = packages\<rparr>)
            (field_value t ''packages'' (toml_elements wire_package_of)))))))))"

end
