(* ===== verification/Lock_Toml_Sound.thy ===== *)
theory Lock_Toml_Sound
  imports Lock_Toml
begin

text \<open>
  What \<^verbatim>\<open>serialize_wire\<close> writes is a TOML document, and it deserializes to the struct that was written:
  every text the serializer composes is a token, a value, a line or a list of lines that the reader of
  \<^verbatim>\<open>Lock_Toml\<close> takes off the front of the input.
\<close>

section \<open>The \<^verbatim>\<open>toml\<close> crate's strings\<close>

definition toml_quote :: "char \<Rightarrow> bool" where
  "toml_quote c \<longleftrightarrow> c = CHR 0x22 \<or> c = CHR 0x27"

definition no_quote :: "string \<Rightarrow> bool" where
  "no_quote s \<longleftrightarrow> s = [] \<or> \<not> toml_quote (hd s)"

text \<open>\<open>q\<close> is a quoted string with the value \<open>v\<close>: it is read off the front of any text that does not go on with a quote.\<close>

definition spells :: "string_lexer \<Rightarrow> string \<Rightarrow> string \<Rightarrow> bool" where
  "spells lexer v q \<longleftrightarrow>
     utf8 q \<and> q \<noteq> [] \<and> toml_quote (hd q) \<and> toml_quote (last q) \<and>
     (\<forall>rest. no_quote rest \<longrightarrow> lexer (q @ rest) = Some (v, rest))"

text \<open>
  \<^verbatim>\<open>toml::to_string\<close> of a struct with one field writes the line of that field: a quoted string, or an array
  of them in brackets.
\<close>

definition toml_writes :: "string_lexer \<Rightarrow> toml_printer \<Rightarrow> bool" where
  "toml_writes lexer printer \<longleftrightarrow>
     (\<forall>v. utf8 v \<longrightarrow> (\<exists>q. spells lexer v q \<and> tp_scalar printer v = Inr (''value = '' @ q @ newline))) \<and>
     (\<forall>vs. list_all utf8 vs \<longrightarrow>
        (\<exists>qs. list_all2 (spells lexer) vs qs \<and>
           tp_array printer vs = Inr (''values = ['' @ join_str '', '' qs @ '']'' @ newline)))"

text \<open>\<^verbatim>\<open>toml::from_str\<close> returns the struct wherever the text is in the TOML subset and has the struct's fields.\<close>

definition toml_reads :: "string_lexer \<Rightarrow> (string \<Rightarrow> string + wire_lockfile) \<Rightarrow> bool" where
  "toml_reads lexer from_str \<longleftrightarrow>
     (\<forall>t d w. read_document lexer t = Some d \<longrightarrow> wire_lockfile_of d = Some w \<longrightarrow> from_str t = Inr w)"

section \<open>Trimming\<close>

lemma char_indices_append:
  assumes "is_ascii c"
  shows "utf8 x \<Longrightarrow> char_indices_from i (x @ c # s) =
    char_indices_from i x @ (i + length x, byte_val c) # char_indices_from (Suc (i + length x)) s"
proof (induction x arbitrary: i rule: utf8.induct)
  case 1
  then show ?case using assms by (simp add: utf8_ascii)
next
  case (2 d ds)
  let ?n = "utf8_len d"
  have n: "?n - 1 \<le> length ds" "utf8 (drop (?n - 1) ds)" "0 < ?n" using 2(2) utf8_len_pos by auto
  have "take ?n (d # ds @ c # s) = take ?n (d # ds)" using n(1,3) by (cases ?n) auto
  moreover have "drop (?n - 1) (ds @ c # s) = drop (?n - 1) ds @ c # s" using n(1) by simp
  moreover have "i + ?n + length (drop (?n - 1) ds) = i + length (d # ds)" using n(1,3) by simp
  ultimately show ?case using 2(1)[OF n(2), of "i + ?n"] by (simp add: Let_def)
qed

lemma trim_end_newline:
  assumes "utf8 x" and "is_ascii c" and "\<not> is_whitespace (byte_val c)"
  shows "trim_end (x @ c # newline) = x @ [c]"
proof -
  have nl: "char_indices_from i newline = [(i, 10)]" for i by (simp add: newline_def Let_def utf8_len_def byte_val_def)
  have "char_indices (x @ c # newline) = char_indices x @ [(length x, byte_val c), (Suc (length x), 10)]"
    using char_indices_append[OF assms(2,1), of 0 newline] by (simp add: char_indices_def nl)
  moreover have "is_whitespace 10" by (simp add: is_whitespace_def)
  ultimately show ?thesis
    using assms utf8_ascii[OF assms(2)] by (simp add: trim_end_def newline_def nth_append)
qed

lemma trim_start_once:
  assumes "p \<noteq> []" and "s = [] \<or> hd s \<noteq> hd p"
  shows "trim_start_matches p (p @ s) = s"
proof -
  have "\<not> starts_with p s" using assms by (cases p; cases s) auto
  then have "trim_start_matches p s = s" by (simp add: trim_start_matches.simps)
  then show ?thesis using assms(1) by (subst trim_start_matches.simps) (simp add: starts_with_append)
qed

lemma quote_facts:
  assumes "toml_quote c"
  shows "is_ascii c" "\<not> is_whitespace (byte_val c)" "\<not> is_ascii_digit c" "\<not> bare_key_char c"
    "c \<noteq> CHR ''['' \<and> c \<noteq> CHR ''{'' \<and> c \<noteq> CHR '' '' \<and> c \<noteq> CHR 0x09 \<and> c \<noteq> CHR ''v''"
  using assms
  by (auto simp: toml_quote_def is_ascii_def is_whitespace_def is_ascii_digit_def byte_val_def bare_key_char_def
      is_ascii_alphanumeric_def is_ascii_alphabetic_def is_ascii_lowercase_def is_ascii_uppercase_def)

lemma toml_string_spells:
  assumes "toml_writes lexer printer" and "utf8 v"
  shows "\<exists>q. toml_string printer v = Inr q \<and> spells lexer v q"
proof -
  obtain q where q: "spells lexer v q" "tp_scalar printer v = Inr (''value = '' @ q @ newline)"
    using assms by (auto simp: toml_writes_def)
  have ne: "q \<noteq> []" and last: "toml_quote (last q)" and hd: "toml_quote (hd q)" and u: "utf8 q"
    using q(1) by (auto simp: spells_def)
  define x where "x = ''value = '' @ butlast q"
  have x: "''value = '' @ q @ newline = x @ last q # newline" "x @ [last q] = ''value = '' @ q" using ne by (simp_all add: x_def)
  have "utf8 (butlast q)" using utf8_append(1)[OF quote_facts(1)[OF last], of "butlast q" "[]"] u ne by simp
  then have "utf8 x" unfolding x_def using utf8_append(1)[of "CHR '' ''" "''value =''" "butlast q"] by (simp add: is_ascii_def byte_val_def utf8_len_def)
  then have "trim_end (''value = '' @ q @ newline) = ''value = '' @ q"
    unfolding x(1) using trim_end_newline[OF _ quote_facts(1,2)[OF last]] x(2) by simp
  moreover have "trim_start_matches ''value = '' (''value = '' @ q) = q"
    using quote_facts(5)[OF hd] by (intro trim_start_once) auto
  ultimately show ?thesis using q by (simp add: toml_string_def)
qed

lemma utf8_join: "list_all utf8 xs \<Longrightarrow> utf8 (join_str '', '' xs)"
proof (induction "'', ''" xs rule: join_str.induct)
  case (3 x y xs)
  then show ?case
    using utf8_append(1)[of "CHR '',''" x "'' '' @ join_str '', '' (y # xs)"]
      utf8_append(1)[of "CHR '' ''" "[]" "join_str '', '' (y # xs)"] by (simp add: is_ascii_def byte_val_def)
qed simp_all

lemma toml_array_spells:
  assumes "toml_writes lexer printer" and "list_all utf8 vs"
  shows "\<exists>qs. toml_array printer vs = Inr (''['' @ join_str '', '' qs @ '']'') \<and> list_all2 (spells lexer) vs qs"
proof -
  obtain qs where qs: "list_all2 (spells lexer) vs qs"
      "tp_array printer vs = Inr (''values = ['' @ join_str '', '' qs @ '']'' @ newline)"
    using assms by (auto simp: toml_writes_def)
  let ?x = "''values = ['' @ join_str '', '' qs"
  have "list_all utf8 qs" using qs(1) by (induction rule: list_all2_induct) (auto simp: spells_def)
  then have "utf8 ?x"
    using utf8_append(1)[of "CHR ''[''" "''values = ''" "join_str '', '' qs"] utf8_join
    by (simp add: is_ascii_def byte_val_def utf8_len_def)
  moreover have "is_ascii (CHR '']'')" "\<not> is_whitespace (byte_val (CHR '']''))"
    by (simp_all add: is_ascii_def byte_val_def is_whitespace_def)
  ultimately have "trim_end (?x @ CHR '']'' # newline) = ?x @ [CHR '']'']" by (rule trim_end_newline)
  moreover have "trim_start_matches ''values = '' (''values = '' @ ''['' @ join_str '', '' qs @ '']'') =
      ''['' @ join_str '', '' qs @ '']''"
    by (rule trim_start_once) auto
  ultimately show ?thesis using qs by (intro exI[of _ qs]) (simp add: toml_array_def)
qed

section \<open>Values\<close>

definition token :: "string \<Rightarrow> bool" where
  "token t \<longleftrightarrow> t \<noteq> [] \<and> hd t \<noteq> CHR '' '' \<and> hd t \<noteq> CHR 0x09"

text \<open>The reader takes the text \<open>t\<close> for \<open>x\<close>, whatever follows it but a quote.\<close>

definition reads :: "'a reader \<Rightarrow> string \<Rightarrow> 'a \<Rightarrow> bool" where
  "reads rd t x \<longleftrightarrow> token t \<and> (\<forall>rest. no_quote rest \<longrightarrow> rd (t @ rest) = Some (x, rest))"

lemma skip_token: "token t \<Longrightarrow> skip_blanks (t @ s) = t @ s"
  by (cases t) (simp_all add: skip_blanks_def token_def)

lemma skip_blank [simp]: "skip_blanks (CHR '' '' # s) = skip_blanks s"
  by (simp add: skip_blanks_def)

lemma skip_Cons [simp]: "c \<noteq> CHR '' '' \<Longrightarrow> c \<noteq> CHR 0x09 \<Longrightarrow> skip_blanks (c # s) = c # s"
  by (simp add: skip_blanks_def)

lemma no_quote_Cons [simp]: "no_quote (c # s) \<longleftrightarrow> \<not> toml_quote c"
  by (simp add: no_quote_def)

lemma reads_string: "spells lexer v q \<Longrightarrow> reads (read_value (Suc d) lexer) q (TomlString v)"
  unfolding reads_def spells_def token_def
  by (cases q) (auto dest: quote_facts split: list.splits)

lemma read_key_bare:
  assumes "k \<noteq> []" and "list_all bare_key_char k" and "s = [] \<or> \<not> bare_key_char (hd s)"
  shows "read_key (k @ s) = Some (k, s)"
proof -
  have "takeWhile bare_key_char (k @ s) = k" "dropWhile bare_key_char (k @ s) = s"
    using assms(2,3) by (induction k; cases s; simp)+
  then show ?thesis using assms(1) by (simp add: read_key_def)
qed

lemma bare_key_facts: "bare_key_char c \<Longrightarrow> c \<noteq> CHR '' '' \<and> c \<noteq> CHR 0x09 \<and> c \<noteq> CHR 0x0A \<and> c \<noteq> CHR ''#'' \<and> c \<noteq> CHR ''['' \<and> c \<noteq> CHR ''}''"
  by (auto simp: bare_key_char_def is_ascii_alphanumeric_def is_ascii_alphabetic_def is_ascii_lowercase_def
      is_ascii_uppercase_def is_ascii_digit_def byte_val_def)

definition bare_key :: "string \<Rightarrow> bool" where
  "bare_key k \<longleftrightarrow> k \<noteq> [] \<and> list_all bare_key_char k"

lemma read_entry_text:
  assumes "bare_key k" and "token t"
  shows "read_entry rd (k @ '' = '' @ t @ s) = map_option (\<lambda>(v, t). ((k, v), t)) (rd (t @ s))"
proof -
  have "\<not> bare_key_char (CHR '' '')" by (simp add: bare_key_char_def is_ascii_alphanumeric_def is_ascii_alphabetic_def
      is_ascii_lowercase_def is_ascii_uppercase_def is_ascii_digit_def byte_val_def)
  then have "read_key (k @ '' = '' @ t @ s) = Some (k, '' = '' @ t @ s)"
    using assms(1) by (intro read_key_bare) (simp_all add: bare_key_def)
  then show ?thesis using skip_token[OF assms(2), of s] by (simp add: read_entry_def)
qed

lemma reads_entry:
  assumes "reads rd t v" and "bare_key k"
  shows "reads (read_entry rd) (k @ '' = '' @ t) (k, v)"
proof -
  have "token t" using assms(1) by (simp add: reads_def)
  moreover have "token (k @ '' = '' @ t)"
    using assms(2) by (cases k) (auto simp: bare_key_def token_def dest: bare_key_facts)
  ultimately show ?thesis
    using read_entry_text[OF assms(2), of t rd] assms(1) by (simp add: reads_def)
qed

lemma read_items_join:
  assumes "list_all2 (reads item) ts xs" and "ts \<noteq> []"
    and "close \<notin> {CHR '','', CHR '' '', CHR 0x09}" and "\<not> toml_quote close" and "pad = [] \<or> pad = '' ''"
  shows "read_items item close (join_str '', '' ts @ pad @ close # rest) = Some (xs, rest)"
    and "read_items item close ('' '' @ join_str '', '' ts @ pad @ close # rest) = Some (xs, rest)"
proof -
  have quote: "\<not> toml_quote (CHR '' '')" "\<not> toml_quote (CHR '','')" by (simp_all add: toml_quote_def)
  have close: "skip_blanks (pad @ close # rest) = close # rest" "no_quote (pad @ close # rest)" for rest
    using assms(3-5) quote by auto
  have both: "read_items item close (p @ join_str '', '' ts @ pad @ close # rest) = Some (xs, rest)"
    if "p = [] \<or> p = '' ''" for p
    using assms(1,2) that
  proof (induction ts xs arbitrary: p rule: list_all2_induct)
    case (Cons t ts x xs)
    have t: "token t" "\<And>rest. no_quote rest \<Longrightarrow> item (t @ rest) = Some (x, rest)" using Cons(1) by (auto simp: reads_def)
    have skip: "skip_blanks (p @ t @ s) = t @ s" for s using Cons.prems(2) skip_token[OF t(1)] by auto
    show ?case
    proof (cases ts)
      case Nil
      then show ?thesis
        using Cons.hyps t(2)[OF close(2)] skip close by (subst read_items.simps) simp
    next
      case (Cons u us)
      let ?r = "'' '' @ join_str '', '' ts @ pad @ close # rest"
      have whole: "p @ join_str '', '' (t # ts) @ pad @ close # rest = p @ t @ CHR '','' # ?r" using Cons by simp
      have item: "item (t @ CHR '','' # ?r) = Some (x, CHR '','' # ?r)" by (rule t(2)) (simp add: quote)
      have IH: "read_items item close ?r = Some (xs, rest)" by (rule Cons.IH) (simp_all add: Cons)
      have "CHR '','' \<noteq> close" using assms(3) by auto
      then show ?thesis
        unfolding whole using item IH skip[of "CHR '','' # ?r"] by (subst read_items.simps) simp
    qed
  qed simp
  from both[of "[]"] both[of "'' ''"] show
    "read_items item close (join_str '', '' ts @ pad @ close # rest) = Some (xs, rest)"
    "read_items item close ('' '' @ join_str '', '' ts @ pad @ close # rest) = Some (xs, rest)" by simp_all
qed

declare read_value.simps(2) [simp del]

lemma bracket_facts:
  "\<not> toml_quote (CHR '']'')" "CHR '']'' \<notin> {CHR '','', CHR '' '', CHR 0x09}"
  "\<not> toml_quote (CHR ''}'')" "CHR ''}'' \<notin> {CHR '','', CHR '' '', CHR 0x09}"
  by (simp_all add: toml_quote_def)

lemma join_token:
  assumes "list_all2 (reads rd) ts xs" and "ts \<noteq> []"
  shows "token (join_str '', '' ts)" "hd (join_str '', '' ts) = hd (hd ts)"
proof -
  obtain t us where ts: "ts = t # us" using assms(2) by (cases ts) auto
  then have "token t" using assms(1) by (cases xs) (auto simp: reads_def)
  then show "token (join_str '', '' ts)" "hd (join_str '', '' ts) = hd (hd ts)"
    by (cases us; auto simp: token_def ts)+
qed

text \<open>A list of items is read up to its bracket unless its first item starts with that bracket.\<close>

lemma read_list_join:
  assumes "list_all2 (reads item) ts xs" and "ts \<noteq> []" and "hd (hd ts) \<noteq> close"
    and "close \<notin> {CHR '','', CHR '' '', CHR 0x09}" and "\<not> toml_quote close" and "pad = [] \<or> pad = '' ''"
  shows "read_list item close (pad @ join_str '', '' ts @ pad @ close # rest) = Some (xs, rest)"
proof -
  let ?j = "join_str '', '' ts"
  have "skip_blanks (pad @ ?j @ s) = ?j @ s" for s
    using skip_token[OF join_token(1)[OF assms(1,2)]] assms(6) by auto
  moreover obtain c j where "?j = c # j" "c \<noteq> close"
    using join_token[OF assms(1,2)] assms(3) by (cases ?j) (auto simp: token_def)
  ultimately show ?thesis
    using read_items_join[OF assms(1,2,4,5,6), of rest] assms(6) by (auto simp: read_list_def)
qed

lemma reads_array:
  assumes "list_all2 (reads (read_value d lexer)) ts vs" and "\<forall>t\<in>set ts. hd t \<noteq> CHR '']''"
  shows "reads (read_value (Suc d) lexer) (''['' @ join_str '', '' ts @ '']'') (TomlArray vs)"
proof (cases "ts = []")
  case True
  then show ?thesis using assms(1) by (simp add: reads_def token_def read_list_def read_value.simps)
next
  case False
  then have "hd (hd ts) \<noteq> CHR '']''" using assms(2) by simp
  from read_list_join[OF assms(1) False this bracket_facts(2,1), of "[]"] show ?thesis
    by (simp add: reads_def token_def read_value.simps)
qed

lemma reads_table:
  assumes "list_all2 (reads (read_entry (read_value d lexer))) ts es" and "ts \<noteq> []" and "hd (hd ts) \<noteq> CHR ''}''"
    and "distinct (map fst es)"
  shows "reads (read_value (Suc d) lexer) (inline_table ts) (TomlTable es)"
  using read_list_join[OF assms(1-3) bracket_facts(4,3), of "'' ''"] assms(4)
  by (simp add: reads_def token_def inline_table_def read_value.simps)

definition string_entries :: "(string \<times> string) list \<Rightarrow> toml_table" where
  "string_entries = map (\<lambda>(k, v). (k, TomlString v))"

lemma reads_inline_entries:
  assumes w: "toml_writes lexer printer" and "es \<noteq> []" and "distinct (map fst es)"
    and "list_all (\<lambda>(k, v). bare_key k \<and> utf8 v) es"
  shows "\<exists>t. inline_entries printer es = Inr t \<and> hd t = CHR ''{'' \<and>
    reads (read_value (Suc (Suc d)) lexer) t (TomlTable (string_entries es))"
proof -
  have "\<exists>ts. try_map (\<lambda>(name, v). inline_field printer name v) es = Inr ts \<and>
      list_all2 (reads (read_entry (read_value (Suc d) lexer))) ts (string_entries es) \<and>
      list_all2 (\<lambda>t e. hd t = hd (fst e)) ts es"
    using assms(4)
  proof (induction es)
    case (Cons e es)
    obtain k v where e: "e = (k, v)" by (cases e)
    then have kv: "bare_key k" "utf8 v" using Cons.prems by simp_all
    obtain q where q: "toml_string printer v = Inr q" "spells lexer v q" using toml_string_spells[OF w kv(2)] by blast
    have "reads (read_entry (read_value (Suc d) lexer)) (k @ '' = '' @ q) (k, TomlString v)"
      using reads_entry[OF reads_string[OF q(2)] kv(1)] .
    moreover have "hd (k @ '' = '' @ q) = hd k" using kv(1) by (cases k) (auto simp: bare_key_def)
    ultimately show ?case
      using Cons q(1) by (auto simp: e inline_field_def string_entries_def)
  qed (simp add: string_entries_def)
  then obtain ts where ts: "try_map (\<lambda>(name, v). inline_field printer name v) es = Inr ts"
      "list_all2 (reads (read_entry (read_value (Suc d) lexer))) ts (string_entries es)"
      "list_all2 (\<lambda>t e. hd t = hd (fst e)) ts es" by blast
  obtain e es' where es: "es = e # es'" using assms(2) by (cases es) auto
  then obtain t ts' where tt: "ts = t # ts'" "hd t = hd (fst e)" using ts(3) by (cases ts) auto
  have "bare_key (fst e)" using assms(4) es by (cases e) simp
  then have "hd t \<noteq> CHR ''}''" using tt(2) by (cases "fst e") (auto simp: bare_key_def dest: bare_key_facts)
  moreover have "map fst (string_entries es) = map fst es" by (auto simp: string_entries_def)
  ultimately have "reads (read_value (Suc (Suc d)) lexer) (inline_table ts) (TomlTable (string_entries es))"
    using tt(1) assms(3) by (intro reads_table ts(2)) simp_all
  then show ?thesis using ts(1) by (auto simp: inline_entries_def inline_table_def)
qed

section \<open>Lines\<close>

lemma newline_quote [simp]: "no_quote (newline @ s)" "skip_blanks (newline @ s) = newline @ s" "line_end (newline @ s) = Some s"
  by (simp_all add: newline_def toml_quote_def line_end_def)

lemma read_lines_step:
  assumes "read_line lexer s = Some (item, rest)" and "length rest < length s"
  shows "read_lines lexer s = map_option (\<lambda>is. (case item of Some i \<Rightarrow> i # is | None \<Rightarrow> is)) (read_lines lexer rest)"
  using assms by (subst read_lines.simps) auto

lemma read_lines_blank: "read_lines lexer (newline @ s) = read_lines lexer s"
  using read_lines_step[of lexer "newline @ s" None s]
  by (simp add: read_line_def newline_def option.map_ident)

lemma read_lines_comment:
  assumes "list_all comment_text r"
  shows "read_lines lexer (''#'' @ r @ newline @ s) = read_lines lexer s"
proof -
  have "dropWhile comment_text (r @ newline @ s) = newline @ s"
    using assms by (induction r) (simp_all add: newline_def comment_text_def byte_val_def)
  then have "read_line lexer (''#'' @ r @ newline @ s) = Some (None, s)" by (simp add: read_line_def)
  from read_lines_step[OF this] show ?thesis by (simp add: option.map_ident)
qed

lemma read_lines_header:
  assumes "bare_key k"
  shows "read_lines lexer (''[['' @ k @ '']]'' @ newline @ s) = map_option (Cons (TomlHeader k)) (read_lines lexer s)"
proof -
  have k: "k \<noteq> []" "token k" using assms by (cases k; auto simp: bare_key_def token_def dest: bare_key_facts)+
  have "\<not> bare_key_char (CHR '']'')" by (simp add: bare_key_char_def is_ascii_alphanumeric_def is_ascii_alphabetic_def
      is_ascii_lowercase_def is_ascii_uppercase_def is_ascii_digit_def byte_val_def)
  then have "read_key (k @ '']]'' @ newline @ s) = Some (k, '']]'' @ newline @ s)"
    using assms by (intro read_key_bare) (simp_all add: bare_key_def)
  then have "read_line lexer (''[['' @ k @ '']]'' @ newline @ s) = Some (Some (TomlHeader k), s)"
    using skip_token[OF k(2), of "'']]'' @ newline @ s"] by (simp add: read_line_def)
  from read_lines_step[OF this] show ?thesis by (simp add: comp_def)
qed

lemma read_lines_entry:
  assumes "bare_key k" and "token t" and "read_value 3 lexer (t @ newline @ s) = Some (v, newline @ s)"
  shows "read_lines lexer (k @ '' = '' @ t @ newline @ s) = map_option (Cons (TomlEntry k v)) (read_lines lexer s)"
proof -
  obtain c k' where k: "k = c # k'" "bare_key_char c" using assms(1) by (cases k) (auto simp: bare_key_def)
  have "read_entry (read_value 3 lexer) (k @ '' = '' @ t @ newline @ s) = Some ((k, v), newline @ s)"
    using read_entry_text[OF assms(1,2)] assms(3) by simp
  then have "read_line lexer (k @ '' = '' @ t @ newline @ s) = Some (Some (TomlEntry k v), s)"
    using bare_key_facts[OF k(2)] by (simp add: read_line_def k(1))
  from read_lines_step[OF this] show ?thesis by (simp add: comp_def)
qed

text \<open>The lines the serializer has for the entries of a table.\<close>

definition entry_lines :: "string_lexer \<Rightarrow> (string \<times> (lock_wire_error + string)) list \<Rightarrow> toml_table \<Rightarrow> bool" where
  "entry_lines lexer rows es \<longleftrightarrow>
     list_all2 (\<lambda>row e. fst row = fst e \<and> bare_key (fst e) \<and>
       (\<exists>t. snd row = Inr t \<and> reads (read_value 3 lexer) t (snd e))) rows es"

definition entry_items :: "toml_table \<Rightarrow> toml_item list" where
  "entry_items = map (\<lambda>e. TomlEntry (fst e) (snd e))"

lemma entry_lines_append:
  "entry_lines lexer rows es \<Longrightarrow> entry_lines lexer rows' es' \<Longrightarrow> entry_lines lexer (rows @ rows') (es @ es')"
  unfolding entry_lines_def by (rule list_all2_appendI)

lemma read_lines_entries:
  assumes "entry_lines lexer rows es"
  shows "\<exists>ls. try_map (\<lambda>(name, r). toml_line name r) rows = Inr ls \<and>
    (\<forall>s. read_lines lexer (concat ls @ s) = map_option ((@) (entry_items es)) (read_lines lexer s))"
  using assms[unfolded entry_lines_def]
proof (induction rows es rule: list_all2_induct)
  case Nil
  then show ?case by (simp add: entry_items_def option.map_ident)
next
  case (Cons row rows e es)
  then obtain ls t where ls: "try_map (\<lambda>(name, r). toml_line name r) rows = Inr ls"
      "\<And>s. read_lines lexer (concat ls @ s) = map_option ((@) (entry_items es)) (read_lines lexer s)"
    and t: "row = (fst e, Inr t)" "bare_key (fst e)" "reads (read_value 3 lexer) t (snd e)"
    by (cases row) auto
  have "read_lines lexer (fst e @ '' = '' @ t @ newline @ concat ls @ s) =
      map_option ((@) (entry_items (e # es))) (read_lines lexer s)" for s
  proof -
    have "token t" "read_value 3 lexer (t @ newline @ r) = Some (snd e, newline @ r)" for r
      using t(3) by (simp_all add: reads_def)
    from read_lines_entry[OF t(2) this] show ?thesis
      by (cases "read_lines lexer s") (simp_all add: ls(2) entry_items_def)
  qed
  then show ?case using ls(1) t(1) by (intro exI[of _ "(fst e @ '' = '' @ t @ newline) # ls"]) (simp add: toml_line_def)
qed

section \<open>Packages\<close>

text \<open>The texts of a wire struct, and the tables that stand for its parts.\<close>

definition option_entry :: "string \<Rightarrow> string option \<Rightarrow> (string \<times> string) list" where
  "option_entry name v = (case v of Some s \<Rightarrow> [(name, s)] | None \<Rightarrow> [])"

definition requested_entries :: "wire_requested_git_source \<Rightarrow> (string \<times> string) list" where
  "requested_entries s =
     [(''url'', wg_url s), (''selector'', wg_selector s)] @ option_entry ''selector-value'' (wg_selector_value s)
     @ option_entry ''subdirectory'' (wg_subdirectory s) @ [(''version-constraint'', wg_version_constraint s)]"

definition dependency_entries :: "wire_dependency \<Rightarrow> (string \<times> string) list" where
  "dependency_entries d = [(''kind'', wd_kind d), (''package'', wd_package d)]"

definition package_texts :: "wire_package \<Rightarrow> string list" where
  "package_texts p =
     [wp_name p, wp_version p, wp_metadata_sha256 p] @ map snd (source_entries (wp_source p))
     @ concat (map (\<lambda>d. map snd (dependency_entries d)) (wp_dependencies p)) @ wp_visible_repository_ids p
     @ (case wp_requested_git_source p of Some s \<Rightarrow> map snd (requested_entries s) | None \<Rightarrow> [])"

definition wire_texts :: "wire_lockfile \<Rightarrow> string list" where
  "wire_texts w =
     [wl_r_version w, wl_r_requirement w, wl_resolution_intent_sha256 w, wl_environment w]
     @ (case wl_publication_cutoff w of Some d \<Rightarrow> [d] | None \<Rightarrow> []) @ concat (map package_texts (wl_packages w))"

definition package_entries :: "wire_package \<Rightarrow> toml_table" where
  "package_entries p =
     [(''name'', TomlString (wp_name p)), (''version'', TomlString (wp_version p)),
      (''source'', TomlTable (string_entries (source_entries (wp_source p)))),
      (''metadata-sha256'', TomlString (wp_metadata_sha256 p)),
      (''dependencies'', TomlArray (map (\<lambda>d. TomlTable (string_entries (dependency_entries d))) (wp_dependencies p))),
      (''visible-repository-ids'', TomlArray (map TomlString (wp_visible_repository_ids p)))]
     @ (case wp_requested_git_source p of
          Some s \<Rightarrow> [(''requested-git-source'', TomlTable (string_entries (requested_entries s)))] | None \<Rightarrow> [])"

lemma bare_names:
  "list_all bare_key [''name'', ''version'', ''source'', ''metadata-sha256'', ''dependencies'', ''visible-repository-ids'',
     ''requested-git-source'', ''packages'', ''r-version'', ''r-requirement'', ''resolution-intent-sha256'', ''environment'',
     ''publication-cutoff'', ''kind'', ''package'', ''namespace'', ''release'', ''repository'', ''commit'', ''subdirectory'',
     ''scheme'', ''digest'', ''url'', ''selector'', ''selector-value'', ''version-constraint'']"
  by code_simp

lemma source_entries_ok:
  "source_entries s \<noteq> []" "distinct (map fst (source_entries s))" "list_all (\<lambda>e. bare_key (fst e)) (source_entries s)"
  using bare_names by (cases s; auto split: option.splits)+

lemma requested_entries_ok:
  "requested_entries s \<noteq> []" "distinct (map fst (requested_entries s))" "list_all (\<lambda>e. bare_key (fst e)) (requested_entries s)"
  using bare_names by (auto simp: requested_entries_def option_entry_def split: option.splits)

lemma dependency_entries_ok:
  "dependency_entries d \<noteq> []" "distinct (map fst (dependency_entries d))" "list_all (\<lambda>e. bare_key (fst e)) (dependency_entries d)"
  using bare_names by (auto simp: dependency_entries_def)

lemma entries_utf8:
  "list_all (\<lambda>e. bare_key (fst e)) es \<Longrightarrow> list_all utf8 (map snd es) \<Longrightarrow> list_all (\<lambda>(k, v). bare_key k \<and> utf8 v) es"
  by (auto simp: list_all_iff)

lemma reads_dependencies:
  assumes w: "toml_writes lexer printer" and "list_all utf8 (concat (map (\<lambda>d. map snd (dependency_entries d)) ds))"
  shows "\<exists>t. toml_dependencies printer ds = Inr t \<and>
    reads (read_value 3 lexer) t (TomlArray (map (\<lambda>d. TomlTable (string_entries (dependency_entries d))) ds))"
proof -
  have "\<exists>ts. try_map (\<lambda>d. bind_res (toml_string printer (wd_kind d)) (\<lambda>kind.
            map_res (\<lambda>package. ''{ kind = '' @ kind @ '', package = '' @ package @ '' }'')
              (toml_string printer (wd_package d)))) ds = Inr ts \<and>
      list_all2 (reads (read_value 2 lexer)) ts (map (\<lambda>d. TomlTable (string_entries (dependency_entries d))) ds) \<and>
      (\<forall>t\<in>set ts. hd t = CHR ''{'')"
    using assms(2)
  proof (induction ds)
    case (Cons d ds)
    have "list_all (\<lambda>(k, v). bare_key k \<and> utf8 v) (dependency_entries d)"
      using Cons.prems by (intro entries_utf8 dependency_entries_ok) simp
    from reads_inline_entries[OF w dependency_entries_ok(1,2) this, of 0]
    obtain t where t: "inline_entries printer (dependency_entries d) = Inr t" "hd t = CHR ''{''"
        "reads (read_value 2 lexer) t (TomlTable (string_entries (dependency_entries d)))"
      by (auto simp: numeral_2_eq_2)
    have "bind_res (toml_string printer (wd_kind d)) (\<lambda>kind.
            map_res (\<lambda>package. ''{ kind = '' @ kind @ '', package = '' @ package @ '' }'')
              (toml_string printer (wd_package d))) = inline_entries printer (dependency_entries d)"
      by (cases "toml_string printer (wd_kind d)"; cases "toml_string printer (wd_package d)")
        (simp_all add: inline_entries_def dependency_entries_def inline_field_def inline_table_def)
    then show ?case using t Cons by auto
  qed simp
  then obtain ts where "toml_dependencies printer ds = Inr (''['' @ join_str '', '' ts @ '']'')"
      "list_all2 (reads (read_value 2 lexer)) ts (map (\<lambda>d. TomlTable (string_entries (dependency_entries d))) ds)"
      "\<forall>t\<in>set ts. hd t \<noteq> CHR '']''"
    by (auto simp: toml_dependencies_def)
  then show ?thesis using reads_array[of 2] by (metis numeral_2_eq_2 numeral_3_eq_3)
qed

lemma reads_strings:
  assumes "toml_writes lexer printer" and "list_all utf8 vs"
  shows "\<exists>t. toml_array printer vs = Inr t \<and> reads (read_value 3 lexer) t (TomlArray (map TomlString vs))"
proof -
  obtain qs where qs: "toml_array printer vs = Inr (''['' @ join_str '', '' qs @ '']'')" "list_all2 (spells lexer) vs qs"
    using toml_array_spells[OF assms] by blast
  from qs(2) have "list_all2 (reads (read_value 2 lexer)) qs (map TomlString vs)"
    by (induction rule: list_all2_induct) (simp_all add: numeral_2_eq_2 reads_string)
  moreover from qs(2) have "\<forall>q\<in>set qs. hd q \<noteq> CHR '']''"
    by (induction rule: list_all2_induct) (auto simp: spells_def toml_quote_def)
  ultimately show ?thesis using reads_array[of 2] qs(1) by (metis numeral_2_eq_2 numeral_3_eq_3)
qed

lemma reads_text:
  assumes "toml_writes lexer printer" and "utf8 v"
  shows "\<exists>t. toml_string printer v = Inr t \<and> reads (read_value 3 lexer) t (TomlString v)"
  using toml_string_spells[OF assms] reads_string by (metis numeral_3_eq_3)

lemma reads_entries:
  assumes "toml_writes lexer printer" and "es \<noteq> []" "distinct (map fst es)" "list_all (\<lambda>e. bare_key (fst e)) es"
    and "list_all utf8 (map snd es)"
  shows "\<exists>t. inline_entries printer es = Inr t \<and> reads (read_value 3 lexer) t (TomlTable (string_entries es))"
  using reads_inline_entries[OF assms(1-3) entries_utf8[OF assms(4,5)], of 1] by (auto simp: numeral_3_eq_3)

lemma read_package:
  assumes w: "toml_writes lexer printer" and u: "list_all utf8 (package_texts p)"
  shows "\<exists>t. serialize_package printer p = Inr t \<and>
    (\<forall>s. read_lines lexer (t @ s) = map_option ((@) (TomlHeader ''packages'' # entry_items (package_entries p))) (read_lines lexer s))"
proof -
  let ?rows = "[(''name'', toml_string printer (wp_name p)), (''version'', toml_string printer (wp_version p)),
       (''source'', inline_source printer (wp_source p)), (''metadata-sha256'', toml_string printer (wp_metadata_sha256 p)),
       (''dependencies'', toml_dependencies printer (wp_dependencies p)),
       (''visible-repository-ids'', toml_array printer (wp_visible_repository_ids p))]"
  let ?requested = "case wp_requested_git_source p of
       Some source \<Rightarrow> [(''requested-git-source'', inline_requested_git_source printer source)] | None \<Rightarrow> []"
  let ?es = "case wp_requested_git_source p of
       Some s \<Rightarrow> [(''requested-git-source'', TomlTable (string_entries (requested_entries s)))] | None \<Rightarrow> []"
  have parts: "utf8 (wp_name p)" "utf8 (wp_version p)" "utf8 (wp_metadata_sha256 p)"
      "list_all utf8 (map snd (source_entries (wp_source p)))"
      "list_all utf8 (concat (map (\<lambda>d. map snd (dependency_entries d)) (wp_dependencies p)))"
      "list_all utf8 (wp_visible_repository_ids p)"
      "\<And>s. wp_requested_git_source p = Some s \<Longrightarrow> list_all utf8 (map snd (requested_entries s))"
    using u by (auto simp: package_texts_def)
  have "entry_lines lexer ?rows (take 6 (package_entries p))"
    using reads_text[OF w parts(1)] reads_text[OF w parts(2)] reads_text[OF w parts(3)]
      reads_entries[OF w source_entries_ok parts(4)] reads_dependencies[OF w parts(5)] reads_strings[OF w parts(6)] bare_names
    by (simp add: entry_lines_def package_entries_def inline_source_def)
  moreover have "entry_lines lexer ?requested ?es"
  proof (cases "wp_requested_git_source p")
    case (Some s)
    have "inline_requested_git_source printer s = inline_entries printer (requested_entries s)"
      by (simp add: inline_requested_git_source_def requested_entries_def option_entry_def)
    then show ?thesis
      using Some reads_entries[OF w requested_entries_ok parts(7)[OF Some]] bare_names by (simp add: entry_lines_def)
  qed (simp add: entry_lines_def)
  ultimately have "entry_lines lexer (?rows @ ?requested) (take 6 (package_entries p) @ ?es)" by (rule entry_lines_append)
  moreover have "take 6 (package_entries p) @ ?es = package_entries p" by (simp add: package_entries_def)
  ultimately have "entry_lines lexer (?rows @ ?requested) (package_entries p)" by simp
  from read_lines_entries[OF this] obtain ls where ls: "try_map (\<lambda>(name, r). toml_line name r) (?rows @ ?requested) = Inr ls"
      "\<And>s. read_lines lexer (concat ls @ s) = map_option ((@) (entry_items (package_entries p))) (read_lines lexer s)"
    by blast
  let ?t = "newline @ ''[[packages]]'' @ newline @ concat ls"
  have "serialize_package printer p = Inr ?t" unfolding serialize_package_def ls(1) by simp
  moreover have "read_lines lexer (?t @ s) =
      map_option ((@) (TomlHeader ''packages'' # entry_items (package_entries p))) (read_lines lexer s)" for s
  proof -
    have "bare_key ''packages''" using bare_names by simp
    from read_lines_header[OF this, of lexer "concat ls @ s"] show ?thesis
      using read_lines_blank[of lexer "''[[packages]]'' @ newline @ concat ls @ s"]
      by (cases "read_lines lexer s") (simp_all add: ls(2))
  qed
  ultimately show ?thesis by blast
qed

lemma wire_source_back: "wire_source_of (TomlTable (string_entries (source_entries s))) = Some s"
  by (cases s) (auto simp: wire_source_of_def string_entries_def field_value_def field_option_def only_fields_def split: option.splits)

lemma wire_dependency_back: "wire_dependency_of (TomlTable (string_entries (dependency_entries d))) = Some d"
  by (simp add: wire_dependency_of_def string_entries_def dependency_entries_def field_value_def only_fields_def)

lemma wire_requested_back: "wire_requested_git_source_of (TomlTable (string_entries (requested_entries s))) = Some s"
  by (cases s; cases "wg_selector_value s"; cases "wg_subdirectory s")
    (simp_all add: wire_requested_git_source_of_def string_entries_def requested_entries_def option_entry_def field_value_def
      field_option_def only_fields_def)

lemma those_map: "(\<And>x. x \<in> set xs \<Longrightarrow> f (g x) = Some x) \<Longrightarrow> those (map f (map g xs)) = Some xs"
  by (induction xs) auto

lemma wire_package_back: "wire_package_of (TomlTable (package_entries p)) = Some p"
proof -
  have "toml_elements wire_dependency_of (TomlArray (map (\<lambda>d. TomlTable (string_entries (dependency_entries d))) ds)) = Some ds" for ds
    using those_map[of ds wire_dependency_of] wire_dependency_back by (simp add: toml_elements_def)
  moreover have "toml_elements as_str (TomlArray (map TomlString vs)) = Some vs" for vs
    using those_map[of vs as_str TomlString] by (simp add: toml_elements_def)
  ultimately show ?thesis
    by (cases p; cases "wp_requested_git_source p")
      (simp_all add: wire_package_of_def package_entries_def field_value_def field_option_def only_fields_def
        wire_source_back wire_requested_back)
qed

section \<open>Documents\<close>

lemma read_packages:
  assumes w: "toml_writes lexer printer" and "list_all utf8 (concat (map package_texts ps))"
  shows "\<exists>ts. try_map (serialize_package printer) ps = Inr ts \<and>
    read_lines lexer (concat ts) = Some (concat (map (\<lambda>p. TomlHeader ''packages'' # entry_items (package_entries p)) ps))"
  using assms(2)
proof (induction ps)
  case Nil
  then show ?case by (simp add: read_lines.simps)
next
  case (Cons p ps)
  then obtain ts where ts: "try_map (serialize_package printer) ps = Inr ts"
      "read_lines lexer (concat ts) = Some (concat (map (\<lambda>p. TomlHeader ''packages'' # entry_items (package_entries p)) ps))"
    by auto
  obtain t where t: "serialize_package printer p = Inr t"
      "\<And>s. read_lines lexer (t @ s) = map_option ((@) (TomlHeader ''packages'' # entry_items (package_entries p))) (read_lines lexer s)"
    using read_package[OF w, of p] Cons.prems by auto
  show ?case using ts t by simp
qed

lemma read_generated_header: "read_lines lexer (generated_header @ s) = read_lines lexer s"
proof -
  have "list_all comment_text '' This file is automatically @generated by rsolve.''"
    "list_all comment_text '' It is not intended for manual editing.''" by code_simp+
  note lines = this[THEN read_lines_comment[of _ lexer]]
  show ?thesis
    using lines(1)[of "''# It is not intended for manual editing.'' @ newline @ newline @ s"] lines(2)[of "newline @ s"]
      read_lines_blank[of lexer s]
    unfolding generated_header_def by simp
qed

lemma read_version_line:
  "read_lines lexer (''version = '' @ show_nat (unat schema_version) @ newline @ s) =
     map_option (Cons (TomlEntry ''version'' (TomlInteger 1))) (read_lines lexer s)"
proof -
  have one: "show_nat (unat schema_version) = ''1''" by code_simp
  have "is_ascii_digit (CHR ''1'')" "\<not> is_ascii_digit (CHR 0x0A)" "byte_val (CHR ''1'') = 49"
    by (simp_all add: is_ascii_digit_def byte_val_def)
  then have "read_value 3 lexer (''1'' @ newline @ s) = Some (TomlInteger 1, newline @ s)"
    by (simp add: read_value.simps numeral_3_eq_3 read_integer_def newline_def)
  moreover have "bare_key ''version''" "token ''1''" using bare_names by (simp_all add: token_def)
  ultimately show ?thesis using read_lines_entry[of "''version''" "''1''" lexer s] unfolding one by simp
qed

definition lockfile_entries :: "wire_lockfile \<Rightarrow> toml_table" where
  "lockfile_entries w =
     [(''r-version'', TomlString (wl_r_version w)), (''r-requirement'', TomlString (wl_r_requirement w)),
      (''resolution-intent-sha256'', TomlString (wl_resolution_intent_sha256 w)),
      (''environment'', TomlString (wl_environment w))]
     @ (case wl_publication_cutoff w of Some d \<Rightarrow> [(''publication-cutoff'', TomlString d)] | None \<Rightarrow> [])"

definition document_items :: "wire_lockfile \<Rightarrow> toml_item list" where
  "document_items w =
     entry_items ((''version'', TomlInteger 1) # lockfile_entries w
       @ (if wl_packages w = [] then [(''packages'', TomlArray [])] else []))
     @ concat (map (\<lambda>p. TomlHeader ''packages'' # entry_items (package_entries p)) (wl_packages w))"

lemma read_serialized:
  assumes w: "toml_writes lexer printer" and u: "list_all utf8 (wire_texts wire)" and v: "wl_version wire = schema_version"
  shows "\<exists>t. serialize_wire printer wire = Inr t \<and> read_lines lexer t = Some (document_items wire)"
proof -
  let ?rows = "[(''r-version'', toml_string printer (wl_r_version wire)), (''r-requirement'', toml_string printer (wl_r_requirement wire)),
       (''resolution-intent-sha256'', toml_string printer (wl_resolution_intent_sha256 wire)),
       (''environment'', toml_string printer (wl_environment wire))]
      @ (case wl_publication_cutoff wire of
           Some cutoff \<Rightarrow> [(''publication-cutoff'', toml_string printer cutoff)] | None \<Rightarrow> [])"
  have parts: "utf8 (wl_r_version wire)" "utf8 (wl_r_requirement wire)" "utf8 (wl_resolution_intent_sha256 wire)"
      "utf8 (wl_environment wire)" "list_all utf8 (concat (map package_texts (wl_packages wire)))"
      "\<And>d. wl_publication_cutoff wire = Some d \<Longrightarrow> utf8 d"
    using u by (auto simp: wire_texts_def)
  have "entry_lines lexer ?rows (lockfile_entries wire)"
    using reads_text[OF w parts(1)] reads_text[OF w parts(2)] reads_text[OF w parts(3)] reads_text[OF w parts(4)]
      reads_text[OF w parts(6)] bare_names
    by (cases "wl_publication_cutoff wire") (simp_all add: entry_lines_def lockfile_entries_def)
  from read_lines_entries[OF this] obtain ls where ls: "try_map (\<lambda>(name, r). toml_line name r) ?rows = Inr ls"
      "\<And>s. read_lines lexer (concat ls @ s) = map_option ((@) (entry_items (lockfile_entries wire))) (read_lines lexer s)"
    by blast
  obtain ts where ts: "try_map (serialize_package printer) (wl_packages wire) = Inr ts"
      "read_lines lexer (concat ts) =
         Some (concat (map (\<lambda>p. TomlHeader ''packages'' # entry_items (package_entries p)) (wl_packages wire)))"
    using read_packages[OF w parts(5)] by blast
  have none: "read_lines lexer (''packages = []'' @ newline) = Some [TomlEntry ''packages'' (TomlArray [])]"
  proof -
    have "reads (read_value 3 lexer) ''[]'' (TomlArray [])" using reads_array[of 2 lexer "[]" "[]"] by (simp add: numeral_3_eq_3 numeral_2_eq_2)
    then have "read_value 3 lexer (''[]'' @ newline) = Some (TomlArray [], newline)" "token ''[]''"
      using newline_quote(1)[of "[]"] by (auto simp: reads_def)
    then show ?thesis
      using read_lines_entry[of "''packages''" "''[]''" lexer "[]"] bare_names by (simp add: read_lines.simps)
  qed
  let ?t = "generated_header @ ''version = '' @ show_nat (unat (wl_version wire)) @ newline @ concat ls
           @ (if wl_packages wire = [] then ''packages = []'' @ newline else []) @ concat ts"
  have "serialize_wire printer wire = Inr ?t" unfolding serialize_wire_def ls(1) ts(1) by simp
  moreover have "read_lines lexer ?t = Some (document_items wire)"
  proof (cases "wl_packages wire = []")
    case True
    then have "ts = []" using ts(1) by simp
    then show ?thesis
      using True none unfolding read_generated_header v read_version_line ls(2)
      by (simp add: document_items_def entry_items_def)
  next
    case False
    then show ?thesis
      using ts(2) unfolding read_generated_header v read_version_line ls(2)
      by (simp add: document_items_def entry_items_def)
  qed
  ultimately show ?thesis by blast
qed

lemma leading_entries_items [simp]:
  "leading_entries (entry_items es) = es" "leading_entries (entry_items es @ TomlHeader n # rest) = es"
  by (induction es) (simp_all add: entry_items_def)

lemma header_tables_items [simp]: "header_tables (entry_items es @ rest) = header_tables rest" "header_tables (entry_items es) = []"
  by (induction es) (simp_all add: entry_items_def)

lemma header_tables_packages:
  "header_tables (concat (map (\<lambda>p. TomlHeader n # entry_items (f p)) ps)) = map (\<lambda>p. (n, f p)) ps"
proof (induction ps)
  case (Cons p ps)
  have "leading_entries (entry_items (f p) @ concat (map (\<lambda>p. TomlHeader n # entry_items (f p)) ps)) = f p"
    by (cases ps) simp_all
  then show ?case using Cons by simp
qed simp

lemma package_entries_distinct: "distinct (map fst (package_entries p))"
  by (cases "wp_requested_git_source p") (simp_all add: package_entries_def)

lemma document_back:
  assumes "wl_version wire = schema_version"
  shows "\<exists>d. toml_document (document_items wire) = Some d \<and> wire_lockfile_of d = Some wire"
proof -
  let ?head = "(''version'', TomlInteger 1) # lockfile_entries wire"
    and ?packages = "TomlArray (map (\<lambda>p. TomlTable (package_entries p)) (wl_packages wire))"
  have doc: "toml_document (document_items wire) = Some (?head @ [(''packages'', ?packages)])"
  proof (cases "wl_packages wire = []")
    case True
    then show ?thesis
      by (cases "wl_publication_cutoff wire")
        (simp_all add: toml_document_def document_items_def lockfile_entries_def Let_def)
  next
    case False
    then obtain p ps where ps: "wl_packages wire = p # ps" by (cases "wl_packages wire") auto
    have "header_tables (document_items wire) = map (\<lambda>p. (''packages'', package_entries p)) (wl_packages wire)"
      by (simp add: document_items_def header_tables_packages)
    moreover have "leading_entries (document_items wire) = ?head" using ps by (simp add: document_items_def)
    moreover have "remdups (map fst (map (\<lambda>p. (''packages'', package_entries p)) (wl_packages wire))) = [''packages'']"
      unfolding ps by (induction ps) auto
    moreover have "list_all (\<lambda>t. distinct (map fst (snd t))) (map (\<lambda>p. (''packages'', package_entries p)) (wl_packages wire))"
      by (simp add: list_all_iff package_entries_distinct)
    moreover have "filter (\<lambda>t. fst t = ''packages'') (map (\<lambda>p. (''packages'', package_entries p)) ps) =
        map (\<lambda>p. (''packages'', package_entries p)) ps" for ps by (simp add: filter_map comp_def)
    ultimately show ?thesis
      by (cases "wl_publication_cutoff wire") (simp_all add: toml_document_def lockfile_entries_def Let_def comp_def image_image image_constant_conv)
  qed
  have "toml_elements wire_package_of ?packages = Some (wl_packages wire)"
    using those_map[of "wl_packages wire" wire_package_of] wire_package_back by (simp add: toml_elements_def)
  then have "wire_lockfile_of (?head @ [(''packages'', ?packages)]) = Some wire"
    using assms by (cases wire; cases "wl_publication_cutoff wire")
      (simp_all add: wire_lockfile_of_def lockfile_entries_def only_fields_def field_value_def field_option_def toml_u32_def
        schema_version_def)
  then show ?thesis using doc by blast
qed

text \<open>The serializer's text deserializes to what was serialized.\<close>

lemma serialized_read_back:
  assumes "toml_writes lexer printer" and "toml_reads lexer from_str"
    and "list_all utf8 (wire_texts wire)" and "wl_version wire = schema_version"
  shows "\<exists>t. serialize_wire printer wire = Inr t \<and> from_str t = Inr wire"
proof -
  obtain t where t: "serialize_wire printer wire = Inr t" "read_lines lexer t = Some (document_items wire)"
    using read_serialized[OF assms(1,3,4)] by blast
  obtain d where "toml_document (document_items wire) = Some d" "wire_lockfile_of d = Some wire"
    using document_back[OF assms(4)] by blast
  then show ?thesis using t assms(2) by (auto simp: toml_reads_def read_document_def)
qed

lemma toml_roundtrip:
  assumes "lock_ok lock" and "lock_ready ip strptime strftime lock"
    and writes: "toml_writes lexer printer" and reads: "toml_reads lexer from_str"
    and utf8: "\<And>wire. encode_lockfile strftime lock = Inr wire \<Longrightarrow> list_all utf8 (wire_texts wire)"
  shows "\<exists>t lock'. to_toml printer strftime lock = Inr t \<and> from_toml from_str ip strptime strftime t = Inr lock' \<and>
    lock_ok lock' \<and> lockfile_eq lock lock' \<and> to_toml printer strftime lock' = Inr t"
proof -
  obtain wire lock' where wire: "encode_lockfile strftime lock = Inr wire" "decode_lockfile ip strptime strftime wire = Inr lock'"
      "lock_ok lock'" "lockfile_eq lock lock'" "encode_lockfile strftime lock' = Inr wire"
    using lock_roundtrip[OF assms(1,2)] by blast
  have "wl_version wire = schema_version" using wire(2) by (auto simp: decode_lockfile_def split: if_splits)
  from serialized_read_back[OF writes reads utf8[OF wire(1)] this] obtain t where
    t: "serialize_wire printer wire = Inr t" "from_str t = Inr wire" by blast
  show ?thesis using wire t by (intro exI[of _ t] exI[of _ lock']) (simp add: to_toml_def from_toml_def)
qed

end
