(* ===== verification/Lock_Roundtrip.thy ===== *)
theory Lock_Roundtrip
  imports Lock_Resolve
begin

text \<open>
  From a resolution to a lock and back: the lock of a sound resolution is consumed by the request it
  was resolved for, and a resolution passes the exactness check against its own lock.
\<close>

section \<open>Roots\<close>

lemma exact_root_name:
  assumes "exact_root_identity request n = Some i"
    and "\<forall>root\<in>set (rq_roots request). requirement_wf (rr_package root)"
  shows "ri_name i = n"
proof -
  have "find_map (\<lambda>root. if pr_name (rr_package root) = n
      then (case pr_source (rr_package root) of SourceExact i \<Rightarrow> Some i | _ \<Rightarrow> None) else None) roots = Some i \<Longrightarrow>
      \<forall>root\<in>set roots. requirement_wf (rr_package root) \<Longrightarrow> ri_name i = n" for roots
    by (induction roots) (auto simp: requirement_wf_def split: if_splits dependency_source_constraint.splits option.splits)
  then show ?thesis using assms unfolding exact_root_identity_def by blast
qed

lemma subject_of_requirement:
  assumes "subject_for_package p q = Inr k" and "pr_name q \<noteq> ''R''" and "requirement_wf q"
    and "\<forall>root\<in>set (rq_roots (pv_request p)). requirement_wf (rr_package root)"
  shows "k \<noteq> KeyR" "subject_name k = Some (pr_name q)" "pr_source q = SourceRepository r \<Longrightarrow> k = KeyRepository r (pr_name q)"
  using assms exact_root_name[of "pv_request p" "pr_name q"]
  by (auto simp: subject_for_package_def requirement_wf_def split: dependency_source_constraint.splits option.splits)

text \<open>A loader that answers only the subjects of base packages with base packages.\<close>

definition base_names_only :: "provider \<Rightarrow> bool" where
  "base_names_only p \<longleftrightarrow>
     (\<forall>k n r. subject_name k = Some n \<longrightarrow> \<not> is_r_base_name n \<longrightarrow> pv_loader p k = Inr r \<longrightarrow>
        list_all (\<lambda>c. \<not> is_r_base_package (pc_release c)) (lr_candidates r))"

lemma meets_root_met:
  assumes met: "meets p res (rr_package root)" and base: "\<not> is_r_base_name (pr_name (rr_package root))"
    and root: "root \<in> set (rq_roots (pv_request p))"
    and wf: "\<forall>root\<in>set (rq_roots (pv_request p)). requirement_wf (rr_package root)"
    and loader: "base_names_only p"
  shows "root_met (rs_target res) (map (locked_form res) (rs_packages res)) (request_root_check root)"
proof -
  let ?q = "rr_package root"
  have nR: "pr_name ?q \<noteq> ''R''" using base by (simp add: is_r_base_name_def)
  obtain k where k: "subject_for_package p ?q = Inr k" using met unfolding meets_def by blast
  note K = subject_of_requirement[OF k nR bspec[OF wf root] wf]
  have no_base: "\<not> is_r_base_package (pc_release c)"
    if "solver_key_eq k0 k" "pv_loader p k0 = Inr r" "c \<in> set (lr_candidates r)" for k0 r c
    using loader that base K(2) subject_name_cong[OF that(1)] by (auto simp: base_names_only_def list_all_iff)
  obtain pkg where pkg: "pkg \<in> set (rs_packages res)" "matches_subject k (pk_identity (rp_release pkg))"
      "satisfies (pr_constraint ?q) (pk_version (rp_release pkg))"
      "\<forall>r n. k = KeyRepository r n \<longrightarrow> r \<in> set (rp_visible_repository_ids pkg)"
    using met k K(1) no_base unfolding meets_def by auto
  have "rp_name pkg = pr_name ?q" using pkg(2) K(2) by (simp add: matches_subject_def rp_name_def)
  moreover have "r \<in> set (rp_visible_repository_ids pkg)" if "pr_source ?q = SourceRepository r" for r
    using K(3)[OF that] pkg(4) by blast
  ultimately show ?thesis
    using pkg(1,3) base
    by (auto simp: root_met_def runtime_root_def request_root_check_def Let_def intro!: bexI[of _ pkg]
        split: dependency_source_constraint.splits)
qed

section \<open>Dependencies\<close>

text \<open>The dependency relation of a resolution, between the packages it lists.\<close>

definition resolved_depends :: "resolution \<Rightarrow> package_name \<Rightarrow> package_name \<Rightarrow> bool" where
  "resolved_depends res a b \<longleftrightarrow>
     b \<noteq> ''R'' \<and> b \<in> rp_name ` set (rs_packages res) \<and>
     (\<exists>pkg\<in>set (rs_packages res). rp_name pkg = a \<and>
        (\<exists>e\<in>set (rp_effective_dependencies pkg). pr_name (re_package e) = b))"

lemma locked_depends_resolved:
  "locked_depends (map (locked_form res) (rs_packages res)) = resolved_depends res"
  by (auto simp: fun_eq_iff locked_depends_def resolved_depends_def locked_form_dependencies) (metis image_eqI)

lemma start_names_request:
  "\<forall>root\<in>set roots. \<not> is_r_base_name (pr_name (rr_package root)) \<Longrightarrow>
     start_names (map request_root_check roots) = (\<lambda>root. pr_name (rr_package root)) ` set roots"
  by (auto simp: start_names_def runtime_root_def request_root_check_def Let_def image_def)

section \<open>The round trip\<close>

definition resolution_lock ::
  "resolution \<Rightarrow> environment_id \<Rightarrow> publication_date option \<Rightarrow> sha256_digest \<Rightarrow> version_constraint \<Rightarrow> lockfile" where
  "resolution_lock res environment cutoff intent r_requirement =
     \<lparr>lf_resolution_intent_sha256 = intent, lf_r_requirement = canonicalize_constraint r_requirement,
      lf_resolution = \<lparr>lk_target = rs_target res, lk_environment = environment, lk_publication_cutoff = cutoff,
        lk_packages = map (locked_form res) (rs_packages res)\<rparr>\<rparr>"

lemma target_eq_refl: "target_eq t t"
  by (simp add: target_eq_def vers_eq.eq_refl)

lemma resolution_lock_consumable:
  assumes ok: "resolution_ok p res" and lockable: "\<forall>pkg\<in>set (rs_packages res). lockable pkg"
    and base: "\<forall>root\<in>set (rq_roots (pv_request p)). \<not> is_r_base_name (pr_name (rr_package root))"
    and wf: "\<forall>root\<in>set (rq_roots (pv_request p)). requirement_wf (rr_package root)"
    and loader: "base_names_only p"
    and reach: "\<forall>pkg\<in>set (rs_packages res). \<exists>root\<in>set (rq_roots (pv_request p)).
      (resolved_depends res)\<^sup>*\<^sup>* (pr_name (rr_package root)) (rp_name pkg)"
  shows "consumable (resolution_lock res environment cutoff intent (rq_r_requirement (pv_request p))) (rs_target res)
    environment (rq_r_requirement (pv_request p)) (map request_root_check (rq_roots (pv_request p))) None"
proof -
  have sat: "satisfies (rq_r_requirement (pv_request p)) (rt_r_version (rs_target res))"
    and names: "sorted_wrt (<) (map rp_name (rs_packages res))"
    and roots: "\<forall>q\<in>set (rq_roots (pv_request p)). meets p res (rr_package q)"
    using ok by (simp_all add: resolution_ok_def pv_r_version_def)
  have "root_met (rs_target res) (map (locked_form res) (rs_packages res)) (request_root_check root)"
    if "root \<in> set (rq_roots (pv_request p))" for root
    using meets_root_met[OF bspec[OF roots that] bspec[OF base that] that wf loader] .
  then show ?thesis
    using locked_packages_ok[OF names lockable] sat reach
    by (simp add: consumable_def resolution_lock_def Let_def target_eq_refl locked_depends_resolved
        start_names_request[OF base])
qed

lemma verify_own_lock:
  assumes "\<forall>pkg\<in>set (rs_packages res). \<not> is_r_base_package (rp_release pkg)"
  shows "verify_exact_identity_set res (graph_of (resolution_lock res environment cutoff intent r_requirement)) = Inr ()"
proof -
  have "filter (\<lambda>p. \<not> is_r_base_package (rp_release p)) (rs_packages res) = rs_packages res"
    using assms by (simp add: filter_id_conv)
  then have "lock_releases (graph_of (resolution_lock res environment cutoff intent r_requirement)) = solved_releases res"
    by (simp add: lock_releases_def solved_releases_def graph_of_def resolution_lock_def comp_def)
  then have "set_difference (lock_releases (graph_of (resolution_lock res environment cutoff intent r_requirement)))
        (solved_releases res) = []"
      "set_difference (solved_releases res)
        (lock_releases (graph_of (resolution_lock res environment cutoff intent r_requirement))) = []"
    by (auto simp: set_difference_Nil intro: pair_eq_refl)
  then show ?thesis by (simp add: verify_exact_unfold Let_def)
qed

end
