(* ===== verification/Manifest_Intent.thy ===== *)
theory Manifest_Intent
  imports Manifest_Sound
begin

text \<open>
  The intent digest.  Its preimage is a sequence of length-delimited fields; the sequence can be
  read back although lists carry no counts: a clause starts with a relation tag that no source has,
  and a sorted allowlist cannot swallow the fields of what follows it.
\<close>

section \<open>Fields\<close>

lemma append_field_prefix:
  assumes "sized v" "sized w"
  shows "append_field v @ r = append_field w @ r' \<longleftrightarrow> v = w \<and> r = r'"
proof
  assume "append_field v @ r = append_field w @ r'"
  then have "to_be_bytes (word_of_nat (length v)) = to_be_bytes (word_of_nat (length w)) \<and> v @ r = w @ r'"
    by (simp add: append_field_def)
  then have "length v = length w" "v @ r = w @ r'"
    using assms by (simp_all add: to_be_bytes_inject sized_def word_of_nat64_inject)
  then show "v = w \<and> r = r'" by simp
qed simp

interpretation field_code: prefix_code append_field sized "(=)"
  by unfold_locales (rule append_field_prefix)

lemma append_field_not_Nil [simp]: "append_field v \<noteq> []"
proof -
  have "0 < length (append_field v)" by (simp add: append_field_def)
  then show ?thesis by auto
qed

lemma fields_inject:
  "list_all sized xs \<Longrightarrow> list_all sized ys \<Longrightarrow> concat (map append_field xs) = concat (map append_field ys) \<longleftrightarrow> xs = ys"
proof (induction xs arbitrary: ys)
  case Nil
  then show ?case by (cases ys) auto
next
  case (Cons x xs)
  then show ?case by (cases ys) (auto simp: append_field_prefix)
qed

section \<open>Versions and constraints\<close>

definition version_text :: "r_package_version \<Rightarrow> string" where
  "version_text v =
     (let t = join_str ''.'' (map (\<lambda>w. show_nat (unat w))
                (take (canonical_component_count v) (version_components v)))
      in if t = [] then ''0'' else t)"

lemma show_word_inject: "show_nat (unat v) = show_nat (unat w) \<longleftrightarrow> v = (w :: u32)"
  by (metis component_value_show)

lemma canonical_take: "take (canonical_component_count v) (version_components v) = strip_zeros (version_components v)"
  by (simp add: canonical_component_count_def canonical_len_strip version_components_stored take_strip_zeros)

lemma dotted_inject:
  "join_str ''.'' (map (\<lambda>w. show_nat (unat w)) xs) = join_str ''.'' (map (\<lambda>w. show_nat (unat w)) ys) \<longleftrightarrow> xs = (ys :: u32 list)"
proof
  let ?t = "\<lambda>xs :: u32 list. map (\<lambda>w. show_nat (unat w)) xs"
  have pieces: "split_on (\<lambda>c. c = CHR ''.'') (join_str ''.'' (?t zs)) = ?t zs" if "zs \<noteq> []" for zs
    using that show_nat_no_separator by (intro split_on_join) (auto simp: is_version_separator_def)
  have empty: "join_str ''.'' (?t zs) = [] \<longleftrightarrow> zs = []" for zs
    by (cases zs; cases "tl zs") auto
  assume "join_str ''.'' (?t xs) = join_str ''.'' (?t ys)"
  then have "?t xs = ?t ys" using pieces empty by (metis list.map_disc_iff)
  moreover have "inj (\<lambda>w :: u32. show_nat (unat w))" by (simp add: inj_def show_word_inject)
  ultimately show "xs = ys" by (simp only: inj_map_eq_map)
qed simp

lemma last_strip_zeros: "strip_zeros xs \<noteq> [] \<Longrightarrow> last (strip_zeros xs) \<noteq> 0"
  by (induction xs rule: rev_induct) (auto simp: strip_zeros_snoc split: if_splits)

lemma version_text_inject: "version_text v = version_text w \<longleftrightarrow> version_eq v w"
proof -
  let ?a = "strip_zeros (version_components v)" and ?b = "strip_zeros (version_components w)"
  let ?j = "\<lambda>xs :: u32 list. join_str ''.'' (map (\<lambda>w. show_nat (unat w)) xs)"
  have zero: "?j xs \<noteq> ''0''" if "xs = strip_zeros ys" for xs ys
  proof
    assume "?j xs = ''0''"
    moreover have "show_nat 0 = ''0''" by code_simp
    ultimately have "?j xs = ?j [0]" by simp
    then have "xs = [0]" by (simp only: dotted_inject)
    moreover have "xs \<noteq> [] \<Longrightarrow> last xs \<noteq> 0" using that by (simp add: last_strip_zeros)
    ultimately show False by simp
  qed
  have shown: "version_text u = (if strip_zeros (version_components u) = [] then ''0'' else ?j (strip_zeros (version_components u)))" for u
    using dotted_inject[of "strip_zeros (version_components u)" "[]"] by (simp add: version_text_def canonical_take Let_def)
  show ?thesis unfolding shown version_eq_strip using zero dotted_inject by (auto split: if_splits) metis+
qed

definition clause_fields :: "version_clause \<Rightarrow> bytes list" where
  "clause_fields c = [relation_tag (vc_op c), version_text (vc_version c)]"

definition constraint_fields :: "version_constraint \<Rightarrow> bytes list" where
  "constraint_fields c = ''constraint'' # concat (map clause_fields (canonical_clauses (clauses c)))"

lemma append_constraint_fields: "append_constraint c = concat (map append_field (constraint_fields c))"
proof -
  have "concat (map append_field (concat (map clause_fields cs))) =
      concat (map (\<lambda>cl. append_field (relation_tag (vc_op cl)) @ append_field (version_text (vc_version cl))) cs)" for cs
    by (induction cs) (simp_all add: clause_fields_def)
  then show ?thesis by (simp add: append_constraint_def constraint_fields_def version_text_def Let_def)
qed

lemma relation_tag_inject: "relation_tag a = relation_tag b \<longleftrightarrow> a = b"
  by (cases a; cases b) simp_all

lemma clause_fields_inject: "clause_fields a = clause_fields b \<longleftrightarrow> clause_eq a b"
  by (simp add: clause_fields_def relation_tag_inject version_text_inject clause_eq_def)

text \<open>What follows a constraint does not start with a relation tag.\<close>

definition no_relation :: "bytes list \<Rightarrow> bool" where
  "no_relation r = (\<forall>x xs. r = x # xs \<longrightarrow> (\<forall>op. x \<noteq> relation_tag op))"

lemma no_relation_Cons [simp]: "no_relation (x # xs) = (\<forall>op. x \<noteq> relation_tag op)"
  by (auto simp: no_relation_def)

lemma clauses_prefix:
  "no_relation r \<Longrightarrow> no_relation r' \<Longrightarrow>
     concat (map clause_fields cs) @ r = concat (map clause_fields ds) @ r' \<longleftrightarrow> list_all2 clause_eq cs ds \<and> r = r'"
proof (induction cs arbitrary: ds)
  case Nil
  then show ?case by (cases ds) (auto simp: clause_fields_def)
next
  case (Cons c cs)
  then show ?case
  proof (cases ds)
    case (Cons d es)
    then show ?thesis using Cons.IH[of es] Cons.prems
      by (auto simp: clause_fields_def clause_eq_def relation_tag_inject version_text_inject)
  qed (auto simp: clause_fields_def)
qed

definition same_constraint :: "version_constraint \<Rightarrow> version_constraint \<Rightarrow> bool" where
  "same_constraint a b = constraint_eq (canonicalize_constraint a) (canonicalize_constraint b)"

lemma constraint_prefix:
  "no_relation r \<Longrightarrow> no_relation r' \<Longrightarrow>
     constraint_fields a @ r = constraint_fields b @ r' \<longleftrightarrow> same_constraint a b \<and> r = r'"
  by (simp add: constraint_fields_def clauses_prefix same_constraint_def canonicalize_constraint_def constraint_eq_def)

section \<open>Sources and roots\<close>

fun selector_fields :: "git_selector \<Rightarrow> bytes list" where
  "selector_fields DefaultBranch = [''default-branch'']"
| "selector_fields (Branch v) = [''branch'', v]"
| "selector_fields (Tag v) = [''tag'', v]"
| "selector_fields (Rev v) = [''rev'', v]"

fun source_fields :: "manifest_source \<Rightarrow> bytes list" where
  "source_fields (RegistrySource r) = [''registry-source'', or_empty r]"
| "source_fields (GitSource u s d) = [''git'', u] @ selector_fields s @ [or_empty d]"
| "source_fields (UrlSource u h) = [''url'', u, or_empty h]"
| "source_fields (PathSource p h) = [''path'', p, or_empty h]"

fun expansion_field :: "root_expansion_policy \<Rightarrow> bytes" where
  "expansion_field HardOnly = ''hard-only''"
| "expansion_field DirectSuggests = ''direct-suggests''"

definition root_fields :: "composed_root_intent \<Rightarrow> bytes list" where
  "root_fields root =
     [''root'', ci_name root] @ constraint_fields (ci_constraint root) @ source_fields (ci_source root)
     @ [expansion_field (ci_expansion root)]"

text \<open>An optional text is absent or not empty, as every constructor leaves it.\<close>

definition present :: "string option \<Rightarrow> bool" where
  "present v = (v \<noteq> Some [])"

fun source_present :: "manifest_source \<Rightarrow> bool" where
  "source_present (RegistrySource r) = present r"
| "source_present (GitSource u s d) = present d"
| "source_present (UrlSource u h) = present h"
| "source_present (PathSource p h) = present h"

lemma or_empty_inject: "present a \<Longrightarrow> present b \<Longrightarrow> or_empty a = or_empty b \<longleftrightarrow> a = b"
  by (cases a; cases b) (auto simp: present_def or_empty_def)

lemma selector_prefix: "selector_fields a @ r = selector_fields b @ r' \<longleftrightarrow> a = b \<and> r = r'"
  by (cases a; cases b) auto

lemma source_prefix:
  assumes "source_present a" "source_present b"
  shows "source_fields a @ r = source_fields b @ r' \<longleftrightarrow> a = b \<and> r = r'"
proof (cases a)
  case (GitSource u s d)
  then show ?thesis
    using assms by (cases b) (auto simp: selector_prefix or_empty_inject)
qed (use assms in \<open>cases b; auto simp: or_empty_inject\<close>)+

lemma append_source_fields: "append_source s = concat (map append_field (source_fields s))"
proof (cases s)
  case (GitSource u sel d)
  then show ?thesis by (cases sel) simp_all
qed simp_all

lemma append_root_fields: "append_root root = concat (map append_field (root_fields root))"
  by (cases "ci_expansion root")
    (simp_all add: append_root_def root_fields_def append_constraint_fields append_source_fields)

lemma source_no_relation: "no_relation (source_fields s @ r)"
proof -
  have "hd (source_fields s) \<in> {''registry-source'', ''git'', ''url'', ''path''}" by (cases s) auto
  moreover have "relation_tag op \<notin> {''registry-source'', ''git'', ''url'', ''path''}" for op by (cases op) simp_all
  ultimately show ?thesis by (cases s) (auto dest: sym)
qed

definition same_root :: "composed_root_intent \<Rightarrow> composed_root_intent \<Rightarrow> bool" where
  "same_root a b =
     (ci_name a = ci_name b \<and> same_constraint (ci_constraint a) (ci_constraint b) \<and>
      ci_source a = ci_source b \<and> ci_expansion a = ci_expansion b)"

lemma expansion_field_inject: "expansion_field a = expansion_field b \<longleftrightarrow> a = b"
  by (cases a; cases b) simp_all

lemma root_prefix:
  assumes "source_present (ci_source a)" "source_present (ci_source b)"
  shows "root_fields a @ r = root_fields b @ r' \<longleftrightarrow> same_root a b \<and> r = r'"
  by (auto simp: root_fields_def constraint_prefix[OF source_no_relation source_no_relation]
      source_prefix[OF assms] expansion_field_inject same_root_def)

lemma roots_inject:
  "list_all (\<lambda>root. source_present (ci_source root)) xs \<Longrightarrow> list_all (\<lambda>root. source_present (ci_source root)) ys \<Longrightarrow>
     concat (map root_fields xs) = concat (map root_fields ys) \<longleftrightarrow> list_all2 same_root xs ys"
proof (induction xs arbitrary: ys)
  case Nil
  then show ?case by (cases ys) (auto simp: root_fields_def)
next
  case (Cons x xs)
  then show ?case
  proof (cases ys)
    case (Cons y zs)
    then show ?thesis using Cons.IH[of zs] Cons.prems root_prefix[of x y] by auto
  qed (auto simp: root_fields_def)
qed

section \<open>Repositories\<close>

definition packages_fields :: "package_name list option \<Rightarrow> bytes list" where
  "packages_fields ps = (case ps of None \<Rightarrow> [''all''] | Some ps \<Rightarrow> ''allowlist'' # ps)"

definition repository_fields :: "repository_spec \<Rightarrow> bytes list" where
  "repository_fields r =
     [''repository'', sp_id r, ''registry''] @ registry_fields (sp_registry r)
     @ [sp_manifest_endpoint r, ''packages''] @ packages_fields (sp_packages r)"

lemma append_repository_fields: "append_repository r = concat (map append_field (repository_fields r))"
  by (cases "sp_registry r"; cases "sp_packages r")
    (simp_all add: append_repository_def repository_fields_def append_registry_def registry_fields_def packages_fields_def)

lemma registry_prefix: "registry_fields a @ r = registry_fields b @ r' \<longleftrightarrow> a = b \<and> r = r'"
  by (cases a; cases b) (auto simp: registry_fields_def)

text \<open>
  What can follow the packages of a repository: nothing, another repository or a root.  A sorted
  allowlist cannot contain the beginning of either, as \<^verbatim>\<open>registry\<close> sorts before \<^verbatim>\<open>repository\<close> and
  \<^verbatim>\<open>constraint\<close> before \<^verbatim>\<open>root\<close>.
\<close>

definition repository_rest :: "bytes list \<Rightarrow> bool" where
  "repository_rest r \<longleftrightarrow>
     (\<exists>i tag t. r = ''repository'' # i # ''registry'' # tag # t \<and> tag \<noteq> ''registry'' \<and> tag \<noteq> ''constraint'')"

definition root_rest :: "bytes list \<Rightarrow> bool" where
  "root_rest r \<longleftrightarrow> (\<exists>n x t. r = ''root'' # n # ''constraint'' # x # t \<and> x \<noteq> ''registry'' \<and> x \<noteq> ''constraint'')"

definition valid_rest :: "bytes list \<Rightarrow> bool" where
  "valid_rest r \<longleftrightarrow> r = [] \<or> repository_rest r \<or> root_rest r"

lemma not_swallowed:
  assumes "sorted_wrt (<) us" and "us \<noteq> []" and "valid_rest (us @ r)" and "valid_rest r"
  shows False
proof -
  have order: "\<not> ''repository'' < (''registry'' :: string)" "\<not> ''root'' < (''constraint'' :: string)" by code_simp+
  obtain a us1 where a: "us = a # us1" using assms(2) by (cases us) auto
  show False
  proof (cases us1)
    case Nil
    then show False using assms(3,4) a by (auto simp: valid_rest_def repository_rest_def root_rest_def)
  next
    case (Cons b us2)
    then show False using assms a order
      by (cases us2) (auto simp: valid_rest_def repository_rest_def root_rest_def)
  qed
qed

lemma allowlist_prefix:
  assumes "sorted_wrt (<) ps" "sorted_wrt (<) qs" "valid_rest r" "valid_rest r'"
  shows "ps @ r = qs @ r' \<longleftrightarrow> ps = qs \<and> r = r'"
proof
  assume "ps @ r = qs @ r'"
  then obtain us where us: "ps = qs @ us \<and> us @ r = r' \<or> ps @ us = qs \<and> r = us @ r'"
    by (auto simp: append_eq_append_conv2)
  have "us = []"
  proof (rule ccontr)
    assume ne: "us \<noteq> []"
    have "sorted_wrt (<) us" using us assms(1,2) by (auto simp: sorted_wrt_append)
    then show False using us not_swallowed[of us r] not_swallowed[of us r'] ne assms(3,4) by auto
  qed
  then show "ps = qs \<and> r = r'" using us by auto
qed simp

definition packages_sorted :: "repository_spec \<Rightarrow> bool" where
  "packages_sorted r = (case sp_packages r of None \<Rightarrow> True | Some ps \<Rightarrow> sorted_wrt (<) ps)"

lemma packages_prefix:
  assumes "pred_option (sorted_wrt (<)) a" "pred_option (sorted_wrt (<)) b" "valid_rest r" "valid_rest r'"
  shows "packages_fields a @ r = packages_fields b @ r' \<longleftrightarrow> a = b \<and> r = r'"
  using assms allowlist_prefix by (cases a; cases b) (auto simp: packages_fields_def)

lemma repository_prefix:
  assumes "packages_sorted a" "packages_sorted b" "valid_rest r" "valid_rest r'"
  shows "repository_fields a @ r = repository_fields b @ r' \<longleftrightarrow> a = b \<and> r = r'"
proof -
  have "pred_option (sorted_wrt (<)) (sp_packages a)" "pred_option (sorted_wrt (<)) (sp_packages b)"
    using assms(1,2) by (auto simp: packages_sorted_def split: option.splits)
  note P = packages_prefix[OF this assms(3,4)]
  have "repository_fields a @ r = repository_fields b @ r' \<longleftrightarrow>
      sp_id a = sp_id b \<and> sp_registry a = sp_registry b \<and> sp_manifest_endpoint a = sp_manifest_endpoint b \<and>
      sp_packages a = sp_packages b \<and> r = r'"
    by (simp add: repository_fields_def registry_prefix P)
  then show ?thesis by (cases a; cases b) auto
qed

lemma repository_rest_fields: "repository_rest (repository_fields s @ r)"
  by (cases "sp_registry s") (simp_all add: repository_rest_def repository_fields_def registry_fields_def)

lemma root_rest_fields: "root_rest (root_fields s @ r)"
proof -
  obtain x t where x: "concat (map clause_fields (canonical_clauses (clauses (ci_constraint s)))) @ source_fields (ci_source s)
      @ expansion_field (ci_expansion s) # r = x # t" "x \<noteq> ''registry'' \<and> x \<noteq> ''constraint''"
  proof (cases "canonical_clauses (clauses (ci_constraint s))")
    case Nil
    then show ?thesis using that by (cases "ci_source s") auto
  next
    case (Cons c cs)
    then show ?thesis using that by (cases "vc_op c") (auto simp: clause_fields_def)
  qed
  then show ?thesis by (auto simp: root_rest_def root_fields_def constraint_fields_def)
qed

lemma roots_rest: "valid_rest (concat (map root_fields roots))"
  by (cases roots) (auto simp: valid_rest_def root_rest_fields)

lemma repositories_rest: "valid_rest r \<Longrightarrow> valid_rest (concat (map repository_fields rs) @ r)"
  by (cases rs) (auto simp: valid_rest_def repository_rest_fields)

lemma repositories_prefix:
  assumes "r = concat (map root_fields xs)" "r' = concat (map root_fields ys)"
  shows "list_all packages_sorted as \<Longrightarrow> list_all packages_sorted bs \<Longrightarrow>
    concat (map repository_fields as) @ r = concat (map repository_fields bs) @ r' \<longleftrightarrow> as = bs \<and> r = r'"
proof (induction as arbitrary: bs)
  case Nil
  show ?case using assms by (cases bs; cases xs) (auto simp: repository_fields_def root_fields_def)
next
  case (Cons a as)
  show ?case
  proof (cases bs)
    case Nil
    then show ?thesis using assms by (cases ys) (auto simp: repository_fields_def root_fields_def)
  next
    case (Cons b cs)
    have "valid_rest (concat (map repository_fields as) @ r)" "valid_rest (concat (map repository_fields cs) @ r')"
      using repositories_rest roots_rest assms by auto
    then show ?thesis using Cons.IH[of cs] Cons.prems Cons repository_prefix[of a b] by auto
  qed
qed

section \<open>The payload\<close>

definition intent_fields :: "(publication_date \<Rightarrow> string) \<Rightarrow> composed_environment \<Rightarrow> bytes list" where
  "intent_fields strftime env =
     [''schema'', ''1'', ''environment'', ce_environment env, ''r''] @ constraint_fields (ce_r_requirement env)
     @ [''published-before'', or_empty (map_option strftime (ce_published_before env))]
     @ concat (map repository_fields (ce_repositories env)) @ concat (map root_fields (ce_roots env))"

lemma intent_payload_fields: "intent_payload strftime env = concat (map append_field (intent_fields strftime env))"
proof -
  have "concat (map append_repository rs) = concat (map append_field (concat (map repository_fields rs)))" for rs
    by (induction rs) (simp_all add: append_repository_fields)
  moreover have "concat (map append_root rs) = concat (map append_field (concat (map root_fields rs)))" for rs
    by (induction rs) (simp_all add: append_root_fields)
  ultimately show ?thesis by (simp add: intent_payload_def intent_fields_def append_constraint_fields)
qed

definition intent_wf :: "(publication_date \<Rightarrow> string) \<Rightarrow> composed_environment \<Rightarrow> bool" where
  "intent_wf strftime env \<longleftrightarrow>
     list_all sized (intent_fields strftime env) \<and>
     list_all packages_sorted (ce_repositories env) \<and>
     list_all (\<lambda>root. source_present (ci_source root)) (ce_roots env)"

definition same_intent :: "composed_environment \<Rightarrow> composed_environment \<Rightarrow> bool" where
  "same_intent a b \<longleftrightarrow>
     ce_environment a = ce_environment b \<and> same_constraint (ce_r_requirement a) (ce_r_requirement b) \<and>
     ce_published_before a = ce_published_before b \<and> ce_repositories a = ce_repositories b \<and>
     list_all2 same_root (ce_roots a) (ce_roots b)"

lemma date_field_inject:
  assumes "\<And>d. strftime d \<noteq> []" and "\<And>d e. strftime d = strftime e \<Longrightarrow> d = e"
  shows "or_empty (map_option strftime a) = or_empty (map_option strftime b) \<longleftrightarrow> a = b"
  using assms(2) by (cases a; cases b) (auto simp: or_empty_def assms(1) assms(1)[symmetric])

lemma published_no_relation: "no_relation (''published-before'' # r)"
proof -
  have "relation_tag op \<noteq> ''published-before''" for op by (cases op) simp_all
  then show ?thesis by (auto dest: sym)
qed

lemma intent_fields_inject:
  assumes "intent_wf strftime a" "intent_wf strftime b"
    and "\<And>d. strftime d \<noteq> []" and "\<And>d e. strftime d = strftime e \<Longrightarrow> d = e"
  shows "intent_fields strftime a = intent_fields strftime b \<longleftrightarrow> same_intent a b"
  using assms(1,2)
  by (simp add: intent_fields_def constraint_prefix[OF published_no_relation published_no_relation]
      date_field_inject[of strftime, OF assms(3,4)] repositories_prefix[OF refl refl] roots_inject
      same_intent_def intent_wf_def)

lemma hex_digest_hex_string: "hex_digest = hex_string"
  by (simp add: fun_eq_iff hex_digest_def hex_string_def)

lemma intent_preimage_inject:
  assumes "intent_wf strftime a" "intent_wf strftime b"
  shows "intent_preimage strftime a = intent_preimage strftime b \<longleftrightarrow> intent_fields strftime a = intent_fields strftime b"
proof
  assume "intent_preimage strftime a = intent_preimage strftime b"
  then have "intent_payload strftime a = intent_payload strftime b"
    unfolding intent_preimage_def by simp
  then show "intent_fields strftime a = intent_fields strftime b"
    using assms fields_inject by (simp add: intent_payload_fields intent_wf_def)
qed (simp add: intent_preimage_def intent_payload_fields)

lemma intent_digest_ok:
  assumes "\<And>bs. length (sha bs) = 32"
  shows "resolution_intent_digest strftime sha env = Inr (hex_string (sha (intent_preimage strftime env)))"
  using assms by (simp add: resolution_intent_digest_def hex_digest_hex_string sha256_digest_new_Inr_iff hex_string_ok)

end
