(* ===== verification/Manifest_Compose.thy ===== *)
theory Manifest_Compose
  imports Manifest_Sound Manifest_Paths
begin

text \<open>
  Composing an environment: every root is the conjunction of the declarations of its name in the
  base dependencies and in the groups of the environment, and the \<^verbatim>\<open>expect\<close> of the allowlist check
  is never reached.
\<close>

section \<open>One root\<close>

text \<open>A source may only be narrowed from any repository to one repository.\<close>

definition source_within :: "manifest_source \<Rightarrow> manifest_source \<Rightarrow> bool" where
  "source_within s t = (s = t \<or> s = RegistrySource None \<and> (\<exists>r. t = RegistrySource (Some r)))"

definition composed_of :: "package_name \<Rightarrow> manifest_dependency_spec list \<Rightarrow> composed_root_intent \<Rightarrow> bool" where
  "composed_of n ds root \<longleftrightarrow>
     ci_name root = n \<and> n \<noteq> ''R'' \<and>
     (\<forall>d\<in>set ds. is_ok (parse_package_constraint (ds_version d) n) \<and>
        (\<exists>s. normalize_source n (ds_source d) = Inr s \<and> source_within s (ci_source root))) \<and>
     (\<exists>d\<in>set ds. normalize_source n (ds_source d) = Inr (ci_source root)) \<and>
     (\<forall>v. satisfies (ci_constraint root) v \<longleftrightarrow>
        (\<forall>d\<in>set ds. \<forall>c. parse_package_constraint (ds_version d) n = Inr c \<longrightarrow> satisfies c v)) \<and>
     (ci_expansion root = DirectSuggests \<longleftrightarrow> (\<exists>d\<in>set ds. ds_include_suggests d))"

lemma source_within_refl: "source_within s s"
  by (simp add: source_within_def)

lemma source_within_trans: "source_within s t \<Longrightarrow> source_within t u \<Longrightarrow> source_within s u"
  by (auto simp: source_within_def)

lemma merge_sources_Inr:
  "merge_sources n l r = Inr s \<Longrightarrow> (s = l \<or> s = r) \<and> source_within l s \<and> source_within r s"
  by (auto simp: merge_sources_def source_within_def split: if_splits manifest_source.splits option.splits)

lemma dependency_root_Inr:
  assumes "dependency_root n d = Inr root"
  shows "ci_name root = n" "parse_package_constraint (ds_version d) n = Inr (ci_constraint root)"
    "normalize_source n (ds_source d) = Inr (ci_source root)"
    "ci_expansion root = DirectSuggests \<longleftrightarrow> ds_include_suggests d"
  using assms by (auto simp: dependency_root_def bind_res_Inr_iff map_res_Inr_iff split: if_splits)

lemma composed_single: "dependency_root n d = Inr root \<Longrightarrow> n \<noteq> ''R'' \<Longrightarrow> composed_of n [d] root"
  using dependency_root_Inr[of n d root] by (simp add: composed_of_def source_within_refl is_ok_iff)

lemma composed_merge:
  assumes a: "composed_of n ds a" and b: "dependency_root n d = Inr b" and m: "merge_roots a b = Inr r"
  shows "composed_of n (ds @ [d]) r"
proof -
  note B = dependency_root_Inr[OF b]
  have A: "\<And>e. e \<in> set ds \<Longrightarrow> is_ok (parse_package_constraint (ds_version e) n)"
    "\<And>e. e \<in> set ds \<Longrightarrow> \<exists>s. normalize_source n (ds_source e) = Inr s \<and> source_within s (ci_source a)"
    "\<exists>e\<in>set ds. normalize_source n (ds_source e) = Inr (ci_source a)" "ci_name a = n" "n \<noteq> ''R''"
    "\<And>v. satisfies (ci_constraint a) v \<longleftrightarrow>
      (\<forall>d\<in>set ds. \<forall>c. parse_package_constraint (ds_version d) n = Inr c \<longrightarrow> satisfies c v)"
    "ci_expansion a = DirectSuggests \<longleftrightarrow> (\<exists>d\<in>set ds. ds_include_suggests d)"
    using a by (auto simp: composed_of_def)
  have src: "merge_sources (ci_name a) (ci_source a) (ci_source b) = Inr (ci_source r)"
    and con: "ci_constraint r = canonicalize_constraint (conjunction (ci_constraint a) (ci_constraint b))"
    and name: "ci_name r = ci_name a"
    and ex: "ci_expansion r = DirectSuggests \<longleftrightarrow> ci_expansion a = DirectSuggests \<or> ci_expansion b = DirectSuggests"
    using m by (auto simp: merge_roots_def map_res_Inr_iff split: if_splits)
  note S = merge_sources_Inr[OF src]
  have sources: "\<exists>s. normalize_source n (ds_source e) = Inr s \<and> source_within s (ci_source r)" if "e \<in> set (ds @ [d])" for e
    using that A(2) B(3) S source_within_trans by (metis (no_types) Un_iff empty_iff insert_iff list.set set_append)
  have "\<exists>e\<in>set (ds @ [d]). normalize_source n (ds_source e) = Inr (ci_source r)"
    using S A(3) B(3) by auto
  moreover have "satisfies (ci_constraint r) v \<longleftrightarrow>
      (\<forall>e\<in>set (ds @ [d]). \<forall>c. parse_package_constraint (ds_version e) n = Inr c \<longrightarrow> satisfies c v)" for v
    using A(6)[of v] B(2) by (auto simp: con satisfies_conjunction)
  ultimately show ?thesis
    using A(1,4,5,7) B(2,4) name ex sources by (auto simp: composed_of_def is_ok_iff)
qed

section \<open>All roots\<close>

definition specs :: "package_name \<Rightarrow> dependency_map \<Rightarrow> manifest_dependency_spec list" where
  "specs n es = map snd (filter (\<lambda>e. fst e = n) es)"

definition roots_of :: "dependency_map \<Rightarrow> root_map \<Rightarrow> bool" where
  "roots_of es roots \<longleftrightarrow>
     sorted_wrt (<) (map fst roots) \<and>
     (\<forall>n. (map_of roots n = None \<longleftrightarrow> specs n es = []) \<and>
          (\<forall>root. map_of roots n = Some root \<longrightarrow> composed_of n (specs n es) root))"

lemma specs_snoc: "specs n (es @ [(m, d)]) = (if m = n then specs n es @ [d] else specs n es)"
  by (simp add: specs_def)

lemma roots_of_step:
  assumes inv: "roots_of es roots" and step: "append_dependency roots (n, d) = Inr roots'"
  shows "roots_of (es @ [(n, d)]) roots'"
proof -
  have sorted: "sorted_wrt (<) (map fst roots)" using inv by (simp add: roots_of_def)
  obtain new where nR: "n \<noteq> ''R''" and new: "dependency_root n d = Inr new"
    and rest: "(case map_of roots n of
        Some existing \<Rightarrow> map_res (bt_insert (bt_remove roots n) n) (merge_roots existing new)
      | None \<Rightarrow> Inr (bt_insert roots n new)) = Inr roots'"
    using step by (auto simp: append_dependency_def bind_res_Inr_iff split: if_splits)
  obtain root where root: "composed_of n (specs n es @ [d]) root"
    and roots': "map_of roots' = (map_of roots)(n \<mapsto> root)" "sorted_wrt (<) (map fst roots')"
  proof (cases "map_of roots n")
    case None
    then have "specs n es = []" using inv by (simp add: roots_of_def)
    then show ?thesis
      using that[of new] composed_single[OF new nR] rest None sorted
      by (auto simp: map_of_bt_insert sorted_bt_insert)
  next
    case (Some existing)
    then obtain r where r: "merge_roots existing new = Inr r" "roots' = bt_insert (bt_remove roots n) n r"
      using rest by (auto simp: map_res_Inr_iff)
    have "composed_of n (specs n es) existing" using inv Some by (simp add: roots_of_def)
    then show ?thesis
      using that[of r] composed_merge[OF _ new r(1)] r(2) sorted_bt_remove[OF sorted, of n]
      by (auto simp: map_of_bt_insert sorted_bt_insert map_of_bt_remove fun_eq_iff)
  qed
  then show ?thesis using inv by (auto simp: roots_of_def specs_snoc)
qed

lemma roots_of_dependencies:
  "roots_of es roots \<Longrightarrow> append_dependencies roots ds = Inr roots' \<Longrightarrow> roots_of (es @ ds) roots'"
proof (induction ds arbitrary: es roots)
  case (Cons e ds)
  obtain mid where mid: "append_dependency roots e = Inr mid" "append_dependencies mid ds = Inr roots'"
    using Cons.prems(2) by (auto simp: append_dependencies_def bind_res_Inr_iff)
  have "roots_of (es @ [e]) mid" using roots_of_step[OF Cons.prems(1)] mid(1) by (cases e) blast
  then show ?case using Cons.IH[of "es @ [e]"] mid(2) by simp
qed (simp add: append_dependencies_def)

lemma roots_of_Nil: "roots_of [] []"
  by (simp add: roots_of_def specs_def)

text \<open>The declarations an environment is composed of: the base dependencies, then its groups.\<close>

definition group_dependencies :: "manifest_document \<Rightarrow> string \<Rightarrow> dependency_map" where
  "group_dependencies document g = (case map_of (doc_groups document) g of Some ds \<Rightarrow> ds | None \<Rightarrow> [])"

definition declarations :: "manifest_document \<Rightarrow> string list \<Rightarrow> dependency_map" where
  "declarations document gs = doc_dependencies document @ concat (map (group_dependencies document) gs)"

lemma roots_of_groups:
  assumes "roots_of es roots"
    and "try_fold (\<lambda>roots g. case map_of (doc_groups document) g of
            None \<Rightarrow> Inl (UnknownEnvironmentGroup environment g)
          | Some dependencies \<Rightarrow> append_dependencies roots dependencies) roots gs = Inr roots'"
  shows "roots_of (es @ concat (map (group_dependencies document) gs)) roots'"
  using assms
proof (induction gs arbitrary: es roots)
  case (Cons g gs)
  obtain ds mid where "map_of (doc_groups document) g = Some ds" "append_dependencies roots ds = Inr mid"
    and rest: "try_fold (\<lambda>roots g. case map_of (doc_groups document) g of
            None \<Rightarrow> Inl (UnknownEnvironmentGroup environment g)
          | Some dependencies \<Rightarrow> append_dependencies roots dependencies) mid gs = Inr roots'"
    using Cons.prems(2) by (auto simp: bind_res_Inr_iff split: option.splits)
  then have "roots_of (es @ group_dependencies document g) mid"
    using roots_of_dependencies[OF Cons.prems(1)] by (simp add: group_dependencies_def)
  then show ?case using Cons.IH[OF _ rest] by fastforce
qed simp

section \<open>Validated references\<close>

lemma validate_repositories_Inr:
  "validate_repositories seen rs = Inr ids \<Longrightarrow> set ids = set seen \<union> sp_id ` set rs"
proof (induction rs arbitrary: seen)
  case (Cons r rs)
  then show ?case by (auto simp: bind_res_Inr_iff split: if_splits)
qed simp

lemma validate_dependency_repository:
  "validate_dependency ids (n, d) = Inr () \<Longrightarrow> ds_source d = RegistrySource (Some r) \<Longrightarrow> r \<in> set ids"
  by (auto simp: validate_dependency_def bind_res_Inr_iff split: if_splits)

lemma validated_references:
  assumes "validate_document document = Inr ()" and "(n, d) \<in> set (declarations document gs)"
    and "ds_source d = RegistrySource (Some r)"
  shows "r \<in> sp_id ` set (doc_repositories document)"
proof -
  obtain ids where ids: "validate_repositories [] (doc_repositories document) = Inr ids"
    and base: "validate_dependency_maps (doc_dependencies document) ids = Inr ()"
    and groups: "each (\<lambda>ds. validate_dependency_maps ds ids) (map snd (doc_groups document)) = Inr ()"
    using assms(1) by (auto simp: validate_document_def bind_res_Inr_iff split: if_splits)
  have "validate_dependency ids (n, d) = Inr ()"
  proof (cases "(n, d) \<in> set (doc_dependencies document)")
    case True
    then show ?thesis using base by (auto simp: validate_dependency_maps_def each_Inr_iff)
  next
    case False
    then obtain g ds where "map_of (doc_groups document) g = Some ds" "(n, d) \<in> set ds"
      using assms(2) that by (auto simp: declarations_def group_dependencies_def split: option.splits) (metis (no_types))
    then have "ds \<in> snd ` set (doc_groups document)" "(n, d) \<in> set ds" using map_of_SomeD by force+
    then show ?thesis using groups by (auto simp: validate_dependency_maps_def each_Inr_iff)
  qed
  then show ?thesis using validate_dependency_repository[OF _ assms(3)] validate_repositories_Inr[OF ids] by auto
qed

lemma normalize_source_registry:
  "normalize_source n s = Inr (RegistrySource r) \<Longrightarrow> s = RegistrySource r"
  by (cases s) (auto simp: map_res_Inr_iff)

lemma root_reference_known:
  assumes "validate_document document = Inr ()" and "roots_of (declarations document gs) roots"
    and "(n, root) \<in> set roots" and "ci_source root = RegistrySource (Some r)"
  shows "r \<in> sp_id ` set (doc_repositories document)"
proof -
  have "distinct (map fst roots)" using assms(2) strict_sorted_iff by (auto simp: roots_of_def)
  then have "map_of roots n = Some root" using assms(3) by simp
  then have "composed_of n (specs n (declarations document gs)) root" using assms(2) by (simp add: roots_of_def)
  then obtain d where "d \<in> set (specs n (declarations document gs))" "ds_source d = RegistrySource (Some r)"
    using assms(4) normalize_source_registry by (fastforce simp: composed_of_def)
  then show ?thesis using validated_references[OF assms(1)] by (auto simp: specs_def)
qed

section \<open>The composed environment\<close>

definition environment_groups :: "manifest_document \<Rightarrow> environment_id \<Rightarrow> string list" where
  "environment_groups document environment =
     (case map_of (doc_environments document) environment of Some gs \<Rightarrow> gs | None \<Rightarrow> [])"

text \<open>What a composed environment promises.\<close>

definition composition_ok ::
  "manifest_document \<Rightarrow> string \<Rightarrow> resolution_target \<Rightarrow> locked_identities \<Rightarrow> composed_environment \<Rightarrow> bool" where
  "composition_ok document input target locked env \<longleftrightarrow>
     ce_environment env = input \<and> ce_target env = target \<and> ce_locked env = locked \<and>
     ce_published_before env = doc_published_before document \<and>
     ce_repositories env = doc_repositories document \<and>
     parse_r_constraint (doc_r_requirement document) ''r.version'' = Inr (ce_r_requirement env) \<and>
     satisfies (ce_r_requirement env) (rt_r_version target) \<and>
     sorted_wrt (<) (map ci_name (ce_roots env)) \<and>
     ci_name ` set (ce_roots env) = fst ` set (declarations document (environment_groups document input)) \<and>
     (\<forall>root\<in>set (ce_roots env).
        composed_of (ci_name root) (specs (ci_name root) (declarations document (environment_groups document input))) root \<and>
        (\<forall>r. ci_source root = RegistrySource (Some r) \<longrightarrow>
           (\<exists>spec\<in>set (doc_repositories document). sp_id spec = r \<and> package_allowed spec (ci_name root))))"

lemma roots_of_values:
  assumes "roots_of es roots"
  shows "map ci_name (map snd roots) = map fst roots" "set (map fst roots) = fst ` set es"
    "root \<in> set (map snd roots) \<Longrightarrow> composed_of (ci_name root) (specs (ci_name root) es) root"
proof -
  have dist: "distinct (map fst roots)" using assms strict_sorted_iff by (auto simp: roots_of_def)
  have entry: "composed_of n (specs n es) root" if "(n, root) \<in> set roots" for n root
    using that dist assms by (auto simp: roots_of_def)
  then have name: "ci_name root = n" if "(n, root) \<in> set roots" for n root
    using that by (auto simp: composed_of_def)
  then show "map ci_name (map snd roots) = map fst roots" by auto
  show "root \<in> set (map snd roots) \<Longrightarrow> composed_of (ci_name root) (specs (ci_name root) es) root"
    using entry name by fastforce
  have "n \<in> fst ` set roots \<longleftrightarrow> n \<in> fst ` set es" for n
  proof -
    have "n \<in> fst ` set roots \<longleftrightarrow> map_of roots n \<noteq> None" by (simp add: map_of_eq_None_iff)
    also have "\<dots> \<longleftrightarrow> specs n es \<noteq> []" using assms by (simp add: roots_of_def)
    also have "\<dots> \<longleftrightarrow> n \<in> fst ` set es" by (auto simp: specs_def filter_empty_conv)
    finally show ?thesis .
  qed
  then show "set (map fst roots) = fst ` set es" by auto
qed

lemma allowlists_iff:
  "validate_repository_package_allowlists roots repositories = Inr () \<longleftrightarrow>
     (\<forall>root\<in>set (map snd roots). \<forall>r. ci_source root = RegistrySource (Some r) \<longrightarrow>
        (\<exists>spec. find (\<lambda>candidate. sp_id candidate = r) repositories = Some spec \<and> package_allowed spec (ci_name root)))"
proof -
  have "check_root_allowlist repositories root = Inr () \<longleftrightarrow>
      (\<forall>r. ci_source root = RegistrySource (Some r) \<longrightarrow>
        (\<exists>spec. find (\<lambda>candidate. sp_id candidate = r) repositories = Some spec \<and> package_allowed spec (ci_name root)))" for root
    by (auto simp: check_root_allowlist_def expect_def bind_res_Inr_iff
        split: manifest_source.splits option.splits if_splits)
  then show ?thesis by (simp add: validate_repository_package_allowlists_def each_Inr_iff)
qed

lemma allowlists_no_panic:
  assumes "\<And>root r. root \<in> set (map snd roots) \<Longrightarrow> ci_source root = RegistrySource (Some r) \<Longrightarrow> r \<in> sp_id ` set repositories"
  shows "validate_repository_package_allowlists roots repositories \<noteq> Inl (Panicked message)"
proof
  assume "validate_repository_package_allowlists roots repositories = Inl (Panicked message)"
  then obtain root where root: "root \<in> set (map snd roots)" "check_root_allowlist repositories root = Inl (Panicked message)"
    unfolding validate_repository_package_allowlists_def by (blast dest: each_Inl)
  then obtain r where r: "ci_source root = RegistrySource (Some r)" "find (\<lambda>candidate. sp_id candidate = r) repositories = None"
    by (auto simp: check_root_allowlist_def expect_def bind_res_Inl_iff
        split: manifest_source.splits option.splits if_splits)
  then show False using assms[OF root(1) r(1)] by (auto simp: find_None_iff)
qed

text \<open>The part of the composition before the allowlists.\<close>

definition compose_roots ::
  "manifest_document \<Rightarrow> string \<Rightarrow> manifest_error + root_map" where
  "compose_roots document environment =
     bind_res (append_dependencies [] (doc_dependencies document)) (\<lambda>base.
       try_fold (\<lambda>roots g.
         case map_of (doc_groups document) g of
           None \<Rightarrow> Inl (UnknownEnvironmentGroup environment g)
         | Some dependencies \<Rightarrow> append_dependencies roots dependencies) base (environment_groups document environment))"

lemma compose_roots_of:
  "compose_roots document environment = Inr roots \<Longrightarrow>
     roots_of (declarations document (environment_groups document environment)) roots"
  unfolding compose_roots_def bind_res_Inr_iff declarations_def
  using roots_of_groups roots_of_dependencies[OF roots_of_Nil] by fastforce

lemma environment_id_text: "environment_id_new s = Inr e \<Longrightarrow> e = s"
  by (auto simp: environment_id_new_def split: if_splits list.splits option.splits)

lemma compose_unfold:
  "compose_environment_with_locked document input target locked =
     bind_res (map_err Raised (validate_document document)) (\<lambda>_.
     bind_res (map_err (\<lambda>_. Raised (InvalidIdentifier ''environment'' input)) (environment_id_new input)) (\<lambda>environment.
     bind_res
       (if map_of (doc_environments document) environment = None \<and> environment \<noteq> ''default''
        then Inl (Raised (UnknownEnvironment environment)) else Inr ()) (\<lambda>_.
     bind_res (map_err Raised (parse_r_constraint (doc_r_requirement document) ''r.version'')) (\<lambda>r_requirement.
       if \<not> satisfies r_requirement (rt_r_version target)
       then Inl (Raised (TargetOutsideRConstraint (version_str (rt_r_version target)) (doc_r_requirement document)))
       else
         bind_res (map_err Raised (compose_roots document environment)) (\<lambda>roots.
         bind_res (validate_repository_package_allowlists roots (doc_repositories document)) (\<lambda>_.
           Inr \<lparr>ce_environment = environment, ce_r_requirement = r_requirement,
                ce_published_before = doc_published_before document, ce_target = target,
                ce_repositories = doc_repositories document, ce_roots = map snd roots, ce_locked = locked\<rparr>))))))"
proof -
  have assoc: "bind_res (map_err Raised (bind_res r f)) g = bind_res (map_err Raised r) (\<lambda>x. bind_res (map_err Raised (f x)) g)"
    for r :: "manifest_error + root_map" and f :: "root_map \<Rightarrow> manifest_error + root_map"
      and g :: "root_map \<Rightarrow> manifest_error abort + composed_environment"
    by (cases r) simp_all
  show ?thesis
    unfolding compose_environment_with_locked_def compose_roots_def assoc environment_groups_def
    by (rule arg_cong[where f = "bind_res _"], rule ext, rule arg_cong[where f = "bind_res _"], rule ext)
      (simp split: option.split cong: if_cong)
qed

lemma compose_ok:
  assumes "compose_environment_with_locked document input target locked = Inr env"
  shows "composition_ok document input target locked env"
proof -
  obtain environment roots where id: "environment_id_new input = Inr environment"
    and roots: "compose_roots document environment = Inr roots"
    and allow: "validate_repository_package_allowlists roots (doc_repositories document) = Inr ()"
    and r: "parse_r_constraint (doc_r_requirement document) ''r.version'' = Inr (ce_r_requirement env)"
      "satisfies (ce_r_requirement env) (rt_r_version target)"
    and env: "ce_environment env = environment" "ce_target env = target" "ce_locked env = locked"
      "ce_published_before env = doc_published_before document" "ce_repositories env = doc_repositories document"
      "ce_roots env = map snd roots"
    using assms by (auto simp: compose_unfold bind_res_Inr_iff split: if_splits)
  have input: "environment = input" by (rule environment_id_text[OF id])
  let ?es = "declarations document (environment_groups document input)"
  note inv = compose_roots_of[OF roots, unfolded input]
  have "sorted_wrt (<) (map ci_name (map snd roots))"
    unfolding roots_of_values(1)[OF inv] using inv by (simp add: roots_of_def)
  moreover have "ci_name ` set (map snd roots) = fst ` set ?es"
    using roots_of_values(1,2)[OF inv] by (metis list.set_map)
  moreover have "\<exists>spec\<in>set (doc_repositories document). sp_id spec = q \<and> package_allowed spec (ci_name root)"
    if "root \<in> set (map snd roots)" "ci_source root = RegistrySource (Some q)" for root q
    using allow[unfolded allowlists_iff] that by (metis (mono_tags, lifting) find_Some_iff nth_mem)
  ultimately show ?thesis
    using r env input roots_of_values(3)[OF inv] by (simp add: composition_ok_def)
qed

lemma compose_no_panic:
  "compose_environment_with_locked document input target locked \<noteq> Inl (Panicked message)"
proof
  assume "compose_environment_with_locked document input target locked = Inl (Panicked message)"
  then obtain environment roots where valid: "validate_document document = Inr ()"
    and roots: "compose_roots document environment = Inr roots"
    and panic: "validate_repository_package_allowlists roots (doc_repositories document) = Inl (Panicked message)"
    by (auto simp: compose_unfold bind_res_Inl_iff map_err_def split: if_splits sum.splits)
  have "r \<in> sp_id ` set (doc_repositories document)"
    if "root \<in> set (map snd roots)" "ci_source root = RegistrySource (Some r)" for root r
    using that root_reference_known[OF valid compose_roots_of[OF roots]] by auto
  then show False using allowlists_no_panic panic by blast
qed

end
