(* ===== verification/Manifest_Document.thy ===== *)
theory Manifest_Document
  imports Manifest_Intent Manifest_Compose
begin

text \<open>
  Repositories and parsed documents: the binary search of an allowlist is membership, and every
  document the decoder returns is consistent.
\<close>

section \<open>Allowlists\<close>

lemma search_base_found:
  assumes "sorted_wrt (<) xs" and "i < length xs" and "base \<le> i" and "i < base + len" and "base + len \<le> length xs"
  shows "search_base xs (xs ! i) base len = i"
  using assms
proof (induction xs "xs ! i" base len rule: search_base.induct)
  case (1 xs base len)
  show ?case
  proof (cases "len \<le> 1")
    case True
    then have "base = i" using 1(4,5) by linarith
    then show ?thesis using True by (subst search_base.simps) simp
  next
    case False
    let ?half = "len div 2" and ?mid = "base + len div 2"
    have mid: "?mid < length xs" "?half < len" "?half \<le> len - ?half" using 1(6) False by auto
    have greater: "cmp_of (xs ! ?mid) (xs ! i) = Greater \<longleftrightarrow> i < ?mid"
      using sorted_wrt_nth_less[OF 1(2), of i ?mid] sorted_wrt_nth_less[OF 1(2), of ?mid i] 1(3) mid(1)
      by (cases i ?mid rule: linorder_cases) auto
    have "search_base xs (xs ! i) (if cmp_of (xs ! ?mid) (xs ! i) = Greater then base else ?mid) (len - ?half) = i"
      by (rule 1(1)[OF False refl refl 1(2,3)]) (use 1(4-6) mid greater in auto)
    then show ?thesis using False by (simp add: search_base.simps[of xs _ base len] Let_def)
  qed
qed

lemma binary_search_member: "sorted_wrt (<) xs \<Longrightarrow> binary_search_ok xs x \<longleftrightarrow> x \<in> set xs"
proof
  have bound: "base < n \<Longrightarrow> base + len \<le> n \<Longrightarrow> search_base xs x base len < n" for base len n
  proof (induction xs x base len rule: search_base.induct)
    case (1 xs x base len)
    show ?case
    proof (cases "len \<le> 1")
      case False
      have "search_base xs x (if cmp_of (xs ! (base + len div 2)) x = Greater then base else base + len div 2)
          (len - len div 2) < n"
        by (rule 1(1)[OF False refl refl]) (use 1(2,3) False in auto)
      then show ?thesis using False by (simp add: search_base.simps[of xs x base len] Let_def)
    qed (use 1(2) in \<open>simp add: search_base.simps[of xs x base len]\<close>)
  qed
  show "binary_search_ok xs x \<Longrightarrow> x \<in> set xs"
    using bound[of 0 "length xs" "length xs"] by (auto simp: binary_search_ok_def in_set_conv_nth)
next
  assume "sorted_wrt (<) xs" "x \<in> set xs"
  then obtain i where i: "i < length xs" "xs ! i = x" by (auto simp: in_set_conv_nth)
  then show "binary_search_ok xs x"
    using search_base_found[OF \<open>sorted_wrt (<) xs\<close> i(1), of 0 "length xs"] by (auto simp: binary_search_ok_def)
qed

lemma package_allowed_iff:
  "packages_sorted spec \<Longrightarrow> package_allowed spec p \<longleftrightarrow> (\<forall>ps. sp_packages spec = Some ps \<longrightarrow> p \<in> set ps)"
  by (auto simp: packages_sorted_def package_allowed_def binary_search_member split: option.splits)

lemma first_repeat_None: "sorted_wrt (\<le>) xs \<Longrightarrow> first_repeat xs = None \<longleftrightarrow> sorted_wrt (<) (xs :: 'a::linorder list)"
  by (induction xs rule: first_repeat.induct) (auto simp: order.strict_iff_order dest: order.antisym)

definition repository_ok :: "repository_spec \<Rightarrow> bool" where
  "repository_ok r \<longleftrightarrow>
     validate_repository_id (sp_id r) = Inr () \<and> sp_registry r \<noteq> CranLike ''cran'' \<and>
     packages_sorted r \<and> sp_packages r \<noteq> Some []"

lemma repository_spec_ok:
  assumes "repository_spec_new_with_packages rid registry e packages = Inr spec"
  shows "repository_ok spec \<and> sp_id spec = rid \<and> sp_registry spec = registry \<and> sp_manifest_endpoint spec = e \<and>
    (\<forall>p. package_allowed spec p \<longleftrightarrow> (\<forall>ps. packages = Some ps \<longrightarrow> p \<in> set ps))"
proof (cases packages)
  case None
  then show ?thesis using assms
    by (auto simp: repository_spec_new_with_packages_def bind_res_Inr_iff repository_ok_def packages_sorted_def
        package_allowed_def split: if_splits)
next
  case (Some ps)
  have le: "sorted_wrt (\<le>) (sort_by cmp_of ps)" using sort_by_key_sorted[of "\<lambda>x. x" ps] by simp
  have spec: "validate_repository_id rid = Inr ()" "registry \<noteq> CranLike ''cran''" "ps \<noteq> []"
      "first_repeat (sort_by cmp_of ps) = None"
      "spec = \<lparr>sp_id = rid, sp_registry = registry, sp_manifest_endpoint = e, sp_packages = Some (sort_by cmp_of ps)\<rparr>"
    using assms Some
    by (auto simp: repository_spec_new_with_packages_def bind_res_Inr_iff Let_def split: if_splits option.splits)
  then have sorted: "packages_sorted spec" using first_repeat_None[OF le] by (simp add: packages_sorted_def)
  then show ?thesis
    using spec Some package_allowed_iff[OF sorted]
    by (auto simp: repository_ok_def lin.set_sort_by)
qed

section \<open>Decoded documents\<close>

definition dependencies_ok :: "repository_id list \<Rightarrow> dependency_map \<Rightarrow> bool" where
  "dependencies_ok ids ds \<longleftrightarrow>
     sorted_wrt (<) (map fst ds) \<and>
     (\<forall>(n, d)\<in>set ds. package_name_new n = Inr n \<and> n \<noteq> ''R'' \<and> source_present (ds_source d) \<and>
        (\<forall>r. ds_source d = RegistrySource (Some r) \<longrightarrow> r \<in> set ids))"

definition document_ok :: "manifest_document \<Rightarrow> bool" where
  "document_ok doc \<longleftrightarrow>
     doc_schema doc = 1 \<and>
     distinct (map sp_id (doc_repositories doc)) \<and> list_all repository_ok (doc_repositories doc) \<and>
     dependencies_ok (map sp_id (doc_repositories doc)) (doc_dependencies doc) \<and>
     sorted_wrt (<) (map fst (doc_groups doc)) \<and>
     (\<forall>(g, ds)\<in>set (doc_groups doc). dependencies_ok (map sp_id (doc_repositories doc)) ds) \<and>
     sorted_wrt (<) (map fst (doc_environments doc)) \<and>
     (\<forall>(e, gs)\<in>set (doc_environments doc).
        environment_id_new e = Inr e \<and> distinct gs \<and> set gs \<subseteq> fst ` set (doc_groups doc))"

lemma parse_repository_Inr:
  assumes "parse_repository api ids entry = Inr spec"
  shows "repository_ok spec" "sp_id spec \<notin> set ids"
  using assms repository_spec_ok by (auto simp: parse_repository_def bind_res_Inr_iff split: if_splits)

lemma parse_repositories_ok:
  assumes "parse_repositories api v = Inr rs"
  shows "list_all repository_ok rs" "distinct (map sp_id rs)"
proof -
  have "list_all repository_ok rs \<and> distinct (map sp_id rs) \<and> set (map sp_id rs) \<inter> set ids = {}"
    if "parse_repository_entries api ids entries = Inr rs" for ids entries
    using that
  proof (induction entries arbitrary: ids rs)
    case (Cons e es)
    then show ?case using parse_repository_Inr by (auto simp: bind_res_Inr_iff map_res_Inr_iff) fastforce+
  qed simp
  then show "list_all repository_ok rs" "distinct (map sp_id rs)"
    using assms by (auto simp: parse_repositories_def bind_res_Inr_iff split: option.splits)
qed

lemma set_bt_collect: "set (bt_collect es) \<subseteq> set es"
proof (induction es rule: rev_induct)
  case (snoc e es)
  have "set (bt_insert m k v) \<subseteq> insert (k, v) (set m)" for m :: "('a \<times> 'b) list" and k v
    by (induction m) (auto split: if_splits)
  then have "set (bt_collect (es @ [e])) \<subseteq> insert e (set (bt_collect es))"
    by (cases e) (simp only: bt_collect_snoc)
  then show ?case using snoc by auto
qed (simp add: bt_collect_def)

lemma optional_digest_present: "optional_digest t ctxt = Inr h \<Longrightarrow> present h"
  by (auto simp: optional_digest_def bind_res_Inr_iff transpose_Inr_iff present_def sha256_digest_new_Inr_iff)

lemma parse_git_present: "parse_git_source ip t ctxt sub g = Inr s \<Longrightarrow> source_present s"
proof -
  assume "parse_git_source ip t ctxt sub g = Inr s"
  then obtain u sel where s: "s = GitSource u sel sub"
    and sub: "\<forall>v. sub = Some v \<longrightarrow> validate_relative_subdirectory v = Inr ()"
    by (auto simp: parse_git_source_def bind_res_Inr_iff split: if_splits option.splits)
  have "validate_relative_subdirectory [] \<noteq> Inr ()"
    by (simp add: validate_relative_subdirectory_def normalize_relative_subdirectory_def)
  then show ?thesis using s sub by (auto simp: present_def)
qed

lemma parse_dependency_table_present:
  assumes "parse_dependency_table ip api t ctxt = Inr d"
  shows "source_present (ds_source d)"
proof -
  obtain repository git url path sub where
    "parse_source ip api t ctxt sub repository git url path = Inr (ds_source d)"
    using assms by (auto simp: parse_dependency_table_def bind_res_Inr_iff map_res_Inr_iff split: if_splits)
  moreover have none: "source_present (RegistrySource None)" by (simp add: present_def)
  moreover have "source_present s" if "parse_repository_source t ctxt r = Inr s" for r s
    using that by (auto simp: parse_repository_source_def bind_res_Inr_iff opaque_identifier_new_def present_def split: if_splits)
  moreover have "source_present s" if "parse_url_source api t ctxt sub u = Inr s" for u s
    using that optional_digest_present by (auto simp: parse_url_source_def bind_res_Inr_iff split: if_splits)
  moreover have "source_present s" if "parse_path_source t ctxt sub u = Inr s" for u s
    using that optional_digest_present by (auto simp: parse_path_source_def bind_res_Inr_iff map_res_Inr_iff split: if_splits)
  ultimately show ?thesis
    using parse_git_present by (auto simp: parse_source_def split: option.splits if_splits) (metis none)
qed

lemma parse_dependency_present: "parse_dependency ip api v ctxt = Inr d \<Longrightarrow> source_present (ds_source d)"
  using parse_dependency_table_present by (cases v) (auto simp: map_res_Inr_iff present_def)

text \<open>A parsed dependency table: sorted by valid names, with well-formed sources.\<close>

definition table_ok :: "dependency_map \<Rightarrow> bool" where
  "table_ok ds \<longleftrightarrow>
     sorted_wrt (<) (map fst ds) \<and>
     (\<forall>(n, d)\<in>set ds. package_name_new n = Inr n \<and> n \<noteq> ''R'' \<and> source_present (ds_source d))"

lemma package_name_text: "package_name_new s = Inr n \<Longrightarrow> n = s"
  by (simp add: package_name_new_Inr_iff)

lemma parse_dependencies_ok:
  assumes "parse_dependencies ip api v ctxt = Inr ds"
  shows "table_ok ds"
proof (cases v)
  case (Some w)
  then obtain t es where es: "try_map (\<lambda>(name, entry).
               bind_res (map_err (\<lambda>e. InvalidDependencyField name (package_name_error_display e))
                 (package_name_new name)) (\<lambda>package.
                 if package = ''R'' then Inl RIsNotAPackageRequirement
                 else map_res (Pair package) (parse_dependency ip api entry (ctxt @ ''.'' @ name)))) t = Inr es"
    and ds: "ds = bt_collect es"
    using assms by (auto simp: parse_dependencies_def bind_res_Inr_iff map_res_Inr_iff)
  have "package_name_new n = Inr n \<and> n \<noteq> ''R'' \<and> source_present (ds_source d)" if e: "(n, d) \<in> set es" for n d
    using try_map_mem[OF es e] parse_dependency_present package_name_text
    by (fastforce simp: bind_res_Inr_iff map_res_Inr_iff split: if_splits)
  then show ?thesis
    using set_bt_collect[of es] sorted_bt_collect[of es] unfolding table_ok_def ds by blast
qed (use assms in \<open>simp add: parse_dependencies_def table_ok_def\<close>)

lemma parse_groups_ok:
  assumes "parse_groups ip api v = Inr groups"
  shows "sorted_wrt (<) (map fst groups) \<and> (\<forall>(g, ds)\<in>set groups. table_ok ds)"
proof (cases v)
  case (Some w)
  then obtain t es where es: "try_map (\<lambda>(g, entry).
               bind_res (validate_named_id g ''group'') (\<lambda>_.
               bind_res (ok_or (WrongType (''groups.'' @ g) ''table'') (as_table entry)) (\<lambda>t.
               bind_res (reject_unknown t [''dependencies''] (''groups.'' @ g)) (\<lambda>_.
                 map_res (Pair g)
                   (parse_dependencies ip api (map_of t ''dependencies'') (''groups.'' @ g @ ''.dependencies''))))))
               t = Inr es"
    and groups: "groups = bt_collect es"
    using assms by (auto simp: parse_groups_def bind_res_Inr_iff map_res_Inr_iff)
  have "table_ok ds" if e: "(g, ds) \<in> set es" for g ds
    using try_map_mem[OF es e] parse_dependencies_ok by (fastforce simp: bind_res_Inr_iff map_res_Inr_iff)
  then show ?thesis
    using set_bt_collect[of es] sorted_bt_collect[of es] unfolding groups by blast
qed (use assms in \<open>simp add: parse_groups_def\<close>)

lemma parse_environments_ok:
  assumes "parse_environments v = Inr environments"
  shows "sorted_wrt (<) (map fst environments) \<and> (\<forall>(e, gs)\<in>set environments. environment_id_new e = Inr e)"
proof (cases v)
  case (Some w)
  then obtain t es where es: "try_map (\<lambda>(e, entry).
               bind_res (map_err (\<lambda>_. InvalidIdentifier ''environment'' e) (environment_id_new e)) (\<lambda>_.
               bind_res (ok_or (WrongType (''environments.'' @ e) ''array of strings'') (as_array entry)) (\<lambda>vs.
                 map_res (Pair e)
                   (try_map (\<lambda>v. ok_or (WrongType (''environments.'' @ e @ ''[]'') ''string'') (as_str v)) vs))))
               t = Inr es"
    and environments: "environments = bt_collect es"
    using assms by (auto simp: parse_environments_def bind_res_Inr_iff map_res_Inr_iff)
  have "environment_id_new e = Inr e" if m: "(e, gs) \<in> set es" for e gs
    using try_map_mem[OF es m] environment_id_text by (fastforce simp: bind_res_Inr_iff map_res_Inr_iff)
  then show ?thesis
    using set_bt_collect[of es] sorted_bt_collect[of es] unfolding environments by blast
qed (use assms in \<open>simp add: parse_environments_def\<close>)

lemma group_references_iff:
  "validate_group_references e groups seen gs = Inr () \<longleftrightarrow> set gs \<subseteq> set groups \<and> distinct gs \<and> set gs \<inter> set seen = {}"
  by (induction gs arbitrary: seen) auto

lemma repository_reference_iff:
  "check_repository_reference ids field s = Inr () \<longleftrightarrow> (\<forall>r. s = RegistrySource (Some r) \<longrightarrow> r \<in> set ids)"
  by (auto simp: check_repository_reference_def split: manifest_source.splits option.splits)

lemma parse_manifest_value_ok:
  assumes "parse_manifest_value ip api strptime strftime v project_root = Inr doc"
  shows "document_ok doc"
proof -
  obtain root where repos: "parse_repositories api (map_of root ''repositories'') = Inr (doc_repositories doc)"
    and deps: "parse_dependencies ip api (map_of root ''dependencies'') ''dependencies'' = Inr (doc_dependencies doc)"
    and groups: "parse_groups ip api (map_of root ''groups'') = Inr (doc_groups doc)"
    and envs: "parse_environments (map_of root ''environments'') = Inr (doc_environments doc)"
    and refs: "validate_repository_references (doc_dependencies doc) (doc_groups doc) (map sp_id (doc_repositories doc)) = Inr ()"
    and group_refs: "validate_environment_references (doc_environments doc) (doc_groups doc) = Inr ()"
    and schema: "doc_schema doc = 1"
    using assms by (auto simp: parse_manifest_value_def bind_res_Inr_iff split: if_splits)
  let ?ids = "map sp_id (doc_repositories doc)"
  have base: "dependencies_ok ?ids (doc_dependencies doc)"
    using parse_dependencies_ok[OF deps] refs
    by (fastforce simp: dependencies_ok_def table_ok_def validate_repository_references_def bind_res_Inr_iff
        each_Inr_iff repository_reference_iff)
  have grouped: "\<forall>(g, ds)\<in>set (doc_groups doc). dependencies_ok ?ids ds"
    using parse_groups_ok[OF groups] refs
    by (fastforce simp: dependencies_ok_def table_ok_def validate_repository_references_def bind_res_Inr_iff
        each_Inr_iff repository_reference_iff)
  have "\<forall>(e, gs)\<in>set (doc_environments doc).
      environment_id_new e = Inr e \<and> distinct gs \<and> set gs \<subseteq> fst ` set (doc_groups doc)"
    using parse_environments_ok[OF envs] group_refs
    by (fastforce simp: validate_environment_references_def each_Inr_iff group_references_iff)
  then show ?thesis
    using schema parse_repositories_ok[OF repos] base parse_groups_ok[OF groups] grouped parse_environments_ok[OF envs]
    by (simp add: document_ok_def)
qed

section \<open>Environments of decoded documents\<close>

lemma normalize_source_present:
  assumes "normalize_source n s = Inr t" and "source_present s"
  shows "source_present t"
proof (cases s)
  case (GitSource url selector subdirectory)
  have "normalize_relative_subdirectory v \<noteq> Inr []" for v
  proof
    assume "normalize_relative_subdirectory v = Inr []"
    then obtain parts where parts: "try_fold subdirectory_step [] (slash_split v) = Inr parts" "parts \<noteq> []"
        "join_str ''/'' parts = []"
      by (auto simp: normalize_relative_subdirectory_def bind_res_Inr_iff split: if_splits)
    then show False using plain_join(1)[OF parts(2)] subdirectory_fold[OF parts(1)] by simp
  qed
  then show ?thesis
    using assms(1) GitSource by (auto simp: map_res_Inr_iff transpose_Inr_iff present_def)
qed (use assms in \<open>auto simp: map_res_Inr_iff\<close>)

text \<open>The part of \<^const>\<open>intent_wf\<close> that does not depend on the size of texts.\<close>

lemma composed_shape:
  assumes "document_ok doc" and "composition_ok doc input target locked env"
  shows "list_all packages_sorted (ce_repositories env)" "list_all (\<lambda>root. source_present (ci_source root)) (ce_roots env)"
proof -
  show "list_all packages_sorted (ce_repositories env)"
    using assms by (auto simp: composition_ok_def document_ok_def repository_ok_def list_all_iff)
  let ?ids = "map sp_id (doc_repositories doc)"
  have table: "source_present (ds_source d)" if "dependencies_ok ?ids ds" "(n, d) \<in> set ds" for ds n d
    using that by (auto simp: dependencies_ok_def)
  have base: "dependencies_ok ?ids (doc_dependencies doc)" using assms(1) by (simp add: document_ok_def)
  have group: "dependencies_ok ?ids (group_dependencies doc g)" for g
  proof (cases "map_of (doc_groups doc) g")
    case None
    then show ?thesis by (simp add: group_dependencies_def dependencies_ok_def)
  next
    case (Some ds)
    have "\<forall>(g, ds)\<in>set (doc_groups doc). dependencies_ok ?ids ds"
      using assms(1) unfolding document_ok_def by (elim conjE)
    then show ?thesis using map_of_SomeD[OF Some] Some by (auto simp: group_dependencies_def)
  qed
  have declared: "source_present (ds_source d)" if m: "(n, d) \<in> set (declarations doc gs)" for n d gs
  proof -
    consider "(n, d) \<in> set (doc_dependencies doc)" | g where "(n, d) \<in> set (group_dependencies doc g)"
      using m unfolding declarations_def by auto
    then show ?thesis using table[OF base] table[OF group] by cases blast+
  qed
  have "source_present (ci_source root)" if "root \<in> set (ce_roots env)" for root
  proof -
    let ?ds = "specs (ci_name root) (declarations doc (environment_groups doc input))"
    have "composed_of (ci_name root) ?ds root" using assms(2) that unfolding composition_ok_def by blast
    then obtain d where "d \<in> set ?ds" "normalize_source (ci_name root) (ds_source d) = Inr (ci_source root)"
      unfolding composed_of_def by blast
    then show ?thesis using declared normalize_source_present by (auto simp: specs_def)
  qed
  then show "list_all (\<lambda>root. source_present (ci_source root)) (ce_roots env)" by (simp add: list_all_iff)
qed

end
