(* ===== verification/Choice.thy ===== *)
theory Choice
  imports Solve_Sound
begin

text \<open>
  What the provider's choices mean: \<^verbatim>\<open>choose_version\<close> returns the most preferred candidate the lock
  and the publication policy leave, and the publication diagnostic of a failed resolution reports
  exactly the rejections in PubGrub's proof.
\<close>

section \<open>The chosen version\<close>

text \<open>The candidates of a subject that the range and the lock leave.\<close>

definition offered ::
  "'r pubgrub_api \<Rightarrow> provider \<Rightarrow> solver_key \<Rightarrow> 'r \<Rightarrow> provider_state \<Rightarrow> nat \<Rightarrow> prepared_candidate \<Rightarrow> bool" where
  "offered pg p k r st cid c \<longleftrightarrow>
     visible st k cid c \<and> pg_contains pg r (VCandidate cid) \<and> \<not> excluded_by_lock p k c"

lemma pop_sort_max:
  assumes "total_cmp cmp" "pop (sort_by cmp xs) = Some x"
  shows "x \<in> set xs \<and> (\<forall>y\<in>set xs. cmp y x \<noteq> Greater)"
proof -
  have x: "sort_by cmp xs \<noteq> []" "x = last (sort_by cmp xs)" using assms(2) by (auto simp: pop_def split: if_splits)
  then have "x \<in> set (sort_by cmp xs)" using last_in_set by blast
  then have "x \<in> set xs" by (simp only: total_cmp.set_sort_by[OF assms(1)])
  moreover have "cmp y x \<noteq> Greater" if "y \<in> set xs" for y
    using total_cmp.sort_by_last_greatest[OF assms(1), of xs y] x that by auto
  ultimately show ?thesis by blast
qed

lemma excluded_required:
  "(case required_identity (pv_lock_decision p k) of None \<Rightarrow> True | Some i \<Rightarrow> identity_eq (pc_identity c) i) \<longleftrightarrow>
   \<not> excluded_by_lock p k c"
  by (cases "pv_lock_decision p k") (auto simp: required_identity_def excluded_by_lock_def)

text \<open>The rejections of a list of candidates are those of the candidates the policy does not admit.\<close>

lemma rejections_iff:
  "(\<exists>x\<in>set (publication_rejections p cs (locked_identity (pv_lock_decision p k))). rejection_identity x = i) \<longleftrightarrow>
   (\<exists>(cid, c)\<in>set cs. \<not> publication_ok p k c \<and> pc_identity c = i)"
proof (cases "rq_publication_cutoff (pv_request p)")
  case None
  then show ?thesis by (simp add: publication_rejections_def publication_ok_def)
next
  case (Some cutoff)
  have one: "(\<exists>x. publication_rejection cutoff (locked_identity (pv_lock_decision p k)) c = Some x \<and> rejection_identity x = i)
      \<longleftrightarrow> \<not> publication_ok p k c \<and> pc_identity c = i" for c
    using Some by (auto simp: publication_rejection_def publication_ok_def not_less split: option.splits)
  have "set (publication_rejections p cs (locked_identity (pv_lock_decision p k))) =
      {x. \<exists>e\<in>set cs. publication_rejection cutoff (locked_identity (pv_lock_decision p k)) (snd e) = Some x}"
    using Some by (simp add: publication_rejections_def set_eq_iff in_map_filter)
  then show ?thesis using one by fastforce
qed

lemma eligible_candidates_set:
  assumes ok: "provider_ok p st" and run: "eligible_candidates pg p k (Some r) st = (Inr (es, ctx), st')"
  shows "ctx = \<lparr>px_locked = locked_identity (pv_lock_decision p k)\<rparr>"
    and "(cid, c) \<in> set es \<longleftrightarrow> offered pg p k r st' cid c \<and>
           ((\<exists>d x. offered pg p k r st' d x \<and> publication_ok p k x) \<longrightarrow> publication_ok p k c)"
proof -
  let ?locked = "locked_identity (pv_lock_decision p k)"
  obtain l where l: "loaded p k st = (Inr l, st')"
    using run by (auto simp: eligible_candidates_def candidates_def bind_s_Inr_iff Let_def)
  define eligible where "eligible = filter (\<lambda>(cid, c). \<not> excluded_by_lock p k c \<and> pg_contains pg r (VCandidate cid)) (ls_candidates l)"
  define kept where "kept = filter (\<lambda>(_, c). \<not> list_ex (\<lambda>x. identity_eq (pc_identity c) (rejection_identity x))
      (publication_rejections p eligible ?locked)) eligible"
  have st': "provider_ok p st'" using loaded_ok[OF ok l] by blast
  have es: "ctx = \<lparr>px_locked = ?locked\<rparr>"
    "es = (if rq_publication_cutoff (pv_request p) \<noteq> None \<and> publication_rejections p eligible ?locked \<noteq> [] \<and> kept \<noteq> []
           then kept else eligible)"
    using run l
    by (auto simp: eligible_candidates_def candidates_def bind_s_Inr_iff Let_def excluded_required eligible_def kept_def)
  show "ctx = \<lparr>px_locked = ?locked\<rparr>" by (rule es)
  have el: "(d, x) \<in> set eligible \<longleftrightarrow> offered pg p k r st' d x" for d x
    using loaded_visible[OF ok l, of d x] by (auto simp: eligible_def offered_def)
  have same: "x = y" if "offered pg p k r st' d x" "offered pg p k r st' e y" "identity_eq (pc_identity x) (pc_identity y)" for d e x y
  proof -
    have v: "visible st' k d x" "visible st' k e y" using that by (simp_all add: offered_def)
    then have "d = e"
      using interned_identity_iff[of "ps_interner st'" d x e y] visible_facts(1)[OF st'] st' that(3)
      by (auto simp: provider_ok_def)
    then show ?thesis using visible_unique[OF st' v(1)] v(2) by simp
  qed
  have rej: "list_ex (\<lambda>x. identity_eq (pc_identity c) (rejection_identity x)) (publication_rejections p eligible ?locked) \<longleftrightarrow>
      \<not> publication_ok p k c" if c: "offered pg p k r st' cid c" for cid c
  proof
    assume "list_ex (\<lambda>x. identity_eq (pc_identity c) (rejection_identity x)) (publication_rejections p eligible ?locked)"
    then obtain x where x: "x \<in> set (publication_rejections p eligible ?locked)"
      "identity_eq (pc_identity c) (rejection_identity x)" by (auto simp: list_ex_iff)
    then obtain d y where y: "(d, y) \<in> set eligible" "\<not> publication_ok p k y" "pc_identity y = rejection_identity x"
      using rejections_iff[of p eligible k "rejection_identity x"] by blast
    then show "\<not> publication_ok p k c" using same[OF c, of d y] el x(2) by auto
  next
    assume "\<not> publication_ok p k c"
    then have "\<exists>x\<in>set (publication_rejections p eligible ?locked). rejection_identity x = pc_identity c"
      unfolding rejections_iff using c el by blast
    then show "list_ex (\<lambda>x. identity_eq (pc_identity c) (rejection_identity x)) (publication_rejections p eligible ?locked)"
      using id_eq.eq_refl by (auto simp: list_ex_iff) metis
  qed
  have kp: "(d, x) \<in> set kept \<longleftrightarrow> offered pg p k r st' d x \<and> publication_ok p k x" for d x
    using rej el by (auto simp: kept_def)
  show "(cid, c) \<in> set es \<longleftrightarrow> offered pg p k r st' cid c \<and>
          ((\<exists>d x. offered pg p k r st' d x \<and> publication_ok p k x) \<longrightarrow> publication_ok p k c)"
  proof (cases "kept = []")
    case True
    then have "\<not> (offered pg p k r st' d x \<and> publication_ok p k x)" for d x using kp[of d x] by simp
    then show ?thesis using el True by (auto simp: es)
  next
    case False
    then have ex: "\<exists>d x. offered pg p k r st' d x \<and> publication_ok p k x" using kp[of "fst (hd kept)" "snd (hd kept)"] by auto
    show ?thesis
    proof (cases "rq_publication_cutoff (pv_request p) = None \<or> publication_rejections p eligible ?locked = []")
      case True
      then have "publication_ok p k x" if "offered pg p k r st' d x" for d x
        using that rej[OF that] by (auto simp: publication_ok_def)
      moreover have "es = eligible" using True by (auto simp: es(2))
      ultimately show ?thesis using el[of cid c] by blast
    next
      case nonempty: False
      then have "es = kept" using False by (simp add: es(2))
      then show ?thesis using kp[of cid c] ex by blast
    qed
  qed
qed

lemma choose_version_best:
  assumes ok: "provider_ok p st" and total: "total_preference (pv_preference p)" and "k \<noteq> KeyR"
    and run: "choose_version pg p (PSubject k) r st = (Inr a, st')"
  shows "(a = None \<longleftrightarrow> (\<forall>cid c. \<not> offered pg p k r st' cid c)) \<and>
    (\<forall>v. a = Some v \<longrightarrow> (\<exists>cid c. v = VCandidate cid \<and> offered pg p k r st' cid c \<and>
       (\<forall>d x. offered pg p k r st' d x \<longrightarrow>
          (publication_ok p k x \<longrightarrow> publication_ok p k c) \<and>
          (publication_ok p k x \<or> \<not> publication_ok p k c \<longrightarrow>
             compare_prepared_candidates (pv_preference p) k x c \<lparr>px_locked = locked_identity (pv_lock_decision p k)\<rparr> \<noteq> Greater))))"
proof -
  let ?ctx = "\<lparr>px_locked = locked_identity (pv_lock_decision p k)\<rparr>"
  let ?cmp = "\<lambda>l r. compare_prepared_candidates (pv_preference p) k (snd l) (snd r) ?ctx"
  obtain es ctx where es: "eligible_candidates pg p k (Some r) st = (Inr (es, ctx), st')"
    and a: "a = map_option (\<lambda>e. VCandidate (fst e)) (pop (sort_candidates p k es ctx))"
    using run \<open>k \<noteq> KeyR\<close> by (cases k) (auto simp: choose_version_def bind_s_Inr_iff)
  note E = eligible_candidates_set[OF ok es]
  have cmp: "total_cmp ?cmp"
    using total_cmp_key[OF total_compare_prepared[OF total, of k ?ctx], of snd] by simp
  have a': "a = map_option (\<lambda>e. VCandidate (fst e)) (pop (sort_by ?cmp es))"
    by (simp add: a sort_candidates_def E(1))
  have empty: "es = [] \<longleftrightarrow> (\<forall>cid c. \<not> offered pg p k r st' cid c)"
  proof
    assume "es = []"
    then show "\<forall>cid c. \<not> offered pg p k r st' cid c" using E(2) by auto
  next
    assume "\<forall>cid c. \<not> offered pg p k r st' cid c"
    then show "es = []" using E(2) by (cases es) auto
  qed
  show ?thesis
  proof (intro conjI allI impI)
    show "a = None \<longleftrightarrow> (\<forall>cid c. \<not> offered pg p k r st' cid c)"
      unfolding empty[symmetric] by (simp add: a' pop_def sort_by_Nil_iff)
  next
    fix v assume "a = Some v"
    then obtain cid c where pop: "pop (sort_by ?cmp es) = Some (cid, c)" and v: "v = VCandidate cid"
      by (auto simp: a')
    note P = pop_sort_max[OF cmp pop]
    have c: "offered pg p k r st' cid c" using P E(2) by blast
    have best: "(publication_ok p k x \<longrightarrow> publication_ok p k c) \<and>
        (publication_ok p k x \<or> \<not> publication_ok p k c \<longrightarrow> compare_prepared_candidates (pv_preference p) k x c ?ctx \<noteq> Greater)"
      if x: "offered pg p k r st' d x" for d x
    proof (intro conjI impI)
      show pub: "publication_ok p k c" if "publication_ok p k x" using that x P E(2) by blast
      show "compare_prepared_candidates (pv_preference p) k x c ?ctx \<noteq> Greater"
        if "publication_ok p k x \<or> \<not> publication_ok p k c"
      proof -
        have "(d, x) \<in> set es" using that x P E(2)[of cid c] E(2)[of d x] by blast
        then show ?thesis using P by fastforce
      qed
    qed
    show "\<exists>cid c. v = VCandidate cid \<and> offered pg p k r st' cid c \<and>
       (\<forall>d x. offered pg p k r st' d x \<longrightarrow> (publication_ok p k x \<longrightarrow> publication_ok p k c) \<and>
          (publication_ok p k x \<or> \<not> publication_ok p k c \<longrightarrow> compare_prepared_candidates (pv_preference p) k x c ?ctx \<noteq> Greater))"
      using v c best by blast
  qed
qed

section \<open>The publication diagnostic\<close>

text \<open>The rejections in the leaves of PubGrub's proof.\<close>

fun proof_rejections :: "derivation_tree \<Rightarrow> publication_rejection set" where
  "proof_rejections (ExternalCustom (PublicationMessage leaf)) = set leaf"
| "proof_rejections (ExternalCustom (TextMessage _)) = {}"
| "proof_rejections ExternalOther = {}"
| "proof_rejections (Derived a b) = proof_rejections a \<union> proof_rejections b"

lemma collect_leaves_set: "set (collect_publication_leaves tree acc) = set acc \<union> proof_rejections tree"
  by (induction tree acc rule: collect_publication_leaves.induct) auto

lemma rejection_tail_total: "total_cmp rejection_tail_cmp"
proof
  show "rejection_tail_cmp x x = Equal" for x by (cases x) (simp_all add: lin.cmp_refl)
  show "rejection_tail_cmp y x = reverse_ordering (rejection_tail_cmp x y)" for x y
    by (cases x; cases y) (auto intro: lin.cmp_flip)
  show "rejection_tail_cmp x y \<noteq> Greater \<Longrightarrow> rejection_tail_cmp y z \<noteq> Greater \<Longrightarrow> rejection_tail_cmp x z \<noteq> Greater" for x y z
    by (cases x; cases y; cases z) (auto dest: lin.cmp_le_trans)
qed

lemma rejection_cmp_total: "total_cmp publication_rejection_cmp"
  unfolding publication_rejection_cmp_def[abs_def]
  by (intro total_cmp_then total_cmp_field rejection_tail_total)

lemma rejection_eq_equiv: "rust_eq publication_rejection_eq"
proof
  show "publication_rejection_eq x x" for x by (cases x) (simp_all add: id_eq.eq_refl)
  show "publication_rejection_eq x y \<Longrightarrow> publication_rejection_eq y x" for x y
    by (cases x; cases y) (auto intro: id_eq.eq_sym)
  show "publication_rejection_eq x y \<Longrightarrow> publication_rejection_eq y z \<Longrightarrow> publication_rejection_eq x z" for x y z
    by (cases x; cases y; cases z) (auto intro: id_eq.eq_trans)
qed

lemma publication_diagnostic_ok:
  assumes "publication_policy_diagnostic tree (Some cutoff) = d"
  shows "(d = None \<longleftrightarrow> proof_rejections tree = {}) \<and>
    (\<forall>diagnostic. d = Some diagnostic \<longrightarrow>
       pd_cutoff diagnostic = cutoff \<and>
       set (pd_rejections diagnostic) \<subseteq> proof_rejections tree \<and>
       (\<forall>x\<in>proof_rejections tree. \<exists>y\<in>set (pd_rejections diagnostic). publication_rejection_eq x y))"
proof -
  let ?xs = "collect_publication_leaves tree []"
  let ?ys = "sort_by publication_rejection_cmp ?xs"
  have xs: "set ?xs = proof_rejections tree" using collect_leaves_set[of tree "[]"] by simp
  then have ys: "set ?ys = proof_rejections tree" by (simp only: total_cmp.set_sort_by[OF rejection_cmp_total])
  have "?xs = [] \<longleftrightarrow> proof_rejections tree = {}" using xs by (metis set_empty)
  then have d: "d = (if proof_rejections tree = {} then None
      else Some \<lparr>pd_cutoff = cutoff, pd_rejections = dedup_by publication_rejection_eq ?ys\<rparr>)"
    using assms by (simp add: publication_policy_diagnostic_def Let_def)
  have "\<exists>y\<in>set (dedup_by publication_rejection_eq ?ys). publication_rejection_eq x y" if "x \<in> proof_rejections tree" for x
    using dedup_by_represented[OF rejection_eq_equiv, of x ?ys] that ys by blast
  then show ?thesis
    using set_dedup_by_subset[of publication_rejection_eq ?ys] unfolding d ys by (auto split: if_splits)
qed

end
