(* ===== verification/Examples.thy ===== *)
theory Examples
  imports Choice "HOL-Library.Code_Target_Nat"
begin

text \<open>
  A small repository and a complete solver run over it, on which the hypotheses of the
  properties are discharged: package \<^verbatim>\<open>app\<close> imports \<^verbatim>\<open>lib (>= 1.1)\<close>, and \<^verbatim>\<open>lib\<close> has two
  releases.  The ranges are lists of versions.
\<close>

definition list_api :: "solver_version list pubgrub_api" where
  "list_api =
     \<lparr>pg_empty = [], pg_singleton = (\<lambda>v. [v]), pg_union = (@),
      pg_contains = (\<lambda>r v. list_ex (\<lambda>u. solver_version_eq u v) r), pg_constraints = (\<lambda>ds. ds)\<rparr>"

lemma list_api_laws: "pubgrub_laws list_api"
  by (simp add: pubgrub_laws_def list_api_def)

definition ex_version :: "u32 \<Rightarrow> u32 \<Rightarrow> r_package_version" where
  "ex_version major minor =
     \<lparr>rv_raw = show_nat (unat major) @ ''.'' @ show_nat (unat minor), rv_components = components_from_vec [major, minor]\<rparr>"

definition ex_sha :: "bytes \<Rightarrow> bytes" where
  "ex_sha bs = replicate 32 (char_of (length bs mod 256))"

definition ex_requirement :: "package_name \<Rightarrow> version_constraint \<Rightarrow> package_requirement" where
  "ex_requirement name constraint = \<lparr>pr_name = name, pr_source = SourceAny, pr_constraint = constraint\<rparr>"

definition ex_release :: "package_name \<Rightarrow> r_package_version \<Rightarrow> declared_dependency list \<Rightarrow> package_release" where
  "ex_release name version deps =
     \<lparr>pk_identity = release_identity_new name (RegistryRelease ''cran'' version), pk_version = version,
      pk_metadata = [], pk_publication = None, pk_declared_dependencies = deps, pk_distributions = [],
      pk_metadata_digest = replicate 64 CHR ''0''\<rparr>"

definition ex_candidate :: "package_release \<Rightarrow> prepared_candidate" where
  "ex_candidate release =
     \<lparr>pc_release = release, pc_exposure = NoExposure,
      pc_occurrences = [\<lparr>oc_repository = ''main'', oc_registry = ''cran'', oc_availability = Available,
        oc_currentness = Current, oc_rank = 0, oc_distributions = []\<rparr>]\<rparr>"

definition ex_lib :: "u32 \<Rightarrow> prepared_candidate" where
  "ex_lib minor = ex_candidate (ex_release ''lib'' (ex_version 1 minor) [])"

definition ex_app :: prepared_candidate where
  "ex_app = ex_candidate (ex_release ''app'' (ex_version 1 0)
     [\<lparr>dd_kind = Imports, dd_package = ex_requirement ''lib'' (from_clause Ge (ex_version 1 1))\<rparr>])"

definition ex_load :: loader where
  "ex_load k =
     (if k = KeyInstalledName ''app'' then Inr \<lparr>lr_candidates = [ex_app], lr_quarantined = []\<rparr>
      else if k = KeyInstalledName ''lib''
      then Inr \<lparr>lr_candidates = [ex_lib 0, ex_lib 2], lr_quarantined = []\<rparr>
      else Inl (candidate_load_error_new NotFound ''no such package''))"

definition ex_request :: resolution_request where
  "ex_request =
     \<lparr>rq_roots = [\<lparr>rr_package = ex_requirement ''app'' unconstrained, rr_expansion = HardOnly\<rparr>],
      rq_target = \<lparr>rt_r_version = ex_version 4 4\<rparr>, rq_r_requirement = unconstrained,
      rq_locked = [], rq_publication_cutoff = None\<rparr>"

definition ex_provider :: provider where
  "ex_provider =
     \<lparr>pv_loader = ex_load, pv_preference = default_preference, pv_lock_policy = prefer_locked, pv_request = ex_request\<rparr>"

definition ex_selection :: "(package_id \<times> solver_version) list" where
  "ex_selection =
     [(PRoot, VRoot), (PSubject KeyR, VR (ex_version 4 4)),
      (PSubject (KeyInstalledName ''app''), VCandidate 0), (POccupancy ''app'', VCandidate 0),
      (PSubject (KeyInstalledName ''lib''), VCandidate 2), (POccupancy ''lib'', VCandidate 2)]"

definition ex_state1 :: provider_state where
  "ex_state1 = snd (get_dependencies list_api ex_provider PRoot VRoot initial_state)"

definition ex_state :: provider_state where
  "ex_state = snd (get_dependencies list_api ex_provider (PSubject (KeyInstalledName ''app'')) (VCandidate 0) ex_state1)"

lemma ex_root_dependencies:
  "get_dependencies list_api ex_provider PRoot VRoot initial_state =
     (Inr (DepsAvailable [(PSubject KeyR, [VR (ex_version 4 4)]), (PSubject (KeyInstalledName ''app''), [VCandidate 0])]),
      ex_state1)"
  by code_simp

lemma ex_app_dependencies:
  "get_dependencies list_api ex_provider (PSubject (KeyInstalledName ''app'')) (VCandidate 0) s =
     (Inr (DepsAvailable [(POccupancy ''app'', [VCandidate 0]), (PSubject (KeyInstalledName ''lib''), [VCandidate 2])]),
      ex_state)" if "s = ex_state1 \<or> s = ex_state"
  using that
proof
  assume "s = ex_state1"
  show ?thesis unfolding \<open>s = ex_state1\<close> by code_simp
next
  assume "s = ex_state"
  show ?thesis unfolding \<open>s = ex_state\<close> by code_simp
qed

lemma ex_lib_dependencies:
  "get_dependencies list_api ex_provider (PSubject (KeyInstalledName ''lib'')) (VCandidate 2) ex_state =
     (Inr (DepsAvailable [(POccupancy ''lib'', [VCandidate 2])]), ex_state)"
  by code_simp

lemma ex_choices:
  "choose_version list_api ex_provider (PSubject (KeyInstalledName ''app'')) [VCandidate 0] ex_state =
     (Inr (Some (VCandidate 0)), ex_state)"
  "choose_version list_api ex_provider (PSubject (KeyInstalledName ''lib'')) [VCandidate 1, VCandidate 2] ex_state =
     (Inr (Some (VCandidate 2)), ex_state)"
  "choose_version list_api ex_provider (POccupancy ''app'') [VCandidate 0] ex_state =
     (Inr (Some (VCandidate 0)), ex_state)"
  "choose_version list_api ex_provider (POccupancy ''lib'') [VCandidate 2] ex_state =
     (Inr (Some (VCandidate 2)), ex_state)"
  "choose_version list_api ex_provider (PSubject KeyR) [VR (ex_version 4 4)] ex_state =
     (Inr (Some (VR (ex_version 4 4))), ex_state)"
  by code_simp+

text \<open>The run: the root, then \<^verbatim>\<open>app\<close>; every later callback finds its answer in the cache.\<close>

lemma ex_run:
  "(callback list_api ex_provider)\<^sup>*\<^sup>* initial_state ex_state1"
  "(callback list_api ex_provider)\<^sup>*\<^sup>* ex_state1 ex_state"
  "(callback list_api ex_provider)\<^sup>*\<^sup>* initial_state ex_state"
proof -
  show a: "(callback list_api ex_provider)\<^sup>*\<^sup>* initial_state ex_state1"
    using call_get_dependencies[OF ex_root_dependencies] by (rule r_into_rtranclp)
  show b: "(callback list_api ex_provider)\<^sup>*\<^sup>* ex_state1 ex_state"
    using call_get_dependencies[OF ex_app_dependencies[of ex_state1]] by (intro r_into_rtranclp) simp
  show "(callback list_api ex_provider)\<^sup>*\<^sup>* initial_state ex_state"
    using a b by (rule rtranclp_trans)
qed

lemma ex_answered:
  assumes "get_dependencies list_api ex_provider q v ex_state = (Inr (DepsAvailable deps), ex_state)"
    and "\<forall>(q', r)\<in>set deps. \<exists>(q2, w)\<in>set ex_selection. package_id_eq q2 q' \<and> pg_contains list_api r w"
  shows "answered list_api ex_provider ex_selection ex_state q v"
  using assms ex_run(3) unfolding answered_def by blast

lemma ex_chosen:
  "choose_version list_api ex_provider q r ex_state = (Inr (Some v), ex_state) \<Longrightarrow>
   chosen list_api ex_provider ex_state q v"
  using ex_run(3) unfolding chosen_def by blast

lemma ex_answer: "pubgrub_answer list_api ex_provider ex_selection ex_state"
proof -
  have root: "answered list_api ex_provider ex_selection ex_state PRoot VRoot"
    unfolding answered_def
    using ex_root_dependencies ex_run(2)
    by (intro exI[of _ initial_state] exI[of _ ex_state1] exI conjI)
      (auto simp: ex_selection_def list_api_def version_eq_def vers.cmp_refl)
  have rest: "answered list_api ex_provider ex_selection ex_state q v \<and> chosen list_api ex_provider ex_state q v"
    if "(q, v) \<in> set ex_selection" "q \<noteq> PRoot" for q v
    using that ex_answered[of q v "[]"] ex_answered[OF ex_app_dependencies[of ex_state]] ex_answered[OF ex_lib_dependencies]
      ex_choices[THEN ex_chosen]
    by (auto simp: ex_selection_def get_dependencies_def ret_s_def list_api_def)
  show ?thesis
    unfolding pubgrub_answer_def using root rest by (auto simp: ex_selection_def)
qed

lemma ex_loader_ok:
  "ex_load k = Inr r \<Longrightarrow> c \<in> set (lr_candidates r) \<Longrightarrow> candidate_ok c \<and> release_wf (pc_release c)"
  by (auto simp: ex_load_def ex_app_def ex_lib_def ex_candidate_def ex_release_def candidate_ok_def release_wf_def
      canonicalize_distributions_def
      split: if_splits)

lemma ex_solved: "solved list_api ex_provider ex_selection ex_state"
  unfolding solved_def using list_api_laws ex_answer ex_loader_ok by (simp add: ex_provider_def)

lemma ex_visible:
  "visible ex_state (KeyInstalledName ''lib'') 1 (ex_lib 0)" "visible ex_state (KeyInstalledName ''lib'') 2 (ex_lib 2)"
proof -
  have "hm_get solver_key_eq (ps_cache ex_state) (KeyInstalledName ''lib'') =
          Some (Inr \<lparr>ls_candidates = [(1, ex_lib 0), (2, ex_lib 2)], ls_quarantined = []\<rparr>)"
    by code_simp
  then show "visible ex_state (KeyInstalledName ''lib'') 1 (ex_lib 0)"
    "visible ex_state (KeyInstalledName ''lib'') 2 (ex_lib 2)"
    by (auto simp: visible_def)
qed

end
