(* ===== verification/Example_Values.thy ===== *)
theory Example_Values
  imports Examples
begin

text \<open>
  Concrete observations, candidates and repositories on which the properties of the data model and
  of the loaders are instantiated.
\<close>

definition ex_distribution :: "snapshot_id option \<Rightarrow> distribution" where
  "ex_distribution snapshot =
     \<lparr>di_registry = ''cran'', di_channel = ''source'', di_snapshot = snapshot, di_artifacts = [], di_observed_metadata = []\<rparr>"

definition ex_root :: "package_name \<Rightarrow> root_expansion_policy \<Rightarrow> root_requirement" where
  "ex_root name expansion = \<lparr>rr_package = ex_requirement name unconstrained, rr_expansion = expansion\<rparr>"

lemma is_okD: "is_ok r \<Longrightarrow> \<exists>x. r = Inr x"
  by (auto simp: is_ok_def split: sum.splits)

lemma ex_composition:
  "\<exists>out. combine_root_requirements
     [ex_root ''lib'' HardOnly, ex_root ''app'' HardOnly, ex_root ''lib'' DirectSuggests] = Inr out"
  by (rule is_okD) code_simp

lemma ex_metadata_sized:
  "metadata_sized (pc_identity ex_app) (ex_version 1 0) (pk_declared_dependencies (pc_release ex_app))"
  "metadata_sized (pc_identity ex_app) (ex_version 1 0) []"
  by code_simp+

definition ex_observation :: "distribution list \<Rightarrow> release_observation" where
  "ex_observation distributions =
     \<lparr>ob_identity = release_identity_new ''lib'' (RegistryRelease ''cran'' (ex_version 1 0)),
      ob_observed_package = ''lib'', ob_observed_version = ex_version 1 0, ob_metadata = [], ob_publication = None,
      ob_declared_dependencies = [], ob_distributions = distributions\<rparr>"

definition ex_observed_release :: "distribution list \<Rightarrow> package_release" where
  "ex_observed_release ds =
     \<lparr>pk_identity = ob_identity (ex_observation []), pk_version = ex_version 1 0, pk_metadata = [],
      pk_publication = None, pk_declared_dependencies = [], pk_distributions = canonicalize_distributions ds,
      pk_metadata_digest = canonical_metadata_digest ex_sha (ob_identity (ex_observation [])) (ex_version 1 0) []\<rparr>"

lemma ex_observed: "package_release_try_from ex_sha (ex_observation ds) = Inr (ex_observed_release ds)"
  unfolding package_release_try_from_Inr_iff
  by (simp add: ex_observation_def ex_observed_release_def release_identity_new_def vers_eq.eq_refl)

lemma ex_observed_merge: "\<exists>m. merge_consistent (ex_observed_release ds) (ex_observed_release es) = Inr m"
  unfolding merge_consistent_Inr_iff by (simp add: ex_observed_release_def vers_eq.eq_refl)

lemma ex_aggregation:
  "\<exists>agg. try_fold (observe ex_sha) []
     [ex_observation [ex_distribution None], ex_observation [ex_distribution (Some ''2024'')]] = Inr agg"
proof -
  have same: "pk_identity (ex_observed_release ds) = pk_identity (ex_observed_release es)" for ds es
    by (simp add: ex_observed_release_def)
  obtain m where "merge_consistent (ex_observed_release [ex_distribution None]) (ex_observed_release [ex_distribution (Some ''2024'')]) = Inr m"
    using ex_observed_merge by blast
  then show ?thesis
    by (simp add: observe_def observe_release_def ex_observed id_eq.eq_refl
        same[of "[ex_distribution (Some ''2024'')]" "[ex_distribution None]"])
qed

definition ex_raw :: "solver_key \<Rightarrow> candidate_load_error + raw_candidate_load_result" where
  "ex_raw k =
     (if k = KeyInstalledName ''lib''
      then Inr \<lparr>rl_observations = [\<lparr>ro_release = pc_release (ex_lib 0), ro_currentness = Current\<rparr>], rl_quarantined = []\<rparr>
      else Inl (candidate_load_error_new NotFound ''no such package''))"

definition ex_repository :: "repository_id \<Rightarrow> repository_rank \<Rightarrow> repository_candidate_loader" where
  "ex_repository repository rank =
     \<lparr>rcl_raw = ex_raw, rcl_repository = repository, rcl_registry = ''cran'', rcl_rank = rank, rcl_package_allowlist = None\<rparr>"

lemma ex_raw_wf: "raw_wf (ex_repository repository rank)"
  by (auto simp: raw_wf_def ex_repository_def ex_raw_def ex_lib_def ex_candidate_def ex_release_def release_wf_def
      canonicalize_distributions_def split: if_splits)

definition ex_occurrence :: "repository_id \<Rightarrow> repository_rank \<Rightarrow> repository_occurrence" where
  "ex_occurrence repository rank =
     \<lparr>oc_repository = repository, oc_registry = ''cran'', oc_availability = Available,
      oc_currentness = Current, oc_rank = rank, oc_distributions = []\<rparr>"

definition ex_loaded :: "repository_id \<Rightarrow> repository_rank \<Rightarrow> prepared_candidate" where
  "ex_loaded repository rank =
     \<lparr>pc_release = pc_release (ex_lib 0), pc_exposure = NoExposure, pc_occurrences = [ex_occurrence repository rank]\<rparr>"

lemma ex_prepared:
  "prepare_observation (ex_repository repository rank) \<lparr>ro_release = pc_release (ex_lib 0), ro_currentness = Current\<rparr> =
     Inr (ex_loaded repository rank)"
  by (simp add: prepare_observation_def repository_occurrence_new_def validate_distribution_registries_def
      prepared_candidate_new_def normalize_and_validate_def push_occurrence_def ex_repository_def ex_lib_def
      ex_candidate_def ex_release_def ex_loaded_def ex_occurrence_def canonicalize_distributions_def Let_def)

lemma ex_repository_load:
  "repository_load (ex_repository repository rank) (KeyInstalledName ''lib'') =
     Inr \<lparr>lr_candidates = [ex_loaded repository rank], lr_quarantined = []\<rparr>"
proof -
  have "is_eligible_for (ex_loaded repository rank) (KeyInstalledName ''lib'')"
    by (simp add: is_eligible_iff serves_def ex_loaded_def ex_occurrence_def pc_identity_def ex_lib_def ex_candidate_def
        ex_release_def release_identity_new_def)
  moreover have "rcl_raw (ex_repository repository rank) (KeyInstalledName ''lib'') =
      Inr \<lparr>rl_observations = [\<lparr>ro_release = pc_release (ex_lib 0), ro_currentness = Current\<rparr>], rl_quarantined = []\<rparr>"
    by (simp add: ex_repository_def ex_raw_def)
  ultimately show ?thesis
    by (simp add: repository_load_def ex_prepared candidate_load_result_new_def) (simp add: ex_repository_def)
qed

lemma ex_composite:
  "composite_load (\<lambda>cs. cs) (map repository_load [ex_repository ''main'' 0]) (KeyInstalledName ''lib'') =
     Inr \<lparr>lr_candidates = [ex_loaded ''main'' 0], lr_quarantined = []\<rparr>"
  by (simp add: composite_load_def composite_step_def ex_repository_load candidate_set_insert_def set_candidates_def
      candidate_load_result_new_def)

lemma ex_candidates_ok:
  "candidate_ok ex_app" "release_wf (pc_release ex_app)" "candidate_ok (ex_lib n)" "release_wf (pc_release (ex_lib n))"
  by (auto simp: ex_app_def ex_lib_def ex_candidate_def ex_release_def candidate_ok_def release_wf_def
      canonicalize_distributions_def)

lemma ex_merge: "\<exists>m. candidate_merge ex_app ex_app = Inr m"
  using compatible_merge[OF same_facts_compatible[OF candidate_same_facts_refl ex_candidates_ok(1,1,2)]] by blast

lemma ex_lib_distinct: "\<not> identity_eq (pc_identity (ex_lib 0)) (pc_identity (ex_lib 2))"
  by code_simp

lemma ex_union: "from_candidates [ex_lib 0, ex_lib 2] =
    Inr [(pc_identity (ex_lib 0), ex_lib 0), (pc_identity (ex_lib 2), ex_lib 2)]"
  using ex_lib_distinct by (simp add: from_candidates_def candidate_set_insert_def)

lemma ex_overlay_load:
  assumes "overlay_new ex_sha (composite_load (\<lambda>cs. cs) (map repository_load [ex_repository ''main'' 0])) (ex_version 4 4) = Inr ov"
  shows "overlay_load ov (KeyInstalledName ''lib'') = Inr \<lparr>lr_candidates = [ex_loaded ''main'' 0], lr_quarantined = []\<rparr>"
proof -
  have "projr (overlay_new ex_sha (composite_load (\<lambda>cs. cs) (map repository_load [ex_repository ''main'' 0])) (ex_version 4 4)) = ov"
    using assms by simp
  moreover have "''lib'' \<notin> set r_base_package_names" by code_simp
  ultimately show ?thesis
    using base_overlay.overlay_load_other[of "KeyInstalledName ''lib''" ex_sha "[ex_repository ''main'' 0]" "ex_version 4 4"]
      ex_composite by auto
qed

section \<open>A run over the base package overlay\<close>

text \<open>A request for the base package \<^verbatim>\<open>stats\<close>, answered by the overlay.\<close>

definition ex_base_request :: resolution_request where
  "ex_base_request =
     \<lparr>rq_roots = [\<lparr>rr_package = ex_requirement ''stats'' unconstrained, rr_expansion = HardOnly\<rparr>],
      rq_target = \<lparr>rt_r_version = ex_version 4 4\<rparr>, rq_r_requirement = unconstrained,
      rq_locked = [], rq_publication_cutoff = None\<rparr>"

definition ex_base_provider :: "r_base_package_overlay \<Rightarrow> provider" where
  "ex_base_provider ov =
     \<lparr>pv_loader = overlay_load ov, pv_preference = default_preference, pv_lock_policy = prefer_locked,
      pv_request = ex_base_request\<rparr>"

definition ex_base_state :: "prepared_candidate \<Rightarrow> provider_state" where
  "ex_base_state c =
     \<lparr>ps_cache = [(KeyInstalledName ''stats'', Inr \<lparr>ls_candidates = [(0, c)], ls_quarantined = []\<rparr>)],
      ps_interner = \<lparr>in_next = 1, in_by_identity = [(pc_identity c, 0)], in_candidates = [(0, c)]\<rparr>\<rparr>"

definition ex_base_selection :: "(package_id \<times> solver_version) list" where
  "ex_base_selection =
     [(PRoot, VRoot), (PSubject KeyR, VR (ex_version 4 4)),
      (PSubject (KeyInstalledName ''stats''), VCandidate 0), (POccupancy ''stats'', VCandidate 0)]"

definition ex_base_loaded :: "r_base_package_overlay \<Rightarrow> prepared_candidate \<Rightarrow> bool" where
  "ex_base_loaded ov c \<longleftrightarrow>
     overlay_load ov (KeyInstalledName ''stats'') = Inr \<lparr>lr_candidates = [c], lr_quarantined = []\<rparr> \<and>
     is_eligible_for c (KeyInstalledName ''stats'') \<and> ri_name (pc_identity c) = ''stats'' \<and>
     pk_declared_dependencies (pc_release c) = []"

lemmas ex_base_simps =
  ex_base_loaded_def ex_base_provider_def ex_base_request_def ex_base_state_def ex_requirement_def list_api_def
  pv_r_version_def pv_lock_decision_def prefer_locked_def required_identity_def locked_identity_def
  bind_s_def ret_s_def lift_s_def Let_def loaded_def candidates_def

lemma ex_base_root:
  "ex_base_loaded ov c \<Longrightarrow>
   get_dependencies list_api (ex_base_provider ov) PRoot VRoot initial_state =
     (Inr (DepsAvailable [(PSubject KeyR, [VR (ex_version 4 4)]), (PSubject (KeyInstalledName ''stats''), [VCandidate 0])]),
      ex_base_state c)"
  by (simp add: ex_base_simps get_dependencies_def root_dependency_def r_range_def subject_for_package_def
      exact_root_identity_def ranges_for_subject_def candidate_ranges_def initial_state_def prepare_subject_def
      merge_within_def intern_pair_def intern_def empty_interner_def)

lemma ex_base_dependencies:
  "ex_base_loaded ov c \<Longrightarrow>
   get_dependencies list_api (ex_base_provider ov) (PSubject (KeyInstalledName ''stats'')) (VCandidate 0) (ex_base_state c) =
     (Inr (DepsAvailable [(POccupancy ''stats'', [VCandidate 0])]), ex_base_state c)"
  by (simp add: ex_base_simps get_dependencies_def subject_dependencies_def publication_rejections_for_candidate_def
      candidate_for_id_def publication_rejections_def expansion_for_subject_def subject_for_package_def
      exact_root_identity_def project_dependency_edges_def List.map_filter_def)

lemma ex_base_choices:
  assumes "ex_base_loaded ov c"
  shows "choose_version list_api (ex_base_provider ov) (PSubject (KeyInstalledName ''stats'')) [VCandidate 0] (ex_base_state c) =
     (Inr (Some (VCandidate 0)), ex_base_state c)"
    and "choose_version list_api (ex_base_provider ov) (POccupancy ''stats'') [VCandidate 0] (ex_base_state c) =
     (Inr (Some (VCandidate 0)), ex_base_state c)"
    and "choose_version list_api (ex_base_provider ov) (PSubject KeyR) [VR (ex_version 4 4)] (ex_base_state c) =
     (Inr (Some (VR (ex_version 4 4))), ex_base_state c)"
  using assms
  by (simp_all add: ex_base_simps choose_version_def eligible_candidates_def publication_rejections_def
      sort_candidates_def pop_def ids_for_name_def vers_eq.eq_refl)

lemma ex_base_answer:
  assumes "ex_base_loaded ov c"
  shows "pubgrub_answer list_api (ex_base_provider ov) ex_base_selection (ex_base_state c)"
proof -
  let ?p = "ex_base_provider ov" and ?st = "ex_base_state c"
  have run: "(callback list_api ?p)\<^sup>*\<^sup>* initial_state ?st"
    using call_get_dependencies[OF ex_base_root[OF assms]] by (rule r_into_rtranclp)
  have ans: "answered list_api ?p ex_base_selection ?st q v"
    if "get_dependencies list_api ?p q v s = (Inr (DepsAvailable deps), ?st)" "(callback list_api ?p)\<^sup>*\<^sup>* initial_state s"
      "\<forall>(q', r)\<in>set deps. \<exists>(q2, w)\<in>set ex_base_selection. package_id_eq q2 q' \<and> pg_contains list_api r w" for q v s deps
    using that unfolding answered_def by blast
  have cho: "chosen list_api ?p ?st q v" if "choose_version list_api ?p q r ?st = (Inr (Some v), ?st)" for q r v
    using that run unfolding chosen_def by blast
  have root: "answered list_api ?p ex_base_selection ?st PRoot VRoot"
    by (rule ans[OF ex_base_root[OF assms] rtranclp.rtrancl_refl])
      (simp add: ex_base_selection_def list_api_def vers_eq.eq_refl)
  have rest: "answered list_api ?p ex_base_selection ?st q v \<and> chosen list_api ?p ?st q v"
    if "(q, v) \<in> set ex_base_selection" "q \<noteq> PRoot" for q v
    using that ans[of q v ?st "[]", OF _ run] ans[OF ex_base_dependencies[OF assms] run]
      ex_base_choices[OF assms, THEN cho]
    by (auto simp: ex_base_selection_def get_dependencies_def ret_s_def list_api_def)
  show ?thesis
    unfolding pubgrub_answer_def using root rest by (auto simp: ex_base_selection_def)
qed

lemma ex_base_overlay:
  assumes "overlay_new sha (composite_load (\<lambda>cs. cs) (map repository_load ls)) (ex_version 4 4) = Inr ov"
  shows "\<exists>c. ex_base_loaded ov c"
proof -
  have eq: "projr (overlay_new sha (composite_load (\<lambda>cs. cs) (map repository_load ls)) (ex_version 4 4)) = ov"
    using assms by simp
  have "''stats'' \<in> set r_base_package_names" by code_simp
  then obtain release where release: "base_release (ex_version 4 4) ''stats'' release"
    and load: "overlay_load ov (KeyInstalledName ''stats'') =
      Inr \<lparr>lr_candidates = [\<lparr>pc_release = release, pc_exposure = RuntimeInstalled, pc_occurrences = []\<rparr>], lr_quarantined = []\<rparr>"
    using base_overlay.overlay_load_base[of "''stats''" "ex_version 4 4" sha ls] unfolding eq by blast
  then have "ex_base_loaded ov \<lparr>pc_release = release, pc_exposure = RuntimeInstalled, pc_occurrences = []\<rparr>"
    by (simp add: ex_base_loaded_def is_eligible_iff pc_identity_def base_release_def release_identity_new_def)
  then show ?thesis by blast
qed

end
