(* ===== verification/Manifest_Examples.thy ===== *)
theory Manifest_Examples
  imports Manifest_Document Example_Values
begin

text \<open>
  A manifest with a repository, a dependency and a group, and two inputs that show where a digest and
  a normalization of the program are weaker than they look.
\<close>

text \<open>A stand-in for the \<^verbatim>\<open>url\<close> crate: every text is a URL of one host, without port or query.\<close>

definition ex_url_api :: "string url_api" where
  "ex_url_api =
     \<lparr>url_parse = Inr, url_scheme = (\<lambda>_. ''https''), url_host_str = (\<lambda>_. Some ''cran.r-project.org''),
      url_username = (\<lambda>_. []), url_password = (\<lambda>_. None), url_query = (\<lambda>_. None), url_fragment = (\<lambda>_. None),
      url_port = (\<lambda>_. None), url_path = (\<lambda>u. drop 26 u), url_set_path = (\<lambda>u path. take 26 u @ path),
      url_clear_port = Inr, url_to_string = (\<lambda>u. u)\<rparr>"

text \<open>A spelling of dates that is injective and never empty.\<close>

definition ex_strftime :: "publication_date \<Rightarrow> string" where
  "ex_strftime d = (case d of (year, month, day) \<Rightarrow>
     (if year < 0 then CHR ''-'' else CHR ''+'') # show_nat (nat \<bar>year\<bar>) @ ''-'' @ show_nat month @ ''-'' @ show_nat day)"

lemma show_nat_inject: "show_nat m = show_nat n \<longleftrightarrow> m = n"
  by (metis dec_value_show_nat)

lemma ex_strftime_ok: "ex_strftime d \<noteq> []" "ex_strftime d = ex_strftime e \<Longrightarrow> d = e"
proof -
  have split: "show_nat a @ CHR ''-'' # xs = show_nat b @ CHR ''-'' # ys \<Longrightarrow> a = b \<and> xs = ys" for a b xs ys
  proof -
    assume eq: "show_nat a @ CHR ''-'' # xs = show_nat b @ CHR ''-'' # ys"
    have "takeWhile is_ascii_digit (show_nat n @ CHR ''-'' # zs) = show_nat n" for n zs
      using show_nat_digits by (subst takeWhile_append2) (auto simp: is_ascii_digit_def byte_val_def)
    then have "show_nat a = show_nat b" using eq by metis
    then show "a = b \<and> xs = ys" using eq show_nat_inject[of a b] by auto
  qed
  show "ex_strftime d \<noteq> []" by (simp add: ex_strftime_def split: prod.splits)
  show "ex_strftime d = ex_strftime e \<Longrightarrow> d = e"
    by (auto simp: ex_strftime_def show_nat_inject split: prod.splits if_splits dest!: split)
qed

definition ex_manifest_value :: toml_value where
  "ex_manifest_value = TomlTable
     [(''dependencies'', TomlTable [(''lib'', TomlString ''>= 1.1'')]),
      (''environments'', TomlTable [(''dev'', TomlArray [TomlString ''test''])]),
      (''groups'', TomlTable [(''test'', TomlTable [(''dependencies'', TomlTable
         [(''lib'', TomlTable [(''repository'', TomlString ''cran''), (''version'', TomlString ''< 2.0'')])])])]),
      (''r'', TomlTable [(''version'', TomlString ''>= 4.1'')]),
      (''repositories'', TomlArray [TomlTable
         [(''id'', TomlString ''cran''), (''packages'', TomlArray [TomlString ''lib'', TomlString ''app'']),
          (''registry'', TomlString ''cran''), (''url'', TomlString ''https://cran.r-project.org/x/../'')]]),
      (''rsolve'', TomlTable [(''schema'', TomlInteger 1)])]"

definition ex_parsed :: "manifest_error + manifest_document" where
  "ex_parsed = parse_manifest_value (\<lambda>_. None) ex_url_api (\<lambda>_. Inl '''') ex_strftime ex_manifest_value None"

definition ex_document :: manifest_document where
  "ex_document = projr ex_parsed"

definition ex_target :: resolution_target where
  "ex_target = \<lparr>rt_r_version = ex_version 4 4\<rparr>"

definition ex_environment :: "string \<Rightarrow> composed_environment" where
  "ex_environment name = projr (compose_environment_with_locked ex_document name ex_target [])"

lemma is_ok_projr: "is_ok r \<Longrightarrow> r = Inr (projr r)"
  by (auto simp: is_ok_def split: sum.splits)

lemma ex_document: "parse_manifest_value (\<lambda>_. None) ex_url_api (\<lambda>_. Inl '''') ex_strftime ex_manifest_value None = Inr ex_document"
proof -
  have "is_ok ex_parsed" by code_simp
  from is_ok_projr[OF this] show ?thesis by (simp only: ex_parsed_def ex_document_def)
qed

lemma ex_environments:
  "compose_environment_with_locked ex_document ''dev'' ex_target [] = Inr (ex_environment ''dev'')"
  "compose_environment_with_locked ex_document ''default'' ex_target [] = Inr (ex_environment ''default'')"
proof -
  have "is_ok (compose_environment_with_locked ex_document ''dev'' ex_target [])"
    "is_ok (compose_environment_with_locked ex_document ''default'' ex_target [])" by code_simp+
  from this[THEN is_ok_projr]
  show "compose_environment_with_locked ex_document ''dev'' ex_target [] = Inr (ex_environment ''dev'')"
    "compose_environment_with_locked ex_document ''default'' ex_target [] = Inr (ex_environment ''default'')"
    by (simp_all only: ex_environment_def)
qed

lemma ex_environment_sized:
  "list_all sized (intent_fields ex_strftime (ex_environment ''dev''))"
  "list_all sized (intent_fields ex_strftime (ex_environment ''default''))"
  by code_simp+

lemma ex_environment_names:
  "ce_environment (ex_environment ''dev'') = ''dev''" "ce_environment (ex_environment ''default'') = ''default''"
  by code_simp+

text \<open>A digest that keeps the preimage of \<^verbatim>\<open>dev\<close> apart from all others.\<close>

definition ex_intent_sha :: "bytes \<Rightarrow> bytes" where
  "ex_intent_sha bs =
     replicate 32 (if bs = intent_preimage ex_strftime (ex_environment ''dev'') then CHR ''d'' else CHR ''o'')"

lemma ex_intent_sha: "length (ex_intent_sha bs) = 32"
  "ex_intent_sha (intent_preimage ex_strftime (ex_environment ''dev'')) = ex_intent_sha bs \<Longrightarrow>
     intent_preimage ex_strftime (ex_environment ''dev'') = bs"
  by (auto simp: ex_intent_sha_def split: if_splits)

section \<open>An ambiguous digest\<close>

text \<open>
  \<^verbatim>\<open>repository_intent_digest\<close> hashes the fields of all repositories without marking where one ends.
  A package of an allowlist can therefore be read as the identifier of the next repository: a
  repository with packages \<^verbatim>\<open>a\<close> and \<^verbatim>\<open>p\<close> followed by an R-universe called \<^verbatim>\<open>cran-like\<close> has the digest of
  one with package \<^verbatim>\<open>a\<close> followed by a CRAN-like repository \<^verbatim>\<open>p\<close> of namespace \<^verbatim>\<open>r-universe\<close>.
\<close>

definition ex_repositories :: "bool \<Rightarrow> repository_spec list" where
  "ex_repositories swallowed =
     (let endpoint = ''https://example.org/'';
          first = (\<lambda>ps. \<lparr>sp_id = ''main'', sp_registry = Cran, sp_manifest_endpoint = endpoint, sp_packages = Some ps\<rparr>) in
      if swallowed
      then [first [''a'', ''p''],
            \<lparr>sp_id = ''cran-like'', sp_registry = RUniverse, sp_manifest_endpoint = endpoint, sp_packages = None\<rparr>]
      else [first [''a''],
            \<lparr>sp_id = ''p'', sp_registry = CranLike ''r-universe'', sp_manifest_endpoint = endpoint, sp_packages = None\<rparr>])"

lemma repository_intent_digest_ambiguous:
  assumes "doc_repositories a = ex_repositories True" and "doc_repositories b = ex_repositories False"
  shows "repository_intent_digest sha a = repository_intent_digest sha b \<and> doc_repositories a \<noteq> doc_repositories b \<and>
    list_all repository_ok (doc_repositories a) \<and> list_all repository_ok (doc_repositories b)"
proof -
  have "list_all repository_ok (ex_repositories True)" "list_all repository_ok (ex_repositories False)" by code_simp+
  then show ?thesis
    using assms by (simp add: repository_intent_digest_def ex_repositories_def Let_def repository_intent_fields_def
        registry_fields_def)
qed

section \<open>A path that is not a normal form\<close>

text \<open>
  \<^verbatim>\<open>normalize_requested_path\<close> looks for a drive prefix before it drops dots, so its result can be a
  path it rejects.
\<close>

lemma requested_path_not_idempotent:
  "normalize_requested_path ''./C:/x'' = Inr ''C:/x''"
  "normalize_requested_path ''C:/x'' = Inl ''path must not be absolute or use a drive/UNC prefix''"
  by code_simp+

end
