(* ===== verification/Lock_Examples.thy ===== *)
theory Lock_Examples
  imports Lock_Roundtrip Lock_Text Manifest_Examples
begin

text \<open>The lock of the example run: \<^verbatim>\<open>app\<close> and the release of \<^verbatim>\<open>lib\<close> that was chosen for it.\<close>

definition ex_resolution :: resolution where
  "ex_resolution = projr (fst (finish ex_provider ex_selection ex_state))"

lemma ex_finished: "finish ex_provider ex_selection ex_state = (Inr ex_resolution, ex_state)"
  "resolution_ok ex_provider ex_resolution"
proof -
  obtain res where "finish ex_provider ex_selection ex_state = (Inr res, ex_state)" "resolution_ok ex_provider res"
    using finish_sound[OF ex_solved] by blast
  then show "finish ex_provider ex_selection ex_state = (Inr ex_resolution, ex_state)"
    "resolution_ok ex_provider ex_resolution"
    by (simp_all add: ex_resolution_def)
qed

text \<open>The packages, spelled out.\<close>

definition ex_resolved :: "prepared_candidate \<Rightarrow> resolved_package" where
  "ex_resolved c =
     \<lparr>rp_subject = KeyInstalledName (ri_name (pc_identity c)), rp_release = pc_release c,
      rp_effective_dependencies = project_dependency_edges (pc_release c) HardOnly,
      rp_visible_repository_ids = [''main'']\<rparr>"

lemma ex_resolution_packages: "rs_packages ex_resolution = [ex_resolved ex_app, ex_resolved (ex_lib 2)]"
  by code_simp

lemma ex_edges:
  "map (\<lambda>e. pr_name (re_package e)) (rp_effective_dependencies (ex_resolved ex_app)) = [''lib'']"
  "rp_name (ex_resolved ex_app) = ''app''" "rp_name (ex_resolved (ex_lib 2)) = ''lib''"
  by code_simp+

lemma ex_lockable: "\<forall>pkg\<in>set (rs_packages ex_resolution). lockable pkg"
proof -
  have parsed: "parse_version (version_str (ex_version 1 n)) = Inr (ex_version 1 n)" if "n = 0 \<or> n = 2" for n
    using that by (elim disjE) (hypsubst, code_simp)+
  show ?thesis
    using parsed[of 0] parsed[of 2]
    by (simp add: ex_resolution_packages lockable_def ex_resolved_def ex_app_def ex_lib_def ex_candidate_def
        ex_release_def release_identity_new_def is_r_base_package_def registry_version_def vers_eq.eq_refl)
qed

lemma ex_base_names_only: "base_names_only ex_provider"
  by (auto simp: base_names_only_def ex_provider_def ex_load_def ex_app_def ex_lib_def ex_candidate_def ex_release_def
      release_identity_new_def is_r_base_package_def split: if_splits)

lemma ex_reachable:
  "\<forall>pkg\<in>set (rs_packages ex_resolution). \<exists>root\<in>set (rq_roots (pv_request ex_provider)).
     (resolved_depends ex_resolution)\<^sup>*\<^sup>* (pr_name (rr_package root)) (rp_name pkg)"
proof -
  have "''lib'' \<in> (\<lambda>e. pr_name (re_package e)) ` set (rp_effective_dependencies (ex_resolved ex_app))"
    using ex_edges(1) by (metis list.set_intros(1) list.set_map)
  then have "resolved_depends ex_resolution ''app'' ''lib''"
    by (auto simp: resolved_depends_def ex_resolution_packages ex_edges(2,3))
  then show ?thesis
    by (auto simp: ex_resolution_packages ex_edges(2,3) ex_provider_def ex_request_def ex_requirement_def)
qed

lemma ex_roots:
  "\<forall>root\<in>set (rq_roots (pv_request ex_provider)). \<not> is_r_base_name (pr_name (rr_package root))"
  "\<forall>root\<in>set (rq_roots (pv_request ex_provider)). requirement_wf (rr_package root)"
  by code_simp+

definition ex_lock :: lockfile where
  "ex_lock = resolution_lock ex_resolution ''default'' None (replicate 64 CHR ''a'') unconstrained"

lemma ex_lock_ok: "lock_ok ex_lock"
proof -
  have "satisfies unconstrained (rt_r_version (rs_target ex_resolution))" by code_simp
  moreover have "sorted_wrt (<) (map rp_name (rs_packages ex_resolution))"
    using ex_finished(2) by (simp add: resolution_ok_def)
  ultimately show ?thesis
    using locked_packages_ok[OF _ ex_lockable] by (simp add: lock_ok_def ex_lock_def resolution_lock_def)
qed

lemma ex_lock_ready: "lock_ready (\<lambda>_. None) (\<lambda>_. Inl []) ex_strftime ex_lock"
proof -
  have digests: "sha256_digest_new (replicate 64 CHR ''a'') = Inr (replicate 64 CHR ''a'')"
      "sha256_digest_new (replicate 64 CHR ''0'') = Inr (replicate 64 CHR ''0'')"
      "environment_id_new ''default'' = Inr ''default''"
    by code_simp+
  have names: "is_ok (package_name_new ''app'')" "is_ok (package_name_new ''lib'')"
      "is_ok (opaque_identifier_new ''PackageNamespace'' ''cran'')" "is_ok (opaque_identifier_new ''RepositoryId'' ''main'')"
    by code_simp+
  have components: "version_components (ex_version 1 0) = [1, 0]" "version_components (ex_version 1 2) = [1, 2]"
      "rs_target ex_resolution = \<lparr>rt_r_version = ex_version 4 4\<rparr>" "version_components (ex_version 4 4) = [4, 4]"
      "clauses (canonicalize_constraint unconstrained) = []"
    by code_simp+
  have digest: "lp_metadata_sha256 (locked_form res p) = pk_metadata_digest (rp_release p)" for res p
    by (simp add: locked_form_def retain_selected_def from_resolved_def Let_def)
  have "package_ready (\<lambda>_. None) (locked_form ex_resolution (ex_resolved ex_app))"
    "package_ready (\<lambda>_. None) (locked_form ex_resolution (ex_resolved (ex_lib 2)))"
    using names digests(2) components(1,2)
    by (simp_all add: package_ready_def digest ex_resolved_def ex_app_def ex_lib_def ex_candidate_def ex_release_def
        release_identity_new_def rp_name_def)
  then show ?thesis
    using digests(1,3) components
    by (simp add: lock_ready_def Let_def ex_lock_def resolution_lock_def ex_resolution_packages)
qed

end
