(* ===== verification/Lock_Toml_Examples.thy ===== *)
theory Lock_Toml_Examples
  imports Lock_Toml_Sound Lock_Examples
begin

text \<open>
  A quoting of strings that meets what the round trip of a lock asks of the \<^verbatim>\<open>toml\<close> crate: basic strings, with
  quotes, backslashes and control characters escaped.
\<close>

definition ex_controls :: "char list" where
  "ex_controls = map char_of ([0..<32] @ [127::nat])"

definition ex_escape :: "char \<Rightarrow> string" where
  "ex_escape c =
     (if c = CHR 0x22 \<or> c = CHR 0x5C then [CHR 0x5C, c]
      else if c \<in> set ex_controls then [CHR 0x5C] @ ''u00'' @ hex_byte c
      else [c])"

definition ex_quote :: "string \<Rightarrow> string" where
  "ex_quote v = [CHR 0x22] @ concat (map ex_escape v) @ [CHR 0x22]"

fun ex_unescape :: "string_lexer" where
  "ex_unescape [] = None"
| "ex_unescape (c # s) =
     (if c = CHR 0x22 then Some ([], s)
      else if c \<noteq> CHR 0x5C then map_option (\<lambda>(v, r). (c # v, r)) (ex_unescape s)
      else case s of
             d # u \<Rightarrow>
               if d = CHR 0x22 \<or> d = CHR 0x5C then map_option (\<lambda>(v, r). (d # v, r)) (ex_unescape u)
               else (case u of
                       e # f # g # h # w \<Rightarrow>
                         (case find (\<lambda>x. d = CHR ''u'' \<and> e = CHR ''0'' \<and> f = CHR ''0'' \<and> hex_byte x = [g, h]) ex_controls of
                            Some x \<Rightarrow> map_option (\<lambda>(v, r). (x # v, r)) (ex_unescape w)
                          | None \<Rightarrow> None)
                     | _ \<Rightarrow> None)
           | [] \<Rightarrow> None)"

definition ex_lexer :: string_lexer where
  "ex_lexer s = (case s of c # r \<Rightarrow> if c = CHR 0x22 then ex_unescape r else None | [] \<Rightarrow> None)"

definition ex_printer :: toml_printer where
  "ex_printer =
     \<lparr>tp_scalar = \<lambda>v. Inr (''value = '' @ ex_quote v @ newline),
      tp_array = \<lambda>vs. Inr (''values = ['' @ join_str '', '' (map ex_quote vs) @ '']'' @ newline)\<rparr>"

definition ex_from_str :: "string \<Rightarrow> string + wire_lockfile" where
  "ex_from_str t =
     (case Option.bind (read_document ex_lexer t) wire_lockfile_of of Some w \<Rightarrow> Inr w | None \<Rightarrow> Inl ''invalid lock'')"

lemma ex_find_control: "c \<in> set ex_controls \<Longrightarrow> find (\<lambda>x. hex_byte x = hex_byte c) ex_controls = Some c"
proof -
  assume c: "c \<in> set ex_controls"
  then show ?thesis
    by (cases "find (\<lambda>x. hex_byte x = hex_byte c) ex_controls")
      (auto simp: find_None_iff find_Some_iff hex_byte_inject)
qed

lemma ex_unescape_escape: "ex_unescape (ex_escape c @ s) = map_option (\<lambda>(v, r). (c # v, r)) (ex_unescape s)"
proof -
  have "CHR 0x5C \<notin> set ex_controls" "CHR 0x22 \<notin> set ex_controls" by code_simp+
  then show ?thesis
    using ex_find_control[of c] by (simp add: ex_escape_def hex_byte_def)
qed

lemma ex_unescape_text: "ex_unescape (concat (map ex_escape v) @ CHR 0x22 # s) = Some (v, s)"
  by (induction v) (simp_all add: ex_unescape_escape)

lemma ex_escape_ascii: "is_ascii c \<Longrightarrow> list_all is_ascii (ex_escape c)" "128 \<le> byte_val c \<Longrightarrow> ex_escape c = [c]"
proof -
  have controls: "list_all (\<lambda>c. is_ascii c \<and> list_all is_ascii (hex_byte c)) ex_controls" by code_simp
  have "is_ascii (CHR 0x5C)" "is_ascii (CHR ''u'')" "is_ascii (CHR ''0'')" "is_ascii (CHR 0x22)"
    by (simp_all add: is_ascii_def byte_val_def)
  then show "is_ascii c \<Longrightarrow> list_all is_ascii (ex_escape c)" "128 \<le> byte_val c \<Longrightarrow> ex_escape c = [c]"
    using controls by (auto simp: ex_escape_def list_all_iff is_ascii_def)
qed

lemma utf8_ascii_append: "list_all is_ascii x \<Longrightarrow> utf8 (x @ s) = utf8 s"
  by (induction x) (simp_all add: utf8_ascii)

lemma ex_escape_utf8: "utf8 v \<Longrightarrow> utf8 (concat (map ex_escape v))"
proof (induction v rule: utf8.induct)
  case (2 c cs)
  let ?n = "utf8_len c - 1"
  show ?case
  proof (cases "is_ascii c")
    case True
    then show ?thesis using 2 utf8_ascii_append[OF ex_escape_ascii(1)] by (simp add: utf8_ascii)
  next
    case False
    then have c: "ex_escape c = [c]" using ex_escape_ascii(2) by (simp add: is_ascii_def)
    have high: "concat (map ex_escape xs) = xs" if "list_all (\<lambda>d. 128 \<le> byte_val d) xs" for xs
      using that by (induction xs) (simp_all add: ex_escape_ascii(2))
    have "concat (map ex_escape cs) = take ?n cs @ concat (map ex_escape (drop ?n cs))"
      using high[of "take ?n cs"] 2(2) by (metis append_take_drop_id concat_append map_append utf8.simps(2))
    then show ?thesis using 2 c by (auto simp: min_def)
  qed
qed simp

lemma ex_quote_spells: "utf8 v \<Longrightarrow> spells ex_lexer v (ex_quote v)"
  using ex_escape_utf8[of v] utf8_append(1)[of "CHR 0x22" "concat (map ex_escape v)" "[]"]
    utf8_append(1)[of "CHR 0x22" "[]" "concat (map ex_escape v) @ [CHR 0x22]"] ex_unescape_text[of v]
  by (simp add: spells_def ex_quote_def ex_lexer_def toml_quote_def is_ascii_def byte_val_def)

lemma ex_writes: "toml_writes ex_lexer ex_printer"
proof -
  have "list_all utf8 vs \<Longrightarrow> list_all2 (spells ex_lexer) vs (map ex_quote vs)" for vs
    by (induction vs) (simp_all add: ex_quote_spells)
  then show ?thesis
    unfolding toml_writes_def using ex_quote_spells by (auto simp: ex_printer_def)
qed

lemma ex_reads: "toml_reads ex_lexer ex_from_str"
  by (simp add: toml_reads_def ex_from_str_def)

lemma ex_lock_texts: "encode_lockfile ex_strftime ex_lock = Inr wire \<Longrightarrow> list_all utf8 (wire_texts wire)"
proof -
  have "case encode_lockfile ex_strftime ex_lock of Inr w \<Rightarrow> list_all utf8 (wire_texts w) | Inl _ \<Rightarrow> False" by code_simp
  then show "encode_lockfile ex_strftime ex_lock = Inr wire \<Longrightarrow> list_all utf8 (wire_texts wire)" by simp
qed

end
