(* ===== verification/Path_Semantics.thy ===== *)
theory Path_Semantics
  imports Manifest_Paths
begin

text \<open>
  What a path means, independently of how it is normalized: walking from a directory through its
  components.  A directory is the list of its names, the innermost first.  The normalizers return
  exactly the paths that lead to the same place, and reject those that leave the root.
\<close>

section \<open>Walking a path\<close>

fun walk :: "string list \<Rightarrow> string list \<Rightarrow> string list option" where
  "walk dir [] = Some dir"
| "walk dir (c # cs) =
     (if c = '''' \<or> c = ''.'' then walk dir cs
      else if c = ''..'' then (case dir of [] \<Rightarrow> None | _ # up \<Rightarrow> walk up cs)
      else walk (c # dir) cs)"

lemma walk_append: "walk dir (xs @ ys) = Option.bind (walk dir xs) (\<lambda>d. walk d ys)"
  by (induction dir xs rule: walk.induct) (auto split: list.splits)

lemma walk_plain: "list_all plain xs \<Longrightarrow> walk dir xs = Some (rev xs @ dir)"
  by (induction xs arbitrary: dir) (auto simp: plain_def)

lemma walk_up: "walk dir (replicate k ''..'') = (if k \<le> length dir then Some (drop k dir) else None)"
  by (induction k arbitrary: dir) (auto split: list.splits)

lemma walk_shape:
  "list_all plain ys \<Longrightarrow>
     walk dir (replicate k ''..'' @ ys) = (if k \<le> length dir then Some (rev ys @ drop k dir) else None)"
  by (simp add: walk_append walk_up walk_plain)

section \<open>Subdirectories\<close>

lemma subdirectory_walk:
  "try_fold subdirectory_step parts xs = Inr out \<longleftrightarrow> walk (rev parts) xs = Some (rev out)"
proof (induction xs arbitrary: parts)
  case (Cons x xs)
  show ?case
  proof (cases "x = ''..''")
    case True
    then show ?thesis using Cons by (cases parts rule: rev_cases) (simp_all add: subdirectory_step_def)
  qed (use Cons in \<open>auto simp: subdirectory_step_def\<close>)
qed auto

text \<open>Exactly the relative paths that stay below the root and name something in it.\<close>

lemma subdirectory_exact:
  "normalize_relative_subdirectory s = Inr d \<longleftrightarrow>
     \<not> starts_with ''/'' s \<and> CHR 0x5C \<notin> set s \<and> \<not> list_ex is_control (chars s) \<and>
     (\<exists>dir. walk [] (slash_split s) = Some dir \<and> dir \<noteq> [] \<and> d = join_str ''/'' (rev dir))"
proof -
  have "(\<exists>parts. try_fold subdirectory_step [] (slash_split s) = Inr parts \<and> P parts) \<longleftrightarrow>
      (\<exists>dir. walk [] (slash_split s) = Some dir \<and> P (rev dir))" for P
    unfolding subdirectory_walk by (metis rev_rev_ident rev.simps(1))
  moreover have "s \<noteq> []" if "walk [] (slash_split s) = Some dir" "dir \<noteq> []" for dir
    using that by (auto simp: slash_split_def)
  moreover have "(if parts = [] then Inl e else Inr x) = Inr d \<longleftrightarrow> parts \<noteq> [] \<and> d = x"
    for parts :: "string list" and e x :: string by auto
  ultimately show ?thesis
    by (auto simp: normalize_relative_subdirectory_def bind_res_Inr_iff)
qed

section \<open>Requested paths\<close>

lemma requested_walk_step:
  assumes "path_shape parts" and "CHR ''/'' \<notin> set x"
  shows "walk dir (requested_path_step parts x) = walk dir (parts @ [x])"
proof -
  obtain k ys where parts: "parts = replicate k ''..'' @ ys" "list_all plain ys"
    using assms(1) by (auto simp: path_shape_def)
  show ?thesis
  proof (cases "x = ''..'' \<and> ys \<noteq> []")
    case True
    then obtain zs y where ys: "ys = zs @ [y]" by (cases ys rule: rev_cases) auto
    then have y: "y \<noteq> ''..''" "list_all plain zs" using parts(2) by (simp_all add: plain_def)
    have "requested_path_step parts x = replicate k ''..'' @ zs"
      using True parts(1) y(1) by (simp add: requested_path_step_def ys butlast_append)
    moreover have "walk dir (parts @ [x]) = Option.bind (walk dir parts) (\<lambda>d. walk d [x])" by (rule walk_append)
    ultimately show ?thesis
      using True walk_shape[OF y(2), of dir k] walk_shape[OF parts(2), of dir k] by (simp add: parts(1) ys)
  next
    case False
    then show ?thesis
      using parts by (cases k) (auto simp: requested_path_step_def walk_append last_replicate simp flip: replicate_append_same)
  qed
qed

lemma requested_walk:
  assumes "\<forall>x\<in>set xs. CHR ''/'' \<notin> set x" and "path_shape parts"
  shows "walk dir (foldl requested_path_step parts xs) = walk dir (parts @ xs)"
  using assms
proof (induction xs arbitrary: parts)
  case (Cons x xs)
  have "walk dir (foldl requested_path_step parts (x # xs)) = walk dir (requested_path_step parts x @ xs)"
    using Cons path_shape_step[of parts x] by simp
  also have "\<dots> = walk dir ((parts @ [x]) @ xs)"
    unfolding walk_append[of dir _ xs] using requested_walk_step Cons.prems by simp
  finally show ?case by simp
qed simp

text \<open>A path that leads back to the directory it starts from, or above it, from wherever it starts.\<close>

definition only_ascends :: "string list \<Rightarrow> bool" where
  "only_ascends cs \<longleftrightarrow> (\<exists>k. \<forall>dir. walk dir cs = (if k \<le> length dir then Some (drop k dir) else None))"

lemma shape_ascends:
  assumes "list_all plain ys"
  shows "only_ascends (replicate k ''..'' @ ys) \<longleftrightarrow> ys = []"
proof
  assume "only_ascends (replicate k ''..'' @ ys)"
  then obtain j where j: "\<And>dir. walk dir (replicate k ''..'' @ ys) = (if j \<le> length dir then Some (drop j dir) else None)"
    by (auto simp: only_ascends_def)
  have "rev ys @ replicate j [] = replicate k []"
    using j[of "replicate (j + k) []"] by (simp add: walk_shape[OF assms])
  then have "set (rev ys @ replicate j []) \<subseteq> {[]}" by (simp add: set_replicate_conv_if)
  then show "ys = []" using assms by (cases ys) (auto simp: plain_def)
next
  assume "ys = []"
  then show "only_ascends (replicate k ''..'' @ ys)" unfolding only_ascends_def by (auto simp: walk_up)
qed

lemma requested_exact:
  "(\<exists>w. normalize_requested_path s = Inr w) \<longleftrightarrow>
     \<not> starts_with ''/'' (slashes s) \<and> \<not> second_colon (slashes s) \<and> \<not> list_ex is_control (chars (slashes s)) \<and>
     \<not> only_ascends (slash_split (slashes s))"
  "normalize_requested_path s = Inr w \<Longrightarrow>
     (\<forall>dir. walk dir (slash_split w) = walk dir (slash_split (slashes s))) \<and>
     (\<exists>k ys. slash_split w = replicate k ''..'' @ ys \<and> ys \<noteq> [] \<and> list_all plain ys)"
proof -
  let ?cs = "slash_split (slashes s)" and ?parts = "foldl requested_path_step [] (slash_split (slashes s))"
  have slash: "\<forall>x\<in>set ?cs. CHR ''/'' \<notin> set x" by (auto dest: slash_split_pieces)
  have nil: "path_shape []" by (simp add: path_shape_def)
  have same: "walk dir ?parts = walk dir ?cs" for dir using requested_walk[OF slash nil] by simp
  obtain k ys where shape: "?parts = replicate k ''..'' @ ys" "list_all plain ys"
    using requested_fold[OF slash nil] by (auto simp: path_shape_def)
  have "only_ascends ?cs \<longleftrightarrow> ys = []"
    using shape_ascends[OF shape(2), of k] by (simp add: only_ascends_def flip: same shape(1))
  moreover have final: "?parts = [] \<or> last ?parts = ''..'' \<longleftrightarrow> ys = []"
  proof
    assume "?parts = [] \<or> last ?parts = ''..''"
    then show "ys = []"
      using shape by (metis append_is_Nil_conv last_appendR last_in_set list_all_iff plain_def)
  qed (use shape in \<open>cases k; simp add: last_replicate\<close>)
  ultimately show "(\<exists>w. normalize_requested_path s = Inr w) \<longleftrightarrow>
      \<not> starts_with ''/'' (slashes s) \<and> \<not> second_colon (slashes s) \<and> \<not> list_ex is_control (chars (slashes s)) \<and>
      \<not> only_ascends ?cs"
    by (simp add: requested_path_unfold Let_def)
  assume "normalize_requested_path s = Inr w"
  then have w: "w = join_str ''/'' ?parts" "?parts \<noteq> []" "last ?parts \<noteq> ''..''"
    by (auto simp: requested_path_unfold Let_def split: if_splits)
  have "list_all (\<lambda>x. CHR ''/'' \<notin> set x) ?parts"
    using requested_fold_set[of "[]" ?cs] slash by (auto simp: list_all_iff)
  then have "slash_split w = ?parts" using slash_split_join[OF w(2)] w(1) by simp
  then show "(\<forall>dir. walk dir (slash_split w) = walk dir ?cs) \<and>
      (\<exists>k ys. slash_split w = replicate k ''..'' @ ys \<and> ys \<noteq> [] \<and> list_all plain ys)"
    using same shape w(2,3) final by auto
qed

section \<open>URL paths\<close>

text \<open>A dot of a URL segment may be percent-encoded; every other segment, the empty one too, is a name.\<close>

fun percent_dots :: "string \<Rightarrow> string" where
  "percent_dots [] = []"
| "percent_dots (a # bs) =
     (case bs of
        b # c # rest \<Rightarrow>
          if a = CHR ''%'' \<and> b = CHR ''2'' \<and> (c = CHR ''e'' \<or> c = CHR ''E'')
          then CHR ''.'' # percent_dots rest else a # percent_dots bs
      | _ \<Rightarrow> a # percent_dots bs)"

fun url_walk :: "string list \<Rightarrow> string list \<Rightarrow> string list option" where
  "url_walk dir [] = Some dir"
| "url_walk dir (c # cs) =
     (if percent_dots c = ''.'' then url_walk dir cs
      else if percent_dots c = ''..'' then (case dir of [] \<Rightarrow> None | _ # up \<Rightarrow> url_walk up cs)
      else url_walk (c # dir) cs)"

lemma percent_dot_Cons: "percent_dots (CHR ''.'' # bs) = CHR ''.'' # percent_dots bs"
  by (simp split: list.splits)

lemma count_dots_percent:
  "count_dots s n = Some m \<longleftrightarrow> n \<le> m \<and> percent_dots s = replicate (m - n) (CHR ''.'')"
proof (induction s n rule: count_dots.induct)
  case (2 a bs n)
  have shift: "Suc n \<le> m \<and> t = replicate (m - Suc n) x \<longleftrightarrow> n \<le> m \<and> x # t = replicate (m - n) x" for t and x :: char
    by (cases "m - n") (auto simp: Suc_le_eq)
  have other: "a \<noteq> CHR ''.'' \<Longrightarrow> a # t \<noteq> replicate k (CHR ''.'')" for t k by (cases k) auto
  show ?case
  proof (cases "a = CHR ''.''")
    case True
    then show ?thesis using 2(1) shift by (simp add: percent_dot_Cons del: percent_dots.simps)
  next
    case False
    then show ?thesis using 2(2) shift other by (auto split: list.splits)
  qed
qed auto

lemma dot_segment_percent:
  "dot_segment_kind s =
     (if percent_dots s = ''.'' then Some CurrentSegment
      else if percent_dots s = ''..'' then Some ParentSegment else None)"
proof -
  have "count_dots s 0 = Some 1 \<longleftrightarrow> percent_dots s = ''.''" "count_dots s 0 = Some 2 \<longleftrightarrow> percent_dots s = ''..''"
    by (simp_all add: count_dots_percent numeral_2_eq_2)
  moreover have "percent_dots ''.'' = ''.''" "percent_dots ''..'' = ''..''" by simp_all
  ultimately show ?thesis by (auto simp: dot_segment_kind_def split: option.splits)
qed

lemma url_walk_append: "url_walk dir (xs @ ys) = Option.bind (url_walk dir xs) (\<lambda>d. url_walk d ys)"
  by (induction dir xs rule: url_walk.induct) (auto split: list.splits)

lemma relative_url_walk:
  "\<not> starts_with ''/'' path \<Longrightarrow>
     try_fold (url_path_step path) parts xs = Inr out \<longleftrightarrow> url_walk (rev parts) xs = Some (rev out)"
proof (induction xs arbitrary: parts)
  case (Cons x xs)
  then show ?case
    by (cases parts rule: rev_cases) (simp_all add: url_path_step_def dot_segment_percent Let_def)
qed auto

text \<open>The leading empty segment of an absolute path stands for the root and is never removed.\<close>

lemma absolute_url_walk:
  "starts_with ''/'' path \<Longrightarrow>
     try_fold (url_path_step path) ([] # parts) xs = Inr out \<longleftrightarrow>
     (\<exists>dir. url_walk (rev parts) xs = Some dir \<and> out = [] # rev dir)"
proof (induction xs arbitrary: parts)
  case (Cons x xs)
  then show ?case
    using Cons.IH[of "butlast parts"] Cons.IH[of "parts @ [x]"]
    by (cases parts rule: rev_cases) (simp_all add: url_path_step_def dot_segment_percent Let_def)
qed auto

definition url_segments :: "string \<Rightarrow> string list" where
  "url_segments s = (if starts_with ''/'' s then tl (slash_split s) else slash_split s)"

lemma slash_split_ends: "ends_with_char (CHR ''/'') s \<Longrightarrow> last (slash_split s) = []"
proof -
  assume "ends_with_char (CHR ''/'') s"
  then obtain t where s: "s = t @ ''/''" unfolding ends_with_char_def by (metis append_butlast_last_id)
  have "slash_split (t @ ''/'') = slash_split t @ [[]]"
  proof (induction t)
    case (Cons c t)
    moreover have "slash_split t \<noteq> []" by (induction t) (auto simp: slash_split_def split: list.splits)
    ultimately show ?case by (auto simp: slash_split_def split: list.splits)
  qed (simp add: slash_split_def)
  then show ?thesis by (simp add: s)
qed

text \<open>The closing step of \<^verbatim>\<open>normalize_url_path\<close>.\<close>

lemma url_closed:
  assumes fold: "try_fold (url_path_step path) [] (slash_split path) = Inr parts"
  shows "(let joined = join_str ''/'' parts;
              closed = (if ends_with_char (CHR ''/'') path \<and> \<not> ends_with_char (CHR ''/'') joined
                        then joined @ ''/'' else joined)
          in if closed = [] then ''/'' else closed) =
         (if parts = [] \<or> parts = [[]] then ''/'' else join_str ''/'' parts)"
proof (cases "parts = [] \<or> parts = [[]]")
  case False
  then have ne: "join_str ''/'' parts \<noteq> []" by (cases parts; cases "tl parts") auto
  have "ends_with_char (CHR ''/'') (join_str ''/'' parts)" if ends: "ends_with_char (CHR ''/'') path"
  proof -
    have "slash_split path \<noteq> []" using ends by (induction path) (auto simp: slash_split_def split: list.splits)
    then have eq: "slash_split path = butlast (slash_split path) @ [[]]"
      using slash_split_ends[OF ends] by (metis append_butlast_last_id)
    have "try_fold (url_path_step path) [] (butlast (slash_split path) @ [[]]) = Inr parts"
      using fold by (simp flip: eq)
    then obtain ps where "try_fold (url_path_step path) ps [[]] = Inr parts"
      by (auto simp: try_fold_append bind_res_Inr_iff simp del: try_fold.simps)
    then have parts: "parts = ps @ [[]]" by (simp add: url_path_step_def)
    then show ?thesis using False join_snoc_Nil[of ps] by (cases ps) (auto simp: ends_with_char_def)
  qed
  then show ?thesis using False ne by (simp add: Let_def)
qed (auto simp: Let_def)

lemma url_parts:
  "try_fold (url_path_step s) [] (slash_split s) = Inr parts \<longleftrightarrow>
     (\<exists>dir. url_walk [] (url_segments s) = Some dir \<and> parts = (if starts_with ''/'' s then [] # rev dir else rev dir))"
proof (cases "starts_with ''/'' s")
  case True
  then obtain t where "s = CHR ''/'' # t" by (cases s) auto
  then have split: "slash_split s = [] # slash_split t" by (simp add: slash_split_def)
  then have "try_fold (url_path_step s) [] (slash_split s) = try_fold (url_path_step s) [[]] (slash_split t)"
    by (simp add: url_path_step_def)
  then show ?thesis using True absolute_url_walk[OF True, of "[]"] split by (simp add: url_segments_def)
next
  case False
  then show ?thesis using relative_url_walk[OF False, of "[]"] by (auto simp: url_segments_def)
qed

definition url_segments_of :: "bool \<Rightarrow> string list \<Rightarrow> string list" where
  "url_segments_of absolute dir =
     (if dir = [] \<or> dir = [[]] then [[], []] else if absolute then [] # rev dir else rev dir)"

lemma url_exact:
  "normalize_url_path s = Inr u \<longleftrightarrow>
     \<not> list_ex url_bad (chars s) \<and>
     (\<exists>dir. url_walk [] (url_segments s) = Some dir \<and> slash_split u = url_segments_of (starts_with ''/'' s) dir)"
proof -
  let ?abs = "starts_with ''/'' s" and ?W = "\<lambda>dir. url_walk [] (url_segments s) = Some dir"
  define parts_of where "parts_of dir = (if ?abs then [] # rev dir else rev dir)" for dir :: "string list"
  define text_of where "text_of parts = (if parts = [] \<or> parts = [[]] then ''/'' else join_str ''/'' parts)" for parts
  have fold: "try_fold (url_path_step s) [] (slash_split s) = Inr parts \<longleftrightarrow> (\<exists>dir. ?W dir \<and> parts = parts_of dir)" for parts
    unfolding url_parts parts_of_def ..
  have written: "text_of (parts_of dir) = join_str ''/'' (url_segments_of ?abs dir)" for dir
    by (auto simp: url_segments_of_def parts_of_def text_of_def)
  have split: "slash_split (text_of (parts_of dir)) = url_segments_of ?abs dir" if "?W dir" for dir
  proof -
    have "\<forall>x\<in>set (parts_of dir). CHR ''/'' \<notin> set x"
      using url_fold[of s "parts_of dir"] fold[of "parts_of dir"] that slash_split_pieces by blast
    then have "list_all (\<lambda>x. CHR ''/'' \<notin> set x) (url_segments_of ?abs dir)" "url_segments_of ?abs dir \<noteq> []"
      by (auto simp: parts_of_def url_segments_of_def list_all_iff split: if_splits)
    then show ?thesis unfolding written using slash_split_join by blast
  qed
  have "normalize_url_path s = Inr u \<longleftrightarrow> \<not> list_ex url_bad (chars s) \<and>
      (\<exists>parts. try_fold (url_path_step s) [] (slash_split s) = Inr parts \<and> u = text_of parts)"
    unfolding normalize_url_path_def url_bad_def[abs_def] if_distrib[of "\<lambda>r. r = Inr u"] map_res_Inr_iff text_of_def
    using url_closed[of s] by (simp cong: conj_cong)
  also have "\<dots> \<longleftrightarrow> \<not> list_ex url_bad (chars s) \<and> (\<exists>dir. ?W dir \<and> u = text_of (parts_of dir))"
    unfolding fold by blast
  also have "\<dots> \<longleftrightarrow> \<not> list_ex url_bad (chars s) \<and> (\<exists>dir. ?W dir \<and> slash_split u = url_segments_of ?abs dir)"
    using split written join_slash_split[of u] by metis
  finally show ?thesis .
qed

end
