(* ===== verification/Description.thy ===== *)
theory Description
  imports Metadata
begin

text \<open>
  \<^verbatim>\<open>rsolve-provider/src/package_description.rs\<close>: Debian control files and the \<^verbatim>\<open>DESCRIPTION\<close> of an R package.
  The recovering parser \<^verbatim>\<open>deb822_fast\<close> and the calendar's date-times are arguments.
\<close>

section \<open>UTF-8 validation\<close>

text \<open>\<^verbatim>\<open>std::str::from_utf8\<close>: the length of the well-formed sequence at the front, and the offset of the first error.\<close>

definition continuation :: "nat \<Rightarrow> bool" where
  "continuation b \<longleftrightarrow> 0x80 \<le> b \<and> b \<le> 0xBF"

definition second_byte_ok :: "nat \<Rightarrow> nat \<Rightarrow> bool" where
  "second_byte_ok first b \<longleftrightarrow>
     (if first = 0xE0 then 0xA0 \<le> b \<and> b \<le> 0xBF
      else if first = 0xED then 0x80 \<le> b \<and> b \<le> 0x9F
      else if first = 0xF0 then 0x90 \<le> b \<and> b \<le> 0xBF
      else if first = 0xF4 then 0x80 \<le> b \<and> b \<le> 0x8F
      else continuation b)"

fun sequence_length :: "nat list \<Rightarrow> nat" where
  "sequence_length [] = 0"
| "sequence_length (b # bs) =
     (if b < 0x80 then 1
      else if 0xC2 \<le> b \<and> b \<le> 0xDF then
        (case bs of c # _ \<Rightarrow> if continuation c then 2 else 0 | _ \<Rightarrow> 0)
      else if 0xE0 \<le> b \<and> b \<le> 0xEF then
        (case bs of c # d # _ \<Rightarrow> if second_byte_ok b c \<and> continuation d then 3 else 0 | _ \<Rightarrow> 0)
      else if 0xF0 \<le> b \<and> b \<le> 0xF4 then
        (case bs of c # d # e # _ \<Rightarrow> if second_byte_ok b c \<and> continuation d \<and> continuation e then 4 else 0 | _ \<Rightarrow> 0)
      else 0)"

function utf8_error_from :: "nat \<Rightarrow> bytes \<Rightarrow> nat option" where
  "utf8_error_from offset bs =
     (if bs = [] then None
      else let n = sequence_length (map byte_val bs) in
        if n = 0 then Some offset else utf8_error_from (offset + n) (drop n bs))"
  by pat_completeness auto
termination
  by (relation "measure (\<lambda>(offset, bs). length bs)") auto

declare utf8_error_from.simps [simp del]

definition utf8_error :: "bytes \<Rightarrow> nat option" where
  "utf8_error bs = utf8_error_from 0 bs"

section \<open>Control files\<close>

datatype dcf_error =
    InvalidUtf8 nat
  | ContinuationBeforeField nat
  | MissingColon nat
  | EmptyFieldName nat
  | InvalidLineEnding nat
  | ParserRejected string

fun dcf_error_display :: "dcf_error \<Rightarrow> string" where
  "dcf_error_display (InvalidUtf8 offset) = ''invalid UTF-8 at byte offset '' @ show_nat offset"
| "dcf_error_display (ContinuationBeforeField line) =
     ''continuation line before a field at line '' @ show_nat line"
| "dcf_error_display (MissingColon line) = ''field line has no colon at line '' @ show_nat line"
| "dcf_error_display (EmptyFieldName line) = ''empty field name at line '' @ show_nat line"
| "dcf_error_display (InvalidLineEnding line) =
     ''unsupported bare carriage-return line ending at line '' @ show_nat line"
| "dcf_error_display (ParserRejected message) = ''DCF parser rejected input: '' @ message"

definition eq_ignore_ascii_case :: "string \<Rightarrow> string \<Rightarrow> bool" where
  "eq_ignore_ascii_case a b \<longleftrightarrow> map to_ascii_lowercase a = map to_ascii_lowercase b"

record dcf_field =
  df_name :: string
  df_value :: string

record dcf_record =
  dr_fields :: "dcf_field list"

definition dcf_record_field :: "dcf_record \<Rightarrow> string \<Rightarrow> dcf_field option" where
  "dcf_record_field r name = find (\<lambda>f. eq_ignore_ascii_case (df_name f) name) (dr_fields r)"

definition dcf_fields_named :: "dcf_record \<Rightarrow> string \<Rightarrow> dcf_field list" where
  "dcf_fields_named r name = filter (\<lambda>f. eq_ignore_ascii_case (df_name f) name) (dr_fields r)"

record dcf_document =
  doc_records :: "dcf_record list"

definition line_feed :: char where
  "line_feed = CHR 0x0A"

definition carriage_return :: char where
  "carriage_return = CHR 0x0D"

text \<open>\<^verbatim>\<open>str::lines\<close>: without the line feed, without one carriage return before it, and without a last empty line.\<close>

definition strip_return :: "string \<Rightarrow> string" where
  "strip_return s = (if ends_with_char carriage_return s then butlast s else s)"

definition str_lines :: "string \<Rightarrow> string list" where
  "str_lines s =
     (let pieces = split_on (\<lambda>c. c = line_feed) s in
      map strip_return (butlast pieces) @ (if last pieces = [] then [] else [last pieces]))"

text \<open>The loop of \<^verbatim>\<open>normalize_line_endings\<close>; the bytes of one character are pushed one by one.\<close>

fun normalize_bytes :: "nat \<Rightarrow> string \<Rightarrow> dcf_error + string" where
  "normalize_bytes line [] = Inr []"
| "normalize_bytes line (c # cs) =
     (if c = carriage_return then
        (case cs of
           d # ds \<Rightarrow> if d = line_feed then map_res (\<lambda>s. line_feed # s) (normalize_bytes (line + 1) ds)
                     else Inl (InvalidLineEnding line)
         | [] \<Rightarrow> Inl (InvalidLineEnding line))
      else if c = line_feed then map_res (\<lambda>s. line_feed # s) (normalize_bytes (line + 1) cs)
      else map_res (\<lambda>s. c # s) (normalize_bytes line cs))"

definition normalize_line_endings :: "string \<Rightarrow> dcf_error + string" where
  "normalize_line_endings input =
     (if carriage_return \<notin> set input \<and> (input = [] \<or> ends_with_char line_feed input) then Inr input
      else map_res (\<lambda>s. if s \<noteq> [] \<and> \<not> ends_with_char line_feed s then s @ [line_feed] else s)
             (normalize_bytes 1 input))"

fun validate_line_list :: "nat \<Rightarrow> bool \<Rightarrow> string list \<Rightarrow> dcf_error + unit" where
  "validate_line_list n has_field [] = Inr ()"
| "validate_line_list n has_field (line # ls) =
     (if line = [] then validate_line_list (n + 1) False ls
      else if hd line = CHR '' '' \<or> hd line = CHR 0x09 then
        (if \<not> has_field then Inl (ContinuationBeforeField n) else validate_line_list (n + 1) has_field ls)
      else if hd line = CHR ''#'' then validate_line_list (n + 1) has_field ls
      else case split_once '':'' line of
        None \<Rightarrow> Inl (MissingColon n)
      | Some (name, _) \<Rightarrow>
          if name = [] then Inl (EmptyFieldName n) else validate_line_list (n + 1) True ls)"

definition validate_lines :: "string \<Rightarrow> dcf_error + unit" where
  "validate_lines input = validate_line_list 1 False (split_on (\<lambda>c. c = line_feed) input)"

definition dcf_parse ::
  "(string \<Rightarrow> string + (string \<times> string) list list) \<Rightarrow> bytes \<Rightarrow> dcf_error + dcf_document" where
  "dcf_parse parse_borrowed input =
     (case utf8_error input of
        Some offset \<Rightarrow> Inl (InvalidUtf8 offset)
      | None \<Rightarrow>
          bind_res (normalize_line_endings input) (\<lambda>normalized.
          bind_res (validate_lines normalized) (\<lambda>_.
          map_res (\<lambda>paragraphs.
              \<lparr>doc_records = map (\<lambda>fields_of. \<lparr>dr_fields = map (\<lambda>(n, v). \<lparr>df_name = n, df_value = v\<rparr>) fields_of\<rparr>) paragraphs\<rparr>)
            (map_err ParserRejected (parse_borrowed normalized)))))"

section \<open>Dependency entries\<close>

datatype dependency_parse_error =
    EmptyEntry
  | InvalidDependencyName package_name_error
  | InvalidConstraintSyntax
  | MissingConstraintVersion
  | InvalidDependencyVersion r_package_version_error

fun dependency_parse_error_display :: "dependency_parse_error \<Rightarrow> string" where
  "dependency_parse_error_display EmptyEntry = ''dependency entry is empty''"
| "dependency_parse_error_display (InvalidDependencyName e) = package_name_error_display e"
| "dependency_parse_error_display InvalidConstraintSyntax = ''invalid version constraint syntax''"
| "dependency_parse_error_display MissingConstraintVersion = ''version constraint has no version''"
| "dependency_parse_error_display (InvalidDependencyVersion e) = r_package_version_error_display e"

record parsed_dependency =
  pd_name :: package_name
  pd_constraint :: version_constraint

definition constraint_operators :: "(string \<times> relation_op) list" where
  "constraint_operators =
     [(''>='', Ge), (''<='', Le), (''=='', Eq), (''!='', Ne), (''>'', Gt), (''<'', Lt)]"

definition parse_dependency_constraint :: "string \<Rightarrow> dependency_parse_error + version_constraint" where
  "parse_dependency_constraint input =
     (case find (\<lambda>(operator, op). starts_with operator input) constraint_operators of
        None \<Rightarrow> Inl InvalidConstraintSyntax
      | Some (operator, op) \<Rightarrow>
          let version_text = trim (drop (length operator) input) in
          if version_text = [] then Inl MissingConstraintVersion
          else map_res (from_clause op) (map_err InvalidDependencyVersion (parse_version version_text)))"

definition parse_dependency_entry :: "string \<Rightarrow> dependency_parse_error + parsed_dependency" where
  "parse_dependency_entry entry =
     (let input = trim entry in
      if input = [] then Inl EmptyEntry
      else bind_res
        (case split_once ''('' input of
           Some (before, after) \<Rightarrow>
             if \<not> ends_with_char (CHR '')'') input then Inl InvalidConstraintSyntax
             else let expression = butlast after in
               if CHR ''('' \<in> set expression \<or> CHR '')'' \<in> set expression then Inl InvalidConstraintSyntax
               else map_res (\<lambda>c. (trim before, Some c)) (parse_dependency_constraint expression)
         | None \<Rightarrow> if CHR '')'' \<in> set input then Inl InvalidConstraintSyntax else Inr (input, None))
        (\<lambda>(name_text, constraint).
           map_res (\<lambda>name. \<lparr>pd_name = name,
               pd_constraint = (case constraint of Some c \<Rightarrow> c | None \<Rightarrow> unconstrained)\<rparr>)
             (map_err InvalidDependencyName (package_name_new name_text))))"

section \<open>Descriptions\<close>

record parsed_description =
  desc_package :: package_name
  desc_version :: r_package_version
  desc_metadata :: release_metadata
  desc_publication :: "release_publication option"
  desc_dependencies :: "declared_dependency list"

datatype description_error =
    MissingDescriptionField string
  | DuplicateField string
  | InvalidPackageName package_name_error
  | InvalidVersion r_package_version_error
  | InvalidReleaseMetadata release_metadata_error
  | InvalidPublicationDate string string
  | InvalidDeclaredDependency string
  | DependencyError string string dependency_parse_error

fun description_error_display :: "description_error \<Rightarrow> string" where
  "description_error_display (MissingDescriptionField name) = ''missing required field '' @ name"
| "description_error_display (DuplicateField name) = ''duplicate field '' @ name"
| "description_error_display (InvalidPackageName reason) =
     ''invalid package name: '' @ package_name_error_display reason"
| "description_error_display (InvalidVersion reason) =
     ''invalid version: '' @ r_package_version_error_display reason"
| "description_error_display (InvalidReleaseMetadata reason) =
     ''invalid metadata: '' @ release_metadata_error_display reason"
| "description_error_display (InvalidPublicationDate v diagnostic) =
     ''invalid Published value '' @ debug_str v @ '': '' @ diagnostic"
| "description_error_display (InvalidDeclaredDependency reason) = ''invalid dependency: '' @ reason"
| "description_error_display (DependencyError name entry source) =
     ''invalid '' @ name @ '' entry '' @ debug_str entry @ '': '' @ dependency_parse_error_display source"

definition description_field :: "(string \<times> string) list \<Rightarrow> string \<Rightarrow> string option" where
  "description_field entries name =
     map_option snd (find (\<lambda>(n, _). eq_ignore_ascii_case n name) entries)"

definition required_field :: "(string \<times> string) list \<Rightarrow> string \<Rightarrow> description_error + string" where
  "required_field entries name = ok_or (MissingDescriptionField name) (description_field entries name)"

fun reject_duplicates_from :: "string list \<Rightarrow> (string \<times> string) list \<Rightarrow> description_error + unit" where
  "reject_duplicates_from names [] = Inr ()"
| "reject_duplicates_from names ((name, _) # es) =
     (let lower = map to_ascii_lowercase name in
      if lower \<in> set names then Inl (DuplicateField name) else reject_duplicates_from (lower # names) es)"

definition reject_duplicate_fields :: "(string \<times> string) list \<Rightarrow> description_error + unit" where
  "reject_duplicate_fields entries = reject_duplicates_from [] entries"

definition is_reserved_field :: "string \<Rightarrow> bool" where
  "is_reserved_field name \<longleftrightarrow>
     map to_ascii_lowercase name \<in>
       {''package'', ''version'', ''depends'', ''imports'', ''linkingto'', ''suggests'', ''enhances'', ''md5sum'',
        ''published''}"

text \<open>Date-times of the calendar library: a date and a time of day.\<close>

type_synonym civil_datetime = "publication_date \<times> nat \<times> nat \<times> nat"

record calendar =
  cal_date_strptime :: "string \<Rightarrow> string + publication_date"
  cal_date_strftime :: "publication_date \<Rightarrow> string"
  cal_strptime :: "string \<Rightarrow> string \<Rightarrow> string + civil_datetime"
  cal_strftime :: "string \<Rightarrow> civil_datetime \<Rightarrow> string"

definition parse_publication_date :: "calendar \<Rightarrow> string \<Rightarrow> description_error + release_publication" where
  "parse_publication_date cal input =
     (let v = trim input;
          parse_date = (\<lambda>s. map_err (\<lambda>e. InvalidPublicationDate v (publication_date_error_display e))
             (publication_date_parse (cal_date_strptime cal) (cal_date_strftime cal) s)) in
      map_res (\<lambda>date. \<lparr>rp_date = date\<rparr>)
        (if length v = 10 then parse_date v
         else if length v = 19 \<or> length v = 23 then
           let has_utc_suffix = (length v = 23);
               format = (if has_utc_suffix then ''%Y-%m-%d %H:%M:%S UTC'' else ''%Y-%m-%d %H:%M:%S'') in
           if has_utc_suffix \<and> \<not> starts_with (rev '' UTC'') (rev v)
           then Inl (InvalidPublicationDate v ''Published datetime must end with uppercase UTC'')
           else bind_res (map_err (InvalidPublicationDate v) (cal_strptime cal format v)) (\<lambda>datetime.
             if cal_strftime cal format datetime \<noteq> v
             then Inl (InvalidPublicationDate v ''Published datetime is not canonical'')
             else parse_date (cal_date_strftime cal (fst datetime)))
         else Inl (InvalidPublicationDate v ''Published datetime must use an accepted full-string spelling'')))"

definition split_terminator :: "char \<Rightarrow> string \<Rightarrow> string list" where
  "split_terminator c s =
     (let pieces = split_on (\<lambda>d. d = c) s in if last pieces = [] then butlast pieces else pieces)"

definition dependency_fields :: "(string \<times> dependency_kind) list" where
  "dependency_fields =
     [(''Depends'', Depends), (''Imports'', Imports), (''LinkingTo'', LinkingTo), (''Suggests'', Suggests),
      (''Enhances'', Enhances)]"

definition parse_declared_dependency ::
  "string \<Rightarrow> dependency_kind \<Rightarrow> string \<Rightarrow> description_error + declared_dependency" where
  "parse_declared_dependency name kind entry =
     bind_res (map_err (DependencyError name (trim entry)) (parse_dependency_entry entry)) (\<lambda>d.
       map_err (\<lambda>e. InvalidDeclaredDependency (package_requirement_error_display e))
         (declared_dependency_from_parts kind (pd_name d) SourceAny (pd_constraint d)))"

definition parse_dependency_field ::
  "(string \<times> string) list \<Rightarrow> string \<times> dependency_kind \<Rightarrow> description_error + declared_dependency list" where
  "parse_dependency_field entries field =
     (case field of (name, kind) \<Rightarrow>
        case description_field entries name of
          None \<Rightarrow> Inr []
        | Some v \<Rightarrow> try_map (parse_declared_dependency name kind) (split_terminator (CHR '','') v))"

definition parse_description_fields ::
  "calendar \<Rightarrow> (string \<times> string) list \<Rightarrow> description_error + parsed_description" where
  "parse_description_fields cal entries =
     bind_res (reject_duplicate_fields entries) (\<lambda>_.
     bind_res (required_field entries ''Version'') (\<lambda>version_text.
     bind_res (map_err InvalidVersion (parse_version (trim version_text))) (\<lambda>version.
     bind_res (required_field entries ''Package'') (\<lambda>package_text.
     bind_res (map_err InvalidPackageName (package_name_new (trim package_text))) (\<lambda>package.
     bind_res (transpose (map_option (parse_publication_date cal) (description_field entries ''Published'')))
       (\<lambda>publication.
     bind_res (try_map (parse_dependency_field entries) dependency_fields) (\<lambda>dependencies.
       map_res (\<lambda>metadata. \<lparr>desc_package = package, desc_version = version, desc_metadata = metadata,
           desc_publication = publication, desc_dependencies = concat dependencies\<rparr>)
         (map_err InvalidReleaseMetadata
           (release_metadata_new (bt_collect (filter (\<lambda>(n, _). \<not> is_reserved_field n) entries)))))))))))"

end
