(* ===== verification/Repository_Index.thy ===== *)
theory Repository_Index
  imports Description
begin

text \<open>
  \<^verbatim>\<open>rsolve-repository/src/packages.rs\<close>: the plain \<^verbatim>\<open>PACKAGES\<close> index of a materialized repository, with the
  selected artifacts of \<^verbatim>\<open>materialization.rs\<close> it is written from.
\<close>

section \<open>Artifacts\<close>

datatype verification_strength = NoVerification | UpstreamMd5 | UpstreamSha256 | UpstreamMd5AndSha256

record cached_artifact =
  ca_object_path :: string
  ca_metadata_path :: string
  ca_sha256 :: sha256_digest
  ca_size :: u64
  ca_verification :: verification_strength

record materialization_artifact =
  ma_identity :: release_identity
  ma_version :: r_package_version
  ma_artifact :: cached_artifact
  ma_metadata :: release_metadata
  ma_publication :: "release_publication option"
  ma_dependencies :: "declared_dependency list"

definition artifact_new ::
  "release_identity \<Rightarrow> r_package_version \<Rightarrow> cached_artifact \<Rightarrow> materialization_artifact" where
  "artifact_new identity version artifact =
     \<lparr>ma_identity = identity, ma_version = version, ma_artifact = artifact, ma_metadata = [],
      ma_publication = None, ma_dependencies = []\<rparr>"

definition with_metadata ::
  "release_metadata \<Rightarrow> declared_dependency list \<Rightarrow> materialization_artifact \<Rightarrow> materialization_artifact" where
  "with_metadata metadata dependencies a = a\<lparr>ma_metadata := metadata, ma_dependencies := dependencies\<rparr>"

definition with_publication ::
  "release_publication \<Rightarrow> materialization_artifact \<Rightarrow> materialization_artifact" where
  "with_publication publication a = a\<lparr>ma_publication := Some publication\<rparr>"

definition ma_package :: "materialization_artifact \<Rightarrow> package_name" where
  "ma_package a = ri_name (ma_identity a)"

section \<open>Fields\<close>

datatype packages_error =
    InvalidFieldName string
  | DuplicateIndexField string
  | InvalidFieldValue string string
  | DuplicateDependency string string
  | UnsupportedConstraint string

fun packages_error_display :: "packages_error \<Rightarrow> string" where
  "packages_error_display (InvalidFieldName name) = ''invalid DCF field name: '' @ name"
| "packages_error_display (DuplicateIndexField name) = ''reserved or duplicate DCF field: '' @ name"
| "packages_error_display (InvalidFieldValue name reason) = ''invalid DCF value for '' @ name @ '': '' @ reason"
| "packages_error_display (DuplicateDependency name package) =
     ''duplicate dependency '' @ package @ '' in '' @ name"
| "packages_error_display (UnsupportedConstraint name) =
     ''dependency field '' @ name @ '' contains an unsupported constraint''"

definition known_fields :: "(string \<times> nat \<times> string) list" where
  "known_fields =
     [(''package'', 0, ''Package''), (''version'', 1, ''Version''), (''priority'', 2, ''Priority''),
      (''depends'', 3, ''Depends''), (''imports'', 4, ''Imports''), (''linkingto'', 5, ''LinkingTo''),
      (''suggests'', 6, ''Suggests''), (''enhances'', 7, ''Enhances''), (''license'', 8, ''License''),
      (''license_is_foss'', 9, ''License_is_FOSS''), (''license_restricts_use'', 10, ''License_restricts_use''),
      (''os_type'', 11, ''OS_type''), (''archs'', 12, ''Archs''), (''md5sum'', 13, ''MD5sum''),
      (''sha256'', 14, ''SHA256''), (''sha256sum'', 14, ''SHA256''),
      (''needscompilation'', 15, ''NeedsCompilation''), (''built'', 16, ''Built''), (''path'', 17, ''Path''),
      (''file'', 18, ''File''), (''published'', 19, ''Published'')]"

definition field_rank :: "string \<Rightarrow> nat" where
  "field_rank name =
     (case map_of known_fields (map to_ascii_lowercase name) of Some (rank, _) \<Rightarrow> rank | None \<Rightarrow> 20)"

definition canonical_field_name :: "string \<Rightarrow> string" where
  "canonical_field_name name =
     (case map_of known_fields (map to_ascii_lowercase name) of Some (_, canonical) \<Rightarrow> canonical | None \<Rightarrow> name)"

definition validate_field_name :: "string \<Rightarrow> packages_error + unit" where
  "validate_field_name name =
     (if name = []
         \<or> \<not> list_all (\<lambda>b. is_ascii_alphanumeric b \<or> b \<in> {CHR ''.'', CHR ''_'', CHR ''-'', CHR ''/''}) name
         \<or> \<not> is_ascii_alphabetic (hd name)
      then Inl (InvalidFieldName name) else Inr ())"

definition validate_value :: "string \<Rightarrow> string \<Rightarrow> packages_error + unit" where
  "validate_value name v =
     (if carriage_return \<in> set v then Inl (InvalidFieldValue name ''carriage return is not allowed'')
      else if list_ex (\<lambda>c. is_control c \<and> c \<noteq> 0x0A \<and> c \<noteq> 0x09) (chars v)
      then Inl (InvalidFieldValue name ''control character is not allowed'')
      else Inr ())"

fun operator_text :: "relation_op \<Rightarrow> string" where
  "operator_text Lt = ''<''"
| "operator_text Le = ''<=''"
| "operator_text Eq = ''==''"
| "operator_text Ne = ''!=''"
| "operator_text Ge = ''>=''"
| "operator_text Gt = ''>''"

definition render_clause :: "version_clause \<Rightarrow> string" where
  "render_clause c = operator_text (vc_op c) @ '' '' @ version_str (vc_version c)"

definition render_dependency :: "declared_dependency \<Rightarrow> string \<Rightarrow> packages_error + string" where
  "render_dependency d field =
     (let cs = clauses (pr_constraint (dd_package d)) in
      if pr_source (dd_package d) \<noteq> SourceAny then Inl (UnsupportedConstraint field)
      else if length cs > 1 \<or> list_ex (\<lambda>c. vc_op c = Ne) cs then Inl (UnsupportedConstraint field)
      else Inr (pr_name (dd_package d)
                @ (if cs = [] then [] else '' ('' @ join_str '', '' (map render_clause cs) @ '')'')))"

text \<open>The dependencies of one kind; \<open>seen\<close> holds the names rendered so far.\<close>

fun render_dependencies ::
  "string \<Rightarrow> package_name list \<Rightarrow> declared_dependency list \<Rightarrow> packages_error + string list" where
  "render_dependencies field seen [] = Inr []"
| "render_dependencies field seen (d # ds) =
     (let name = pr_name (dd_package d) in
      if name \<in> set seen then Inl (DuplicateDependency field name)
      else bind_res (render_dependency d field) (\<lambda>s.
             map_res (\<lambda>ss. s # ss) (render_dependencies field (name # seen) ds)))"

definition dependency_field_of ::
  "declared_dependency list \<Rightarrow> string \<times> dependency_kind \<Rightarrow> packages_error + (string \<times> string) list" where
  "dependency_field_of ds field =
     (case field of (name, kind) \<Rightarrow>
        let chosen = filter (\<lambda>d. dd_kind d = kind) ds in
        if chosen = [] then Inr []
        else map_res (\<lambda>rendered. [(name, join_str '', '' (sort_by cmp_of rendered))])
               (render_dependencies name [] chosen))"

fun metadata_fields_from ::
  "string list \<Rightarrow> (string \<times> string) list \<Rightarrow> packages_error + (string \<times> string) list" where
  "metadata_fields_from reserved [] = Inr []"
| "metadata_fields_from reserved ((name, v) # es) =
     bind_res (validate_field_name name) (\<lambda>_.
       let canonical = canonical_field_name name; lower = map to_ascii_lowercase canonical in
       if lower \<in> set reserved then Inl (DuplicateIndexField name)
       else map_res (\<lambda>fs. (canonical, v) # fs) (metadata_fields_from (lower # reserved) es))"

text \<open>The fields a record starts from, and all of its fields in the order they are written.\<close>

definition record_heads ::
  "(publication_date \<Rightarrow> string) \<Rightarrow> materialization_artifact \<Rightarrow> (string \<times> string) list list \<Rightarrow> (string \<times> string) list" where
  "record_heads strftime a dependencies =
     [(''Package'', ma_package a), (''Version'', version_str (ma_version a))]
     @ (case ma_publication a of Some p \<Rightarrow> [(''Published'', strftime (rp_date p))] | None \<Rightarrow> [])
     @ concat dependencies"

definition field_cmp :: "string \<times> string \<Rightarrow> string \<times> string \<Rightarrow> ordering" where
  "field_cmp l r = then_with (cmp_of (field_rank (fst l)) (field_rank (fst r))) (cmp_of (fst l) (fst r))"

definition record_fields ::
  "(publication_date \<Rightarrow> string) \<Rightarrow> materialization_artifact \<Rightarrow> packages_error + (string \<times> string) list" where
  "record_fields strftime a =
     bind_res (try_map (dependency_field_of (ma_dependencies a)) dependency_fields) (\<lambda>dependencies.
       let heads = record_heads strftime a dependencies;
           reserved = map (\<lambda>(n, _). map to_ascii_lowercase (canonical_field_name n)) heads in
       map_res (\<lambda>metadata. sort_by field_cmp (heads @ metadata))
         (metadata_fields_from reserved (ma_metadata a)))"

section \<open>Text\<close>

definition layout_field :: "string \<times> string \<Rightarrow> string" where
  "layout_field field =
     (case field of (name, v) \<Rightarrow>
        case split_on (\<lambda>c. c = line_feed) v of
          [] \<Rightarrow> name @ '': ''
        | first # rest \<Rightarrow> name @ '': '' @ first @ concat (map (\<lambda>l. line_feed # '' '' @ l) rest))"

definition write_record ::
  "(publication_date \<Rightarrow> string) \<Rightarrow> materialization_artifact \<Rightarrow> packages_error + string" where
  "write_record strftime a =
     bind_res (record_fields strftime a) (\<lambda>entries.
       map_res (\<lambda>ls. butlast (concat ls))
         (try_map (\<lambda>(n, v). map_res (\<lambda>_. layout_field (n, v) @ [line_feed]) (validate_value n v)) entries))"

definition artifact_cmp :: "materialization_artifact \<Rightarrow> materialization_artifact \<Rightarrow> ordering" where
  "artifact_cmp l r = then_with (cmp_of (ma_package l) (ma_package r)) (version_cmp (ma_version l) (ma_version r))"

definition write_packages ::
  "(publication_date \<Rightarrow> string) \<Rightarrow> materialization_artifact list \<Rightarrow> packages_error + string" where
  "write_packages strftime artifacts =
     map_res (\<lambda>paragraphs. join_str [line_feed, line_feed] paragraphs @ [line_feed])
       (try_map (write_record strftime) (sort_by artifact_cmp artifacts))"

interpretation field_order: total_cmp field_cmp
  unfolding field_cmp_def[abs_def] by (intro total_cmp_then total_cmp_field)

interpretation artifact_order: total_cmp artifact_cmp
  unfolding artifact_cmp_def[abs_def]
  by (intro total_cmp_then total_cmp_field total_cmp_key[OF vers.total_cmp_axioms])

end
