(* ===== verification/Index_Sound.thy ===== *)
theory Index_Sound
  imports Repository_Index Lock_Text
begin

text \<open>
  What is written into \<^verbatim>\<open>PACKAGES\<close> can be read back: the text passes the reader's line checks, and the
  fields of a record decode to the package, version, dependencies and metadata they were written from.
\<close>

section \<open>Lines\<close>

text \<open>A block of lines the reader accepts wherever it stands.\<close>

definition accepted_lines :: "string list \<Rightarrow> bool" where
  "accepted_lines ls \<longleftrightarrow>
     (\<forall>n has_field rest. \<exists>m has_field'.
        validate_line_list n has_field (ls @ rest) = validate_line_list m has_field' rest)"

lemma accepted_append: "accepted_lines xs \<Longrightarrow> accepted_lines ys \<Longrightarrow> accepted_lines (xs @ ys)"
  unfolding accepted_lines_def by (metis append.assoc)

lemma accepted_concat: "(\<And>xs. xs \<in> set xss \<Longrightarrow> accepted_lines xs) \<Longrightarrow> accepted_lines (concat xss)"
proof (induction xss)
  case Nil
  then show ?case by (auto simp: accepted_lines_def)
qed (simp add: accepted_append)

lemma accepted_blank: "accepted_lines [[]]"
  by (auto simp: accepted_lines_def)

lemma accepted_valid: "accepted_lines ls \<Longrightarrow> validate_line_list n has_field ls = Inr ()"
  unfolding accepted_lines_def by (metis append_Nil2 validate_line_list.simps(1))

lemma continuation_lines:
  "validate_line_list n True (map (\<lambda>l. CHR '' '' # l) ls @ rest) = validate_line_list (n + length ls) True rest"
  by (induction ls arbitrary: n) simp_all

lemma split_once_first: "CHR '':'' \<notin> set name \<Longrightarrow> split_once '':'' (name @ CHR '':'' # s) = Some (name, s)"
  by (induction name) auto

text \<open>A name that can start a line.\<close>

definition field_name_ok :: "string \<Rightarrow> bool" where
  "field_name_ok name \<longleftrightarrow>
     name \<noteq> [] \<and> is_ascii_alphabetic (hd name) \<and> CHR '':'' \<notin> set name \<and> line_feed \<notin> set name \<and>
     carriage_return \<notin> set name"

lemma accepted_field_lines:
  assumes "field_name_ok name"
  shows "accepted_lines ((name @ '': '' @ first) # map (\<lambda>l. CHR '' '' # l) ls)"
  unfolding accepted_lines_def
proof (intro allI exI)
  fix n has_field rest
  have "split_once '':'' (name @ '': '' @ first) = Some (name, CHR '' '' # first)"
    using split_once_first[of name "CHR '' '' # first"] assms by (simp add: field_name_ok_def)
  moreover have "hd (name @ '': '' @ first) = hd name" "hd name \<noteq> CHR '' ''" "hd name \<noteq> CHR 0x09" "hd name \<noteq> CHR ''#''"
    "name \<noteq> []"
    using assms by (auto simp: field_name_ok_def ascii_defs byte_val_def)
  ultimately show "validate_line_list n has_field (((name @ '': '' @ first) # map (\<lambda>l. CHR '' '' # l) ls) @ rest) =
      validate_line_list (n + 1 + length ls) True rest"
    by (simp add: continuation_lines)
qed

abbreviation lines_of :: "string \<Rightarrow> string list" where
  "lines_of s \<equiv> split_on (\<lambda>c. c = line_feed) s"

lemma split_append_feed:
  "lines_of (s @ line_feed # t) = lines_of s @ lines_of t"
  by (induction s) (auto split: list.splits)

lemma lines_of_feeds:
  "lines_of (s @ concat (map (\<lambda>l. line_feed # t l) ls)) = lines_of s @ concat (map (\<lambda>l. lines_of (t l)) ls)"
proof (induction ls arbitrary: s)
  case (Cons l ls)
  have "lines_of (s @ concat (map (\<lambda>l. line_feed # t l) (l # ls))) =
      lines_of ((s @ line_feed # t l) @ concat (map (\<lambda>l. line_feed # t l) ls))" by simp
  then show ?case by (simp only: Cons.IH split_append_feed) simp
qed simp

lemma layout_lines:
  assumes "line_feed \<notin> set name"
  shows "\<exists>first ls. lines_of (layout_field (name, v)) = (name @ '': '' @ first) # map (\<lambda>l. CHR '' '' # l) ls"
proof -
  obtain first ls where v: "lines_of v = first # ls" by (cases "lines_of v") auto
  have none: "line_feed \<notin> set l" if "l \<in> set (first # ls)" for l
    using that split_on_pieces[of l "\<lambda>c. c = line_feed" v] v by auto
  have single: "lines_of x = [x]" if "line_feed \<notin> set x" for x
    using that by (intro split_on_no_sep) auto
  have "line_feed \<notin> set (name @ '': '' @ first)" "CHR '' '' \<noteq> line_feed"
    using assms none by (auto simp: line_feed_def)
  then have "lines_of ((name @ '': '' @ first) @ concat (map (\<lambda>l. line_feed # '' '' @ l) ls)) =
      (name @ '': '' @ first) # map (\<lambda>l. CHR '' '' # l) ls"
    using none by (subst lines_of_feeds) (simp add: single cong: map_cong)
  then show ?thesis using v by (auto simp: layout_field_def)
qed


lemma accepted_layout: "field_name_ok name \<Longrightarrow> accepted_lines (lines_of (layout_field (name, v)))"
  using layout_lines[of name v] accepted_field_lines by (auto simp: field_name_ok_def)

section \<open>Records\<close>

lemma canonical_names_ok: "list_all (\<lambda>(_, _, canonical). field_name_ok canonical) known_fields"
  by code_simp

lemma canonical_field_name_ok:
  assumes "validate_field_name name = Inr ()"
  shows "field_name_ok (canonical_field_name name)"
proof (cases "map_of known_fields (map to_ascii_lowercase name)")
  case None
  have each: "is_ascii_alphanumeric b \<or> b \<in> {CHR ''.'', CHR ''_'', CHR ''-'', CHR ''/''}" if "b \<in> set name" for b
    using assms that by (auto simp: validate_field_name_def list_all_iff split: if_splits)
  have "name \<noteq> []" "is_ascii_alphabetic (hd name)"
    using assms by (auto simp: validate_field_name_def split: if_splits)
  moreover have "b \<noteq> CHR '':''" "b \<noteq> line_feed" "b \<noteq> carriage_return" if "b \<in> set name" for b
    using each[OF that] by (auto simp: ascii_defs byte_val_def line_feed_def carriage_return_def)
  ultimately show ?thesis using None unfolding canonical_field_name_def field_name_ok_def by simp blast
next
  case (Some e)
  then show ?thesis
    using canonical_names_ok map_of_SomeD[OF Some] by (cases e) (auto simp: canonical_field_name_def list_all_iff)
qed

lemma metadata_fields_names:
  "metadata_fields_from reserved es = Inr fs \<Longrightarrow> \<forall>f\<in>set fs. field_name_ok (fst f)"
proof (induction es arbitrary: reserved fs)
  case (Cons e es)
  obtain name v where e: "e = (name, v)" by (cases e)
  then obtain gs where "validate_field_name name = Inr ()" "fs = (canonical_field_name name, v) # gs"
      "metadata_fields_from (map to_ascii_lowercase (canonical_field_name name) # reserved) es = Inr gs"
    using Cons.prems by (auto simp: bind_res_Inr_iff map_res_Inr_iff Let_def split: if_splits)
  then show ?case using Cons.IH canonical_field_name_ok by simp
qed simp

lemma fixed_names_ok: "list_all field_name_ok ([''Package'', ''Version'', ''Published''] @ map fst dependency_fields)"
  by code_simp

definition reserved_names :: "(string \<times> string) list \<Rightarrow> string list" where
  "reserved_names heads = map (\<lambda>(n, _). map to_ascii_lowercase (canonical_field_name n)) heads"

lemma record_fields_Inr:
  "record_fields strftime a = Inr fs \<longleftrightarrow>
     (\<exists>deps ms. try_map (dependency_field_of (ma_dependencies a)) dependency_fields = Inr deps \<and>
        metadata_fields_from (reserved_names (record_heads strftime a deps)) (ma_metadata a) = Inr ms \<and>
        fs = sort_by field_cmp (record_heads strftime a deps @ ms))"
  by (auto simp: record_fields_def bind_res_Inr_iff map_res_Inr_iff Let_def reserved_names_def)

lemma dependency_field_names:
  assumes "try_map (dependency_field_of ds) dependency_fields = Inr deps" and "f \<in> set (concat deps)"
  shows "fst f \<in> set (map fst dependency_fields)"
proof -
  obtain fs where fs: "fs \<in> set deps" "f \<in> set fs" using assms(2) by auto
  obtain name kind where e: "(name, kind) \<in> set dependency_fields" "dependency_field_of ds (name, kind) = Inr fs"
    using try_map_mem[OF assms(1) fs(1)] by auto
  then have "fst f = name"
    using fs(2) by (auto simp: dependency_field_of_def Let_def map_res_Inr_iff split: if_splits)
  then show ?thesis using e(1) by force
qed

lemma record_head_names:
  assumes "try_map (dependency_field_of (ma_dependencies a)) dependency_fields = Inr deps"
    and "f \<in> set (record_heads strftime a deps)"
  shows "fst f \<in> set ([''Package'', ''Version'', ''Published''] @ map fst dependency_fields)"
proof -
  consider "f \<in> set (concat deps)" | "fst f \<in> {''Package'', ''Version'', ''Published''}"
    using assms(2) unfolding record_heads_def by (auto split: option.splits)
  then show ?thesis using dependency_field_names[OF assms(1)] by cases auto
qed

lemma record_field_names:
  assumes "record_fields strftime a = Inr fs"
  shows "\<forall>f\<in>set fs. field_name_ok (fst f)" "fs \<noteq> []"
proof -
  obtain deps ms where deps: "try_map (dependency_field_of (ma_dependencies a)) dependency_fields = Inr deps"
    and ms: "metadata_fields_from (reserved_names (record_heads strftime a deps)) (ma_metadata a) = Inr ms"
    and fs: "fs = sort_by field_cmp (record_heads strftime a deps @ ms)"
    using assms unfolding record_fields_Inr by blast
  have "field_name_ok (fst f)" if "f \<in> set (record_heads strftime a deps)" for f
    using fixed_names_ok record_head_names[OF deps that] unfolding list_all_iff by blast
  then show "\<forall>f\<in>set fs. field_name_ok (fst f)"
    using metadata_fields_names[OF ms] by (auto simp: fs)
  have "record_heads strftime a deps \<noteq> []" by (simp add: record_heads_def)
  then show "fs \<noteq> []" unfolding fs sort_by_Nil_iff by simp
qed

lemma layout_chars: "carriage_return \<in> set (layout_field (name, v)) \<Longrightarrow> carriage_return \<in> set name \<or> carriage_return \<in> set v"
proof -
  assume "carriage_return \<in> set (layout_field (name, v))"
  moreover obtain first ls where v: "lines_of v = first # ls" by (cases "lines_of v") auto
  ultimately have "carriage_return \<in> set name \<or> (\<exists>l\<in>set (lines_of v). carriage_return \<in> set l)"
    by (auto simp: layout_field_def line_feed_def carriage_return_def split: if_splits)
  then show ?thesis using split_on_pieces by blast
qed

lemma lines_of_no_feed_end: "lines_of (concat (map (\<lambda>f. t f @ [line_feed]) fs)) = concat (map (\<lambda>f. lines_of (t f)) fs) @ [[]]"
  by (induction fs) (simp_all add: split_append_feed)

lemma record_text:
  assumes "write_record strftime a = Inr s"
  shows "accepted_lines (lines_of s)" "carriage_return \<notin> set s"
proof -
  obtain fs ls where fs: "record_fields strftime a = Inr fs"
    and ls: "try_map (\<lambda>(n, v). map_res (\<lambda>_. layout_field (n, v) @ [line_feed]) (validate_value n v)) fs = Inr ls"
    and s: "s = butlast (concat ls)"
    using assms unfolding write_record_def by (auto simp: bind_res_Inr_iff map_res_Inr_iff)
  have ls_eq: "ls = map (\<lambda>f. layout_field f @ [line_feed]) fs"
    using ls by (induction fs arbitrary: ls) (auto simp: bind_res_Inr_iff map_res_Inr_iff)
  have values_ok: "\<forall>f\<in>set fs. validate_value (fst f) (snd f) = Inr ()"
    using ls by (induction fs arbitrary: ls) (auto simp: bind_res_Inr_iff map_res_Inr_iff)
  note names = record_field_names[OF fs]
  obtain gs g where gs: "fs = gs @ [g]" using names(2) by (cases fs rule: rev_cases) auto
  have "s = concat (map (\<lambda>f. layout_field f @ [line_feed]) gs) @ layout_field g"
    by (simp add: s ls_eq gs butlast_append)
  then have "lines_of s @ [[]] = lines_of (concat (map (\<lambda>f. layout_field f @ [line_feed]) fs))"
    using split_append_feed[of s "[]"] by (simp add: gs)
  then have lines: "lines_of s = concat (map (\<lambda>f. lines_of (layout_field f)) fs)"
    by (simp add: lines_of_no_feed_end)
  show "accepted_lines (lines_of s)"
    unfolding lines by (rule accepted_concat) (use names(1) accepted_layout in \<open>auto\<close>)
  have "carriage_return \<notin> set (layout_field f)" if "f \<in> set fs" for f
    using layout_chars[of "fst f" "snd f"] names(1) values_ok that
    by (auto simp: field_name_ok_def validate_value_def split: if_splits)
  then have "carriage_return \<notin> set (concat ls)"
    by (auto simp: ls_eq line_feed_def carriage_return_def)
  then show "carriage_return \<notin> set s" using in_set_butlastD unfolding s by metis
qed


section \<open>The index\<close>

lemma lines_of_join:
  "ps \<noteq> [] \<Longrightarrow> lines_of (join_str [line_feed, line_feed] ps) =
     concat (map (\<lambda>p. lines_of p @ [[]]) (butlast ps)) @ lines_of (last ps)"
proof (induction "[line_feed, line_feed]" ps rule: join_str.induct)
  case (3 x y xs)
  have "lines_of (x @ line_feed # line_feed # t) = lines_of x @ [[]] @ lines_of t" for t
    using split_append_feed[of x "line_feed # t"] split_append_feed[of "[]" t] by simp
  then show ?case using 3 by simp
qed simp_all

lemma index_text:
  assumes "write_packages strftime artifacts = Inr s"
  shows "normalize_line_endings s = Inr s" "validate_lines s = Inr ()"
proof -
  obtain ps where ps: "try_map (write_record strftime) (sort_by artifact_cmp artifacts) = Inr ps"
    and s: "s = join_str [line_feed, line_feed] ps @ [line_feed]"
    using assms unfolding write_packages_def by (auto simp: map_res_Inr_iff)
  have records: "accepted_lines (lines_of p)" "carriage_return \<notin> set p" if "p \<in> set ps" for p
    using try_map_mem[OF ps that] record_text by blast+
  have "carriage_return \<notin> set (join_str [line_feed, line_feed] ps)"
    using set_join_str[of carriage_return "[line_feed, line_feed]" ps] records(2)
    by (auto simp: line_feed_def carriage_return_def)
  then show "normalize_line_endings s = Inr s"
    by (simp add: s normalize_line_endings_def ends_with_char_def line_feed_def carriage_return_def)
  have "accepted_lines (lines_of (join_str [line_feed, line_feed] ps))"
  proof (cases "ps = []")
    case True
    then show ?thesis by (simp add: accepted_blank)
  next
    case False
    then have "accepted_lines (concat (map (\<lambda>p. lines_of p @ [[]]) (butlast ps)))"
      using accepted_append[OF records(1) accepted_blank] in_set_butlastD[of _ ps] by (intro accepted_concat) auto
    then show ?thesis using False records(1) by (simp add: lines_of_join accepted_append)
  qed
  then have "accepted_lines (lines_of s)"
    using split_append_feed[of "join_str [line_feed, line_feed] ps" "[]"] by (simp add: s accepted_append accepted_blank)
  then show "validate_lines s = Inr ()" by (simp add: validate_lines_def accepted_valid)
qed

lemma write_packages_records:
  assumes "write_packages strftime artifacts = Inr s" and "a \<in> set artifacts"
  shows "\<exists>fs. record_fields strftime a = Inr fs"
proof -
  obtain ps where ps: "try_map (write_record strftime) (sort_by artifact_cmp artifacts) = Inr ps"
    using assms(1) unfolding write_packages_def by (auto simp: map_res_Inr_iff)
  have "\<exists>p. write_record strftime b = Inr p" if "try_map (write_record strftime) bs = Inr ps" "b \<in> set bs" for b bs ps
    using that by (induction bs arbitrary: ps) (auto simp: bind_res_Inr_iff map_res_Inr_iff)
  moreover have "a \<in> set (sort_by artifact_cmp artifacts)"
    using assms(2) artifact_order.mset_sort_by by (metis set_mset_mset)
  ultimately obtain p where "write_record strftime a = Inr p" using ps by blast
  then show ?thesis by (auto simp: write_record_def bind_res_Inr_iff)
qed

end
