(* ===== verification/Index_Roundtrip.thy ===== *)
theory Index_Roundtrip
  imports Index_Sound "HOL-Library.Sublist"
begin

text \<open>The fields of an index record decode to the artifact they were written from.\<close>

section \<open>Trimming ASCII text\<close>

abbreviation space :: "char \<Rightarrow> bool" where
  "space c \<equiv> is_whitespace (byte_val c)"

lemma find_first_visible:
  "find (\<lambda>e. \<not> is_whitespace (snd e)) (zip [i..<i + length s] (map byte_val s)) =
     (if list_all space s then None
      else Some (i + length (takeWhile space s), byte_val (s ! length (takeWhile space s))))"
proof (induction s arbitrary: i)
  case (Cons c s)
  have "[i..<i + length (c # s)] = i # [Suc i..<Suc i + length s]"
    using upt_conv_Cons[of i "i + length (c # s)"] by (simp del: upt_Suc)
  then show ?case using Cons[of "Suc i"] by (simp del: upt_Suc)
qed simp

lemma trim_start_ascii:
  assumes "list_all is_ascii s"
  shows "trim_start s = dropWhile space s"
proof -
  have "char_indices s = zip [0..<0 + length s] (map byte_val s)"
    using char_indices_zip[OF assms, of 0] by (simp add: char_indices_def)
  then show ?thesis
    using find_first_visible[of 0 s]
    by (auto simp: trim_start_def dropWhile_eq_drop list_all_iff takeWhile_eq_all_conv[THEN iffD2])
qed

lemma trim_end_ascii:
  assumes "list_all is_ascii s"
  shows "trim_end s = rev (dropWhile space (rev s))"
  using assms
proof (induction s rule: rev_induct)
  case Nil
  show ?case by code_simp
next
  case (snoc c s)
  let ?find = "\<lambda>s. find (\<lambda>e. \<not> is_whitespace (snd e)) (rev (char_indices s))"
  have zips: "char_indices (s @ [c]) = zip [0..<Suc (length s)] (map byte_val (s @ [c]))"
    "char_indices s = zip [0..<length s] (map byte_val s)"
    using char_indices_zip[of "s @ [c]" 0] char_indices_zip[of s 0] snoc.prems by (simp_all add: char_indices_def)
  have idx: "char_indices (s @ [c]) = char_indices s @ [(length s, byte_val c)]" unfolding zips by simp
  have len: "utf8_len (t ! i) = 1" if "list_all is_ascii t" "i < length t" for t i
    using that utf8_ascii by (simp add: list_all_length is_ascii_def)
  show ?case
  proof (cases "space c")
    case False
    then show ?thesis using len[OF snoc.prems, of "length s"] by (simp add: trim_end_def idx)
  next
    case True
    then have "?find (s @ [c]) = ?find s" by (simp add: idx)
    moreover have "i < length s" if "?find s = Some (i, b)" for i b
    proof -
      have "(i, b) \<in> set (rev (char_indices s))" using that by (metis find_Some_iff nth_mem)
      then have "(i, b) \<in> set (char_indices s)" by simp
      then show ?thesis unfolding zips by (auto dest: set_zip_leftD)
    qed
    ultimately have "trim_end (s @ [c]) = trim_end s"
      using len[OF snoc.prems] len[of s] snoc.prems
      by (auto simp: trim_end_def nth_append split: option.splits)
    then show ?thesis using snoc True by simp
  qed
qed

lemma drop_padding: "list_all P a \<Longrightarrow> t \<noteq> [] \<Longrightarrow> \<not> P (hd t) \<Longrightarrow> dropWhile P (a @ t) = t"
proof (induction a)
  case Nil
  then show ?case by (cases t) auto
qed simp

lemma trim_padded:
  assumes "list_all is_ascii (a @ s @ b)" and "list_all space a" and "list_all space b"
    and "s \<noteq> []" and "\<not> space (hd s)" and "\<not> space (last s)"
  shows "trim (a @ s @ b) = s"
proof -
  have "dropWhile space (a @ s @ b) = s @ b"
    by (rule drop_padding) (use assms in \<open>auto simp: hd_append\<close>)
  then have start: "trim_start (a @ s @ b) = s @ b" using assms(1) by (simp add: trim_start_ascii)
  have "dropWhile space (rev b @ rev s) = rev s"
    by (rule drop_padding) (use assms in \<open>auto simp: hd_rev list_all_iff\<close>)
  then have "trim_end (s @ b) = s" using assms(1) by (simp add: trim_end_ascii)
  then show ?thesis using start by (simp add: trim_def)
qed

section \<open>Dependency entries\<close>

text \<open>Text between two visible ends, of which none can be mistaken for the syntax around it.\<close>

definition plain_text :: "string \<Rightarrow> bool" where
  "plain_text s \<longleftrightarrow>
     s \<noteq> [] \<and> (\<forall>c\<in>set s. is_ascii c \<and> \<not> space c \<and> c \<notin> {CHR '','', CHR ''('', CHR '')''})"

lemma plain_trim: "plain_text s \<Longrightarrow> list_all is_ascii (a @ b) \<Longrightarrow> list_all space a \<Longrightarrow> list_all space b \<Longrightarrow> trim (a @ s @ b) = s"
  by (rule trim_padded) (auto simp: plain_text_def list_all_iff)

lemma package_name_plain: "is_ok (package_name_new s) \<Longrightarrow> plain_text s"
  by (auto simp: is_ok_iff package_name_new_Inr_iff plain_text_def list_all_iff package_name_byte_def ascii_defs
      is_ascii_def is_whitespace_def byte_val_def)

lemma split_on_cover: "c \<in> set s \<Longrightarrow> p c \<or> (\<exists>x\<in>set (split_on p s). c \<in> set x)"
proof (induction s)
  case (Cons d s)
  then show ?case by (cases "split_on p s") auto
qed simp

lemma version_plain:
  assumes "parse_version s = Inr v"
  shows "plain_text s"
proof -
  have "s \<noteq> []" and pieces: "\<forall>c\<in>set (split_on is_version_separator s). component_text c"
    using assms by (auto simp: parse_version_def parse_with_minimum_Inr_iff)
  have "is_ascii_digit c \<or> is_version_separator c" if "c \<in> set s" for c
    using split_on_cover[OF that, of is_version_separator] pieces by (auto simp: component_text_def)
  then have "is_ascii_digit c \<or> c = CHR ''.'' \<or> c = CHR ''-''" if "c \<in> set s" for c
    using that by (auto simp: is_version_separator_def)
  then show ?thesis
    using \<open>s \<noteq> []\<close> by (fastforce simp: plain_text_def ascii_defs is_ascii_def is_whitespace_def byte_val_def)
qed

lemma plain_append: "plain_text a \<Longrightarrow> \<forall>c\<in>set b. is_ascii c \<and> \<not> space c \<and> c \<notin> {CHR '','', CHR ''('', CHR '')''} \<Longrightarrow> plain_text (a @ b)"
  by (auto simp: plain_text_def)

lemma split_once_paren:
  "CHR ''('' \<notin> set a \<Longrightarrow> split_once ''('' (a @ CHR ''('' # b) = Some (a, b)" "CHR ''('' \<notin> set a \<Longrightarrow> split_once ''('' a = None"
  by (induction a) auto

lemma space_chars: "space (CHR '' '')" "is_ascii (CHR '' '')" "\<not> space (CHR ''('')" "is_ascii (CHR ''('')"
    "\<not> space (CHR '')'')" "is_ascii (CHR '')'')"
  by code_simp+

lemma operator_chars: "list_all (\<lambda>c. is_ascii c \<and> \<not> space c \<and> c \<notin> {CHR '','', CHR ''('', CHR '')''}) (operator_text op)"
  by (cases op) (simp_all add: is_ascii_def is_whitespace_def byte_val_def)

lemma parse_rendered_constraint:
  assumes "parse_version (version_str v) = Inr v"
  shows "parse_dependency_constraint (operator_text op @ '' '' @ version_str v) = Inr (from_clause op v)"
proof -
  have "trim ('' '' @ version_str v) = version_str v"
    using plain_trim[OF version_plain[OF assms], of "'' ''" "[]"] by (simp add: space_chars)
  moreover have "version_str v \<noteq> []" using version_plain[OF assms] by (simp add: plain_text_def)
  ultimately show ?thesis
    using assms by (cases op) (simp_all add: parse_dependency_constraint_def constraint_operators_def Let_def)
qed

text \<open>Dependencies as the program builds them: names and versions were parsed.\<close>

definition dependency_ready :: "declared_dependency \<Rightarrow> bool" where
  "dependency_ready d \<longleftrightarrow>
     is_ok (package_name_new (pr_name (dd_package d))) \<and>
     (\<forall>c\<in>set (clauses (pr_constraint (dd_package d))). parse_version (version_str (vc_version c)) = Inr (vc_version c))"

lemma rendered_shape:
  assumes "render_dependency d field = Inr s" and "dependency_ready d"
  obtains (bare) "s = pr_name (dd_package d)" "pr_constraint (dd_package d) = unconstrained" "pr_source (dd_package d) = SourceAny"
  | (constrained) op v where "s = pr_name (dd_package d) @ '' ('' @ operator_text op @ '' '' @ version_str v @ '')''"
      "pr_constraint (dd_package d) = from_clause op v" "parse_version (version_str v) = Inr v" "pr_source (dd_package d) = SourceAny"
proof -
  let ?c = "pr_constraint (dd_package d)"
  have src: "pr_source (dd_package d) = SourceAny" and len: "length (clauses ?c) \<le> 1"
    using assms(1) by (auto simp: render_dependency_def Let_def split: if_splits)
  show thesis
  proof (cases "clauses ?c")
    case Nil
    then have "?c = unconstrained" by (cases ?c) (simp add: unconstrained_def constraint_new_def)
    then show thesis using bare assms(1) Nil src by (simp add: render_dependency_def)
  next
    case (Cons e es)
    then have e: "clauses ?c = [e]" using len by simp
    have "?c = from_clause (vc_op e) (vc_version e)"
      using e by (cases ?c) (simp add: from_clause_def constraint_new_def)
    moreover have "s = pr_name (dd_package d) @ '' ('' @ operator_text (vc_op e) @ '' '' @ version_str (vc_version e) @ '')''"
      using assms(1) e src by (auto simp: render_dependency_def render_clause_def Let_def split: if_splits)
    moreover have "parse_version (version_str (vc_version e)) = Inr (vc_version e)"
      using assms(2) e by (simp add: dependency_ready_def)
    ultimately show thesis using constrained src by blast
  qed
qed

lemma parse_rendered:
  assumes "render_dependency d field = Inr s" and "dependency_ready d" and "list_all is_ascii a" and "list_all space a"
  shows "parse_dependency_entry (a @ s) =
      Inr \<lparr>pd_name = pr_name (dd_package d), pd_constraint = pr_constraint (dd_package d)\<rparr>"
    "pr_source (dd_package d) = SourceAny" "CHR '','' \<notin> set s" "s \<noteq> []"
proof -
  let ?n = "pr_name (dd_package d)"
  have name: "plain_text ?n" "package_name_new ?n = Inr ?n"
    using assms(2) package_name_plain name_kept by (simp_all add: dependency_ready_def)
  have no_paren: "CHR ''('' \<notin> set ?n" "CHR '')'' \<notin> set ?n" using name(1) by (auto simp: plain_text_def)
  have all: "parse_dependency_entry (a @ s) = Inr \<lparr>pd_name = ?n, pd_constraint = pr_constraint (dd_package d)\<rparr> \<and>
      pr_source (dd_package d) = SourceAny \<and> CHR '','' \<notin> set s \<and> s \<noteq> []"
    using assms(1,2)
  proof (cases rule: rendered_shape)
    case bare
    have "trim (a @ s) = s" using plain_trim[OF name(1), of a "[]"] assms(3,4) bare(1) by simp
    then show ?thesis
      using bare name no_paren split_once_paren(2)[OF no_paren(1)]
      by (auto simp: parse_dependency_entry_def plain_text_def Let_def)
  next
    case (constrained op v)
    let ?e = "operator_text op @ '' '' @ version_str v"
    have v: "plain_text (version_str v)" using version_plain[OF constrained(3)] .
    have e: "CHR ''('' \<notin> set ?e" "CHR '')'' \<notin> set ?e" "CHR '','' \<notin> set ?e" "list_all is_ascii ?e"
      using v operator_chars[of op] space_chars(2) by (auto simp: plain_text_def list_all_iff)
    have s: "s = ?n @ '' '' @ ''('' @ ?e @ '')''" using constrained(1) by simp
    have ends: "s \<noteq> []" "hd s = hd ?n" "last s = CHR '')''" using name(1) by (auto simp: s plain_text_def)
    have "trim (a @ s @ []) = s"
    proof (rule trim_padded)
      show "list_all is_ascii (a @ s @ [])"
        using assms(3) e(4) name(1) space_chars by (auto simp: s plain_text_def list_all_iff)
      show "\<not> space (hd s)" using name(1) ends(2) by (simp add: plain_text_def)
      show "\<not> space (last s)" using ends(3) space_chars by simp
    qed (use assms(4) ends(1) in auto)
    moreover have "split_once ''('' s = Some (?n @ '' '', ?e @ '')'')"
      using split_once_paren(1)[of "?n @ '' ''" "?e @ '')''"] no_paren(1) by (simp add: s)
    moreover have "trim (?n @ '' '') = ?n" using plain_trim[OF name(1), of "[]" "'' ''"] space_chars by simp
    moreover have "ends_with_char (CHR '')'') s" using ends by (simp add: ends_with_char_def)
    ultimately have "parse_dependency_entry (a @ s) = Inr \<lparr>pd_name = ?n, pd_constraint = from_clause op v\<rparr>"
      using e(1,2) ends(1) name(2) parse_rendered_constraint[OF constrained(3), of op]
      by (simp add: parse_dependency_entry_def Let_def butlast_append flip: append_assoc)
    moreover have "CHR '','' \<notin> set s" using e(3) name(1) by (auto simp: s plain_text_def)
    ultimately show ?thesis using constrained ends(1) by simp
  qed
  show "parse_dependency_entry (a @ s) = Inr \<lparr>pd_name = ?n, pd_constraint = pr_constraint (dd_package d)\<rparr>"
    "pr_source (dd_package d) = SourceAny" "CHR '','' \<notin> set s" "s \<noteq> []"
    using all by simp_all
qed

section \<open>Dependency fields\<close>

lemma split_comma_join:
  assumes "CHR '','' \<notin> set p" and "\<forall>x\<in>set (x # xs). CHR '','' \<notin> set x"
  shows "split_on (\<lambda>d. d = CHR '','') (p @ join_str '', '' (x # xs)) = (p @ x) # map (\<lambda>s. CHR '' '' # s) xs"
  using assms
proof (induction xs arbitrary: p x)
  case Nil
  then have "split_on (\<lambda>d. d = CHR '','') (p @ x) = [p @ x]" by (intro split_on_no_sep) auto
  then show ?case by simp
next
  case (Cons y ys)
  have "split_on (\<lambda>d. d = CHR '','') (p @ join_str '', '' (x # y # ys)) =
      split_on (\<lambda>d. d = CHR '','') ((p @ x) @ CHR '','' # ('' '' @ join_str '', '' (y # ys)))" by simp
  also have "\<dots> = (p @ x) # split_on (\<lambda>d. d = CHR '','') ('' '' @ join_str '', '' (y # ys))"
    using Cons.prems by (intro split_on_append_sep) auto
  also have "split_on (\<lambda>d. d = CHR '','') ('' '' @ join_str '', '' (y # ys)) = ('' '' @ y) # map (\<lambda>s. CHR '' '' # s) ys"
    using Cons.prems by (intro Cons.IH) auto
  finally show ?case by simp
qed

lemma split_terminator_join:
  assumes "xs \<noteq> []" and "\<forall>x\<in>set xs. CHR '','' \<notin> set x \<and> x \<noteq> []"
  shows "split_terminator (CHR '','') (join_str '', '' xs) = hd xs # map (\<lambda>s. CHR '' '' # s) (tl xs)"
proof -
  obtain y ys where xs: "xs = y # ys" using assms(1) by (cases xs) auto
  have "last (y # map (\<lambda>s. CHR '' '' # s) ys) \<noteq> []" using assms(2) xs by (auto simp: last_map)
  then show ?thesis
    using split_comma_join[of "[]" y ys] assms(2) xs by (simp add: split_terminator_def Let_def)
qed

lemma rendered_each:
  "render_dependencies field seen ds = Inr ss \<Longrightarrow> list_all2 (\<lambda>d s. render_dependency d field = Inr s) ds ss"
proof (induction ds arbitrary: seen ss)
  case (Cons d ds)
  then show ?case by (auto simp: Let_def bind_res_Inr_iff map_res_Inr_iff split: if_splits)
qed simp

lemma parse_declared_rendered:
  assumes "render_dependency d field = Inr s" and "dependency_ready d" and "dd_kind d = kind" and "a = [] \<or> a = '' ''"
  shows "parse_declared_dependency name kind (a @ s) = Inr d"
proof -
  have a: "list_all is_ascii a" "list_all space a" using assms(4) space_chars by auto
  show ?thesis
    using parse_rendered(1,2)[OF assms(1,2) a] assms(3)
    by (cases d; cases "dd_package d")
      (simp add: parse_declared_dependency_def declared_dependency_from_parts_def package_requirement_new_def Let_def)
qed

lemma dependency_field_parsed:
  assumes "dependency_field_of ds (name, kind) = Inr fs" and "\<forall>d\<in>set ds. dependency_ready d"
  shows "(filter (\<lambda>d. dd_kind d = kind) ds = [] \<and> fs = []) \<or>
    (\<exists>v out. fs = [(name, v)] \<and>
       try_map (parse_declared_dependency name kind) (split_terminator (CHR '','') v) = Inr out \<and>
       mset out = mset (filter (\<lambda>d. dd_kind d = kind) ds))"
proof (cases "filter (\<lambda>d. dd_kind d = kind) ds = []")
  case True
  then show ?thesis using assms(1) by (simp add: dependency_field_of_def)
next
  case False
  define chosen where "chosen = filter (\<lambda>d. dd_kind d = kind) ds"
  have ready: "dependency_ready d" "dd_kind d = kind" if "d \<in> set chosen" for d
    using that assms(2) by (simp_all add: chosen_def)
  obtain ss where ss: "render_dependencies name [] chosen = Inr ss"
    and fs: "fs = [(name, join_str '', '' (sort_by cmp_of ss))]"
    using assms(1) False by (auto simp: dependency_field_of_def Let_def map_res_Inr_iff chosen_def)
  have each: "list_all2 (\<lambda>d s. render_dependency d name = Inr s) chosen ss" by (rule rendered_each[OF ss])
  define g where "g = parse_declared_dependency name kind"
  define h where "h s = projr (g s)" for s
  have rendered: "\<exists>d\<in>set chosen. render_dependency d name = Inr s" if "s \<in> set ss" for s
    using each that by (fastforce simp: list_all2_conv_all_nth in_set_conv_nth)
  have good: "g s = Inr (h s) \<and> g (CHR '' '' # s) = Inr (h s) \<and> CHR '','' \<notin> set s \<and> s \<noteq> []" if mem: "s \<in> set ss" for s
  proof -
    obtain d where d: "d \<in> set chosen" "render_dependency d name = Inr s" using rendered[OF mem] by blast
    show ?thesis
      using parse_declared_rendered[OF d(2) ready[OF d(1)], of "[]"] parse_declared_rendered[OF d(2) ready[OF d(1)], of "'' ''"]
        parse_rendered(3,4)[OF d(2) ready(1)[OF d(1)], of "[]"]
      by (simp add: g_def h_def)
  qed
  let ?sorted = "sort_by cmp_of ss"
  have "ss \<noteq> []" using each False by (auto simp: chosen_def)
  then have ne: "?sorted \<noteq> []" by simp
  have "split_terminator (CHR '','') (join_str '', '' ?sorted) = hd ?sorted # map (\<lambda>s. CHR '' '' # s) (tl ?sorted)"
    by (rule split_terminator_join[OF ne]) (use good in simp)
  moreover have "try_map g (hd xs # map (\<lambda>s. CHR '' '' # s) (tl xs)) = Inr (map h xs)"
    if "xs \<noteq> []" "set xs \<subseteq> set ss" for xs
  proof -
    have "try_map g (map (\<lambda>s. CHR '' '' # s) ys) = Inr (map h ys)" if "set ys \<subseteq> set ss" for ys
      using that by (induction ys) (use good in auto)
    then show ?thesis using that good by (cases xs) auto
  qed
  ultimately have "try_map g (split_terminator (CHR '','') (join_str '', '' ?sorted)) = Inr (map h ?sorted)"
    using ne by simp
  moreover have "map h ss = chosen"
  proof (rule nth_equalityI)
    show "length (map h ss) = length chosen" using each by (simp add: list_all2_lengthD)
    fix i assume "i < length (map h ss)"
    then have "i < length chosen" "render_dependency (chosen ! i) name = Inr (ss ! i)" "i < length ss"
      using each by (auto simp: list_all2_conv_all_nth)
    then show "map h ss ! i = chosen ! i"
      using parse_declared_rendered[of "chosen ! i" name "ss ! i" kind "[]"] ready[of "chosen ! i"]
      by (simp add: h_def g_def)
  qed
  then have "mset (map h ?sorted) = mset chosen" by (metis mset_map lin.mset_sort_by)
  ultimately show ?thesis using fs unfolding g_def chosen_def by blast
qed

section \<open>Records\<close>

abbreviation lower :: "string \<Rightarrow> string" where
  "lower s \<equiv> map to_ascii_lowercase s"

lemma description_field_found:
  "distinct (map (\<lambda>f. lower (fst f)) es) \<Longrightarrow> (n, v) \<in> set es \<Longrightarrow> lower n = lower name \<Longrightarrow> description_field es name = Some v"
proof (induction es)
  case (Cons e es)
  then show ?case
    by (cases e) (auto simp: description_field_def eq_ignore_ascii_case_def image_iff split: if_splits)
qed simp

lemma description_field_absent:
  "\<forall>f\<in>set es. lower (fst f) \<noteq> lower name \<Longrightarrow> description_field es name = None"
  by (auto simp: description_field_def eq_ignore_ascii_case_def find_None_iff)

lemma reject_duplicates_ok:
  "distinct (map (\<lambda>f. lower (fst f)) es) \<Longrightarrow> set (map (\<lambda>f. lower (fst f)) es) \<inter> set names = {} \<Longrightarrow>
     reject_duplicates_from names es = Inr ()"
proof (induction es arbitrary: names)
  case (Cons e es)
  then show ?case by (cases e) (simp add: Let_def)
qed simp

lemma metadata_fields_facts:
  assumes "metadata_fields_from reserved es = Inr fs"
  shows "fs = map (\<lambda>(n, v). (canonical_field_name n, v)) es" "distinct (map (\<lambda>f. lower (fst f)) fs)"
    "set (map (\<lambda>f. lower (fst f)) fs) \<inter> set reserved = {}"
proof -
  have "fs = map (\<lambda>(n, v). (canonical_field_name n, v)) es \<and> distinct (map (\<lambda>f. lower (fst f)) fs) \<and>
      set (map (\<lambda>f. lower (fst f)) fs) \<inter> set reserved = {}"
    using assms
  proof (induction es arbitrary: reserved fs)
    case (Cons e es)
    obtain name v where e: "e = (name, v)" by (cases e)
    then obtain gs where gs: "fs = (canonical_field_name name, v) # gs" "lower (canonical_field_name name) \<notin> set reserved"
        "metadata_fields_from (lower (canonical_field_name name) # reserved) es = Inr gs"
      using Cons.prems by (auto simp: bind_res_Inr_iff map_res_Inr_iff Let_def split: if_splits)
    note ih = Cons.IH[OF gs(3)]
    have "fs = map (\<lambda>(n, v). (canonical_field_name n, v)) (e # es)" using ih gs(1) e by simp
    moreover have "distinct (map (\<lambda>f. lower (fst f)) fs)" using ih[THEN conjunct2] gs(1) by simp
    moreover have "set (map (\<lambda>f. lower (fst f)) fs) \<inter> set reserved = {}" using ih[THEN conjunct2] gs(1,2) by simp
    ultimately show ?case by blast
  qed simp
  then show "fs = map (\<lambda>(n, v). (canonical_field_name n, v)) es" "distinct (map (\<lambda>f. lower (fst f)) fs)"
    "set (map (\<lambda>f. lower (fst f)) fs) \<inter> set reserved = {}" by blast+
qed

lemma known_fields_lower:
  "list_all (\<lambda>(key, _, canonical). lower canonical = key \<or> (key = ''sha256sum'' \<and> lower canonical = ''sha256'')) known_fields"
  by code_simp

lemma lower_canonical:
  "lower (canonical_field_name n) = (if lower n = ''sha256sum'' then ''sha256'' else lower n)"
proof (cases "map_of known_fields (lower n)")
  case None
  then have "lower n \<noteq> ''sha256sum''" by (auto simp: known_fields_def split: if_splits)
  then show ?thesis using None by (simp add: canonical_field_name_def)
next
  case (Some e)
  obtain r c where e: "e = (r, c)" by (cases e)
  have "(lower n, r, c) \<in> set known_fields" using map_of_SomeD[OF Some] e by simp
  then have c: "lower c = lower n \<or> (lower n = ''sha256sum'' \<and> lower c = ''sha256'')"
    using known_fields_lower by (auto simp: list_all_iff)
  have canonical: "canonical_field_name n = c" using Some e by (simp add: canonical_field_name_def)
  show ?thesis
  proof (cases "lower n = ''sha256sum''")
    case True
    have sha: "map_of known_fields ''sha256sum'' = Some (14, ''SHA256'')" "lower ''SHA256'' = ''sha256''" by code_simp+
    have "c = ''SHA256''" using Some sha(1) True e by simp
    then show ?thesis using True canonical sha(2) by metis
  qed (use c canonical in simp)
qed

lemma dependency_names:
  "try_map (dependency_field_of ds) es = Inr deps \<Longrightarrow>
     map fst (concat deps) = map fst (filter (\<lambda>(n, k). filter (\<lambda>d. dd_kind d = k) ds \<noteq> []) es)"
proof (induction es arbitrary: deps)
  case (Cons e es)
  obtain n k where e: "e = (n, k)" by (cases e)
  obtain f fs where deps: "deps = f # fs" "dependency_field_of ds (n, k) = Inr f" "try_map (dependency_field_of ds) es = Inr fs"
    using Cons.prems e by (auto simp: bind_res_Inr_iff map_res_Inr_iff split: sum.splits)
  have "map fst f = (if filter (\<lambda>d. dd_kind d = k) ds = [] then [] else [n])"
    using deps(2) by (auto simp: dependency_field_of_def Let_def map_res_Inr_iff split: if_splits)
  then show ?case using Cons.IH[OF deps(3)] deps(1) e by simp
qed simp

lemma bt_collect_perm:
  assumes "distinct (map fst xs)" and "distinct (map fst ys)" and "set xs = set ys"
  shows "bt_collect xs = bt_collect ys"
proof (rule sorted_keys_unique[of fst])
  have entries: "set (bt_collect zs) = set zs" if "distinct (map fst zs)" for zs :: "('a \<times> 'b) list"
  proof -
    have "distinct (map fst (bt_collect zs))" using sorted_bt_collect strict_sorted_iff by blast
    then have "e \<in> set (bt_collect zs) \<longleftrightarrow> map_of (rev zs) (fst e) = Some (snd e)" for e
      by (metis map_of_bt_collect map_of_eq_Some_iff prod.collapse)
    moreover have "distinct (map fst (rev zs))" using that by (simp add: rev_map[symmetric])
    then have "map_of (rev zs) (fst e) = Some (snd e) \<longleftrightarrow> e \<in> set zs" for e
      using map_of_eq_Some_iff[of "rev zs" "fst e" "snd e"] by simp
    ultimately show ?thesis by auto
  qed
  show "set (bt_collect xs) = set (bt_collect ys)" using entries assms by metis
qed (use sorted_bt_collect[of xs] sorted_bt_collect[of ys] in \<open>simp_all add: sorted_wrt_map\<close>)

text \<open>
  Artifacts as the program builds them: name, versions and dependencies were parsed, the metadata was
  accepted by \<^verbatim>\<open>ReleaseMetadata::new\<close>, and the calendar reads the ten characters it prints for a date.
\<close>

definition date_ready :: "calendar \<Rightarrow> publication_date \<Rightarrow> bool" where
  "date_ready cal d \<longleftrightarrow>
     plain_text (cal_date_strftime cal d) \<and> length (cal_date_strftime cal d) = 10 \<and>
     cal_date_strptime cal (cal_date_strftime cal d) = Inr d"

definition artifact_ready :: "calendar \<Rightarrow> materialization_artifact \<Rightarrow> bool" where
  "artifact_ready cal a \<longleftrightarrow>
     is_ok (package_name_new (ma_package a)) \<and> parse_version (version_str (ma_version a)) = Inr (ma_version a) \<and>
     (\<forall>d\<in>set (ma_dependencies a). dependency_ready d) \<and>
     is_ok (release_metadata_new (ma_metadata a)) \<and>
     (\<forall>p. ma_publication a = Some p \<longrightarrow> date_ready cal (rp_date p))"

lemma head_names:
  "map fst (record_heads strftime a deps) =
     [''Package'', ''Version''] @ (if ma_publication a = None then [] else [''Published'']) @ map fst (concat deps)"
  by (simp add: record_heads_def split: option.split)

lemma fixed_names_distinct:
  "distinct (map lower ([''Package'', ''Version'', ''Published''] @ map fst dependency_fields))"
  "list_all (\<lambda>n. lower (canonical_field_name n) = lower n) ([''Package'', ''Version'', ''Published''] @ map fst dependency_fields)"
  "list_all is_reserved_field ([''Package'', ''Version'', ''Published''] @ map fst dependency_fields)"
  "set (map lower ([''Package'', ''Version'', ''Published''] @ map fst dependency_fields)) \<subseteq> set reserved_fields"
  by code_simp+

lemma lower_inj:
  assumes "lower n = lower m" and "n \<in> set ([''Package'', ''Version'', ''Published''] @ map fst dependency_fields)"
    and "m \<in> set ([''Package'', ''Version'', ''Published''] @ map fst dependency_fields)"
  shows "n = m"
proof -
  have "inj_on lower (set ([''Package'', ''Version'', ''Published''] @ map fst dependency_fields))"
    using fixed_names_distinct(1) unfolding distinct_map by (rule conjunct2)
  then show ?thesis using assms by (rule inj_onD)
qed

lemma dependency_names_apart:
  "''Published'' \<notin> set ([''Package'', ''Version''] @ map fst dependency_fields)"
  "{''Package'', ''Version'', ''Published''} \<inter> set (map fst dependency_fields) = {}"
  "distinct (map fst dependency_fields)"
  by code_simp+

lemma subseq_keeps_distinct: "subseq xs ys \<Longrightarrow> distinct ys \<Longrightarrow> distinct xs \<and> set xs \<subseteq> set ys"
  by (induction rule: list_emb.induct) auto

lemma heads_distinct:
  assumes "try_map (dependency_field_of (ma_dependencies a)) dependency_fields = Inr deps"
  shows "distinct (map (\<lambda>f. lower (fst f)) (record_heads strftime a deps))"
    "reserved_names (record_heads strftime a deps) = map (\<lambda>f. lower (fst f)) (record_heads strftime a deps)"
proof -
  let ?all = "[''Package'', ''Version'', ''Published''] @ map fst dependency_fields"
  let ?present = "map fst (filter (\<lambda>(n, k). filter (\<lambda>d. dd_kind d = k) (ma_dependencies a) \<noteq> []) dependency_fields)"
  have "subseq ?present (map fst dependency_fields)" by (rule subseq_map) simp
  then have sub: "subseq (map fst (record_heads strftime a deps)) ?all"
    unfolding head_names dependency_names[OF assms] by (cases "ma_publication a") auto
  have "subseq (map lower (map fst (record_heads strftime a deps))) (map lower ?all)"
    by (rule subseq_map[OF sub])
  then have "distinct (map lower (map fst (record_heads strftime a deps)))"
    using fixed_names_distinct(1) subseq_keeps_distinct by blast
  then show "distinct (map (\<lambda>f. lower (fst f)) (record_heads strftime a deps))" by (simp add: comp_def)
  have "lower (canonical_field_name (fst f)) = lower (fst f)" if "f \<in> set (record_heads strftime a deps)" for f
    using record_head_names[OF assms that] fixed_names_distinct(2) unfolding list_all_iff by blast
  then show "reserved_names (record_heads strftime a deps) = map (\<lambda>f. lower (fst f)) (record_heads strftime a deps)"
    by (auto simp: reserved_names_def)
qed

lemma kinds_cover:
  "mset (filter (\<lambda>d. dd_kind d = Depends) ds @ filter (\<lambda>d. dd_kind d = Imports) ds @
     filter (\<lambda>d. dd_kind d = LinkingTo) ds @ filter (\<lambda>d. dd_kind d = Suggests) ds @
     filter (\<lambda>d. dd_kind d = Enhances) ds) = mset ds"
proof (induction ds)
  case (Cons d ds)
  then show ?case by (cases "dd_kind d") auto
qed simp

text \<open>The fields of a record, as a set without case-insensitive duplicates.\<close>

lemma record_fields_set:
  assumes "record_fields strftime a = Inr fs" and "artifact_ready cal a"
  obtains deps where "try_map (dependency_field_of (ma_dependencies a)) dependency_fields = Inr deps"
    "set fs = set (record_heads strftime a deps) \<union> (\<lambda>(n, v). (canonical_field_name n, v)) ` set (ma_metadata a)"
    "distinct (map (\<lambda>f. lower (fst f)) fs)"
    "\<forall>f\<in>set (ma_metadata a). lower (canonical_field_name (fst f)) \<notin> set reserved_fields"
proof -
  obtain deps ms where deps: "try_map (dependency_field_of (ma_dependencies a)) dependency_fields = Inr deps"
    and ms: "metadata_fields_from (reserved_names (record_heads strftime a deps)) (ma_metadata a) = Inr ms"
    and fs: "fs = sort_by field_cmp (record_heads strftime a deps @ ms)"
    using assms(1) unfolding record_fields_Inr by blast
  note m = metadata_fields_facts[OF ms]
  have perm: "mset fs = mset (record_heads strftime a deps @ ms)" unfolding fs by simp
  have "distinct (map (\<lambda>f. lower (fst f)) (record_heads strftime a deps @ ms))"
    using m(2,3) heads_distinct[OF deps, of strftime] by auto
  then have "distinct (map (\<lambda>f. lower (fst f)) fs)" using perm by (metis mset_eq_imp_distinct_iff mset_map)
  moreover have "set fs = set (record_heads strftime a deps) \<union> (\<lambda>(n, v). (canonical_field_name n, v)) ` set (ma_metadata a)"
    using mset_eq_setD[OF perm] m(1) by simp
  moreover have "\<forall>f\<in>set (ma_metadata a). lower (canonical_field_name (fst f)) \<notin> set reserved_fields"
  proof
    fix f assume f: "f \<in> set (ma_metadata a)"
    have "lower (fst f) \<notin> set reserved_fields"
      using assms(2) f
      by (auto simp: artifact_ready_def is_ok_iff release_metadata_new_def find_None_iff split: option.splits)
    moreover have "''sha256'' \<notin> set reserved_fields" by code_simp
    ultimately show "lower (canonical_field_name (fst f)) \<notin> set reserved_fields" by (simp add: lower_canonical)
  qed
  ultimately show thesis using that deps by blast
qed

lemma record_lookup:
  assumes "record_fields strftime a = Inr fs" and "artifact_ready cal a"
  shows "description_field fs ''Package'' = Some (ma_package a)"
    "description_field fs ''Version'' = Some (version_str (ma_version a))"
    "description_field fs ''Published'' = map_option (\<lambda>p. strftime (rp_date p)) (ma_publication a)"
proof -
  obtain deps where deps: "try_map (dependency_field_of (ma_dependencies a)) dependency_fields = Inr deps"
    and set_fs: "set fs = set (record_heads strftime a deps) \<union> (\<lambda>(n, v). (canonical_field_name n, v)) ` set (ma_metadata a)"
    and distinct_fs: "distinct (map (\<lambda>f. lower (fst f)) fs)"
    and free: "\<forall>f\<in>set (ma_metadata a). lower (canonical_field_name (fst f)) \<notin> set reserved_fields"
    using record_fields_set[OF assms] .
  note found = description_field_found[OF distinct_fs _ refl]
  show "description_field fs ''Package'' = Some (ma_package a)"
    "description_field fs ''Version'' = Some (version_str (ma_version a))"
    by (rule found, simp add: set_fs record_heads_def)+
  show "description_field fs ''Published'' = map_option (\<lambda>p. strftime (rp_date p)) (ma_publication a)"
  proof (cases "ma_publication a")
    case (Some p)
    have "description_field fs ''Published'' = Some (strftime (rp_date p))"
      by (rule found) (simp add: set_fs record_heads_def Some)
    then show ?thesis using Some by simp
  next
    case None
    have "lower (fst f) \<noteq> lower ''Published''" if f: "f \<in> set fs" for f
    proof (cases "f \<in> set (record_heads strftime a deps)")
      case True
      then consider "f \<in> set (concat deps)" | "fst f \<in> {''Package'', ''Version''}"
        using None by (auto simp: record_heads_def)
      then have "fst f \<in> set ([''Package'', ''Version''] @ map fst dependency_fields)"
        using dependency_field_names[OF deps] by cases auto
      moreover from this have "fst f \<noteq> ''Published''" using dependency_names_apart(1) by metis
      ultimately show ?thesis using lower_inj[of "fst f" "''Published''"] by auto
    next
      case False
      then obtain e where "e \<in> set (ma_metadata a)" "fst f = canonical_field_name (fst e)" using f set_fs by auto
      moreover have "lower ''Published'' \<in> set reserved_fields" by code_simp
      ultimately show ?thesis using free by metis
    qed
    then show ?thesis using None description_field_absent by simp
  qed
qed

lemma record_dependencies:
  assumes "record_fields strftime a = Inr fs" and "artifact_ready cal a" and field: "(name, kind) \<in> set dependency_fields"
  shows "\<exists>out. parse_dependency_field fs (name, kind) = Inr out \<and>
    mset out = mset (filter (\<lambda>d. dd_kind d = kind) (ma_dependencies a))"
proof -
  let ?ds = "ma_dependencies a"
  obtain deps where deps: "try_map (dependency_field_of ?ds) dependency_fields = Inr deps"
    and set_fs: "set fs = set (record_heads strftime a deps) \<union> (\<lambda>(n, v). (canonical_field_name n, v)) ` set (ma_metadata a)"
    and distinct_fs: "distinct (map (\<lambda>f. lower (fst f)) fs)"
    and free: "\<forall>f\<in>set (ma_metadata a). lower (canonical_field_name (fst f)) \<notin> set reserved_fields"
    using record_fields_set[OF assms(1,2)] .
  obtain f where f: "f \<in> set deps" "dependency_field_of ?ds (name, kind) = Inr f"
    using deps field unfolding try_map_Inr_iff by (fastforce simp: list_all2_conv_all_nth in_set_conv_nth)
  have ready: "\<forall>d\<in>set ?ds. dependency_ready d" using assms(2) by (simp add: artifact_ready_def)
  from dependency_field_parsed[OF f(2) ready] show ?thesis
  proof (elim disjE exE conjE)
    fix v out assume fv: "f = [(name, v)]"
      and out: "try_map (parse_declared_dependency name kind) (split_terminator (CHR '','') v) = Inr out"
        "mset out = mset (filter (\<lambda>d. dd_kind d = kind) ?ds)"
    have "(name, v) \<in> set fs" using f(1) fv by (force simp: set_fs record_heads_def)
    then have "description_field fs name = Some v" using description_field_found[OF distinct_fs _ refl] by blast
    then show ?thesis using out by (simp add: parse_dependency_field_def)
  next
    assume none: "filter (\<lambda>d. dd_kind d = kind) ?ds = []"
    have "lower (fst g) \<noteq> lower name" if g: "g \<in> set fs" for g
    proof (cases "g \<in> set (record_heads strftime a deps)")
      case True
      then have "fst g \<in> set (map fst (record_heads strftime a deps))" by simp
      then have "fst g \<in> {''Package'', ''Version'', ''Published''} \<union>
          fst ` set (filter (\<lambda>(n, k). filter (\<lambda>d. dd_kind d = k) ?ds \<noteq> []) dependency_fields)"
        unfolding head_names dependency_names[OF deps] by (auto split: if_splits)
      moreover have "name \<notin> {''Package'', ''Version'', ''Published''}" using field dependency_names_apart(2) by force
      moreover have "k = kind" if "(name, k) \<in> set dependency_fields" for k
        using eq_key_imp_eq_value[OF dependency_names_apart(3) that field] .
      ultimately have "fst g \<noteq> name" using none by fastforce
      moreover have "fst g \<in> set ([''Package'', ''Version'', ''Published''] @ map fst dependency_fields)"
        by (rule record_head_names[OF deps True])
      moreover have "name \<in> set (map fst dependency_fields)" using field by force
      ultimately show ?thesis using lower_inj[of "fst g" name] unfolding set_append by blast
    next
      case False
      then obtain e where e: "e \<in> set (ma_metadata a)" "fst g = canonical_field_name (fst e)" using g set_fs by auto
      have "name \<in> set ([''Package'', ''Version'', ''Published''] @ map fst dependency_fields)" using field by force
      then have "lower name \<in> set reserved_fields" using fixed_names_distinct(4) unfolding set_map by blast
      then show ?thesis using free e by metis
    qed
    then have "description_field fs name = None" by (simp add: description_field_absent)
    then show ?thesis using none by (simp add: parse_dependency_field_def)
  qed
qed

lemma is_reserved_iff: "is_reserved_field n \<longleftrightarrow> lower n \<in> set reserved_fields \<or> lower n = ''md5sum''"
  by (auto simp: is_reserved_field_def reserved_fields_def)

text \<open>The metadata of an artifact as its record spells it; \<^verbatim>\<open>MD5sum\<close> is read as an artifact's checksum.\<close>

definition index_metadata :: "materialization_artifact \<Rightarrow> release_metadata" where
  "index_metadata a =
     bt_collect (filter (\<lambda>(n, _). lower n \<noteq> ''md5sum'') (map (\<lambda>(n, v). (canonical_field_name n, v)) (ma_metadata a)))"

lemma distinct_lower_fst: "distinct (map (\<lambda>f. lower (fst f)) es) \<Longrightarrow> distinct (map fst es)"
  using distinct_map[of lower "map fst es"] by (simp add: comp_def)

lemma record_metadata:
  assumes "record_fields strftime a = Inr fs" and "artifact_ready cal a"
  shows "release_metadata_new (bt_collect (filter (\<lambda>(n, _). \<not> is_reserved_field n) fs)) = Inr (index_metadata a)"
proof -
  let ?ms = "map (\<lambda>(n, v). (canonical_field_name n, v)) (ma_metadata a)"
  obtain deps ms where deps: "try_map (dependency_field_of (ma_dependencies a)) dependency_fields = Inr deps"
    and ms: "metadata_fields_from (reserved_names (record_heads strftime a deps)) (ma_metadata a) = Inr ms"
    using assms(1) unfolding record_fields_Inr by blast
  obtain deps' where deps': "try_map (dependency_field_of (ma_dependencies a)) dependency_fields = Inr deps'"
    and set_fs: "set fs = set (record_heads strftime a deps') \<union> (\<lambda>(n, v). (canonical_field_name n, v)) ` set (ma_metadata a)"
    and distinct_fs: "distinct (map (\<lambda>f. lower (fst f)) fs)"
    and free: "\<forall>f\<in>set (ma_metadata a). lower (canonical_field_name (fst f)) \<notin> set reserved_fields"
    using record_fields_set[OF assms] .
  have heads: "is_reserved_field (fst f)" if "f \<in> set (record_heads strftime a deps')" for f
    using record_head_names[OF deps' that] fixed_names_distinct(3) unfolding list_all_iff by blast
  have md: "is_reserved_field (fst f) \<longleftrightarrow> lower (fst f) = ''md5sum''" if "f \<in> set ?ms" for f
    using that free by (auto simp: is_reserved_iff)
  have "set (filter (\<lambda>(n, _). \<not> is_reserved_field n) fs) = set (filter (\<lambda>(n, _). lower n \<noteq> ''md5sum'') ?ms)"
  proof (rule set_eqI)
    fix f
    have "f \<in> set fs \<longleftrightarrow> f \<in> set (record_heads strftime a deps') \<or> f \<in> set ?ms" by (simp add: set_fs)
    then show "f \<in> set (filter (\<lambda>(n, _). \<not> is_reserved_field n) fs) \<longleftrightarrow> f \<in> set (filter (\<lambda>(n, _). lower n \<noteq> ''md5sum'') ?ms)"
      using heads[of f] md[of f] unfolding set_filter case_prod_beta mem_Collect_eq by meson
  qed
  moreover have "distinct (map fst fs)" by (rule distinct_lower_fst[OF distinct_fs])
  then have "distinct (map fst (filter (\<lambda>(n, _). \<not> is_reserved_field n) fs))" by (rule distinct_map_filter)
  moreover have "distinct (map fst ?ms)"
    using distinct_lower_fst[OF metadata_fields_facts(2)[OF ms]] metadata_fields_facts(1)[OF ms] by simp
  then have "distinct (map fst (filter (\<lambda>(n, _). lower n \<noteq> ''md5sum'') ?ms))" by (rule distinct_map_filter)
  ultimately have collected: "bt_collect (filter (\<lambda>(n, _). \<not> is_reserved_field n) fs) = index_metadata a"
    unfolding index_metadata_def by (intro bt_collect_perm)
  have "lower n \<notin> set reserved_fields" if n: "n \<in> fst ` set (bt_collect (filter (\<lambda>(n, _). \<not> is_reserved_field n) fs))" for n
    using n unfolding set_bt_collect_fst by (auto simp: is_reserved_iff)
  then have "find (\<lambda>n. lower n \<in> set reserved_fields) (map fst (bt_collect (filter (\<lambda>(n, _). \<not> is_reserved_field n) fs))) = None"
    unfolding find_None_iff set_map by blast
  then show ?thesis unfolding release_metadata_new_def using collected by simp
qed

lemma record_roundtrip:
  assumes fields: "record_fields (cal_date_strftime cal) a = Inr fs" and ready: "artifact_ready cal a"
  shows "\<exists>d. parse_description_fields cal fs = Inr d \<and> desc_package d = ma_package a \<and> desc_version d = ma_version a \<and>
    desc_publication d = ma_publication a \<and> mset (desc_dependencies d) = mset (ma_dependencies a) \<and>
    desc_metadata d = index_metadata a"
proof -
  note lookup = record_lookup[OF fields ready]
  have name: "package_name_new (ma_package a) = Inr (ma_package a)" "trim (ma_package a) = ma_package a"
    and version: "parse_version (version_str (ma_version a)) = Inr (ma_version a)" "trim (version_str (ma_version a)) = version_str (ma_version a)"
    using ready name_kept package_name_plain version_plain plain_trim[of _ "[]" "[]"]
    by (auto simp: artifact_ready_def)
  have "reject_duplicate_fields fs = Inr ()"
    using record_fields_set[OF fields ready] reject_duplicates_ok[of fs "[]"] unfolding reject_duplicate_fields_def by auto
  moreover have "transpose (map_option (parse_publication_date cal) (description_field fs ''Published'')) = Inr (ma_publication a)"
  proof (cases "ma_publication a")
    case (Some p)
    then have d: "date_ready cal (rp_date p)" using ready by (simp add: artifact_ready_def)
    then have "trim (cal_date_strftime cal (rp_date p)) = cal_date_strftime cal (rp_date p)"
      using plain_trim[of _ "[]" "[]"] by (simp add: date_ready_def)
    then have "parse_publication_date cal (cal_date_strftime cal (rp_date p)) = Inr p"
      using d by (cases p) (simp add: parse_publication_date_def Let_def date_ready_def publication_date_parse_def)
    then show ?thesis using lookup(3) Some by (simp add: transpose_def)
  qed (use lookup(3) in \<open>simp add: transpose_def\<close>)
  moreover obtain outs where "try_map (parse_dependency_field fs) dependency_fields = Inr outs"
      "mset (concat outs) = mset (ma_dependencies a)"
  proof -
    note out = record_dependencies[OF fields ready]
    obtain o1 o2 o3 o4 o5 where
      "parse_dependency_field fs (''Depends'', Depends) = Inr o1" "mset o1 = mset (filter (\<lambda>d. dd_kind d = Depends) (ma_dependencies a))"
      "parse_dependency_field fs (''Imports'', Imports) = Inr o2" "mset o2 = mset (filter (\<lambda>d. dd_kind d = Imports) (ma_dependencies a))"
      "parse_dependency_field fs (''LinkingTo'', LinkingTo) = Inr o3" "mset o3 = mset (filter (\<lambda>d. dd_kind d = LinkingTo) (ma_dependencies a))"
      "parse_dependency_field fs (''Suggests'', Suggests) = Inr o4" "mset o4 = mset (filter (\<lambda>d. dd_kind d = Suggests) (ma_dependencies a))"
      "parse_dependency_field fs (''Enhances'', Enhances) = Inr o5" "mset o5 = mset (filter (\<lambda>d. dd_kind d = Enhances) (ma_dependencies a))"
      using out[of "''Depends''" Depends] out[of "''Imports''" Imports] out[of "''LinkingTo''" LinkingTo]
        out[of "''Suggests''" Suggests] out[of "''Enhances''" Enhances] by (auto simp: dependency_fields_def)
    then show thesis
      using that[of "[o1, o2, o3, o4, o5]"] kinds_cover[of "ma_dependencies a"] by (simp add: dependency_fields_def)
  qed
  ultimately show ?thesis
    using lookup(1,2) name version record_metadata[OF fields ready]
    by (simp add: parse_description_fields_def required_field_def ok_or_def)
qed

end
