(* ===== verification/Pak.thy ===== *)
theory Pak
  imports Description
begin

text \<open>
  \<^verbatim>\<open>rsolve/src/pak.rs\<close>: the request handed to a pak process and the protocol file it answers with.  Staging
  the artifacts and running \<^verbatim>\<open>Rscript\<close> are effects; what they leave behind, or the error they end with, is
  the argument \<open>outcome\<close> of \<^verbatim>\<open>run_pak\<close>.
\<close>

section \<open>Requests\<close>

record pak_artifact =
  pa_package :: string
  pa_version :: string
  pa_path :: string
  pa_sha256 :: string

record pak_install_request =
  pq_packages :: "string list"
  pq_artifacts :: "pak_artifact list"

record pak_installed_package =
  pi_name :: string
  pi_version :: string
  pi_imports :: "string option"
  pi_linking_to :: "string option"
  pi_description :: "string option"
  pi_path :: string
  pi_remote_repository :: string
  pi_remote_ref :: string
  pi_remote_sha :: "string option"
  pi_status :: string

record pak_install_result =
  pt_calls :: "string list"
  pt_pak_calls :: u64
  pt_installed :: "pak_installed_package list"
  pt_repository_url :: string
  pt_pak_status :: string

datatype pak_process_error =
    PakRepositoryUrl
  | PakInvalidPackageName string
  | PakDuplicatePackageName string
  | PakDuplicateArtifact string
  | PakMissingArtifact string
  | PakUnexpectedArtifact string
  | PakInvalidArtifactDigest string
  | PakInvalidArtifactVersion string
  | PakIo string
  | PakSpawn string
  | PakFailed string string
  | PakProtocol string

fun pak_process_error_display :: "pak_process_error \<Rightarrow> string" where
  "pak_process_error_display PakRepositoryUrl = ''repository path cannot become a file URL''"
| "pak_process_error_display (PakInvalidPackageName name) =
     ''invalid package name for protocol: '' @ debug_str name"
| "pak_process_error_display (PakDuplicatePackageName name) = ''duplicate package: '' @ name"
| "pak_process_error_display (PakDuplicateArtifact name) = ''duplicate artifact: '' @ name"
| "pak_process_error_display (PakMissingArtifact name) = ''missing artifact for package: '' @ name"
| "pak_process_error_display (PakUnexpectedArtifact name) = ''artifact is not selected: '' @ name"
| "pak_process_error_display (PakInvalidArtifactDigest name) = ''invalid artifact digest: '' @ name"
| "pak_process_error_display (PakInvalidArtifactVersion name) = ''invalid artifact version: '' @ name"
| "pak_process_error_display (PakIo e) = ''pak protocol file failed: '' @ e"
| "pak_process_error_display (PakSpawn e) = ''could not start Rscript: '' @ e"
| "pak_process_error_display (PakFailed status stderr) =
     ''pak R process failed ('' @ status @ ''): '' @ stderr"
| "pak_process_error_display (PakProtocol e) = ''pak result DCF is invalid: '' @ e"

definition valid_sha256 :: "string \<Rightarrow> bool" where
  "valid_sha256 v \<longleftrightarrow> length v = 64 \<and> list_all is_ascii_hexdigit v"

fun request_packages :: "package_name list \<Rightarrow> string list \<Rightarrow> pak_process_error + package_name list" where
  "request_packages seen [] = Inr seen"
| "request_packages seen (p # ps) =
     bind_res (map_err (\<lambda>_. PakInvalidPackageName p) (package_name_new p)) (\<lambda>name.
       if name \<in> set seen then Inl (PakDuplicatePackageName p) else request_packages (name # seen) ps)"

fun request_artifacts ::
  "package_name list \<Rightarrow> package_name list \<Rightarrow> pak_artifact list \<Rightarrow> pak_process_error + package_name list" where
  "request_artifacts packages seen [] = Inr seen"
| "request_artifacts packages seen (a # as) =
     bind_res (map_err (\<lambda>_. PakInvalidPackageName (pa_package a)) (package_name_new (pa_package a))) (\<lambda>name.
     bind_res (map_err (\<lambda>_. PakInvalidArtifactVersion (pa_package a)) (parse_version (pa_version a))) (\<lambda>_.
       if \<not> valid_sha256 (pa_sha256 a) then Inl (PakInvalidArtifactDigest (pa_package a))
       else if name \<in> set seen then Inl (PakDuplicateArtifact (pa_package a))
       else if name \<notin> set packages then Inl (PakUnexpectedArtifact (pa_package a))
       else request_artifacts packages (name # seen) as))"

text \<open>The keys of a \<^verbatim>\<open>BTreeMap\<close> are visited in order.\<close>

definition validate_request :: "pak_install_request \<Rightarrow> pak_process_error + unit" where
  "validate_request request =
     (if pq_packages request = [] then Inl (PakInvalidPackageName ''<empty request>'')
      else
        bind_res (request_packages [] (pq_packages request)) (\<lambda>packages.
        bind_res (request_artifacts packages [] (pq_artifacts request)) (\<lambda>artifacts.
          each (\<lambda>p. if p \<in> set artifacts then Inr () else Inl (PakMissingArtifact p)) (sort packages))))"

section \<open>The protocol file\<close>

type_synonym dcf_map = "(string \<times> string) list"

record pak_dcf_state =
  dp_records :: "dcf_map list"
  dp_current :: dcf_map
  dp_field :: "string option"

definition pak_dcf_line :: "pak_dcf_state \<Rightarrow> string \<Rightarrow> pak_process_error + pak_dcf_state" where
  "pak_dcf_line st line =
     (if line = [] then
        Inr (if dp_current st \<noteq> []
             then st\<lparr>dp_records := dp_records st @ [dp_current st], dp_current := [], dp_field := None\<rparr>
             else st\<lparr>dp_field := None\<rparr>)
      else if hd line = CHR '' '' \<or> hd line = CHR 0x09 then
        (case dp_field st of
           None \<Rightarrow> Inl (PakProtocol ''DCF continuation without a field'')
         | Some name \<Rightarrow>
             Inr (case map_of (dp_current st) name of
                    None \<Rightarrow> st
                  | Some v \<Rightarrow> st\<lparr>dp_current := bt_insert (dp_current st) name
                      ((if v \<noteq> [] then v @ [line_feed] else v) @ trim_start line)\<rparr>))
      else case split_once '':'' line of
        None \<Rightarrow> Inl (PakProtocol (''invalid DCF line: '' @ line))
      | Some (name, v) \<Rightarrow>
          Inr (st\<lparr>dp_field := Some name,
                  dp_current := bt_insert (dp_current st) name
                    (case strip_prefix '' '' v of Some w \<Rightarrow> w | None \<Rightarrow> v)\<rparr>))"

definition pak_parse_dcf :: "string \<Rightarrow> pak_process_error + dcf_map list" where
  "pak_parse_dcf input =
     map_res (\<lambda>st. if dp_current st \<noteq> [] then dp_records st @ [dp_current st] else dp_records st)
       (try_fold pak_dcf_line \<lparr>dp_records = [], dp_current = [], dp_field = None\<rparr> (str_lines input))"

section \<open>Results\<close>

definition protocol_marker :: string where
  "protocol_marker = ''__rsolve_protocol__''"

definition optional_entry :: "dcf_map \<Rightarrow> string \<Rightarrow> string option" where
  "optional_entry record_map name =
     (case map_of record_map name of Some v \<Rightarrow> if v = [] then None else Some v | None \<Rightarrow> None)"

definition required_entry :: "dcf_map \<Rightarrow> string \<Rightarrow> pak_process_error + string" where
  "required_entry record_map name =
     ok_or (PakProtocol (''installed record lacks '' @ name)) (optional_entry record_map name)"

definition installed_package :: "dcf_map \<Rightarrow> pak_process_error + pak_installed_package" where
  "installed_package r =
     bind_res (required_entry r ''Package'') (\<lambda>name.
     bind_res (required_entry r ''Version'') (\<lambda>version.
     bind_res (required_entry r ''Path'') (\<lambda>path.
     bind_res (required_entry r ''RemoteRepos'') (\<lambda>repository.
     bind_res (required_entry r ''RemotePkgRef'') (\<lambda>remote_ref.
     map_res (\<lambda>status.
       \<lparr>pi_name = name, pi_version = version, pi_imports = optional_entry r ''Imports'',
        pi_linking_to = optional_entry r ''LinkingTo'', pi_description = optional_entry r ''Description'',
        pi_path = path, pi_remote_repository = repository, pi_remote_ref = remote_ref,
        pi_remote_sha = optional_entry r ''RemoteSha'', pi_status = status\<rparr>)
       (required_entry r ''Status''))))))"

text \<open>\<^verbatim>\<open>usize::from_str\<close> on a 64-bit machine: an optional plus sign and decimal digits that fit.\<close>

definition parse_usize :: "string \<Rightarrow> u64 option" where
  "parse_usize s =
     (let digits = (if s \<noteq> [] \<and> hd s = CHR ''+'' then tl s else s) in
      if digits = [] \<or> \<not> list_all is_ascii_digit digits \<or> dec_value 0 digits \<ge> 2 ^ 64 then None
      else Some (word_of_nat (dec_value 0 digits)))"

definition pak_result :: "pak_install_request \<Rightarrow> string \<Rightarrow> pak_process_error + pak_install_result" where
  "pak_result request output =
     bind_res (pak_parse_dcf output) (\<lambda>records.
     bind_res
       (ok_or (PakProtocol ''missing protocol DCF record'')
         (find (\<lambda>r. map_of r ''Package'' = Some protocol_marker) records)) (\<lambda>protocol.
     bind_res
       (try_map installed_package (filter (\<lambda>r. map_of r ''Package'' \<noteq> Some protocol_marker) records)) (\<lambda>installed.
       if length installed \<noteq> card (set (pq_packages request))
          \<or> set (map pi_name installed) \<noteq> set (pq_packages request)
       then Inl (PakProtocol ''installed package names do not match request'')
       else
     bind_res (ok_or (PakProtocol ''missing PakCalls'') (map_of protocol ''PakCalls'')) (\<lambda>calls_text.
     map_res (\<lambda>calls.
         \<lparr>pt_calls = pq_packages request, pt_pak_calls = calls, pt_installed = installed,
          pt_repository_url = (case map_of protocol ''Repository'' of Some v \<Rightarrow> v | None \<Rightarrow> []),
          pt_pak_status = (case map_of protocol ''PakStatus'' of Some v \<Rightarrow> v | None \<Rightarrow> [])\<rparr>)
       (ok_or (PakProtocol ''invalid PakCalls'') (parse_usize calls_text))))))"

definition run_pak ::
  "pak_process_error + string \<Rightarrow> pak_install_request \<Rightarrow> pak_process_error + pak_install_result" where
  "run_pak outcome request =
     bind_res (validate_request request) (\<lambda>_. bind_res outcome (pak_result request))"

section \<open>What is accepted\<close>

text \<open>The packages of a request are distinct names, and each has exactly one usable artifact.\<close>

definition request_ok :: "pak_install_request \<Rightarrow> bool" where
  "request_ok request \<longleftrightarrow>
     pq_packages request \<noteq> [] \<and> distinct (pq_packages request) \<and>
     (\<forall>p\<in>set (pq_packages request). is_ok (package_name_new p)) \<and>
     distinct (map pa_package (pq_artifacts request)) \<and>
     set (map pa_package (pq_artifacts request)) = set (pq_packages request) \<and>
     (\<forall>a\<in>set (pq_artifacts request). is_ok (parse_version (pa_version a)) \<and> valid_sha256 (pa_sha256 a))"

lemma request_packages_Inr:
  "request_packages seen ps = Inr out \<longleftrightarrow>
     out = rev ps @ seen \<and> distinct ps \<and> set ps \<inter> set seen = {} \<and> (\<forall>p\<in>set ps. is_ok (package_name_new p))"
proof (induction ps arbitrary: seen)
  case (Cons p ps)
  show ?case
  proof (cases "is_ok (package_name_new p)")
    case True
    then have "package_name_new p = Inr p" by (auto simp: is_ok_iff package_name_new_Inr_iff)
    then show ?thesis using Cons[of "p # seen"] True by auto
  next
    case False
    then show ?thesis by (cases "package_name_new p") (auto simp: is_ok_iff)
  qed
qed auto

definition artifact_usable :: "pak_artifact \<Rightarrow> bool" where
  "artifact_usable a \<longleftrightarrow>
     is_ok (package_name_new (pa_package a)) \<and> is_ok (parse_version (pa_version a)) \<and> valid_sha256 (pa_sha256 a)"

lemma request_artifacts_Inr:
  "request_artifacts packages seen as = Inr out \<longleftrightarrow>
     out = rev (map pa_package as) @ seen \<and> distinct (map pa_package as) \<and>
     set (map pa_package as) \<inter> set seen = {} \<and> set (map pa_package as) \<subseteq> set packages \<and>
     (\<forall>a\<in>set as. artifact_usable a)"
proof (induction as arbitrary: seen)
  case (Cons a as)
  show ?case
  proof (cases "artifact_usable a")
    case True
    then obtain v where "package_name_new (pa_package a) = Inr (pa_package a)" "parse_version (pa_version a) = Inr v"
      by (auto simp: artifact_usable_def is_ok_iff package_name_new_Inr_iff)
    then show ?thesis using Cons[of "pa_package a # seen"] True by (auto simp: artifact_usable_def)
  next
    case False
    then show ?thesis
      by (cases "package_name_new (pa_package a)"; cases "parse_version (pa_version a)")
        (auto simp: artifact_usable_def is_ok_iff)
  qed
qed auto

lemma validate_request_iff: "validate_request request = Inr () \<longleftrightarrow> request_ok request"
proof -
  have "each (\<lambda>p. if p \<in> set as then Inr () else Inl (PakMissingArtifact p)) (sort ps) = Inr () \<longleftrightarrow> set ps \<subseteq> set as" for ps as
    by (auto simp: each_Inr_iff split: if_splits)
  then show ?thesis
    by (auto simp: validate_request_def request_ok_def bind_res_Inr_iff request_packages_Inr request_artifacts_Inr
        artifact_usable_def)
qed

lemma required_entry_present: "required_entry r name = Inr v \<Longrightarrow> v \<noteq> []"
  by (auto simp: required_entry_def ok_or_Inr_iff optional_entry_def split: option.splits if_splits)

lemma installed_package_present:
  "installed_package r = Inr p \<Longrightarrow> pi_version p \<noteq> [] \<and> pi_path p \<noteq> [] \<and> pi_status p \<noteq> []"
  by (auto simp: installed_package_def bind_res_Inr_iff map_res_Inr_iff dest!: required_entry_present)

lemma pak_result_Inr:
  assumes "pak_result request output = Inr r" and "distinct (pq_packages request)"
  shows "pt_calls r = pq_packages request" "distinct (map pi_name (pt_installed r))"
    "set (map pi_name (pt_installed r)) = set (pq_packages request)"
    "\<forall>p\<in>set (pt_installed r). pi_version p \<noteq> [] \<and> pi_path p \<noteq> [] \<and> pi_status p \<noteq> []"
proof -
  obtain records installed where
    ins: "try_map installed_package (filter (\<lambda>r. map_of r ''Package'' \<noteq> Some protocol_marker) records) = Inr installed"
    and r: "pt_calls r = pq_packages request" "pt_installed r = installed"
    and names: "length installed = card (set (pq_packages request))" "set (map pi_name installed) = set (pq_packages request)"
    using assms(1) by (auto simp: pak_result_def bind_res_Inr_iff map_res_Inr_iff split: if_splits)
  show "pt_calls r = pq_packages request" "set (map pi_name (pt_installed r)) = set (pq_packages request)"
    using r names(2) by simp_all
  show "distinct (map pi_name (pt_installed r))"
    using names r(2) by (metis card_distinct length_map)
  show "\<forall>p\<in>set (pt_installed r). pi_version p \<noteq> [] \<and> pi_path p \<noteq> [] \<and> pi_status p \<noteq> []"
    using try_map_mem[OF ins] installed_package_present r(2) by blast
qed

end
