(* ===== verification/Materialization.thy ===== *)
theory Materialization
  imports Repository_Index
begin

text \<open>
  \<^verbatim>\<open>rsolve-repository/src/materialization.rs\<close>, \<^verbatim>\<open>transaction.rs\<close>, \<^verbatim>\<open>filesystem.rs\<close> and \<^verbatim>\<open>state.rs\<close>: the project's
  \<^verbatim>\<open>.rsolve\<close> directory and the transaction that publishes a repository in it.  The directory is a tree whose
  entries are sorted by name.  Each change to it is an operation, and an invocation is the sequence of
  operations it performs: stopping it after some of them is a crash, or an operation that failed.
  Symbolic links, permissions and locks are left out.  SHA-256, the text of state files (\<^verbatim>\<open>toml\<close>), the
  cache objects and the nonces of temporary names are arguments.
\<close>

section \<open>The directory\<close>

datatype node = RegularFile bytes | Directory "(string \<times> node) list" | SpecialFile

type_synonym dir = "(string \<times> node) list"

datatype fs_op =
    WriteEntry string node
  | RenameEntry string string
  | RemoveEntry string

fun apply_op :: "fs_op \<Rightarrow> dir \<Rightarrow> dir" where
  "apply_op (WriteEntry name n) d = bt_insert d name n"
| "apply_op (RenameEntry source target) d =
     (case map_of d source of None \<Rightarrow> d | Some n \<Rightarrow> bt_insert (bt_remove d source) target n)"
| "apply_op (RemoveEntry name) d = bt_remove d name"

definition run_ops :: "fs_op list \<Rightarrow> dir \<Rightarrow> dir" where
  "run_ops ops d = fold apply_op ops d"

fun is_regular :: "node option \<Rightarrow> bool" where
  "is_regular (Some (RegularFile _)) = True"
| "is_regular _ = False"

fun is_dir :: "node option \<Rightarrow> bool" where
  "is_dir (Some (Directory _)) = True"
| "is_dir _ = False"

fun child :: "node option \<Rightarrow> string \<Rightarrow> node option" where
  "child (Some (Directory entries)) name = map_of entries name"
| "child _ name = None"

fun directory_names :: "node option \<Rightarrow> string set" where
  "directory_names (Some (Directory entries)) = set (map fst entries)"
| "directory_names _ = {}"

fun file_bytes :: "node option \<Rightarrow> bytes" where
  "file_bytes (Some (RegularFile b)) = b"
| "file_bytes _ = []"

definition valid_filename_component :: "string \<Rightarrow> bool" where
  "valid_filename_component v \<longleftrightarrow>
     v \<noteq> [] \<and> v \<noteq> ''.'' \<and> v \<noteq> ''..'' \<and>
     list_all (\<lambda>b. is_ascii_alphanumeric b \<or> b \<in> {CHR ''.'', CHR ''-'', CHR ''_''}) v"

section \<open>State\<close>

datatype materialization_method = CloneMethod | CopyMethod

record materialization_record =
  mr_identity :: string
  mr_package :: string
  mr_version :: string
  mr_artifact_sha256 :: string
  mr_size :: u64
  mr_destination :: string
  mr_method :: materialization_method

record materialization_state =
  ms_schema_version :: u32
  ms_index_sha256 :: string
  ms_records :: "materialization_record list"

record materialization_transaction =
  mt_schema_version :: u32
  mt_index_sha256 :: string
  mt_state_temp :: string
  mt_staging_dir :: string
  mt_records :: "materialization_record list"

datatype materialization_error =
    MaterializationIo string string string
  | InvalidInput string
  | DuplicatePackage string
  | ProvenanceVersionMismatch string string string
  | DuplicateDestination string
  | ExistingConflict string
  | InvalidState string string
  | TransactionConflict string string
  | InvalidCacheObject string string
  | PackagesFailed packages_error
  | CacheFailed string string

fun materialization_error_display :: "materialization_error \<Rightarrow> string" where
  "materialization_error_display (MaterializationIo operation path source) =
     ''failed to '' @ operation @ '' '' @ path @ '': '' @ source"
| "materialization_error_display (InvalidInput reason) = ''invalid materialization input: '' @ reason"
| "materialization_error_display (DuplicatePackage package) =
     ''selected package name is duplicated: '' @ package"
| "materialization_error_display (ProvenanceVersionMismatch package chosen provenance) =
     ''selected version for '' @ package @ '' ('' @ chosen @ '') does not match its provenance version (''
     @ provenance @ '')''"
| "materialization_error_display (DuplicateDestination path) = ''repository destination is duplicated: '' @ path"
| "materialization_error_display (ExistingConflict path) =
     ''existing materialization conflicts with the selected artifact at '' @ path"
| "materialization_error_display (InvalidState path reason) =
     ''materialization state is invalid at '' @ path @ '': '' @ reason"
| "materialization_error_display (TransactionConflict path reason) =
     ''materialization transaction cannot be recovered at '' @ path @ '': '' @ reason"
| "materialization_error_display (InvalidCacheObject path reason) =
     ''cache object is invalid at '' @ path @ '': '' @ reason"
| "materialization_error_display (PackagesFailed e) = ''failed to generate PACKAGES: '' @ packages_error_display e"
| "materialization_error_display (CacheFailed path e) = ''cache error while materializing '' @ path @ '': '' @ e"

text \<open>Reading and writing of state files, as the \<^verbatim>\<open>toml\<close> crate does it, and the digest.\<close>

record materialization_env =
  me_read_state :: "string \<Rightarrow> string + materialization_state"
  me_write_state :: "materialization_state \<Rightarrow> string"
  me_read_transaction :: "string \<Rightarrow> string + materialization_transaction"
  me_write_transaction :: "materialization_transaction \<Rightarrow> string"
  me_sha :: "bytes \<Rightarrow> bytes"
  me_strftime :: "publication_date \<Rightarrow> string"
  me_object :: "string \<Rightarrow> node option"
  me_clones :: "string \<Rightarrow> bool"

definition hash_hex :: "materialization_env \<Rightarrow> bytes \<Rightarrow> string" where
  "hash_hex env b = hex_string (me_sha env b)"

definition read_text :: "string \<Rightarrow> string \<Rightarrow> node option \<Rightarrow> materialization_error + string" where
  "read_text operation name n =
     (case utf8_error (file_bytes n) of
        None \<Rightarrow> Inr (file_bytes n) | Some _ \<Rightarrow> Inl (MaterializationIo operation name ''stream did not contain valid UTF-8''))"

definition read_state :: "materialization_env \<Rightarrow> dir \<Rightarrow> string \<Rightarrow> materialization_error + materialization_state" where
  "read_state env d name =
     bind_res (read_text ''read materialization state'' name (map_of d name)) (\<lambda>s.
       map_err (InvalidState name) (me_read_state env s))"

definition read_transaction ::
  "materialization_env \<Rightarrow> dir \<Rightarrow> string \<Rightarrow> materialization_error + materialization_transaction" where
  "read_transaction env d name =
     bind_res (read_text ''read materialization transaction'' name (map_of d name)) (\<lambda>s.
       map_err (InvalidState name) (me_read_transaction env s))"

definition state_name :: string where
  "state_name = ''materialization.toml''"

definition transaction_name :: string where
  "transaction_name = ''.materialization.transaction.toml''"

definition repository_name :: string where
  "repository_name = ''repository''"

definition staging_prefix :: string where
  "staging_prefix = ''.repository.partial.''"

definition state_prefix :: string where
  "state_prefix = ''.materialization.toml.partial.''"

definition marker_prefix :: string where
  "marker_prefix = ''.materialization.transaction.toml.partial.''"

section \<open>Artifacts\<close>

definition artifact_file :: "materialization_artifact \<Rightarrow> string" where
  "artifact_file a = ma_package a @ ''_'' @ version_str (ma_version a) @ ''.tar.gz''"

definition contrib_prefix :: string where
  "contrib_prefix = ''repository/src/contrib/''"

fun artifact_identity_key :: "release_identity \<Rightarrow> string" where
  "artifact_identity_key i =
     (case ri_provenance i of
        RBasePackage v \<Rightarrow> ''r-base:'' @ ri_name i @ ''@'' @ version_str v
      | RegistryRelease ns v \<Rightarrow> ''registry:'' @ ns @ ''::'' @ ri_name i @ ''@'' @ version_str v
      | GitCommit repository commit subdirectory \<Rightarrow>
          ''git:'' @ repository @ ''@'' @ gc_hex commit @ '':''
          @ (case subdirectory of Some s \<Rightarrow> s | None \<Rightarrow> []) @ ''::'' @ ri_name i
      | BioconductorRelease ns release v \<Rightarrow>
          ''bioconductor:'' @ ns @ '':'' @ release @ ''::'' @ ri_name i @ ''@'' @ version_str v
      | ImmutableSource scheme digest \<Rightarrow> ''immutable:'' @ scheme @ '':'' @ digest @ ''::'' @ ri_name i)"

declare artifact_identity_key.simps [simp del]

definition canonical_artifacts :: "materialization_artifact list \<Rightarrow> materialization_artifact list" where
  "canonical_artifacts artifacts =
     sort_by (\<lambda>l r. then_with (cmp_of (ma_package l) (ma_package r))
        (then_with (cmp_of (artifact_file l) (artifact_file r))
           (cmp_of (artifact_identity_key (ma_identity l)) (artifact_identity_key (ma_identity r))))) artifacts"

definition checked_provenance_version :: "provenance \<Rightarrow> r_package_version option" where
  "checked_provenance_version p =
     (case p of RegistryRelease _ v \<Rightarrow> Some v | BioconductorRelease _ _ v \<Rightarrow> Some v | RBasePackage v \<Rightarrow> Some v
      | _ \<Rightarrow> None)"

definition validate_artifact :: "materialization_artifact \<Rightarrow> materialization_error + unit" where
  "validate_artifact a =
     (let package = ma_package a; version = version_str (ma_version a) in
      if \<not> valid_filename_component package \<or> \<not> valid_filename_component version
      then Inl (InvalidInput
             (''package or version is not a safe filename component: '' @ package @ ''_'' @ version))
      else case checked_provenance_version (ri_provenance (ma_identity a)) of
        Some v \<Rightarrow> if \<not> version_eq v (ma_version a)
                  then Inl (ProvenanceVersionMismatch package version (version_str v)) else Inr ()
      | None \<Rightarrow> Inr ())"

fun validate_inputs_from ::
  "string list \<Rightarrow> string list \<Rightarrow> materialization_artifact list \<Rightarrow> materialization_error + unit" where
  "validate_inputs_from packages destinations [] = Inr ()"
| "validate_inputs_from packages destinations (a # as) =
     bind_res (validate_artifact a) (\<lambda>_.
       if artifact_file a \<in> set destinations then Inl (DuplicateDestination (artifact_file a))
       else if ma_package a \<in> set packages then Inl (DuplicatePackage (ma_package a))
       else if ca_size (ma_artifact a) = 0
       then Inl (InvalidInput (''cached artifact for '' @ ma_package a @ '' is empty''))
       else validate_inputs_from (ma_package a # packages) (artifact_file a # destinations) as)"

definition validate_inputs :: "materialization_artifact list \<Rightarrow> materialization_error + unit" where
  "validate_inputs artifacts = validate_inputs_from [] [] artifacts"

definition record_for :: "materialization_artifact \<Rightarrow> materialization_method \<Rightarrow> materialization_record" where
  "record_for a method =
     \<lparr>mr_identity = artifact_identity_key (ma_identity a), mr_package = ma_package a, mr_version = version_str (ma_version a),
      mr_artifact_sha256 = ca_sha256 (ma_artifact a), mr_size = ca_size (ma_artifact a),
      mr_destination = contrib_prefix @ artifact_file a, mr_method = method\<rparr>"

section \<open>Checks\<close>

definition verify_cache_object :: "materialization_env \<Rightarrow> cached_artifact \<Rightarrow> materialization_error + unit" where
  "verify_cache_object env cached =
     (let path = ca_object_path cached; n = me_object env path; b = file_bytes n in
      if \<not> is_regular n then Inl (InvalidCacheObject path ''cache object is not a regular file'')
      else if length b \<ge> 2 ^ 64 then Inl (InvalidCacheObject path ''object size overflow'')
      else if word_of_nat (length b) \<noteq> ca_size cached \<or> hash_hex env b \<noteq> ca_sha256 cached
      then Inl (InvalidCacheObject path
             (''expected '' @ show_nat (unat (ca_size cached)) @ '' bytes with SHA-256 '' @ ca_sha256 cached
              @ '', got '' @ show_nat (length b) @ '' bytes with '' @ hash_hex env b))
      else Inr ())"

definition record_matches :: "materialization_artifact \<Rightarrow> materialization_record \<Rightarrow> bool" where
  "record_matches a r \<longleftrightarrow>
     mr_identity r = artifact_identity_key (ma_identity a) \<and> mr_package r = ma_package a
     \<and> mr_version r = version_str (ma_version a) \<and> mr_artifact_sha256 r = ca_sha256 (ma_artifact a)
     \<and> mr_size r = ca_size (ma_artifact a) \<and> mr_destination r = contrib_prefix @ artifact_file a"

definition records_match_requested ::
  "materialization_record list \<Rightarrow> materialization_artifact list \<Rightarrow> bool" where
  "records_match_requested records requested =
     (let canonical = canonical_artifacts requested in
      length records = length canonical \<and> list_all (\<lambda>(a, r). record_matches a r) (zip canonical records))"

definition state_matches ::
  "materialization_state \<Rightarrow> materialization_transaction \<Rightarrow> materialization_artifact list \<Rightarrow> bool" where
  "state_matches state tx requested \<longleftrightarrow>
     ms_schema_version state = 2 \<and> ms_index_sha256 state = mt_index_sha256 tx \<and> ms_records state = mt_records tx
     \<and> records_match_requested (ms_records state) requested"

definition validate_record ::
  "materialization_env \<Rightarrow> node option \<Rightarrow> materialization_record \<Rightarrow> materialization_error + unit" where
  "validate_record env contrib r =
     (case strip_prefix contrib_prefix (mr_destination r) of
        None \<Rightarrow> Inl (TransactionConflict ''contrib'' ''destination escapes src/contrib'')
      | Some name \<Rightarrow>
          let n = child contrib name in
          if \<not> is_regular n then Inl (TransactionConflict name ''destination is not a regular file'')
          else if word_of_nat (length (file_bytes n)) \<noteq> mr_size r \<or> hash_hex env (file_bytes n) \<noteq> mr_artifact_sha256 r
          then Inl (TransactionConflict name ''artifact digest or size differs'')
          else Inr ())"

definition expected_names :: "materialization_record list \<Rightarrow> string set" where
  "expected_names records =
     insert ''PACKAGES'' (set (List.map_filter (\<lambda>r. strip_prefix contrib_prefix (mr_destination r)) records))"

definition validate_repository_contents ::
  "materialization_env \<Rightarrow> node option \<Rightarrow> materialization_record list \<Rightarrow> string \<Rightarrow> materialization_error + unit" where
  "validate_repository_contents env repository records index_sha256 =
     (let src = child repository ''src''; contrib = child src ''contrib''; packages = child contrib ''PACKAGES'' in
      if \<not> is_dir src \<or> \<not> is_dir contrib
      then Inl (TransactionConflict ''repository'' ''repository layout is not src/contrib'')
      else if directory_names repository \<noteq> {''src''} \<or> directory_names src \<noteq> {''contrib''}
      then Inl (TransactionConflict ''repository'' ''repository contains unexpected entries'')
      else if directory_names contrib \<noteq> expected_names records
      then Inl (TransactionConflict ''contrib'' ''repository destinations do not match transaction'')
      else bind_res (each (validate_record env contrib) records) (\<lambda>_.
        if \<not> is_regular packages \<or> hash_hex env (file_bytes packages) \<noteq> index_sha256
        then Inl (TransactionConflict ''PACKAGES'' ''PACKAGES digest differs'')
        else Inr ()))"

definition validate_index_digest ::
  "materialization_env \<Rightarrow> materialization_transaction \<Rightarrow> materialization_artifact list \<Rightarrow> materialization_error + unit" where
  "validate_index_digest env tx requested =
     bind_res (map_err PackagesFailed (write_packages (me_strftime env) requested)) (\<lambda>packages.
       if hash_hex env packages \<noteq> mt_index_sha256 tx
       then Inl (TransactionConflict ''materialization transaction''
              ''PACKAGES digest does not match requested metadata and dependencies'')
       else Inr ())"

section \<open>Recovery\<close>

definition partial_paths :: "dir \<Rightarrow> string \<Rightarrow> string list" where
  "partial_paths d prefix = sort (filter (starts_with prefix) (map fst d))"

definition safe_temp_name :: "string \<Rightarrow> string \<Rightarrow> bool" where
  "safe_temp_name name prefix \<longleftrightarrow>
     name \<noteq> [] \<and> CHR ''/'' \<notin> set name \<and> CHR 0x5C \<notin> set name \<and> starts_with prefix name
     \<and> name \<noteq> ''.'' \<and> name \<noteq> ''..''"

text \<open>The state to finish with: \<open>None\<close> when it is committed already, else the temporary one.\<close>

definition recover_state ::
  "materialization_env \<Rightarrow> dir \<Rightarrow> string list \<Rightarrow> string \<Rightarrow> materialization_transaction \<Rightarrow> materialization_artifact list \<Rightarrow>
   materialization_error + materialization_state option" where
  "recover_state env d states state_temp tx requested =
     (let exists_state = (map_of d state_name \<noteq> None) in
      if exists_state \<and> states = [] then
        bind_res (read_state env d state_name) (\<lambda>state.
          if \<not> state_matches state tx requested
          then Inl (TransactionConflict state_name ''committed state differs from transaction'')
          else Inr None)
      else if length states \<noteq> 1 \<or> hd states \<noteq> state_temp \<or> \<not> is_regular (map_of d state_temp)
      then Inl (TransactionConflict transaction_name ''state temporary does not match marker'')
      else
        bind_res (map_err (\<lambda>e. TransactionConflict state_temp
              (''invalid state temporary: '' @ materialization_error_display e)) (read_state env d state_temp)) (\<lambda>state.
        if \<not> state_matches state tx requested
        then Inl (TransactionConflict state_temp ''state temporary does not match transaction'')
        else if exists_state then
          bind_res (read_state env d state_name) (\<lambda>committed.
            if committed \<noteq> state
            then Inl (TransactionConflict state_name ''committed state differs from temporary state'')
            else Inr (Some state))
        else Inr (Some state)))"

text \<open>The repository to finish with: it is published already, or its staging directory is renamed.\<close>

definition recover_repository ::
  "materialization_env \<Rightarrow> dir \<Rightarrow> materialization_transaction \<Rightarrow> materialization_error + fs_op list" where
  "recover_repository env d tx =
     (let staging = mt_staging_dir tx in
      if map_of d repository_name \<noteq> None then
        (if \<not> is_dir (map_of d repository_name)
         then Inl (TransactionConflict repository_name ''published repository is not a directory'')
         else map_res (\<lambda>_. [])
           (validate_repository_contents env (map_of d repository_name) (mt_records tx) (mt_index_sha256 tx)))
      else
        (if \<not> is_dir (map_of d staging)
         then Inl (TransactionConflict staging ''staging path is not a directory'')
         else map_res (\<lambda>_. [RenameEntry staging repository_name])
           (validate_repository_contents env (map_of d staging) (mt_records tx) (mt_index_sha256 tx))))"

text \<open>The operations \<^verbatim>\<open>recover\<close> performs when there is a transaction marker; all checks come first.\<close>

definition recover_marked ::
  "materialization_env \<Rightarrow> dir \<Rightarrow> materialization_artifact list \<Rightarrow> materialization_error + fs_op list" where
  "recover_marked env d requested =
     (let states = partial_paths d state_prefix;
          markers = partial_paths d marker_prefix;
          stagings = partial_paths d staging_prefix in
      if \<not> is_regular (map_of d transaction_name)
      then Inl (TransactionConflict transaction_name ''transaction marker is not a regular file'')
      else if markers \<noteq> []
      then Inl (TransactionConflict transaction_name ''transaction marker has an ambiguous temporary sibling'')
      else
        bind_res (read_transaction env d transaction_name) (\<lambda>tx.
        if mt_schema_version tx \<noteq> 2 \<or> \<not> records_match_requested (mt_records tx) requested
        then Inl (TransactionConflict transaction_name ''transaction records or schema do not match the request'')
        else
        bind_res (validate_index_digest env tx requested) (\<lambda>_.
        let state_temp = mt_state_temp tx; staging = mt_staging_dir tx in
        if \<not> safe_temp_name state_temp state_prefix
        then Inl (TransactionConflict transaction_name ''invalid state temporary path'')
        else if \<not> safe_temp_name staging staging_prefix
        then Inl (TransactionConflict transaction_name ''invalid staging directory path'')
        else if length stagings > 1 \<or> (stagings \<noteq> [] \<and> hd stagings \<noteq> staging)
        then Inl (TransactionConflict transaction_name ''staging does not match transaction marker'')
        else if (map_of d repository_name \<noteq> None) = (map_of d staging \<noteq> None)
        then Inl (TransactionConflict staging ''repository and staging must have exactly one existing path'')
        else if map_of d state_name \<noteq> None \<and> \<not> is_regular (map_of d state_name)
        then Inl (TransactionConflict state_name ''committed state is not a regular file'')
        else
          bind_res (recover_state env d states state_temp tx requested) (\<lambda>temporary_state.
          map_res (\<lambda>publish_ops.
              publish_ops
              @ (case temporary_state of
                   Some _ \<Rightarrow> [if map_of d state_name \<noteq> None then RemoveEntry state_temp
                              else RenameEntry state_temp state_name]
                 | None \<Rightarrow> [])
              @ [RemoveEntry transaction_name])
            (recover_repository env d tx)))))"

text \<open>\<^verbatim>\<open>reconstruct\<close>: a marker for orphaned temporaries, or nothing to do.\<close>

definition orphan_transaction ::
  "materialization_env \<Rightarrow> dir \<Rightarrow> string list \<Rightarrow> string \<Rightarrow> string \<Rightarrow> materialization_state \<Rightarrow>
   materialization_error + materialization_transaction" where
  "orphan_transaction env d markers state_temp staging state =
     (case markers of
        marker # _ \<Rightarrow>
          if \<not> is_regular (map_of d marker)
          then Inl (TransactionConflict marker ''orphan marker is not regular'')
          else bind_res (read_transaction env d marker) (\<lambda>tx.
            if mt_schema_version tx \<noteq> 2 \<or> mt_state_temp tx \<noteq> state_temp \<or> mt_staging_dir tx \<noteq> staging
               \<or> mt_index_sha256 tx \<noteq> ms_index_sha256 state \<or> mt_records tx \<noteq> ms_records state
            then Inl (TransactionConflict marker ''orphan marker does not bind state and staging'')
            else Inr tx)
      | [] \<Rightarrow>
          Inr \<lparr>mt_schema_version = 2, mt_index_sha256 = ms_index_sha256 state, mt_state_temp = state_temp,
               mt_staging_dir = staging, mt_records = ms_records state\<rparr>)"

definition reconstruct ::
  "materialization_env \<Rightarrow> string \<Rightarrow> dir \<Rightarrow> materialization_artifact list \<Rightarrow> materialization_error + fs_op list option" where
  "reconstruct env nonce d requested =
     (let states = partial_paths d state_prefix;
          markers = partial_paths d marker_prefix;
          stagings = partial_paths d staging_prefix in
      if states = [] \<and> markers = [] \<and> stagings = [] then Inr None
      else if length states \<noteq> 1 \<or> length stagings \<noteq> 1 \<or> length markers > 1
      then Inl (TransactionConflict ''.rsolve'' ''orphaned transaction temporaries are ambiguous'')
      else
        let state_temp = hd states; staging = hd stagings in
        if \<not> is_regular (map_of d state_temp) \<or> \<not> is_dir (map_of d staging)
        then Inl (TransactionConflict ''.rsolve'' ''orphaned transaction has an unsafe filesystem type'')
        else
          bind_res (map_err (\<lambda>e. TransactionConflict state_temp
                (''invalid orphan state: '' @ materialization_error_display e)) (read_state env d state_temp)) (\<lambda>state.
          if ms_schema_version state \<noteq> 2 \<or> \<not> records_match_requested (ms_records state) requested
          then Inl (TransactionConflict state_temp ''orphan state does not match request'')
          else
            bind_res (orphan_transaction env d markers state_temp staging state) (\<lambda>tx.
            bind_res (validate_index_digest env tx requested) (\<lambda>_.
            map_res (\<lambda>_. Some
                (case markers of
                   marker # _ \<Rightarrow> [RenameEntry marker transaction_name]
                 | [] \<Rightarrow>
                     [WriteEntry (marker_prefix @ nonce) (RegularFile (me_write_transaction env tx)),
                      RenameEntry (marker_prefix @ nonce) transaction_name]))
              (validate_repository_contents env (map_of d staging) (mt_records tx) (mt_index_sha256 tx))))))"

text \<open>\<^verbatim>\<open>recover\<close>, which calls itself once when it reconstructed a marker.\<close>

definition recover ::
  "materialization_env \<Rightarrow> string \<Rightarrow> dir \<Rightarrow> materialization_artifact list \<Rightarrow> materialization_error + fs_op list" where
  "recover env nonce d requested =
     (if map_of d transaction_name \<noteq> None then recover_marked env d requested
      else bind_res (reconstruct env nonce d requested) (\<lambda>found.
        case found of
          None \<Rightarrow> Inr []
        | Some ops \<Rightarrow> map_res (\<lambda>more. ops @ more) (recover_marked env (run_ops ops d) requested)))"

section \<open>Materialization\<close>

fun materialize_files ::
  "materialization_env \<Rightarrow> dir \<Rightarrow> materialization_artifact list \<Rightarrow>
   materialization_error + (dir \<times> materialization_method list)" where
  "materialize_files env contrib [] = Inr (contrib, [])"
| "materialize_files env contrib (a # as) =
     bind_res (verify_cache_object env (ma_artifact a)) (\<lambda>_.
       if map_of contrib (artifact_file a) \<noteq> None then Inl (DuplicateDestination (artifact_file a))
       else
         let path = ca_object_path (ma_artifact a);
             contrib' = bt_insert contrib (artifact_file a) (RegularFile (file_bytes (me_object env path))) in
         map_res (\<lambda>(c, methods). (c, (if me_clones env path then CloneMethod else CopyMethod) # methods))
           (materialize_files env contrib' as))"

definition validate_existing_artifact ::
  "materialization_env \<Rightarrow> materialization_state \<Rightarrow> node option \<Rightarrow> materialization_artifact \<Rightarrow>
   materialization_error + unit" where
  "validate_existing_artifact env state repository a =
     (let conflict = Inl (ExistingConflict (artifact_file a));
          n = child (child (child repository ''src'') ''contrib'') (artifact_file a) in
      case find (\<lambda>r. mr_identity r = artifact_identity_key (ma_identity a)
                     \<and> mr_artifact_sha256 r = ca_sha256 (ma_artifact a)) (ms_records state) of
        None \<Rightarrow> conflict
      | Some r \<Rightarrow>
          if mr_destination r \<noteq> contrib_prefix @ artifact_file a \<or> mr_package r \<noteq> ma_package a
             \<or> mr_version r \<noteq> version_str (ma_version a) \<or> mr_size r \<noteq> ca_size (ma_artifact a)
          then conflict
          else bind_res (verify_cache_object env (ma_artifact a)) (\<lambda>_.
            if \<not> is_regular n \<or> hash_hex env (file_bytes n) \<noteq> ca_sha256 (ma_artifact a) then conflict
            else Inr ()))"

definition validate_existing_state ::
  "materialization_env \<Rightarrow> materialization_state \<Rightarrow> materialization_artifact list \<Rightarrow> node option \<Rightarrow>
   materialization_error + unit" where
  "validate_existing_state env state artifacts repository =
     (if ms_schema_version state \<noteq> 2 \<or> length (ms_records state) \<noteq> length artifacts
      then Inl (InvalidState repository_name ''state does not describe the requested artifact set'')
      else each (validate_existing_artifact env state repository) artifacts)"

text \<open>A run that finds a committed state checks it and changes nothing.\<close>

definition check_committed ::
  "materialization_env \<Rightarrow> dir \<Rightarrow> materialization_artifact list \<Rightarrow> materialization_error + materialization_state" where
  "check_committed env d artifacts =
     (if \<not> is_regular (map_of d state_name)
      then Inl (InvalidState state_name ''state path is not a regular file'')
      else
        bind_res (read_state env d state_name) (\<lambda>state.
        bind_res (validate_existing_state env state artifacts (map_of d repository_name)) (\<lambda>_.
        bind_res (map_err PackagesFailed (write_packages (me_strftime env) artifacts)) (\<lambda>packages.
        if hash_hex env packages \<noteq> ms_index_sha256 state
        then Inl (ExistingConflict ''repository/src/contrib/PACKAGES'')
        else map_res (\<lambda>_. state)
          (validate_repository_contents env (map_of d repository_name) (ms_records state) (ms_index_sha256 state))))))"

record temp_names =
  tn_state :: string
  tn_marker :: string
  tn_staging :: string

definition staging_tree :: "dir \<Rightarrow> string \<Rightarrow> node" where
  "staging_tree contrib packages =
     Directory [(''src'', Directory [(''contrib'', Directory (bt_insert contrib ''PACKAGES'' (RegularFile packages)))])]"

text \<open>The operations that publish a new repository; the first writes the whole staging directory.\<close>

definition transaction_of :: "temp_names \<Rightarrow> materialization_state \<Rightarrow> materialization_transaction" where
  "transaction_of names state =
     \<lparr>mt_schema_version = 2, mt_index_sha256 = ms_index_sha256 state, mt_state_temp = tn_state names,
      mt_staging_dir = tn_staging names, mt_records = ms_records state\<rparr>"

definition publication_ops ::
  "materialization_env \<Rightarrow> temp_names \<Rightarrow> node \<Rightarrow> materialization_state \<Rightarrow> fs_op list" where
  "publication_ops env names tree state =
     [WriteEntry (tn_staging names) tree,
      WriteEntry (tn_state names) (RegularFile (me_write_state env state)),
      WriteEntry (tn_marker names) (RegularFile (me_write_transaction env (transaction_of names state))),
      RenameEntry (tn_marker names) transaction_name,
      RenameEntry (tn_staging names) repository_name,
      RenameEntry (tn_state names) state_name,
      RemoveEntry transaction_name]"

definition build_repository ::
  "materialization_env \<Rightarrow> temp_names \<Rightarrow> materialization_artifact list \<Rightarrow>
   materialization_error + (materialization_state \<times> fs_op list)" where
  "build_repository env names requested =
     (let artifacts = canonical_artifacts requested in
      bind_res (map_err PackagesFailed (write_packages (me_strftime env) artifacts)) (\<lambda>packages.
      map_res (\<lambda>(contrib, methods).
          let state = \<lparr>ms_schema_version = 2, ms_index_sha256 = hash_hex env packages,
                       ms_records = map (\<lambda>(a, m). record_for a m) (zip artifacts methods)\<rparr> in
          (state, publication_ops env names (staging_tree contrib packages) state))
        (materialize_files env [] artifacts)))"

text \<open>\<^verbatim>\<open>materialize\<close> once it holds the lock: the state it returns and the operations it performs, those of
  recovery first.\<close>

definition materialize_locked ::
  "materialization_env \<Rightarrow> string \<Rightarrow> temp_names \<Rightarrow> dir \<Rightarrow> materialization_artifact list \<Rightarrow>
   materialization_error + (materialization_state \<times> fs_op list)" where
  "materialize_locked env nonce names d requested =
     bind_res (validate_inputs requested) (\<lambda>_.
     bind_res (recover env nonce d requested) (\<lambda>recovery.
       let d' = run_ops recovery d in
       if map_of d' state_name \<noteq> None
       then map_res (\<lambda>state. (state, recovery)) (check_committed env d' requested)
       else if map_of d' repository_name \<noteq> None then Inl (ExistingConflict repository_name)
       else map_res (\<lambda>(state, ops). (state, recovery @ ops)) (build_repository env names requested)))"

definition ensure_gitignore :: "dir \<Rightarrow> materialization_error + fs_op list" where
  "ensure_gitignore d =
     (case map_of d ''.gitignore'' of
        None \<Rightarrow> Inr [WriteEntry ''.gitignore'' (RegularFile (CHR ''*'' # [line_feed]))]
      | Some n \<Rightarrow>
          if \<not> is_regular (Some n) then Inl (InvalidInput ''.gitignore is not a regular file'')
          else if file_bytes (Some n) \<noteq> CHR ''*'' # [line_feed]
          then Inl (InvalidInput (''.gitignore must contain exactly `*'' @ [CHR 0x5C] @ ''n`''))
          else Inr [])"

definition materialize ::
  "materialization_env \<Rightarrow> string \<Rightarrow> temp_names \<Rightarrow> dir \<Rightarrow> materialization_artifact list \<Rightarrow>
   materialization_error + (materialization_state \<times> fs_op list)" where
  "materialize env nonce names d requested =
     bind_res (ensure_gitignore d) (\<lambda>ignore.
       map_res (\<lambda>(state, ops). (state, ignore @ ops))
         (materialize_locked env nonce names (run_ops ignore d) requested))"

end
