(* ===== verification/Materialization_Sound.thy ===== *)
theory Materialization_Sound
  imports Materialization
begin

text \<open>
  The publication of a repository survives crashes: wherever the sequence of operations stops once the
  temporary state is written, the next invocation completes it and returns the state that was to be
  published.
\<close>

section \<open>Directories as maps\<close>

definition sorted_dir :: "dir \<Rightarrow> bool" where
  "sorted_dir d \<longleftrightarrow> sorted_wrt (<) (map fst d)"

lemma sorted_dir_ext: "sorted_dir d \<Longrightarrow> sorted_dir e \<Longrightarrow> map_of d = map_of e \<Longrightarrow> d = e"
proof (rule sorted_keys_unique[of fst])
  assume "sorted_dir d" "sorted_dir e" and eq: "map_of d = map_of e"
  then have "distinct (map fst d)" "distinct (map fst e)" using strict_sorted_iff unfolding sorted_dir_def by blast+
  then show "set d = set e" using eq map_of_inject_set by blast
qed (simp_all add: sorted_dir_def sorted_wrt_map)

text \<open>A directory with a given contents.\<close>

definition holds :: "dir \<Rightarrow> (string \<rightharpoonup> node) \<Rightarrow> bool" where
  "holds d m \<longleftrightarrow> sorted_dir d \<and> map_of d = m"

lemma holds_unique: "holds d m \<Longrightarrow> holds e m \<Longrightarrow> d = e"
  using sorted_dir_ext by (simp add: holds_def)

lemma holds_write: "holds d m \<Longrightarrow> holds (apply_op (WriteEntry name n) d) (m(name \<mapsto> n))"
  by (simp add: holds_def sorted_dir_def sorted_bt_insert map_of_bt_insert)

lemma holds_remove: "holds d m \<Longrightarrow> holds (apply_op (RemoveEntry name) d) (m(name := None))"
  by (simp add: holds_def sorted_dir_def sorted_bt_remove map_of_bt_remove)

lemma holds_rename:
  "holds d m \<Longrightarrow> m source = Some n \<Longrightarrow> holds (apply_op (RenameEntry source target) d) (m(source := None, target \<mapsto> n))"
  by (simp add: holds_def sorted_dir_def sorted_bt_insert sorted_bt_remove map_of_bt_insert map_of_bt_remove)

lemma partial_paths_eq:
  assumes "holds d m"
  shows "partial_paths d prefix = sorted_list_of_set {n. m n \<noteq> None \<and> starts_with prefix n}"
proof -
  have "sorted_wrt (<) (filter (starts_with prefix) (map fst d))"
    using assms by (simp add: holds_def sorted_dir_def sorted_wrt_filter)
  moreover have "set (filter (starts_with prefix) (map fst d)) = {n. m n \<noteq> None \<and> starts_with prefix n}"
  proof -
    have "m n \<noteq> None \<longleftrightarrow> n \<in> fst ` set d" for n using assms by (metis holds_def map_of_eq_None_iff)
    then show ?thesis by auto
  qed
  ultimately show ?thesis
    unfolding partial_paths_def by (metis sorted_list_of_set.idem_if_sorted_distinct sorted_list_of_set_sort_remdups strict_sorted_iff distinct_remdups_id)
qed

lemma run_ops_simps [simp]: "run_ops [] d = d" "run_ops (op # ops) d = run_ops ops (apply_op op d)"
  "run_ops (ops @ ops') d = run_ops ops' (run_ops ops d)"
  by (simp_all add: run_ops_def)

section \<open>Names\<close>

definition nonce_ok :: "string \<Rightarrow> bool" where
  "nonce_ok n \<longleftrightarrow> CHR ''/'' \<notin> set n \<and> CHR 0x5C \<notin> set n"

definition names_ok :: "temp_names \<Rightarrow> bool" where
  "names_ok names \<longleftrightarrow>
     (\<exists>x y z. tn_state names = state_prefix @ x \<and> tn_marker names = marker_prefix @ y \<and>
        tn_staging names = staging_prefix @ z \<and> nonce_ok x \<and> nonce_ok z)"

lemmas name_defs = state_prefix_def marker_prefix_def staging_prefix_def state_name_def transaction_name_def repository_name_def

declare starts_with_append [simp]

lemma names_facts:
  assumes "names_ok names"
  shows "starts_with state_prefix (tn_state names)" "starts_with marker_prefix (tn_marker names)"
    "starts_with staging_prefix (tn_staging names)"
    "\<not> starts_with marker_prefix (tn_state names)" "\<not> starts_with staging_prefix (tn_state names)"
    "\<not> starts_with state_prefix (tn_marker names)" "\<not> starts_with staging_prefix (tn_marker names)"
    "\<not> starts_with state_prefix (tn_staging names)" "\<not> starts_with marker_prefix (tn_staging names)"
    "safe_temp_name (tn_state names) state_prefix" "safe_temp_name (tn_staging names) staging_prefix"
  using assms by (auto simp: names_ok_def nonce_ok_def safe_temp_name_def name_defs)

lemma fixed_facts:
  assumes "n \<in> {state_name, transaction_name, repository_name}"
  shows "\<not> starts_with state_prefix n" "\<not> starts_with marker_prefix n" "\<not> starts_with staging_prefix n"
  using assms by (auto simp: name_defs)

lemma names_distinct:
  assumes "names_ok names"
  shows "tn_state names \<noteq> tn_marker names" "tn_state names \<noteq> tn_staging names" "tn_marker names \<noteq> tn_staging names"
    "tn_state names \<notin> {state_name, transaction_name, repository_name}"
    "tn_marker names \<notin> {state_name, transaction_name, repository_name}"
    "tn_staging names \<notin> {state_name, transaction_name, repository_name}"
    "distinct [state_name, transaction_name, repository_name]"
proof -
  show "distinct [state_name, transaction_name, repository_name]" by (simp add: name_defs)
qed (use names_facts[OF assms] fixed_facts in metis)+

section \<open>A publication\<close>

text \<open>The text of the state and of the transaction of a run can be read back.\<close>

definition env_ok :: "materialization_env \<Rightarrow> temp_names \<Rightarrow> materialization_state \<Rightarrow> bool" where
  "env_ok env names state \<longleftrightarrow>
     me_read_state env (me_write_state env state) = Inr state \<and> utf8_error (me_write_state env state) = None
     \<and> me_read_transaction env (me_write_transaction env (transaction_of names state)) = Inr (transaction_of names state)
     \<and> utf8_error (me_write_transaction env (transaction_of names state)) = None"

text \<open>What holds of a repository that is about to be published.\<close>

definition publishing ::
  "materialization_env \<Rightarrow> temp_names \<Rightarrow> node \<Rightarrow> materialization_state \<Rightarrow> materialization_artifact list \<Rightarrow> bool" where
  "publishing env names tree state requested \<longleftrightarrow>
     env_ok env names state \<and> names_ok names \<and> ms_schema_version state = 2 \<and>
     records_match_requested (ms_records state) requested \<and>
     validate_index_digest env (transaction_of names state) requested = Inr () \<and> is_dir (Some tree) \<and>
     validate_repository_contents env (Some tree) (ms_records state) (ms_index_sha256 state) = Inr ()"

text \<open>A directory in which nothing was published and no temporary is left.\<close>

definition unpublished :: "(string \<rightharpoonup> node) \<Rightarrow> bool" where
  "unpublished m \<longleftrightarrow>
     (\<forall>n. n \<in> {state_name, transaction_name, repository_name} \<or> starts_with state_prefix n \<or>
        starts_with marker_prefix n \<or> starts_with staging_prefix n \<longrightarrow> m n = None)"

lemma temp_paths:
  assumes "holds d (m ++ f)" and "unpublished m" and "p \<in> {state_prefix, marker_prefix, staging_prefix}"
  shows "partial_paths d p = sorted_list_of_set {n. f n \<noteq> None \<and> starts_with p n}"
proof -
  have "(m ++ f) n \<noteq> None \<and> starts_with p n \<longleftrightarrow> f n \<noteq> None \<and> starts_with p n" for n
  proof -
    have "m n = None" if "starts_with p n" using assms(2,3) that unfolding unpublished_def by blast
    then show ?thesis by (auto simp: map_add_def split: option.splits)
  qed
  then show ?thesis using partial_paths_eq[OF assms(1), of p] by presburger
qed

abbreviation state_file :: "materialization_env \<Rightarrow> materialization_state \<Rightarrow> node" where
  "state_file env state \<equiv> RegularFile (me_write_state env state)"

abbreviation marker_file :: "materialization_env \<Rightarrow> temp_names \<Rightarrow> materialization_state \<Rightarrow> node" where
  "marker_file env names state \<equiv> RegularFile (me_write_transaction env (transaction_of names state))"

text \<open>What is in the directory after each operation, beside what was there before.\<close>

fun phase ::
  "nat \<Rightarrow> materialization_env \<Rightarrow> temp_names \<Rightarrow> node \<Rightarrow> materialization_state \<Rightarrow> (string \<rightharpoonup> node)" where
  "phase k env names tree state =
     (if k = 0 then Map.empty
      else if k = 1 then [tn_staging names \<mapsto> tree]
      else if k = 2 then [tn_staging names \<mapsto> tree, tn_state names \<mapsto> state_file env state]
      else if k = 3 then
        [tn_staging names \<mapsto> tree, tn_state names \<mapsto> state_file env state, tn_marker names \<mapsto> marker_file env names state]
      else if k = 4 then
        [tn_staging names \<mapsto> tree, tn_state names \<mapsto> state_file env state, transaction_name \<mapsto> marker_file env names state]
      else if k = 5 then
        [repository_name \<mapsto> tree, tn_state names \<mapsto> state_file env state, transaction_name \<mapsto> marker_file env names state]
      else if k = 6 then
        [repository_name \<mapsto> tree, state_name \<mapsto> state_file env state, transaction_name \<mapsto> marker_file env names state]
      else [repository_name \<mapsto> tree, state_name \<mapsto> state_file env state])"

declare phase.simps [simp del]

lemma phase_step:
  assumes "names_ok names" and "unpublished m" and "k < 7" and "holds d (m ++ phase k env names tree state)"
  shows "holds (apply_op (publication_ops env names tree state ! k) d) (m ++ phase (Suc k) env names tree state)"
proof -
  note n = names_distinct[OF assms(1)]
  have m: "m transaction_name = None" "m (tn_marker names) = None" "m (tn_staging names) = None" "m (tn_state names) = None"
    "m state_name = None" "m repository_name = None"
    using assms(2) names_facts[OF assms(1)] by (auto simp: unpublished_def)
  consider "k = 0" | "k = 1" | "k = 2" | "k = 3" | "k = 4" | "k = 5" | "k = 6" using assms(3) by linarith
  then show ?thesis
  proof cases
    case 1
    then show ?thesis using holds_write[OF assms(4)] by (simp add: publication_ops_def phase.simps)
  next
    case 2
    then show ?thesis using holds_write[OF assms(4)] by (simp add: publication_ops_def phase.simps)
  next
    case 3
    then show ?thesis using holds_write[OF assms(4)] by (simp add: publication_ops_def phase.simps)
  next
    case 4
    have "(m ++ phase 3 env names tree state)(tn_marker names := None, transaction_name \<mapsto> marker_file env names state) =
        m ++ phase 4 env names tree state"
      using n m by (auto simp: phase.simps fun_eq_iff map_add_def)
    then show ?thesis
      using holds_rename[OF assms(4), of "tn_marker names" "marker_file env names state" transaction_name] 4 n
      by (simp add: publication_ops_def phase.simps)
  next
    case 5
    have "(m ++ phase 4 env names tree state)(tn_staging names := None, repository_name \<mapsto> tree) =
        m ++ phase 5 env names tree state"
      using n m by (auto simp: phase.simps fun_eq_iff map_add_def)
    then show ?thesis
      using holds_rename[OF assms(4), of "tn_staging names" tree repository_name] 5 n
      by (simp add: publication_ops_def phase.simps)
  next
    case 6
    have "(m ++ phase 5 env names tree state)(tn_state names := None, state_name \<mapsto> state_file env state) =
        m ++ phase 6 env names tree state"
      using n m by (auto simp: phase.simps fun_eq_iff map_add_def)
    then show ?thesis
      using holds_rename[OF assms(4), of "tn_state names" "state_file env state" state_name] 6 n
      by (simp add: publication_ops_def phase.simps)
  next
    case 7
    have "(m ++ phase 6 env names tree state)(transaction_name := None) = m ++ phase 7 env names tree state"
      using n m by (auto simp: phase.simps fun_eq_iff map_add_def)
    then show ?thesis
      using holds_remove[OF assms(4), of transaction_name] 7 by (simp add: publication_ops_def)
  qed
qed

lemma phase_reached:
  assumes "names_ok names" and "unpublished m" and "holds d m" and "k \<le> 7"
  shows "holds (run_ops (take k (publication_ops env names tree state)) d) (m ++ phase k env names tree state)"
  using assms(4)
proof (induction k)
  case 0
  then show ?case using assms(3) by (simp add: phase.simps)
next
  case (Suc k)
  have "take (Suc k) (publication_ops env names tree state) =
      take k (publication_ops env names tree state) @ [publication_ops env names tree state ! k]"
    using Suc.prems by (intro take_Suc_conv_app_nth) (simp add: publication_ops_def)
  then show ?case using phase_step[OF assms(1,2)] Suc by simp
qed

section \<open>Recovery of an interrupted publication\<close>

definition phase_keys :: "nat \<Rightarrow> temp_names \<Rightarrow> string list" where
  "phase_keys k names =
     (if k = 2 then [tn_staging names, tn_state names]
      else if k = 3 then [tn_staging names, tn_state names, tn_marker names]
      else if k = 4 then [tn_staging names, tn_state names, transaction_name]
      else if k = 5 then [repository_name, tn_state names, transaction_name]
      else if k = 6 then [repository_name, state_name, transaction_name]
      else [repository_name, state_name])"

lemma dom_phase:
  assumes "2 \<le> k"
  shows "dom (phase k env names tree state) = set (phase_keys k names)"
proof -
  consider "k = 2" | "k = 3" | "k = 4" | "k = 5" | "k = 6" | "6 < k" using assms by linarith
  then show ?thesis by cases (simp_all add: phase.simps phase_keys_def insert_commute)
qed

lemma phase_paths:
  assumes "unpublished m" and "holds d (m ++ phase k env names tree state)" and "2 \<le> k"
    and "p \<in> {state_prefix, marker_prefix, staging_prefix}"
  shows "partial_paths d p = sorted_list_of_set (set (filter (starts_with p) (phase_keys k names)))"
proof -
  have "{n. phase k env names tree state n \<noteq> None \<and> starts_with p n} = set (filter (starts_with p) (phase_keys k names))"
    using dom_phase[OF assms(3), of env names tree state] by (auto simp: dom_def)
  then show ?thesis using temp_paths[OF assms(2,1,4)] by presburger
qed

lemma phase_temps:
  assumes "names_ok names" and "unpublished m" and d: "holds d (m ++ phase k env names tree state)" and "2 \<le> k" "k \<le> 7"
  shows "partial_paths d state_prefix = (if k \<le> 5 then [tn_state names] else [])"
    "partial_paths d marker_prefix = (if k = 3 then [tn_marker names] else [])"
    "partial_paths d staging_prefix = (if k \<le> 4 then [tn_staging names] else [])"
proof -
  note n = names_facts(1-9)[OF assms(1)]
  note f = fixed_facts[of state_name, simplified] fixed_facts[of transaction_name, simplified] fixed_facts[of repository_name, simplified]
  have cases: "k = 2 \<or> k = 3 \<or> k = 4 \<or> k = 5 \<or> k = 6 \<or> k = 7" using assms(4,5) by linarith
  have "filter (starts_with state_prefix) (phase_keys k names) = (if k \<le> 5 then [tn_state names] else [])"
    using cases by (elim disjE) (simp_all add: phase_keys_def n f)
  then show "partial_paths d state_prefix = (if k \<le> 5 then [tn_state names] else [])"
    using phase_paths[OF assms(2) d assms(4), of state_prefix] by simp
  have "filter (starts_with marker_prefix) (phase_keys k names) = (if k = 3 then [tn_marker names] else [])"
    using cases by (elim disjE) (simp_all add: phase_keys_def n f)
  then show "partial_paths d marker_prefix = (if k = 3 then [tn_marker names] else [])"
    using phase_paths[OF assms(2) d assms(4), of marker_prefix] by simp
  have "filter (starts_with staging_prefix) (phase_keys k names) = (if k \<le> 4 then [tn_staging names] else [])"
    using cases by (elim disjE) (simp_all add: phase_keys_def n f)
  then show "partial_paths d staging_prefix = (if k \<le> 4 then [tn_staging names] else [])"
    using phase_paths[OF assms(2) d assms(4), of staging_prefix] by simp
qed

lemma phase_entries:
  assumes "names_ok names" and "unpublished m" and d: "holds d (m ++ phase k env names tree state)" and "2 \<le> k" "k \<le> 7"
  shows "map_of d transaction_name = (if 4 \<le> k \<and> k \<le> 6 then Some (marker_file env names state) else None)"
    "map_of d repository_name = (if 5 \<le> k then Some tree else None)"
    "map_of d state_name = (if 6 \<le> k then Some (state_file env state) else None)"
    "map_of d (tn_staging names) = (if k \<le> 4 then Some tree else None)"
    "map_of d (tn_state names) = (if k \<le> 5 then Some (state_file env state) else None)"
    "map_of d (tn_marker names) = (if k = 3 then Some (marker_file env names state) else None)"
proof -
  note n = names_distinct[OF assms(1)]
  have m: "m transaction_name = None" "m (tn_marker names) = None" "m (tn_staging names) = None" "m (tn_state names) = None"
    "m state_name = None" "m repository_name = None"
    using assms(2) names_facts[OF assms(1)] by (auto simp: unpublished_def)
  have d': "map_of d = m ++ phase k env names tree state" using d by (simp add: holds_def)
  have cases: "k = 2 \<or> k = 3 \<or> k = 4 \<or> k = 5 \<or> k = 6 \<or> k = 7" using assms(4,5) by linarith
  show "map_of d transaction_name = (if 4 \<le> k \<and> k \<le> 6 then Some (marker_file env names state) else None)"
    "map_of d repository_name = (if 5 \<le> k then Some tree else None)"
    "map_of d state_name = (if 6 \<le> k then Some (state_file env state) else None)"
    "map_of d (tn_staging names) = (if k \<le> 4 then Some tree else None)"
    "map_of d (tn_state names) = (if k \<le> 5 then Some (state_file env state) else None)"
    "map_of d (tn_marker names) = (if k = 3 then Some (marker_file env names state) else None)"
    unfolding d' using cases n m by (elim disjE; auto simp: phase.simps map_add_def)+
qed

lemma read_marker:
  "env_ok env names state \<Longrightarrow> map_of d name = Some (marker_file env names state) \<Longrightarrow> read_transaction env d name = Inr (transaction_of names state)"
  by (simp add: env_ok_def read_transaction_def read_text_def)

lemma read_state_file:
  "env_ok env names state \<Longrightarrow> map_of d name = Some (state_file env state) \<Longrightarrow> read_state env d name = Inr state"
  by (simp add: env_ok_def read_state_def read_text_def)

lemma recover_marked_phase:
  assumes "publishing env names tree state requested" and "unpublished m"
    and d: "holds d (m ++ phase k env names tree state)" and k: "k = 4 \<or> k = 5 \<or> k = 6"
  shows "recover_marked env d requested = Inr (drop k (publication_ops env names tree state))"
proof -
  have env: "env_ok env names state" and names: "names_ok names" and schema: "ms_schema_version state = 2"
    and records: "records_match_requested (ms_records state) requested"
    and digest: "validate_index_digest env (transaction_of names state) requested = Inr ()"
    and tree: "is_dir (Some tree)" "validate_repository_contents env (Some tree) (ms_records state) (ms_index_sha256 state) = Inr ()"
    using assms(1) by (simp_all add: publishing_def)
  have k': "2 \<le> k" "k \<le> 7" using k by auto
  note temps = phase_temps[OF names assms(2) d k'] and entries = phase_entries[OF names assms(2) d k']
  have tx: "mt_state_temp (transaction_of names state) = tn_state names" "mt_staging_dir (transaction_of names state) = tn_staging names"
      "mt_schema_version (transaction_of names state) = 2" "mt_records (transaction_of names state) = ms_records state"
      "mt_index_sha256 (transaction_of names state) = ms_index_sha256 state"
    by (simp_all add: transaction_of_def)
  have marker: "read_transaction env d transaction_name = Inr (transaction_of names state)"
    using read_marker[OF env] entries(1) k by auto
  have matches: "state_matches state (transaction_of names state) requested"
    using schema records tx by (simp add: state_matches_def)
  have stemp: "k \<le> 5 \<Longrightarrow> read_state env d (tn_state names) = Inr state" and scomm: "k = 6 \<Longrightarrow> read_state env d state_name = Inr state"
    using read_state_file[OF env] entries(3,5) by auto
  have rstate: "recover_state env d (partial_paths d state_prefix) (tn_state names) (transaction_of names state) requested =
      Inr (if k = 6 then None else Some state)"
    using k temps(1) entries(3,5) stemp scomm matches by (elim disjE) (simp_all add: recover_state_def Let_def)
  have repo: "recover_repository env d (transaction_of names state) = Inr (if k = 4 then [RenameEntry (tn_staging names) repository_name] else [])"
    using k entries(2,4) tree tx by (elim disjE) (simp_all add: recover_repository_def Let_def)
  have safe: "safe_temp_name (tn_state names) state_prefix" "safe_temp_name (tn_staging names) staging_prefix"
    using names_facts[OF names] by simp_all
  show ?thesis
    using k marker records digest safe rstate repo temps(2,3) entries(1-4) tx
    by (elim disjE) (simp_all add: recover_marked_def Let_def publication_ops_def)
qed

text \<open>A marker that reconstruction writes has another name, which no later phase mentions.\<close>

lemma phase_other_marker:
  "k \<noteq> 3 \<Longrightarrow> phase k env (names\<lparr>tn_marker := n\<rparr>) tree state = phase k env names tree state"
  "transaction_of (names\<lparr>tn_marker := n\<rparr>) state = transaction_of names state"
  by (simp_all add: phase.simps transaction_of_def)

lemma reconstruct_phase:
  assumes "publishing env names tree state requested" and "unpublished m"
    and d: "holds d (m ++ phase k env names tree state)" and k: "k = 2 \<or> k = 3"
  shows "reconstruct env nonce d requested =
    Inr (Some (if k = 3 then [RenameEntry (tn_marker names) transaction_name]
      else [WriteEntry (marker_prefix @ nonce) (marker_file env names state),
            RenameEntry (marker_prefix @ nonce) transaction_name]))"
proof -
  have env: "env_ok env names state" and names: "names_ok names" and schema: "ms_schema_version state = 2"
    and records: "records_match_requested (ms_records state) requested"
    and digest: "validate_index_digest env (transaction_of names state) requested = Inr ()"
    and tree: "is_dir (Some tree)" "validate_repository_contents env (Some tree) (ms_records state) (ms_index_sha256 state) = Inr ()"
    using assms(1) by (simp_all add: publishing_def)
  have k': "2 \<le> k" "k \<le> 7" using k by auto
  note temps = phase_temps[OF names assms(2) d k'] and entries = phase_entries[OF names assms(2) d k']
  have stemp: "read_state env d (tn_state names) = Inr state" using read_state_file[OF env] entries(5) k by auto
  have marker: "k = 3 \<Longrightarrow> read_transaction env d (tn_marker names) = Inr (transaction_of names state)"
    using read_marker[OF env] entries(6) by auto
  have tx: "orphan_transaction env d (partial_paths d marker_prefix) (tn_state names) (tn_staging names) state =
      Inr (transaction_of names state)"
    using k temps(2) marker entries(6)
    by (elim disjE) (simp_all add: orphan_transaction_def transaction_of_def)
  show ?thesis
    using k stemp schema records tx digest tree temps entries(4,5)
    by (elim disjE) (simp_all add: reconstruct_def Let_def transaction_of_def)
qed

lemma recover_phase:
  assumes pub: "publishing env names tree state requested" and m: "unpublished m"
    and d: "holds d (m ++ phase k env names tree state)" and k: "2 \<le> k" "k \<le> 7" and "nonce_ok nonce"
  shows "\<exists>ops. recover env nonce d requested = Inr ops \<and> holds (run_ops ops d) (m ++ phase 7 env names tree state) \<and>
    (2 < k \<longrightarrow> ops = drop k (publication_ops env names tree state))"
proof -
  let ?ops = "publication_ops env names tree state"
  have names: "names_ok names" using pub by (simp add: publishing_def)
  note entries = phase_entries[OF names m d k] and temps = phase_temps[OF names m d k]
  have finish: "holds (run_ops (drop j ?ops) e) (m ++ phase 7 env names tree state)"
    if "holds e (m ++ phase j env names tree state)" "j \<le> 7" for e j
    using that
  proof (induction "7 - j" arbitrary: j e)
    case 0
    then show ?case by (simp add: publication_ops_def)
  next
    case (Suc n)
    have "drop j ?ops = ?ops ! j # drop (Suc j) ?ops"
      using Suc by (intro Cons_nth_drop_Suc[symmetric]) (simp add: publication_ops_def)
    then show ?case using Suc phase_step[OF names m _ Suc.prems(1)] by simp
  qed
  consider "k = 2" | "k = 3" | "k = 4 \<or> k = 5 \<or> k = 6" | "k = 7" using k by linarith
  then show ?thesis
  proof cases
    case 1
    let ?names = "names\<lparr>tn_marker := marker_prefix @ nonce\<rparr>"
    let ?tx = "[WriteEntry (marker_prefix @ nonce) (marker_file env names state), RenameEntry (marker_prefix @ nonce) transaction_name]"
    have names': "names_ok ?names" using names by (auto simp: names_ok_def)
    have ops': "publication_ops env ?names tree state ! 2 = hd ?tx" "publication_ops env ?names tree state ! 3 = last ?tx"
      by (simp_all add: publication_ops_def phase_other_marker(2))
    have "holds d (m ++ phase 2 env ?names tree state)" using d 1 by (simp add: phase_other_marker)
    from phase_step[OF names' m _ this] have "holds (apply_op (hd ?tx) d) (m ++ phase 3 env ?names tree state)"
      using ops'(1) by simp
    from phase_step[OF names' m _ this] have after: "holds (run_ops ?tx d) (m ++ phase 4 env names tree state)"
      using ops'(2) phase_other_marker(1)[of 4] by simp
    then have "recover env nonce d requested = Inr (?tx @ drop 4 ?ops)"
      using reconstruct_phase[OF pub m d, of nonce] recover_marked_phase[OF pub m after] entries(1) 1
      by (simp add: recover_def)
    then show ?thesis using finish[OF after] 1 by (intro exI[of _ "?tx @ drop 4 ?ops"]) simp
  next
    case 2
    have "?ops ! 3 = RenameEntry (tn_marker names) transaction_name" by (simp add: publication_ops_def)
    then have after: "holds (run_ops [RenameEntry (tn_marker names) transaction_name] d) (m ++ phase 4 env names tree state)"
      using phase_step[OF names m _ d] 2 by simp
    have "drop 3 ?ops = RenameEntry (tn_marker names) transaction_name # drop 4 ?ops" by (simp add: publication_ops_def)
    then have "recover env nonce d requested = Inr (drop 3 ?ops)"
      using reconstruct_phase[OF pub m d, of nonce] recover_marked_phase[OF pub m after] entries(1) 2
      by (simp add: recover_def)
    then show ?thesis using finish[OF d] 2 by auto
  next
    case 3
    then have "recover env nonce d requested = Inr (drop k ?ops)"
      using recover_marked_phase[OF pub m d] entries(1) by (auto simp: recover_def)
    then show ?thesis using finish[OF d k(2)] by auto
  next
    case 4
    then have "recover env nonce d requested = Inr []"
      using entries(1) temps by (simp add: recover_def reconstruct_def Let_def)
    moreover have "drop 7 ?ops = []" by (simp add: publication_ops_def)
    ultimately show ?thesis using d 4 by auto
  qed
qed

end
