(* ===== verification/Materialization_Build.thy ===== *)
theory Materialization_Build
  imports Materialization_Sound
begin

text \<open>
  What a run builds is what recovery and later runs accept: its records describe the request, its files
  have the recorded digests, and the index is the one the request asks for.
\<close>

section \<open>Inputs\<close>

lemma validate_inputs_from_Inr:
  "validate_inputs_from packages destinations as = Inr () \<Longrightarrow>
     distinct (map ma_package as) \<and> set (map ma_package as) \<inter> set packages = {} \<and>
     (\<forall>a\<in>set as. valid_filename_component (ma_package a))"
proof (induction as arbitrary: packages destinations)
  case (Cons a as)
  then have rest: "validate_inputs_from (ma_package a # packages) (artifact_file a # destinations) as = Inr ()"
    and a: "ma_package a \<notin> set packages" "validate_artifact a = Inr ()"
    by (auto simp: bind_res_Inr_iff split: if_splits)
  have "valid_filename_component (ma_package a)" using a(2) by (auto simp: validate_artifact_def Let_def split: if_splits)
  then show ?case using Cons.IH[OF rest] a(1) by auto
qed simp

lemma validate_inputs_Inr:
  assumes "validate_inputs as = Inr ()"
  shows "distinct (map ma_package as)" "a \<in> set as \<Longrightarrow> valid_filename_component (ma_package a)"
  using validate_inputs_from_Inr[OF assms[unfolded validate_inputs_def]] by blast+

interpretation canonical_order: total_cmp
  "\<lambda>l r. then_with (cmp_of (ma_package l) (ma_package r))
     (then_with (cmp_of (artifact_file l) (artifact_file r)) (cmp_of (artifact_identity_key (ma_identity l)) (artifact_identity_key (ma_identity r))))"
  by (intro total_cmp_then total_cmp_field)

lemma mset_canonical: "mset (canonical_artifacts as) = mset as"
  by (simp add: canonical_artifacts_def)

lemma canonical_members: "set (canonical_artifacts as) = set as" "length (canonical_artifacts as) = length as"
  using mset_canonical mset_eq_setD mset_eq_length by blast+

lemma canonical_distinct: "distinct (map ma_package as) \<Longrightarrow> distinct (map ma_package (canonical_artifacts as))"
  using mset_canonical[of as] by (metis mset_eq_imp_distinct_iff mset_map)

lemma sorted_by_package:
  assumes "distinct (map ma_package as)"
  shows "sorted_wrt (\<lambda>a b. ma_package a < ma_package b) (sort_by artifact_cmp as)"
proof -
  have "distinct (map ma_package (sort_by artifact_cmp as))"
    using assms by (metis artifact_order.mset_sort_by mset_eq_imp_distinct_iff mset_map)
  then have "distinct xs \<Longrightarrow> sorted_wrt (\<lambda>a b. artifact_cmp a b \<noteq> Greater) xs \<Longrightarrow> distinct (map ma_package xs) \<Longrightarrow>
      sorted_wrt (\<lambda>a b. ma_package a < ma_package b) xs" for xs
    by (induction xs) (fastforce simp: artifact_cmp_def then_with_eq_iff not_less_iff_gr_or_eq image_iff)+
  then show ?thesis
    using artifact_order.sorted_sort_by \<open>distinct (map ma_package (sort_by artifact_cmp as))\<close> distinct_map by blast
qed

lemma write_packages_canonical:
  assumes "distinct (map ma_package as)"
  shows "write_packages strftime (canonical_artifacts as) = write_packages strftime as"
proof -
  have "sort_by artifact_cmp (canonical_artifacts as) = sort_by artifact_cmp as"
    by (rule sorted_keys_unique[of ma_package])
      (use sorted_by_package[OF assms] sorted_by_package[OF canonical_distinct[OF assms]] canonical_members(1)
        in simp_all)
  then show ?thesis by (simp add: write_packages_def)
qed

section \<open>Files\<close>

lemma materialize_files_Inr:
  "materialize_files env contrib as = Inr (c, methods) \<Longrightarrow> sorted_dir contrib \<Longrightarrow>
     sorted_dir c \<and> length methods = length as \<and> fst ` set c = fst ` set contrib \<union> artifact_file ` set as \<and>
     (\<forall>n. map_of contrib n \<noteq> None \<longrightarrow> map_of c n = map_of contrib n) \<and>
     (\<forall>a\<in>set as. verify_cache_object env (ma_artifact a) = Inr () \<and>
        map_of c (artifact_file a) = Some (RegularFile (file_bytes (me_object env (ca_object_path (ma_artifact a))))))"
proof (induction as arbitrary: contrib c methods)
  case (Cons a as)
  let ?contrib = "bt_insert contrib (artifact_file a) (RegularFile (file_bytes (me_object env (ca_object_path (ma_artifact a)))))"
  obtain ms where ms: "materialize_files env ?contrib as = Inr (c, ms)"
    "methods = (if me_clones env (ca_object_path (ma_artifact a)) then CloneMethod else CopyMethod) # ms"
    and a: "verify_cache_object env (ma_artifact a) = Inr ()" "map_of contrib (artifact_file a) = None"
    using Cons.prems(1) by (auto simp: bind_res_Inr_iff map_res_Inr_iff Let_def split: if_splits)
  have sorted: "sorted_dir ?contrib" using Cons.prems(2) by (simp add: sorted_dir_def sorted_bt_insert)
  have keys: "fst ` set ?contrib = insert (artifact_file a) (fst ` set contrib)" using set_bt_insert[of contrib] by simp
  have here: "map_of ?contrib = (map_of contrib)(artifact_file a \<mapsto> RegularFile (file_bytes (me_object env (ca_object_path (ma_artifact a)))))"
    using Cons.prems(2) by (simp add: map_of_bt_insert sorted_dir_def)
  note ih = Cons.IH[OF ms(1) sorted]
  have "map_of c (artifact_file a) = Some (RegularFile (file_bytes (me_object env (ca_object_path (ma_artifact a)))))"
    using ih here by simp
  moreover have "map_of c n = map_of contrib n" if "map_of contrib n \<noteq> None" for n
  proof -
    have "n \<noteq> artifact_file a" using a(2) that by auto
    then show ?thesis using ih here that by simp
  qed
  ultimately show ?case using ih ms(2) a(1) keys by auto
qed simp

lemma not_packages: "artifact_file a \<noteq> ''PACKAGES''"
proof
  assume "artifact_file a = ''PACKAGES''"
  then have "last (artifact_file a) = CHR ''S''" by simp
  then show False by (simp add: artifact_file_def)
qed

lemma strip_prefix_append [simp]: "strip_prefix p (p @ s) = Some s"
  by (simp add: strip_prefix_def)

lemma built_contents:
  assumes "materialize_files env [] as = Inr (c, methods)"
  shows "validate_repository_contents env (Some (staging_tree c packages))
      (map (\<lambda>(a, m). record_for a m) (zip as methods)) (hash_hex env packages) = Inr ()"
proof -
  let ?records = "map (\<lambda>(a, m). record_for a m) (zip as methods)"
  let ?contrib = "Directory (bt_insert c ''PACKAGES'' (RegularFile packages))"
  have "sorted_dir []" by (simp add: sorted_dir_def)
  note files = materialize_files_Inr[OF assms this]
  have inserted: "map_of (bt_insert c ''PACKAGES'' (RegularFile packages)) = (map_of c)(''PACKAGES'' \<mapsto> RegularFile packages)"
    using files by (simp add: map_of_bt_insert sorted_dir_def)
  have len: "length methods = length as" using files by blast
  have "expected_names ?records = insert ''PACKAGES'' (artifact_file ` set as)"
  proof -
    have "List.map_filter (\<lambda>r. strip_prefix contrib_prefix (mr_destination r)) ?records = map artifact_file as"
      using len
    proof (induction as arbitrary: methods)
      case (Cons a as)
      then show ?case by (cases methods) (simp_all add: List.map_filter_def record_for_def)
    qed (simp add: List.map_filter_def)
    then show ?thesis by (simp add: expected_names_def)
  qed
  moreover have "directory_names (Some ?contrib) = insert ''PACKAGES'' (artifact_file ` set as)"
    using files set_bt_insert[of c "''PACKAGES''"] by simp
  moreover have "each (validate_record env (Some ?contrib)) ?records = Inr ()"
    unfolding each_Inr_iff
  proof
    fix r assume "r \<in> set ?records"
    then obtain a m where a: "a \<in> set as" "r = record_for a m" by (auto dest: set_zip_leftD)
    then have "verify_cache_object env (ma_artifact a) = Inr ()"
        "map_of c (artifact_file a) = Some (RegularFile (file_bytes (me_object env (ca_object_path (ma_artifact a)))))"
      using files by blast+
    then show "validate_record env (Some ?contrib) r = Inr ()"
      using a(2) not_packages[of a]
      by (auto simp: validate_record_def record_for_def inserted verify_cache_object_def Let_def split: if_splits)
  qed
  ultimately show ?thesis
    by (simp add: validate_repository_contents_def staging_tree_def Let_def inserted)
qed

lemma record_matches_record_for: "record_matches a (record_for a m)"
  by (simp add: record_matches_def record_for_def)

lemma built_records:
  assumes "length methods = length (canonical_artifacts requested)"
  shows "records_match_requested (map (\<lambda>(a, m). record_for a m) (zip (canonical_artifacts requested) methods)) requested"
  using assms
  by (auto simp: records_match_requested_def Let_def list_all_length record_matches_record_for)

lemma build_repository_publishing:
  assumes "build_repository env names requested = Inr (state, ops)" and "validate_inputs requested = Inr ()"
    and "env_ok env names state" and "names_ok names"
  shows "\<exists>tree. ops = publication_ops env names tree state \<and> publishing env names tree state requested"
proof -
  let ?as = "canonical_artifacts requested"
  obtain packages c methods where packages: "write_packages (me_strftime env) ?as = Inr packages"
    and files: "materialize_files env [] ?as = Inr (c, methods)"
    and state: "state = \<lparr>ms_schema_version = 2, ms_index_sha256 = hash_hex env packages,
        ms_records = map (\<lambda>(a, m). record_for a m) (zip ?as methods)\<rparr>"
    and ops: "ops = publication_ops env names (staging_tree c packages) state"
    using assms(1) by (auto simp: build_repository_def Let_def bind_res_Inr_iff map_res_Inr_iff)
  have "write_packages (me_strftime env) requested = Inr packages"
    using packages write_packages_canonical[OF validate_inputs_Inr(1)[OF assms(2)]] by simp
  then have "validate_index_digest env (transaction_of names state) requested = Inr ()"
    by (simp add: validate_index_digest_def transaction_of_def state)
  moreover have "records_match_requested (ms_records state) requested"
    using built_records materialize_files_Inr[OF files] by (simp add: state sorted_dir_def)
  moreover have "is_dir (Some (staging_tree c packages))" by (simp add: staging_tree_def)
  ultimately show ?thesis
    using ops assms(3,4) built_contents[OF files, of packages] by (auto simp: publishing_def state)
qed

section \<open>Identity keys\<close>

lemma last_split:
  assumes "x @ c # a = y @ c # b" and "c \<notin> set a" and "c \<notin> set b"
  shows "x = y \<and> a = b"
proof -
  have cut: "takeWhile (\<lambda>d. d \<noteq> c) (rev (u @ c # v)) = rev v" if "c \<notin> set v" for u v
    using that by (simp add: takeWhile_tail, blast)
  have "rev a = rev b" using cut[OF assms(2), of x] cut[OF assms(3), of y] assms(1) by simp
  then show ?thesis using assms(1) by simp
qed

definition plain_key :: "string \<Rightarrow> bool" where
  "plain_key s \<longleftrightarrow> CHR '':'' \<notin> set s \<and> CHR ''@'' \<notin> set s"

lemma component_plain: "valid_filename_component s \<Longrightarrow> plain_key s"
  by (auto simp: valid_filename_component_def plain_key_def list_all_iff ascii_defs byte_val_def)

text \<open>The version in a provenance was parsed, so it has no separator of the key in it.\<close>

definition key_ok :: "release_identity \<Rightarrow> bool" where
  "key_ok i \<longleftrightarrow>
     plain_key (ri_name i) \<and>
     (\<forall>v. checked_provenance_version (ri_provenance i) = Some v \<longrightarrow> plain_key (version_str v))"

lemma key_name_version:
  assumes "p @ '':'' @ n @ ''@'' @ v = q @ '':'' @ m @ ''@'' @ w" and "plain_key n" "plain_key m" "plain_key v" "plain_key w"
  shows "n = m"
proof -
  have "(p @ '':'' @ n) @ CHR ''@'' # v = (q @ '':'' @ m) @ CHR ''@'' # w" using assms(1) by simp
  then have "p @ CHR '':'' # n = q @ CHR '':'' # m"
    using last_split[of "p @ '':'' @ n" "CHR ''@''" v] assms(4,5) by (simp add: plain_key_def)
  then show ?thesis using last_split[of p "CHR '':''" n q m] assms(2,3) by (simp add: plain_key_def)
qed

lemma key_name:
  assumes "p @ '':'' @ n = q @ '':'' @ m" and "plain_key n" "plain_key m"
  shows "n = m"
  using last_split[of p "CHR '':''" n q m] assms by (simp add: plain_key_def)

text \<open>A key ends in the name, with or without a version after it.\<close>

fun key_parts :: "release_identity \<Rightarrow> string \<times> string option" where
  "key_parts i =
     (case ri_provenance i of
        RBasePackage v \<Rightarrow> (''r-base'', Some (version_str v))
      | RegistryRelease ns v \<Rightarrow> (''registry:'' @ ns @ '':'', Some (version_str v))
      | GitCommit repository commit subdirectory \<Rightarrow>
          (''git:'' @ repository @ ''@'' @ gc_hex commit @ '':'' @ (case subdirectory of Some s \<Rightarrow> s | None \<Rightarrow> []) @ '':'', None)
      | BioconductorRelease ns release v \<Rightarrow> (''bioconductor:'' @ ns @ '':'' @ release @ '':'', Some (version_str v))
      | ImmutableSource scheme digest \<Rightarrow> (''immutable:'' @ scheme @ '':'' @ digest @ '':'', None))"

declare key_parts.simps [simp del]

lemma identity_key_parts:
  "artifact_identity_key i = fst (key_parts i) @ '':'' @ ri_name i
     @ (case snd (key_parts i) of Some v \<Rightarrow> ''@'' @ v | None \<Rightarrow> [])"
  by (simp add: artifact_identity_key.simps key_parts.simps split: provenance.split)

lemma key_parts_kind: "artifact_identity_key i = artifact_identity_key j \<Longrightarrow> (snd (key_parts i) = None) = (snd (key_parts j) = None)"
  by (auto simp: artifact_identity_key.simps key_parts.simps split: provenance.splits)

lemma key_parts_version: "key_ok i \<Longrightarrow> snd (key_parts i) = Some v \<Longrightarrow> plain_key v"
  by (auto simp: key_ok_def key_parts.simps checked_provenance_version_def split: provenance.splits)

lemma identity_key_name:
  assumes "artifact_identity_key i = artifact_identity_key j" and "key_ok i" and "key_ok j"
  shows "ri_name i = ri_name j"
proof (cases "snd (key_parts i)")
  case None
  then have "snd (key_parts j) = None" using key_parts_kind[OF assms(1)] by simp
  then show ?thesis
    using key_name[of "fst (key_parts i)" "ri_name i" "fst (key_parts j)" "ri_name j"] None assms
    by (simp add: identity_key_parts key_ok_def)
next
  case (Some v)
  then obtain w where "snd (key_parts j) = Some w" using key_parts_kind[OF assms(1)] by auto
  then show ?thesis
    using key_name_version[of "fst (key_parts i)" "ri_name i" v "fst (key_parts j)" "ri_name j" w] Some assms
      key_parts_version[OF assms(2)] key_parts_version[OF assms(3)]
    by (simp add: identity_key_parts key_ok_def)
qed

section \<open>Committed repositories\<close>

lemma find_member: "x \<in> set xs \<Longrightarrow> P x \<Longrightarrow> \<exists>y. find P xs = Some y \<and> P y \<and> y \<in> set xs"
  by (induction xs) auto

lemma committed_ok:
  assumes pub: "publishing env names tree state requested" and inputs: "validate_inputs requested = Inr ()"
    and keys: "\<forall>a\<in>set requested. key_ok (ma_identity a)"
    and cached: "\<forall>a\<in>set requested. verify_cache_object env (ma_artifact a) = Inr ()"
    and d: "map_of d state_name = Some (state_file env state)" "map_of d repository_name = Some tree"
  shows "check_committed env d requested = Inr state"
proof -
  have env: "env_ok env names state" and schema: "ms_schema_version state = 2"
    and records: "records_match_requested (ms_records state) requested"
    and digest: "validate_index_digest env (transaction_of names state) requested = Inr ()"
    and tree: "validate_repository_contents env (Some tree) (ms_records state) (ms_index_sha256 state) = Inr ()"
    using pub by (simp_all add: publishing_def)
  let ?as = "canonical_artifacts requested"
  let ?contrib = "child (child (Some tree) ''src'') ''contrib''"
  have len: "length (ms_records state) = length ?as" and each_match: "\<forall>(a, r)\<in>set (zip ?as (ms_records state)). record_matches a r"
    using records by (auto simp: records_match_requested_def Let_def list_all_iff)
  have "validate_existing_artifact env state (Some tree) a = Inr ()" if a: "a \<in> set requested" for a
  proof -
    obtain i where i: "i < length ?as" "?as ! i = a" using a canonical_members(1) by (metis in_set_conv_nth)
    then have ri: "record_matches a (ms_records state ! i)" "ms_records state ! i \<in> set (ms_records state)"
      using each_match len by (auto simp: set_zip)
    let ?P = "\<lambda>r. mr_identity r = artifact_identity_key (ma_identity a) \<and> mr_artifact_sha256 r = ca_sha256 (ma_artifact a)"
    have "?P (ms_records state ! i)" using ri(1) by (simp add: record_matches_def)
    then obtain r where r: "find ?P (ms_records state) = Some r" "?P r" "r \<in> set (ms_records state)"
      using ri(2) find_member[of "ms_records state ! i" "ms_records state" ?P] by blast
    obtain j where j: "j < length (ms_records state)" "ms_records state ! j = r" using r(3) by (metis in_set_conv_nth)
    then have match: "record_matches (?as ! j) r" using each_match len by (auto simp: set_zip)
    have "?as ! j \<in> set requested" using j(1) len canonical_members(1) nth_mem by metis
    then have "ma_package (?as ! j) = ma_package a"
      using identity_key_name[of "ma_identity (?as ! j)" "ma_identity a"] keys a match r(2)
      by (simp add: record_matches_def ma_package_def)
    then have "?as ! j = a"
      using canonical_distinct[OF validate_inputs_Inr(1)[OF inputs]] \<open>?as ! j \<in> set requested\<close> a canonical_members(1)
      by (metis distinct_map inj_onD)
    then have ra: "record_matches a r" using match by simp
    have "validate_record env ?contrib r = Inr ()"
      using tree r(3) by (auto simp: validate_repository_contents_def Let_def bind_res_Inr_iff each_Inr_iff split: if_splits)
    then have "is_regular (child ?contrib (artifact_file a))"
        "hash_hex env (file_bytes (child ?contrib (artifact_file a))) = ca_sha256 (ma_artifact a)"
      using ra by (auto simp: validate_record_def record_matches_def Let_def split: if_splits)
    then show ?thesis
      using r(1) ra cached a by (simp add: validate_existing_artifact_def record_matches_def)
  qed
  then have "validate_existing_state env state requested (Some tree) = Inr ()"
    using schema len canonical_members(2) by (auto simp: validate_existing_state_def each_Inr_iff)
  moreover obtain packages where "write_packages (me_strftime env) requested = Inr packages" "hash_hex env packages = ms_index_sha256 state"
    using digest by (auto simp: validate_index_digest_def transaction_of_def bind_res_Inr_iff split: if_splits)
  ultimately show ?thesis
    using d read_state_file[OF env d(1)] tree by (simp add: check_committed_def)
qed

text \<open>
  A run that stopped after \<open>k\<close> operations, with its temporary state written, is completed by the next
  one: it performs the operations that are missing and returns the state.
\<close>

lemma interrupted_run:
  assumes inputs: "validate_inputs requested = Inr ()" and "env_ok env names state" "names_ok names" "nonce_ok nonce"
    and keys: "\<forall>a\<in>set requested. key_ok (ma_identity a)"
    and build: "build_repository env names requested = Inr (state, ops)"
    and m: "unpublished (map_of d)" "sorted_dir d" and k: "2 \<le> k"
  shows "\<exists>rest. materialize_locked env nonce names' (run_ops (take k ops) d) requested = Inr (state, rest) \<and>
    run_ops rest (run_ops (take k ops) d) = run_ops ops d \<and> (2 < k \<longrightarrow> rest = drop k ops)"
proof -
  obtain tree where ops: "ops = publication_ops env names tree state" and pub: "publishing env names tree state requested"
    using build_repository_publishing[OF build inputs assms(2,3)] by blast
  have d: "holds d (map_of d)" using m(2) by (simp add: holds_def)
  have len: "length ops = 7" by (simp add: ops publication_ops_def)
  define j where "j = min k 7"
  have j: "2 \<le> j" "j \<le> 7" "take k ops = take j ops" "drop k ops = drop j ops" "2 < k \<longrightarrow> 2 < j"
    using k len by (auto simp: j_def min_def)
  let ?d = "run_ops (take j ops) d"
  have dj: "holds ?d (map_of d ++ phase j env names tree state)"
    unfolding ops by (rule phase_reached[OF assms(3) m(1) d j(2)])
  obtain rest where rest: "recover env nonce ?d requested = Inr rest"
      "holds (run_ops rest ?d) (map_of d ++ phase 7 env names tree state)" "2 < j \<longrightarrow> rest = drop j ops"
    using recover_phase[OF pub m(1) dj j(1,2) assms(4)] unfolding ops by blast
  have "holds (run_ops (take 7 ops) d) (map_of d ++ phase 7 env names tree state)"
    unfolding ops by (rule phase_reached[OF assms(3) m(1) d]) simp
  then have final: "run_ops rest ?d = run_ops ops d" using holds_unique[OF rest(2)] len by simp
  have entries: "map_of (run_ops rest ?d) state_name = Some (state_file env state)" "map_of (run_ops rest ?d) repository_name = Some tree"
    using phase_entries(2,3)[OF assms(3) m(1) rest(2)] by simp_all
  have "verify_cache_object env (ma_artifact a) = Inr ()" if "a \<in> set requested" for a
    using build materialize_files_Inr[of env "[]" "canonical_artifacts requested"] that canonical_members(1)
    by (fastforce simp: build_repository_def Let_def bind_res_Inr_iff map_res_Inr_iff sorted_dir_def)
  then have "check_committed env (run_ops rest ?d) requested = Inr state"
    using committed_ok[OF pub inputs keys _ entries] by blast
  then have "materialize_locked env nonce names' ?d requested = Inr (state, rest)"
    using inputs rest(1) entries(1) by (simp add: materialize_locked_def Let_def)
  then show ?thesis using final rest(3) j(3-5) by auto
qed

text \<open>A run that stopped with only its staging directory written is reported, and nothing is touched.\<close>

lemma interrupted_staging:
  assumes inputs: "validate_inputs requested = Inr ()" and env: "env_ok env names state" and names: "names_ok names"
    and build: "build_repository env names requested = Inr (state, ops)"
    and m: "unpublished (map_of d)" "sorted_dir d"
  shows "materialize_locked env nonce names' (run_ops (take 1 ops) d) requested
    = Inl (TransactionConflict ''.rsolve'' ''orphaned transaction temporaries are ambiguous'')"
proof -
  obtain tree where ops: "ops = publication_ops env names tree state"
    using build_repository_publishing[OF build inputs env names] by blast
  let ?d = "run_ops (take 1 ops) d"
  have d: "holds d (map_of d)" using m(2) by (simp add: holds_def)
  have d1: "holds ?d (map_of d ++ phase 1 env names tree state)"
    unfolding ops by (rule phase_reached[OF names m(1) d]) simp
  have staging: "phase 1 env names tree state n \<noteq> None \<longleftrightarrow> n = tn_staging names" for n
    by (simp add: phase.simps)
  have "map_of ?d transaction_name = None"
    using d1 m(1) names_distinct(6)[OF names] by (auto simp: holds_def phase.simps unpublished_def)
  moreover have "partial_paths ?d state_prefix = []"
    using temp_paths[OF d1 m(1), of state_prefix] names_facts(8)[OF names] unfolding staging by simp
  moreover have "partial_paths ?d staging_prefix = [tn_staging names]"
    using temp_paths[OF d1 m(1), of staging_prefix] names_facts(3)[OF names] unfolding staging by (simp cong: conj_cong)
  ultimately have "recover env nonce ?d requested
    = Inl (TransactionConflict ''.rsolve'' ''orphaned transaction temporaries are ambiguous'')"
    by (simp add: recover_def reconstruct_def Let_def)
  then show ?thesis using inputs by (simp add: materialize_locked_def)
qed

end
