(* ===== verification/Artifact_Cache.thy ===== *)
theory Artifact_Cache
  imports Repository_Index
begin

text \<open>
  \<^verbatim>\<open>rsolve-repository/src/lib.rs\<close>, \<^verbatim>\<open>metadata.rs\<close>, \<^verbatim>\<open>input.rs\<close>, \<^verbatim>\<open>object.rs\<close> and \<^verbatim>\<open>paths.rs\<close>: the cache of source
  archives.  A reader is the list of chunks it delivers; the digests are the arguments \<open>sha\<close> and \<open>md5\<close>; files are
  a map from paths to bytes, and \<open>fault\<close> says which call of \<^verbatim>\<open>PublishFs\<close> fails.
\<close>

section \<open>Errors\<close>

datatype cache_error =
    CacheIo string string string
  | UnsupportedChecksum string
  | MalformedChecksum string string
  | ConflictingChecksum string
  | ChecksumMismatch string string string
  | SizeMismatch nat nat
  | InputTooLarge nat
  | InvalidCacheMetadata string string
  | CorruptObject string string string
  | ReplacementRecovery string string string string
  | ObjectConflict string
  | InvalidArchive string
  | MissingDescription
  | DuplicateDescription
  | DescriptionTooLarge nat
  | MalformedDescription string
  | DuplicateDescriptionField string
  | DescriptionFieldMismatch string string string

fun cache_error_display :: "cache_error \<Rightarrow> string" where
  "cache_error_display (CacheIo operation path e) = ''failed to '' @ operation @ '' '' @ path @ '': '' @ e"
| "cache_error_display (UnsupportedChecksum algorithm) =
     ''unsupported upstream checksum algorithm `'' @ algorithm @ ''`''"
| "cache_error_display (MalformedChecksum algorithm v) = ''malformed '' @ algorithm @ '' checksum `'' @ v @ ''`''"
| "cache_error_display (ConflictingChecksum algorithm) =
     ''conflicting upstream '' @ algorithm @ '' checksum declarations''"
| "cache_error_display (ChecksumMismatch algorithm expected actual) =
     algorithm @ '' checksum mismatch: expected '' @ expected @ '', got '' @ actual"
| "cache_error_display (SizeMismatch expected actual) =
     ''artifact size mismatch: expected '' @ show_nat expected @ '', got '' @ show_nat actual"
| "cache_error_display (InputTooLarge limit) =
     ''compressed input exceeds the configured '' @ show_nat limit @ ''-byte limit''"
| "cache_error_display (InvalidCacheMetadata path reason) =
     ''cache metadata is invalid at '' @ path @ '': '' @ reason"
| "cache_error_display (CorruptObject path expected actual) =
     ''cache object is corrupt at '' @ path @ '': expected '' @ expected @ '', got '' @ actual"
| "cache_error_display (ReplacementRecovery object quarantine replacement restore) =
     ''failed to publish replacement object at '' @ object @ '': '' @ replacement
     @ ''; the corrupt object was retained at '' @ quarantine @ '', but restoring it failed: '' @ restore"
| "cache_error_display (ObjectConflict path) = ''cache object path already contains different bytes: '' @ path"
| "cache_error_display (InvalidArchive reason) =
     ''source artifact is not a readable gzip tar archive (or exceeds the 256 MiB/100k-entry sanity limits): '' @ reason"
| "cache_error_display MissingDescription = ''source archive is missing its required Package/DESCRIPTION entry''"
| "cache_error_display DuplicateDescription = ''source archive contains duplicate Package/DESCRIPTION entries''"
| "cache_error_display (DescriptionTooLarge limit) =
     ''source archive DESCRIPTION is too large (limit '' @ show_nat limit @ '' bytes)''"
| "cache_error_display (MalformedDescription reason) = ''source archive DESCRIPTION is malformed: '' @ reason"
| "cache_error_display (DuplicateDescriptionField name) =
     ''source archive DESCRIPTION contains duplicate `'' @ name @ ''` fields''"
| "cache_error_display (DescriptionFieldMismatch name expected actual) =
     ''source archive DESCRIPTION field '' @ name @ '' mismatch: expected '' @ expected @ '', got '' @ actual"

section \<open>Checksums\<close>

record checksums =
  ck_md5 :: "string option"
  ck_sha256 :: "sha256_digest option"

definition validate_md5 :: "string \<Rightarrow> cache_error + unit" where
  "validate_md5 v =
     (if length v \<noteq> 32 \<or> \<not> list_all is_ascii_hexdigit v then Inl (MalformedChecksum ''md5'' v) else Inr ())"

fun checksum_step :: "checksums \<Rightarrow> upstream_checksum \<Rightarrow> cache_error + checksums" where
  "checksum_step c (Md5 v) =
     bind_res (validate_md5 v) (\<lambda>_.
       let canonical = map to_ascii_lowercase v in
       case ck_md5 c of
         Some existing \<Rightarrow>
           if existing \<noteq> canonical then Inl (ConflictingChecksum ''md5'') else Inr (c\<lparr>ck_md5 := Some canonical\<rparr>)
       | None \<Rightarrow> Inr (c\<lparr>ck_md5 := Some canonical\<rparr>))"
| "checksum_step c (Sha256Sum v) =
     (case ck_sha256 c of
        Some existing \<Rightarrow>
          if existing \<noteq> v then Inl (ConflictingChecksum ''sha256'') else Inr (c\<lparr>ck_sha256 := Some v\<rparr>)
      | None \<Rightarrow> Inr (c\<lparr>ck_sha256 := Some v\<rparr>))"
| "checksum_step c (OtherSum algorithm _) =
     (let lower_name = map to_ascii_lowercase algorithm in
      if lower_name = ''md5'' then Inl (MalformedChecksum ''md5'' ''unsupported declaration shape'')
      else if lower_name = ''sha256'' \<or> lower_name = ''sha-256''
      then Inl (MalformedChecksum ''sha256'' ''unsupported declaration shape'')
      else Inl (UnsupportedChecksum algorithm))"

definition validate_checksums :: "upstream_checksum list \<Rightarrow> cache_error + checksums" where
  "validate_checksums cs = try_fold checksum_step \<lparr>ck_md5 = None, ck_sha256 = None\<rparr> cs"

definition strength_text :: "checksums \<Rightarrow> string" where
  "strength_text c =
     (case (ck_md5 c, ck_sha256 c) of
        (None, None) \<Rightarrow> ''none''
      | (Some _, None) \<Rightarrow> ''upstream-md5''
      | (None, Some _) \<Rightarrow> ''upstream-sha256''
      | (Some _, Some _) \<Rightarrow> ''upstream-md5-and-sha256'')"

section \<open>Descriptor keys\<close>

record git_provenance_expectation =
  ge_repository :: normalized_git_url
  ge_commit :: git_commit_id
  ge_subdirectory :: "repository_subdir option"

record artifact_validation_expectation =
  ae_package :: package_name
  ae_version :: r_package_version
  ae_git_provenance :: "git_provenance_expectation option"

definition le_field :: "bytes \<Rightarrow> bytes" where
  "le_field v = to_le_bytes (word_of_nat (length v)) @ v"

definition u32_le_bytes :: "u32 \<Rightarrow> bytes" where
  "u32_le_bytes w = take 4 (to_le_bytes (ucast w))"

definition descriptor_fields :: "source_artifact \<Rightarrow> checksums \<Rightarrow> bytes list" where
  "descriptor_fields a c =
     [sa_locator a, case ck_md5 c of Some v \<Rightarrow> v | None \<Rightarrow> [], case ck_sha256 c of Some v \<Rightarrow> v | None \<Rightarrow> [],
      case sa_size a of Some n \<Rightarrow> show_nat (unat n) | None \<Rightarrow> []]"

definition expectation_fields :: "artifact_validation_expectation \<Rightarrow> bytes list" where
  "expectation_fields e =
     [ae_package e, ''version-components'', to_le_bytes (word_of_nat (canonical_component_count (ae_version e)))]
     @ map u32_le_bytes (take (canonical_component_count (ae_version e)) (version_components (ae_version e)))
     @ (case ae_git_provenance e of
          Some g \<Rightarrow> [''git'', ge_repository g, gc_hex (ge_commit g), case ge_subdirectory g of Some s \<Rightarrow> s | None \<Rightarrow> []]
        | None \<Rightarrow> [''registry''])"

definition descriptor_key :: "(bytes \<Rightarrow> bytes) \<Rightarrow> source_artifact \<Rightarrow> checksums \<Rightarrow> string" where
  "descriptor_key sha a c =
     hex_string (sha (''rsolve/source-artifact/v1'' @ [CHR 0x00] @ concat (map le_field (descriptor_fields a c))))"

definition descriptor_key_with_expectation ::
  "(bytes \<Rightarrow> bytes) \<Rightarrow> source_artifact \<Rightarrow> checksums \<Rightarrow> artifact_validation_expectation option \<Rightarrow> string" where
  "descriptor_key_with_expectation sha a c expectation =
     (case expectation of
        None \<Rightarrow> descriptor_key sha a c
      | Some e \<Rightarrow>
          hex_string (sha (''rsolve/source-artifact/identity/v2'' @ [CHR 0x00]
            @ concat (map le_field (descriptor_fields a c @ expectation_fields e)))))"

section \<open>Reading the input\<close>

text \<open>
  \<^verbatim>\<open>copy_compressed_input\<close>.  A call of \<^verbatim>\<open>read\<close> with room for \<open>n\<close> bytes takes at most \<open>n\<close> bytes of the next chunk; an
  empty chunk, or the end of the list, is the end of the stream.  Sizes are 64-bit and saturate.
\<close>

definition saturating_add :: "nat \<Rightarrow> nat \<Rightarrow> nat" where
  "saturating_add a b = min (a + b) (2 ^ 64 - 1)"

fun read_chunk :: "nat \<Rightarrow> (string + bytes) list \<Rightarrow> (string + bytes) \<times> (string + bytes) list" where
  "read_chunk capacity [] = (Inr [], [])"
| "read_chunk capacity (Inl e # chunks) = (Inl e, chunks)"
| "read_chunk capacity (Inr b # chunks) =
     (Inr (take capacity b), if length b \<le> capacity then chunks else Inr (drop capacity b) # chunks)"

definition unread :: "(string + bytes) list \<Rightarrow> nat" where
  "unread chunks = length (concat (map (\<lambda>c. case c of Inl _ \<Rightarrow> [] | Inr b \<Rightarrow> b) chunks))"

definition read_capacity :: "nat \<Rightarrow> nat \<Rightarrow> nat" where
  "read_capacity limit amount = (if amount \<ge> limit then 1 else min (limit - amount) (64 * 1024))"

lemma read_chunk_less:
  assumes "read_chunk capacity chunks = (Inr b, rest)" and "b \<noteq> []"
  shows "unread rest < unread chunks"
proof (cases chunks)
  case (Cons c cs)
  then show ?thesis using assms by (cases c) (auto simp: unread_def)
qed (use assms in simp)

function copy_input ::
  "nat option \<Rightarrow> nat \<Rightarrow> string \<Rightarrow> nat \<Rightarrow> bytes \<Rightarrow> (string + bytes) list \<Rightarrow> (cache_error + nat) \<times> bytes" where
  "copy_input expected hard_limit path amount output chunks =
     (let limit = (case expected of Some e \<Rightarrow> e | None \<Rightarrow> hard_limit) in
      case read_chunk (read_capacity limit amount) chunks of
        (Inl e, _) \<Rightarrow> (Inl (CacheIo ''read artifact stream'' path e), output)
      | (Inr b, rest) \<Rightarrow>
          if b = [] then
            ((case expected of Some e \<Rightarrow> if amount \<noteq> e then Inl (SizeMismatch e amount) else Inr amount | None \<Rightarrow> Inr amount), output)
          else if amount \<ge> limit then
            ((case expected of
                Some e \<Rightarrow> Inl (SizeMismatch e (saturating_add amount (length b)))
              | None \<Rightarrow> Inl (InputTooLarge hard_limit)), output @ b)
          else copy_input expected hard_limit path (saturating_add amount (length b)) (output @ b) rest)"
  by pat_completeness auto
termination
  by (relation "measure (\<lambda>(expected, hard_limit, path, amount, output, chunks). unread chunks)")
    (auto dest: read_chunk_less [OF sym])

declare copy_input.simps [simp del]

definition max_compressed_input_bytes :: nat where
  "max_compressed_input_bytes = 2 ^ 30"

definition copy_compressed_input :: "u64 option \<Rightarrow> string \<Rightarrow> (string + bytes) list \<Rightarrow> (cache_error + nat) \<times> bytes" where
  "copy_compressed_input expected path chunks =
     copy_input (map_option unat expected) max_compressed_input_bytes path 0 [] chunks"

section \<open>Objects\<close>

type_synonym store = "string \<rightharpoonup> bytes"

definition validate_object ::
  "(bytes \<Rightarrow> bytes) \<Rightarrow> store \<Rightarrow> string \<Rightarrow> sha256_digest \<Rightarrow> nat \<Rightarrow> cache_error + unit" where
  "validate_object sha files path expected expected_size =
     (case files path of
        None \<Rightarrow> Inl (CacheIo ''open cache object'' path ''no such file'')
      | Some b \<Rightarrow>
          if min (length b) (2 ^ 64 - 1) \<noteq> expected_size \<or> hex_string (sha b) \<noteq> expected
          then Inl (CorruptObject path expected (hex_string (sha b))) else Inr ())"

definition checksum_matches :: "string \<Rightarrow> string option \<Rightarrow> string \<Rightarrow> cache_error + unit" where
  "checksum_matches algorithm expected actual =
     (case expected of
        Some e \<Rightarrow> if e \<noteq> actual then Inl (ChecksumMismatch algorithm e actual) else Inr ()
      | None \<Rightarrow> Inr ())"

definition validate_object_full ::
  "(bytes \<Rightarrow> bytes) \<Rightarrow> (bytes \<Rightarrow> bytes) \<Rightarrow> store \<Rightarrow> string \<Rightarrow> sha256_digest \<Rightarrow> checksums \<Rightarrow> nat \<Rightarrow> cache_error + unit" where
  "validate_object_full sha md5 files path expected c expected_size =
     (case files path of
        None \<Rightarrow> Inl (CacheIo ''open cache object'' path ''no such file'')
      | Some b \<Rightarrow>
          let amount = min (length b) (2 ^ 64 - 1); actual = hex_string (sha b) in
          if amount \<noteq> expected_size then Inl (SizeMismatch expected_size amount)
          else if actual \<noteq> expected then Inl (CorruptObject path expected actual)
          else bind_res (checksum_matches ''sha256'' (ck_sha256 c) actual)
                 (\<lambda>_. checksum_matches ''md5'' (ck_md5 c) (hex_string (md5 b))))"

text \<open>Calls of \<^verbatim>\<open>PublishFs\<close>: \<open>fault\<close> is the error a call ends with, if it fails.\<close>

datatype publish_call = RenameFile string string | RemoveFile string

definition rename_file :: "string \<Rightarrow> string \<Rightarrow> store \<Rightarrow> store" where
  "rename_file source target files = files(source := None, target := files source)"

definition publish_object ::
  "(bytes \<Rightarrow> bytes) \<Rightarrow> (publish_call \<Rightarrow> string option) \<Rightarrow> string \<Rightarrow> string \<Rightarrow> string \<Rightarrow> sha256_digest \<Rightarrow> nat \<Rightarrow> store \<Rightarrow>
   (cache_error + unit) \<times> store" where
  "publish_object sha fault corrupt partial_path object expected expected_size files =
     (let discard = (\<lambda>fs. if fault (RemoveFile partial_path) = None then fs(partial_path := None) else fs) in
      if files object \<noteq> None then
        (if is_ok (validate_object sha files object expected expected_size) then
           (case fault (RemoveFile partial_path) of
              Some e \<Rightarrow> (Inl (CacheIo ''remove losing partial'' partial_path e), files)
            | None \<Rightarrow> (Inr (), files(partial_path := None)))
         else case fault (RenameFile object corrupt) of
           Some e \<Rightarrow> (Inl (CacheIo ''quarantine corrupt artifact object'' object e), discard files)
         | None \<Rightarrow>
             let quarantined = rename_file object corrupt files in
             (case fault (RenameFile partial_path object) of
                Some replacement \<Rightarrow>
                  let discarded = discard quarantined in
                  if discarded object = None then
                    (case fault (RenameFile corrupt object) of
                       Some restore \<Rightarrow> (Inl (ReplacementRecovery object corrupt replacement restore), discarded)
                     | None \<Rightarrow> (Inl (CacheIo ''publish replacement artifact object'' object replacement),
                                rename_file corrupt object discarded))
                  else (Inl (CacheIo ''publish replacement artifact object'' object replacement), discarded)
              | None \<Rightarrow>
                  let published = rename_file partial_path object quarantined in
                  (case fault (RemoveFile corrupt) of
                     Some e \<Rightarrow> (Inl (CacheIo ''remove quarantined corrupt artifact object'' corrupt e), published)
                   | None \<Rightarrow> (Inr (), published(corrupt := None)))))
      else case fault (RenameFile partial_path object) of
        Some e \<Rightarrow> (Inl (CacheIo ''publish artifact object'' object e), discard files)
      | None \<Rightarrow> (Inr (), rename_file partial_path object files))"

section \<open>Metadata\<close>

record metadata_file =
  mf_version :: u32
  mf_descriptor_key :: string
  mf_object_sha256 :: string
  mf_size :: u64
  mf_upstream_md5 :: "string option"
  mf_upstream_sha256 :: "string option"
  mf_verification_strength :: string

record cache_metadata =
  cm_version :: u32
  cm_descriptor_key :: string
  cm_object_sha256 :: sha256_digest
  cm_size :: u64
  cm_upstream_md5 :: "string option"
  cm_upstream_sha256 :: "sha256_digest option"
  cm_verification_strength :: string

definition metadata_to_file :: "cache_metadata \<Rightarrow> metadata_file" where
  "metadata_to_file m =
     \<lparr>mf_version = cm_version m, mf_descriptor_key = cm_descriptor_key m, mf_object_sha256 = cm_object_sha256 m,
      mf_size = cm_size m, mf_upstream_md5 = cm_upstream_md5 m, mf_upstream_sha256 = cm_upstream_sha256 m,
      mf_verification_strength = cm_verification_strength m\<rparr>"

text \<open>\<^verbatim>\<open>read_metadata\<close>, after the JSON text was read.\<close>

definition read_metadata :: "string \<Rightarrow> metadata_file \<Rightarrow> cache_error + cache_metadata" where
  "read_metadata path f =
     (if mf_version f \<noteq> 1 then Inl (InvalidCacheMetadata path ''unknown metadata version'')
      else
        bind_res (map_err (\<lambda>_. InvalidCacheMetadata path ''invalid object digest'') (sha256_digest_new (mf_object_sha256 f)))
          (\<lambda>object_sha256.
        bind_res
          (case mf_upstream_md5 f of
             Some v \<Rightarrow> map_res (\<lambda>_. Some (map to_ascii_lowercase v)) (validate_md5 v)
           | None \<Rightarrow> Inr None) (\<lambda>md5.
        bind_res
          (transpose (map_option (\<lambda>v.
             map_err (\<lambda>_. InvalidCacheMetadata path ''invalid upstream SHA-256'') (sha256_digest_new v)) (mf_upstream_sha256 f)))
          (\<lambda>sha256.
        if mf_verification_strength f \<noteq> strength_text \<lparr>ck_md5 = md5, ck_sha256 = sha256\<rparr>
        then Inl (InvalidCacheMetadata path ''verification strength does not match checksum fields'')
        else Inr \<lparr>cm_version = mf_version f, cm_descriptor_key = mf_descriptor_key f, cm_object_sha256 = object_sha256,
                  cm_size = mf_size f, cm_upstream_md5 = md5, cm_upstream_sha256 = sha256,
                  cm_verification_strength = mf_verification_strength f\<rparr>))))"

text \<open>\<^verbatim>\<open>CachePaths\<close>: a digest's shard, its object, and the files beside it.\<close>

definition object_dir :: "string \<Rightarrow> string" where
  "object_dir root = root @ ''/objects/sources/sha256''"

definition shard_path :: "string \<Rightarrow> sha256_digest \<Rightarrow> string \<Rightarrow> string" where
  "shard_path root digest name = object_dir root @ ''/'' @ take 2 digest @ ''/'' @ name"

definition object_path :: "string \<Rightarrow> sha256_digest \<Rightarrow> string" where
  "object_path root digest = shard_path root digest digest"

definition final_partial_path :: "string \<Rightarrow> sha256_digest \<Rightarrow> string \<Rightarrow> string" where
  "final_partial_path root digest nonce = shard_path root digest (''.partial.'' @ nonce)"

definition corrupt_path :: "string \<Rightarrow> sha256_digest \<Rightarrow> string \<Rightarrow> string" where
  "corrupt_path root digest nonce = shard_path root digest (''.corrupt.'' @ digest @ ''-'' @ nonce)"

definition metadata_path :: "string \<Rightarrow> string \<Rightarrow> string" where
  "metadata_path root key = root @ ''/artifacts/sources/sha256/'' @ take 2 key @ ''/'' @ key @ ''.json''"

definition cached_artifact_of :: "string \<Rightarrow> string \<Rightarrow> cache_metadata \<Rightarrow> cached_artifact" where
  "cached_artifact_of root key m =
     \<lparr>ca_object_path = object_path root (cm_object_sha256 m), ca_metadata_path = metadata_path root key,
      ca_sha256 = cm_object_sha256 m, ca_size = cm_size m,
      ca_verification =
        (case (cm_upstream_md5 m, cm_upstream_sha256 m) of
           (None, None) \<Rightarrow> NoVerification
         | (Some _, None) \<Rightarrow> UpstreamMd5
         | (None, Some _) \<Rightarrow> UpstreamSha256
         | (Some _, Some _) \<Rightarrow> UpstreamMd5AndSha256)\<rparr>"

section \<open>Hits and misses\<close>

text \<open>
  The state of a cache: its files, and the metadata file of each path as \<^verbatim>\<open>serde_json\<close> decodes it (\<open>Inl\<close> the reason
  why it does not).
\<close>

record artifact_cache =
  ac_files :: store
  ac_metadata :: "string \<rightharpoonup> string + metadata_file"

definition load_hit ::
  "(bytes \<Rightarrow> bytes) \<Rightarrow> (bytes \<Rightarrow> bytes) \<Rightarrow> string \<Rightarrow> string \<Rightarrow> source_artifact \<Rightarrow> checksums \<Rightarrow> artifact_cache \<Rightarrow>
   cache_error + cached_artifact option" where
  "load_hit sha md5 root key a c cache =
     (let path = metadata_path root key in
      case ac_metadata cache path of
        None \<Rightarrow> Inr None
      | Some r \<Rightarrow>
          bind_res (map_err (InvalidCacheMetadata path) r) (\<lambda>f.
          bind_res (read_metadata path f) (\<lambda>m.
          if cm_descriptor_key m \<noteq> key \<or> cm_upstream_md5 m \<noteq> ck_md5 c \<or> cm_upstream_sha256 m \<noteq> ck_sha256 c
          then Inl (InvalidCacheMetadata path ''descriptor does not match the requested artifact'')
          else if (case sa_size a of Some n \<Rightarrow> cm_size m \<noteq> n | None \<Rightarrow> False)
          then Inl (InvalidCacheMetadata path ''metadata size does not match the requested artifact'')
          else map_res (\<lambda>_. Some (cached_artifact_of root key m))
            (validate_object_full sha md5 (ac_files cache) (object_path root (cm_object_sha256 m)) (cm_object_sha256 m) c
              (unat (case sa_size a of Some n \<Rightarrow> n | None \<Rightarrow> cm_size m))))))"

text \<open>
  \<^verbatim>\<open>commit_miss\<close>: what is downloaded is checked before anything is published, and the metadata is written last.
  \<open>archive_ok\<close> is the validation of the archive (\<^verbatim>\<open>archive.rs\<close>), and the three nonces make the names
  of the download, of the file moved into the shard and of a quarantined object unique.
\<close>

definition verify_download ::
  "(bytes \<Rightarrow> bytes) \<Rightarrow> (bytes \<Rightarrow> bytes) \<Rightarrow> (bytes \<Rightarrow> cache_error + unit) \<Rightarrow> source_artifact \<Rightarrow> checksums \<Rightarrow> nat \<Rightarrow> bytes \<Rightarrow>
   cache_error + unit" where
  "verify_download sha md5 archive_ok a c amount b =
     bind_res
       (case sa_size a of
          Some e \<Rightarrow> if unat e \<noteq> amount then Inl (SizeMismatch (unat e) amount) else Inr ()
        | None \<Rightarrow> Inr ()) (\<lambda>_.
     bind_res (checksum_matches ''sha256'' (ck_sha256 c) (hex_string (sha b))) (\<lambda>_.
     bind_res (checksum_matches ''md5'' (ck_md5 c) (hex_string (md5 b))) (\<lambda>_. archive_ok b)))"

fun commit_miss ::
  "(bytes \<Rightarrow> bytes) \<Rightarrow> (bytes \<Rightarrow> bytes) \<Rightarrow> (bytes \<Rightarrow> cache_error + unit) \<Rightarrow> (publish_call \<Rightarrow> string option) \<Rightarrow>
   string \<Rightarrow> string \<Rightarrow> string \<times> string \<times> string \<Rightarrow> source_artifact \<Rightarrow> checksums \<Rightarrow> (string + bytes) list \<Rightarrow> artifact_cache \<Rightarrow>
   (cache_error + cached_artifact) \<times> artifact_cache" where
  "commit_miss sha md5 archive_ok fault root key (nonce, nonce', nonce'') a c chunks cache =
     (let download = object_dir root @ ''/.partial.'' @ nonce in
      case copy_compressed_input (sa_size a) download chunks of
        (Inl e, _) \<Rightarrow> (Inl e, cache)
      | (Inr amount, b) \<Rightarrow>
          (case verify_download sha md5 archive_ok a c amount b of
             Inl e \<Rightarrow> (Inl e, cache)
           | Inr _ \<Rightarrow>
               let actual = hex_string (sha b); object = object_path root actual;
                   final_partial = final_partial_path root actual nonce' in
               (case publish_object sha fault (corrupt_path root actual nonce'') final_partial object actual amount
                       ((ac_files cache)(final_partial \<mapsto> b)) of
                  (Inl e, files) \<Rightarrow> (Inl e, cache\<lparr>ac_files := files(final_partial := None)\<rparr>)
                | (Inr _, files) \<Rightarrow>
                    let m = \<lparr>cm_version = 1, cm_descriptor_key = key, cm_object_sha256 = actual,
                             cm_size = word_of_nat amount, cm_upstream_md5 = ck_md5 c, cm_upstream_sha256 = ck_sha256 c,
                             cm_verification_strength = strength_text c\<rparr> in
                    (Inr (cached_artifact_of root key m),
                     \<lparr>ac_files = files,
                      ac_metadata = (ac_metadata cache)(metadata_path root key \<mapsto> Inr (metadata_to_file m))\<rparr>))))"

declare commit_miss.simps [simp del]

definition commit_artifact ::
  "(bytes \<Rightarrow> bytes) \<Rightarrow> (bytes \<Rightarrow> bytes) \<Rightarrow> (artifact_validation_expectation option \<Rightarrow> bytes \<Rightarrow> cache_error + unit) \<Rightarrow>
   (publish_call \<Rightarrow> string option) \<Rightarrow> string \<Rightarrow> string \<times> string \<times> string \<Rightarrow> source_artifact \<Rightarrow>
   artifact_validation_expectation option \<Rightarrow> (string + bytes) list \<Rightarrow> artifact_cache \<Rightarrow>
   (cache_error + cached_artifact) \<times> artifact_cache" where
  "commit_artifact sha md5 archive_ok fault root nonces a expectation chunks cache =
     (case validate_checksums (sa_upstream_checksums a) of
        Inl e \<Rightarrow> (Inl e, cache)
      | Inr c \<Rightarrow>
          let key = descriptor_key_with_expectation sha a c expectation in
          (case load_hit sha md5 root key a c cache of
             Inl e \<Rightarrow> (Inl e, cache)
           | Inr (Some hit) \<Rightarrow> (Inr hit, cache)
           | Inr None \<Rightarrow>
               commit_miss sha md5 (archive_ok expectation) fault root key nonces a c chunks cache))"

definition probe_artifact ::
  "(bytes \<Rightarrow> bytes) \<Rightarrow> (bytes \<Rightarrow> bytes) \<Rightarrow> string \<Rightarrow> source_artifact \<Rightarrow> artifact_validation_expectation \<Rightarrow> artifact_cache \<Rightarrow>
   cache_error + cached_artifact option" where
  "probe_artifact sha md5 root a expectation cache =
     bind_res (validate_checksums (sa_upstream_checksums a)) (\<lambda>c.
       load_hit sha md5 root (descriptor_key_with_expectation sha a c (Some expectation)) a c cache)"

end
