(* ===== verification/Artifact_Cache_Sound.thy ===== *)
theory Artifact_Cache_Sound
  imports Artifact_Cache
begin

text \<open>
  What the artifact cache promises: the reading loop is compared with a reference on the whole stream, publication
  loses no bytes whichever call fails, and what is committed is a hit from then on.
\<close>

section \<open>The reading loop\<close>

text \<open>The bytes a reader delivers before its end or its first error, and that error.\<close>

fun delivered :: "(string + bytes) list \<Rightarrow> bytes" where
  "delivered (Inr b # chunks) = (if b = [] then [] else b @ delivered chunks)"
| "delivered _ = []"

fun stream_failure :: "(string + bytes) list \<Rightarrow> string option" where
  "stream_failure (Inr b # chunks) = (if b = [] then None else stream_failure chunks)"
| "stream_failure (Inl e # _) = Some e"
| "stream_failure [] = None"

definition whole_input :: "nat option \<Rightarrow> nat \<Rightarrow> string \<Rightarrow> bytes \<Rightarrow> string option \<Rightarrow> (cache_error + nat) \<times> bytes" where
  "whole_input expected hard_limit path b failure =
     (let limit = (case expected of Some e \<Rightarrow> e | None \<Rightarrow> hard_limit) in
      if limit < length b then
        ((case expected of
            Some e \<Rightarrow> Inl (SizeMismatch e (saturating_add e 1))
          | None \<Rightarrow> Inl (InputTooLarge hard_limit)), take (limit + 1) b)
      else case failure of
        Some e \<Rightarrow> (Inl (CacheIo ''read artifact stream'' path e), b)
      | None \<Rightarrow>
          ((case expected of
              Some e \<Rightarrow> if length b \<noteq> e then Inl (SizeMismatch e (length b)) else Inr (length b)
            | None \<Rightarrow> Inr (length b)), b))"

lemma read_capacity_pos: "0 < read_capacity limit amount"
  by (simp add: read_capacity_def)

lemma read_chunk_delivered:
  assumes "read_chunk capacity chunks = (Inr b, rest)" and "0 < capacity"
  shows "delivered chunks = b @ (if b = [] then [] else delivered rest)"
    and "stream_failure chunks = (if b = [] then None else stream_failure rest)"
    and "length b \<le> capacity"
  using assms by (cases "(capacity, chunks)" rule: read_chunk.cases; force)+

lemma read_chunk_failure:
  assumes "read_chunk capacity chunks = (Inl e, rest)"
  shows "delivered chunks = []" and "stream_failure chunks = Some e"
  using assms by (cases "(capacity, chunks)" rule: read_chunk.cases; force)+

lemma copy_input_whole:
  assumes "length acc \<le> (case expected of Some e \<Rightarrow> e | None \<Rightarrow> hard_limit)"
    and "(case expected of Some e \<Rightarrow> e | None \<Rightarrow> hard_limit) < 2 ^ 64"
  shows "copy_input expected hard_limit path (length acc) acc chunks
    = whole_input expected hard_limit path (acc @ delivered chunks) (stream_failure chunks)"
  using assms
proof (induction "unread chunks" arbitrary: acc chunks rule: less_induct)
  case less
  let ?limit = "case expected of Some e \<Rightarrow> e | None \<Rightarrow> hard_limit"
  note pos = read_capacity_pos [of ?limit "length acc"]
  obtain r rest where r: "read_chunk (read_capacity ?limit (length acc)) chunks = (r, rest)" by fastforce
  show ?case
  proof (cases r)
    case (Inl e)
    then show ?thesis
      using r read_chunk_failure [of _ chunks e rest] less.prems(1)
      by (subst copy_input.simps) (simp add: whole_input_def Let_def)
  next
    case (Inr b)
    note got = read_chunk_delivered [OF r [unfolded Inr] pos]
    consider (stop) "b = []" | (over) "b \<noteq> []" "?limit \<le> length acc" | (step) "b \<noteq> []" "length acc < ?limit"
      by linarith
    then show ?thesis
    proof cases
      case stop
      then show ?thesis using r Inr got less.prems(1)
        by (subst copy_input.simps) (simp add: whole_input_def Let_def split: option.splits)
    next
      case over
      then have eq: "?limit = length acc" and one: "length b = 1"
        using got(3) less.prems(1) by (auto simp: read_capacity_def intro: le_antisym simp: Suc_le_eq)
      have "whole_input expected hard_limit path (acc @ delivered chunks) (stream_failure chunks)
        = ((case expected of Some e \<Rightarrow> Inl (SizeMismatch e (saturating_add e 1))
            | None \<Rightarrow> Inl (InputTooLarge hard_limit)), acc @ b)"
        using over(1) got(1) eq one by (simp add: whole_input_def Let_def)
      moreover have "saturating_add (length acc) (length b) = saturating_add e 1" if "expected = Some e" for e
        using that eq one by simp
      ultimately show ?thesis using r Inr over
        by (subst copy_input.simps) (simp add: Let_def split: option.splits)
    next
      case step
      have short: "length (acc @ b) \<le> ?limit"
        using got(3) step(2) unfolding read_capacity_def by simp linarith
      then have sat: "saturating_add (length acc) (length b) = length (acc @ b)"
        using less.prems(2) by (simp add: saturating_add_def)
      have "copy_input expected hard_limit path (length acc) acc chunks
        = copy_input expected hard_limit path (length (acc @ b)) (acc @ b) rest"
        using r Inr step sat by (subst copy_input.simps) (simp add: Let_def)
      also have "\<dots> = whole_input expected hard_limit path ((acc @ b) @ delivered rest) (stream_failure rest)"
        using less.hyps [OF read_chunk_less [OF r [unfolded Inr] step(1)] short less.prems(2)] by simp
      finally show ?thesis using got step(1) by simp
    qed
  qed
qed

lemma copy_compressed_input_whole:
  "copy_compressed_input expected path chunks
    = whole_input (map_option unat expected) max_compressed_input_bytes path (delivered chunks) (stream_failure chunks)"
proof -
  have "(case map_option unat expected of Some e \<Rightarrow> e | None \<Rightarrow> max_compressed_input_bytes) < 2 ^ 64"
    using unsigned_less [of "the expected", where 'a = nat]
    by (auto simp: max_compressed_input_bytes_def split: option.split)
  then show ?thesis
    using copy_input_whole [where acc = "[]" and expected = "map_option unat expected"
      and hard_limit = max_compressed_input_bytes and path = path and chunks = chunks]
    by (simp add: copy_compressed_input_def)
qed

section \<open>Publication\<close>

text \<open>
  The outcome of a publication for any set of failing calls.  \<open>Inr\<close>: the object is valid.  Otherwise nothing that was
  stored is lost: the old bytes are still the object or are quarantined.
\<close>

definition publication_safe ::
  "(bytes \<Rightarrow> bytes) \<Rightarrow> string \<Rightarrow> string \<Rightarrow> sha256_digest \<Rightarrow> nat \<Rightarrow> bytes \<Rightarrow> store \<Rightarrow> (cache_error + unit) \<times> store \<Rightarrow> bool" where
  "publication_safe sha corrupt object expected expected_size b files outcome =
     (case outcome of (r, files') \<Rightarrow>
        (if is_ok r then
           validate_object sha files' object expected expected_size = Inr ()
           \<and> (files' object = Some b \<or> files' object = files object)
         else case files object of
           None \<Rightarrow> files' object = None
         | Some old \<Rightarrow>
             files' object = Some old
             \<or> files' corrupt = Some old \<and> (files' object = Some b \<or> files' object = None)))"

lemma publish_object_safe:
  assumes "object \<noteq> corrupt" and "object \<noteq> partial_path" and "corrupt \<noteq> partial_path"
    and "files partial_path = Some b"
    and "hex_string (sha b) = expected" and "min (length b) (2 ^ 64 - 1) = expected_size"
  shows "publication_safe sha corrupt object expected expected_size b files
    (publish_object sha fault corrupt partial_path object expected expected_size files)"
proof (cases "files object")
  case None
  then show ?thesis
    using assms
    by (cases "fault (RenameFile partial_path object)"; cases "fault (RemoveFile partial_path)")
      (auto simp: publication_safe_def publish_object_def rename_file_def validate_object_def is_ok_def Let_def)
next
  case (Some old)
  show ?thesis
  proof (cases "validate_object sha files object expected expected_size")
    case (Inr u)
    then have "validate_object sha (files(partial_path := None)) object expected expected_size = Inr ()"
      using assms(2) by (simp add: validate_object_def)
    then show ?thesis
      using Some Inr assms
      by (cases "fault (RemoveFile partial_path)") (simp_all add: publication_safe_def publish_object_def is_ok_def)
  next
    case (Inl e)
    then show ?thesis
      using Some assms
      by (cases "fault (RenameFile object corrupt)"; cases "fault (RenameFile partial_path object)";
          cases "fault (RemoveFile partial_path)"; cases "fault (RenameFile corrupt object)";
          cases "fault (RemoveFile corrupt)")
        (simp_all add: publication_safe_def publish_object_def rename_file_def is_ok_def Let_def, simp_all add: validate_object_def)
  qed
qed

section \<open>A committed artifact is a hit\<close>

lemma hex_digest_new:
  assumes "length d = 32"
  shows "sha256_digest_new (hex_string d) = Inr (hex_string d)"
  using hex_string_ok [of d] assms by (simp add: sha256_digest_new_Inr_iff)

definition checksums_ok :: "checksums \<Rightarrow> bool" where
  "checksums_ok c \<longleftrightarrow>
     (case ck_md5 c of Some v \<Rightarrow> validate_md5 v = Inr () \<and> map to_ascii_lowercase v = v | None \<Rightarrow> True)
     \<and> (case ck_sha256 c of Some v \<Rightarrow> sha256_digest_new v = Inr v | None \<Rightarrow> True)"

lemma read_metadata_roundtrip:
  assumes "cm_version m = 1" and "sha256_digest_new (cm_object_sha256 m) = Inr (cm_object_sha256 m)"
    and "checksums_ok \<lparr>ck_md5 = cm_upstream_md5 m, ck_sha256 = cm_upstream_sha256 m\<rparr>"
    and "cm_verification_strength m = strength_text \<lparr>ck_md5 = cm_upstream_md5 m, ck_sha256 = cm_upstream_sha256 m\<rparr>"
  shows "read_metadata path (metadata_to_file m) = Inr m"
  using assms
  by (cases m; cases "cm_upstream_md5 m"; cases "cm_upstream_sha256 m")
    (simp_all add: read_metadata_def metadata_to_file_def checksums_ok_def transpose_def)

lemma checksum_step_ok:
  assumes "checksum_step c v = Inr c'" and "checksums_ok c" and "\<And>d. v = Sha256Sum d \<Longrightarrow> sha256_digest_new d = Inr d"
  shows "checksums_ok c'"
proof (cases v)
  case (Md5 w)
  then have "validate_md5 w = Inr ()" and "c' = c\<lparr>ck_md5 := Some (map to_ascii_lowercase w)\<rparr>"
    using assms(1) by (auto simp: Let_def bind_res_Inr_iff split: option.splits if_splits)
  then show ?thesis
    using assms(2) by (auto simp: checksums_ok_def validate_md5_def list_all_iff split: if_splits)
next
  case (Sha256Sum d)
  then show ?thesis using assms by (auto simp: checksums_ok_def split: option.splits if_splits)
next
  case (OtherSum algorithm w)
  then show ?thesis using assms(1) by (simp add: Let_def split: if_splits)
qed

lemma validate_checksums_ok:
  assumes "validate_checksums cs = Inr c" and "\<And>d. Sha256Sum d \<in> set cs \<Longrightarrow> sha256_digest_new d = Inr d"
  shows "checksums_ok c"
proof -
  have "checksums_ok c" if "try_fold checksum_step c0 cs = Inr c" and "checksums_ok c0" for c0
    using that assms(2)
    by (induction cs arbitrary: c0) (auto simp: bind_res_Inr_iff dest: checksum_step_ok)
  then show ?thesis using assms(1) by (simp add: validate_checksums_def checksums_ok_def)
qed

lemma shard_names:
  assumes "length d = 32"
  shows "object_path root (hex_string d) \<noteq> corrupt_path root (hex_string d) nonce''"
    and "object_path root (hex_string d) \<noteq> final_partial_path root (hex_string d) nonce'"
    and "corrupt_path root (hex_string d) nonce'' \<noteq> final_partial_path root (hex_string d) nonce'"
proof -
  have "hd (hex_string d) \<noteq> CHR ''.''"
    using hex_string_ok(1,2) [of d] assms by (cases "hex_string d") (auto simp: is_ascii_hexdigit_def is_ascii_digit_def byte_val_def)
  then have "hex_string d \<noteq> CHR ''.'' # s" for s by auto
  then show "object_path root (hex_string d) \<noteq> corrupt_path root (hex_string d) nonce''"
    and "object_path root (hex_string d) \<noteq> final_partial_path root (hex_string d) nonce'"
    by (simp_all add: object_path_def corrupt_path_def final_partial_path_def shard_path_def)
  show "corrupt_path root (hex_string d) nonce'' \<noteq> final_partial_path root (hex_string d) nonce'"
    by (simp add: corrupt_path_def final_partial_path_def shard_path_def)
qed

text \<open>What a hit tells of the stored bytes.\<close>

definition stored_artifact ::
  "(bytes \<Rightarrow> bytes) \<Rightarrow> (bytes \<Rightarrow> bytes) \<Rightarrow> source_artifact \<Rightarrow> checksums \<Rightarrow> artifact_cache \<Rightarrow> cached_artifact \<Rightarrow> bool" where
  "stored_artifact sha md5 a c cache hit =
     (case ac_files cache (ca_object_path hit) of
        None \<Rightarrow> False
      | Some b \<Rightarrow>
          hex_string (sha b) = ca_sha256 hit \<and> min (length b) (2 ^ 64 - 1) = unat (ca_size hit)
          \<and> (case sa_size a of Some n \<Rightarrow> ca_size hit = n | None \<Rightarrow> True)
          \<and> (case ck_md5 c of Some v \<Rightarrow> hex_string (md5 b) = v | None \<Rightarrow> True)
          \<and> (case ck_sha256 c of Some v \<Rightarrow> hex_string (sha b) = v | None \<Rightarrow> True))"

lemma validate_object_full_Inr_iff:
  "validate_object_full sha md5 files path expected c expected_size = Inr () \<longleftrightarrow>
     (\<exists>b. files path = Some b \<and> min (length b) (2 ^ 64 - 1) = expected_size \<and> hex_string (sha b) = expected
        \<and> (case ck_sha256 c of Some v \<Rightarrow> v = expected | None \<Rightarrow> True)
        \<and> (case ck_md5 c of Some v \<Rightarrow> v = hex_string (md5 b) | None \<Rightarrow> True))"
  by (auto simp: validate_object_full_def checksum_matches_def Let_def bind_res_Inr_iff split: option.splits if_splits)

lemma load_hit_stored:
  assumes "load_hit sha md5 root key a c cache = Inr (Some hit)"
  shows "stored_artifact sha md5 a c cache hit"
proof -
  obtain m where hit: "hit = cached_artifact_of root key m"
    and sized: "case sa_size a of Some n \<Rightarrow> cm_size m = n | None \<Rightarrow> True"
    and full: "validate_object_full sha md5 (ac_files cache) (object_path root (cm_object_sha256 m)) (cm_object_sha256 m) c
      (unat (case sa_size a of Some n \<Rightarrow> n | None \<Rightarrow> cm_size m)) = Inr ()"
    using assms
    by (auto simp: load_hit_def Let_def bind_res_Inr_iff map_res_Inr_iff split: option.splits if_splits)
  from full obtain b where "ac_files cache (object_path root (cm_object_sha256 m)) = Some b"
    and "min (length b) (2 ^ 64 - 1) = unat (cm_size m)" and "hex_string (sha b) = cm_object_sha256 m"
    and "case ck_sha256 c of Some v \<Rightarrow> v = cm_object_sha256 m | None \<Rightarrow> True"
    and "case ck_md5 c of Some v \<Rightarrow> v = hex_string (md5 b) | None \<Rightarrow> True"
    using sized by (auto simp: validate_object_full_Inr_iff split: option.splits)
  then show ?thesis
    using sized by (auto simp: stored_artifact_def hit cached_artifact_of_def split: option.splits)
qed

lemma whole_input_Inr:
  assumes "copy_compressed_input expected path chunks = (Inr n, b)"
  shows "b = delivered chunks" and "n = length b" and "n < 2 ^ 64"
    and "case expected of Some e \<Rightarrow> n = unat e | None \<Rightarrow> True"
proof -
  show eqs: "b = delivered chunks" "n = length b" "case expected of Some e \<Rightarrow> n = unat e | None \<Rightarrow> True"
    using assms
    by (auto simp: copy_compressed_input_whole whole_input_def Let_def split: option.splits if_splits)
  show "n < 2 ^ 64"
  proof (cases expected)
    case None
    then show ?thesis using assms
      by (auto simp: copy_compressed_input_whole whole_input_def Let_def max_compressed_input_bytes_def
          split: option.splits if_splits)
  next
    case (Some e)
    then show ?thesis using eqs unsigned_less [of e, where 'a = nat] by simp
  qed
qed

text \<open>The stored bytes, if any, are not other bytes with the same digest.\<close>

definition no_collision :: "(bytes \<Rightarrow> bytes) \<Rightarrow> bytes option \<Rightarrow> bytes \<Rightarrow> bool" where
  "no_collision sha present b = (case present of None \<Rightarrow> True | Some x \<Rightarrow> (if sha x = sha b then x = b else True))"

lemma publish_object_Inr:
  assumes "publish_object sha fault (corrupt_path root d nonce'') (final_partial_path root d nonce') (object_path root d) d
      (length b) (files(final_partial_path root d nonce' \<mapsto> b)) = (Inr u, files')"
    and "length (sha b) = 32" and "d = hex_string (sha b)" and "length b < 2 ^ 64"
    and "no_collision sha (files (object_path root d)) b"
  shows "files' (object_path root d) = Some b"
proof -
  have names: "object_path root d \<noteq> corrupt_path root d nonce''" "object_path root d \<noteq> final_partial_path root d nonce'"
    "corrupt_path root d nonce'' \<noteq> final_partial_path root d nonce'"
    unfolding assms(3) by (rule shard_names [OF assms(2)])+
  let ?files = "files(final_partial_path root d nonce' \<mapsto> b)"
  have "publication_safe sha (corrupt_path root d nonce'') (object_path root d) d (length b) b ?files
      (publish_object sha fault (corrupt_path root d nonce'') (final_partial_path root d nonce') (object_path root d) d
        (length b) ?files)"
    using assms(4) by (intro publish_object_safe names) (simp_all add: assms(3))
  then have "publication_safe sha (corrupt_path root d nonce'') (object_path root d) d (length b) b ?files (Inr u, files')"
    unfolding assms(1) .
  then have valid: "validate_object sha files' (object_path root d) d (length b) = Inr ()"
    and either: "files' (object_path root d) = Some b \<or> files' (object_path root d) = files (object_path root d)"
    using names by (simp_all add: publication_safe_def is_ok_def)
  then show ?thesis
    using assms(3,5) by (auto simp: validate_object_def no_collision_def hex_string_inject split: option.splits if_splits)
qed

lemma load_hit_valid:
  assumes "ac_metadata cache (metadata_path root key) = Some (Inr f)"
    and "read_metadata (metadata_path root key) f = Inr m"
    and "cm_descriptor_key m = key" and "cm_upstream_md5 m = ck_md5 c" and "cm_upstream_sha256 m = ck_sha256 c"
    and "case sa_size a of Some e \<Rightarrow> cm_size m = e | None \<Rightarrow> True"
    and "validate_object_full sha md5 (ac_files cache) (object_path root (cm_object_sha256 m)) (cm_object_sha256 m) c
      (unat (cm_size m)) = Inr ()"
  shows "load_hit sha md5 root key a c cache = Inr (Some (cached_artifact_of root key m))"
  using assms by (cases "sa_size a") (simp_all add: load_hit_def)

text \<open>The metadata a miss commits for bytes \<open>b\<close>, and everything a successful miss leaves behind.\<close>

definition committed_metadata :: "(bytes \<Rightarrow> bytes) \<Rightarrow> string \<Rightarrow> checksums \<Rightarrow> bytes \<Rightarrow> cache_metadata" where
  "committed_metadata sha key c b =
     \<lparr>cm_version = 1, cm_descriptor_key = key, cm_object_sha256 = hex_string (sha b), cm_size = word_of_nat (length b),
      cm_upstream_md5 = ck_md5 c, cm_upstream_sha256 = ck_sha256 c, cm_verification_strength = strength_text c\<rparr>"

lemma commit_miss_Inr:
  assumes "commit_miss sha md5 archive_ok fault root key nonces a c chunks cache = (Inr hit, cache')"
    and "length (sha b) = 32" and b: "b = delivered chunks"
    and "no_collision sha (ac_files cache (object_path root (hex_string (sha b)))) b"
  shows "verify_download sha md5 archive_ok a c (length b) b = Inr ()" and "length b < 2 ^ 64"
    and "hit = cached_artifact_of root key (committed_metadata sha key c b)"
    and "ac_metadata cache' (metadata_path root key) = Some (Inr (metadata_to_file (committed_metadata sha key c b)))"
    and "ac_files cache' (object_path root (hex_string (sha b))) = Some b"
proof -
  obtain nonce nonce' nonce'' where nonces: "nonces = (nonce, nonce', nonce'')" by (cases nonces)
  obtain n b0 where copy: "copy_compressed_input (sa_size a) (object_dir root @ ''/.partial.'' @ nonce) chunks = (Inr n, b0)"
    and verified: "verify_download sha md5 archive_ok a c n b0 = Inr ()"
    using assms(1) by (auto simp: nonces commit_miss.simps Let_def split: prod.splits sum.splits)
  note whole = whole_input_Inr [OF copy]
  have b0: "b0 = b" and n: "n = length b" and small: "length b < 2 ^ 64"
    using whole(1-3) by (simp_all add: b)
  show "verify_download sha md5 archive_ok a c (length b) b = Inr ()" and "length b < 2 ^ 64"
    using verified b0 n small by simp_all
  let ?d = "hex_string (sha b)"
  obtain u files' where published:
      "publish_object sha fault (corrupt_path root ?d nonce'') (final_partial_path root ?d nonce') (object_path root ?d) ?d
        (length b) ((ac_files cache)(final_partial_path root ?d nonce' \<mapsto> b)) = (Inr u, files')"
    and hit: "hit = cached_artifact_of root key (committed_metadata sha key c b)"
    and cache': "cache' = \<lparr>ac_files = files', ac_metadata = (ac_metadata cache)(metadata_path root key
        \<mapsto> Inr (metadata_to_file (committed_metadata sha key c b)))\<rparr>"
    using assms(1) copy verified
    by (auto simp: nonces commit_miss.simps Let_def b0 n committed_metadata_def split: prod.splits sum.splits)
  show "hit = cached_artifact_of root key (committed_metadata sha key c b)" by (rule hit)
  show "ac_metadata cache' (metadata_path root key) = Some (Inr (metadata_to_file (committed_metadata sha key c b)))"
    by (simp add: cache')
  show "ac_files cache' (object_path root ?d) = Some b"
    unfolding cache' using publish_object_Inr [OF published assms(2) refl small] assms(4) by simp
qed

lemma verify_download_Inr_iff:
  "verify_download sha md5 archive_ok a c n b = Inr () \<longleftrightarrow>
     (case sa_size a of Some e \<Rightarrow> unat e = n | None \<Rightarrow> True)
     \<and> (case ck_sha256 c of Some v \<Rightarrow> v = hex_string (sha b) | None \<Rightarrow> True)
     \<and> (case ck_md5 c of Some v \<Rightarrow> v = hex_string (md5 b) | None \<Rightarrow> True) \<and> archive_ok b = Inr ()"
  by (auto simp: verify_download_def checksum_matches_def bind_res_Inr_iff split: option.splits if_splits)

lemma miss_then_hit:
  assumes "commit_miss sha md5 archive_ok fault root key nonces a c chunks cache = (Inr hit, cache')"
    and "\<And>x. length (sha x) = 32" and "checksums_ok c"
    and "no_collision sha (ac_files cache (object_path root (hex_string (sha (delivered chunks))))) (delivered chunks)"
  shows "load_hit sha md5 root key a c cache' = Inr (Some hit)"
proof -
  define b where "b = delivered chunks"
  let ?d = "hex_string (sha b)" and ?m = "committed_metadata sha key c b"
  note miss = commit_miss_Inr [OF assms(1) assms(2) b_def assms(4) [folded b_def]]
  have read: "read_metadata (metadata_path root key) (metadata_to_file ?m) = Inr ?m"
    using assms(2,3) by (cases c, intro read_metadata_roundtrip) (simp_all add: committed_metadata_def hex_digest_new)
  have amount: "unat (word_of_nat (length b) :: u64) = length b"
    using miss(2) by (simp add: unsigned_of_nat take_bit_nat_eq_self)
  have "case sa_size a of Some e \<Rightarrow> cm_size ?m = e | None \<Rightarrow> True"
  proof (cases "sa_size a")
    case (Some e)
    then have "unat e = length b" using miss(1) by (simp add: verify_download_Inr_iff)
    then have "word_of_nat (length b) = e" using word_unat_eq_iff amount by metis
    then show ?thesis by (simp add: Some committed_metadata_def)
  qed simp
  moreover have "validate_object_full sha md5 (ac_files cache') (object_path root (cm_object_sha256 ?m)) (cm_object_sha256 ?m) c
      (unat (cm_size ?m)) = Inr ()"
    using miss(1,2,5) amount
    by (auto simp: validate_object_full_Inr_iff verify_download_Inr_iff committed_metadata_def split: option.splits)
  ultimately show ?thesis
    unfolding miss(3) using load_hit_valid [OF miss(4) read] by (simp add: committed_metadata_def)
qed

text \<open>The whole operation: after any successful commit, every later commit of the same artifact is that hit.\<close>

lemma commit_then_hit:
  assumes "commit_artifact sha md5 archive_ok fault root nonces a expectation chunks cache = (Inr hit, cache')"
    and "\<And>x. length (sha x) = 32" and "\<And>d. Sha256Sum d \<in> set (sa_upstream_checksums a) \<Longrightarrow> sha256_digest_new d = Inr d"
    and "no_collision sha (ac_files cache (object_path root (hex_string (sha (delivered chunks))))) (delivered chunks)"
  obtains c where "validate_checksums (sa_upstream_checksums a) = Inr c"
    and "load_hit sha md5 root (descriptor_key_with_expectation sha a c expectation) a c cache' = Inr (Some hit)"
    and "cache' = cache \<or> archive_ok expectation (delivered chunks) = Inr ()
      \<and> ac_files cache' (ca_object_path hit) = Some (delivered chunks)"
proof -
  obtain c where c: "validate_checksums (sa_upstream_checksums a) = Inr c"
    using assms(1) by (auto simp: commit_artifact_def split: sum.splits)
  let ?key = "descriptor_key_with_expectation sha a c expectation"
  consider (hit) "load_hit sha md5 root ?key a c cache = Inr (Some hit)" "cache' = cache"
    | (miss) "commit_miss sha md5 (archive_ok expectation) fault root ?key nonces a c chunks cache = (Inr hit, cache')"
    using assms(1) c by (auto simp: commit_artifact_def Let_def split: sum.splits option.splits)
  then show thesis
  proof cases
    case hit
    with c show ?thesis by (intro that) auto
  next
    case miss
    note stored = commit_miss_Inr [OF miss assms(2) refl assms(4)]
    have "archive_ok expectation (delivered chunks) = Inr ()" using stored(1) by (simp add: verify_download_Inr_iff)
    moreover have "ca_object_path hit = object_path root (hex_string (sha (delivered chunks)))"
      by (simp add: stored(3) cached_artifact_of_def committed_metadata_def)
    ultimately have "archive_ok expectation (delivered chunks) = Inr ()
        \<and> ac_files cache' (ca_object_path hit) = Some (delivered chunks)"
      using stored(5) by metis
    then show ?thesis
      using that [OF c miss_then_hit [OF miss assms(2) validate_checksums_ok [OF c assms(3)] assms(4)]] by blast
  qed
qed

lemma commit_hit:
  assumes "validate_checksums (sa_upstream_checksums a) = Inr c"
    and "load_hit sha md5 root (descriptor_key_with_expectation sha a c expectation) a c cache = Inr (Some hit)"
  shows "commit_artifact sha md5 archive_ok fault root nonces a expectation chunks cache = (Inr hit, cache)"
  using assms by (simp add: commit_artifact_def)

lemma failed_commit_metadata:
  assumes "commit_artifact sha md5 archive_ok fault root nonces a expectation chunks cache = (Inl e, cache')"
  shows "ac_metadata cache' = ac_metadata cache"
  using assms
  by (cases nonces) (auto simp: commit_artifact_def commit_miss.simps Let_def split: sum.splits option.splits prod.splits)

end
