(* ===== verification/Source_Archive.thy ===== *)
theory Source_Archive
  imports Artifact_Cache_Sound
begin

text \<open>
  \<^verbatim>\<open>rsolve-repository/src/archive.rs\<close>: the checks on a source archive before it is published.  Unpacking (gzip and
  tar) is the argument \<open>unpack\<close>, which yields the entries or an error; an entry's data is its bytes and the error its
  reader ends with, if any.
\<close>

section \<open>Entries\<close>

record archive_entry =
  en_path :: "string + string"
  en_is_file :: bool
  en_content :: bytes
  en_failure :: "string option"

text \<open>\<^verbatim>\<open>Path::components\<close> of a Unix path: empty and dot components are dropped, except a leading dot.\<close>

datatype path_component = RootDir | CurDir | ParentDir | NormalPart string

definition path_piece :: "string \<Rightarrow> path_component list" where
  "path_piece s = (if s = [] \<or> s = ''.'' then [] else if s = ''..'' then [ParentDir] else [NormalPart s])"

definition path_parts :: "string \<Rightarrow> path_component list" where
  "path_parts path =
     (if starts_with ''/'' path then [RootDir] else if hd (slash_split path) = ''.'' then [CurDir] else [])
     @ concat (map path_piece (slash_split path))"

definition path_escapes :: "string \<Rightarrow> bool" where
  "path_escapes path \<longleftrightarrow>
     starts_with ''/'' path \<or> list_ex (\<lambda>c. c = ParentDir \<or> c = RootDir) (path_parts path)"

text \<open>\<^verbatim>\<open>Read::take\<close> followed by reading to the end.\<close>

definition read_at_most :: "nat \<Rightarrow> archive_entry \<Rightarrow> string + bytes" where
  "read_at_most n e =
     (if n \<le> length (en_content e) then Inr (take n (en_content e))
      else case en_failure e of Some m \<Rightarrow> Inl m | None \<Rightarrow> Inr (en_content e))"

section \<open>The description\<close>

record description_fields =
  dx_package :: string
  dx_version :: string
  dx_remote_url :: "string option"
  dx_remote_sha :: "string option"
  dx_remote_subdir :: "string option"

text \<open>\<^verbatim>\<open>Utf8Error\<close>: the length of the invalid sequence, \<open>None\<close> when the input ends inside it, and its display.\<close>

fun utf8_error_len :: "nat list \<Rightarrow> nat option" where
  "utf8_error_len [] = None"
| "utf8_error_len (b # bs) =
     (if 0xC2 \<le> b \<and> b \<le> 0xDF then (case bs of [] \<Rightarrow> None | _ \<Rightarrow> Some 1)
      else if 0xE0 \<le> b \<and> b \<le> 0xEF then
        (case bs of
           [] \<Rightarrow> None
         | c # cs \<Rightarrow> if \<not> second_byte_ok b c then Some 1 else (case cs of [] \<Rightarrow> None | _ \<Rightarrow> Some 2))
      else if 0xF0 \<le> b \<and> b \<le> 0xF4 then
        (case bs of
           [] \<Rightarrow> None
         | c # cs \<Rightarrow>
             if \<not> second_byte_ok b c then Some 1
             else (case cs of
                     [] \<Rightarrow> None
                   | d # ds \<Rightarrow> if \<not> continuation d then Some 2 else (case ds of [] \<Rightarrow> None | _ \<Rightarrow> Some 3)))
      else Some 1)"

definition utf8_error_display :: "bytes \<Rightarrow> nat \<Rightarrow> string" where
  "utf8_error_display bs offset =
     (case utf8_error_len (map byte_val (drop offset bs)) of
        Some n \<Rightarrow> ''invalid utf-8 sequence of '' @ show_nat n @ '' bytes from index '' @ show_nat offset
      | None \<Rightarrow> ''incomplete utf-8 byte sequence from index '' @ show_nat offset)"

definition description_keys :: "string list" where
  "description_keys = [''package'', ''version'', ''remoteurl'', ''remotesha'', ''remotesubdir'']"

record description_state =
  dl_values :: "string \<rightharpoonup> string"
  dl_current :: "string option"
  dl_have_field :: bool

definition description_line :: "description_state \<Rightarrow> string \<Rightarrow> cache_error + description_state" where
  "description_line s line =
     (if line \<noteq> [] \<and> hd line = CHR ''#'' then Inr s
      else if trim line = [] then Inr s
      else if (case chars line of p # _ \<Rightarrow> is_whitespace p | [] \<Rightarrow> False) then
        (if \<not> dl_have_field s then Inl (MalformedDescription ''continuation has no preceding field'')
         else case dl_current s of
           None \<Rightarrow> Inr s
         | Some key \<Rightarrow>
             Inr (s\<lparr>dl_values := (dl_values s)(key := map_option (\<lambda>v. v @ '' '' @ trim line) (dl_values s key))\<rparr>))
      else case split_once '':'' line of
        None \<Rightarrow> Inl (MalformedDescription ''field is missing a colon'')
      | Some (name, v) \<Rightarrow>
          let key = map to_ascii_lowercase (trim name) in
          if key = [] \<or> list_ex is_whitespace (chars name) then Inl (MalformedDescription ''field name is malformed'')
          else if key \<notin> set description_keys then Inr (s\<lparr>dl_current := None, dl_have_field := True\<rparr>)
          else if dl_values s key \<noteq> None then Inl (DuplicateDescriptionField key)
          else Inr \<lparr>dl_values = (dl_values s)(key \<mapsto> trim v), dl_current = Some key, dl_have_field = True\<rparr>)"

definition required_value :: "(string \<rightharpoonup> string) \<Rightarrow> string \<Rightarrow> cache_error + string" where
  "required_value vs key =
     (case vs key of
        Some v \<Rightarrow> if v \<noteq> [] then Inr v
                  else Inl (MalformedDescription (''required field '' @ key @ '' is missing or empty''))
      | None \<Rightarrow> Inl (MalformedDescription (''required field '' @ key @ '' is missing or empty'')))"

definition parse_description :: "bytes \<Rightarrow> cache_error + description_fields" where
  "parse_description bs =
     (case utf8_error bs of
        Some offset \<Rightarrow> Inl (MalformedDescription (''DESCRIPTION is not valid UTF-8: '' @ utf8_error_display bs offset))
      | None \<Rightarrow>
          bind_res (try_fold description_line \<lparr>dl_values = Map.empty, dl_current = None, dl_have_field = False\<rparr> (str_lines bs))
            (\<lambda>s.
          bind_res (required_value (dl_values s) ''package'') (\<lambda>package.
          bind_res (required_value (dl_values s) ''version'') (\<lambda>version.
          Inr \<lparr>dx_package = package, dx_version = version, dx_remote_url = dl_values s ''remoteurl'',
               dx_remote_sha = dl_values s ''remotesha'', dx_remote_subdir = dl_values s ''remotesubdir''\<rparr>))))"

definition validate_subdir :: "repository_subdir option \<Rightarrow> string option \<Rightarrow> cache_error + unit" where
  "validate_subdir expected actual =
     (case (expected, actual) of
        (Some e, Some s) \<Rightarrow>
          bind_res (map_err (\<lambda>err. DescriptionFieldMismatch ''RemoteSubdir'' e
              (s @ '' ('' @ repository_subdir_error_display err @ '')'')) (repository_subdir_new s)) (\<lambda>parsed.
            if e \<noteq> parsed then Inl (DescriptionFieldMismatch ''RemoteSubdir'' e parsed) else Inr ())
      | (Some e, None) \<Rightarrow> Inl (DescriptionFieldMismatch ''RemoteSubdir'' e ''<missing>'')
      | (None, Some s) \<Rightarrow> Inl (DescriptionFieldMismatch ''RemoteSubdir'' ''<absent>'' s)
      | (None, None) \<Rightarrow> Inr ())"

definition validate_git ::
  "(string \<Rightarrow> (bool \<times> string) option) \<Rightarrow> git_provenance_expectation \<Rightarrow> description_fields \<Rightarrow> cache_error + unit" where
  "validate_git ip git d =
     bind_res (ok_or (DescriptionFieldMismatch ''RemoteUrl'' (ge_repository git) ''<missing>'') (dx_remote_url d)) (\<lambda>url.
     bind_res (map_err (\<lambda>err. DescriptionFieldMismatch ''RemoteUrl'' (ge_repository git)
         (url @ '' ('' @ normalized_git_url_error_display err @ '')'')) (normalized_git_url_new ip url)) (\<lambda>normalized.
     if normalized \<noteq> ge_repository git
     then Inl (DescriptionFieldMismatch ''RemoteUrl'' (ge_repository git) normalized)
     else
     bind_res (ok_or (DescriptionFieldMismatch ''RemoteSha'' (gc_hex (ge_commit git)) ''<missing>'') (dx_remote_sha d)) (\<lambda>sha.
     bind_res (map_err (\<lambda>err. DescriptionFieldMismatch ''RemoteSha'' (gc_hex (ge_commit git))
         (sha @ '' ('' @ git_commit_id_error_display err @ '')'')) (git_commit_id_new sha)) (\<lambda>parsed.
     if parsed \<noteq> ge_commit git
     then Inl (DescriptionFieldMismatch ''RemoteSha'' (gc_hex (ge_commit git)) (gc_hex parsed))
     else validate_subdir (ge_subdirectory git) (dx_remote_subdir d)))))"

fun reject_present :: "(string \<times> string option) list \<Rightarrow> cache_error + unit" where
  "reject_present [] = Inr ()"
| "reject_present ((name, v) # vs) =
     (case v of Some s \<Rightarrow> Inl (DescriptionFieldMismatch name ''<absent>'' s) | None \<Rightarrow> reject_present vs)"

definition validate_description ::
  "(string \<Rightarrow> (bool \<times> string) option) \<Rightarrow> description_fields \<Rightarrow> artifact_validation_expectation \<Rightarrow> cache_error + unit" where
  "validate_description ip d expected =
     (if dx_package d \<noteq> ae_package expected
      then Inl (DescriptionFieldMismatch ''Package'' (ae_package expected) (dx_package d))
      else
        bind_res (map_err (\<lambda>err. MalformedDescription (''Version is invalid: '' @ r_package_version_error_display err))
            (parse_version (dx_version d))) (\<lambda>actual.
          if \<not> version_eq actual (ae_version expected)
          then Inl (DescriptionFieldMismatch ''Version'' (version_str (ae_version expected)) (dx_version d))
          else case ae_git_provenance expected of
            Some git \<Rightarrow> validate_git ip git d
          | None \<Rightarrow>
              reject_present [(''RemoteUrl'', dx_remote_url d), (''RemoteSha'', dx_remote_sha d),
                (''RemoteSubdir'', dx_remote_subdir d)]))"

section \<open>The scan\<close>

definition max_uncompressed_bytes :: nat where
  "max_uncompressed_bytes = 256 * 1024 * 1024"

definition max_entries :: nat where
  "max_entries = 100000"

definition max_description_bytes :: nat where
  "max_description_bytes = 2 ^ 20"

record archive_scan =
  sc_total :: nat
  sc_entries :: nat
  sc_count :: nat
  sc_description :: "description_fields option"

definition is_description :: "artifact_validation_expectation option \<Rightarrow> string \<Rightarrow> bool" where
  "is_description expectation path =
     (case expectation of
        Some e \<Rightarrow> path_parts path = path_parts (ae_package e @ ''/DESCRIPTION'')
      | None \<Rightarrow> False)"

definition scan_description :: "archive_scan \<Rightarrow> archive_entry \<Rightarrow> cache_error + nat \<times> archive_scan" where
  "scan_description s e =
     (if sc_count s + 1 > 1 then Inl DuplicateDescription
      else if \<not> en_is_file e then Inl (MalformedDescription ''DESCRIPTION entry is not a regular file'')
      else
        bind_res (map_err InvalidArchive (read_at_most (max_description_bytes + 1) e)) (\<lambda>bs.
          if length bs > max_description_bytes then Inl (DescriptionTooLarge max_description_bytes)
          else map_res (\<lambda>d. (length bs, s\<lparr>sc_count := sc_count s + 1, sc_description := Some d\<rparr>)) (parse_description bs)))"

definition archive_step ::
  "artifact_validation_expectation option \<Rightarrow> archive_scan \<Rightarrow> nat \<times> (string + archive_entry) \<Rightarrow> cache_error + archive_scan" where
  "archive_step expectation s item =
     (if fst item \<ge> max_entries then Inl (InvalidArchive ''archive contains too many entries'')
      else
        bind_res (map_err InvalidArchive (snd item)) (\<lambda>e.
        bind_res (map_err InvalidArchive (en_path e)) (\<lambda>path.
        if path_escapes path then Inl (InvalidArchive ''archive entry path escapes its root'')
        else
          let remaining = max_uncompressed_bytes - sc_total s in
          bind_res
            (if is_description expectation path then scan_description s e
             else map_res (\<lambda>bs. (length bs, s)) (map_err InvalidArchive (read_at_most (remaining + 1) e)))
            (\<lambda>(copied, s').
          let total' = saturating_add (sc_total s') copied in
          if copied > remaining \<or> total' > max_uncompressed_bytes
          then Inl (InvalidArchive ''archive exceeds sanity-check size limit'')
          else Inr (s'\<lparr>sc_total := total', sc_entries := sc_entries s' + 1\<rparr>)))))"

definition validate_source_archive ::
  "(string \<Rightarrow> (bool \<times> string) option) \<Rightarrow> (bytes \<Rightarrow> string + (string + archive_entry) list) \<Rightarrow>
   artifact_validation_expectation option \<Rightarrow> bytes \<Rightarrow> cache_error + unit" where
  "validate_source_archive ip unpack expectation archive_bytes =
     bind_res (map_err InvalidArchive (unpack archive_bytes)) (\<lambda>items.
     bind_res
       (try_fold (archive_step expectation)
         \<lparr>sc_total = 0, sc_entries = 0, sc_count = 0, sc_description = None\<rparr> (enumerate 0 items)) (\<lambda>s.
     if sc_entries s = 0 then Inl (InvalidArchive ''archive contains no entries'')
     else case expectation of
       None \<Rightarrow> Inr ()
     | Some e \<Rightarrow> bind_res (ok_or MissingDescription (sc_description s)) (\<lambda>d. validate_description ip d e)))"

section \<open>What an accepted archive is\<close>

text \<open>A relative path without parent references.\<close>

definition stays_below :: "string \<Rightarrow> bool" where
  "stays_below path \<longleftrightarrow> \<not> starts_with ''/'' path \<and> ''..'' \<notin> set (slash_split path)"

lemma path_escapes_iff: "path_escapes path \<longleftrightarrow> \<not> stays_below path"
proof -
  have "ParentDir \<in> set (concat (map path_piece ps)) \<longleftrightarrow> ''..'' \<in> set ps" for ps
    by (induction ps) (auto simp: path_piece_def)
  moreover have "RootDir \<notin> set (concat (map path_piece ps))" for ps
    by (induction ps) (auto simp: path_piece_def)
  ultimately show ?thesis
    by (auto simp: path_escapes_def path_parts_def stays_below_def list_ex_iff)
qed

definition archive_entry_ok :: "artifact_validation_expectation option \<Rightarrow> archive_entry \<Rightarrow> bool" where
  "archive_entry_ok expectation e =
     (en_failure e = None
      \<and> (case en_path e of
           Inl _ \<Rightarrow> False
         | Inr path \<Rightarrow>
             stays_below path
             \<and> (if is_description expectation path
                then en_is_file e \<and> length (en_content e) \<le> max_description_bytes \<and> is_ok (parse_description (en_content e))
                else True)))"

definition describes :: "artifact_validation_expectation option \<Rightarrow> archive_entry \<Rightarrow> bool" where
  "describes expectation e = (case en_path e of Inl _ \<Rightarrow> False | Inr path \<Rightarrow> is_description expectation path)"

definition scanned :: "artifact_validation_expectation option \<Rightarrow> archive_scan \<Rightarrow> archive_entry \<Rightarrow> archive_scan" where
  "scanned expectation s e =
     \<lparr>sc_total = sc_total s + length (en_content e), sc_entries = sc_entries s + 1,
      sc_count = sc_count s + (if describes expectation e then 1 else 0),
      sc_description =
        (if describes expectation e then Some (projr (parse_description (en_content e))) else sc_description s)\<rparr>"

lemma guard_Inr_iff: "(if c then Inl x else r) = Inr y \<longleftrightarrow> \<not> c \<and> r = Inr y"
  by simp

lemma read_rest_iff:
  "(\<exists>b. read_at_most (n + 1) e = Inr b \<and> length b \<le> n \<and> P b) \<longleftrightarrow>
     en_failure e = None \<and> length (en_content e) \<le> n \<and> P (en_content e)"
  by (cases "n < length (en_content e)") (auto simp: read_at_most_def split: option.splits)

lemma scan_description_Inr_iff:
  "scan_description s e = Inr (n, s') \<longleftrightarrow>
     sc_count s = 0 \<and> en_is_file e \<and> en_failure e = None \<and> length (en_content e) \<le> max_description_bytes
     \<and> is_ok (parse_description (en_content e)) \<and> n = length (en_content e)
     \<and> s' = s\<lparr>sc_count := sc_count s + 1, sc_description := Some (projr (parse_description (en_content e)))\<rparr>"
proof -
  have "scan_description s e = Inr (n, s') \<longleftrightarrow> sc_count s = 0 \<and> en_is_file e
    \<and> (\<exists>b. read_at_most (max_description_bytes + 1) e = Inr b \<and> length b \<le> max_description_bytes
        \<and> (\<exists>d. parse_description b = Inr d \<and> n = length b
             \<and> s' = s\<lparr>sc_count := sc_count s + 1, sc_description := Some d\<rparr>))"
    by (auto simp: scan_description_def guard_Inr_iff bind_res_Inr_iff map_res_Inr_iff not_less)
  then show ?thesis unfolding read_rest_iff by (auto simp: is_ok_iff)
qed

lemma archive_step_Inr_iff:
  assumes "sc_total s \<le> max_uncompressed_bytes"
  shows "archive_step expectation s (k, r) = Inr s' \<longleftrightarrow>
     k < max_entries \<and> (\<exists>e. r = Inr e \<and> archive_entry_ok expectation e
       \<and> (if describes expectation e then sc_count s = 0 else True)
       \<and> sc_total s + length (en_content e) \<le> max_uncompressed_bytes \<and> s' = scanned expectation s e)"
proof -
  consider (skip) "k \<ge> max_entries" | (bad) m where "k < max_entries" "r = Inl m"
    | (unnamed) e m where "k < max_entries" "r = Inr e" "en_path e = Inl m"
    | (escaping) e path where "k < max_entries" "r = Inr e" "en_path e = Inr path" "path_escapes path"
    | (entry) e path where "k < max_entries" "r = Inr e" "en_path e = Inr path" "\<not> path_escapes path"
    by (cases r; metis not_le sum.exhaust)
  then show ?thesis
  proof cases
    case entry
    have sat: "saturating_add (sc_total s) n = sc_total s + n" if "sc_total s + n \<le> max_uncompressed_bytes" for n
      using that by (simp add: saturating_add_def max_uncompressed_bytes_def)
    have fits: "n \<le> max_uncompressed_bytes - sc_total s \<longleftrightarrow> sc_total s + n \<le> max_uncompressed_bytes" for n
      using assms by arith
    show ?thesis
    proof (cases "is_description expectation path")
      case True
      have "archive_step expectation s (k, r) = Inr s' \<longleftrightarrow>
        (\<exists>n t. scan_description s e = Inr (n, t) \<and> n \<le> max_uncompressed_bytes - sc_total s
           \<and> saturating_add (sc_total t) n \<le> max_uncompressed_bytes
           \<and> t\<lparr>sc_total := saturating_add (sc_total t) n, sc_entries := sc_entries t + 1\<rparr> = s')"
        using entry True by (simp add: archive_step_def Let_def guard_Inr_iff bind_res_Inr_iff not_less split_paired_Ex)
      then show ?thesis
        using entry True sat [of "length (en_content e)"]
        by (cases "sc_total s + length (en_content e) \<le> max_uncompressed_bytes")
          (auto simp: fits scan_description_Inr_iff archive_entry_ok_def path_escapes_iff describes_def scanned_def)
    next
      case False
      have "archive_step expectation s (k, r) = Inr s' \<longleftrightarrow>
        (\<exists>b. read_at_most (max_uncompressed_bytes - sc_total s + 1) e = Inr b \<and> length b \<le> max_uncompressed_bytes - sc_total s
           \<and> saturating_add (sc_total s) (length b) \<le> max_uncompressed_bytes
           \<and> s' = s\<lparr>sc_total := saturating_add (sc_total s) (length b), sc_entries := sc_entries s + 1\<rparr>)"
        using entry False by (auto simp: archive_step_def Let_def guard_Inr_iff bind_res_Inr_iff map_res_Inr_iff not_less)
      then show ?thesis
        unfolding read_rest_iff
        using entry False sat [of "length (en_content e)"]
        by (cases "sc_total s + length (en_content e) \<le> max_uncompressed_bytes")
          (auto simp: fits archive_entry_ok_def path_escapes_iff describes_def scanned_def)
    qed
  qed (auto simp: archive_step_def archive_entry_ok_def path_escapes_iff)
qed

definition scanned_all :: "artifact_validation_expectation option \<Rightarrow> archive_scan \<Rightarrow> archive_entry list \<Rightarrow> archive_scan" where
  "scanned_all expectation s es = foldl (scanned expectation) s es"

lemma scanned_all_fields:
  "sc_total (scanned_all expectation s es) = sc_total s + sum_list (map (\<lambda>e. length (en_content e)) es)"
  "sc_entries (scanned_all expectation s es) = sc_entries s + length es"
  "sc_count (scanned_all expectation s es) = sc_count s + length (filter (describes expectation) es)"
  by (induction es arbitrary: s) (simp_all add: scanned_all_def scanned_def)

lemma scanned_all_description:
  assumes "length (filter (describes expectation) es) \<le> 1"
  shows "sc_description (scanned_all expectation s es) =
    (case filter (describes expectation) es of [] \<Rightarrow> sc_description s | d # _ \<Rightarrow> Some (projr (parse_description (en_content d))))"
  using assms
  by (induction es arbitrary: s) (auto simp: scanned_all_def scanned_def split: list.splits)

lemma archive_scan_Inr_iff:
  assumes "sc_total s \<le> max_uncompressed_bytes" and "sc_count s \<le> 1"
  shows "try_fold (archive_step expectation) s (enumerate k items) = Inr s' \<longleftrightarrow>
     (items = [] \<or> k + length items \<le> max_entries) \<and> (\<exists>es. items = map Inr es \<and> list_all (archive_entry_ok expectation) es
       \<and> sc_count s + length (filter (describes expectation) es) \<le> 1
       \<and> sc_total s + sum_list (map (\<lambda>e. length (en_content e)) es) \<le> max_uncompressed_bytes
       \<and> s' = scanned_all expectation s es)"
  using assms
proof (induction items arbitrary: k s)
  case Nil
  then show ?case by (auto simp: scanned_all_def)
next
  case (Cons r items)
  let ?D = "describes expectation"
  show ?case
  proof (cases r)
    case (Inl m)
    then show ?thesis using Cons.prems by (auto simp: bind_res_Inr_iff archive_step_Inr_iff)
  next
    case (Inr e)
    let ?t = "scanned expectation s e"
    show ?thesis
    proof (cases "k < max_entries \<and> archive_entry_ok expectation e \<and> (if ?D e then sc_count s = 0 else True)
        \<and> sc_total s + length (en_content e) \<le> max_uncompressed_bytes")
      case False
      then have "try_fold (archive_step expectation) s (enumerate k (r # items)) \<noteq> Inr s'"
        using Inr Cons.prems by (auto simp: bind_res_Inr_iff archive_step_Inr_iff)
      moreover have "\<not> ((r # items = [] \<or> k + length (r # items) \<le> max_entries) \<and> (\<exists>es. r # items = map Inr es
          \<and> list_all (archive_entry_ok expectation) es \<and> sc_count s + length (filter ?D es) \<le> 1
          \<and> sc_total s + sum_list (map (\<lambda>e. length (en_content e)) es) \<le> max_uncompressed_bytes
          \<and> s' = scanned_all expectation s es))"
        using False Inr by (auto simp: Cons_eq_map_conv split: if_splits)
      ultimately show ?thesis by blast
    next
      case True
      then have step: "archive_step expectation s (k, r) = Inr ?t"
        using Inr Cons.prems(1) by (simp add: archive_step_Inr_iff)
      have small: "sc_total ?t \<le> max_uncompressed_bytes" "sc_count ?t \<le> 1"
        using True Cons.prems(2) by (auto simp: scanned_def)
      have count: "sc_count ?t + length (filter ?D es) = sc_count s + length (filter ?D (e # es))" for es
        by (simp add: scanned_def)
      show ?thesis
        using step Inr True Cons.IH [OF small, of "Suc k"]
        by (auto simp: Cons_eq_map_conv count scanned_all_def scanned_def)
    qed
  qed
qed

text \<open>What the description has to say.\<close>

definition description_matches ::
  "(string \<Rightarrow> (bool \<times> string) option) \<Rightarrow> description_fields \<Rightarrow> artifact_validation_expectation \<Rightarrow> bool" where
  "description_matches ip d x =
     (dx_package d = ae_package x
      \<and> (case parse_version (dx_version d) of Inl _ \<Rightarrow> False | Inr v \<Rightarrow> version_eq v (ae_version x))
      \<and> (case ae_git_provenance x of
           None \<Rightarrow> dx_remote_url d = None \<and> dx_remote_sha d = None \<and> dx_remote_subdir d = None
         | Some g \<Rightarrow>
             map_option (normalized_git_url_new ip) (dx_remote_url d) = Some (Inr (ge_repository g))
             \<and> map_option git_commit_id_new (dx_remote_sha d) = Some (Inr (ge_commit g))
             \<and> map_option repository_subdir_new (dx_remote_subdir d) = map_option Inr (ge_subdirectory g)))"

lemma validate_subdir_Inr_iff:
  "validate_subdir expected actual = Inr () \<longleftrightarrow> map_option repository_subdir_new actual = map_option Inr expected"
  by (cases expected; cases actual) (auto simp: validate_subdir_def bind_res_Inr_iff guard_Inr_iff)

lemma validate_git_Inr_iff:
  "validate_git ip g d = Inr () \<longleftrightarrow>
     map_option (normalized_git_url_new ip) (dx_remote_url d) = Some (Inr (ge_repository g))
     \<and> map_option git_commit_id_new (dx_remote_sha d) = Some (Inr (ge_commit g))
     \<and> map_option repository_subdir_new (dx_remote_subdir d) = map_option Inr (ge_subdirectory g)"
  by (cases "dx_remote_url d"; cases "dx_remote_sha d")
    (auto simp: validate_git_def ok_or_def bind_res_Inr_iff guard_Inr_iff validate_subdir_Inr_iff)

lemma validate_description_Inr_iff: "validate_description ip d x = Inr () \<longleftrightarrow> description_matches ip d x"
  by (cases "parse_version (dx_version d)"; cases "ae_git_provenance x")
    (auto simp: validate_description_def description_matches_def bind_res_Inr_iff guard_Inr_iff validate_git_Inr_iff
      split: option.splits)

definition archive_accepted ::
  "(string \<Rightarrow> (bool \<times> string) option) \<Rightarrow> artifact_validation_expectation option \<Rightarrow> archive_entry list \<Rightarrow> bool" where
  "archive_accepted ip expectation es =
     (es \<noteq> [] \<and> length es \<le> max_entries \<and> list_all (archive_entry_ok expectation) es
      \<and> sum_list (map (\<lambda>e. length (en_content e)) es) \<le> max_uncompressed_bytes
      \<and> (case expectation of
           None \<Rightarrow> True
         | Some x \<Rightarrow>
             (case filter (describes expectation) es of
                [d] \<Rightarrow> description_matches ip (projr (parse_description (en_content d))) x
              | _ \<Rightarrow> False)))"

lemma describes_None: "describes None e = False"
  by (simp add: describes_def is_description_def split: sum.splits)

lemma description_checked_iff:
  "length (filter (describes expectation) es) \<le> 1
   \<and> (case expectation of
        None \<Rightarrow> True
      | Some x \<Rightarrow> bind_res (ok_or MissingDescription (sc_description (scanned_all expectation s es)))
                   (\<lambda>d. validate_description ip d x) = Inr ())
   \<longleftrightarrow> (case expectation of
        None \<Rightarrow> True
      | Some x \<Rightarrow>
          (case filter (describes expectation) es of
             [d] \<Rightarrow> description_matches ip (projr (parse_description (en_content d))) x
           | _ \<Rightarrow> False))"
  if "sc_description s = None"
proof (cases expectation)
  case None
  then show ?thesis by (simp add: describes_None)
next
  case (Some x)
  consider "filter (describes expectation) es = []" | d where "filter (describes expectation) es = [d]"
    | d d' ds where "filter (describes expectation) es = d # d' # ds"
    by (metis neq_Nil_conv)
  then show ?thesis
    using Some that
    by cases (auto simp: scanned_all_description ok_or_def validate_description_Inr_iff)
qed

lemma validate_source_archive_iff:
  "validate_source_archive ip unpack expectation b = Inr () \<longleftrightarrow>
     (\<exists>es. unpack b = Inr (map Inr es) \<and> archive_accepted ip expectation es)"
proof -
  let ?s = "\<lparr>sc_total = 0, sc_entries = 0, sc_count = 0, sc_description = None\<rparr>"
  have "validate_source_archive ip unpack expectation b = Inr () \<longleftrightarrow>
    (\<exists>es. unpack b = Inr (map Inr es) \<and> es \<noteq> [] \<and> length es \<le> max_entries \<and> list_all (archive_entry_ok expectation) es
       \<and> sum_list (map (\<lambda>e. length (en_content e)) es) \<le> max_uncompressed_bytes
       \<and> length (filter (describes expectation) es) \<le> 1
       \<and> (case expectation of
            None \<Rightarrow> True
          | Some x \<Rightarrow> bind_res (ok_or MissingDescription (sc_description (scanned_all expectation ?s es)))
                       (\<lambda>d. validate_description ip d x) = Inr ()))"
    by (cases expectation)
      (auto simp: validate_source_archive_def bind_res_Inr_iff [of "map_err _ _"] bind_res_Inr_iff [of "try_fold _ _ _"]
        guard_Inr_iff archive_scan_Inr_iff scanned_all_fields inj_map_eq_map)
  moreover have "sc_description ?s = None" by simp
  ultimately show ?thesis
    unfolding archive_accepted_def by (simp only: description_checked_iff)
qed

end
