(* ===== verification/Repository_Examples.thy ===== *)
theory Repository_Examples
  imports Index_Roundtrip Pak Materialization_Build Source_Archive Examples
begin

text \<open>An artifact of the example package, its repository and its cache, on which the properties are instantiated.\<close>

definition ex_calendar :: calendar where
  "ex_calendar =
     \<lparr>cal_date_strptime = (\<lambda>_. Inr (2024, 1, 2)), cal_date_strftime = (\<lambda>_. ''2024-01-02''),
      cal_strptime = (\<lambda>_ _. Inl []), cal_strftime = (\<lambda>_ _. [])\<rparr>"

definition ex_cached :: cached_artifact where
  "ex_cached =
     \<lparr>ca_object_path = ''/cache/app'', ca_metadata_path = ''/cache/app.json'', ca_sha256 = hex_string (ex_sha ''abc''),
      ca_size = 3, ca_verification = NoVerification\<rparr>"

definition ex_artifact :: materialization_artifact where
  "ex_artifact =
     \<lparr>ma_identity = pc_identity ex_app, ma_version = ex_version 1 0, ma_artifact = ex_cached,
      ma_metadata = [(''License'', ''MIT'')], ma_publication = Some \<lparr>rp_date = (2024, 1, 2)\<rparr>,
      ma_dependencies = pk_declared_dependencies (pc_release ex_app)\<rparr>"

definition ex_fields :: "(string \<times> string) list" where
  "ex_fields = [(''Package'', ''app''), (''Version'', ''1.0''), (''Imports'', ''lib (>= 1.1)''),
     (''License'', ''MIT''), (''Published'', ''2024-01-02'')]"

lemma ex_record: "record_fields (cal_date_strftime ex_calendar) ex_artifact = Inr ex_fields"
  by code_simp

lemma ex_ready: "artifact_ready ex_calendar ex_artifact"
proof -
  have "dependency_ready \<lparr>dd_kind = Imports, dd_package = ex_requirement ''lib'' (from_clause Ge (ex_version 1 1))\<rparr>"
    unfolding dependency_ready_def by code_simp
  moreover have "date_ready ex_calendar (2024, 1, 2)"
    unfolding date_ready_def plain_text_def by code_simp
  moreover have "is_ok (package_name_new (ma_package ex_artifact))"
    "parse_version (version_str (ma_version ex_artifact)) = Inr (ma_version ex_artifact)"
    "is_ok (release_metadata_new (ma_metadata ex_artifact))" by code_simp+
  ultimately show ?thesis
    by (simp add: artifact_ready_def ex_artifact_def ex_app_def ex_candidate_def ex_release_def)
qed

lemma ex_artifact_package: "ma_package ex_artifact = ''app''"
  by code_simp

section \<open>A repository\<close>

definition ex_names :: temp_names where
  "ex_names = \<lparr>tn_state = state_prefix @ ''1'', tn_marker = marker_prefix @ ''1'', tn_staging = staging_prefix @ ''1''\<rparr>"

definition ex_index :: string where
  "ex_index = projr (write_packages (\<lambda>_. ''2024-01-02'') [ex_artifact])"

definition ex_materialized :: materialization_state where
  "ex_materialized =
     \<lparr>ms_schema_version = 2, ms_index_sha256 = hex_string (ex_sha ex_index), ms_records = [record_for ex_artifact CopyMethod]\<rparr>"

definition ex_env :: materialization_env where
  "ex_env =
     \<lparr>me_read_state = (\<lambda>_. Inr ex_materialized), me_write_state = (\<lambda>_. ''state''),
      me_read_transaction = (\<lambda>_. Inr (transaction_of ex_names ex_materialized)), me_write_transaction = (\<lambda>_. ''marker''),
      me_sha = ex_sha, me_strftime = (\<lambda>_. ''2024-01-02''), me_object = (\<lambda>_. Some (RegularFile ''abc'')),
      me_clones = (\<lambda>_. False)\<rparr>"

definition ex_ops :: "fs_op list" where
  "ex_ops = publication_ops ex_env ex_names
     (staging_tree [(''app_1.0.tar.gz'', RegularFile ''abc'')] ex_index) ex_materialized"

lemma ex_index: "write_packages (\<lambda>_. ''2024-01-02'') [ex_artifact] = Inr ex_index"
proof -
  have "is_ok (write_packages (\<lambda>_. ''2024-01-02'') [ex_artifact])" by code_simp
  then show ?thesis by (auto simp: is_ok_iff ex_index_def)
qed

lemma ex_inputs: "validate_inputs [ex_artifact] = Inr ()"
  by code_simp

lemma ex_key_ok: "key_ok (ma_identity ex_artifact)"
proof -
  have "plain_key (ri_name (ma_identity ex_artifact))" "plain_key (version_str (ex_version 1 0))"
    unfolding plain_key_def by code_simp+
  then show ?thesis
    by (auto simp: key_ok_def ex_artifact_def ex_app_def ex_candidate_def ex_release_def release_identity_new_def
        checked_provenance_version_def pc_identity_def split: if_splits)
qed

lemma ex_env_ok: "env_ok ex_env ex_names ex_materialized"
proof -
  have "utf8_error ''state'' = None" "utf8_error ''marker'' = None" by code_simp+
  then show ?thesis by (simp add: env_ok_def ex_env_def)
qed

lemma ex_names_ok: "names_ok ex_names" and ex_nonce_ok: "nonce_ok ''2''"
  by (auto simp: names_ok_def ex_names_def nonce_ok_def)

lemma ex_build: "build_repository ex_env ex_names [ex_artifact] = Inr (ex_materialized, ex_ops)"
proof -
  have one: "canonical_artifacts [ex_artifact] = [ex_artifact]" by (simp add: canonical_artifacts_def)
  have target: "artifact_file ex_artifact = ''app_1.0.tar.gz''" by code_simp
  have "verify_cache_object ex_env (ma_artifact ex_artifact) = Inr ()"
    by (simp add: verify_cache_object_def ex_env_def ex_artifact_def ex_cached_def hash_hex_def Let_def)
  then have "materialize_files ex_env [] [ex_artifact] = Inr ([(''app_1.0.tar.gz'', RegularFile ''abc'')], [CopyMethod])"
    using target by (simp add: ex_env_def)
  then show ?thesis
    using ex_index
    by (simp add: build_repository_def one ex_ops_def ex_materialized_def hash_hex_def Let_def, simp add: ex_env_def)
qed

section \<open>A cache\<close>

definition ex_source :: source_artifact where
  "ex_source = \<lparr>sa_locator = ''https://example.org/app_1.0.tar.gz'', sa_upstream_checksums = [], sa_size = Some 3\<rparr>"

definition ex_cache :: artifact_cache where
  "ex_cache = \<lparr>ac_files = Map.empty, ac_metadata = Map.empty\<rparr>"

definition ex_expectation :: artifact_validation_expectation where
  "ex_expectation = \<lparr>ae_package = ''app'', ae_version = ex_version 1 0, ae_git_provenance = None\<rparr>"

definition ex_unpack :: "bytes \<Rightarrow> string + (string + archive_entry) list" where
  "ex_unpack b =
     Inr [Inr \<lparr>en_path = Inr ''app/DESCRIPTION'', en_is_file = True,
               en_content = ''Package: app'' @ [line_feed] @ ''Version: 1.0'' @ [line_feed], en_failure = None\<rparr>,
          Inr \<lparr>en_path = Inr ''app/R/app.R'', en_is_file = True, en_content = b, en_failure = None\<rparr>]"

definition ex_commit :: "(cache_error + cached_artifact) \<times> artifact_cache" where
  "ex_commit = commit_artifact ex_sha ex_sha (validate_source_archive (\<lambda>_. None) ex_unpack) (\<lambda>_. None) ''/c''
     (''1'', ''2'', ''3'') ex_source (Some ex_expectation) [Inr ''ab'', Inr ''c''] ex_cache"

lemma ex_commit_ok: "is_ok (fst ex_commit)"
  by code_simp

lemma ex_sha_length: "length (ex_sha b) = 32"
  by (simp add: ex_sha_def)

section \<open>A pak transaction\<close>

definition ex_pak_request :: pak_install_request where
  "ex_pak_request =
     \<lparr>pq_packages = [''app''],
      pq_artifacts = [\<lparr>pa_package = ''app'', pa_version = ''1.0'', pa_path = ''app.tar.gz'', pa_sha256 = replicate 64 CHR ''0''\<rparr>]\<rparr>"

definition ex_pak_output :: string where
  "ex_pak_output = join_str [line_feed]
     [''Package: __rsolve_protocol__'', ''PakCalls: 1'', [], ''Package: app'', ''Version: 1.0'', ''Path: /lib/app'',
      ''RemoteRepos: file:///r'', ''RemotePkgRef: app'', ''Status: OK'']"

lemma ex_pak_ok: "is_ok (run_pak (Inr ex_pak_output) ex_pak_request)"
  by code_simp

lemma ex_pak_names: "map pi_name (pt_installed (projr (run_pak (Inr ex_pak_output) ex_pak_request))) = [''app'']"
  by code_simp

end
