(* ===== verification/Compare.thy ===== *)
theory Compare
  imports Choice
begin

text \<open>
  Assignment comparison, \<^verbatim>\<open>rsolve-resolver/src/lib.rs\<close> from line 328: after a resolution the resolver
  explains, for every package, on what basis its release was assigned and why each other candidate
  of its subject differs.
\<close>

section \<open>Data\<close>

datatype decision_candidate =
    ReleaseCandidate release_identity r_package_version
  | RCandidate r_package_version
  | InstalledNameCandidate package_name release_identity

datatype decision_subject = PackageSubject package_name | RSubject | InstalledNameSubject package_name

datatype assignment_basis =
    LockedPreference release_identity
  | RepositoryCurrent
  | HighestCompatible
  | OnlyStaticallyCompatible
  | ExactRootRequirement
  | FixedRTarget
  | InstalledNameReservation

datatype assignment_difference =
    RootRequirementMismatch version_constraint
  | ConstraintViolatedByAssignment decision_subject version_constraint decision_candidate
  | RequiredLockMismatch release_identity
  | NameConflict package_name release_identity
  | LowerPreference decision_candidate
  | CooldownDifference publication_date
  | UnknownPublicationDifference

record alternative_comparison =
  ac_candidate :: decision_candidate
  ac_differs_by :: assignment_difference

record subject_assignment =
  as_subject :: decision_subject
  as_assigned :: decision_candidate
  as_basis :: assignment_basis
  as_alternatives :: "alternative_comparison list"

record compared_resolution =
  cr_resolution :: resolution
  cr_comparison :: "subject_assignment list"

section \<open>Helpers\<close>

definition release_candidate :: "package_release \<Rightarrow> decision_candidate" where
  "release_candidate release = ReleaseCandidate (pk_identity release) (pk_version release)"

definition candidate_for_subject :: "solver_key \<Rightarrow> package_release \<Rightarrow> decision_candidate" where
  "candidate_for_subject subject release =
     (case subject of
        KeyInstalledName name \<Rightarrow> InstalledNameCandidate name (pk_identity release)
      | _ \<Rightarrow> release_candidate release)"

fun subject_to_decision_subject :: "solver_key \<Rightarrow> decision_subject" where
  "subject_to_decision_subject (KeyInstalledName name) = InstalledNameSubject name"
| "subject_to_decision_subject KeyR = RSubject"
| "subject_to_decision_subject (KeyRegistry _ name) = PackageSubject name"
| "subject_to_decision_subject (KeyRepository _ name) = PackageSubject name"
| "subject_to_decision_subject (KeyBioconductor _ _ name) = PackageSubject name"
| "subject_to_decision_subject (KeyExact identity) = PackageSubject (ri_name identity)"

definition root_expansion_for_package :: "resolution_request \<Rightarrow> package_name \<Rightarrow> root_expansion_policy" where
  "root_expansion_for_package request name =
     (case find (\<lambda>expansion. expansion = DirectSuggests)
             (map rr_expansion (filter (\<lambda>r. pr_name (rr_package r) = name) (rq_roots request))) of
        Some expansion \<Rightarrow> expansion
      | None \<Rightarrow> HardOnly)"

definition dependency_key ::
  "resolution_request \<Rightarrow> package_name \<Rightarrow> dependency_source_constraint \<Rightarrow> solver_key option" where
  "dependency_key request name source =
     (if name = ''R'' \<and> (case source of SourceGit _ \<Rightarrow> False | _ \<Rightarrow> True) then Some KeyR
      else case source of
             SourceAny \<Rightarrow>
               Some (case exact_root_identity request name of
                       None \<Rightarrow> KeyInstalledName name | Some identity \<Rightarrow> KeyExact identity)
           | SourceRegistry namespace \<Rightarrow> Some (KeyRegistry namespace name)
           | SourceRepository repository \<Rightarrow> Some (KeyRepository repository name)
           | SourceBioconductor namespace release \<Rightarrow> Some (KeyBioconductor namespace release name)
           | SourceExact identity \<Rightarrow> Some (KeyExact identity)
           | SourceGit _ \<Rightarrow> None)"

text \<open>A requirement is on the given subject.\<close>

definition requires_subject :: "resolution_request \<Rightarrow> solver_key \<Rightarrow> package_requirement \<Rightarrow> bool" where
  "requires_subject request subject q =
     (case dependency_key request (pr_name q) (pr_source q) of
        Some key \<Rightarrow> solver_key_eq key subject | None \<Rightarrow> False)"

definition statically_compatible :: "root_expansion_policy \<Rightarrow> r_package_version \<Rightarrow> prepared_candidate \<Rightarrow> bool" where
  "statically_compatible expansion r_version c =
     list_all (\<lambda>dependency. pr_name (re_package dependency) \<noteq> ''R'' \<or>
         satisfies (pr_constraint (re_package dependency)) r_version)
       (project_dependency_edges (pc_release c) expansion)"

section \<open>Basis and difference\<close>

definition assignment_basis ::
  "resolved_package \<Rightarrow> prepared_candidate list \<Rightarrow> lock_decision \<Rightarrow> resolution_request \<Rightarrow> solver_key \<Rightarrow>
   r_package_version \<Rightarrow> root_expansion_policy \<Rightarrow> assignment_basis" where
  "assignment_basis package view decision request subject r_version expansion =
     (let identity = pk_identity (rp_release package) in
      if (case subject of KeyInstalledName _ \<Rightarrow> True | _ \<Rightarrow> False) then InstalledNameReservation
      else if (case decision of Require i \<Rightarrow> identity_eq i identity | Prefer i \<Rightarrow> identity_eq i identity
               | UnlockedDecision \<Rightarrow> False)
      then LockedPreference (case decision of Require i \<Rightarrow> i | Prefer i \<Rightarrow> i | UnlockedDecision \<Rightarrow> identity)
      else if list_ex (\<lambda>c. identity_eq (pc_identity c) identity \<and>
                list_ex (\<lambda>oc. oc_currentness oc = Current) (applicable_occurrences c subject)) view
      then RepositoryCurrent
      else if length (filter (statically_compatible expansion r_version) view) = 1
      then OnlyStaticallyCompatible
      else if list_ex (\<lambda>r. requires_subject request subject (rr_package r) \<and>
                list_ex (\<lambda>c. vc_op c = Eq \<and> version_eq (vc_version c) (pk_version (rp_release package)))
                  (clauses (pr_constraint (rr_package r)))) (rq_roots request)
      then ExactRootRequirement
      else HighestCompatible)"

record difference_context =
  dc_selected :: package_release
  dc_selected_candidate :: prepared_candidate
  dc_r_version :: r_package_version
  dc_decision :: lock_decision
  dc_preference :: preference_context
  dc_subject :: solver_key
  dc_selected_packages :: "resolved_package list"
  dc_request :: resolution_request
  dc_expansion :: root_expansion_policy

definition required_lock_difference :: "difference_context \<Rightarrow> prepared_candidate \<Rightarrow> assignment_difference option" where
  "required_lock_difference difference c =
     (case dc_decision difference of
        Require required \<Rightarrow>
          if \<not> identity_eq (pc_identity c) required then Some (RequiredLockMismatch required) else None
      | _ \<Rightarrow> None)"

definition publication_difference :: "difference_context \<Rightarrow> prepared_candidate \<Rightarrow> assignment_difference option" where
  "publication_difference difference c =
     (let locked = (case dc_decision difference of
                      Prefer identity \<Rightarrow> identity_eq (pc_identity c) identity
                    | Require identity \<Rightarrow> identity_eq (pc_identity c) identity
                    | UnlockedDecision \<Rightarrow> False) in
      case rq_publication_cutoff (dc_request difference) of
        Some cutoff \<Rightarrow>
          if \<not> is_r_base_package (pc_release c) \<and> \<not> locked
          then case pk_publication (pc_release c) of
                 Some publication \<Rightarrow> if rp_date publication > cutoff then Some (CooldownDifference cutoff) else None
               | None \<Rightarrow> Some UnknownPublicationDifference
          else None
      | None \<Rightarrow> None)"

definition name_conflict_difference :: "difference_context \<Rightarrow> prepared_candidate \<Rightarrow> assignment_difference option" where
  "name_conflict_difference difference c =
     map_option (\<lambda>other. NameConflict (ri_name (pc_identity c)) (pk_identity (rp_release other)))
       (find (\<lambda>other. \<not> solver_key_eq (rp_subject other) (dc_subject difference) \<and>
           rp_name other = ri_name (pc_identity c) \<and>
           \<not> identity_eq (pk_identity (rp_release other)) (pc_identity c))
         (dc_selected_packages difference))"

definition root_difference :: "difference_context \<Rightarrow> prepared_candidate \<Rightarrow> assignment_difference option" where
  "root_difference difference c =
     map_option (\<lambda>r. RootRequirementMismatch (pr_constraint (rr_package r)))
       (find (\<lambda>r. requires_subject (dc_request difference) (dc_subject difference) (rr_package r) \<and>
           \<not> satisfies (pr_constraint (rr_package r)) (pk_version (pc_release c)))
         (rq_roots (dc_request difference)))"

definition r_difference :: "difference_context \<Rightarrow> prepared_candidate \<Rightarrow> assignment_difference option" where
  "r_difference difference c =
     map_option (\<lambda>dependency. ConstraintViolatedByAssignment RSubject (pr_constraint (re_package dependency))
         (RCandidate (dc_r_version difference)))
       (find (\<lambda>dependency. pr_name (re_package dependency) = ''R'' \<and>
           \<not> satisfies (pr_constraint (re_package dependency)) (dc_r_version difference))
         (project_dependency_edges (pc_release c) (dc_expansion difference)))"

definition violated_assignment ::
  "difference_context \<Rightarrow> resolved_dependency_edge \<Rightarrow> (resolved_dependency_edge \<times> resolved_package) option" where
  "violated_assignment difference dependency =
     Option.bind (dependency_key (dc_request difference) (pr_name (re_package dependency)) (pr_source (re_package dependency)))
       (\<lambda>key. Option.bind (find (\<lambda>package. solver_key_eq (rp_subject package) key) (dc_selected_packages difference))
         (\<lambda>assigned. if \<not> satisfies (pr_constraint (re_package dependency)) (pk_version (rp_release assigned))
                     then Some (dependency, assigned) else None))"

definition dependency_difference :: "difference_context \<Rightarrow> prepared_candidate \<Rightarrow> assignment_difference option" where
  "dependency_difference difference c =
     map_option (\<lambda>(dependency, assigned).
         ConstraintViolatedByAssignment (subject_to_decision_subject (rp_subject assigned))
           (pr_constraint (re_package dependency)) (release_candidate (rp_release assigned)))
       (find_map (violated_assignment difference)
         (filter (\<lambda>dependency. pr_name (re_package dependency) \<noteq> ''R'')
           (project_dependency_edges (pc_release c) (dc_expansion difference))))"

definition preference_difference ::
  "preference \<Rightarrow> difference_context \<Rightarrow> prepared_candidate \<Rightarrow> assignment_difference option" where
  "preference_difference preference difference c =
     (if (case px_locked (dc_preference difference) of Some locked \<Rightarrow> \<not> identity_eq (pc_identity c) locked | None \<Rightarrow> False)
         \<or> compare_prepared_candidates preference (dc_subject difference) (dc_selected_candidate difference) c
             (dc_preference difference) = Greater
      then Some (LowerPreference (candidate_for_subject (dc_subject difference) (dc_selected difference)))
      else None)"

text \<open>The early returns, in the order of the code: the first difference that applies is reported.\<close>

definition difference_for_candidate ::
  "preference \<Rightarrow> difference_context \<Rightarrow> prepared_candidate \<Rightarrow> assignment_difference option" where
  "difference_for_candidate preference difference c =
     find_map (\<lambda>f. f difference c)
       [required_lock_difference, publication_difference, name_conflict_difference, root_difference,
        r_difference, dependency_difference, preference_difference preference]"

section \<open>The comparison\<close>

text \<open>\<^verbatim>\<open>CandidateLoader::releases\<close>: the candidates of \<^verbatim>\<open>load\<close>.\<close>

definition loader_releases :: "loader \<Rightarrow> solver_key \<Rightarrow> candidate_load_error + prepared_candidate list" where
  "loader_releases load package = map_res lr_candidates (load package)"

definition load_candidates :: "loader \<Rightarrow> solver_key \<Rightarrow> resolution_failure + prepared_candidate list" where
  "load_candidates load subject = map_err (CandidateLoad subject) (loader_releases load subject)"

definition alternative_cmp ::
  "(r_package_version \<times> string) \<times> alternative_comparison \<Rightarrow> (r_package_version \<times> string) \<times> alternative_comparison \<Rightarrow> ordering" where
  "alternative_cmp left right =
     then_with (version_cmp (fst (fst left)) (fst (fst right))) (cmp_of (snd (fst left)) (snd (fst right)))"

definition compare_package ::
  "provider \<Rightarrow> resolution \<Rightarrow> resolved_package list \<Rightarrow> resolved_package \<Rightarrow> resolution_failure + subject_assignment" where
  "compare_package p resolution packages package =
     (let subject = rp_subject package; request = pv_request p; identity = pk_identity (rp_release package) in
      bind_res (load_candidates (pv_loader p) subject) (\<lambda>candidates.
        case find (\<lambda>c. identity_eq (pc_identity c) identity) candidates of
          None \<Rightarrow>
            Inl (CandidateLoad subject
              (metadata_invalid ''selected release is absent from its prepared subject view''))
        | Some selected_candidate \<Rightarrow>
            let decision = pv_lock_decision p subject;
                context = \<lparr>px_locked = locked_identity decision\<rparr>;
                expansion = root_expansion_for_package request (rp_name package);
                difference =
                  \<lparr>dc_selected = rp_release package, dc_selected_candidate = selected_candidate,
                   dc_r_version = rt_r_version (rs_target resolution), dc_decision = decision,
                   dc_preference = context, dc_subject = subject, dc_selected_packages = packages,
                   dc_request = request, dc_expansion = expansion\<rparr>;
                keyed = List.map_filter (\<lambda>c.
                    map_option (\<lambda>d.
                        ((pk_version (pc_release c), identity_sort_key (pc_identity c)),
                         \<lparr>ac_candidate = candidate_for_subject subject (pc_release c), ac_differs_by = d\<rparr>))
                      (difference_for_candidate (pv_preference p) difference c))
                  (filter (\<lambda>c. \<not> identity_eq (pc_identity c) identity) candidates)
            in Inr \<lparr>as_subject = subject_to_decision_subject subject,
                    as_assigned = candidate_for_subject subject (rp_release package),
                    as_basis = assignment_basis package candidates decision request subject
                      (rt_r_version (rs_target resolution)) expansion,
                    as_alternatives = map snd (sort_by alternative_cmp keyed)\<rparr>))"

definition reconstruct_comparison ::
  "provider \<Rightarrow> resolution \<Rightarrow> resolution_failure + subject_assignment list" where
  "reconstruct_comparison p resolution =
     (let packages = sort_by (\<lambda>left right. then_with (cmp_of (rp_name left) (rp_name right))
            (cmp_of (identity_sort_key (pk_identity (rp_release left))) (identity_sort_key (pk_identity (rp_release right)))))
          (rs_packages resolution) in
      map_res (Cons \<lparr>as_subject = RSubject, as_assigned = RCandidate (rt_r_version (rs_target resolution)),
                      as_basis = FixedRTarget, as_alternatives = []\<rparr>)
        (try_map (compare_package p resolution packages) packages))"

definition resolve_with_assignment_comparison ::
  "(derivation_tree \<Rightarrow> string) \<Rightarrow>
   (provider \<Rightarrow> provider_state \<Rightarrow> (pubgrub_error + (package_id \<times> solver_version) list) \<times> provider_state) \<Rightarrow>
   loader \<Rightarrow> preference \<Rightarrow> lock_policy \<Rightarrow> resolution_request \<Rightarrow> resolution_failure + compared_resolution" where
  "resolve_with_assignment_comparison debug_tree run loader preference lock_policy request =
     (let p = \<lparr>pv_loader = loader, pv_preference = preference, pv_lock_policy = lock_policy, pv_request = request\<rparr> in
      bind_res (solve debug_tree run loader preference lock_policy request) (\<lambda>resolution.
      bind_res (reconstruct_comparison p resolution) (\<lambda>comparison.
      Inr \<lparr>cr_resolution = resolution, cr_comparison = comparison\<rparr>)))"

section \<open>Lemmas\<close>

text \<open>The comparison looks packages up under the subjects the solver used.\<close>

lemma dependency_key_subject:
  "dependency_key (pv_request p) (pr_name q) (pr_source q) = Some k \<longleftrightarrow> subject_for_package p q = Inr k"
  by (cases "pr_source q") (auto simp: dependency_key_def subject_for_package_def)

lemma difference_None_iff:
  "difference_for_candidate preference d c = None \<longleftrightarrow>
     required_lock_difference d c = None \<and> publication_difference d c = None \<and> name_conflict_difference d c = None \<and>
     root_difference d c = None \<and> r_difference d c = None \<and> dependency_difference d c = None \<and>
     preference_difference preference d c = None"
  unfolding difference_for_candidate_def find_map_None_iff by simp

text \<open>What each check leaves.\<close>

definition locked_difference :: "difference_context \<Rightarrow> prepared_candidate \<Rightarrow> bool" where
  "locked_difference d c = is_locked_to (locked_identity (dc_decision d)) (pc_identity c)"

lemma locked_cases:
  "(case dc_decision d of Prefer i \<Rightarrow> identity_eq (pc_identity c) i | Require i \<Rightarrow> identity_eq (pc_identity c) i
    | UnlockedDecision \<Rightarrow> False) = locked_difference d c"
  using id_eq.eq_sym
  by (cases "dc_decision d") (auto simp: locked_difference_def is_locked_to_def locked_identity_def)

lemma required_lock_None:
  "required_lock_difference d c = None \<longleftrightarrow> (\<forall>i. dc_decision d = Require i \<longrightarrow> identity_eq (pc_identity c) i)"
  by (cases "dc_decision d") (auto simp: required_lock_difference_def)

lemma publication_None:
  "publication_difference d c = None \<longleftrightarrow>
     (\<forall>cutoff. rq_publication_cutoff (dc_request d) = Some cutoff \<longrightarrow>
        is_r_base_package (pc_release c) \<or> locked_difference d c \<or>
        (\<exists>date. pk_publication (pc_release c) = Some date \<and> rp_date date \<le> cutoff))"
  by (auto simp: publication_difference_def locked_cases Let_def not_less split: option.splits)

lemma name_conflict_None:
  "name_conflict_difference d c = None \<longleftrightarrow>
     (\<forall>other\<in>set (dc_selected_packages d). rp_name other = ri_name (pc_identity c) \<longrightarrow>
        solver_key_eq (rp_subject other) (dc_subject d) \<or> identity_eq (pk_identity (rp_release other)) (pc_identity c))"
  by (auto simp: name_conflict_difference_def find_None_iff)

lemma root_None:
  "root_difference d c = None \<longleftrightarrow>
     (\<forall>r\<in>set (rq_roots (dc_request d)). requires_subject (dc_request d) (dc_subject d) (rr_package r) \<longrightarrow>
        satisfies (pr_constraint (rr_package r)) (pk_version (pc_release c)))"
  by (auto simp: root_difference_def find_None_iff)

lemma r_None:
  "r_difference d c = None \<longleftrightarrow> statically_compatible (dc_expansion d) (dc_r_version d) c"
  by (auto simp: r_difference_def find_None_iff statically_compatible_def list_all_iff)

lemma dependency_None:
  "dependency_difference d c = None \<longleftrightarrow>
     (\<forall>e\<in>set (project_dependency_edges (pc_release c) (dc_expansion d)). pr_name (re_package e) \<noteq> ''R'' \<longrightarrow>
        (\<forall>key package. dependency_key (dc_request d) (pr_name (re_package e)) (pr_source (re_package e)) = Some key \<longrightarrow>
           find (\<lambda>package. solver_key_eq (rp_subject package) key) (dc_selected_packages d) = Some package \<longrightarrow>
           satisfies (pr_constraint (re_package e)) (pk_version (rp_release package))))"
proof -
  have "violated_assignment d e = None \<longleftrightarrow>
      (\<forall>key package. dependency_key (dc_request d) (pr_name (re_package e)) (pr_source (re_package e)) = Some key \<longrightarrow>
         find (\<lambda>package. solver_key_eq (rp_subject package) key) (dc_selected_packages d) = Some package \<longrightarrow>
         satisfies (pr_constraint (re_package e)) (pk_version (rp_release package)))" for e
  proof (cases "dependency_key (dc_request d) (pr_name (re_package e)) (pr_source (re_package e))")
    case (Some key)
    show ?thesis
      by (cases "find (\<lambda>package. solver_key_eq (rp_subject package) key) (dc_selected_packages d)")
        (simp_all add: violated_assignment_def Some)
  qed (simp add: violated_assignment_def)
  then show ?thesis
    unfolding dependency_difference_def option.map_disc_iff find_map_None_iff by auto
qed

lemma preference_None:
  "preference_difference preference d c = None \<longleftrightarrow>
     (px_locked (dc_preference d) = None \<or> is_locked_to (px_locked (dc_preference d)) (pc_identity c)) \<and>
     compare_prepared_candidates preference (dc_subject d) (dc_selected_candidate d) c (dc_preference d) \<noteq> Greater"
  using id_eq.eq_sym by (auto simp: preference_difference_def is_locked_to_def split: option.splits)

section \<open>The comparison of a sound resolution\<close>

definition loader_cong :: "loader \<Rightarrow> bool" where
  "loader_cong load \<longleftrightarrow> (\<forall>k k'. solver_key_eq k k' \<longrightarrow> load k = load k')"

lemma selected_view:
  assumes S: "solved pg p selection st" and run: "finish p selection st = (Inr res, st)"
    and cong: "loader_cong (pv_loader p)" and pkg: "package \<in> set (rs_packages res)"
  shows "\<exists>r c. pv_loader p (rp_subject package) = Inr r \<and> c \<in> set (lr_candidates r) \<and>
           identity_eq (pc_identity c) (pk_identity (rp_release package))"
proof -
  obtain packages where C: "collected selection st selection packages"
    and pkgs: "list_all2 (\<lambda>e pkg. project_package p (snd e) = Inr pkg) packages (rs_packages res)"
    using finish_packages[OF S] run by auto
  obtain cid c where pick: "picked selection st (rp_subject package) cid c"
    and id: "identity_eq (pk_identity (rp_release package)) (pc_identity c)"
    using finish_package_ok(4)[OF S C pkgs pkg] by blast
  have "visible st (rp_subject package) cid c" using pick by (simp add: picked_def)
  then obtain k0 r x where k0: "solver_key_eq k0 (rp_subject package)" "pv_loader p k0 = Inr r"
    "x \<in> set (lr_candidates r)" "identity_eq (pc_identity x) (pc_identity c)"
    using visible_facts(3)[OF solved_state[OF S]] by blast
  then have "pv_loader p (rp_subject package) = Inr r" using cong unfolding loader_cong_def by metis
  then show ?thesis using k0(3,4) id id_eq.eq_sym id_eq.eq_trans by blast
qed

lemma compare_package_ok:
  assumes "pv_loader p (rp_subject package) = Inr r" "c \<in> set (lr_candidates r)"
    and "identity_eq (pc_identity c) (pk_identity (rp_release package))"
  shows "\<exists>a. compare_package p res packages package = Inr a \<and>
           as_subject a = subject_to_decision_subject (rp_subject package) \<and>
           as_assigned a = candidate_for_subject (rp_subject package) (rp_release package)"
proof -
  have "find (\<lambda>c. identity_eq (pc_identity c) (pk_identity (rp_release package))) (lr_candidates r) \<noteq> None"
    using assms(2,3) by (auto simp: find_None_iff)
  then show ?thesis
    using assms(1) by (auto simp: compare_package_def load_candidates_def loader_releases_def Let_def)
qed

lemma sort_selected_id:
  assumes "sorted_wrt (<) (map rp_name xs)"
  shows "sort_by (\<lambda>l r. then_with (cmp_of (rp_name l) (rp_name r)) (cmp_of (f l) (f r :: string))) xs = xs"
  by (rule total_cmp.sort_by_id[OF total_cmp_then[OF total_cmp_field total_cmp_field]])
    (use assms in \<open>auto simp: sorted_wrt_map cmp_of_def then_with_def elim!: sorted_wrt_mono_rel[rotated]\<close>)

lemma list_all2_map_eq: "list_all2 (\<lambda>x y. f y = g x) xs ys \<Longrightarrow> map f ys = map g xs"
  by (induction rule: list_all2_induct) simp_all

lemma reconstruct_ok:
  assumes S: "solved pg p selection st" and cong: "loader_cong (pv_loader p)"
  shows "\<exists>res comparison. finish p selection st = (Inr res, st) \<and> resolution_ok p res \<and>
           reconstruct_comparison p res = Inr comparison \<and>
           map as_subject comparison = RSubject # map (\<lambda>x. subject_to_decision_subject (rp_subject x)) (rs_packages res) \<and>
           map as_assigned comparison =
             RCandidate (pv_r_version p) # map (\<lambda>x. candidate_for_subject (rp_subject x) (rp_release x)) (rs_packages res)"
proof -
  obtain res where run: "finish p selection st = (Inr res, st)" and ok: "resolution_ok p res"
    using finish_sound[OF S] by blast
  let ?P = "\<lambda>x a. compare_package p res (rs_packages res) x = Inr a \<and>
      as_subject a = subject_to_decision_subject (rp_subject x) \<and> as_assigned a = candidate_for_subject (rp_subject x) (rp_release x)"
  have "\<exists>a. ?P x a" if "x \<in> set (rs_packages res)" for x
    using selected_view[OF S run cong that] compare_package_ok by blast
  from list_all2_exists[of "rs_packages res" ?P, OF this]
  obtain as where as: "list_all2 ?P (rs_packages res) as" ..
  have tm: "try_map (compare_package p res (rs_packages res)) (rs_packages res) = Inr as"
    unfolding try_map_Inr_iff by (rule list_all2_mono[OF as]) (elim conjE)
  have maps: "map as_subject as = map (\<lambda>x. subject_to_decision_subject (rp_subject x)) (rs_packages res)"
      "map as_assigned as = map (\<lambda>x. candidate_for_subject (rp_subject x) (rp_release x)) (rs_packages res)"
    by (rule list_all2_map_eq, rule list_all2_mono[OF as], elim conjE, assumption)+
  have "sort_by (\<lambda>left right. then_with (cmp_of (rp_name left) (rp_name right))
      (cmp_of (identity_sort_key (pk_identity (rp_release left))) (identity_sort_key (pk_identity (rp_release right)))))
      (rs_packages res) = rs_packages res"
    using ok by (intro sort_selected_id) (simp add: resolution_ok_def)
  moreover have "rt_r_version (rs_target res) = pv_r_version p" using ok by (simp add: resolution_ok_def pv_r_version_def)
  ultimately show ?thesis
    using run ok tm maps by (auto simp: reconstruct_comparison_def Let_def)
qed

text \<open>The loaders of the program respect the equality of subjects.\<close>

lemma repository_load_cong: "loader_cong (repository_load l)"
  unfolding loader_cong_def
proof (intro allI impI)
  fix k k' assume eq: "solver_key_eq k k'"
  have "(\<lambda>c. is_eligible_for c k) = (\<lambda>c. is_eligible_for c k')" using is_eligible_key_cong[OF eq] by blast
  moreover have "subject_name k = subject_name k'" using eq by (cases k; cases k') (auto dest: identity_eq_name)
  moreover have "(case k of KeyRepository r _ \<Rightarrow> r \<noteq> rcl_repository l | _ \<Rightarrow> False) =
      (case k' of KeyRepository r _ \<Rightarrow> r \<noteq> rcl_repository l | _ \<Rightarrow> False)" using eq by (cases k; cases k') auto
  ultimately show "repository_load l k = repository_load l k'" by (simp only: repository_load_def)
qed

lemma composite_load_cong: "(\<And>l. l \<in> set loaders \<Longrightarrow> loader_cong l) \<Longrightarrow> loader_cong (composite_load iter loaders)"
  unfolding loader_cong_def
proof (intro allI impI)
  fix k k' assume c: "\<And>l. l \<in> set loaders \<Longrightarrow> \<forall>k k'. solver_key_eq k k' \<longrightarrow> l k = l k'" and eq: "solver_key_eq k k'"
  have "try_fold (composite_step k) acc (enumerate n loaders) = try_fold (composite_step k') acc (enumerate n loaders)" for acc n
    using c
  proof (induction loaders arbitrary: acc n)
    case (Cons l loaders)
    have "l k = l k'" using Cons.prems[of l] eq by simp
    then have "composite_step k acc (n, l) = composite_step k' acc (n, l)" by (simp add: composite_step_def)
    then show ?case using Cons.IH[of _ "Suc n"] Cons.prems by (simp add: bind_res_def split: sum.splits)
  qed simp
  then show "composite_load iter loaders k = composite_load iter loaders k'" by (simp add: composite_load_def)
qed

lemma overlay_load_cong: "loader_cong (ov_loader ov) \<Longrightarrow> loader_cong (overlay_load ov)"
  unfolding loader_cong_def
proof (intro allI impI)
  fix k k' assume c: "\<forall>k k'. solver_key_eq k k' \<longrightarrow> ov_loader ov k = ov_loader ov k'" and eq: "solver_key_eq k k'"
  have "overlay_base ov k = overlay_base ov k'" using eq by (cases k; cases k') (auto simp: overlay_base_def)
  then show "overlay_load ov k = overlay_load ov k'" using c eq by (simp add: overlay_load_def split: option.splits)
qed

end
