(* ===== verification/Spec2Isabelle.thy ===== *)
theory Spec2Isabelle
  imports Lock_Toml_Examples Path_Semantics Repository_Examples Compare
begin

text \<open>
  \<^bold>\<open>rsolve\<close> resolves the dependencies of R packages.  A manifest (\<^verbatim>\<open>rsolve.toml\<close>) is decoded and composed
  into a request, candidate releases are loaded from repositories, PubGrub selects among them through
  the adapter of the resolver crate, and the resolution is locked so that it can be reproduced.  The
  source archives of its packages are kept in a cache, published as a repository in the project, and
  installed by pak.  This development follows that path; the paths below are under \<^verbatim>\<open>src/crates/\<close>.

  \<^bold>\<open>Theories and the code they model\<close>

  \<^item> \<^verbatim>\<open>Prelude\<close>, \<^verbatim>\<open>Rust_Str\<close>: results as sums, \<^verbatim>\<open>Ordering\<close>, stable sorting and \<^verbatim>\<open>dedup\<close>, sorted and hashed maps,
    panics as values of \<^verbatim>\<open>abort\<close>; strings as UTF-8 byte lists with the string methods the code calls.  The
    locales state what a comparison function, an equivalence and a hashed map promise; they are
    interpreted on the comparisons and equalities of the model.
  \<^item> \<^verbatim>\<open>Versions\<close> (\<^verbatim>\<open>rsolve-core/src/r_versions.rs\<close>), \<^verbatim>\<open>Names\<close> (\<^verbatim>\<open>names.rs\<close>, \<^verbatim>\<open>environment.rs\<close>), \<^verbatim>\<open>Identity\<close>
    (\<^verbatim>\<open>identity.rs\<close>), \<^verbatim>\<open>Constraints\<close> (\<^verbatim>\<open>constraints.rs\<close>, \<^verbatim>\<open>publication.rs\<close>), \<^verbatim>\<open>Metadata\<close> (\<^verbatim>\<open>metadata/\<close>),
    \<^verbatim>\<open>Candidates\<close> (\<^verbatim>\<open>candidates.rs\<close>, \<^verbatim>\<open>request.rs\<close>, \<^verbatim>\<open>target.rs\<close>, \<^verbatim>\<open>resolution.rs\<close>): the data model.  Structs are
    records, enums datatypes, \<^verbatim>\<open>u32\<close> a word; every validating constructor returns its error as a value.
  \<^item> \<^verbatim>\<open>Loaders\<close> (\<^verbatim>\<open>rsolve/src/orchestration.rs\<close>, \<^verbatim>\<open>orchestration/candidate_union.rs\<close>, the overlay of
    \<^verbatim>\<open>rsolve-resolver/src/lib.rs\<close>), \<^verbatim>\<open>Policy\<close>, \<^verbatim>\<open>Choice\<close>, \<^verbatim>\<open>Compare\<close> (\<^verbatim>\<open>rsolve-resolver/src/lib.rs\<close>): candidate
    loaders, the base package overlay, preference and lock policies, the comparison of assignments.
  \<^item> \<^verbatim>\<open>Adapter\<close>, \<^verbatim>\<open>Solve\<close> (\<^verbatim>\<open>rsolve-resolver/src/adapter.rs\<close>): the dependency provider handed to PubGrub.  Its
    state, interner and cache, is threaded through the callbacks; \<^verbatim>\<open>callback\<close> is the step relation of
    what PubGrub may do, in any order.  \<^verbatim>\<open>Adapter_Inv\<close> and \<^verbatim>\<open>Solve_Sound\<close> prove its invariant and that a
    selection becomes a resolution.
  \<^item> \<^verbatim>\<open>Repository_Spec\<close> (\<^verbatim>\<open>rsolve/src/manifest/repository.rs\<close>, errors of \<^verbatim>\<open>manifest.rs\<close>), \<^verbatim>\<open>Manifest\<close>
    (\<^verbatim>\<open>manifest.rs\<close>, \<^verbatim>\<open>manifest/compose.rs\<close>), \<^verbatim>\<open>Manifest_Wire\<close> (\<^verbatim>\<open>manifest/wire.rs\<close>): endpoints, repositories and
    allowlists, constraints, decoding, composition, digests.  \<^verbatim>\<open>Manifest_Paths\<close>, \<^verbatim>\<open>Manifest_Sound\<close>,
    \<^verbatim>\<open>Manifest_Compose\<close>, \<^verbatim>\<open>Manifest_Intent\<close> and \<^verbatim>\<open>Manifest_Document\<close> prove their properties; \<^verbatim>\<open>Path_Semantics\<close> says
    what a path means, by walking it from a directory, and relates the normalizers to that.
  \<^item> \<^verbatim>\<open>Lock\<close> (\<^verbatim>\<open>rsolve/src/lock.rs\<close>, the exactness check of \<^verbatim>\<open>orchestration.rs\<close>): the lockfile.  \<^verbatim>\<open>Lock_Sound\<close>,
    \<^verbatim>\<open>Lock_Consume\<close>, \<^verbatim>\<open>Lock_Resolve\<close> and \<^verbatim>\<open>Lock_Roundtrip\<close> prove its properties.  \<^verbatim>\<open>Lock_Wire\<close> (\<^verbatim>\<open>rsolve/src/wire.rs\<close>)
    is its file format, and \<^verbatim>\<open>Lock_Text\<close> proves that the wire structs lose nothing.  \<^verbatim>\<open>Lock_Toml\<close> is a reader for the
    TOML such a file can hold and the deserialization derived for the wire structs; \<^verbatim>\<open>Lock_Toml_Sound\<close> proves that
    the hand-written serializer's text is read back.
  \<^item> \<^verbatim>\<open>Description\<close> (\<^verbatim>\<open>rsolve-provider/src/package_description.rs\<close>): control files and package descriptions.
    \<^verbatim>\<open>Repository_Index\<close> (\<^verbatim>\<open>rsolve-repository/src/packages.rs\<close>): the \<^verbatim>\<open>PACKAGES\<close> file; \<^verbatim>\<open>Index_Sound\<close> and
    \<^verbatim>\<open>Index_Roundtrip\<close> prove that it is read back.
  \<^item> \<^verbatim>\<open>Artifact_Cache\<close> (\<^verbatim>\<open>rsolve-repository/src/lib.rs\<close>, \<^verbatim>\<open>metadata.rs\<close>, \<^verbatim>\<open>input.rs\<close>, \<^verbatim>\<open>object.rs\<close>, \<^verbatim>\<open>paths.rs\<close>) with
    \<^verbatim>\<open>Artifact_Cache_Sound\<close>: bounded reading, hits, misses and publication, in which any call may fail.
    \<^verbatim>\<open>Source_Archive\<close> (\<^verbatim>\<open>archive.rs\<close>): the checks on an archive.
  \<^item> \<^verbatim>\<open>Materialization\<close> (\<^verbatim>\<open>rsolve-repository/src/materialization.rs\<close>, \<^verbatim>\<open>transaction.rs\<close>, \<^verbatim>\<open>filesystem.rs\<close>, \<^verbatim>\<open>state.rs\<close>):
    the project's repository directory and the transaction that publishes it, as a sequence of operations
    that may stop anywhere; \<^verbatim>\<open>Materialization_Sound\<close> and \<^verbatim>\<open>Materialization_Build\<close> prove recovery.  \<^verbatim>\<open>Pak\<close>
    (\<^verbatim>\<open>rsolve/src/pak.rs\<close>): requests to pak and its protocol.
  \<^item> \<^verbatim>\<open>Examples\<close>, \<^verbatim>\<open>Example_Values\<close>, \<^verbatim>\<open>Manifest_Examples\<close>, \<^verbatim>\<open>Lock_Examples\<close>, \<^verbatim>\<open>Lock_Toml_Examples\<close>,
    \<^verbatim>\<open>Repository_Examples\<close>: a small repository, a solver run over it, a manifest, the lock of the run and its
    text, a cache and a repository directory, on which the properties are instantiated.

  \<^bold>\<open>What is shown\<close>

  C1 to C3, C24, C25 and C27: every solution PubGrub may return is turned into a resolution that
  satisfies the request, the provider's state stays consistent under any order of callbacks, and the
  reported dependencies are complete.  C4, C5 and C8: the order and parsing of versions and the
  syntax of subdirectories, exactly.  C11 to C18: canonical forms, digests that identify what they
  digest, validation, aggregation and merging.  C19, C21 and C23: the loaders, exactly when and how they
  fail, and the criteria of the preference order.  C26, C29 and C30: the diagnostic of a failed resolution and the comparison of
  assignments.  C28: the text a lock is written to is read back.  C9, C31, C33 and C34: manifests are
  decoded into well-formed documents, normalized paths lead where the written ones do and never out of the root, composition conjoins all declarations and cannot
  panic, and the intent digest identifies the intent.  C6, C7, C10, C20, C22 and C32: the index is
  read back, an interrupted publication is finished, committed artifacts stay valid hits, downloads
  are read within their bounds, exactly the sound archives are accepted, and pak is asked for and
  reports exactly the selected packages.  C35 to C40: locks are
  canonical, marking terminates, exactly the consumable locks are consumed, and a resolution survives
  locking, consumption and the exactness check.

  \<^bold>\<open>Parameters\<close>

  Code outside the repository is an argument: PubGrub (\<^verbatim>\<open>pubgrub_api\<close> for its range operations with the
  laws \<^verbatim>\<open>pubgrub_laws\<close>, and \<open>run\<close> for its search, of which \<^verbatim>\<open>pubgrub_answer\<close> states what its documentation
  calls a solution.  One of the laws is that \<^verbatim>\<open>DependencyConstraints::from_iter\<close> keeps every entry, a package
  listed twice included, such as one in both \<^verbatim>\<open>Imports\<close> and \<^verbatim>\<open>LinkingTo\<close>: C1, C25, C27 and C30 hold for a release of
  the crate whose container is a list of entries), SHA-256 (32 bytes long; where a digest has to identify its input, no collision on
  the two preimages at hand), IP address parsing, \<^verbatim>\<open>strptime\<close> and \<^verbatim>\<open>strftime\<close>, the \<^verbatim>\<open>url\<close> crate,
  the \<^verbatim>\<open>toml\<close> crate (for C28: it quotes strings so that they can be read back, \<^verbatim>\<open>toml_writes\<close>, and deserializes a text
  as the TOML specification has it, \<^verbatim>\<open>toml_reads\<close>), the providers' raw loaders, the iteration order of hashed sets, gzip and tar decoding, MD5, the deb822
  parser, the nonces of temporary files and what a pak process leaves behind.

  \<^bold>\<open>Bounds\<close>

  Lengths are encoded in 64 bits, so the properties of encodings ask for texts below \<open>2\<^sup>6\<^sup>4\<close> bytes
  (\<^verbatim>\<open>sized\<close>), which no program can exceed.  \<^verbatim>\<open>mark_reachable\<close> takes the depth its recursion may nest; a
  lock of \<open>n\<close> packages is given \<open>n + 1\<close>, which C36 and C37 show is never used up.  The values of a lock file
  nest three deep (an array of inline tables of strings), the depth \<^verbatim>\<open>read_value\<close> is given.  Every other loop is a
  terminating function.

  \<^bold>\<open>Not modelled\<close>

  The providers' HTTP clients and their HTML and JSON decoding, provider caches and prepared
  snapshots, asynchronous orchestration of repositories, downloads, Git and R processes and the command
  line: network, thread and process effects around the operations above.  Of the cache and the
  repository directory, locks, permissions, symbolic links, directory syncs and reflinks are left out.
\<close>

section \<open>Resolution\<close>

text \<open>
  C1. Soundness of \<^verbatim>\<open>solve\<close>.  When PubGrub answers with a selection that is a solution in its
  documented sense, and the loader hands out valid candidates, \<^verbatim>\<open>solve\<close> succeeds: collecting,
  merging and projecting the selection never fails, and the resolution it returns satisfies the
  request.  Every root and every effective dependency is met, hard dependencies are all there, names
  are unique and sorted, no base package is listed, a required lock is respected, and every package
  is within the publication cutoff unless it is locked.
\<close>

theorem solve_sound:
  assumes "pubgrub_laws pg"
    and "\<And>k r c. loader k = Inr r \<Longrightarrow> c \<in> set (lr_candidates r) \<Longrightarrow> candidate_ok c \<and> release_wf (pc_release c)"
    and "run \<lparr>pv_loader = loader, pv_preference = preference, pv_lock_policy = lock_policy, pv_request = request\<rparr>
           initial_state = (Inr selection, st)"
    and "pubgrub_answer pg
           \<lparr>pv_loader = loader, pv_preference = preference, pv_lock_policy = lock_policy, pv_request = request\<rparr>
           selection st"
  shows "\<exists>res. solve debug_tree run loader preference lock_policy request = Inr res \<and>
           resolution_ok
             \<lparr>pv_loader = loader, pv_preference = preference, pv_lock_policy = lock_policy, pv_request = request\<rparr> res"
proof -
  have "solved pg \<lparr>pv_loader = loader, pv_preference = preference, pv_lock_policy = lock_policy, pv_request = request\<rparr>
          selection st"
    using assms by (simp add: solved_def)
  from finish_sound[OF this] show ?thesis using assms(3) by (auto simp: solve_def)
qed

theorem solve_sound_witness:
  "\<exists>res. solve (\<lambda>_. '''') (\<lambda>_ _. (Inr ex_selection, ex_state)) ex_load default_preference prefer_locked ex_request =
           Inr res \<and> resolution_ok ex_provider res"
  unfolding ex_provider_def
  by (rule solve_sound[OF list_api_laws, where run = "\<lambda>_ _. (Inr ex_selection, ex_state)" and st = ex_state])
    (use ex_loader_ok ex_answer in \<open>auto simp: ex_provider_def\<close>)

text \<open>
  C2. Invariant of the provider state.  Whatever callbacks PubGrub makes and in whatever order, from
  the empty state on, the interner and the cache stay consistent (\<^const>\<open>provider_ok\<close>: identifiers and
  identities correspond, every cached subject holds exactly the merged eligible candidates the loader
  returned), and nothing that was interned or cached is ever lost or changed.
\<close>

theorem callbacks_invariant:
  assumes "(callback pg p)\<^sup>*\<^sup>* initial_state s" and "(callback pg p)\<^sup>*\<^sup>* s t"
  shows "provider_ok p s \<and> provider_ok p t \<and> extends_state s t"
  using callbacks_ok[OF assms(1) initial_ok] callbacks_ok[OF assms(2)] by blast

theorem callbacks_invariant_witness:
  "provider_ok ex_provider ex_state1 \<and> provider_ok ex_provider ex_state \<and> extends_state ex_state1 ex_state"
  by (rule callbacks_invariant[OF ex_run(1,2)])

text \<open>
  C3. Candidate identifiers are identities.  In every state the callbacks can reach, two identifiers
  visible under any two subjects are equal exactly when the identities of their candidates are equal,
  so PubGrub's occupancy packages forbid exactly the coexistence of two different releases of a name.
\<close>

theorem interned_identities:
  assumes "(callback pg p)\<^sup>*\<^sup>* initial_state st" and "visible st k a c" and "visible st l b d"
  shows "identity_eq (pc_identity c) (pc_identity d) \<longleftrightarrow> a = b"
proof -
  have ok: "provider_ok p st" using callbacks_ok[OF assms(1) initial_ok] by blast
  then show ?thesis
    using interned_identity_iff visible_facts(1)[OF ok assms(2)] visible_facts(1)[OF ok assms(3)]
    by (auto simp: provider_ok_def)
qed

theorem interned_identities_witness:
  "identity_eq (pc_identity (ex_lib 0)) (pc_identity (ex_lib 2)) \<longleftrightarrow> (1::nat) = 2"
  by (rule interned_identities[OF ex_run(3)]) (use ex_visible in blast)+

section \<open>Versions and names\<close>

text \<open>
  C4. The order of R versions.  \<^verbatim>\<open>Ord for RPackageVersion\<close> is the comparison of the component lists
  padded with zeros, whatever the storage (inline or spilled) and the spelling of the version; it is a
  total preorder whose equality is \<^verbatim>\<open>PartialEq\<close>, and \<^verbatim>\<open>Hash\<close> feeds the hasher equal input exactly for
  equal versions.
\<close>

theorem version_order:
  "version_cmp v w = padded_cmp (version_components v) (version_components w) \<and>
   (version_cmp v w = Equal \<longleftrightarrow> version_eq v w) \<and>
   (version_hash_input v = version_hash_input w \<longleftrightarrow> version_eq v w) \<and>
   version_cmp w v = reverse_ordering (version_cmp v w) \<and>
   (version_cmp u v \<noteq> Greater \<longrightarrow> version_cmp v w \<noteq> Greater \<longrightarrow> version_cmp u w \<noteq> Greater)"
proof (intro conjI impI)
  show "version_cmp v w = padded_cmp (version_components v) (version_components w)" by (rule version_cmp_padded)
  show "version_cmp v w = Equal \<longleftrightarrow> version_eq v w" by (simp only: version_eq_def)
  show "version_hash_input v = version_hash_input w \<longleftrightarrow> version_eq v w" by (rule version_hash_input_iff)
  show "version_cmp w v = reverse_ordering (version_cmp v w)" by (rule vers.cmp_flip)
  show "version_cmp u v \<noteq> Greater \<Longrightarrow> version_cmp v w \<noteq> Greater \<Longrightarrow> version_cmp u w \<noteq> Greater"
    by (rule vers.cmp_le_trans)
qed

theorem version_order_witness:
  "version_cmp (ex_version 1 0) (ex_version 1 2) \<noteq> Greater \<and> version_cmp (ex_version 1 2) (ex_version 4 4) \<noteq> Greater \<and>
   version_cmp (ex_version 1 0) (ex_version 4 4) \<noteq> Greater"
proof -
  have "version_cmp (ex_version 1 0) (ex_version 1 2) \<noteq> Greater" "version_cmp (ex_version 1 2) (ex_version 4 4) \<noteq> Greater"
    by code_simp+
  then show ?thesis using version_order[of "ex_version 1 2" "ex_version 4 4" "ex_version 1 0"] by blast
qed

text \<open>
  C5. Which strings are versions.  A string parses exactly when it is non-empty and its
  components, split at dots and dashes, are non-empty runs of digits below \<open>2\<^sup>3\<^sup>2\<close>, of which there are
  enough; the value keeps the text and the components' values.  A component that does not fit 32 bits
  is reported as an overflow at its index, never wrapped.
\<close>

theorem version_parsing:
  "(parse_with_minimum s n = Inr v \<longleftrightarrow>
     s \<noteq> [] \<and> (\<forall>c\<in>set (split_on is_version_separator s). component_text c) \<and>
     n \<le> length (split_on is_version_separator s) \<and>
     v = \<lparr>rv_raw = s,
          rv_components = components_from_vec (map component_value (split_on is_version_separator s))\<rparr>) \<and>
   (list_all is_ascii_digit bs \<longrightarrow> 2 ^ 32 \<le> dec_value 0 bs \<longrightarrow> parse_component i 0 bs = Inl (ComponentOverflow i))"
  using parse_with_minimum_Inr_iff parse_component_value[of bs i 0] by (auto simp: list_all_iff)

theorem version_parsing_witness:
  "parse_component 3 0 ''4294967296'' = Inl (ComponentOverflow 3)"
proof -
  have "list_all is_ascii_digit ''4294967296''" "2 ^ 32 \<le> dec_value 0 ''4294967296''" by code_simp+
  then show ?thesis using version_parsing[of "''1.0''" 2 "ex_version 1 0" "''4294967296''" 3] by blast
qed

text \<open>
  C8. Repository subdirectories cannot escape.  Every accepted subdirectory is a non-empty relative
  slash path without backslashes, control characters or a drive prefix, none of whose components is
  empty, a dot or a parent reference, and it is accepted unchanged.
\<close>

theorem repository_subdirs:
  "repository_subdir_new s = Inr d \<longleftrightarrow>
     d = s \<and> s \<noteq> [] \<and> \<not> starts_with ''/'' s \<and> CHR 0x5C \<notin> set s \<and>
     list_all (\<lambda>p. \<not> is_control p) (chars s) \<and> \<not> has_drive_prefix (hd (slash_split s)) \<and>
     list_all (\<lambda>c. c \<notin> {[], ''.'', ''..''}) (slash_split s)"
  unfolding repository_subdir_new_Inr_iff list_all_iff by auto

section \<open>Identity and metadata\<close>

text \<open>
  C11. The canonical form of distributions.  The byte key is injective, and canonicalization keeps
  exactly the distributions, in an order and multiplicity that depend only on the set: two lists have
  the same canonical form exactly when they hold the same distributions.
\<close>

theorem distributions_canonical:
  assumes "list_all distribution_sized ds" and "list_all distribution_sized es"
  shows "(canonicalize_distributions ds = canonicalize_distributions es \<longleftrightarrow> set ds = set es) \<and>
         set (canonicalize_distributions ds) = set ds \<and>
         canonicalize_distributions (canonicalize_distributions ds) = canonicalize_distributions ds \<and>
         inj_on distribution_key (set ds)"
  using set_canonicalize[OF assms(1)] set_canonicalize[OF assms(2)] canonicalize_cong_set[OF assms(1), of es]
    canonicalize_idem sized_inj[OF assms(1)] by metis

theorem distributions_canonical_witness:
  "canonicalize_distributions [ex_distribution None, ex_distribution (Some ''2024''), ex_distribution None] =
   canonicalize_distributions [ex_distribution (Some ''2024''), ex_distribution None]"
proof -
  have "list_all distribution_sized [ex_distribution None, ex_distribution (Some ''2024''), ex_distribution None]"
    "list_all distribution_sized [ex_distribution (Some ''2024''), ex_distribution None]"
    by (simp_all add: ex_distribution_def distribution_sized_def sized_def)
  from distributions_canonical[OF this] show ?thesis by auto
qed

text \<open>
  C12. Composition of root requirements.  When it succeeds there is one root per name, in name
  order; a version satisfies it exactly when it satisfies every requirement of that name, it expands
  suggestions exactly when one of them asks for it, and it agrees with every source they name.
\<close>

theorem root_composition:
  assumes "combine_root_requirements roots = Inr out"
  shows "sorted_wrt (<) (map (\<lambda>r. pr_name (rr_package r)) out) \<and>
    (\<lambda>r. pr_name (rr_package r)) ` set out = (\<lambda>r. pr_name (rr_package r)) ` set roots \<and>
    (\<forall>r\<in>set out.
       (\<forall>v. satisfies (pr_constraint (rr_package r)) v \<longleftrightarrow>
          (\<forall>q\<in>set roots. pr_name (rr_package q) = pr_name (rr_package r) \<longrightarrow> satisfies (pr_constraint (rr_package q)) v)) \<and>
       (rr_expansion r = DirectSuggests \<longleftrightarrow>
          (\<exists>q\<in>set roots. pr_name (rr_package q) = pr_name (rr_package r) \<and> rr_expansion q = DirectSuggests)) \<and>
       (\<forall>q\<in>set roots. pr_name (rr_package q) = pr_name (rr_package r) \<longrightarrow>
          pr_source (rr_package q) = SourceAny \<or> source_eq (pr_source (rr_package r)) (pr_source (rr_package q))))"
proof (intro conjI ballI)
  note C = combine_root_requirements_ok[OF assms]
  show "sorted_wrt (<) (map (\<lambda>r. pr_name (rr_package r)) out)"
    and "(\<lambda>r. pr_name (rr_package r)) ` set out = (\<lambda>r. pr_name (rr_package r)) ` set roots" by (fact C)+
next
  fix r assume "r \<in> set out"
  then have M: "merges_roots roots (pr_name (rr_package r)) r" by (rule combine_root_requirements_ok(3)[OF assms])
  show "\<forall>v. satisfies (pr_constraint (rr_package r)) v \<longleftrightarrow>
      (\<forall>q\<in>set roots. pr_name (rr_package q) = pr_name (rr_package r) \<longrightarrow> satisfies (pr_constraint (rr_package q)) v)"
    using merges_roots_satisfies[OF M] by blast
  show "rr_expansion r = DirectSuggests \<longleftrightarrow>
      (\<exists>q\<in>set roots. pr_name (rr_package q) = pr_name (rr_package r) \<and> rr_expansion q = DirectSuggests)"
    using M by (simp add: merges_roots_def)
  fix q assume "q \<in> set roots"
  then show "pr_name (rr_package q) = pr_name (rr_package r) \<longrightarrow>
      pr_source (rr_package q) = SourceAny \<or> source_eq (pr_source (rr_package r)) (pr_source (rr_package q))"
    using M by (simp add: merges_roots_def)
qed

theorem root_composition_witness:
  "\<exists>out. combine_root_requirements
       [ex_root ''lib'' HardOnly, ex_root ''app'' HardOnly, ex_root ''lib'' DirectSuggests] = Inr out \<and>
     sorted_wrt (<) (map (\<lambda>r. pr_name (rr_package r)) out)"
proof -
  obtain out where out: "combine_root_requirements
      [ex_root ''lib'' HardOnly, ex_root ''app'' HardOnly, ex_root ''lib'' DirectSuggests] = Inr out"
    using ex_composition by blast
  show ?thesis by (rule exI[of _ out]) (rule conjI[OF out conjunct1[OF root_composition[OF out]]])
qed

text \<open>
  C13. The metadata digest identifies the logical metadata.  Computing it never panics, and unless
  SHA-256 collides on the two preimages, two digests are equal exactly when the identities and
  versions are equal and the sets of dependencies, each with its set of clauses, are the same.
\<close>

theorem metadata_digest_identifies:
  assumes "metadata_sized i v ds" and "metadata_sized j w es"
    and "\<And>bs. length (sha bs) = 32"
    and "sha (encode_metadata i v ds) = sha (encode_metadata j w es) \<Longrightarrow> encode_metadata i v ds = encode_metadata j w es"
  shows "sha256_digest_new (hex_string (sha (encode_metadata i v ds))) = Inr (canonical_metadata_digest sha i v ds) \<and>
    (canonical_metadata_digest sha i v ds = canonical_metadata_digest sha j w es \<longleftrightarrow>
       identity_eq i j \<and> version_eq v w \<and> same_set same_dependency ds es)"
proof -
  note D = canonical_metadata_digest_ok[of sha, OF assms(3)]
  have "canonical_metadata_digest sha i v ds = canonical_metadata_digest sha j w es \<longleftrightarrow>
      encode_metadata i v ds = encode_metadata j w es"
    unfolding D(2) hex_string_inject by (rule iffI, erule assms(4)) (rule arg_cong)
  then show ?thesis using D(1)[of i v ds] encode_metadata_iff[OF assms(1,2)] by blast
qed

theorem metadata_digest_identifies_witness:
  "canonical_metadata_digest ex_sha (pc_identity ex_app) (ex_version 1 0) (pk_declared_dependencies (pc_release ex_app)) \<noteq>
   canonical_metadata_digest ex_sha (pc_identity ex_app) (ex_version 1 0) []"
proof -
  let ?i = "pc_identity ex_app" and ?ds = "pk_declared_dependencies (pc_release ex_app)"
  have len: "length (ex_sha bs) = 32" for bs by (simp add: ex_sha_def)
  have "ex_sha (encode_metadata ?i (ex_version 1 0) ?ds) \<noteq> ex_sha (encode_metadata ?i (ex_version 1 0) [])"
    by code_simp
  moreover have "\<not> same_set same_dependency ?ds []" by code_simp
  ultimately show ?thesis
    using metadata_digest_identifies[of ?i "ex_version 1 0" ?ds ?i "ex_version 1 0" "[]" ex_sha, OF ex_metadata_sized len]
    by blast
qed

text \<open>
  C14. Validation of a release.  \<^verbatim>\<open>PackageRelease::try_from\<close> accepts an observation exactly when it
  names the package of its identity, its version is the one a registry, Bioconductor or R published it
  under (commits and immutable sources fix none), and every dependency names one package; otherwise
  the error says which of these fails first, a dependency by the index of the first malformed one.  The
  release keeps every fact that was observed, has each observed distribution once whatever their
  order, carries the hexadecimal SHA-256 of its encoded metadata, and validating the release's own facts
  again gives the same release.
\<close>

theorem release_validation:
  assumes "\<And>bs. length (sha bs) = 32" and "list_all distribution_sized (ob_distributions ob)"
  shows "((\<exists>r. package_release_try_from sha ob = Inr r) \<longleftrightarrow>
      ri_name (ob_identity ob) = ob_observed_package ob \<and>
      provenance_admits (ri_provenance (ob_identity ob)) (ob_observed_version ob) \<and>
      (\<forall>d\<in>set (ob_declared_dependencies ob). names_one_package d)) \<and>
    (\<forall>e. package_release_try_from sha ob = Inl e \<longleftrightarrow>
      (if ri_name (ob_identity ob) \<noteq> ob_observed_package ob then e = package_release_error.ConflictingMetadata ''package name''
       else if \<not> provenance_admits (ri_provenance (ob_identity ob)) (ob_observed_version ob)
       then e = package_release_error.ConflictingMetadata ''provenance version''
       else \<exists>n < length (ob_declared_dependencies ob). e = package_release_error.InvalidDependency n \<and>
              \<not> names_one_package (ob_declared_dependencies ob ! n) \<and>
              (\<forall>m<n. names_one_package (ob_declared_dependencies ob ! m)))) \<and>
    (\<forall>r. package_release_try_from sha ob = Inr r \<longrightarrow>
      pk_identity r = ob_identity ob \<and> pk_version r = ob_observed_version ob \<and> pk_metadata r = ob_metadata ob \<and>
      pk_publication r = ob_publication ob \<and> pk_declared_dependencies r = ob_declared_dependencies ob \<and>
      set (pk_distributions r) = set (ob_distributions ob) \<and> distinct (pk_distributions r) \<and>
      pk_metadata_digest r =
        hex_string (sha (encode_metadata (ob_identity ob) (ob_observed_version ob) (ob_declared_dependencies ob))) \<and>
      (\<forall>ds. set ds = set (ob_distributions ob) \<longrightarrow>
         package_release_try_from sha (ob\<lparr>ob_distributions := ds\<rparr>) = Inr r) \<and>
      package_release_try_from sha (observation_of r) = Inr r)"
  using try_from_accepted[of sha ob] try_from_rejected[of sha ob] try_from_distributions[OF _ assms(2), of sha]
    try_from_stable[of sha ob] canonical_metadata_digest_ok(2)[of sha, OF assms(1)]
  by (auto simp: package_release_try_from_Inr_iff[of sha ob])

theorem release_validation_witness:
  "package_release_try_from ex_sha (observation_of (ex_observed_release [ex_distribution None])) =
     Inr (ex_observed_release [ex_distribution None])"
proof -
  have "length (ex_sha bs) = 32" for bs by (simp add: ex_sha_def)
  moreover have "list_all distribution_sized (ob_distributions (ex_observation [ex_distribution None]))"
    by (simp add: ex_observation_def ex_distribution_def distribution_sized_def sized_def)
  ultimately show ?thesis
    using release_validation[of ex_sha "ex_observation [ex_distribution None]"] ex_observed[of "[ex_distribution None]"] by blast
qed

text \<open>
  C15. Aggregation of observations.  When every observation is accepted, the aggregation knows exactly
  the observed identities; the release of each agrees with all its observations, takes its publication
  date from one of them, and its distributions are exactly theirs.
\<close>

theorem aggregation_correct:
  assumes "try_fold (observe sha) [] obs = Inr agg"
  shows "\<exists>releases. list_all2 (\<lambda>ob r. package_release_try_from sha ob = Inr r) obs releases \<and>
    (\<forall>i. case aggregation_get agg i of
           None \<Rightarrow> filter (\<lambda>r. identity_eq (pk_identity r) i) releases = []
         | Some r \<Rightarrow> identity_eq (pk_identity r) i \<and>
                     aggregates (filter (\<lambda>r. identity_eq (pk_identity r) i) releases) r)"
proof -
  obtain releases where rs: "list_all2 (\<lambda>ob r. package_release_try_from sha ob = Inr r) obs releases"
    "try_fold observe_release [] releases = Inr agg"
    using observe_all[OF assms] by blast
  show ?thesis by (rule exI[of _ releases]) (intro conjI allI rs(1) aggregation_summary[OF rs(2)])
qed

theorem aggregation_correct_witness:
  "\<exists>releases agg. list_all2 (\<lambda>ob r. package_release_try_from ex_sha ob = Inr r)
     [ex_observation [ex_distribution None], ex_observation [ex_distribution (Some ''2024'')]] releases \<and>
   try_fold (observe ex_sha) []
     [ex_observation [ex_distribution None], ex_observation [ex_distribution (Some ''2024'')]] = Inr agg"
proof -
  obtain agg where "try_fold (observe ex_sha) []
     [ex_observation [ex_distribution None], ex_observation [ex_distribution (Some ''2024'')]] = Inr agg"
    using ex_aggregation by blast
  with aggregation_correct[OF this] show ?thesis by blast
qed

section \<open>Candidates and loaders\<close>

text \<open>
  C16. Merging candidates.  A successful merge yields a valid candidate that is eligible for exactly
  the subjects one of the two is eligible for: a metadata-only occurrence is never promoted, and no
  exposure is lost.  Its occurrences are those of the two, one per repository.
\<close>

theorem candidate_merging:
  assumes "candidate_merge a b = Inr m"
  shows "candidate_ok m \<and> pc_identity m = pc_identity a \<and> identity_eq (pc_identity a) (pc_identity b) \<and>
    (is_eligible_for m k \<longleftrightarrow> is_eligible_for a k \<or> is_eligible_for b k) \<and>
    oc_facts ` set (pc_occurrences m) = oc_facts ` set (pc_occurrences a) \<union> oc_facts ` set (pc_occurrences b)"
  using candidate_merge_Inr(1-4)[OF assms] merge_eligible_iff[OF assms]
  by (simp add: merged_occurrences_def image_Un)

theorem candidate_merging_witness: "\<exists>m. candidate_merge ex_app ex_app = Inr m \<and> candidate_ok m"
  using candidate_merging ex_merge by blast

text \<open>
  C17. Merging what says the same never fails.  Two valid candidates of a release with the same facts
  merge, and the merge changes nothing of the release; so the interner's check makes the merge at the
  end of \<^verbatim>\<open>solve\<close> infallible.
\<close>

theorem same_facts_merge:
  assumes "candidate_ok a" and "candidate_ok b" and "release_wf (pc_release a)" and "candidate_same_facts a b"
  shows "\<exists>m. candidate_merge a b = Inr m \<and> pc_release m = pc_release a \<and> candidate_ok m"
  using compatible_merge[OF same_facts_compatible[OF assms(4,1,2,3)]] unfolding compatible_def by blast

theorem same_facts_merge_witness:
  "\<exists>m. candidate_merge (ex_lib 2) (ex_lib 2) = Inr m \<and> pc_release m = pc_release (ex_lib 2) \<and> candidate_ok m"
  by (rule same_facts_merge) (rule ex_candidates_ok candidate_same_facts_refl)+

text \<open>
  C18. The union of candidates.  \<^verbatim>\<open>PreparedCandidateSet::from_candidates\<close> keeps one candidate per
  identity; each unites exactly the inserted candidates of its identity, and every inserted candidate
  is represented.
\<close>

theorem candidate_union_correct:
  assumes "from_candidates cs = Inr u"
  shows "sorted_wrt (\<lambda>a b. \<not> identity_eq (pc_identity a) (pc_identity b)) (map snd u) \<and>
    (\<forall>m\<in>set (map snd u). unites (filter (\<lambda>c. identity_eq (pc_identity c) (pc_identity m)) cs) m) \<and>
    (\<forall>c\<in>set cs. \<exists>m\<in>set (map snd u). identity_eq (pc_identity m) (pc_identity c))"
  using candidate_union.union_values_distinct candidate_union.union_values candidate_union.union_value_of
    assms[unfolded from_candidates_def candidate_set_insert_union] by blast

theorem candidate_union_correct_witness:
  "unites (filter (\<lambda>c. identity_eq (pc_identity c) (pc_identity (ex_lib 2))) [ex_lib 0, ex_lib 2]) (ex_lib 2)"
proof -
  have "ex_lib 2 \<in> set (map snd [(pc_identity (ex_lib 0), ex_lib 0), (pc_identity (ex_lib 2), ex_lib 2)])" by simp
  then show ?thesis using candidate_union_correct[OF ex_union] by blast
qed

text \<open>
  C19. The loader stack keeps its contract.  Over any repositories, and in whatever order hashed
  candidates are handed out, the composite loader under the base package overlay returns only valid
  candidates, each eligible for the subject it was loaded for, and it hands on the canonical form of
  the providers' releases.
\<close>

theorem loader_stack:
  assumes "\<And>cs. mset (iter cs) = mset cs"
    and "overlay_new sha (composite_load iter (map repository_load ls)) v = Inr ov"
    and "overlay_load ov k = Inr r" and "c \<in> set (lr_candidates r)"
  shows "candidate_ok c \<and> is_eligible_for c k \<and> (list_all raw_wf ls \<longrightarrow> release_wf (pc_release c))"
proof -
  have "candidate_ok c \<and> is_eligible_for c k"
    using overlay_loader.overlay_sound[OF overlay_stack[OF assms(1,2)] assms(3,4)] .
  moreover have "release_wf (pc_release c)" if "list_all raw_wf ls"
  proof -
    have "hands_on_wf (composite_load iter (map repository_load ls))"
      using that repository_load_wf by (intro composite_load_wf assms(1)) (auto simp: list_all_iff)
    then show ?thesis using overlay_load_wf[OF assms(2)] assms(3,4) unfolding hands_on_wf_def by blast
  qed
  ultimately show ?thesis by blast
qed

theorem loader_stack_witness:
  "candidate_ok (ex_loaded ''main'' 0) \<and> is_eligible_for (ex_loaded ''main'' 0) (KeyInstalledName ''lib'') \<and>
   release_wf (pc_release (ex_loaded ''main'' 0))"
proof -
  obtain ov where ov: "overlay_new ex_sha (composite_load (\<lambda>cs. cs) (map repository_load [ex_repository ''main'' 0]))
      (ex_version 4 4) = Inr ov" using overlay_new_ok by blast
  have "overlay_load ov (KeyInstalledName ''lib'') = Inr \<lparr>lr_candidates = [ex_loaded ''main'' 0], lr_quarantined = []\<rparr>"
    using ex_overlay_load[OF ov] .
  from loader_stack[OF refl ov this, of "ex_loaded ''main'' 0"] show ?thesis using ex_raw_wf by simp
qed

text \<open>
  C21. The composite loader's answers and errors.  It fails exactly at the first loader that reports an
  error other than \<^verbatim>\<open>NotFound\<close> or whose candidates cannot be united with those before it: the error has
  that loader's own category, or \<^verbatim>\<open>MetadataInvalid\<close> for a conflict, and its index in the diagnostic.
  Otherwise it answers with the union of all candidates, and with every quarantined candidate once.
\<close>

theorem composite_errors:
  "(\<forall>err. composite_load iter loaders k = Inl err \<longleftrightarrow>
      (\<exists>pre l post cs. loaders = pre @ l # post \<and>
         (\<forall>l\<in>set pre. \<forall>e. l k = Inl e \<longrightarrow> le_category e = NotFound) \<and>
         from_candidates (concat (map lr_candidates (answers pre k))) = Inr cs \<and>
         ((\<exists>e. l k = Inl e \<and> le_category e \<noteq> NotFound \<and> le_category err = le_category e \<and>
             le_diagnostic err = ''candidate source '' @ show_nat (length pre) @ '': '' @ le_diagnostic e) \<or>
          (\<exists>r e. l k = Inr r \<and> from_candidates (concat (map lr_candidates (answers pre k)) @ lr_candidates r) = Inl e \<and>
             le_category err = MetadataInvalid \<and>
             le_diagnostic err = ''candidate source '' @ show_nat (length pre) @ '' produced a merge conflict: '' @
               prepared_candidate_error_display e)))) \<and>
   (\<forall>r. composite_load iter loaders k = Inr r \<longrightarrow>
      (\<forall>l\<in>set loaders. \<forall>e. l k = Inl e \<longrightarrow> le_category e = NotFound) \<and>
      (\<exists>cs. from_candidates (concat (map lr_candidates (answers loaders k))) = Inr cs \<and>
            lr_candidates r = set_candidates iter cs) \<and>
      (\<forall>q. (\<exists>p\<in>set (lr_quarantined r). quarantined_eq p q) \<longleftrightarrow>
           (\<exists>a\<in>set (answers loaders k). \<exists>p\<in>set (lr_quarantined a). quarantined_eq p q)) \<and>
      sorted_wrt (\<lambda>p q. \<not> quarantined_eq p q) (lr_quarantined r))"
proof (intro conjI allI impI)
  have fields: "err = candidate_load_error_new c d \<longleftrightarrow> le_category err = c \<and> le_diagnostic err = d" for err c d
    by (cases err) (auto simp: candidate_load_error_new_def)
  show "composite_load iter loaders k = Inl err \<longleftrightarrow>
      (\<exists>pre l post cs. loaders = pre @ l # post \<and>
         (\<forall>l\<in>set pre. \<forall>e. l k = Inl e \<longrightarrow> le_category e = NotFound) \<and>
         from_candidates (concat (map lr_candidates (answers pre k))) = Inr cs \<and>
         ((\<exists>e. l k = Inl e \<and> le_category e \<noteq> NotFound \<and> le_category err = le_category e \<and>
             le_diagnostic err = ''candidate source '' @ show_nat (length pre) @ '': '' @ le_diagnostic e) \<or>
          (\<exists>r e. l k = Inr r \<and> from_candidates (concat (map lr_candidates (answers pre k)) @ lr_candidates r) = Inl e \<and>
             le_category err = MetadataInvalid \<and>
             le_diagnostic err = ''candidate source '' @ show_nat (length pre) @ '' produced a merge conflict: '' @
               prepared_candidate_error_display e)))" for err
    unfolding composite_load_Inl_iff contextual_error_def fields ..
next
  fix r assume "composite_load iter loaders k = Inr r"
  note answer = this[unfolded composite_load_Inr_iff]
  then show "\<exists>cs. from_candidates (concat (map lr_candidates (answers loaders k))) = Inr cs \<and>
      lr_candidates r = set_candidates iter cs" "\<forall>l\<in>set loaders. \<forall>e. l k = Inl e \<longrightarrow> le_category e = NotFound"
    by (auto simp: candidate_load_result_new_def)
  have quarantined: "lr_quarantined r = foldl push_quarantined [] (concat (map lr_quarantined (answers loaders k)))"
    using answer by (auto simp: candidate_load_result_new_def)
  show "(\<exists>p\<in>set (lr_quarantined r). quarantined_eq p q) \<longleftrightarrow>
      (\<exists>a\<in>set (answers loaders k). \<exists>p\<in>set (lr_quarantined a). quarantined_eq p q)" for q
    using push_quarantined_known[of q "[]"] by (simp add: quarantined list_ex_iff)
  show "sorted_wrt (\<lambda>p q. \<not> quarantined_eq p q) (lr_quarantined r)"
    unfolding quarantined by (rule push_quarantined_apart) simp
qed

theorem composite_errors_witness:
  "\<exists>err. composite_load (\<lambda>cs. cs) [\<lambda>_. Inr empty_load_result, \<lambda>_. Inl (candidate_load_error_new TransportFailure ''offline'')] KeyR =
     Inl err \<and> le_category err = TransportFailure \<and> le_diagnostic err = ''candidate source 1: offline''"
proof -
  let ?l = "\<lambda>_. Inr empty_load_result :: candidate_load_error + candidate_load_result"
    and ?m = "\<lambda>_. Inl (candidate_load_error_new TransportFailure ''offline'') :: candidate_load_error + candidate_load_result"
  let ?err = "candidate_load_error_new TransportFailure ''candidate source 1: offline''"
  have one: "show_nat (Suc 0) = ''1''" by code_simp
  have "composite_load (\<lambda>cs. cs) [?l, ?m] KeyR = Inl ?err"
    by (rule composite_errors[of "\<lambda>cs. cs" "[?l, ?m]" KeyR, THEN conjunct1, THEN spec, THEN iffD2],
        rule exI[of _ "[?l]"], rule exI[of _ ?m], rule exI[of _ "[]"], rule exI[of _ "[]"])
      (simp add: one answers_def empty_load_result_def candidate_load_result_new_def from_candidates_def candidate_load_error_new_def)
  then show ?thesis by (simp add: candidate_load_error_new_def)
qed

section \<open>Policies and the solver's callbacks\<close>

text \<open>
  C23. The default preference is a total preorder for every subject and context, so sorting by it is
  meaningful.  One candidate is preferred over another exactly when it is better at the first criterion
  that tells them apart: being the locked release; for unlocked ones, being still listed by a repository
  that serves the subject; the higher version; the repository declared first; the identity's text.
\<close>

theorem default_preference_order:
  "total_preference default_preference \<and>
   (default_preference k a b ctx = Greater \<longleftrightarrow> beats (preference_criteria k ctx) a b) \<and>
   (default_preference k a b ctx = Less \<longleftrightarrow> beats (preference_criteria k ctx) b a)"
  using total_default_preference default_preference_beats[of k a b ctx] default_preference_beats[of k b a ctx]
    default_preference_flip[of k b a ctx] by (cases "default_preference k a b ctx") (auto simp: reverse_ordering_def)

theorem default_preference_order_witness:
  "default_preference (KeyInstalledName ''lib'') (ex_lib 0) (ex_lib 2) \<lparr>px_locked = Some (pc_identity (ex_lib 0))\<rparr> = Greater"
proof -
  let ?ctx = "\<lparr>px_locked = Some (pc_identity (ex_lib 0))\<rparr>"
  have "holds_lock ?ctx (ex_lib 0)" "\<not> holds_lock ?ctx (ex_lib 2)"
    using ex_lib_distinct by (simp_all add: holds_lock_def id_eq.eq_refl)
  then have "beats (preference_criteria (KeyInstalledName ''lib'') ?ctx) (ex_lib 0) (ex_lib 2)"
    by (simp add: preference_criteria_def)
  then show ?thesis using default_preference_order[of "KeyInstalledName ''lib''" "ex_lib 0" "ex_lib 2" ?ctx] by blast
qed

text \<open>
  C24. The chosen version.  For a package subject \<^verbatim>\<open>choose_version\<close> returns nothing exactly when the
  range and a required lock leave no candidate.  Otherwise it returns a candidate that the publication
  policy admits whenever it admits any, and no candidate with the same or a better standing is
  preferred over it.
\<close>

theorem chosen_version:
  assumes "(callback pg p)\<^sup>*\<^sup>* initial_state st" and "total_preference (pv_preference p)" and "k \<noteq> KeyR"
    and "choose_version pg p (PSubject k) r st = (Inr a, st')"
  shows "(a = None \<longleftrightarrow> (\<forall>cid c. \<not> offered pg p k r st' cid c)) \<and>
    (\<forall>v. a = Some v \<longrightarrow> (\<exists>cid c. v = VCandidate cid \<and> offered pg p k r st' cid c \<and>
       (\<forall>d x. offered pg p k r st' d x \<longrightarrow>
          (publication_ok p k x \<longrightarrow> publication_ok p k c) \<and>
          (publication_ok p k x \<or> \<not> publication_ok p k c \<longrightarrow>
             compare_prepared_candidates (pv_preference p) k x c \<lparr>px_locked = locked_identity (pv_lock_decision p k)\<rparr> \<noteq> Greater))))"
  using choose_version_best[OF _ assms(2-4)] callbacks_ok[OF assms(1) initial_ok] by blast

theorem chosen_version_witness:
  "\<exists>c. offered list_api ex_provider (KeyInstalledName ''lib'') [VCandidate 1, VCandidate 2] ex_state 2 c"
proof -
  have "total_preference (pv_preference ex_provider)" using total_default_preference by (simp add: ex_provider_def)
  from chosen_version[OF ex_run(3) this _ ex_choices(2)] show ?thesis by auto
qed

text \<open>
  C25. The reported dependencies.  The dependencies of the root contain R's range and cover every root
  requirement; those of a candidate occupy its installed name and cover every effective dependency:
  each is constrained to exactly versions of its subject that satisfy it, all of them visible.  A
  candidate outside the publication policy reports none.
\<close>

theorem reported_dependencies:
  assumes "pubgrub_laws pg" and "(callback pg p)\<^sup>*\<^sup>* initial_state st"
    and "get_dependencies pg p q v st = (Inr (DepsAvailable deps), st')"
  shows "(q = PRoot \<longrightarrow> v = VRoot \<longrightarrow>
      (PSubject KeyR, r_range pg p (rq_r_requirement (pv_request p))) \<in> set deps \<and>
      (\<forall>root\<in>set (rq_roots (pv_request p)). covered pg p st' deps (rr_package root))) \<and>
    (\<forall>k cid. q = PSubject k \<longrightarrow> v = VCandidate cid \<longrightarrow> k \<noteq> KeyR \<longrightarrow>
      (\<exists>c expansion. visible st' k cid c \<and> expansion_for_subject p k = Inr expansion \<and>
         (publication_ok p k c \<or> excluded_by_lock p k c) \<and>
         (POccupancy (ri_name (pc_identity c)), pg_singleton pg (VCandidate cid)) \<in> set deps \<and>
         (\<forall>e\<in>set (project_dependency_edges (pc_release c) expansion). covered pg p st' deps (re_package e))))"
proof -
  have ok: "provider_ok p st" using callbacks_ok[OF assms(2) initial_ok] by blast
  have "subject_dependencies pg p k cid st = (Inr (DepsAvailable deps), st')"
    if "q = PSubject k" "v = VCandidate cid" "k \<noteq> KeyR" for k cid
    using assms(3) that by (cases k) (auto simp: get_dependencies_def)
  then show ?thesis
    using subject_dependencies_available[OF assms(1) ok] root_dependencies_available[OF assms(1) ok] assms(3) by blast
qed

theorem reported_dependencies_witness:
  "(PSubject KeyR, r_range list_api ex_provider (rq_r_requirement (pv_request ex_provider)))
     \<in> set [(PSubject KeyR, [VR (ex_version 4 4)]), (PSubject (KeyInstalledName ''app''), [VCandidate 0])]"
  using reported_dependencies[OF list_api_laws rtranclp.rtrancl_refl ex_root_dependencies] by blast

text \<open>
  C26. The publication diagnostic.  When a resolution fails under a cutoff, the diagnostic is present
  exactly when PubGrub's proof contains a publication rejection; it reports the cutoff and exactly the
  rejections of the proof, up to equality.
\<close>

theorem publication_diagnostic:
  "(publication_policy_diagnostic tree (Some cutoff) = None \<longleftrightarrow> proof_rejections tree = {}) \<and>
   (publication_policy_diagnostic tree (Some cutoff) = Some diagnostic \<longrightarrow>
      pd_cutoff diagnostic = cutoff \<and>
      set (pd_rejections diagnostic) \<subseteq> proof_rejections tree \<and>
      (\<forall>x\<in>proof_rejections tree. \<exists>y\<in>set (pd_rejections diagnostic). publication_rejection_eq x y))"
  using publication_diagnostic_ok[OF refl, of tree cutoff] by blast

theorem publication_diagnostic_witness:
  "publication_policy_diagnostic
     (Derived ExternalOther (ExternalCustom (PublicationMessage [PublicationUnknown (pc_identity ex_app)])))
     (Some (2024, 1, 1)) \<noteq> None"
  using publication_diagnostic[of
      "Derived ExternalOther (ExternalCustom (PublicationMessage [PublicationUnknown (pc_identity ex_app)]))" "(2024, 1, 1)"]
  by simp

text \<open>
  C27. Resolution over repositories.  With the loader stack the program builds, repositories below the
  composite loader below the base package overlay, in whatever order hashed candidates are handed out,
  the only assumption left on the loader is that the providers' releases are in canonical form: \<^verbatim>\<open>solve\<close> then turns every PubGrub solution into a
  resolution that satisfies the request.
\<close>

theorem solve_over_repositories:
  assumes "pubgrub_laws pg" and "list_all raw_wf ls" and "\<And>cs. mset (iter cs) = mset cs"
    and "overlay_new sha (composite_load iter (map repository_load ls)) (rt_r_version (rq_target request)) = Inr ov"
    and "run \<lparr>pv_loader = overlay_load ov, pv_preference = default_preference, pv_lock_policy = lock_policy, pv_request = request\<rparr>
           initial_state = (Inr selection, st)"
    and "pubgrub_answer pg
           \<lparr>pv_loader = overlay_load ov, pv_preference = default_preference, pv_lock_policy = lock_policy, pv_request = request\<rparr>
           selection st"
  shows "\<exists>res. solve debug_tree run (overlay_load ov) default_preference lock_policy request = Inr res \<and>
           resolution_ok \<lparr>pv_loader = overlay_load ov, pv_preference = default_preference,
                          pv_lock_policy = lock_policy, pv_request = request\<rparr> res"
proof -
  let ?p = "\<lparr>pv_loader = overlay_load ov, pv_preference = default_preference, pv_lock_policy = lock_policy, pv_request = request\<rparr>"
  have ok: "candidate_ok c" if "overlay_load ov k = Inr r" "c \<in> set (lr_candidates r)" for k r c
    using overlay_loader.overlay_sound[OF overlay_stack[OF assms(3,4)] that] by blast
  have "hands_on_wf (overlay_load ov)"
    using assms(2) repository_load_wf
    by (intro overlay_load_wf[OF assms(4)] composite_load_wf assms(3)) (auto simp: list_all_iff)
  then have "solved pg ?p selection st"
    using assms(1,6) ok by (simp add: solved_def hands_on_wf_def)
  from finish_sound[OF this] show ?thesis using assms(5) by (auto simp: solve_def)
qed

theorem solve_over_repositories_witness:
  "\<exists>ov st res. solve (\<lambda>_. []) (\<lambda>_ _. (Inr ex_base_selection, st)) (overlay_load ov) default_preference prefer_locked ex_base_request =
      Inr res \<and> resolution_ok (ex_base_provider ov) res"
proof -
  obtain ov where ov: "overlay_new ex_sha (composite_load (\<lambda>cs. cs) (map repository_load [ex_repository ''main'' 0]))
      (rt_r_version (rq_target ex_base_request)) = Inr ov" using overlay_new_ok by blast
  then obtain c where c: "ex_base_loaded ov c"
    using ex_base_overlay[of ex_sha "[ex_repository ''main'' 0]" ov] by (auto simp: ex_base_request_def)
  have "\<exists>res. solve (\<lambda>_. []) (\<lambda>_ _. (Inr ex_base_selection, ex_base_state c)) (overlay_load ov) default_preference prefer_locked
      ex_base_request = Inr res \<and> resolution_ok (ex_base_provider ov) res"
    unfolding ex_base_provider_def
  proof (rule solve_over_repositories[OF list_api_laws _ refl ov, where run = "\<lambda>_ _. (Inr ex_base_selection, ex_base_state c)"])
    show "list_all raw_wf [ex_repository ''main'' 0]" using ex_raw_wf by simp
    show "pubgrub_answer list_api \<lparr>pv_loader = overlay_load ov, pv_preference = default_preference,
        pv_lock_policy = prefer_locked, pv_request = ex_base_request\<rparr> ex_base_selection (ex_base_state c)"
      using ex_base_answer[OF c] by (simp only: ex_base_provider_def)
  qed simp
  then show ?thesis by blast
qed

section \<open>Assignment comparison\<close>

text \<open>
  C28. Locks survive their file.  Given a \<^verbatim>\<open>toml\<close> crate that quotes strings so that they can be read back and
  deserializes what the TOML specification makes of a text, a canonical lock whose values came out of
  their constructors is written by \<^verbatim>\<open>to_toml\<close>, the text it writes is read by \<^verbatim>\<open>from_toml\<close> into a canonical lock
  that equals it, and writing that lock again gives the same text.
\<close>

theorem lock_wire_roundtrip:
  assumes "lock_ok lock" and "lock_ready ip strptime strftime lock"
    and "toml_writes lexer printer" and "toml_reads lexer from_str"
    and "\<And>wire. encode_lockfile strftime lock = Inr wire \<Longrightarrow> list_all utf8 (wire_texts wire)"
  shows "\<exists>t lock'. to_toml printer strftime lock = Inr t \<and> from_toml from_str ip strptime strftime t = Inr lock' \<and>
    lock_ok lock' \<and> lockfile_eq lock lock' \<and> to_toml printer strftime lock' = Inr t"
  using assms by (rule toml_roundtrip)

theorem lock_wire_roundtrip_witness:
  "\<exists>t lock'. to_toml ex_printer ex_strftime ex_lock = Inr t \<and>
     from_toml ex_from_str (\<lambda>_. None) (\<lambda>_. Inl []) ex_strftime t = Inr lock' \<and>
     lockfile_eq ex_lock lock' \<and> to_toml ex_printer ex_strftime lock' = Inr t"
  using lock_wire_roundtrip[OF ex_lock_ok ex_lock_ready ex_writes ex_reads ex_lock_texts] by blast

text \<open>
  C29. When a candidate is not explained away.  No difference is reported for a candidate exactly when
  it meets the required lock and the publication policy, occupies no name another package holds,
  satisfies the roots of its subject, the R version and every assigned dependency, and the assigned
  candidate is not preferred over it.
\<close>

theorem unexplained_candidates:
  "difference_for_candidate preference d c = None \<longleftrightarrow>
     (\<forall>i. dc_decision d = Require i \<longrightarrow> identity_eq (pc_identity c) i) \<and>
     (\<forall>cutoff. rq_publication_cutoff (dc_request d) = Some cutoff \<longrightarrow>
        is_r_base_package (pc_release c) \<or> is_locked_to (locked_identity (dc_decision d)) (pc_identity c) \<or>
        (\<exists>date. pk_publication (pc_release c) = Some date \<and> rp_date date \<le> cutoff)) \<and>
     (\<forall>other\<in>set (dc_selected_packages d). rp_name other = ri_name (pc_identity c) \<longrightarrow>
        solver_key_eq (rp_subject other) (dc_subject d) \<or> identity_eq (pk_identity (rp_release other)) (pc_identity c)) \<and>
     (\<forall>r\<in>set (rq_roots (dc_request d)). requires_subject (dc_request d) (dc_subject d) (rr_package r) \<longrightarrow>
        satisfies (pr_constraint (rr_package r)) (pk_version (pc_release c))) \<and>
     (\<forall>e\<in>set (project_dependency_edges (pc_release c) (dc_expansion d)).
        if pr_name (re_package e) = ''R'' then satisfies (pr_constraint (re_package e)) (dc_r_version d)
        else \<forall>key package. dependency_key (dc_request d) (pr_name (re_package e)) (pr_source (re_package e)) = Some key \<longrightarrow>
           find (\<lambda>package. solver_key_eq (rp_subject package) key) (dc_selected_packages d) = Some package \<longrightarrow>
           satisfies (pr_constraint (re_package e)) (pk_version (rp_release package))) \<and>
     (px_locked (dc_preference d) = None \<or> is_locked_to (px_locked (dc_preference d)) (pc_identity c)) \<and>
     compare_prepared_candidates preference (dc_subject d) (dc_selected_candidate d) c (dc_preference d) \<noteq> Greater"
  unfolding difference_None_iff required_lock_None publication_None name_conflict_None root_None r_None dependency_None
    preference_None statically_compatible_def locked_difference_def list_all_iff by auto

theorem unexplained_candidates_witness:
  "difference_for_candidate default_preference
     \<lparr>dc_selected = pc_release (ex_lib 2), dc_selected_candidate = ex_lib 2, dc_r_version = ex_version 4 4,
      dc_decision = Require (pc_identity (ex_lib 2)), dc_preference = \<lparr>px_locked = Some (pc_identity (ex_lib 2))\<rparr>,
      dc_subject = KeyInstalledName ''lib'', dc_selected_packages = [], dc_request = ex_request, dc_expansion = HardOnly\<rparr>
     (ex_lib 0) \<noteq> None"
  unfolding unexplained_candidates using ex_lib_distinct by simp

text \<open>
  C30. Every sound resolution can be compared.  Over a loader that respects the equality of subjects,
  as the program's loaders do, the comparison of a solved request succeeds: no selected release is
  ever absent from its subject's view, R comes first, and every package follows in name order under
  its own subject with its own release.
\<close>

theorem comparison_succeeds:
  assumes "pubgrub_laws pg" and "loader_cong loader"
    and "\<And>k r c. loader k = Inr r \<Longrightarrow> c \<in> set (lr_candidates r) \<Longrightarrow> candidate_ok c \<and> release_wf (pc_release c)"
    and "run \<lparr>pv_loader = loader, pv_preference = preference, pv_lock_policy = lock_policy, pv_request = request\<rparr>
           initial_state = (Inr selection, st)"
    and "pubgrub_answer pg
           \<lparr>pv_loader = loader, pv_preference = preference, pv_lock_policy = lock_policy, pv_request = request\<rparr>
           selection st"
  shows "\<exists>compared. resolve_with_assignment_comparison debug_tree run loader preference lock_policy request = Inr compared \<and>
    map as_subject (cr_comparison compared) =
      RSubject # map (\<lambda>x. subject_to_decision_subject (rp_subject x)) (rs_packages (cr_resolution compared)) \<and>
    map as_assigned (cr_comparison compared) =
      RCandidate (rt_r_version (rq_target request)) #
      map (\<lambda>x. candidate_for_subject (rp_subject x) (rp_release x)) (rs_packages (cr_resolution compared))"
proof -
  let ?p = "\<lparr>pv_loader = loader, pv_preference = preference, pv_lock_policy = lock_policy, pv_request = request\<rparr>"
  have "solved pg ?p selection st" using assms by (simp add: solved_def)
  from reconstruct_ok[OF this] assms(2) obtain res comparison where
    "finish ?p selection st = (Inr res, st)" "reconstruct_comparison ?p res = Inr comparison"
    "map as_subject comparison = RSubject # map (\<lambda>x. subject_to_decision_subject (rp_subject x)) (rs_packages res)"
    "map as_assigned comparison =
      RCandidate (pv_r_version ?p) # map (\<lambda>x. candidate_for_subject (rp_subject x) (rp_release x)) (rs_packages res)"
    by auto
  then show ?thesis
    using assms(4) by (simp add: resolve_with_assignment_comparison_def solve_def pv_r_version_def)
qed

theorem comparison_succeeds_witness:
  "\<exists>compared. resolve_with_assignment_comparison (\<lambda>_. []) (\<lambda>_ _. (Inr ex_selection, ex_state)) ex_load
      default_preference prefer_locked ex_request = Inr compared \<and>
    map as_subject (cr_comparison compared) =
      RSubject # map (\<lambda>x. subject_to_decision_subject (rp_subject x)) (rs_packages (cr_resolution compared))"
proof -
  have "loader_cong ex_load"
    unfolding loader_cong_def ex_load_def
  proof (intro allI impI)
    fix k k' assume "solver_key_eq k k'"
    then have "k = KeyInstalledName n \<longleftrightarrow> k' = KeyInstalledName n" for n by (cases k; cases k') auto
    then show "(if k = KeyInstalledName ''app'' then Inr \<lparr>lr_candidates = [ex_app], lr_quarantined = []\<rparr>
        else if k = KeyInstalledName ''lib'' then Inr \<lparr>lr_candidates = [ex_lib 0, ex_lib 2], lr_quarantined = []\<rparr>
        else Inl (candidate_load_error_new NotFound ''no such package'')) =
       (if k' = KeyInstalledName ''app'' then Inr \<lparr>lr_candidates = [ex_app], lr_quarantined = []\<rparr>
        else if k' = KeyInstalledName ''lib'' then Inr \<lparr>lr_candidates = [ex_lib 0, ex_lib 2], lr_quarantined = []\<rparr>
        else Inl (candidate_load_error_new NotFound ''no such package''))" by simp
  qed
  from comparison_succeeds[OF list_api_laws this, of "\<lambda>_ _. (Inr ex_selection, ex_state)" default_preference
      prefer_locked ex_request ex_selection ex_state "\<lambda>_. []"]
  show ?thesis using ex_loader_ok ex_answer by (auto simp: ex_provider_def)
qed

section \<open>Manifests\<close>

text \<open>
  C9. Decoded manifests are well-formed.  Whatever TOML value is decoded, a document that comes out has
  the known schema, distinct repositories with valid identifiers and non-empty sorted allowlists, sorted
  tables of dependencies with valid names and existing repositories, and environments that name
  existing groups once; and the binary search of an allowlist decides membership.
\<close>

theorem manifest_documents:
  assumes "parse_manifest_value ip api strptime strftime v project_root = Inr doc"
  shows "document_ok doc \<and>
    (\<forall>spec\<in>set (doc_repositories doc). \<forall>p.
       package_allowed spec p \<longleftrightarrow> (\<forall>ps. sp_packages spec = Some ps \<longrightarrow> p \<in> set ps))"
proof -
  have ok: "document_ok doc" by (rule parse_manifest_value_ok[OF assms])
  then have "packages_sorted spec" if "spec \<in> set (doc_repositories doc)" for spec
    using that by (simp add: document_ok_def repository_ok_def list_all_iff)
  then show ?thesis using ok package_allowed_iff by blast
qed

theorem manifest_documents_witness:
  "document_ok ex_document \<and> package_allowed (hd (doc_repositories ex_document)) ''lib'' \<and>
   \<not> package_allowed (hd (doc_repositories ex_document)) ''other''"
proof -
  have "doc_repositories ex_document \<noteq> []"
    "sp_packages (hd (doc_repositories ex_document)) = Some [''app'', ''lib'']" by code_simp+
  then show ?thesis using manifest_documents[OF ex_document] hd_in_set by fastforce
qed

text \<open>
  C31. Normalized paths lead where the written ones do.  With the meaning of a path given by walking its
  components from a directory: a subdirectory is accepted exactly when it is a relative slash path
  without control characters that never leaves the root and ends below it, and its normal form lists
  the names walked through; it is its own normal form and what \<^verbatim>\<open>RepositorySubdir::new\<close> accepts, a drive
  prefix apart.  A URL path is accepted exactly when it has no control or whitespace and never leaves
  the root, dots counted percent-encoded or not, and its normal form holds the segments walked through
  and no dot segment.  A requested path is accepted exactly when it is relative and does not only lead
  upwards; its normal form has its parent references in front, leads to the same place from every
  directory, and is its own normal form unless dropping dots made a drive prefix of it, which is then
  rejected.
\<close>

theorem manifest_paths:
  assumes "utf8 s"
  shows "(normalize_relative_subdirectory s = Inr d \<longleftrightarrow>
      \<not> starts_with ''/'' s \<and> CHR 0x5C \<notin> set s \<and> \<not> list_ex is_control (chars s) \<and>
      (\<exists>dir. walk [] (slash_split s) = Some dir \<and> dir \<noteq> [] \<and> d = join_str ''/'' (rev dir))) \<and>
    (normalize_relative_subdirectory s = Inr d \<longrightarrow>
      list_all plain (slash_split d) \<and> normalize_relative_subdirectory d = Inr d \<and>
      repository_subdir_new d = (if has_drive_prefix (hd (slash_split d)) then Inl WindowsDrivePrefix else Inr d)) \<and>
    (normalize_url_path s = Inr u \<longleftrightarrow>
      \<not> list_ex url_bad (chars s) \<and>
      (\<exists>dir. url_walk [] (url_segments s) = Some dir \<and> slash_split u = url_segments_of (starts_with ''/'' s) dir)) \<and>
    (normalize_url_path s = Inr u \<longrightarrow>
      list_all (\<lambda>x. percent_dots x \<noteq> ''.'' \<and> percent_dots x \<noteq> ''..'') (slash_split u) \<and> normalize_url_path u = Inr u) \<and>
    ((\<exists>w. normalize_requested_path s = Inr w) \<longleftrightarrow>
      \<not> starts_with ''/'' (slashes s) \<and> \<not> second_colon (slashes s) \<and> \<not> list_ex is_control (chars (slashes s)) \<and>
      \<not> only_ascends (slash_split (slashes s))) \<and>
    (normalize_requested_path s = Inr w \<longrightarrow>
      (\<forall>dir. walk dir (slash_split w) = walk dir (slash_split (slashes s))) \<and>
      (\<exists>k ys. slash_split w = replicate k ''..'' @ ys \<and> ys \<noteq> [] \<and> list_all plain ys) \<and>
      normalize_requested_path w =
        (if second_colon w then Inl ''path must not be absolute or use a drive/UNC prefix'' else Inr w))"
proof (intro conjI impI subdirectory_exact url_exact requested_exact(1))
  assume "normalize_relative_subdirectory s = Inr d"
  then obtain parts where d: "d = join_str ''/'' parts" "parts \<noteq> []" "list_all plain parts" "text_ok is_control d"
      "CHR 0x5C \<notin> set d"
    using subdirectory_Inr assms by blast
  then show "list_all plain (slash_split d)" "normalize_relative_subdirectory d = Inr d"
    "repository_subdir_new d = (if has_drive_prefix (hd (slash_split d)) then Inl WindowsDrivePrefix else Inr d)"
    using plain_join(3)[OF d(2,3)] subdirectory_normal[OF d(2,3)] subdirectory_accepted[OF d(2,3)] by simp_all
next
  assume "normalize_url_path s = Inr u"
  then obtain segments where u: "slash_split u = segments" "u \<noteq> []" "\<forall>x\<in>set segments. dot_segment_kind x = None"
      "text_ok url_bad u"
    using url_path_Inr assms by blast
  then show "list_all (\<lambda>x. percent_dots x \<noteq> ''.'' \<and> percent_dots x \<noteq> ''..'') (slash_split u)" "normalize_url_path u = Inr u"
    using url_path_normal[OF u] by (auto simp: list_all_iff dot_segment_percent split: if_splits)
next
  assume path: "normalize_requested_path s = Inr w"
  then show "\<forall>dir. walk dir (slash_split w) = walk dir (slash_split (slashes s))"
    "\<exists>k ys. slash_split w = replicate k ''..'' @ ys \<and> ys \<noteq> [] \<and> list_all plain ys"
    using requested_exact(2) by blast+
  obtain k ys where w: "w = join_str ''/'' (replicate k ''..'' @ ys)" "ys \<noteq> []" "list_all plain ys"
      "text_ok is_control w" "CHR 0x5C \<notin> set w"
    using path requested_Inr assms by blast
  show "normalize_requested_path w =
      (if second_colon w then Inl ''path must not be absolute or use a drive/UNC prefix'' else Inr w)"
    by (rule requested_normal[OF w(2,3,1,4,5)])
qed

theorem manifest_paths_witness:
  "normalize_relative_subdirectory ''pkg/lib'' = Inr ''pkg/lib'' \<and> normalize_requested_path ''../lib'' = Inr ''../lib'' \<and>
   normalize_relative_subdirectory ''pkg/../../lib'' \<noteq> Inr ''lib''"
proof -
  have "utf8 ''pkg/./r/../lib''" "normalize_relative_subdirectory ''pkg/./r/../lib'' = Inr ''pkg/lib''"
    "utf8 ''.././lib''" "normalize_requested_path ''.././lib'' = Inr ''../lib''" "\<not> second_colon ''../lib''"
    "utf8 ''pkg/../../lib''" "walk [] (slash_split ''pkg/../../lib'') = None" by code_simp+
  then show ?thesis
    using manifest_paths[of "''pkg/./r/../lib''" "''pkg/lib''" "[]" "[]"] manifest_paths[of "''.././lib''" "[]" "[]" "''../lib''"]
      manifest_paths[of "''pkg/../../lib''" "''lib''" "[]" "[]"]
    by auto
qed

text \<open>
  C33. Composition of an environment.  It never panics, and when it succeeds the environment has one root
  per declared name, in name order: a version satisfies it exactly when it satisfies every
  declaration of that name in the base dependencies and in the groups of the environment, it expands
  suggestions exactly when one of them asks for it, its source is one of theirs and none of them names
  another, and a repository it names exists and allows the package.
\<close>

theorem environment_composition:
  "(compose_environment_with_locked document input target locked = Inr env \<longrightarrow>
      composition_ok document input target locked env) \<and>
   compose_environment_with_locked document input target locked \<noteq> Inl (Panicked message)"
  using compose_ok compose_no_panic by blast

theorem environment_composition_witness: "composition_ok ex_document ''dev'' ex_target [] (ex_environment ''dev'')"
  using environment_composition[of ex_document "''dev''" ex_target "[]"] ex_environments(1) by blast

text \<open>
  C34. The intent digest identifies the intent.  For environments composed from decoded manifests, with
  texts below \<open>2\<^sup>6\<^sup>4\<close> bytes and dates spelled injectively, the digest is always computed, and unless
  SHA-256 collides on the two preimages two digests are equal exactly when environment, R requirement,
  cutoff, repositories and roots are the same, constraints up to the order of their clauses.
\<close>

theorem intent_digest_identifies:
  assumes "parse_manifest_value ip api strptime strftime v root = Inr doc"
    and "compose_environment_with_locked doc input target locked = Inr a"
    and "parse_manifest_value ip api strptime strftime v' root' = Inr doc'"
    and "compose_environment_with_locked doc' input' target' locked' = Inr b"
    and "list_all sized (intent_fields strftime a)" and "list_all sized (intent_fields strftime b)"
    and "\<And>d. strftime d \<noteq> []" and "\<And>d e. strftime d = strftime e \<Longrightarrow> d = e"
    and "\<And>bs. length (sha bs) = 32"
    and "sha (intent_preimage strftime a) = sha (intent_preimage strftime b) \<Longrightarrow>
           intent_preimage strftime a = intent_preimage strftime b"
  shows "\<exists>d e. resolution_intent_digest strftime sha a = Inr d \<and> resolution_intent_digest strftime sha b = Inr e \<and>
           (d = e \<longleftrightarrow> same_intent a b)"
proof -
  have wf: "intent_wf strftime a" "intent_wf strftime b"
    using composed_shape[OF parse_manifest_value_ok[OF assms(1)] compose_ok[OF assms(2)]]
      composed_shape[OF parse_manifest_value_ok[OF assms(3)] compose_ok[OF assms(4)]] assms(5,6)
    by (simp_all add: intent_wf_def)
  have "sha (intent_preimage strftime a) = sha (intent_preimage strftime b) \<longleftrightarrow> same_intent a b"
    using intent_fields_inject[of strftime, OF wf assms(7,8)] intent_preimage_inject[OF wf] assms(10) by metis
  then show ?thesis using intent_digest_ok[of sha, OF assms(9)] hex_string_inject by simp
qed

theorem intent_digest_identifies_witness:
  "resolution_intent_digest ex_strftime ex_intent_sha (ex_environment ''dev'') \<noteq>
   resolution_intent_digest ex_strftime ex_intent_sha (ex_environment ''default'')"
proof -
  have "\<not> same_intent (ex_environment ''dev'') (ex_environment ''default'')"
    by (simp add: same_intent_def ex_environment_names)
  then show ?thesis
    using intent_digest_identifies[of _ _ _ ex_strftime _ _ _ _ _ _ "ex_environment ''dev''" _ _ _ _ _ _
        "ex_environment ''default''" ex_intent_sha,
        OF ex_document ex_environments(1) ex_document ex_environments(2) ex_environment_sized ex_strftime_ok ex_intent_sha]
    by auto
qed

section \<open>Locks\<close>

text \<open>
  C35. Locks are canonical.  A lock that \<^verbatim>\<open>Lockfile::new\<close> returns has its packages sorted by name, one per
  name, each with its dependencies sorted, distinct and present in the lock and its repositories
  distinct, and a canonical R requirement its target satisfies; it passes both validations, and
  building a lock from its own contents returns it unchanged.
\<close>

theorem lock_canonical:
  assumes "lockfile_new intent r_requirement resolution = Inr lock"
  shows "lock_ok lock \<and> validate lock = Inr () \<and> validate_canonical_resolution (lf_resolution lock) = Inr () \<and>
    lockfile_new (lf_resolution_intent_sha256 lock) (lf_r_requirement lock) (lf_resolution lock) = Inr lock"
  using lockfile_new_ok(1)[OF assms] packages_ok_valid[of lock] lock_ok_new[of lock] by (simp add: lock_ok_def)

theorem lock_canonical_witness: "validate ex_lock = Inr () \<and> validate_canonical_resolution (lf_resolution ex_lock) = Inr ()"
  using lock_canonical[OF lock_ok_new[OF ex_lock_ok]] by blast

text \<open>
  C36. Marking terminates and is exact.  On a map of packages that is closed under dependencies the
  recursion of \<^verbatim>\<open>mark_reachable\<close> nests at most as deep as there are packages, cycles included: with any
  larger depth it returns, and adds to the marked names exactly what the package can reach.
\<close>

theorem marking_terminates:
  assumes "graph_ok m" and "map_of m (lp_name p) = Some p" and "closed m (set marked)" and "length m < depth"
  shows "\<exists>after. mark_reachable depth m marked p = Inr after \<and>
    set after = set marked \<union> {n. (depends_on m)\<^sup>*\<^sup>* (lp_name p) n}"
  using mark_reachable_exact[OF assms] by blast

theorem marking_terminates_witness:
  "\<exists>after. mark_reachable 3 (name_map_of (lk_packages (lf_resolution ex_lock))) []
      (locked_form ex_resolution (ex_resolved ex_app)) = Inr after \<and>
    set after = {n. (depends_on (name_map_of (lk_packages (lf_resolution ex_lock))))\<^sup>*\<^sup>* ''app'' n}"
proof -
  let ?ps = "lk_packages (lf_resolution ex_lock)"
  have ps: "packages_ok ?ps" using ex_lock_ok by (simp add: lock_ok_def)
  have app: "locked_form ex_resolution (ex_resolved ex_app) \<in> set ?ps"
    by (simp add: ex_lock_def resolution_lock_def ex_resolution_packages)
  have "length (name_map_of ?ps) < 3"
    using length_name_map_of[of ?ps] by (simp add: ex_lock_def resolution_lock_def ex_resolution_packages)
  moreover have "map_of (name_map_of ?ps) (lp_name (locked_form ex_resolution (ex_resolved ex_app))) =
      Some (locked_form ex_resolution (ex_resolved ex_app))"
    using ps app by (simp add: name_map_of_Some packages_ok_def)
  ultimately show ?thesis
    using marking_terminates[OF graph_ok_name_map[OF ps], of "locked_form ex_resolution (ex_resolved ex_app)" "[]" 3]
    by (simp add: closed_def ex_edges)
qed

text \<open>
  C37. Which locks are consumed.  \<^verbatim>\<open>consume_roots\<close> succeeds exactly on consumable locks: canonical and valid,
  for the requested target, environment and R requirement, every root met by a locked package, or by R for
  base packages, from a repository it is visible in, every locked package reachable from the roots, and,
  when repositories are configured, visible in them in their order and allowed by them.  The graph
  returned is the lock's, and no input makes it panic.
\<close>

theorem lock_consumption:
  "(consume_roots lock target environment r_requirement roots configured = Inr g \<longleftrightarrow>
      consumable lock target environment r_requirement roots configured \<and> g = graph_of lock) \<and>
   consume_roots lock target environment r_requirement roots configured \<noteq> Inl (Panicked message)"
  using consume_roots_iff consume_roots_no_panic by blast

text \<open>
  C38. Resolve, lock, consume.  The lock of a resolution that satisfies its request can be built, the same
  request consumes it, and the resolution passes the exactness check against the consumed graph.  The
  resolution lists packages with parsed versions, reachable from the roots, and no root is a base
  package.
\<close>

theorem locked_resolution_roundtrip:
  assumes "resolution_ok p res" and "\<forall>pkg\<in>set (rs_packages res). lockable pkg"
    and "\<forall>root\<in>set (rq_roots (pv_request p)). \<not> is_r_base_name (pr_name (rr_package root))"
    and "\<forall>root\<in>set (rq_roots (pv_request p)). requirement_wf (rr_package root)"
    and "base_names_only p"
    and "\<forall>pkg\<in>set (rs_packages res). \<exists>root\<in>set (rq_roots (pv_request p)).
      (resolved_depends res)\<^sup>*\<^sup>* (pr_name (rr_package root)) (rp_name pkg)"
  shows "\<exists>lock g. from_resolution_with_applicability res environment cutoff intent (rq_r_requirement (pv_request p)) = Inr lock \<and>
    consume_roots lock (rs_target res) environment (rq_r_requirement (pv_request p))
      (map request_root_check (rq_roots (pv_request p))) None = Inr g \<and>
    map lp_identity (cg_packages g) = map (\<lambda>pkg. pk_identity (rp_release pkg)) (rs_packages res) \<and>
    verify_exact_identity_set res g = Inr ()"
proof -
  let ?lock = "resolution_lock res environment cutoff intent (rq_r_requirement (pv_request p))"
  have "sorted_wrt (<) (map rp_name (rs_packages res))"
    "satisfies (rq_r_requirement (pv_request p)) (rt_r_version (rs_target res))"
    "\<forall>pkg\<in>set (rs_packages res). \<not> is_r_base_package (rp_release pkg)"
    using assms(1) by (simp_all add: resolution_ok_def pv_r_version_def)
  then have "from_resolution_with_applicability res environment cutoff intent (rq_r_requirement (pv_request p)) = Inr ?lock"
    "verify_exact_identity_set res (graph_of ?lock) = Inr ()"
    using locking_ok[OF _ assms(2)] verify_own_lock by (simp_all add: resolution_lock_def)
  moreover have "consume_roots ?lock (rs_target res) environment (rq_r_requirement (pv_request p))
      (map request_root_check (rq_roots (pv_request p))) None = Inr (graph_of ?lock)"
    using consume_roots_iff resolution_lock_consumable[OF assms] by blast
  moreover have "map lp_identity (cg_packages (graph_of ?lock)) = map (\<lambda>pkg. pk_identity (rp_release pkg)) (rs_packages res)"
    by (simp add: graph_of_def resolution_lock_def)
  ultimately show ?thesis by blast
qed

theorem locked_resolution_roundtrip_witness:
  "\<exists>lock g. from_resolution_with_applicability ex_resolution ''default'' None (replicate 64 CHR ''a'')
      (rq_r_requirement (pv_request ex_provider)) = Inr lock \<and>
    consume_roots lock (rs_target ex_resolution) ''default'' (rq_r_requirement (pv_request ex_provider))
      (map request_root_check (rq_roots (pv_request ex_provider))) None = Inr g \<and>
    map lp_identity (cg_packages g) = map (\<lambda>pkg. pk_identity (rp_release pkg)) (rs_packages ex_resolution) \<and>
    verify_exact_identity_set ex_resolution g = Inr ()"
  by (rule locked_resolution_roundtrip[OF ex_finished(2) ex_lockable ex_roots ex_base_names_only ex_reachable])



text \<open>
  C40. The exactness check.  A resolution passes it exactly when it has the releases of the lock, base
  packages apart: the same identities at equal versions.  When it does not, the error lists the keys of
  exactly the releases that are missing and of those that are extra.
\<close>

theorem exact_identity_check:
  "(verify_exact_identity_set res g = Inr () \<longleftrightarrow> same_set pair_eq (lock_releases g) (solved_releases res)) \<and>
   (verify_exact_identity_set res g = Inl (ExactIdentitySetMismatch missing extra) \<longrightarrow>
      set missing = (\<lambda>(i, v). semantic_identity_key i v) `
        {x \<in> set (lock_releases g). \<not> list_ex (pair_eq x) (solved_releases res)} \<and>
      set extra = (\<lambda>(i, v). semantic_identity_key i v) `
        {x \<in> set (solved_releases res). \<not> list_ex (pair_eq x) (lock_releases g)})"
proof (intro conjI impI)
  have sym: "pair_eq x y = pair_eq y x" for x y
    using id_eq.eq_sym vers_eq.eq_sym by (auto simp: pair_eq_def)
  show "verify_exact_identity_set res g = Inr () \<longleftrightarrow> same_set pair_eq (lock_releases g) (solved_releases res)"
    using sym by (auto simp: verify_exact_unfold Let_def set_difference_Nil same_set_def list_all_iff list_ex_iff)
next
  assume "verify_exact_identity_set res g = Inl (ExactIdentitySetMismatch missing extra)"
  then show "set missing = (\<lambda>(i, v). semantic_identity_key i v) `
        {x \<in> set (lock_releases g). \<not> list_ex (pair_eq x) (solved_releases res)}"
    "set extra = (\<lambda>(i, v). semantic_identity_key i v) `
        {x \<in> set (solved_releases res). \<not> list_ex (pair_eq x) (lock_releases g)}"
    by (simp_all add: verify_exact_unfold Let_def set_difference_def split: if_splits)
      (metis (no_types) set_canonical_keys set_map set_filter)+
qed

theorem exact_identity_check_witness:
  "same_set pair_eq (lock_releases (graph_of ex_lock)) (solved_releases ex_resolution)"
proof -
  have "\<forall>pkg\<in>set (rs_packages ex_resolution). \<not> is_r_base_package (rp_release pkg)"
    using ex_finished(2) by (simp add: resolution_ok_def)
  then show ?thesis using exact_identity_check[of ex_resolution "graph_of ex_lock"] verify_own_lock by (simp add: ex_lock_def)
qed

section \<open>Artifacts and repositories\<close>

text \<open>
  C22. Reading a download.  The loop of \<^verbatim>\<open>copy_compressed_input\<close> behaves like the reference \<^const>\<open>whole_input\<close> on
  the whole stream, however the reader cuts it into chunks and wherever it fails: the input is accepted
  exactly when it ends within the limit, at the declared size if there is one, and at most one byte
  more than the limit is ever written.
\<close>

theorem compressed_input:
  "copy_compressed_input expected path chunks =
     whole_input (map_option unat expected) max_compressed_input_bytes path (delivered chunks) (stream_failure chunks) \<and>
   length (snd (copy_compressed_input expected path chunks)) \<le>
     (case expected of Some e \<Rightarrow> unat e | None \<Rightarrow> max_compressed_input_bytes) + 1"
  unfolding copy_compressed_input_whole
  by (auto simp: whole_input_def Let_def split: option.splits)

text \<open>
  C32. Validation of archives.  An archive is accepted exactly when it unpacks into 1 to 100000 readable
  entries of at most 256 MiB, none of which leaves its root, and, for an expected release, exactly
  one of them is the package's \<^verbatim>\<open>DESCRIPTION\<close>: a regular file of at most 1 MiB whose package, version and
  Git provenance are those of the release.
\<close>

theorem archive_validation:
  "validate_source_archive ip unpack expectation b = Inr () \<longleftrightarrow>
     (\<exists>es. unpack b = Inr (map Inr es) \<and> archive_accepted ip expectation es)"
  by (rule validate_source_archive_iff)

text \<open>
  C10. The artifact cache.  After a successful commit, whichever calls of the file system failed before,
  every later commit and probe of the same artifact is that hit, reads no input and changes nothing; the
  stored bytes have the recorded digest and size and the declared size and checksums.  Unless the
  commit was itself a hit, what is stored is the input, and it passed the validation of archives.
\<close>

theorem cached_artifacts:
  assumes "commit_artifact sha md5 (validate_source_archive ip unpack) fault root nonces a expectation chunks cache
      = (Inr hit, cache')"
    and "\<And>x. length (sha x) = 32"
    and "\<And>d. Sha256Sum d \<in> set (sa_upstream_checksums a) \<Longrightarrow> sha256_digest_new d = Inr d"
    and "no_collision sha (ac_files cache (object_path root (hex_string (sha (delivered chunks))))) (delivered chunks)"
  shows "commit_artifact sha md5 archive_ok fault' root nonces' a expectation chunks' cache' = (Inr hit, cache') \<and>
    (case expectation of Some x \<Rightarrow> probe_artifact sha md5 root a x cache' = Inr (Some hit) | None \<Rightarrow> True) \<and>
    (\<exists>c. validate_checksums (sa_upstream_checksums a) = Inr c \<and> stored_artifact sha md5 a c cache' hit) \<and>
    (cache' = cache \<or>
     ac_files cache' (ca_object_path hit) = Some (delivered chunks) \<and>
     (\<exists>es. unpack (delivered chunks) = Inr (map Inr es) \<and> archive_accepted ip expectation es))"
proof -
  obtain c where c: "validate_checksums (sa_upstream_checksums a) = Inr c"
    and hit: "load_hit sha md5 root (descriptor_key_with_expectation sha a c expectation) a c cache' = Inr (Some hit)"
    and miss: "cache' = cache \<or> validate_source_archive ip unpack expectation (delivered chunks) = Inr ()
      \<and> ac_files cache' (ca_object_path hit) = Some (delivered chunks)"
    using commit_then_hit[OF assms] by blast
  have "case expectation of Some x \<Rightarrow> probe_artifact sha md5 root a x cache' = Inr (Some hit) | None \<Rightarrow> True"
    using c hit by (cases expectation) (simp_all add: probe_artifact_def)
  then show ?thesis
    using commit_hit[OF c hit] load_hit_stored[OF hit] c miss unfolding validate_source_archive_iff by blast
qed

theorem cached_artifacts_witness:
  "commit_artifact ex_sha ex_sha (\<lambda>_ _. Inl MissingDescription) (\<lambda>_. Some ''full'') ''/c'' (''4'', ''5'', ''6'') ex_source
     (Some ex_expectation) [] (snd ex_commit) = (Inr (projr (fst ex_commit)), snd ex_commit)"
proof -
  have "commit_artifact ex_sha ex_sha (validate_source_archive (\<lambda>_. None) ex_unpack) (\<lambda>_. None) ''/c'' (''1'', ''2'', ''3'') ex_source
      (Some ex_expectation) [Inr ''ab'', Inr ''c''] ex_cache = (Inr (projr (fst ex_commit)), snd ex_commit)"
    using ex_commit_ok unfolding ex_commit_def[symmetric] by (auto simp: prod_eq_iff is_ok_iff)
  from cached_artifacts[OF this ex_sha_length, where archive_ok = "\<lambda>_ _. Inl MissingDescription"
      and fault' = "\<lambda>_. Some ''full''" and nonces' = "(''4'', ''5'', ''6'')" and chunks' = "[]"]
  show ?thesis by (simp add: ex_source_def ex_cache_def no_collision_def)
qed

text \<open>
  C6. The package index.  Whatever \<^verbatim>\<open>PACKAGES\<close> text is written for ready artifacts (names and versions that
  parse, metadata without reserved fields), the strict reader of control files accepts it unchanged, and
  the fields of each record parse back to the artifact's name, version, publication date, dependencies
  and metadata, under the canonical spelling of the fields.
\<close>

theorem index_roundtrip:
  assumes "write_packages (cal_date_strftime cal) artifacts = Inr s" and "\<forall>a\<in>set artifacts. artifact_ready cal a"
  shows "normalize_line_endings s = Inr s \<and> validate_lines s = Inr () \<and>
    (\<forall>a\<in>set artifacts. \<exists>fs d. record_fields (cal_date_strftime cal) a = Inr fs \<and>
       parse_description_fields cal fs = Inr d \<and> desc_package d = ma_package a \<and> desc_version d = ma_version a \<and>
       desc_publication d = ma_publication a \<and> mset (desc_dependencies d) = mset (ma_dependencies a) \<and>
       desc_metadata d = index_metadata a)"
proof -
  have "\<exists>fs. record_fields (cal_date_strftime cal) a = Inr fs" if "a \<in> set artifacts" for a
    using write_packages_records[OF assms(1) that] .
  then show ?thesis using index_text[OF assms(1)] record_roundtrip assms(2) by meson
qed

theorem index_roundtrip_witness:
  "normalize_line_endings ex_index = Inr ex_index \<and> validate_lines ex_index = Inr () \<and>
   (\<exists>d. parse_description_fields ex_calendar ex_fields = Inr d \<and> desc_package d = ''app'' \<and>
      mset (desc_dependencies d) = mset (ma_dependencies ex_artifact))"
proof -
  have "write_packages (cal_date_strftime ex_calendar) [ex_artifact] = Inr ex_index"
    using ex_index by (simp add: ex_calendar_def)
  from index_roundtrip[OF this] ex_ready ex_record ex_artifact_package show ?thesis by auto
qed

text \<open>
  C7. Crash recovery.  A run that publishes a new repository may stop after any number \<open>k\<close> of its
  operations.  The next run finishes the transaction: it performs exactly the operations that are
  missing (if only the marker is missing it is rebuilt first), ends in the directory of an
  undisturbed run and returns its state.  Only a run that stopped with nothing but its staging
  directory is reported as ambiguous, and is left untouched.
\<close>

theorem crash_recovery:
  assumes "validate_inputs requested = Inr ()" and "build_repository env names requested = Inr (state, ops)"
    and "env_ok env names state" and "names_ok names" and "nonce_ok nonce"
    and "\<forall>a\<in>set requested. key_ok (ma_identity a)"
    and "unpublished (map_of d)" and "sorted_dir d" and "1 \<le> k"
  shows "if k = 1
    then materialize_locked env nonce names' (run_ops (take k ops) d) requested
      = Inl (TransactionConflict ''.rsolve'' ''orphaned transaction temporaries are ambiguous'')
    else \<exists>rest. materialize_locked env nonce names' (run_ops (take k ops) d) requested = Inr (state, rest) \<and>
      run_ops rest (run_ops (take k ops) d) = run_ops ops d \<and> (2 < k \<longrightarrow> rest = drop k ops)"
proof (cases "k = 1")
  case True
  then show ?thesis using interrupted_staging[OF assms(1,3,4,2,7,8)] by simp
next
  case False
  then show ?thesis using interrupted_run[OF assms(1,3,4,5,6,2,7,8), of k] assms(9) by simp
qed

theorem crash_recovery_witness:
  "\<exists>rest. materialize_locked ex_env ''2'' ex_names (run_ops (take 4 ex_ops) []) [ex_artifact] = Inr (ex_materialized, rest) \<and>
     run_ops rest (run_ops (take 4 ex_ops) []) = run_ops ex_ops [] \<and> rest = drop 4 ex_ops"
  using crash_recovery[OF ex_inputs ex_build ex_env_ok ex_names_ok ex_nonce_ok, of "[]" 4 ex_names] ex_key_ok
  by (simp add: unpublished_def sorted_dir_def)

text \<open>
  C20. Pak transactions.  A request is handed to pak exactly when its packages are distinct valid names and
  each has exactly one artifact with a valid version and digest; and what pak reports is accepted only
  if it names every requested package once, with its version, path and status.
\<close>

theorem pak_transactions:
  assumes "run_pak outcome request = Inr r"
  shows "request_ok request \<and> pt_calls r = pq_packages request \<and> distinct (map pi_name (pt_installed r)) \<and>
    set (map pi_name (pt_installed r)) = set (pq_packages request) \<and>
    (\<forall>p\<in>set (pt_installed r). pi_version p \<noteq> [] \<and> pi_path p \<noteq> [] \<and> pi_status p \<noteq> []) \<and>
    (\<forall>q. validate_request q = Inr () \<longleftrightarrow> request_ok q)"
proof -
  have ok: "request_ok request" and "\<exists>out. pak_result request out = Inr r"
    using assms by (auto simp: run_pak_def bind_res_Inr_iff simp flip: validate_request_iff)
  moreover have "distinct (pq_packages request)" using ok by (simp add: request_ok_def)
  ultimately show ?thesis using pak_result_Inr validate_request_iff by meson
qed

theorem pak_transactions_witness:
  "request_ok ex_pak_request \<and> map pi_name (pt_installed (projr (run_pak (Inr ex_pak_output) ex_pak_request))) = [''app'']"
proof -
  have "run_pak (Inr ex_pak_output) ex_pak_request = Inr (projr (run_pak (Inr ex_pak_output) ex_pak_request))"
    using ex_pak_ok by (auto simp: is_ok_iff)
  from pak_transactions[OF this] show ?thesis using ex_pak_names by blast
qed

end
